(* ===== verification/Prelude.thy ===== *)
theory Prelude
  imports Main "HOL-Library.AList" "HOL-Library.Sublist"
begin

text \<open>
  Shared ground of the development: the error values and results of the modelled
  TypeScript, the decimal printing of template literals, JavaScript's \<open>Map\<close> as an
  insertion-ordered association list, the contract of a keyed store as a locale, and the
  lemma collections the component theories add to.

  \<^item> A \<open>throw\<close> is a value \<open>Inl e\<close> with \<open>e\<close> a \<open>jserr\<close> (the \<open>name\<close> and \<open>message\<close>
    of the Error object); a normal return is \<open>Inr v\<close>. An operation on state returns the
    state in both cases, because what a method wrote before it threw stays written.
  \<^item> \<open>show_int n\<close> is what a template literal prints for an integral number.
  \<^item> \<open>('k, 'v) jsmap\<close> is the JavaScript \<open>Map\<close>: \<open>map_of\<close> is \<open>get\<close>,
    \<open>AList.update\<close> is \<open>set\<close> (it overwrites in place or appends, which is the
    insertion order \<open>Map\<close> iterates in) and \<open>AList.delete\<close> is \<open>delete\<close>.
\<close>

section \<open>Lemma collections\<close>

named_theorems frame \<open>what an operation leaves alone\<close>
named_theorems preserve \<open>operations keep their component's invariant\<close>
named_theorems jsmap_simps \<open>lookups after updates of insertion-ordered maps\<close>

section \<open>Errors and results\<close>

datatype jserr = JsErr (err_name: string) (err_message: string)

abbreviation Error :: "string \<Rightarrow> jserr" where
  "Error msg \<equiv> JsErr ''Error'' msg"

type_synonym 'a result = "jserr + 'a"
type_synonym ('s, 'a) outcome = "'s \<times> (jserr + 'a)"

text \<open>Statements in order, up to the first that throws.\<close>

fun run_steps :: "('s \<Rightarrow> ('s, unit) outcome) list \<Rightarrow> 's \<Rightarrow> ('s, unit) outcome" where
  "run_steps [] s = (s, Inr ())"
| "run_steps (f # fs) s = (case f s of (s1, Inl e) \<Rightarrow> (s1, Inl e) | (s1, Inr _) \<Rightarrow> run_steps fs s1)"

definition is_ok :: "jserr + 'a \<Rightarrow> bool" where
  "is_ok r \<longleftrightarrow> (case r of Inl _ \<Rightarrow> False | Inr _ \<Rightarrow> True)"

lemma is_ok_simps [simp]: "is_ok (Inr v)" "\<not> is_ok (Inl e)"
  by (simp_all add: is_ok_def)

section \<open>Decimal numbers in template literals\<close>

definition digit_char :: "nat \<Rightarrow> char" where
  "digit_char n = ''0123456789'' ! n"

fun show_nat :: "nat \<Rightarrow> string" where
  "show_nat n =
     (if n < 10 then [digit_char n] else show_nat (n div 10) @ [digit_char (n mod 10)])"

declare show_nat.simps [simp del]

definition show_int :: "int \<Rightarrow> string" where
  "show_int i = (if i < 0 then CHR ''-'' # show_nat (nat (- i)) else show_nat (nat i))"

definition is_digit :: "char \<Rightarrow> bool" where
  "is_digit c \<longleftrightarrow> c \<in> set ''0123456789''"

definition digit_val :: "char \<Rightarrow> nat" where
  "digit_val c = of_char c - 48"

definition read_nat :: "string \<Rightarrow> nat" where
  "read_nat s = foldl (\<lambda>n c. 10 * n + digit_val c) 0 s"

lemma less_10_cases:
  assumes "n < (10 :: nat)"
  obtains "n = 0" | "n = 1" | "n = 2" | "n = 3" | "n = 4"
    | "n = 5" | "n = 6" | "n = 7" | "n = 8" | "n = 9"
  using assms by (cases "n < 5") (auto simp: numeral_eq_Suc less_Suc_eq)

lemma is_digit_digit_char [simp]: "n < 10 \<Longrightarrow> is_digit (digit_char n)"
  by (erule less_10_cases) (simp_all add: is_digit_def digit_char_def)

lemma digit_val_digit_char [simp]: "n < 10 \<Longrightarrow> digit_val (digit_char n) = n"
  by (erule less_10_cases) (simp_all add: digit_val_def digit_char_def)

lemma show_nat_nonempty [simp]: "show_nat n \<noteq> []"
  by (subst show_nat.simps) simp

lemma show_nat_digits: "list_all is_digit (show_nat n)"
proof (induction n rule: show_nat.induct)
  case (1 n)
  then show ?case by (subst show_nat.simps) simp
qed

lemma show_nat_is_digit: "c \<in> set (show_nat n) \<Longrightarrow> is_digit c"
  using show_nat_digits by (simp add: list_all_iff)

lemma read_nat_snoc: "read_nat (s @ [c]) = 10 * read_nat s + digit_val c"
  by (simp add: read_nat_def)

lemma read_show_nat [simp]: "read_nat (show_nat n) = n"
proof (induction n rule: show_nat.induct)
  case (1 n)
  then show ?case
    by (subst show_nat.simps) (auto simp: read_nat_snoc, simp add: read_nat_def)
qed

lemma show_nat_inject [simp]: "show_nat m = show_nat n \<longleftrightarrow> m = n"
  by (metis read_show_nat)

lemma show_nat_hd_digit [simp]: "is_digit (hd (show_nat n))"
  by (rule show_nat_is_digit [where n = n]) simp

lemma show_nat_no_sep:
  "CHR '':'' \<notin> set (show_nat n)" "CHR ''-'' \<notin> set (show_nat n)"
  using show_nat_is_digit [of _ n] by (auto simp: is_digit_def)

lemma show_int_nonempty [simp]: "show_int i \<noteq> []"
  by (simp add: show_int_def)

lemma show_int_inject [simp]: "show_int i = show_int j \<longleftrightarrow> i = j"
proof
  assume eq: "show_int i = show_int j"
  have neq: "CHR ''-'' # s \<noteq> show_nat n" for s n
    using show_nat_no_sep(2) [of n] by (metis list.set_intros(1))
  from eq show "i = j"
    using neq neq [symmetric] by (auto simp: show_int_def split: if_splits)
qed simp

lemma show_int_no_colon: "CHR '':'' \<notin> set (show_int i)"
  by (simp add: show_int_def show_nat_no_sep)

text \<open>
  Strings joined by a separator that the second part cannot hold are told apart: the shape
  of every composite key of the program (\<open>agent:tick\<close>).
\<close>

lemma last_sep_inject:
  assumes eq: "a @ c # s = b @ c # t" and "c \<notin> set s" and "c \<notin> set t"
  shows "a = b \<and> s = t"
  using eq
proof (induction a arbitrary: b)
  case Nil
  then show ?case using assms by (cases b) auto
next
  case (Cons x a)
  then show ?case using assms by (cases b) auto
qed

section \<open>Splitting strings\<close>

text \<open>\<open>s.split(c)\<close> for a separator of one character.\<close>

fun split_on :: "char \<Rightarrow> string \<Rightarrow> string list" where
  "split_on c [] = [[]]"
| "split_on c (x # xs) =
     (if x = c then [] # split_on c xs
      else (case split_on c xs of p # ps \<Rightarrow> (x # p) # ps | [] \<Rightarrow> [[x]]))"

lemma split_on_no_sep: "c \<notin> set s \<Longrightarrow> split_on c s = [s]"
  by (induction s) auto

lemma split_on_nonempty [simp]: "split_on c s \<noteq> []"
  by (induction s) (auto split: list.split)

lemma split_on_append:
  "c \<notin> set a \<Longrightarrow> split_on c (a @ c # s) = a # split_on c s"
  by (induction a) auto

lemma length_split_on: "length (split_on c s) = Suc (count_list s c)"
  by (induction s) (auto split: list.split)

text \<open>\<open>s.includes(t)\<close>.\<close>

definition str_includes :: "string \<Rightarrow> string \<Rightarrow> bool" where
  "str_includes s t \<longleftrightarrow> list_ex (prefix t) (suffixes s)"

section \<open>Insertion-ordered maps\<close>

type_synonym ('k, 'v) jsmap = "('k \<times> 'v) list"

definition map_has :: "('k, 'v) jsmap \<Rightarrow> 'k \<Rightarrow> bool" where
  "map_has m k \<longleftrightarrow> map_of m k \<noteq> None"

definition map_get_or :: "'v \<Rightarrow> ('k, 'v) jsmap \<Rightarrow> 'k \<Rightarrow> 'v" where
  "map_get_or d m k = (case map_of m k of None \<Rightarrow> d | Some v \<Rightarrow> v)"

lemma map_of_update [simp, jsmap_simps]:
  "map_of (AList.update k v m) k' = (if k' = k then Some v else map_of m k')"
  by (simp add: update_conv')

lemma map_of_delete [simp, jsmap_simps]:
  "map_of (AList.delete k m) k' = (if k' = k then None else map_of m k')"
  by (simp add: delete_conv')

lemma map_has_update [simp, jsmap_simps]:
  "map_has (AList.update k v m) k' \<longleftrightarrow> k' = k \<or> map_has m k'"
  by (simp add: map_has_def)

lemma map_has_Some: "map_of m k = Some v \<Longrightarrow> map_has m k"
  by (simp add: map_has_def)

lemma map_has_dom: "map_has m k \<longleftrightarrow> k \<in> fst ` set m"
  by (simp add: map_has_def map_of_eq_None_iff)

lemma map_get_or_update [simp, jsmap_simps]:
  "map_get_or d (AList.update k v m) k' = (if k' = k then v else map_get_or d m k')"
  by (simp add: map_get_or_def)

lemma update_fresh: "\<not> map_has m k \<Longrightarrow> AList.update k v m = m @ [(k, v)]"
  by (induction m) (auto simp: map_has_def split: if_splits)

lemma keys_update:
  "map fst (AList.update k v m) = (if map_has m k then map fst m else map fst m @ [k])"
  by (induction m) (auto simp: map_has_def)

lemma distinct_keys_update [preserve]:
  "distinct (map fst m) \<Longrightarrow> distinct (map fst (AList.update k v m))"
  by (rule distinct_update)

section \<open>The contract of a keyed store\<close>

text \<open>
  Several components hold one value per key and promise the same laws of lookup, overwrite
  and removal; each discharges them by an interpretation on its own operations.
\<close>

locale keyed_store =
  fixes get :: "'s \<Rightarrow> 'k \<Rightarrow> 'v option"
    and put :: "'k \<Rightarrow> 'v \<Rightarrow> 's \<Rightarrow> 's"
    and del :: "'k \<Rightarrow> 's \<Rightarrow> 's"
  assumes get_put: "get (put k v s) k' = (if k' = k then Some v else get s k')"
    and get_del: "get (del k s) k' = (if k' = k then None else get s k')"
begin

lemma get_put_same: "get (put k v s) k = Some v"
  by (simp add: get_put)

lemma get_put_other: "k' \<noteq> k \<Longrightarrow> get (put k v s) k' = get s k'"
  by (simp add: get_put)

lemma put_put_same: "get (put k w (put k v s)) = get (put k w s)"
  by (rule ext) (simp add: get_put)

lemma put_commute:
  "k \<noteq> k' \<Longrightarrow> get (put k v (put k' w s)) = get (put k' w (put k v s))"
  by (rule ext) (simp add: get_put)

lemma put_del: "get (put k v (del k s)) = get (put k v s)"
  by (rule ext) (simp add: get_put get_del)

lemma del_put_fresh: "get s k = None \<Longrightarrow> get (del k (put k v s)) = get s"
  by (rule ext) (simp add: get_put get_del)

end

interpretation jsmap_store:
  keyed_store "map_of :: ('k, 'v) jsmap \<Rightarrow> 'k \<Rightarrow> 'v option" AList.update AList.delete
  by unfold_locales simp_all

end
