(* ===== verification/JsValue.thy ===== *)
theory JsValue
  imports Prelude "HOL-Library.List_Lexorder" "HOL-Library.Char_ord"
begin

text \<open>
  JavaScript values as the kernel passes them around (\<open>unknown\<close>, \<open>any\<close> and \<open>Value\<close> of
  memory/types.ts), and the operations of the language the kernel applies to them:
  truthiness, \<open>===\<close>, \<open>JSON.stringify\<close>, the clone \<open>JSON.parse(JSON.stringify(v))\<close>,
  \<open>stableStringify\<close> of execution/scheduler.ts and \<open>deepEqual\<close> of
  execution/replay-controller.ts.

  A value is the tree a JavaScript value spans. \<open>JObj\<close> lists an object's own enumerable
  properties in their order, \<open>JFun\<close> is a function (named, so that \<open>===\<close> can tell two apart)
  and \<open>JCyc\<close> marks a reference back to an enclosing object, where a traversal of the value
  does not end. Numbers: \<open>NInt i\<close> is the double with integral value \<open>i\<close> (the program's
  counters and timestamps stay far below \<open>2 ^ 53\<close>), \<open>NDec lit\<close> any other finite double,
  named by its literal, and \<open>-0\<close>, \<open>NaN\<close> and the infinities have constructors of their own.
  Strings are lists of code units below 256. A user-defined \<open>toJSON\<close> method is not modelled.
\<close>

section \<open>Values\<close>

datatype jsnum = NInt int | NDec string | NNegZero | NNaN | NInf bool

datatype jsval =
    JUndef
  | JNull
  | JBool bool
  | JNum jsnum
  | JStr string
  | JArr "jsval list"
  | JObj "(string \<times> jsval) list"
  | JFun string
  | JBigInt int
  | JCyc

abbreviation jint :: "int \<Rightarrow> jsval" where
  "jint i \<equiv> JNum (NInt i)"

definition js_truthy :: "jsval \<Rightarrow> bool" where
  "js_truthy v \<longleftrightarrow>
     (case v of
        JUndef \<Rightarrow> False
      | JNull \<Rightarrow> False
      | JBool b \<Rightarrow> b
      | JNum n \<Rightarrow> n \<noteq> NInt 0 \<and> n \<noteq> NNegZero \<and> n \<noteq> NNaN
      | JStr s \<Rightarrow> s \<noteq> []
      | JBigInt i \<Rightarrow> i \<noteq> 0
      | _ \<Rightarrow> True)"

definition js_is_object :: "jsval \<Rightarrow> bool" where
  "js_is_object v \<longleftrightarrow> (case v of JArr _ \<Rightarrow> True | JObj _ \<Rightarrow> True | JCyc \<Rightarrow> True | _ \<Rightarrow> False)"

text \<open>\<open>v.k\<close> for an own property \<open>k\<close>; \<open>undefined\<close> where there is none.\<close>

fun js_prop :: "jsval \<Rightarrow> string \<Rightarrow> jsval" where
  "js_prop (JObj kvs) k = (case map_of kvs k of None \<Rightarrow> JUndef | Some v \<Rightarrow> v)"
| "js_prop _ k = JUndef"

text \<open>\<open>===\<close> on values other than objects.\<close>

fun js_strict_eq :: "jsval \<Rightarrow> jsval \<Rightarrow> bool" where
  "js_strict_eq (JNum m) (JNum n) =
     (let z = (\<lambda>k. if k = NNegZero then NInt 0 else k) in m \<noteq> NNaN \<and> z m = z n)"
| "js_strict_eq a b = (\<not> js_is_object a \<and> a = b)"

section \<open>Well-formed values\<close>

definition num_char :: "char \<Rightarrow> bool" where
  "num_char c \<longleftrightarrow> c \<in> set ''0123456789+-.eE''"

text \<open>The literal of a finite double that is not integral: sign, digits, then a fraction or
  an exponent, as the JSON grammar has it.\<close>

definition exp_ok :: "string \<Rightarrow> bool" where
  "exp_ok s \<longleftrightarrow>
     (case s of
        [] \<Rightarrow> True
      | c # r \<Rightarrow> c \<in> set ''eE'' \<and>
          (let ds = (case r of [] \<Rightarrow> [] | d # r' \<Rightarrow> if d \<in> set ''+-'' then r' else r)
           in ds \<noteq> [] \<and> list_all is_digit ds))"

definition frac_ok :: "string \<Rightarrow> bool" where
  "frac_ok s \<longleftrightarrow>
     (case s of
        [] \<Rightarrow> True
      | c # r \<Rightarrow>
          if c = CHR ''.''
          then takeWhile is_digit r \<noteq> [] \<and> exp_ok (dropWhile is_digit r)
          else exp_ok s)"

definition unsigned_of :: "string \<Rightarrow> string" where
  "unsigned_of s = (case s of [] \<Rightarrow> [] | c # r \<Rightarrow> if c = CHR ''-'' then r else s)"

definition json_number :: "string \<Rightarrow> bool" where
  "json_number s \<longleftrightarrow>
     (let u = unsigned_of s; ip = takeWhile is_digit u
      in ip \<noteq> [] \<and> (hd ip = CHR ''0'' \<longrightarrow> length ip = 1) \<and> frac_ok (dropWhile is_digit u))"

definition int_literal :: "string \<Rightarrow> bool" where
  "int_literal s \<longleftrightarrow> list_all is_digit (unsigned_of s)"

fun wf_num :: "jsnum \<Rightarrow> bool" where
  "wf_num (NDec s) \<longleftrightarrow> list_all num_char s \<and> json_number s \<and> \<not> int_literal s"
| "wf_num _ \<longleftrightarrow> True"

text \<open>Own property names are distinct, in every object of the value.\<close>

fun wf_js :: "jsval \<Rightarrow> bool" where
  "wf_js (JNum n) \<longleftrightarrow> wf_num n"
| "wf_js (JArr xs) \<longleftrightarrow> (\<forall>x \<in> set xs. wf_js x)"
| "wf_js (JObj kvs) \<longleftrightarrow> distinct (map fst kvs) \<and> (\<forall>(k, v) \<in> set kvs. wf_js v)"
| "wf_js _ \<longleftrightarrow> True"

text \<open>The values JSON has a text for (INV-11): no function, \<open>undefined\<close>, BigInt or cycle, and
  only the numbers that survive the text.\<close>

fun is_json :: "jsval \<Rightarrow> bool" where
  "is_json JNull \<longleftrightarrow> True"
| "is_json (JBool b) \<longleftrightarrow> True"
| "is_json (JNum n) \<longleftrightarrow> (case n of NInt _ \<Rightarrow> True | NDec _ \<Rightarrow> True | _ \<Rightarrow> False)"
| "is_json (JStr s) \<longleftrightarrow> True"
| "is_json (JArr xs) \<longleftrightarrow> (\<forall>x \<in> set xs. is_json x)"
| "is_json (JObj kvs) \<longleftrightarrow> (\<forall>(k, v) \<in> set kvs. is_json v)"
| "is_json _ \<longleftrightarrow> False"

section \<open>The clone JSON.parse(JSON.stringify(v))\<close>

fun first_error :: "jserr option list \<Rightarrow> jserr option" where
  "first_error [] = None"
| "first_error (Some e # _) = Some e"
| "first_error (None # es) = first_error es"

lemma first_error_None [simp]: "first_error es = None \<longleftrightarrow> (\<forall>e \<in> set es. e = None)"
  by (induction es rule: first_error.induct) auto

text \<open>The error \<open>JSON.stringify\<close> throws, if it throws.\<close>

fun json_error :: "jsval \<Rightarrow> jserr option" where
  "json_error (JBigInt i) = Some (JsErr ''TypeError'' ''Do not know how to serialize a BigInt'')"
| "json_error JCyc = Some (JsErr ''TypeError'' ''Converting circular structure to JSON'')"
| "json_error (JArr xs) = first_error (map json_error xs)"
| "json_error (JObj kvs) = first_error (map (\<lambda>(k, v). json_error v) kvs)"
| "json_error _ = None"

text \<open>What is left of a value after the round trip; \<open>None\<close> where \<open>JSON.stringify\<close> gives
  \<open>undefined\<close> (such a property is dropped, such an element becomes \<open>null\<close>).\<close>

fun json_image :: "jsval \<Rightarrow> jsval option" where
  "json_image JUndef = None"
| "json_image (JFun f) = None"
| "json_image (JBigInt i) = None"
| "json_image JCyc = None"
| "json_image (JNum n) =
     Some (case n of NInt i \<Rightarrow> JNum n | NDec s \<Rightarrow> JNum n | NNegZero \<Rightarrow> jint 0 | _ \<Rightarrow> JNull)"
| "json_image (JArr xs) =
     Some (JArr (map (\<lambda>x. case json_image x of None \<Rightarrow> JNull | Some v \<Rightarrow> v) xs))"
| "json_image (JObj kvs) =
     Some (JObj (concat (map (\<lambda>(k, v). case json_image v of None \<Rightarrow> [] | Some w \<Rightarrow> [(k, w)]) kvs)))"
| "json_image v = Some v"

definition undefined_not_json :: jserr where
  "undefined_not_json = JsErr ''SyntaxError'' (CHR 0x22 # ''undefined'' @ CHR 0x22 # '' is not valid JSON'')"

definition json_clone :: "jsval \<Rightarrow> jserr + jsval" where
  "json_clone v =
     (case json_error v of
        Some e \<Rightarrow> Inl e
      | None \<Rightarrow> (case json_image v of None \<Rightarrow> Inl undefined_not_json | Some w \<Rightarrow> Inr w))"

lemma is_json_json_error: "is_json v \<Longrightarrow> json_error v = None"
  by (induction v rule: json_error.induct) auto

lemma concat_map_singleton:
  "(\<And>x. x \<in> set xs \<Longrightarrow> f x = [x]) \<Longrightarrow> concat (map f xs) = xs"
  by (induction xs) auto

lemma is_json_json_image: "is_json v \<Longrightarrow> json_image v = Some v"
proof (induction v rule: is_json.induct)
  case (5 xs)
  then show ?case by (auto intro!: map_idI)
next
  case (6 kvs)
  then show ?case by (auto intro!: concat_map_singleton)
qed (auto split: jsnum.splits)

lemma json_clone_json [simp]: "is_json v \<Longrightarrow> json_clone v = Inr v"
  by (simp add: json_clone_def is_json_json_error is_json_json_image)

lemma json_image_is_json: "json_image v = Some w \<Longrightarrow> is_json w"
proof (induction v arbitrary: w rule: json_image.induct)
  case (6 xs)
  then show ?case by (auto split: option.splits)
next
  case (7 kvs)
  then show ?case by (fastforce split: option.splits)
qed (auto split: jsnum.splits)

lemma json_clone_is_json: "json_clone v = Inr w \<Longrightarrow> is_json w"
  by (auto simp: json_clone_def json_image_is_json split: option.splits)

abbreviation image_props :: "(string \<times> jsval) list \<Rightarrow> (string \<times> jsval) list" where
  "image_props kvs \<equiv>
     concat (map (\<lambda>(k, v). case json_image v of None \<Rightarrow> [] | Some w \<Rightarrow> [(k, w)]) kvs)"

lemma image_props_set:
  "(k, w) \<in> set (image_props kvs) \<longleftrightarrow> (\<exists>v. (k, v) \<in> set kvs \<and> json_image v = Some w)"
  by (induction kvs) (auto split: option.splits)

lemma image_props_keys: "k \<in> fst ` set (image_props kvs) \<Longrightarrow> k \<in> fst ` set kvs"
  by (metis (no_types, lifting) image_props_set fst_conv imageE image_eqI prod.collapse)

lemma json_image_distinct: "distinct (map fst kvs) \<Longrightarrow> distinct (map fst (image_props kvs))"
proof (induction kvs)
  case (Cons kv kvs)
  have "fst kv \<notin> fst ` set kvs" using Cons.prems by simp
  then have "fst kv \<notin> fst ` set (image_props kvs)"
    using image_props_keys by blast
  then show ?case using Cons by (cases kv) (auto split: option.splits)
qed simp

lemma json_image_wf: "wf_js v \<Longrightarrow> json_image v = Some w \<Longrightarrow> wf_js w"
proof (induction v arbitrary: w rule: json_image.induct)
  case (6 xs)
  then show ?case by (auto split: option.splits)
next
  case (7 kvs)
  have "wf_js x" if "(k, v) \<in> set kvs" "json_image v = Some x" for k v x
    using 7 that by auto
  then have "\<forall>(k, x) \<in> set (image_props kvs). wf_js x"
    by (force simp: image_props_set simp del: set_concat)
  then show ?case using 7(2,3) json_image_distinct [of kvs] by auto
qed (auto split: jsnum.splits)

lemma json_clone_wf: "wf_js v \<Longrightarrow> json_clone v = Inr w \<Longrightarrow> wf_js w"
  by (auto simp: json_clone_def json_image_wf split: option.splits)

end
