(* ===== verification/JsRecord.thy ===== *)
theory JsRecord
  imports JsValue
begin

text \<open>
  A plain JavaScript object used as a dictionary (\<open>Record<string, Value>\<close>), as the memory
  stores and the handler table of the tool gate use it: \<open>obj[k]\<close> reads an own property or one
  inherited along the prototype chain, \<open>obj[k] = v\<close> creates or overwrites an own property,
  except that \<open>__proto__\<close> is an accessor of \<open>Object.prototype\<close> which replaces the prototype,
  and \<open>delete obj[k]\<close> removes an own property.

  \<open>proto r = None\<close> is the prototype \<open>Object.prototype\<close> of a literal \<open>{}\<close>; \<open>Some p\<close> is a
  prototype set through \<open>__proto__\<close>, which is \<open>null\<close>, an array or an object.
\<close>

record jsrec =
  props :: "(string \<times> jsval) list"
  proto :: "jsval option"

definition empty_rec :: jsrec where
  "empty_rec = \<lparr>props = [], proto = None\<rparr>"

definition object_methods :: "string list" where
  "object_methods =
     [''constructor'', ''hasOwnProperty'', ''isPrototypeOf'', ''propertyIsEnumerable'',
      ''toLocaleString'', ''toString'', ''valueOf'', ''__defineGetter__'', ''__defineSetter__'',
      ''__lookupGetter__'', ''__lookupSetter__'']"

definition array_methods :: "string list" where
  "array_methods =
     [''at'', ''concat'', ''copyWithin'', ''entries'', ''every'', ''fill'', ''filter'', ''find'',
      ''findIndex'', ''findLast'', ''findLastIndex'', ''flat'', ''flatMap'', ''forEach'',
      ''includes'', ''indexOf'', ''join'', ''keys'', ''lastIndexOf'', ''map'', ''pop'', ''push'',
      ''reduce'', ''reduceRight'', ''reverse'', ''shift'', ''slice'', ''some'', ''sort'',
      ''splice'', ''toReversed'', ''toSorted'', ''toSpliced'', ''unshift'', ''values'', ''with'']"

definition proto_key :: string where
  "proto_key = ''__proto__''"

text \<open>A key no prototype of a JSON value or of \<open>{}\<close> knows.\<close>

definition plain_key :: "string \<Rightarrow> bool" where
  "plain_key k \<longleftrightarrow> k \<noteq> proto_key \<and> k \<notin> set object_methods"

definition object_prototype_get :: "string \<Rightarrow> jsval" where
  "object_prototype_get k = (if k \<in> set object_methods then JFun k else JUndef)"

text \<open>\<open>obj[k]\<close>. Reading \<open>__proto__\<close> gives the prototype itself; \<open>Object.prototype\<close> has no own
  enumerable properties, so as a value it is \<open>{}\<close>.\<close>

definition array_index :: "string \<Rightarrow> jsval list \<Rightarrow> nat option" where
  "array_index k xs =
     (if \<exists>i < length xs. show_nat i = k then Some (read_nat k) else None)"

fun inherited_get :: "jsval option \<Rightarrow> string \<Rightarrow> jsval" where
  "inherited_get None k = (if k = proto_key then JObj [] else object_prototype_get k)"
| "inherited_get (Some (JObj m)) k =
     (case map_of m k of
        Some v \<Rightarrow> v
      | None \<Rightarrow> if k = proto_key then JObj m else object_prototype_get k)"
| "inherited_get (Some (JArr xs)) k =
     (case array_index k xs of
        Some i \<Rightarrow> xs ! i
      | None \<Rightarrow>
          if k = ''length'' then jint (int (length xs))
          else if k = proto_key then JArr xs
          else if k \<in> set array_methods then JFun k
          else object_prototype_get k)"
| "inherited_get (Some _) k = JUndef"

definition rec_get :: "jsrec \<Rightarrow> string \<Rightarrow> jsval" where
  "rec_get r k =
     (case map_of (props r) k of Some v \<Rightarrow> v | None \<Rightarrow> inherited_get (proto r) k)"

text \<open>\<open>obj[k] = v\<close>: the accessor \<open>__proto__\<close> is found only if no own property hides it and the
  chain still ends in \<open>Object.prototype\<close>.\<close>

definition own_put :: "string \<Rightarrow> jsval \<Rightarrow> jsrec \<Rightarrow> jsrec" where
  "own_put k v r = r\<lparr>props := AList.update k v (props r)\<rparr>"

definition proto_accessor :: "jsrec \<Rightarrow> bool" where
  "proto_accessor r \<longleftrightarrow>
     map_of (props r) proto_key = None \<and>
     (case proto r of
        Some JNull \<Rightarrow> False
      | Some (JObj m) \<Rightarrow> map_of m proto_key = None
      | _ \<Rightarrow> True)"

definition rec_put :: "string \<Rightarrow> jsval \<Rightarrow> jsrec \<Rightarrow> jsrec" where
  "rec_put k v r =
     (if k = proto_key \<and> proto_accessor r then
        (case v of
           JNull \<Rightarrow> r\<lparr>proto := Some JNull\<rparr>
         | JObj m \<Rightarrow> r\<lparr>proto := Some v\<rparr>
         | JArr xs \<Rightarrow> r\<lparr>proto := Some v\<rparr>
         | _ \<Rightarrow> r)
      else own_put k v r)"

definition rec_del :: "string \<Rightarrow> jsrec \<Rightarrow> jsrec" where
  "rec_del k r = r\<lparr>props := AList.delete k (props r)\<rparr>"

text \<open>\<open>JSON.parse(JSON.stringify(obj))\<close>: the own properties, in a fresh object.\<close>

definition rec_clone :: "jsrec \<Rightarrow> jserr + jsrec" where
  "rec_clone r =
     (case json_error (JObj (props r)) of
        Some e \<Rightarrow> Inl e
      | None \<Rightarrow> Inr \<lparr>props = image_props (props r), proto = None\<rparr>)"

definition rec_own :: "jsrec \<Rightarrow> string \<Rightarrow> jsval option" where
  "rec_own r k = map_of (props r) k"

text \<open>Records whose own properties are JSON values with distinct names: what the stores keep.\<close>

definition rec_ok :: "jsrec \<Rightarrow> bool" where
  "rec_ok r \<longleftrightarrow>
     distinct (map fst (props r)) \<and> (\<forall>(k, v) \<in> set (props r). is_json v \<and> wf_js v)"

interpretation own_store: keyed_store rec_own own_put rec_del
  by unfold_locales (simp_all add: rec_own_def own_put_def rec_del_def)

lemma rec_put_plain: "k \<noteq> proto_key \<Longrightarrow> rec_put k v r = own_put k v r"
  by (simp add: rec_put_def)

lemma rec_get_own: "rec_own r k = Some v \<Longrightarrow> rec_get r k = v"
  by (simp add: rec_get_def rec_own_def)

lemma rec_get_put_same: "k \<noteq> proto_key \<Longrightarrow> rec_get (rec_put k v r) k = v"
  by (simp add: rec_put_plain rec_get_own own_store.get_put_same)

lemma rec_get_put_other:
  "k \<noteq> proto_key \<Longrightarrow> k' \<noteq> k \<Longrightarrow> rec_get (rec_put k v r) k' = rec_get r k'"
  by (simp add: rec_put_plain rec_get_def own_put_def split: option.split)

lemma rec_get_empty: "plain_key k \<Longrightarrow> rec_get empty_rec k = JUndef"
  by (simp add: rec_get_def empty_rec_def plain_key_def object_prototype_get_def)

lemma rec_ok_empty [simp]: "rec_ok empty_rec"
  by (simp add: rec_ok_def empty_rec_def)

lemma rec_ok_own: "rec_ok r \<Longrightarrow> rec_own r k = Some v \<Longrightarrow> is_json v \<and> wf_js v"
  by (auto simp: rec_ok_def rec_own_def dest!: map_of_SomeD)

lemma set_update_sub: "set (AList.update k v m) \<subseteq> insert (k, v) (set m)"
  by (induction m) auto

lemma set_delete_sub: "set (AList.delete k m) \<subseteq> set m"
  by (auto simp: AList.delete_eq)

lemma rec_ok_put [preserve]: "rec_ok r \<Longrightarrow> is_json v \<Longrightarrow> wf_js v \<Longrightarrow> rec_ok (rec_put k v r)"
  using set_update_sub [of k v "props r"]
  by (fastforce simp: rec_put_def own_put_def rec_ok_def distinct_update split: jsval.splits)

lemma rec_ok_del [preserve]: "rec_ok r \<Longrightarrow> rec_ok (rec_del k r)"
  using set_delete_sub [of k "props r"]
  by (fastforce simp: rec_del_def rec_ok_def distinct_delete)

lemma rec_ok_JObj: "rec_ok r \<Longrightarrow> is_json (JObj (props r)) \<and> wf_js (JObj (props r))"
  by (auto simp: rec_ok_def)

text \<open>Cloning a stored record keeps its properties and gives it a fresh prototype.\<close>

lemma rec_clone_ok: "rec_ok r \<Longrightarrow> rec_clone r = Inr \<lparr>props = props r, proto = None\<rparr>"
proof -
  assume "rec_ok r"
  then have json: "is_json (JObj (props r))" using rec_ok_JObj by blast
  then have "image_props (props r) = props r"
    using is_json_json_image [OF json] by (simp del: is_json.simps)
  with is_json_json_error [OF json] show ?thesis
    by (simp only: rec_clone_def option.case)
qed

lemma rec_clone_is_ok: "rec_clone r = Inr c \<Longrightarrow> wf_js (JObj (props r)) \<Longrightarrow> rec_ok c"
  using json_image_is_json [of "JObj (props r)"] json_image_wf [of "JObj (props r)"]
  by (auto simp: rec_clone_def rec_ok_def split: option.splits)

lemma rec_ok_own_put [preserve]: "rec_ok r \<Longrightarrow> is_json v \<Longrightarrow> wf_js v \<Longrightarrow> rec_ok (own_put k v r)"
  using set_update_sub [of k v "props r"]
  by (fastforce simp: own_put_def rec_ok_def distinct_update)

section \<open>Maps of records\<close>

text \<open>A \<open>Map\<close> from names to such objects is the state of the persistent and of the shared store.\<close>

type_synonym rec_map = "(string, jsrec) jsmap"

text \<open>\<open>if (!store.has(x)) store.set(x, {})\<close> and then \<open>store.get(x)[k] = v\<close>.\<close>

definition put_in :: "string \<Rightarrow> string \<Rightarrow> jsval \<Rightarrow> rec_map \<Rightarrow> rec_map" where
  "put_in x k v s =
     (let s1 = (if map_has s x then s else AList.update x empty_rec s)
      in AList.update x (rec_put k v (map_get_or empty_rec s1 x)) s1)"

definition own_value :: "rec_map \<Rightarrow> string \<Rightarrow> string \<Rightarrow> jsval option" where
  "own_value s a k = (case map_of s a of None \<Rightarrow> None | Some r \<Rightarrow> rec_own r k)"

text \<open>Records of JSON values whose prototype is still \<open>Object.prototype\<close>, in every place.\<close>

definition store_ok :: "rec_map \<Rightarrow> bool" where
  "store_ok s \<longleftrightarrow> (\<forall>a r. map_of s a = Some r \<longrightarrow> rec_ok r \<and> proto r = None)"

lemma store_ok_Nil [simp]: "store_ok []"
  by (simp add: store_ok_def)

lemma proto_own_put [simp]: "proto (own_put k v r) = proto r"
  by (simp add: own_put_def)

lemma map_of_put_in:
  "k \<noteq> proto_key \<Longrightarrow>
   map_of (put_in x k v s) a =
     (if a = x then Some (own_put k v (map_get_or empty_rec s x)) else map_of s a)"
  by (simp add: put_in_def Let_def map_get_or_def map_has_def rec_put_plain split: option.split)

lemma store_ok_get: "store_ok s \<Longrightarrow> rec_ok (map_get_or empty_rec s x) \<and> proto (map_get_or empty_rec s x) = None"
  by (auto simp: store_ok_def map_get_or_def empty_rec_def rec_ok_empty [unfolded empty_rec_def]
      split: option.split)

lemma store_ok_put_in [preserve]:
  "store_ok s \<Longrightarrow> k \<noteq> proto_key \<Longrightarrow> is_json v \<Longrightarrow> wf_js v \<Longrightarrow> store_ok (put_in x k v s)"
  using store_ok_get [of s x] by (auto simp: store_ok_def map_of_put_in rec_ok_own_put)

lemma own_value_get: "own_value s a k = rec_own (map_get_or empty_rec s a) k"
  by (simp add: own_value_def map_get_or_def rec_own_def empty_rec_def split: option.split)

lemma own_value_put_in:
  "k \<noteq> proto_key \<Longrightarrow>
   own_value (put_in x k v s) a j = (if a = x \<and> j = k then Some v else own_value s a j)"
  by (simp add: own_value_get map_get_or_def [of _ "put_in x k v s"] map_of_put_in
      own_store.get_put) (simp add: map_get_or_def)

text \<open>What an own or inherited property reads as, once cloned.\<close>

lemma read_own:
  "store_ok s \<Longrightarrow> own_value s a k = Some v \<Longrightarrow>
   \<exists>r. map_of s a = Some r \<and> rec_get r k = v \<and> v \<noteq> JUndef \<and> json_clone v = Inr v"
  using rec_ok_own [of _ k v]
  by (fastforce simp: own_value_def store_ok_def rec_get_own split: option.splits)

lemma read_absent:
  "store_ok s \<Longrightarrow> own_value s a k = None \<Longrightarrow> map_of s a = Some r \<Longrightarrow>
   rec_get r k = (if k = proto_key then JObj [] else object_prototype_get k)"
  by (simp add: own_value_def store_ok_def rec_get_def rec_own_def)

end
