(* ===== verification/Logging.thy ===== *)
theory Logging
  imports JsValue
begin

text \<open>
  The execution log (logging/logger.ts) and the world every component writes to: the shared
  \<open>ExecutionLogger\<close> and the readings \<open>Date.now()\<close> has still to give. \<open>log_input\<close> is
  \<open>Omit<LogEntry, "busSeq">\<close>; a \<open>log_entry\<close> extends it by the sequence number \<open>append\<close>
  assigns. \<open>le_fields\<close> holds properties a caller spreads into the entry beside the declared
  ones (the lifecycle controller does). \<open>Object.freeze\<close> on an entry or a returned array has no
  counterpart: values of the model cannot be assigned to.

  The locale \<open>execution_log\<close> is what the components rely on; the base class is its
  interpretation here.
\<close>

section \<open>Entries and the logger\<close>

record log_input =
  le_kind :: string
  le_agentId :: string
  le_timestamp :: int
  le_payload :: jsval
  le_fields :: "(string \<times> jsval) list"

record log_entry = log_input +
  le_busSeq :: int

record logger =
  logs :: "log_entry list"
  nextBusSeq :: int

definition new_logger :: logger where
  "new_logger = \<lparr>logs = [], nextBusSeq = 1\<rparr>"

definition stamp :: "log_input \<Rightarrow> int \<Rightarrow> log_entry" where
  "stamp i n =
     \<lparr>le_kind = le_kind i, le_agentId = le_agentId i, le_timestamp = le_timestamp i,
      le_payload = le_payload i, le_fields = le_fields i, le_busSeq = n\<rparr>"

definition append_entry :: "log_input \<Rightarrow> logger \<Rightarrow> log_entry \<times> logger" where
  "append_entry i l =
     (let e = stamp i (nextBusSeq l)
      in (e, l\<lparr>nextBusSeq := nextBusSeq l + 1, logs := logs l @ [e]\<rparr>))"

definition getLogs :: "logger \<Rightarrow> log_entry list" where
  "getLogs l = logs l"

definition getLogsForAgent :: "logger \<Rightarrow> string \<Rightarrow> log_entry list" where
  "getLogsForAgent l a = filter (\<lambda>e. le_agentId e = a) (logs l)"

section \<open>The contract of a log\<close>

locale execution_log =
  fixes append :: "log_input \<Rightarrow> 'l \<Rightarrow> log_entry \<times> 'l"
    and view :: "'l \<Rightarrow> log_entry list"
    and agent_view :: "'l \<Rightarrow> string \<Rightarrow> log_entry list"
    and next_seq :: "'l \<Rightarrow> int"
    and ok :: "'l \<Rightarrow> bool"
  assumes append_stamp: "ok l \<Longrightarrow> le_busSeq (fst (append i l)) = next_seq l"
    and append_view: "ok l \<Longrightarrow> view (snd (append i l)) = view l @ [fst (append i l)]"
    and append_next: "ok l \<Longrightarrow> next_seq (snd (append i l)) = next_seq l + 1"
    and append_ok: "ok l \<Longrightarrow> ok (snd (append i l))"
    and agent_view_filter: "ok l \<Longrightarrow> agent_view l a = filter (\<lambda>e. le_agentId e = a) (view l)"
    and ok_below: "ok l \<Longrightarrow> e \<in> set (view l) \<Longrightarrow> le_busSeq e < next_seq l"
begin

primrec append_all :: "log_input list \<Rightarrow> 'l \<Rightarrow> 'l" where
  "append_all [] l = l"
| "append_all (i # is) l = append_all is (snd (append i l))"

lemma append_all_ok: "ok l \<Longrightarrow> ok (append_all is l)"
  by (induction "is" arbitrary: l) (auto simp: append_ok)

lemma append_all_prefix: "ok l \<Longrightarrow> prefix (view l) (view (append_all is l))"
proof (induction "is" arbitrary: l)
  case (Cons i "is")
  have "prefix (view (snd (append i l))) (view (append_all is (snd (append i l))))"
    using Cons by (simp add: append_ok)
  then show ?case
    using Cons.prems by (auto simp: append_view dest: append_prefixD)
qed simp

lemma append_all_next: "ok l \<Longrightarrow> next_seq (append_all is l) = next_seq l + int (length is)"
  by (induction "is" arbitrary: l) (auto simp: append_ok append_next)

lemma append_all_seqs:
  "ok l \<Longrightarrow>
   map le_busSeq (view (append_all is l)) =
     map le_busSeq (view l) @ map (\<lambda>k. next_seq l + int k) [0..<length is]"
proof (induction "is" arbitrary: l)
  case (Cons i "is")
  have "map (\<lambda>k. next_seq l + int k) [0..<Suc (length is)] =
      next_seq l # map (\<lambda>k. next_seq l + 1 + int k) [0..<length is]"
    by (simp add: upt_conv_Cons map_Suc_upt [symmetric] o_def ac_simps del: upt_Suc map_Suc_upt)
  with Cons show ?case
    by (simp add: append_ok append_view append_next append_stamp del: upt_Suc)
qed simp

lemma view_strict_sorted:
  "ok l \<Longrightarrow> sorted_wrt (<) (map le_busSeq (view l)) \<Longrightarrow>
   sorted_wrt (<) (map le_busSeq (view (append_all is l)))"
proof (induction "is" arbitrary: l)
  case (Cons i "is")
  then have "sorted_wrt (<) (map le_busSeq (view (snd (append i l))))"
    by (auto simp: append_view append_stamp sorted_wrt_append dest: ok_below)
  with Cons show ?case by (simp add: append_ok)
qed simp

end

section \<open>The base logger keeps the contract\<close>

text \<open>Sequence numbers are positions, counted from one.\<close>

definition log_ok :: "logger \<Rightarrow> bool" where
  "log_ok l \<longleftrightarrow>
     nextBusSeq l = int (length (logs l)) + 1 \<and>
     map le_busSeq (logs l) = map (\<lambda>k. int k + 1) [0..<length (logs l)]"

lemma log_ok_new [simp]: "log_ok new_logger"
  by (simp add: log_ok_def new_logger_def)

lemma stamp_simps [simp]:
  "le_kind (stamp i n) = le_kind i" "le_agentId (stamp i n) = le_agentId i"
  "le_timestamp (stamp i n) = le_timestamp i" "le_payload (stamp i n) = le_payload i"
  "le_fields (stamp i n) = le_fields i" "le_busSeq (stamp i n) = n"
  by (simp_all add: stamp_def)

lemma append_entry_simps [simp]:
  "fst (append_entry i l) = stamp i (nextBusSeq l)"
  "logs (snd (append_entry i l)) = logs l @ [stamp i (nextBusSeq l)]"
  "nextBusSeq (snd (append_entry i l)) = nextBusSeq l + 1"
  by (simp_all add: append_entry_def Let_def)

lemma log_ok_append [preserve]: "log_ok l \<Longrightarrow> log_ok (snd (append_entry i l))"
  by (simp add: log_ok_def)

lemma log_ok_nth:
  assumes "log_ok l" and "k < length (logs l)"
  shows "le_busSeq (logs l ! k) = int k + 1"
proof -
  have "map le_busSeq (logs l) ! k = map (\<lambda>k. int k + 1) [0..<length (logs l)] ! k"
    using assms(1) by (simp only: log_ok_def)
  then show ?thesis using assms(2) by simp
qed

interpretation base_log: execution_log append_entry getLogs getLogsForAgent nextBusSeq log_ok
proof unfold_locales
  fix l e
  assume "log_ok l" and "e \<in> set (getLogs l)"
  then show "le_busSeq e < nextBusSeq l"
    using log_ok_nth [of l] by (auto simp: getLogs_def in_set_conv_nth log_ok_def)
qed (simp_all add: getLogs_def getLogsForAgent_def log_ok_append)

section \<open>The world of the components\<close>

record world =
  wlog :: logger
  wclock :: "nat \<Rightarrow> int"

definition new_world :: "(nat \<Rightarrow> int) \<Rightarrow> world" where
  "new_world c = \<lparr>wlog = new_logger, wclock = c\<rparr>"

text \<open>\<open>Date.now()\<close> takes the next reading of the clock.\<close>

definition date_now :: "world \<Rightarrow> int" where
  "date_now w = wclock w 0"

definition tick_clock :: "world \<Rightarrow> world" where
  "tick_clock w = w\<lparr>wclock := (\<lambda>n. wclock w (Suc n))\<rparr>"

text \<open>\<open>logger.append({ kind, agentId, timestamp: Date.now(), payload })\<close>, the call every
  component makes.\<close>

definition log_event :: "string \<Rightarrow> string \<Rightarrow> jsval \<Rightarrow> world \<Rightarrow> world" where
  "log_event k a p w =
     (let t = date_now w;
          i = \<lparr>le_kind = k, le_agentId = a, le_timestamp = t, le_payload = p, le_fields = []\<rparr>;
          w' = tick_clock w
      in w'\<lparr>wlog := snd (append_entry i (wlog w'))\<rparr>)"

abbreviation wlogs :: "world \<Rightarrow> log_entry list" where
  "wlogs w \<equiv> logs (wlog w)"

lemma wlog_tick_clock [simp]: "wlog (tick_clock w) = wlog w"
  by (simp add: tick_clock_def)

lemma wlogs_log_event [simp]:
  "wlogs (log_event k a p w) =
     wlogs w @ [stamp \<lparr>le_kind = k, le_agentId = a, le_timestamp = date_now w, le_payload = p,
                       le_fields = []\<rparr> (nextBusSeq (wlog w))]"
  by (simp add: log_event_def Let_def)

lemma nextBusSeq_log_event [simp]: "nextBusSeq (wlog (log_event k a p w)) = nextBusSeq (wlog w) + 1"
  by (simp add: log_event_def Let_def)

lemma log_ok_log_event [preserve]: "log_ok (wlog w) \<Longrightarrow> log_ok (wlog (log_event k a p w))"
  by (simp add: log_event_def Let_def log_ok_append)

text \<open>A component never removes or rewrites what is in the log (INV-07).\<close>

definition log_grows :: "world \<Rightarrow> world \<Rightarrow> bool" where
  "log_grows w w' \<longleftrightarrow> prefix (wlogs w) (wlogs w') \<and> (log_ok (wlog w) \<longrightarrow> log_ok (wlog w'))"

lemma log_grows_refl [simp]: "log_grows w w"
  by (simp add: log_grows_def)

lemma log_grows_trans: "log_grows u v \<Longrightarrow> log_grows v w \<Longrightarrow> log_grows u w"
  by (auto simp: log_grows_def intro: prefix_order.trans)

lemma log_grows_event [simp]: "log_grows w (log_event k a p w)"
  by (simp add: log_grows_def log_ok_log_event)

lemma log_grows_tick [simp]: "log_grows w (tick_clock w)"
  by (simp add: log_grows_def)

text \<open>The kinds and payloads of the entries an operation added.\<close>

definition added :: "world \<Rightarrow> world \<Rightarrow> log_entry list" where
  "added w w' = drop (length (wlogs w)) (wlogs w')"

lemma added_refl [simp]: "added w w = []"
  by (simp add: added_def)

lemma log_grows_added: "log_grows w w' \<Longrightarrow> wlogs w' = wlogs w @ added w w'"
  by (auto simp: log_grows_def added_def prefix_def)

end
