(* ===== verification/Tools.thy ===== *)
theory Tools
  imports JsRecord Logging
begin

text \<open>
  Tools: kernel/config.ts (the mode), tools/gate.ts (\<open>ToolGate\<close>), tools/types.ts and
  tools/registry.ts (\<open>ToolRegistry\<close>, \<open>bootstrapCoreTools\<close>).

  A tool handler is code of the host and so a parameter: a function of its arguments and the
  whole state, \<open>'s \<times> world\<close>, to a new state and a result or the error it threw. Since \<open>execute\<close>
  awaits the handler, the state it returns also holds what ran in the meantime. The telemetry
  calls of the gate are in \<open>Telemetry\<close>; the two readings of the clock they need are here.

  The table of handlers is a plain object, so a name it does not own may still be found on
  \<open>Object.prototype\<close>; \<open>builtin_call\<close> is what such a function does when called without a \<open>this\<close>.
\<close>

section \<open>The mode\<close>

datatype kernel_mode = LIVE | REPLAY | OtherMode string

section \<open>Finding a tick's entry\<close>

text \<open>\<open>log.kind === kind && payload && payload.sequenceNumber === n\<close>\<close>

definition entry_for :: "string \<Rightarrow> int \<Rightarrow> log_entry \<Rightarrow> bool" where
  "entry_for kind n e \<longleftrightarrow>
     le_kind e = kind \<and> js_truthy (le_payload e) \<and>
     js_strict_eq (js_prop (le_payload e) ''sequenceNumber'') (jint n)"

definition find_entry :: "string \<Rightarrow> string \<Rightarrow> int \<Rightarrow> world \<Rightarrow> log_entry option" where
  "find_entry kind a n w = List.find (entry_for kind n) (getLogsForAgent (wlog w) a)"

section \<open>The gate\<close>

type_synonym 's handler = "jsval \<Rightarrow> 's \<times> world \<Rightarrow> ('s \<times> world) \<times> (jserr + jsval)"
type_synonym 's handlers = "(string \<times> 's handler) list"

definition no_this :: jserr where
  "no_this = JsErr ''TypeError'' ''Cannot convert undefined or null to object''"

text \<open>The wrapper object of a string lists its characters; those of the other primitives have no
  own enumerable properties.\<close>

definition to_object :: "jsval \<Rightarrow> jsval" where
  "to_object v =
     (case v of
        JStr s \<Rightarrow> JObj (map (\<lambda>i. (show_nat i, JStr [s ! i])) [0..<length s])
      | JArr _ \<Rightarrow> v
      | JObj _ \<Rightarrow> v
      | JFun _ \<Rightarrow> v
      | JCyc \<Rightarrow> v
      | _ \<Rightarrow> JObj [])"

definition builtin_call :: "string \<Rightarrow> jsval \<Rightarrow> jserr + jsval" where
  "builtin_call name args =
     (if name = ''toString'' then Inr (JStr ''[object Undefined]'')
      else if name = ''constructor'' then Inr (to_object args)
      else if name = ''isPrototypeOf'' \<and> \<not> js_is_object args \<and> (case args of JFun f \<Rightarrow> False | _ \<Rightarrow> True)
      then Inr (JBool False)
      else Inl no_this)"

datatype 's lookup = Own "'s handler" | Inherited string | NotCallable | Missing

definition handler_lookup :: "'s handlers \<Rightarrow> string \<Rightarrow> 's lookup" where
  "handler_lookup hs name =
     (case map_of hs name of
        Some h \<Rightarrow> Own h
      | None \<Rightarrow>
          if name = proto_key then NotCallable
          else if name \<in> set object_methods then Inherited name
          else Missing)"

definition tool_payload :: "int \<Rightarrow> string \<Rightarrow> jsval \<Rightarrow> jsval \<Rightarrow> jsval" where
  "tool_payload n name args result =
     JObj [(''sequenceNumber'', jint n), (''toolName'', JStr name), (''args'', args),
           (''result'', result)]"

definition call_handler :: "'s handlers \<Rightarrow> string \<Rightarrow> jsval \<Rightarrow> 's \<times> world \<Rightarrow> ('s \<times> world, jsval) outcome" where
  "call_handler hs name args sw =
     (case handler_lookup hs name of
        Own h \<Rightarrow> h args sw
      | Inherited k \<Rightarrow> (sw, builtin_call k args)
      | NotCallable \<Rightarrow> (sw, Inl (JsErr ''TypeError'' ''handler is not a function''))
      | Missing \<Rightarrow> (sw, Inl (Error ''TOOL_NOT_FOUND'')))"

definition gate_body ::
  "'s handlers \<Rightarrow> kernel_mode \<Rightarrow> string \<Rightarrow> int \<Rightarrow> string \<Rightarrow> jsval \<Rightarrow> 's \<times> world \<Rightarrow> ('s \<times> world, jsval) outcome" where
  "gate_body hs mode a n name args sw =
     (case mode of
        LIVE \<Rightarrow>
          (case call_handler hs name args sw of
             (sw1, Inl e) \<Rightarrow> (sw1, Inl e)
           | ((s1, w1), Inr result) \<Rightarrow>
               ((s1, log_event ''TOOL_RESULT'' a (tool_payload n name args result) w1), Inr result))
      | REPLAY \<Rightarrow>
          (case find_entry ''TOOL_RESULT'' a n (snd sw) of
             None \<Rightarrow> (sw, Inl (Error ''REPLAY_MISSING_TOOL_RESULT''))
           | Some e \<Rightarrow> (sw, Inr (js_prop (le_payload e) ''result'')))
      | OtherMode m \<Rightarrow> (sw, Inl (Error ''UNKNOWN_KERNEL_MODE'')))"

definition gate_execute ::
  "'s handlers \<Rightarrow> kernel_mode \<Rightarrow> string \<Rightarrow> int \<Rightarrow> string \<Rightarrow> jsval \<Rightarrow> 's \<times> world \<Rightarrow> ('s \<times> world, jsval) outcome" where
  "gate_execute hs mode a n name args sw =
     (let (s, w) = sw;
          ((s1, w1), r) = gate_body hs mode a n name args (s, tick_clock w)
      in ((s1, tick_clock w1), r))"

section \<open>The registry\<close>

datatype tool_result = SUCCESS jsval | ERROR string "string option"

text \<open>What a registry handler gives back: a result, or a promise, which the registry refuses.\<close>

datatype handler_return = Returned tool_result | Promised

type_synonym 's reg_handler = "string \<Rightarrow> jsval \<Rightarrow> 's \<Rightarrow> 's \<times> (jserr + handler_return)"

record manifest =
  mf_name :: string
  mf_description :: jsval
  mf_parameters :: jsval

record 's registry =
  tools :: "(string, 's reg_handler) jsmap"
  manifests :: "(string, manifest) jsmap"

definition new_registry :: "'s registry" where
  "new_registry = \<lparr>tools = [], manifests = []\<rparr>"

definition register_tool :: "manifest \<Rightarrow> 's reg_handler \<Rightarrow> 's registry \<Rightarrow> ('s registry, unit) outcome" where
  "register_tool m h r =
     (if map_has (tools r) (mf_name m)
      then (r, Inl (Error (''Tool '' @ mf_name m @ '' is already registered.'')))
      else (r\<lparr>manifests := AList.update (mf_name m) m (manifests r),
              tools := AList.update (mf_name m) h (tools r)\<rparr>, Inr ()))"

definition getHandler :: "'s registry \<Rightarrow> string \<Rightarrow> 's reg_handler option" where
  "getHandler r name = map_of (tools r) name"

definition getManifest :: "'s registry \<Rightarrow> string \<Rightarrow> manifest option" where
  "getManifest r name = map_of (manifests r) name"

definition listTools :: "'s registry \<Rightarrow> manifest list" where
  "listTools r = map snd (manifests r)"

definition threw :: "string \<Rightarrow> string \<Rightarrow> tool_result" where
  "threw name msg = ERROR (''Tool '' @ name @ '' threw an exception: '' @ msg) None"

definition executeSync :: "'s registry \<Rightarrow> string \<Rightarrow> string \<Rightarrow> jsval \<Rightarrow> 's \<Rightarrow> 's \<times> tool_result" where
  "executeSync r name a args s =
     (case map_of (tools r) name of
        None \<Rightarrow> (s, ERROR (''Tool '' @ name @ '' not found.'') None)
      | Some h \<Rightarrow>
          (case h a args s of
             (s1, Inl e) \<Rightarrow> (s1, threw name (err_message e))
           | (s1, Inr Promised) \<Rightarrow>
               (s1, threw name ''Async ToolHandlers are forbidden in the synchronous TickEngine.'')
           | (s1, Inr (Returned res)) \<Rightarrow> (s1, res)))"

subsection \<open>The core tools\<close>

text \<open>\<open>String(v)\<close> as a template literal prints it; a function prints as its text.\<close>

fun js_string :: "jsval \<Rightarrow> string" where
  "js_string JUndef = ''undefined''"
| "js_string JNull = ''null''"
| "js_string (JBool b) = (if b then ''true'' else ''false'')"
| "js_string (JNum n) =
     (case n of NInt i \<Rightarrow> show_int i | NDec s \<Rightarrow> s | NNegZero \<Rightarrow> ''0'' | NNaN \<Rightarrow> ''NaN''
      | NInf neg \<Rightarrow> (if neg then ''-Infinity'' else ''Infinity''))"
| "js_string (JStr s) = s"
| "js_string (JArr xs) =
     concat (map (\<lambda>i. (if i = 0 then [] else '','') @
       (case xs ! i of JUndef \<Rightarrow> [] | JNull \<Rightarrow> [] | _ \<Rightarrow> (map js_string xs) ! i)) [0..<length xs])"
| "js_string (JObj kvs) = ''[object Object]''"
| "js_string (JFun f) = f"
| "js_string (JBigInt i) = show_int i"
| "js_string JCyc = []"

text \<open>\<open>args.k\<close>, which throws on \<open>undefined\<close> and \<open>null\<close>.\<close>

definition arg_prop :: "jsval \<Rightarrow> string \<Rightarrow> jserr + jsval" where
  "arg_prop v k =
     (if v = JUndef \<or> v = JNull
      then Inl (JsErr ''TypeError'' (''Cannot read properties of '' @ js_string v @ '' (reading '' @
             [CHR 0x27] @ k @ [CHR 0x27] @ '')''))
      else Inr (js_prop v k))"

definition read_file_tool :: "'s reg_handler" where
  "read_file_tool a args s =
     (s, case arg_prop args ''path'' of
           Inl e \<Rightarrow> Inl e
         | Inr p \<Rightarrow>
             Inr (Returned
               (if p = JStr ''/etc/config''
                then SUCCESS (JStr (''max_retries=3'' @ [CHR 0x0A] @ ''logging=true''))
                else ERROR (''File not found in sandbox: '' @ js_string p) None)))"

definition fetch_tool :: "'s reg_handler" where
  "fetch_tool a args s =
     (s, case arg_prop args ''url'' of
           Inl e \<Rightarrow> Inl e
         | Inr u \<Rightarrow> Inr (Returned (SUCCESS (JStr (''Simulated response from '' @ js_string u)))))"

definition ask_user_tool :: "'s reg_handler" where
  "ask_user_tool a args s =
     (s, case arg_prop args ''prompt'' of
           Inl e \<Rightarrow> Inl e
         | Inr u \<Rightarrow> Inr (Returned (SUCCESS (JStr (''Simulated User Reply to: '' @ js_string u)))))"

definition core_tools :: "(manifest \<times> 's reg_handler) list" where
  "core_tools =
     [(\<lparr>mf_name = ''system.read_file'',
        mf_description = JStr ''Read a virtual file securely from the OS sandbox.'',
        mf_parameters = JObj [(''path'', JStr ''string'')]\<rparr>, read_file_tool),
      (\<lparr>mf_name = ''system.fetch'', mf_description = JStr ''Simulated synchronous API fetch.'',
        mf_parameters = JObj [(''url'', JStr ''string'')]\<rparr>, fetch_tool),
      (\<lparr>mf_name = ''system.ask_user'', mf_description = JStr ''Wait for user input.'',
        mf_parameters = JObj [(''prompt'', JStr ''string'')]\<rparr>, ask_user_tool)]"

fun register_all :: "(manifest \<times> 's reg_handler) list \<Rightarrow> 's registry \<Rightarrow> ('s registry, unit) outcome" where
  "register_all [] r = (r, Inr ())"
| "register_all ((m, h) # ms) r =
     (case register_tool m h r of
        (r1, Inl e) \<Rightarrow> (r1, Inl e)
      | (r1, Inr _) \<Rightarrow> register_all ms r1)"

definition bootstrapCoreTools :: "'s registry \<Rightarrow> ('s registry, unit) outcome" where
  "bootstrapCoreTools = register_all core_tools"

section \<open>Lemmas\<close>

lemma find_prefix: "prefix xs ys \<Longrightarrow> List.find P xs = Some x \<Longrightarrow> List.find P ys = Some x"
proof -
  have "List.find P us = Some x \<Longrightarrow> List.find P (us @ vs) = Some x" for us vs
    by (induction us) auto
  then show "prefix xs ys \<Longrightarrow> List.find P xs = Some x \<Longrightarrow> List.find P ys = Some x"
    by (auto simp: prefix_def)
qed

lemma agent_logs_prefix:
  "log_grows w w' \<Longrightarrow> prefix (getLogsForAgent (wlog w) a) (getLogsForAgent (wlog w') a)"
  by (auto simp: log_grows_def getLogsForAgent_def prefix_def)

lemma find_entry_grows: "find_entry k a n w = Some e \<Longrightarrow> log_grows w w' \<Longrightarrow> find_entry k a n w' = Some e"
  unfolding find_entry_def by (rule find_prefix [OF agent_logs_prefix])

lemma find_entry_tick [simp]: "find_entry k a n (tick_clock w) = find_entry k a n w"
  by (simp add: find_entry_def)

lemma find_none_iff: "List.find P xs = None \<longleftrightarrow> filter P xs = []"
  by (induction xs) auto

lemma find_append_none: "List.find P xs = None \<Longrightarrow> List.find P (xs @ ys) = List.find P ys"
  by (induction xs) (auto split: if_splits)

lemma js_strict_eq_int [simp]: "js_strict_eq (jint m) (jint n) \<longleftrightarrow> m = n"
  by (simp add: Let_def)

lemma find_entry_log_event:
  "find_entry k a n w = None \<Longrightarrow>
   find_entry k a n (log_event kd b p w) =
     (if kd = k \<and> b = a \<and> js_truthy p \<and> js_strict_eq (js_prop p ''sequenceNumber'') (jint n)
      then Some (stamp \<lparr>le_kind = kd, le_agentId = b, le_timestamp = date_now w, le_payload = p,
             le_fields = []\<rparr> (nextBusSeq (wlog w))) else None)"
  by (auto simp: find_entry_def getLogsForAgent_def find_append_none entry_for_def)

lemma tool_payload_simps [simp]:
  "js_truthy (tool_payload n name args v)"
  "js_prop (tool_payload n name args v) ''sequenceNumber'' = jint n"
  "js_prop (tool_payload n name args v) ''result'' = v"
  by (simp_all add: tool_payload_def js_truthy_def)

lemma gate_live:
  "gate_execute hs LIVE a n name args (s, w) =
     (case call_handler hs name args (s, tick_clock w) of
        ((s1, w1), Inl e) \<Rightarrow> ((s1, tick_clock w1), Inl e)
      | ((s1, w1), Inr v) \<Rightarrow>
          ((s1, tick_clock (log_event ''TOOL_RESULT'' a (tool_payload n name args v) w1)), Inr v))"
  by (simp add: gate_execute_def gate_body_def Let_def split: prod.split sum.split)

lemma gate_replay:
  "gate_execute hs REPLAY a n name args (s, w) =
     ((s, tick_clock (tick_clock w)),
      case find_entry ''TOOL_RESULT'' a n w of
        None \<Rightarrow> Inl (Error ''REPLAY_MISSING_TOOL_RESULT'')
      | Some e \<Rightarrow> Inr (js_prop (le_payload e) ''result''))"
  by (simp add: gate_execute_def gate_body_def Let_def split: option.split)

lemma filter_single_snoc:
  "length (filter P (xs @ [x])) = 1 \<Longrightarrow> P x \<Longrightarrow> filter P xs = []"
  by simp

section \<open>Properties\<close>

text \<open>A tool is never called twice. When a LIVE call returned a value, the entry of that value
  is the last of the log; and if it is the only result logged for the agent's tick, then on any
  later log a REPLAY call for that tick returns the same value, whatever handlers the gate has
  (they are not called), whatever name and arguments it is given, and adds nothing to the log.\<close>

theorem replay_returns_live_result:
  assumes "gate_execute hs LIVE a n name args (s, w) = ((s1, w1), Inr v)"
    and "length (filter (entry_for ''TOOL_RESULT'' n) (getLogsForAgent (wlog w1) a)) = 1"
    and "log_grows w1 w2"
  shows "le_payload (last (wlogs w1)) = tool_payload n name args v \<and>
    (case gate_execute hs' REPLAY a n name' args' (s2, w2) of
       ((s3, w3), r) \<Rightarrow> r = Inr v \<and> s3 = s2 \<and> wlogs w3 = wlogs w2)"
proof -
  obtain w0 where w1: "w1 = tick_clock (log_event ''TOOL_RESULT'' a (tool_payload n name args v) w0)"
    using assms(1) by (auto simp: gate_live split: prod.splits sum.splits)
  let ?e = "stamp \<lparr>le_kind = ''TOOL_RESULT'', le_agentId = a, le_timestamp = date_now w0,
      le_payload = tool_payload n name args v, le_fields = []\<rparr> (nextBusSeq (wlog w0))"
  have e: "entry_for ''TOOL_RESULT'' n ?e" by (simp add: entry_for_def)
  have "getLogsForAgent (wlog w1) a = getLogsForAgent (wlog w0) a @ [?e]"
    by (simp add: w1 getLogsForAgent_def)
  with assms(2) have one:
    "length (filter (entry_for ''TOOL_RESULT'' n) (getLogsForAgent (wlog w0) a @ [?e])) = 1"
    by (simp only:)
  have "find_entry ''TOOL_RESULT'' a n w0 = None"
    unfolding find_entry_def find_none_iff
    by (rule filter_single_snoc [where P = "entry_for ''TOOL_RESULT'' n" and x = ?e, OF one e])
  then have "find_entry ''TOOL_RESULT'' a n w1 = Some ?e"
    by (simp add: w1 find_entry_log_event)
  from find_entry_grows [OF this assms(3)] show ?thesis
    by (simp add: gate_replay w1)
qed

theorem replay_returns_live_result_witness:
  "let h = (\<lambda>v sw. (sw, Inr (jint 42))) :: unit handler;
       w1 = snd (fst (gate_execute [(''t'', h)] LIVE ''a'' 1 ''t'' JNull ((), new_world int)))
   in snd (gate_execute [] REPLAY ''a'' 1 ''t'' JNull ((), w1)) = Inr (jint 42)"
proof -
  let ?h = "(\<lambda>v sw. (sw, Inr (jint 42))) :: unit handler"
  let ?g = "gate_execute [(''t'', ?h)] LIVE ''a'' 1 ''t'' JNull ((), new_world int)"
  let ?w = "snd (fst ?g)"
  have live: "?g = (((), ?w), Inr (jint 42))"
    by (simp add: gate_live call_handler_def handler_lookup_def)
  have "length (filter (entry_for ''TOOL_RESULT'' 1) (getLogsForAgent (wlog ?w) ''a'')) = 1"
    by (simp add: gate_live call_handler_def handler_lookup_def getLogsForAgent_def new_world_def
        new_logger_def entry_for_def)
  from replay_returns_live_result [OF live this log_grows_refl, where hs' = "[]" and
      name' = "''t''" and args' = JNull and ?s2.0 = "()"] show ?thesis
    by (simp add: Let_def split: prod.splits)
qed

text \<open>The kernel's gate, whose table of handlers is empty, still runs the tools \<open>toString\<close> and
  \<open>constructor\<close>. They are found on \<open>Object.prototype\<close>, return a value and are logged as a tool
  result, where every other name not known there throws \<open>TOOL_NOT_FOUND\<close> and logs nothing.\<close>

theorem empty_table_runs_inherited:
  "snd (gate_execute [] LIVE a n ''toString'' args sw) = Inr (JStr ''[object Undefined]'') \<and>
   snd (gate_execute [] LIVE a n ''constructor'' args sw) = Inr (to_object args) \<and>
   le_kind (last (wlogs (snd (fst (gate_execute [] LIVE a n ''toString'' args sw))))) = ''TOOL_RESULT'' \<and>
   (plain_key name \<longrightarrow>
      snd (gate_execute [] LIVE a n name args sw) = Inl (Error ''TOOL_NOT_FOUND'') \<and>
      wlogs (snd (fst (gate_execute [] LIVE a n name args sw))) = wlogs (snd sw))"
  by (cases sw) (simp add: gate_live call_handler_def handler_lookup_def proto_key_def
      object_methods_def builtin_call_def plain_key_def)

theorem empty_table_runs_inherited_witness:
  "snd (gate_execute ([] :: unit handlers) LIVE ''a'' 1 ''web.get'' JNull ((), new_world int)) =
     Inl (Error ''TOOL_NOT_FOUND'')"
  using empty_table_runs_inherited [of "''a''" 1 JNull "((), new_world int)" "''web.get''"]
  by (simp add: plain_key_def proto_key_def object_methods_def)

text \<open>The registry. Registering a name twice throws and leaves the registry as it was; the
  core tools can be registered on a new registry exactly once; and \<open>executeSync\<close> never throws:
  an unknown tool, a handler that throws and a handler that returns a promise all give an
  \<open>ERROR\<close> result.\<close>

theorem registry_spec:
  "(if map_has (tools r) (mf_name m)
    then fst (register_tool m h r) = r \<and> \<not> is_ok (snd (register_tool m h r))
    else \<forall>name. getHandler (fst (register_tool m h r)) name =
      (if name = mf_name m then Some h else getHandler r name)) \<and>
   map mf_name (listTools (fst (bootstrapCoreTools new_registry))) =
     [''system.read_file'', ''system.fetch'', ''system.ask_user''] \<and>
   \<not> is_ok (snd (bootstrapCoreTools (fst (bootstrapCoreTools new_registry)))) \<and>
   (case getHandler r name of
      None \<Rightarrow> executeSync r name a args s = (s, ERROR (''Tool '' @ name @ '' not found.'') None)
    | Some f \<Rightarrow>
        (case snd (f a args s) of
           Inr (Returned res) \<Rightarrow> snd (executeSync r name a args s) = res
         | _ \<Rightarrow> \<exists>msg. snd (executeSync r name a args s) = ERROR msg None))"
proof -
  have "case getHandler r name of
      None \<Rightarrow> executeSync r name a args s = (s, ERROR (''Tool '' @ name @ '' not found.'') None)
    | Some f \<Rightarrow>
        (case snd (f a args s) of
           Inr (Returned res) \<Rightarrow> snd (executeSync r name a args s) = res
         | _ \<Rightarrow> \<exists>msg. snd (executeSync r name a args s) = ERROR msg None)"
    by (auto simp: getHandler_def executeSync_def threw_def
        split: option.split sum.split handler_return.split prod.split)
  moreover have "map mf_name (listTools (fst (bootstrapCoreTools new_registry))) =
      [''system.read_file'', ''system.fetch'', ''system.ask_user'']"
    "\<not> is_ok (snd (bootstrapCoreTools (fst (bootstrapCoreTools new_registry))))"
    by (simp_all add: bootstrapCoreTools_def core_tools_def new_registry_def register_tool_def
        listTools_def map_has_def)
  ultimately show ?thesis
    by (simp add: register_tool_def getHandler_def)
qed

end
