(* ===== verification/JsonText.thy ===== *)
theory JsonText
  imports JsValue
begin

text \<open>
  The text of \<open>JSON.stringify\<close> (without indentation) and the reader \<open>JSON.parse\<close>, with the
  proof that reading a text back gives the value it was made from. The loggers and stores of
  host/ keep values as this text, and hashState of execution/scheduler.ts hashes it.

  The reader is a recursive descent on the list of code units with fuel for the nesting;
  \<open>json_parse\<close> gives it two units per character, and \<open>parse_json_text\<close> shows that this is
  enough for every text \<open>JSON.stringify\<close> produces.
\<close>

section \<open>Writing\<close>

definition hex_digit :: "nat \<Rightarrow> char" where
  "hex_digit n = ''0123456789abcdef'' ! n"

definition quote_char :: "char \<Rightarrow> string" where
  "quote_char c =
     (let n = of_char c :: nat in
      if n = 0x22 then [CHR 0x5C, CHR 0x22]
      else if n = 0x5C then [CHR 0x5C, CHR 0x5C]
      else if n = 8 then CHR 0x5C # ''b''
      else if n = 9 then CHR 0x5C # ''t''
      else if n = 10 then CHR 0x5C # ''n''
      else if n = 12 then CHR 0x5C # ''f''
      else if n = 13 then CHR 0x5C # ''r''
      else if n < 32 then CHR 0x5C # ''u00'' @ [hex_digit (n div 16), hex_digit (n mod 16)]
      else [c])"

definition quote :: "string \<Rightarrow> string" where
  "quote s = CHR 0x22 # concat (map quote_char s) @ [CHR 0x22]"

fun join_with :: "string \<Rightarrow> string list \<Rightarrow> string" where
  "join_with sep [] = []"
| "join_with sep [s] = s"
| "join_with sep (s # ss) = s @ sep @ join_with sep ss"

fun num_text :: "jsnum \<Rightarrow> string" where
  "num_text (NInt i) = show_int i"
| "num_text (NDec s) = s"
| "num_text NNegZero = ''0''"
| "num_text NNaN = ''null''"
| "num_text (NInf p) = ''null''"

text \<open>\<open>JSON.stringify\<close> of a value without a thrown error (\<open>json_error v = None\<close>); \<open>None\<close> is
  its result \<open>undefined\<close>.\<close>

fun json_text :: "jsval \<Rightarrow> string option" where
  "json_text JNull = Some ''null''"
| "json_text (JBool b) = Some (if b then ''true'' else ''false'')"
| "json_text (JNum n) = Some (num_text n)"
| "json_text (JStr s) = Some (quote s)"
| "json_text (JArr xs) =
     Some (''['' @ join_with '','' (map (\<lambda>x. case json_text x of None \<Rightarrow> ''null'' | Some s \<Rightarrow> s) xs) @ '']'')"
| "json_text (JObj kvs) =
     Some (''{'' @ join_with '','' (concat (map (\<lambda>(k, v).
        case json_text v of None \<Rightarrow> [] | Some s \<Rightarrow> [quote k @ '':'' @ s]) kvs)) @ ''}'')"
| "json_text _ = None"

section \<open>Reading\<close>

definition is_ws :: "char \<Rightarrow> bool" where
  "is_ws c \<longleftrightarrow> c \<in> {CHR 0x20, CHR 0x09, CHR 0x0A, CHR 0x0D}"

definition skip_ws :: "string \<Rightarrow> string" where
  "skip_ws s = dropWhile is_ws s"

definition hex_val :: "char \<Rightarrow> nat option" where
  "hex_val c =
     (let n = of_char c :: nat in
      if 48 \<le> n \<and> n \<le> 57 then Some (n - 48)
      else if 97 \<le> n \<and> n \<le> 102 then Some (n - 87)
      else if 65 \<le> n \<and> n \<le> 70 then Some (n - 55)
      else None)"

definition escape_char :: "char \<Rightarrow> char option" where
  "escape_char c =
     map_of [(CHR 0x22, CHR 0x22), (CHR 0x5C, CHR 0x5C), (CHR ''/'', CHR ''/''),
             (CHR ''b'', CHR 0x08), (CHR ''f'', CHR 0x0C), (CHR ''n'', CHR 0x0A),
             (CHR ''r'', CHR 0x0D), (CHR ''t'', CHR 0x09)] c"

text \<open>The rest of a string literal, after its opening quote. A \<open>\u\<close> escape above \<open>00FF\<close>
  is outside the code units of the model.\<close>

fun parse_str :: "string \<Rightarrow> (string \<times> string) option" where
  "parse_str [] = None"
| "parse_str (c # cs) =
     (if c = CHR 0x22 then Some ([], cs)
      else if c = CHR 0x5C then
        (case cs of
           [] \<Rightarrow> None
         | e # es \<Rightarrow>
             if e = CHR ''u'' then
               (case es of
                  a # b # x # y # r \<Rightarrow>
                    (case (hex_val a, hex_val b, hex_val x, hex_val y) of
                       (Some 0, Some 0, Some m, Some n) \<Rightarrow>
                         map_option (\<lambda>(t, q). (char_of (16 * m + n) # t, q)) (parse_str r)
                     | _ \<Rightarrow> None)
                | _ \<Rightarrow> None)
             else
               (case escape_char e of
                  None \<Rightarrow> None
                | Some d \<Rightarrow> map_option (\<lambda>(t, q). (d # t, q)) (parse_str es)))
      else if of_char c < (32 :: nat) then None
      else map_option (\<lambda>(t, q). (c # t, q)) (parse_str cs))"

declare parse_str.simps(2) [simp del]

definition read_int :: "string \<Rightarrow> int" where
  "read_int s =
     (case s of [] \<Rightarrow> 0
      | c # r \<Rightarrow> if c = CHR ''-'' then - int (read_nat r) else int (read_nat s))"

definition parse_num :: "string \<Rightarrow> (jsval \<times> string) option" where
  "parse_num s =
     (let t = takeWhile num_char s; r = dropWhile num_char s in
      if \<not> json_number t then None
      else if t = ''-0'' then Some (JNum NNegZero, r)
      else if int_literal t then Some (jint (read_int t), r)
      else Some (JNum (NDec t), r))"

definition strip_lit :: "string \<Rightarrow> string \<Rightarrow> string option" where
  "strip_lit p s = (if prefix p s then Some (drop (length p) s) else None)"

fun parse_value :: "nat \<Rightarrow> string \<Rightarrow> (jsval \<times> string) option"
  and parse_elems :: "nat \<Rightarrow> string \<Rightarrow> (jsval list \<times> string) option"
  and parse_members :: "nat \<Rightarrow> (string \<times> jsval) list \<Rightarrow> string \<Rightarrow> ((string \<times> jsval) list \<times> string) option"
where
  "parse_value 0 s = None"
| "parse_value (Suc f) s =
     (case skip_ws s of
        [] \<Rightarrow> None
      | c # cs \<Rightarrow>
          if c = CHR ''{'' then
            (case skip_ws cs of
               [] \<Rightarrow> None
             | d # r \<Rightarrow>
                 if d = CHR ''}'' then Some (JObj [], r)
                 else map_option (\<lambda>(kvs, q). (JObj kvs, q)) (parse_members f [] cs))
          else if c = CHR ''['' then
            (case skip_ws cs of
               [] \<Rightarrow> None
             | d # r \<Rightarrow>
                 if d = CHR '']'' then Some (JArr [], r)
                 else map_option (\<lambda>(xs, q). (JArr xs, q)) (parse_elems f cs))
          else if c = CHR 0x22 then map_option (\<lambda>(t, q). (JStr t, q)) (parse_str cs)
          else if c = CHR ''n'' then map_option (\<lambda>q. (JNull, q)) (strip_lit ''ull'' cs)
          else if c = CHR ''t'' then map_option (\<lambda>q. (JBool True, q)) (strip_lit ''rue'' cs)
          else if c = CHR ''f'' then map_option (\<lambda>q. (JBool False, q)) (strip_lit ''alse'' cs)
          else parse_num (c # cs))"
| "parse_elems 0 s = None"
| "parse_elems (Suc f) s =
     (case parse_value f s of
        None \<Rightarrow> None
      | Some (v, r) \<Rightarrow>
          (case skip_ws r of
             [] \<Rightarrow> None
           | d # q \<Rightarrow>
               if d = CHR '']'' then Some ([v], q)
               else if d = CHR '','' then map_option (\<lambda>(vs, q'). (v # vs, q')) (parse_elems f q)
               else None))"
| "parse_members 0 acc s = None"
| "parse_members (Suc f) acc s =
     (case skip_ws s of
        [] \<Rightarrow> None
      | c # cs \<Rightarrow>
          if c \<noteq> CHR 0x22 then None
          else
            (case parse_str cs of
               None \<Rightarrow> None
             | Some (k, r) \<Rightarrow>
                 (case skip_ws r of
                    [] \<Rightarrow> None
                  | d # q \<Rightarrow>
                      if d \<noteq> CHR '':'' then None
                      else
                        (case parse_value f q of
                           None \<Rightarrow> None
                         | Some (v, r') \<Rightarrow>
                             (case skip_ws r' of
                                [] \<Rightarrow> None
                              | e # q' \<Rightarrow>
                                  if e = CHR ''}'' then Some (AList.update k v acc, q')
                                  else if e = CHR '','' then parse_members f (AList.update k v acc) q'
                                  else None)))))"

definition json_parse :: "string \<Rightarrow> jserr + jsval" where
  "json_parse s =
     (case parse_value (2 * length s + 1) s of
        Some (v, r) \<Rightarrow> if skip_ws r = [] then Inr v else Inl (JsErr ''SyntaxError'' ''Unexpected token in JSON'')
      | None \<Rightarrow> Inl (JsErr ''SyntaxError'' ''Unexpected token in JSON''))"

section \<open>Reading back what was written\<close>

subsection \<open>Strings\<close>

lemma of_char_inj: "of_char c = (of_char d :: nat) \<longleftrightarrow> c = d"
  by (metis char_of_char)

lemma less_16_cases:
  assumes "n < (16 :: nat)"
  obtains "n < 10" | "n = 10" | "n = 11" | "n = 12" | "n = 13" | "n = 14" | "n = 15"
  using assms by (cases "n < 10") (auto simp: numeral_eq_Suc less_Suc_eq)

lemma hex_val_hex_digit [simp]: "n < 16 \<Longrightarrow> hex_val (hex_digit n) = Some n"
  by (erule less_16_cases, erule less_10_cases)
    (simp_all add: hex_val_def hex_digit_def Let_def)

lemma hex_val_zero [simp]: "hex_val (CHR ''0'') = Some 0"
  by (simp add: hex_val_def)

lemma parse_str_plain:
  "c \<noteq> CHR 0x22 \<Longrightarrow> c \<noteq> CHR 0x5C \<Longrightarrow> \<not> of_char c < (32 :: nat) \<Longrightarrow>
   parse_str (c # r) = map_option (\<lambda>(t, q). (c # t, q)) (parse_str r)"
  by (simp add: parse_str.simps(2))

lemma parse_str_escape:
  "e \<noteq> CHR ''u'' \<Longrightarrow> escape_char e = Some d \<Longrightarrow>
   parse_str (CHR 0x5C # e # r) = map_option (\<lambda>(t, q). (d # t, q)) (parse_str r)"
  by (simp add: parse_str.simps(2))

lemma parse_str_hex:
  assumes "m < 16" "n < 16"
  shows "parse_str (CHR 0x5C # ''u00'' @ hex_digit m # hex_digit n # r) =
           map_option (\<lambda>(t, q). (char_of (16 * m + n) # t, q)) (parse_str r)"
  using assms by (simp add: parse_str.simps(2))

lemma of_char_codes:
  "of_char c = (34 :: nat) \<longleftrightarrow> c = CHR 0x22" "of_char c = (92 :: nat) \<longleftrightarrow> c = CHR 0x5C"
  "of_char c = (8 :: nat) \<longleftrightarrow> c = CHR 0x08" "of_char c = (9 :: nat) \<longleftrightarrow> c = CHR 0x09"
  "of_char c = (10 :: nat) \<longleftrightarrow> c = CHR 0x0A" "of_char c = (12 :: nat) \<longleftrightarrow> c = CHR 0x0C"
  "of_char c = (13 :: nat) \<longleftrightarrow> c = CHR 0x0D"
  using of_char_inj [of c "CHR 0x22"] of_char_inj [of c "CHR 0x5C"] of_char_inj [of c "CHR 0x08"]
    of_char_inj [of c "CHR 0x09"] of_char_inj [of c "CHR 0x0A"] of_char_inj [of c "CHR 0x0C"]
    of_char_inj [of c "CHR 0x0D"]
  by simp_all

lemma parse_quote_char:
  "parse_str (quote_char c @ r) = map_option (\<lambda>(t, q). (c # t, q)) (parse_str r)"
proof -
  let ?n = "of_char c :: nat"
  consider "?n \<in> {0x22, 0x5C, 8, 9, 10, 12, 13}"
    | "?n < 32" "?n \<notin> {0x22, 0x5C, 8, 9, 10, 12, 13}"
    | "\<not> ?n < 32" "?n \<notin> {0x22, 0x5C, 8, 9, 10, 12, 13}"
    by blast
  then show ?thesis
  proof cases
    case 1
    then show ?thesis
      by (auto simp: quote_char_def of_char_codes parse_str_escape escape_char_def)
  next
    case 2
    then have "?n div 16 < 16" "?n mod 16 < 16" by auto
    from parse_str_hex [OF this, of r] 2 show ?thesis
      by (simp add: quote_char_def Let_def)
  next
    case 3
    then show ?thesis
      by (simp add: quote_char_def Let_def parse_str_plain flip: of_char_codes)
  qed
qed

lemma parse_quoted:
  "parse_str (concat (map quote_char s) @ CHR 0x22 # r) = Some (s, r)"
proof (induction s)
  case Nil
  show ?case by (simp add: parse_str.simps(2))
next
  case (Cons c s)
  then show ?case by (simp add: parse_quote_char)
qed

subsection \<open>Numbers\<close>

lemma digit_num_char: "is_digit c \<Longrightarrow> num_char c"
  by (auto simp: is_digit_def num_char_def)

lemma hd_show_nat_zero: "hd (show_nat n) = CHR ''0'' \<Longrightarrow> show_nat n = ''0''"
proof (induction n rule: show_nat.induct)
  case (1 n)
  show ?case
  proof (cases "n < 10")
    case True
    then have "show_nat n = [digit_char n]" by (simp add: show_nat.simps [of n])
    then show ?thesis using "1.prems" by simp
  next
    case False
    then have eq: "show_nat n = show_nat (n div 10) @ [digit_char (n mod 10)]"
      by (simp add: show_nat.simps [of n])
    then have "show_nat (n div 10) = show_nat 0"
      using "1.IH" "1.prems" False by (simp add: show_nat.simps [of 0] digit_char_def)
    then have "n div 10 = 0" by simp
    with False show ?thesis by simp
  qed
qed

lemma takeWhile_all: "list_all P s \<Longrightarrow> takeWhile P s = s"
  by (induction s) auto

lemma dropWhile_all: "list_all P s \<Longrightarrow> dropWhile P s = []"
  by (induction s) auto

definition num_end :: "string \<Rightarrow> bool" where
  "num_end r \<longleftrightarrow> (r = [] \<or> \<not> num_char (hd r))"

lemma span_num:
  "list_all num_char s \<Longrightarrow> num_end r \<Longrightarrow>
   takeWhile num_char (s @ r) = s \<and> dropWhile num_char (s @ r) = r"
  by (cases r) (auto simp: num_end_def takeWhile_append dropWhile_append list_all_iff)

lemma show_int_num_chars: "list_all num_char (show_int i)"
proof -
  have "num_char (CHR ''-'')" by (simp add: num_char_def)
  then show ?thesis
    using show_nat_digits by (auto simp: show_int_def list_all_iff intro: digit_num_char)
qed

lemma unsigned_show_int: "\<exists>n. unsigned_of (show_int i) = show_nat n \<and> (i < 0 \<longrightarrow> n \<noteq> 0)"
proof (cases "i < 0")
  case True
  then show ?thesis by (auto simp: unsigned_of_def show_int_def)
next
  case False
  have "hd (show_nat n) \<noteq> CHR ''-''" for n
    using show_nat_no_sep(2) [of n] by (metis list.set_sel(1) show_nat_nonempty)
  with False show ?thesis
    by (auto simp: unsigned_of_def show_int_def neq_Nil_conv split: list.splits) (metis list.sel(1))+
qed

lemma json_number_show_int: "json_number (show_int i)"
proof -
  obtain n where "unsigned_of (show_int i) = show_nat n" using unsigned_show_int by blast
  moreover have "hd (show_nat n) = CHR ''0'' \<longrightarrow> length (show_nat n) = 1"
    using hd_show_nat_zero by fastforce
  ultimately show ?thesis
    using show_nat_digits [of n]
    by (simp add: json_number_def takeWhile_all dropWhile_all frac_ok_def Let_def)
qed

lemma int_literal_show_int: "int_literal (show_int i)"
  using unsigned_show_int [of i] show_nat_digits by (auto simp: int_literal_def)

lemma show_int_not_neg_zero: "show_int i \<noteq> ''-0''"
proof
  assume eq: "show_int i = ''-0''"
  have z: "show_nat 0 = ''0''" by (simp add: show_nat.simps [of 0] digit_char_def)
  show False
  proof (cases "i < 0")
    case True
    with eq have "show_nat (nat (- i)) = show_nat 0" by (simp add: show_int_def z)
    with True show False by simp
  next
    case False
    with eq have "CHR ''-'' \<in> set (show_nat (nat i))" by (simp add: show_int_def)
    then show False by (simp add: show_nat_no_sep)
  qed
qed

lemma read_show_int [simp]: "read_int (show_int i) = i"
proof (cases "i < 0")
  case False
  obtain c r where cr: "show_nat (nat i) = c # r" by (meson neq_Nil_conv show_nat_nonempty)
  then have "c \<noteq> CHR ''-''" using show_nat_no_sep(2) [of "nat i"] by auto
  then have "read_int (show_int i) = int (read_nat (show_nat (nat i)))"
    using False cr by (simp add: read_int_def show_int_def)
  then show ?thesis using False by simp
qed (simp add: read_int_def show_int_def)

lemma parse_num_text:
  assumes "is_json (JNum n)" and "wf_num n" and "num_end r"
  shows "parse_num (num_text n @ r) = Some (JNum n, r)"
proof (cases n)
  case (NInt i)
  with span_num [OF show_int_num_chars assms(3)] show ?thesis
    by (simp add: parse_num_def Let_def json_number_show_int int_literal_show_int show_int_not_neg_zero)
next
  case (NDec s)
  then have wf: "list_all num_char s" "json_number s" "\<not> int_literal s"
    using assms(2) by simp_all
  moreover have "s \<noteq> ''-0''"
    using wf(3) by (auto simp: int_literal_def unsigned_of_def is_digit_def)
  ultimately show ?thesis
    using NDec span_num [OF wf(1) assms(3)] by (simp add: parse_num_def Let_def)
qed (use assms in simp_all)

lemma num_text_hd:
  assumes "is_json (JNum n)" and "wf_num n"
  shows "num_text n \<noteq> [] \<and> (hd (num_text n) = CHR ''-'' \<or> is_digit (hd (num_text n)))"
proof (cases n)
  case (NInt i)
  then show ?thesis by (simp add: show_int_def)
next
  case (NDec s)
  with assms(2) have "takeWhile is_digit (unsigned_of s) \<noteq> []"
    by (simp add: json_number_def Let_def)
  then show ?thesis using NDec
    by (auto simp: unsigned_of_def split: list.splits if_splits)
qed (use assms in simp_all)

subsection \<open>Values\<close>

definition text_of :: "jsval \<Rightarrow> string" where
  "text_of v = the (json_text v)"

lemma text_of_simps [simp]:
  "text_of JNull = ''null''" "text_of (JBool b) = (if b then ''true'' else ''false'')"
  "text_of (JNum n) = num_text n" "text_of (JStr s) = quote s"
  by (simp_all add: text_of_def)

abbreviation member_text :: "string \<times> jsval \<Rightarrow> string" where
  "member_text kv \<equiv> quote (fst kv) @ '':'' @ text_of (snd kv)"

lemma json_text_is_json: "is_json v \<Longrightarrow> json_text v = Some (text_of v)"
  by (cases v) (auto simp: text_of_def)

lemma text_of_JArr:
  "\<forall>x \<in> set xs. is_json x \<Longrightarrow>
   text_of (JArr xs) = ''['' @ join_with '','' (map text_of xs) @ '']''"
  by (simp add: text_of_def [of "JArr xs"] json_text_is_json cong: map_cong)

lemma text_of_JObj:
  assumes "\<forall>(k, v) \<in> set kvs. is_json v"
  shows "text_of (JObj kvs) = ''{'' @ join_with '','' (map member_text kvs) @ ''}''"
proof -
  have "concat (map (\<lambda>(k, v). case json_text v of None \<Rightarrow> [] | Some s \<Rightarrow> [quote k @ '':'' @ s]) kvs)
      = map member_text kvs"
    using assms by (induction kvs) (auto simp: json_text_is_json)
  then show ?thesis by (simp add: text_of_def [of "JObj kvs"])
qed

lemma quote_Cons: "quote s @ r = CHR 0x22 # concat (map quote_char s) @ CHR 0x22 # r"
  by (simp add: quote_def)

lemma text_of_hd:
  assumes "is_json v" and "wf_js v"
  shows "\<exists>c cs. text_of v = c # cs \<and> \<not> is_ws c \<and> c \<noteq> CHR '']'' \<and> c \<noteq> CHR ''}''"
proof (cases v)
  case (JNum n)
  obtain c cs where "num_text n = c # cs" "c = CHR ''-'' \<or> is_digit c"
    using num_text_hd [of n] assms JNum by (cases "num_text n") auto
  then show ?thesis using JNum by (auto simp: is_ws_def is_digit_def)
qed (use assms in \<open>auto simp: is_ws_def quote_def text_of_def\<close>)

lemma skip_ws_Cons [simp]: "\<not> is_ws c \<Longrightarrow> skip_ws (c # cs) = c # cs"
  by (simp add: skip_ws_def)

lemma skip_ws_delim [simp]:
  "skip_ws (CHR '','' # r) = CHR '','' # r" "skip_ws (CHR '']'' # r) = CHR '']'' # r"
  "skip_ws (CHR ''}'' # r) = CHR ''}'' # r" "skip_ws (CHR '':'' # r) = CHR '':'' # r"
  "skip_ws (CHR 0x22 # r) = CHR 0x22 # r"
  by (simp_all add: skip_ws_def is_ws_def)

lemma num_end_delim [simp]:
  "num_end []" "num_end (CHR '','' # r)" "num_end (CHR '']'' # r)" "num_end (CHR ''}'' # r)"
  by (simp_all add: num_end_def num_char_def)

lemma num_start:
  "c = CHR ''-'' \<or> is_digit c \<Longrightarrow>
   \<not> is_ws c \<and> c \<noteq> CHR ''{'' \<and> c \<noteq> CHR ''['' \<and> c \<noteq> CHR 0x22 \<and> c \<noteq> CHR ''n'' \<and> c \<noteq> CHR ''t'' \<and>
   c \<noteq> CHR ''f''"
  by (auto simp: is_digit_def is_ws_def)

lemma parse_value_num:
  "c = CHR ''-'' \<or> is_digit c \<Longrightarrow> parse_value (Suc g) (c # cs) = parse_num (c # cs)"
  using num_start [of c] by simp

definition reads_back :: "jsval \<Rightarrow> bool" where
  "reads_back v \<longleftrightarrow>
     (\<forall>f r. num_end r \<longrightarrow> 2 * length (text_of v) \<le> f \<longrightarrow>
        parse_value f (text_of v @ r) = Some (v, r))"

lemma reads_backD:
  "reads_back v \<Longrightarrow> num_end r \<Longrightarrow> 2 * length (text_of v) \<le> f \<Longrightarrow>
   parse_value f (text_of v @ r) = Some (v, r)"
  by (simp add: reads_back_def)

lemma reads_backI:
  assumes "\<And>g r. num_end r \<Longrightarrow> parse_value (Suc g) (text_of v @ r) = Some (v, r)"
    and "text_of v \<noteq> []"
  shows "reads_back v"
  unfolding reads_back_def
proof (intro allI impI)
  fix f r
  assume "num_end r" and "2 * length (text_of v) \<le> f"
  then show "parse_value f (text_of v @ r) = Some (v, r)"
    using assms by (cases f) auto
qed

lemma parse_elems_text:
  assumes "xs \<noteq> []" and "\<forall>x \<in> set xs. reads_back x"
    and "2 * length (join_with '','' (map text_of xs)) + 1 \<le> f"
  shows "parse_elems f (join_with '','' (map text_of xs) @ CHR '']'' # r) = Some (xs, r)"
  using assms
proof (induction xs arbitrary: f)
  case Nil
  then show ?case by simp
next
  case (Cons x xs)
  obtain g where g: "f = Suc g" using Cons.prems(3) by (cases f) auto
  show ?case
  proof (cases xs)
    case Nil
    with Cons.prems g show ?thesis
      by (simp add: reads_backD [of x "CHR '']'' # r" g])
  next
    case (Cons y ys)
    have split: "join_with '','' (map text_of (x # xs)) =
        text_of x @ CHR '','' # join_with '','' (map text_of xs)"
      by (simp add: Cons)
    have "parse_elems g (join_with '','' (map text_of xs) @ CHR '']'' # r) = Some (xs, r)"
      using Cons.IH Cons.prems g by (simp add: split) (simp add: Cons)
    then show ?thesis
      using Cons.prems(2,3) g
        reads_backD [of x "CHR '','' # join_with '','' (map text_of xs) @ CHR '']'' # r" g]
      unfolding split by simp
  qed
qed

lemma parse_members_text:
  assumes "kvs \<noteq> []" and "\<forall>(k, v) \<in> set kvs. reads_back v"
    and "distinct (map fst (acc @ kvs))"
    and "2 * length (join_with '','' (map member_text kvs)) + 1 \<le> f"
  shows "parse_members f acc (join_with '','' (map member_text kvs) @ CHR ''}'' # r)
           = Some (acc @ kvs, r)"
  using assms
proof (induction kvs arbitrary: f acc)
  case Nil
  then show ?case by simp
next
  case (Cons kv kvs)
  obtain k v where kv: "kv = (k, v)" by (cases kv)
  obtain g where g: "f = Suc g" using Cons.prems(4) by (cases f) auto
  have upd: "AList.update k v acc = acc @ [(k, v)]"
    using Cons.prems(3) kv by (intro update_fresh) (auto simp: map_has_dom)
  have v: "reads_back v" using Cons.prems(2) kv by simp
  show ?case
  proof (cases kvs)
    case Nil
    with Cons.prems g kv show ?thesis
      by (simp add: quote_Cons parse_quoted upd reads_backD [OF v])
  next
    case (Cons y ys)
    have split: "join_with '','' (map member_text (kv # kvs)) =
        member_text kv @ CHR '','' # join_with '','' (map member_text kvs)"
      by (simp add: Cons)
    have "parse_members g (acc @ [(k, v)]) (join_with '','' (map member_text kvs) @ CHR ''}'' # r)
        = Some ((acc @ [(k, v)]) @ kvs, r)"
      using Cons.prems g kv by (intro Cons.IH) (auto simp: split Cons)
    then show ?thesis
      using Cons.prems(4) g unfolding split
      by (simp add: kv quote_Cons parse_quoted upd reads_backD [OF v])
  qed
qed

lemma reads_back_json: "is_json v \<Longrightarrow> wf_js v \<Longrightarrow> reads_back v"
proof (induction v rule: is_json.induct)
  case (3 n)
  show ?case
    unfolding reads_back_def
  proof (intro allI impI)
    fix f r
    assume r: "num_end r" and f: "2 * length (text_of (JNum n)) \<le> f"
    obtain c cs where c: "num_text n = c # cs" "c = CHR ''-'' \<or> is_digit c"
      using num_text_hd [of n] 3 by (cases "num_text n") auto
    obtain g where "f = Suc g" using f c by (cases f) auto
    then show "parse_value f (text_of (JNum n) @ r) = Some (JNum n, r)"
      using parse_num_text [of n r] 3 r c parse_value_num [OF c(2), of g "cs @ r"] by simp
  qed
next
  case (5 xs)
  have all: "\<forall>x \<in> set xs. reads_back x" using 5 by auto
  show ?case
    unfolding reads_back_def
  proof (intro allI impI)
    fix f r
    assume f: "2 * length (text_of (JArr xs)) \<le> f"
    have json: "\<forall>x \<in> set xs. is_json x" using 5 by simp
    obtain g where g: "f = Suc g" using f by (cases f) (auto simp: text_of_JArr [OF json])
    show "parse_value f (text_of (JArr xs) @ r) = Some (JArr xs, r)"
    proof (cases xs)
      case Nil
      then show ?thesis using g by (simp add: text_of_JArr skip_ws_def is_ws_def)
    next
      case (Cons x ys)
      obtain c cs where c: "text_of x = c # cs" "\<not> is_ws c" "c \<noteq> CHR '']''"
        using text_of_hd [of x] 5 Cons by auto
      have hd: "\<exists>ds. join_with '','' (map text_of xs) @ CHR '']'' # r = c # ds"
        using c Cons by (cases ys) auto
      have "parse_elems g (join_with '','' (map text_of xs) @ CHR '']'' # r) = Some (xs, r)"
        using Cons all f g unfolding text_of_JArr [OF json] by (intro parse_elems_text) simp_all
      then show ?thesis
        using hd c g by (auto simp: text_of_JArr [OF json] skip_ws_def is_ws_def)
    qed
  qed
next
  case (6 kvs)
  have all: "\<forall>(k, v) \<in> set kvs. reads_back v" using 6 by fastforce
  show ?case
    unfolding reads_back_def
  proof (intro allI impI)
    fix f r
    assume f: "2 * length (text_of (JObj kvs)) \<le> f"
    have json: "\<forall>(k, v) \<in> set kvs. is_json v" using 6 by simp
    obtain g where g: "f = Suc g" using f by (cases f) (auto simp: text_of_JObj [OF json])
    show "parse_value f (text_of (JObj kvs) @ r) = Some (JObj kvs, r)"
    proof (cases kvs)
      case Nil
      then show ?thesis using g by (simp add: text_of_JObj skip_ws_def is_ws_def)
    next
      case (Cons kv ys)
      have hd: "\<exists>ds. join_with '','' (map member_text kvs) @ CHR ''}'' # r = CHR 0x22 # ds"
        using Cons by (cases ys) (auto simp: quote_Cons)
      have "parse_members g [] (join_with '','' (map member_text kvs) @ CHR ''}'' # r)
          = Some ([] @ kvs, r)"
        using Cons all 6 f g unfolding text_of_JObj [OF json]
        by (intro parse_members_text) simp_all
      then show ?thesis
        using hd g by (auto simp: text_of_JObj [OF json] skip_ws_def is_ws_def)
    qed
  qed
qed (auto intro!: reads_backI simp: quote_def parse_quoted strip_lit_def is_ws_def skip_ws_def split: if_splits)

theorem parse_json_text:
  assumes "is_json v" and "wf_js v" and "json_text v = Some t"
  shows "json_parse t = Inr v"
proof -
  have "parse_value (2 * length t + 1) (t @ []) = Some (v, [])"
    using reads_backD [OF reads_back_json [OF assms(1,2)], of "[]" "2 * length t + 1"] assms(3)
    by (simp add: text_of_def)
  then show ?thesis by (simp add: json_parse_def skip_ws_def del: parse_value.simps)
qed

corollary json_text_inject:
  assumes "is_json v" "wf_js v" "is_json w" "wf_js w" "json_text v = json_text w"
  shows "v = w"
  using parse_json_text [OF assms(1,2)] parse_json_text [OF assms(3,4)] assms(5)
  by (metis json_text_is_json [OF assms(1)] sum.inject(2))

end
