(* ===== verification/Canonical.thy ===== *)
theory Canonical
  imports JsonText
begin

text \<open>
  The two ways the kernel compares values: \<open>stableStringify\<close> inside \<open>hashState\<close> of
  execution/scheduler.ts, a text with the keys of every object sorted, and \<open>deepEqual\<close> of
  execution/replay-controller.ts.

  \<open>canon v\<close> is \<open>v\<close> with the properties of every object sorted by name. On JSON values the stable
  text is the JSON text of the canonical form, so three questions are the same question: equal
  stable texts, equal canonical forms, and \<open>deepEqual\<close>.
\<close>

section \<open>stableStringify\<close>

fun all_ok :: "(jserr + 'a) list \<Rightarrow> jserr + 'a list" where
  "all_ok [] = Inr []"
| "all_ok (Inl e # rs) = Inl e"
| "all_ok (Inr v # rs) = (case all_ok rs of Inl e \<Rightarrow> Inl e | Inr vs \<Rightarrow> Inr (v # vs))"

definition stack_overflow :: jserr where
  "stack_overflow = JsErr ''RangeError'' ''Maximum call stack size exceeded''"

text \<open>The text of one property; a value without a text prints as \<open>undefined\<close> in the template.\<close>

definition stable_part :: "string \<times> string option \<Rightarrow> string" where
  "stable_part p =
     quote (fst p) @ '':'' @ (case snd p of None \<Rightarrow> ''undefined'' | Some s \<Rightarrow> s)"

definition with_key :: "string \<times> (jserr + 'a) \<Rightarrow> jserr + (string \<times> 'a)" where
  "with_key p = (case snd p of Inl e \<Rightarrow> Inl e | Inr v \<Rightarrow> Inr (fst p, v))"

fun stable_text :: "jsval \<Rightarrow> jserr + string option" where
  "stable_text (JArr xs) =
     (case all_ok (map stable_text xs) of
        Inl e \<Rightarrow> Inl e
      | Inr ts \<Rightarrow>
          Inr (Some (''['' @ join_with '','' (map (\<lambda>t. case t of None \<Rightarrow> [] | Some s \<Rightarrow> s) ts) @ '']'')))"
| "stable_text (JObj kvs) =
     (case all_ok (map with_key (sort_key fst (map (\<lambda>(k, v). (k, stable_text v)) kvs))) of
        Inl e \<Rightarrow> Inl e
      | Inr ps \<Rightarrow> Inr (Some (''{'' @ join_with '','' (map stable_part ps) @ ''}'')))"
| "stable_text JCyc = Inl stack_overflow"
| "stable_text v = (case json_error v of Some e \<Rightarrow> Inl e | None \<Rightarrow> Inr (json_text v))"

section \<open>deepEqual\<close>

text \<open>\<open>None\<close> where the recursion does not end. The two values are distinct objects, as a logged
  and a recomputed output are.\<close>

function deep_equal :: "jsval \<Rightarrow> jsval \<Rightarrow> bool option"
  and deep_equal_list :: "jsval list \<Rightarrow> jsval list \<Rightarrow> bool option"
  and deep_equal_props :: "(string \<times> jsval) list \<Rightarrow> (string \<times> jsval) list \<Rightarrow> bool option"
where
  "deep_equal a b =
     (if js_strict_eq a b then Some True
      else if \<not> js_is_object a \<or> \<not> js_is_object b then Some False
      else
        (case (a, b) of
           (JArr xs, JArr ys) \<Rightarrow>
             if length xs \<noteq> length ys then Some False else deep_equal_list xs ys
         | (JArr xs, JObj m) \<Rightarrow> Some False
         | (JObj m, JArr ys) \<Rightarrow> Some False
         | (JObj m, JObj n) \<Rightarrow>
             if length m \<noteq> length n then Some False else deep_equal_props m n
         | _ \<Rightarrow> None))"
| "deep_equal_list [] ys = Some True"
| "deep_equal_list (x # xs) [] = Some False"
| "deep_equal_list (x # xs) (y # ys) =
     (case deep_equal x y of Some True \<Rightarrow> deep_equal_list xs ys | r \<Rightarrow> r)"
| "deep_equal_props [] n = Some True"
| "deep_equal_props ((k, v) # m) n =
     (case map_of n k of
        None \<Rightarrow> Some False
      | Some w \<Rightarrow> (case deep_equal v w of Some True \<Rightarrow> deep_equal_props m n | r \<Rightarrow> r))"
  by pat_completeness auto
termination
  by (relation "measure (\<lambda>x. case x of
        Inl (a, b) \<Rightarrow> size a
      | Inr (Inl (xs, ys)) \<Rightarrow> size_list size xs
      | Inr (Inr (m, n)) \<Rightarrow> size_list (size_prod (\<lambda>_. 0) size) m)") auto

declare deep_equal.simps [simp del]

section \<open>Canonical forms\<close>

fun canon :: "jsval \<Rightarrow> jsval" where
  "canon (JArr xs) = JArr (map canon xs)"
| "canon (JObj kvs) = JObj (sort_key fst (map (\<lambda>(k, v). (k, canon v)) kvs))"
| "canon v = v"

lemma insort_key_apsnd:
  "insort_key fst (k, f v) (map (\<lambda>(k, v). (k, f v)) xs) = map (\<lambda>(k, v). (k, f v)) (insort_key fst (k, v) xs)"
  by (induction xs) auto

lemma sort_key_apsnd:
  "sort_key fst (map (\<lambda>(k, v). (k, f v)) xs) = map (\<lambda>(k, v). (k, f v)) (sort_key fst xs)"
  by (induction xs) (auto simp: insort_key_apsnd)

lemma all_ok_Inr: "all_ok (map (\<lambda>x. Inr (f x)) xs) = Inr (map f xs)"
  by (induction xs) auto

lemma all_ok_map:
  "(\<And>x. x \<in> set xs \<Longrightarrow> g x = Inr (f x)) \<Longrightarrow> all_ok (map g xs) = Inr (map f xs)"
  by (induction xs) auto

lemma concat_map_single:
  "(\<And>x. x \<in> set xs \<Longrightarrow> f x = [g x]) \<Longrightarrow> concat (map f xs) = map g xs"
  by (induction xs) auto

lemma canon_is_json: "is_json v \<Longrightarrow> is_json (canon v)"
  by (induction v rule: canon.induct) auto

lemma map_fst_canon: "map fst (map (\<lambda>(k, v). (k, f v)) xs) = map fst xs"
  by (induction xs) auto

lemma distinct_fst_sort: "distinct (map fst (sort_key fst xs)) = distinct (map fst xs)"
  by (induction xs) (auto simp: distinct_insort_key)

lemma canon_wf: "wf_js v \<Longrightarrow> wf_js (canon v)"
proof (induction v rule: canon.induct)
  case (2 kvs)
  then show ?case
    by (auto simp: distinct_fst_sort map_fst_canon simp del: map_map)
qed auto

lemma json_text_canon: "is_json v \<Longrightarrow> json_text (canon v) \<noteq> None"
  by (cases v) auto

lemma stable_text_canon: "is_json v \<Longrightarrow> stable_text v = Inr (json_text (canon v))"
proof (induction v rule: stable_text.induct)
  case (1 xs)
  have "all_ok (map stable_text xs) = Inr (map (\<lambda>x. json_text (canon x)) xs)"
    using 1 by (intro all_ok_map) auto
  moreover have "\<exists>s. json_text (canon x) = Some s" if "x \<in> set xs" for x
    using 1(2) that json_text_canon [of x] by auto
  ultimately show ?case
    by (auto simp: o_def intro!: arg_cong [of _ _ "join_with '',''"] split: option.split)
next
  case (2 kvs)
  have "all_ok (map with_key (map (\<lambda>(k, v). (k, stable_text v)) (sort_key fst kvs))) =
      Inr (map (\<lambda>(k, v). (k, json_text (canon v))) (sort_key fst kvs))"
    unfolding map_map by (rule all_ok_map) (use 2 in \<open>auto simp: with_key_def\<close>)
  moreover have "concat (map (\<lambda>(k, v). case json_text v of None \<Rightarrow> [] | Some s \<Rightarrow> [quote k @ '':'' @ s])
        (map (\<lambda>(k, v). (k, canon v)) (sort_key fst kvs))) =
      map stable_part (map (\<lambda>(k, v). (k, json_text (canon v))) (sort_key fst kvs))"
    unfolding map_map
  proof (rule concat_map_single)
    fix p assume p: "p \<in> set (sort_key fst kvs)"
    then have "is_json (snd p)" using 2(2) by auto
    then show "((\<lambda>(k, v). case json_text v of None \<Rightarrow> [] | Some s \<Rightarrow> [quote k @ '':'' @ s]) \<circ>
          (\<lambda>(k, v). (k, canon v))) p =
        [(stable_part \<circ> (\<lambda>(k, v). (k, json_text (canon v)))) p]"
      using json_text_canon [of "snd p"] by (cases p) (auto simp: stable_part_def)
  qed
  ultimately show ?case
    by (simp add: sort_key_apsnd del: map_map)
qed auto

section \<open>deepEqual compares canonical forms\<close>

lemma sort_key_fst_eq_iff:
  assumes "distinct (map fst xs)" and "distinct (map fst ys)"
  shows "sort_key fst xs = sort_key fst ys \<longleftrightarrow> set xs = set (ys :: (string \<times> 'a) list)"
proof
  assume "sort_key fst xs = sort_key fst ys"
  then show "set xs = set ys" by (metis set_sort)
next
  assume eq: "set xs = set ys"
  have "inj_on fst (set xs)" using assms(1) by (simp add: distinct_map)
  then have "inj_on fst (set (sort_key fst xs) \<union> set (sort_key fst ys))"
    using eq by simp
  then show "sort_key fst xs = sort_key fst ys"
    by (rule map_sorted_distinct_set_unique) (simp_all add: assms distinct_fst_sort eq)
qed

lemma length_sort_key_eq: "sort_key f xs = sort_key f ys \<Longrightarrow> length xs = length ys"
  by (metis length_sort)

lemma map_of_canon: "map_of (map (\<lambda>(k, v). (k, f v)) kvs) k = map_option f (map_of kvs k)"
  by (induction kvs) auto

text \<open>With as many properties on both sides, one inclusion is enough.\<close>

lemma same_length_subset_eq:
  assumes "distinct (map fst xs)" and "distinct (map fst ys)" and "length xs = length ys"
    and "set xs \<subseteq> set ys"
  shows "set xs = set ys"
  using assms by (metis card_subset_eq distinct_card distinct_map finite_set)

lemma canon_obj_eq_iff:
  assumes m: "distinct (map fst m)" and n: "distinct (map fst n)"
  shows "canon (JObj m) = canon (JObj n) \<longleftrightarrow>
    length m = length n \<and> (\<forall>(k, v) \<in> set m. \<exists>w. map_of n k = Some w \<and> canon v = canon w)"
proof -
  let ?m = "map (\<lambda>(k, v). (k, canon v)) m" and ?n = "map (\<lambda>(k, v). (k, canon v)) n"
  have d: "distinct (map fst ?m)" "distinct (map fst ?n)"
    using m n by (simp_all only: map_fst_canon)
  have elem: "(k, x) \<in> set ?n \<longleftrightarrow> (\<exists>w. map_of n k = Some w \<and> x = canon w)" for k x
    using map_of_eq_Some_iff [OF d(2), of k x] by (auto simp: map_of_canon)
  have "set (map h m) \<subseteq> N \<longleftrightarrow> (\<forall>p \<in> set m. h p \<in> N)" for h :: "string \<times> jsval \<Rightarrow> string \<times> jsval" and N
    by (simp add: image_subset_iff)
  then have "set ?m \<subseteq> set ?n \<longleftrightarrow> (\<forall>p \<in> set m. (\<lambda>(k, v). (k, canon v)) p \<in> set ?n)" .
  also have "\<dots> \<longleftrightarrow> (\<forall>(k, v) \<in> set m. \<exists>w. map_of n k = Some w \<and> canon v = canon w)"
    by (rule ball_cong [OF refl]) (simp only: elem split: prod.split, blast)
  finally have sub: "set ?m \<subseteq> set ?n \<longleftrightarrow>
      (\<forall>(k, v) \<in> set m. \<exists>w. map_of n k = Some w \<and> canon v = canon w)" .
  have "canon (JObj m) = canon (JObj n) \<longleftrightarrow> set ?m = set ?n"
    using sort_key_fst_eq_iff [OF d] by simp
  also have "\<dots> \<longleftrightarrow> length m = length n \<and> set ?m \<subseteq> set ?n"
  proof
    assume eq: "set ?m = set ?n"
    have "distinct ?m" "distinct ?n"
      using d by (simp_all only: distinct_map)
    then have "length ?m = length ?n"
      using eq distinct_card [of ?m] distinct_card [of ?n] by (simp only:)
    then show "length m = length n \<and> set ?m \<subseteq> set ?n" using eq by simp
  next
    assume "length m = length n \<and> set ?m \<subseteq> set ?n"
    then show "set ?m = set ?n"
      using same_length_subset_eq [OF d] by (simp only: length_map)
  qed
  finally show ?thesis using sub by simp
qed

lemma is_json_not_cyc: "is_json v \<Longrightarrow> v \<noteq> JCyc"
  by auto

lemma strict_eq_json: "is_json a \<Longrightarrow> is_json b \<Longrightarrow> \<not> js_is_object a \<or> \<not> js_is_object b \<Longrightarrow>
   js_strict_eq a b \<longleftrightarrow> canon a = canon b"
  by (cases a; cases b) (auto simp: js_is_object_def Let_def split: jsnum.splits)

lemma strict_eq_object: "js_is_object a \<Longrightarrow> \<not> js_strict_eq a b"
  by (cases a; cases b) (auto simp: js_is_object_def)

definition json_wf :: "jsval \<Rightarrow> bool" where
  "json_wf v \<longleftrightarrow> is_json v \<and> wf_js v"

lemma json_wf_simps [simp]:
  "json_wf (JArr xs) \<longleftrightarrow> (\<forall>x \<in> set xs. json_wf x)"
  "json_wf (JObj kvs) \<longleftrightarrow> distinct (map fst kvs) \<and> (\<forall>(k, v) \<in> set kvs. json_wf v)"
  by (auto simp: json_wf_def)

lemma deep_equal_canon_aux:
  "json_wf a \<Longrightarrow> json_wf b \<Longrightarrow> deep_equal a b = Some (canon a = canon b)"
  "\<forall>x \<in> set xs. json_wf x \<Longrightarrow> \<forall>y \<in> set ys. json_wf y \<Longrightarrow> length xs = length ys \<Longrightarrow>
   deep_equal_list xs ys = Some (map canon xs = map canon ys)"
  "\<forall>(k, v) \<in> set m. json_wf v \<Longrightarrow> \<forall>(k, v) \<in> set n. json_wf v \<Longrightarrow>
   deep_equal_props m n = Some (\<forall>(k, v) \<in> set m. \<exists>w. map_of n k = Some w \<and> canon v = canon w)"
proof (induction a b and xs ys and m n rule: deep_equal_deep_equal_list_deep_equal_props.induct)
  case (1 a b)
  show ?case
  proof (cases "js_is_object a \<and> js_is_object b")
    case False
    then show ?thesis
      using strict_eq_json [of a b] 1(3,4) by (subst deep_equal.simps) (auto simp: json_wf_def)
  next
    case obj: True
    then have ns: "\<not> js_strict_eq a b" using strict_eq_object by blast
    have shapes: "(\<exists>xs. a = JArr xs) \<or> (\<exists>m. a = JObj m)" "(\<exists>ys. b = JArr ys) \<or> (\<exists>n. b = JObj n)"
      using obj 1(3,4) is_json_not_cyc
      by (auto simp: js_is_object_def json_wf_def split: jsval.splits)
    then consider (arrays) xs ys where "a = JArr xs" "b = JArr ys"
      | (objects) m n where "a = JObj m" "b = JObj n"
      | (mixed) "deep_equal a b = Some False" "canon a \<noteq> canon b"
      using ns obj by (auto simp: deep_equal.simps js_is_object_def)
    then show ?thesis
    proof cases
      case arrays
      show ?thesis
      proof (cases "length xs = length ys")
        case True
        then have "deep_equal_list xs ys = Some (map canon xs = map canon ys)"
          using 1(1) [OF ns _ _ _ _ ] 1(3,4) arrays obj ns by auto
        then show ?thesis using True ns obj by (simp add: arrays deep_equal.simps)
      next
        case False
        then have "map canon xs \<noteq> map canon ys" by (metis length_map)
        then show ?thesis using False ns obj by (simp add: arrays deep_equal.simps)
      qed
    next
      case objects
      have iff: "canon (JObj m) = canon (JObj n) \<longleftrightarrow>
          length m = length n \<and> (\<forall>(k, v) \<in> set m. \<exists>w. map_of n k = Some w \<and> canon v = canon w)"
        using 1(3,4) objects by (intro canon_obj_eq_iff) simp_all
      show ?thesis
      proof (cases "length m = length n")
        case True
        then have "deep_equal_props m n =
            Some (\<forall>(k, v) \<in> set m. \<exists>w. map_of n k = Some w \<and> canon v = canon w)"
          using 1(2) 1(3,4) objects obj ns by auto
        then show ?thesis using True ns obj iff by (simp add: objects deep_equal.simps del: canon.simps)
      next
        case False
        then show ?thesis using ns obj iff by (simp add: objects deep_equal.simps del: canon.simps)
      qed
    qed simp
  qed
next
  case (4 x xs y ys)
  then show ?case by (auto split: bool.split)
next
  case (6 k v m n)
  show ?case
  proof (cases "map_of n k")
    case (Some w)
    then have "json_wf w" using 6(4) by (auto dest: map_of_SomeD)
    then show ?thesis
      using 6(1) [OF Some] 6(2) [OF Some] 6(3,4) Some by (auto split: bool.split)
  qed simp
qed simp_all

section \<open>hashState\<close>

text \<open>\<open>sha\<close> is \<open>crypto.createHash('sha256').update(text).digest('hex')\<close>. \<open>update(undefined)\<close>
  throws.\<close>

definition hash_state :: "(string \<Rightarrow> string) \<Rightarrow> jsval \<Rightarrow> jserr + string" where
  "hash_state sha v =
     (case stable_text v of
        Inl e \<Rightarrow> Inl e
      | Inr None \<Rightarrow> Inl (JsErr ''TypeError'' ''The data argument must be of type string'')
      | Inr (Some t) \<Rightarrow> Inr (sha t))"

lemma hash_state_json: "is_json v \<Longrightarrow> \<exists>t. json_text (canon v) = Some t \<and> hash_state sha v = Inr (sha t)"
  using json_text_canon [of v] by (auto simp: hash_state_def stable_text_canon)

section \<open>The clone as text\<close>

lemma json_text_image:
  "json_error v = None \<Longrightarrow> json_text v = (case json_image v of None \<Rightarrow> None | Some w \<Rightarrow> json_text w)"
proof (induction v rule: json_image.induct)
  case (6 xs)
  have "(case json_text x of None \<Rightarrow> ''null'' | Some s \<Rightarrow> s) =
      (case json_text (case json_image x of None \<Rightarrow> JNull | Some v \<Rightarrow> v) of None \<Rightarrow> ''null'' | Some s \<Rightarrow> s)"
    if "x \<in> set xs" for x
    using 6 that by (auto split: option.split)
  then have "map (\<lambda>x. case json_text x of None \<Rightarrow> ''null'' | Some s \<Rightarrow> s) xs =
      map (\<lambda>x. case json_text (case json_image x of None \<Rightarrow> JNull | Some v \<Rightarrow> v) of
        None \<Rightarrow> ''null'' | Some s \<Rightarrow> s) xs"
    by (rule map_cong [OF refl])
  then show ?case
    by (simp only: json_image.simps json_text.simps option.case map_map o_def)
next
  case (7 kvs)
  have "concat (map (\<lambda>(k, v). case json_text v of None \<Rightarrow> [] | Some s \<Rightarrow> [quote k @ '':'' @ s]) kvs) =
      concat (map (\<lambda>(k, v). case json_text v of None \<Rightarrow> [] | Some s \<Rightarrow> [quote k @ '':'' @ s]) (image_props kvs))"
    using 7
  proof (induction kvs)
    case (Cons kv kvs)
    have "json_text (snd kv) = (case json_image (snd kv) of None \<Rightarrow> None | Some w \<Rightarrow> json_text w)"
      using Cons.prems by (cases kv) auto
    moreover have "concat (map (\<lambda>(k, v). case json_text v of None \<Rightarrow> [] | Some s \<Rightarrow> [quote k @ '':'' @ s]) kvs) =
      concat (map (\<lambda>(k, v). case json_text v of None \<Rightarrow> [] | Some s \<Rightarrow> [quote k @ '':'' @ s]) (image_props kvs))"
      using Cons by auto
    ultimately show ?case by (cases kv) (auto split: option.split)
  qed simp
  then show ?case by simp
qed (auto simp: show_int_def show_nat.simps digit_char_def split: jsnum.split)

section \<open>Properties\<close>

text \<open>The clone the stores and the log rely on is what the texts say. For every JavaScript
  value, \<open>json_clone\<close>, the model of \<open>JSON.parse(JSON.stringify(v))\<close> used throughout, is the reader
  applied to the printed text, errors included: printing and reading lose exactly what
  \<open>json_image\<close> drops.\<close>

theorem clone_is_parse_of_stringify:
  assumes "wf_js v"
  shows "json_clone v =
    (case json_error v of
       Some e \<Rightarrow> Inl e
     | None \<Rightarrow> (case json_text v of None \<Rightarrow> Inl undefined_not_json | Some t \<Rightarrow> json_parse t))"
proof (cases "json_error v")
  case None
  show ?thesis
  proof (cases "json_image v")
    case (Some w)
    have "is_json w" "wf_js w"
      using json_image_is_json [OF Some] json_image_wf [OF assms Some] by auto
    moreover obtain t where "json_text w = Some t"
      using \<open>is_json w\<close> by (cases w) auto
    ultimately show ?thesis
      using parse_json_text [of w t] None Some json_text_image [OF None] by (simp add: json_clone_def)
  qed (use None json_text_image [OF None] in \<open>simp add: json_clone_def\<close>)
qed (simp add: json_clone_def)

theorem clone_is_parse_of_stringify_witness:
  "json_clone (JObj [(''a'', JUndef), (''b'', JArr [JNum NNaN])]) =
     (case json_text (JObj [(''a'', JUndef), (''b'', JArr [JNum NNaN])]) of
        None \<Rightarrow> Inl undefined_not_json | Some t \<Rightarrow> json_parse t)"
  using clone_is_parse_of_stringify [of "JObj [(''a'', JUndef), (''b'', JArr [JNum NNaN])]"] by simp

text \<open>C23: The hash and \<open>deepEqual\<close> decide the same equality. On JSON values \<open>deepEqual\<close> ends and
  \<open>hashState\<close> does not throw; \<open>deepEqual\<close> holds exactly when the hashed texts are equal, exactly
  when the two values differ at most in the order of their properties. So with a hash function
  without collisions on the two texts, equal hashes mean equal values.\<close>

theorem hash_agrees_with_deep_equal:
  assumes "is_json a" "wf_js a" "is_json b" "wf_js b"
    and "\<And>s t. sha s = sha t \<Longrightarrow> stable_text a = Inr (Some s) \<Longrightarrow> stable_text b = Inr (Some t) \<Longrightarrow> s = t"
  shows "deep_equal a b = Some (hash_state sha a = hash_state sha b) \<and>
    (hash_state sha a = hash_state sha b \<longleftrightarrow> canon a = canon b) \<and> is_ok (hash_state sha a)"
proof -
  have d: "deep_equal a b = Some (canon a = canon b)"
    using assms(1-4) by (intro deep_equal_canon_aux) (simp_all add: json_wf_def)
  obtain s where s: "json_text (canon a) = Some s" "hash_state sha a = Inr (sha s)"
    using hash_state_json [OF assms(1)] by blast
  obtain t where t: "json_text (canon b) = Some t" "hash_state sha b = Inr (sha t)"
    using hash_state_json [OF assms(3)] by blast
  have "sha s = sha t \<longleftrightarrow> s = t"
    using assms(5) [of s t] s t stable_text_canon assms(1,3) by auto
  moreover have "s = t \<longleftrightarrow> canon a = canon b"
    using json_text_inject [of "canon a" "canon b"] s t assms(1-4) by (auto simp: canon_is_json canon_wf)
  ultimately show ?thesis using d s t by simp
qed

theorem hash_agrees_with_deep_equal_witness:
  "deep_equal (JObj [(''a'', jint 1), (''b'', JNull)]) (JObj [(''b'', JNull), (''a'', jint 1)]) = Some True"
  using hash_agrees_with_deep_equal [where a = "JObj [(''a'', jint 1), (''b'', JNull)]" and
      b = "JObj [(''b'', JNull), (''a'', jint 1)]" and sha = id]
  by (simp add: hash_state_def)

text \<open>Outside JSON the hashed text does confuse outputs. Two tick results that
  \<open>deepEqual\<close> tells apart have the same hash, whatever the hash function.\<close>

theorem hash_confuses_non_json:
  "hash_state sha (JArr [JUndef]) = hash_state sha (JArr []) \<and>
   deep_equal (JArr [JUndef]) (JArr []) = Some False \<and>
   hash_state sha (JArr [JNum NNaN]) = hash_state sha (JArr [JNull]) \<and>
   deep_equal (JArr [JNum NNaN]) (JArr [JNull]) = Some False \<and>
   hash_state sha (JObj [(''k'', JFun ''f'')]) = hash_state sha (JObj [(''k'', JUndef)]) \<and>
   deep_equal (JObj [(''k'', JFun ''f'')]) (JObj [(''k'', JUndef)]) = Some False"
  by (simp add: hash_state_def deep_equal.simps js_is_object_def with_key_def)

end
