(* ===== verification/Execution.thy ===== *)
theory Execution
  imports Tools Canonical
begin

text \<open>
  The parts the scheduler is made of: execution/tick.ts (\<open>TickEngine.runTick\<close>),
  execution/quota.ts (\<open>QuotaEnforcer\<close>) and execution/replay-controller.ts
  (\<open>ReplayController.verifyTick\<close>). Their calls to the telemetry are in \<open>Telemetry\<close>.
\<close>

section \<open>One tick\<close>

datatype instruction =
  NOOP | RETURN jsval | CALL_TOOL string jsval | DELEGATE string jsval | OtherInstruction string

datatype tick_output =
  COMPLETED jsval | PENDING_TOOL string jsval | PENDING_DELEGATION string jsval | FAILED string

record tick_input =
  ti_agentId :: string
  ti_sequenceNumber :: int
  ti_instruction :: instruction
  ti_maxSteps :: int

definition run_tick :: "tick_input \<Rightarrow> tick_output" where
  "run_tick i =
     (if ti_maxSteps i < 1 then FAILED ''TICK_OVERFLOW''
      else
        (case ti_instruction i of
           NOOP \<Rightarrow> COMPLETED JNull
         | RETURN v \<Rightarrow> COMPLETED v
         | CALL_TOOL name args \<Rightarrow> PENDING_TOOL name args
         | DELEGATE target payload \<Rightarrow> PENDING_DELEGATION target payload
         | OtherInstruction k \<Rightarrow> FAILED ''UNKNOWN_INSTRUCTION''))"

fun instruction_js :: "instruction \<Rightarrow> jsval" where
  "instruction_js NOOP = JObj [(''kind'', JStr ''NOOP'')]"
| "instruction_js (RETURN v) = JObj [(''kind'', JStr ''RETURN''), (''value'', v)]"
| "instruction_js (CALL_TOOL n args) =
     JObj [(''kind'', JStr ''CALL_TOOL''), (''toolName'', JStr n), (''args'', args)]"
| "instruction_js (DELEGATE t p) =
     JObj [(''kind'', JStr ''DELEGATE''), (''target'', JStr t), (''payload'', p)]"
| "instruction_js (OtherInstruction k) = JObj [(''kind'', JStr k)]"

fun output_js :: "tick_output \<Rightarrow> jsval" where
  "output_js (COMPLETED v) = JObj [(''kind'', JStr ''COMPLETED''), (''result'', v)]"
| "output_js (PENDING_TOOL n args) =
     JObj [(''kind'', JStr ''PENDING_TOOL''), (''toolName'', JStr n), (''args'', args)]"
| "output_js (PENDING_DELEGATION t p) =
     JObj [(''kind'', JStr ''PENDING_DELEGATION''), (''target'', JStr t), (''payload'', p)]"
| "output_js (FAILED e) = JObj [(''kind'', JStr ''FAILED''), (''error'', JStr e)]"

section \<open>Quotas\<close>

record quota =
  maxTicks :: int
  maxToolCalls :: int

record consumption =
  used_ticks :: int
  used_toolCalls :: int

record enforcer =
  limits :: "(string, quota) jsmap"
  usage :: "(string, consumption) jsmap"

definition no_usage :: consumption where
  "no_usage = \<lparr>used_ticks = 0, used_toolCalls = 0\<rparr>"

definition new_enforcer :: enforcer where
  "new_enforcer = \<lparr>limits = [], usage = []\<rparr>"

definition quota_error :: "string \<Rightarrow> int \<Rightarrow> string \<Rightarrow> jserr" where
  "quota_error resource limit a =
     JsErr ''QuotaExceededError''
       (''Agent '' @ a @ '' exceeded quota for resource: '' @ resource @ '' (limit: '' @ show_int limit @ '')'')"

definition setQuota :: "string \<Rightarrow> quota \<Rightarrow> enforcer \<Rightarrow> enforcer" where
  "setQuota a q e =
     (let e1 = e\<lparr>limits := AList.update a q (limits e)\<rparr>
      in if map_has (usage e1) a then e1
         else e1\<lparr>usage := AList.update a no_usage (usage e1)\<rparr>)"

definition getQuota :: "enforcer \<Rightarrow> string \<Rightarrow> quota option" where
  "getQuota e a = map_of (limits e) a"

definition getUsage :: "enforcer \<Rightarrow> string \<Rightarrow> consumption" where
  "getUsage e a = map_get_or no_usage (usage e) a"

definition consumeTick :: "string \<Rightarrow> enforcer \<Rightarrow> (enforcer, unit) outcome" where
  "consumeTick a e =
     (let c = getUsage e a;
          c1 = c\<lparr>used_ticks := used_ticks c + 1\<rparr>;
          e1 = e\<lparr>usage := AList.update a c1 (usage e)\<rparr>
      in (case map_of (limits e) a of
            None \<Rightarrow> (e1, Inr ())
          | Some q \<Rightarrow>
              if used_ticks c1 > maxTicks q then (e1, Inl (quota_error ''ticks'' (maxTicks q) a))
              else (e1, Inr ())))"

definition consumeToolCall :: "string \<Rightarrow> enforcer \<Rightarrow> (enforcer, unit) outcome" where
  "consumeToolCall a e =
     (let c = getUsage e a;
          c1 = c\<lparr>used_toolCalls := used_toolCalls c + 1\<rparr>;
          e1 = e\<lparr>usage := AList.update a c1 (usage e)\<rparr>
      in (case map_of (limits e) a of
            None \<Rightarrow> (e1, Inr ())
          | Some q \<Rightarrow>
              if used_toolCalls c1 > maxToolCalls q
              then (e1, Inl (quota_error ''toolCalls'' (maxToolCalls q) a))
              else (e1, Inr ())))"

text \<open>The contract of a metered resource: an attempt of one agent counts for that agent alone, and
  fails exactly when the count passes the limit.\<close>

locale metered =
  fixes consume :: "string \<Rightarrow> enforcer \<Rightarrow> (enforcer, unit) outcome"
    and used :: "consumption \<Rightarrow> int"
    and allowed :: "quota \<Rightarrow> int"
  assumes consume_usage:
      "used (getUsage (fst (consume a e)) b) = used (getUsage e b) + (if b = a then 1 else 0)"
    and consume_limits: "limits (fst (consume a e)) = limits e"
    and consume_ok: "is_ok (snd (consume a e)) \<longleftrightarrow>
      (\<forall>q. map_of (limits e) a = Some q \<longrightarrow> used (getUsage e a) + 1 \<le> allowed q)"
begin

text \<open>A sequence of attempts by any agents; those of \<open>a\<close> that succeeded.\<close>

fun granted :: "string \<Rightarrow> string list \<Rightarrow> enforcer \<Rightarrow> nat" where
  "granted a [] e = 0"
| "granted a (b # bs) e =
     (if b = a \<and> is_ok (snd (consume b e)) then 1 else 0) + granted a bs (fst (consume b e))"

lemma granted_exact:
  assumes "map_of (limits e) a = Some q"
  shows "int (granted a bs e) =
    min (int (count_list bs a)) (max 0 (allowed q - used (getUsage e a)))"
  using assms
proof (induction bs arbitrary: e)
  case (Cons b bs)
  have "int (granted a bs (fst (consume b e))) =
      min (int (count_list bs a)) (max 0 (allowed q - used (getUsage (fst (consume b e)) a)))"
    using Cons by (simp add: consume_limits)
  then show ?case
    using Cons.prems by (auto simp: consume_usage consume_ok)
qed simp

end

lemma getUsage_update [simp]:
  "getUsage (e\<lparr>usage := AList.update a c u\<rparr>) b = (if b = a then c else map_get_or no_usage u b)"
  by (simp add: getUsage_def)

interpretation tick_meter: metered consumeTick used_ticks maxTicks
  by unfold_locales
    (auto simp: consumeTick_def Let_def getUsage_def [symmetric] split: option.split)

interpretation tool_meter: metered consumeToolCall used_toolCalls maxToolCalls
  by unfold_locales
    (auto simp: consumeToolCall_def Let_def getUsage_def [symmetric] split: option.split)

section \<open>The replay controller\<close>

definition verifyTick :: "kernel_mode \<Rightarrow> string \<Rightarrow> int \<Rightarrow> jsval \<Rightarrow> world \<Rightarrow> jserr + unit" where
  "verifyTick mode a n computed w =
     (if mode = LIVE then Inr ()
      else
        (case find_entry ''TICK_OUTPUT'' a n w of
           None \<Rightarrow> Inl (Error ''REPLAY_MISSING_LOG'')
         | Some e \<Rightarrow>
             (case deep_equal (js_prop (le_payload e) ''output'') computed of
                None \<Rightarrow> Inl stack_overflow
              | Some False \<Rightarrow> Inl (Error ''REPLAY_DIVERGENCE'')
              | Some True \<Rightarrow> Inr ())))"

section \<open>Properties\<close>

text \<open>A quota is never overdrawn and never wasted. Whatever the order in which agents ask, an
  agent with a quota is granted exactly as many ticks as it asked for, up to what its limit has
  left, and the same holds of its tool calls; other agents' requests make no difference.\<close>

theorem quota_exact:
  assumes "getQuota e a = Some q"
  shows "int (tick_meter.granted a bs e) =
      min (int (count_list bs a)) (max 0 (maxTicks q - used_ticks (getUsage e a))) \<and>
    int (tool_meter.granted a bs e) =
      min (int (count_list bs a)) (max 0 (maxToolCalls q - used_toolCalls (getUsage e a)))"
  using tick_meter.granted_exact tool_meter.granted_exact assms by (simp add: getQuota_def)

theorem quota_exact_witness:
  "int (tick_meter.granted ''a'' [''a'', ''b'', ''a'', ''a'']
     (setQuota ''a'' \<lparr>maxTicks = 2, maxToolCalls = 0\<rparr> new_enforcer)) = 2"
  using quota_exact [of "setQuota ''a'' \<lparr>maxTicks = 2, maxToolCalls = 0\<rparr> new_enforcer" "''a''"
      "\<lparr>maxTicks = 2, maxToolCalls = 0\<rparr>" "[''a'', ''b'', ''a'', ''a'']"]
  by (simp add: setQuota_def new_enforcer_def getQuota_def getUsage_def map_get_or_def map_has_def
      no_usage_def Let_def)

text \<open>\<open>verifyTick\<close> accepts exactly the logged output. In REPLAY, for JSON outputs, it returns
  if the first entry logged for the agent's tick holds the computed output up to the order of
  properties, throws \<open>REPLAY_DIVERGENCE\<close> if it holds another, and \<open>REPLAY_MISSING_LOG\<close> if there
  is none; in LIVE it accepts anything.\<close>

theorem verifyTick_spec:
  assumes "is_json computed" "wf_js computed"
    and "\<And>e. find_entry ''TICK_OUTPUT'' a n w = Some e \<Longrightarrow>
      is_json (js_prop (le_payload e) ''output'') \<and> wf_js (js_prop (le_payload e) ''output'')"
  shows "verifyTick REPLAY a n computed w =
      (case find_entry ''TICK_OUTPUT'' a n w of
         None \<Rightarrow> Inl (Error ''REPLAY_MISSING_LOG'')
       | Some e \<Rightarrow> if canon (js_prop (le_payload e) ''output'') = canon computed then Inr ()
           else Inl (Error ''REPLAY_DIVERGENCE'')) \<and>
    verifyTick LIVE a n computed w = Inr ()"
  using deep_equal_canon_aux(1) [of _ computed] assms
  by (auto simp: verifyTick_def json_wf_def split: option.split bool.split)

theorem verifyTick_spec_witness:
  "verifyTick REPLAY ''a'' 1 (jint 2)
     (log_event ''TICK_OUTPUT'' ''a'' (JObj [(''sequenceNumber'', jint 1), (''output'', jint 3)]) (new_world int)) =
   Inl (Error ''REPLAY_DIVERGENCE'')"
proof -
  let ?w = "log_event ''TICK_OUTPUT'' ''a'' (JObj [(''sequenceNumber'', jint 1), (''output'', jint 3)]) (new_world int)"
  have none: "find_entry ''TICK_OUTPUT'' ''a'' 1 (new_world int) = None"
    by (simp add: find_entry_def getLogsForAgent_def new_world_def new_logger_def)
  obtain e where e: "find_entry ''TICK_OUTPUT'' ''a'' 1 ?w = Some e"
    "js_prop (le_payload e) ''output'' = jint 3"
    using find_entry_log_event [OF none, of "''TICK_OUTPUT''" "''a''"
        "JObj [(''sequenceNumber'', jint 1), (''output'', jint 3)]"] by (simp add: js_truthy_def)
  show ?thesis
    using verifyTick_spec [of "jint 2" "''a''" 1 ?w] e by simp
qed

end
