(* ===== verification/Lifecycle.thy ===== *)
theory Lifecycle
  imports Logging
begin

text \<open>
  The agent lifecycle state machine: lifecycle/types.ts (states, triggers and the table
  \<open>VALID_TRANSITIONS\<close>) and lifecycle/controller.ts (\<open>LifecycleController\<close>).

  \<open>OtherTrigger s\<close> stands for a string outside the trigger type that reaches
  \<open>transition\<close> through a cast (kernel/index.ts passes the state names of the failure handler
  as triggers). The controller's own \<open>busSeq\<close> is overwritten by the logger's when the record
  is spread into the log entry, so the entry carries \<open>from\<close>, \<open>to\<close>, \<open>trigger\<close> and \<open>meta\<close> as
  additional properties.
\<close>

section \<open>States, triggers and the table\<close>

datatype agent_state =
  DEFINED | SPAWNED | ACTIVE | WAITING | RESUMABLE | COMPLETING | FAULTED | RECOVERING | TERMINATED

datatype trigger =
    T_spawn | T_activate | T_yield | T_await_tool | T_complete | T_error | T_suspend | T_resume
  | T_timeout | T_expire | T_teardown_ok | T_recover | T_abandon | T_recovery_success
  | T_recovery_exhausted | OtherTrigger string

fun state_name :: "agent_state \<Rightarrow> string" where
  "state_name DEFINED = ''DEFINED''"
| "state_name SPAWNED = ''SPAWNED''"
| "state_name ACTIVE = ''ACTIVE''"
| "state_name WAITING = ''WAITING''"
| "state_name RESUMABLE = ''RESUMABLE''"
| "state_name COMPLETING = ''COMPLETING''"
| "state_name FAULTED = ''FAULTED''"
| "state_name RECOVERING = ''RECOVERING''"
| "state_name TERMINATED = ''TERMINATED''"

fun trigger_name :: "trigger \<Rightarrow> string" where
  "trigger_name T_spawn = ''spawn''"
| "trigger_name T_activate = ''activate''"
| "trigger_name T_yield = ''yield''"
| "trigger_name T_await_tool = ''await_tool''"
| "trigger_name T_complete = ''complete''"
| "trigger_name T_error = ''error''"
| "trigger_name T_suspend = ''suspend''"
| "trigger_name T_resume = ''resume''"
| "trigger_name T_timeout = ''timeout''"
| "trigger_name T_expire = ''expire''"
| "trigger_name T_teardown_ok = ''teardown_ok''"
| "trigger_name T_recover = ''recover''"
| "trigger_name T_abandon = ''abandon''"
| "trigger_name T_recovery_success = ''recovery_success''"
| "trigger_name T_recovery_exhausted = ''recovery_exhausted''"
| "trigger_name (OtherTrigger s) = s"

definition VALID_TRANSITIONS :: "(agent_state \<times> trigger \<times> agent_state) list" where
  "VALID_TRANSITIONS =
     [(DEFINED, T_spawn, SPAWNED),
      (SPAWNED, T_activate, ACTIVE),
      (ACTIVE, T_yield, WAITING),
      (ACTIVE, T_await_tool, WAITING),
      (ACTIVE, T_complete, COMPLETING),
      (ACTIVE, T_error, FAULTED),
      (ACTIVE, T_suspend, RESUMABLE),
      (WAITING, T_resume, ACTIVE),
      (WAITING, T_timeout, FAULTED),
      (WAITING, T_error, FAULTED),
      (RESUMABLE, T_resume, ACTIVE),
      (RESUMABLE, T_expire, TERMINATED),
      (COMPLETING, T_teardown_ok, TERMINATED),
      (FAULTED, T_recover, RECOVERING),
      (FAULTED, T_abandon, TERMINATED),
      (RECOVERING, T_recovery_success, ACTIVE),
      (RECOVERING, T_recovery_exhausted, TERMINATED)]"

section \<open>The controller\<close>

record lc_transition =
  tr_from :: agent_state
  tr_to :: agent_state
  tr_trigger :: trigger
  tr_timestamp :: int
  tr_busSeq :: int
  tr_meta :: jsval

record lifecycle =
  stateMap :: "(string, agent_state) jsmap"
  records :: "(string, lc_transition list) jsmap"
  busSeqCounter :: int

definition new_lifecycle :: lifecycle where
  "new_lifecycle = \<lparr>stateMap = [], records = [], busSeqCounter = 0\<rparr>"

definition getState :: "lifecycle \<Rightarrow> string \<Rightarrow> agent_state" where
  "getState lc a = map_get_or DEFINED (stateMap lc) a"

definition next_state :: "agent_state \<Rightarrow> trigger \<Rightarrow> agent_state option" where
  "next_state s t =
     map_option (\<lambda>(_, _, n). n) (List.find (\<lambda>(from, trig, _). from = s \<and> trig = t) VALID_TRANSITIONS)"

definition invalid_transition :: "string \<Rightarrow> agent_state \<Rightarrow> trigger \<Rightarrow> jserr" where
  "invalid_transition a s t =
     JsErr ''LifecycleError''
       (''Invalid transition for agent '' @ a @ '' from state '' @ state_name s @
        '' with trigger '' @ trigger_name t)"

definition transition_entry :: "string \<Rightarrow> lc_transition \<Rightarrow> log_input" where
  "transition_entry a r =
     \<lparr>le_kind = ''LIFECYCLE_TRANSITION'', le_agentId = a, le_timestamp = tr_timestamp r,
      le_payload = JUndef,
      le_fields = [(''from'', JStr (state_name (tr_from r))), (''to'', JStr (state_name (tr_to r))),
                   (''trigger'', JStr (trigger_name (tr_trigger r))), (''meta'', tr_meta r)]\<rparr>"

text \<open>The log entry, appended before the state is updated, and the update of the state map and
  of the agent's history.\<close>

definition log_transition :: "string \<Rightarrow> lc_transition \<Rightarrow> world \<Rightarrow> world" where
  "log_transition a r w =
     (let w1 = tick_clock w
      in w1\<lparr>wlog := snd (append_entry (transition_entry a r) (wlog w1))\<rparr>)"

definition apply_transition :: "string \<Rightarrow> lc_transition \<Rightarrow> lifecycle \<Rightarrow> lifecycle" where
  "apply_transition a r lc =
     (let recs = (if map_has (records lc) a then records lc else AList.update a [] (records lc))
      in lc\<lparr>stateMap := AList.update a (tr_to r) (stateMap lc),
            records := AList.update a (map_get_or [] recs a @ [r]) recs\<rparr>)"

definition transition ::
  "string \<Rightarrow> trigger \<Rightarrow> jsval \<Rightarrow> lifecycle \<times> world \<Rightarrow> (lifecycle \<times> world, agent_state) outcome" where
  "transition a t meta s =
     (let (lc, w) = s; cur = getState lc a in
      case next_state cur t of
        None \<Rightarrow> (s, Inl (invalid_transition a cur t))
      | Some nxt \<Rightarrow>
          let lc1 = lc\<lparr>busSeqCounter := busSeqCounter lc + 1\<rparr>;
              r = \<lparr>tr_from = cur, tr_to = nxt, tr_trigger = t, tr_timestamp = date_now w,
                   tr_busSeq = busSeqCounter lc1, tr_meta = meta\<rparr>;
              w1 = log_transition a r w
          in ((apply_transition a r lc1, w1), Inr nxt))"

definition getRecord :: "lifecycle \<Rightarrow> string \<Rightarrow> lc_transition list" where
  "getRecord lc a = map_get_or [] (records lc) a"

definition isIn :: "lifecycle \<Rightarrow> string \<Rightarrow> agent_state list \<Rightarrow> bool" where
  "isIn lc a ss \<longleftrightarrow> getState lc a \<in> set ss"

text \<open>\<open>(lifecycle as any).stateMap.set(a, s)\<close>, which the scheduler uses in REPLAY mode.\<close>

definition force_state :: "string \<Rightarrow> agent_state \<Rightarrow> lifecycle \<Rightarrow> lifecycle" where
  "force_state a s lc = lc\<lparr>stateMap := AList.update a s (stateMap lc)\<rparr>"

section \<open>The table of the specification\<close>

text \<open>The exhaustive transition table of doc/state-machine.md, as a relation.\<close>

inductive lc_rule :: "agent_state \<Rightarrow> trigger \<Rightarrow> agent_state \<Rightarrow> bool" where
  r_spawn: "lc_rule DEFINED T_spawn SPAWNED"
| r_activate: "lc_rule SPAWNED T_activate ACTIVE"
| r_wait: "t \<in> {T_yield, T_await_tool} \<Longrightarrow> lc_rule ACTIVE t WAITING"
| r_complete: "lc_rule ACTIVE T_complete COMPLETING"
| r_error: "lc_rule ACTIVE T_error FAULTED"
| r_suspend: "lc_rule ACTIVE T_suspend RESUMABLE"
| r_resume: "s \<in> {WAITING, RESUMABLE} \<Longrightarrow> lc_rule s T_resume ACTIVE"
| r_lost: "t \<in> {T_timeout, T_error} \<Longrightarrow> lc_rule WAITING t FAULTED"
| r_expire: "lc_rule RESUMABLE T_expire TERMINATED"
| r_teardown: "lc_rule COMPLETING T_teardown_ok TERMINATED"
| r_recover: "lc_rule FAULTED T_recover RECOVERING"
| r_abandon: "lc_rule FAULTED T_abandon TERMINATED"
| r_recovered: "lc_rule RECOVERING T_recovery_success ACTIVE"
| r_exhausted: "lc_rule RECOVERING T_recovery_exhausted TERMINATED"

inductive_cases lc_rule_TERMINATED [elim!]: "lc_rule TERMINATED t s"
inductive_cases lc_rule_OtherTrigger [elim!]: "lc_rule s (OtherTrigger x) s'"
inductive_simps lc_rule_COMPLETING: "lc_rule COMPLETING t s"

lemma next_state_simps [simp]:
  "next_state DEFINED T_spawn = Some SPAWNED"
  "next_state SPAWNED T_activate = Some ACTIVE"
  "next_state ACTIVE T_yield = Some WAITING"
  "next_state ACTIVE T_complete = Some COMPLETING"
  "next_state ACTIVE T_error = Some FAULTED"
  "next_state COMPLETING T_teardown_ok = Some TERMINATED"
  "next_state WAITING T_resume = Some ACTIVE"
  "next_state TERMINATED t = None"
  "next_state s (OtherTrigger x) = None"
  by (simp_all add: next_state_def VALID_TRANSITIONS_def)

lemma next_state_iff_rule: "next_state s t = Some s' \<longleftrightarrow> lc_rule s t s'"
  by (cases s; cases t) (auto simp: next_state_def VALID_TRANSITIONS_def lc_rule.simps)

lemma next_state_None_iff: "next_state s t = None \<longleftrightarrow> (\<nexists>s'. lc_rule s t s')"
  by (metis next_state_iff_rule not_Some_eq)

section \<open>What one transition does\<close>

lemma transition_error:
  "next_state (getState lc a) t = None \<Longrightarrow>
   transition a t m (lc, w) = ((lc, w), Inl (invalid_transition a (getState lc a) t))"
  by (simp add: transition_def)

lemma getState_update [simp]:
  "getState (lc\<lparr>stateMap := AList.update a s (stateMap lc)\<rparr>) b = (if b = a then s else getState lc b)"
  by (simp add: getState_def)

lemma getState_records [simp]: "getState (lc\<lparr>records := rs\<rparr>) b = getState lc b"
  by (simp add: getState_def)

lemma getState_force [simp]:
  "getState (force_state a s lc) b = (if b = a then s else getState lc b)"
  by (simp add: force_state_def)

lemma apply_transition_simps [simp]:
  "getState (apply_transition a r lc) b = (if b = a then tr_to r else getState lc b)"
  "getRecord (apply_transition a r lc) b = (if b = a then getRecord lc a @ [r] else getRecord lc b)"
  "busSeqCounter (apply_transition a r lc) = busSeqCounter lc"
  by (simp_all add: apply_transition_def getState_def getRecord_def map_get_or_def map_has_def Let_def
      split: option.split)

lemma counter_update_simps [simp]:
  "getState (lc\<lparr>busSeqCounter := n\<rparr>) b = getState lc b"
  "getRecord (lc\<lparr>busSeqCounter := n\<rparr>) b = getRecord lc b"
  by (simp_all add: getState_def getRecord_def)

lemma log_transition_simps [simp]:
  "wlogs (log_transition a r w) = wlogs w @ [stamp (transition_entry a r) (nextBusSeq (wlog w))]"
  "nextBusSeq (wlog (log_transition a r w)) = nextBusSeq (wlog w) + 1"
  "log_grows w (log_transition a r w)"
  by (simp_all add: log_transition_def Let_def log_grows_def log_ok_append)

text \<open>Every transition is rejected without effect or has this effect.\<close>

definition transition_taken ::
  "string \<Rightarrow> trigger \<Rightarrow> jsval \<Rightarrow> lifecycle \<Rightarrow> world \<Rightarrow> agent_state \<Rightarrow> lc_transition" where
  "transition_taken a t m lc w nxt =
     \<lparr>tr_from = getState lc a, tr_to = nxt, tr_trigger = t, tr_timestamp = date_now w,
      tr_busSeq = busSeqCounter lc + 1, tr_meta = m\<rparr>"

lemma transition_ok:
  assumes "next_state (getState lc a) t = Some nxt"
  shows "transition a t m (lc, w) =
    ((apply_transition a (transition_taken a t m lc w nxt) (lc\<lparr>busSeqCounter := busSeqCounter lc + 1\<rparr>),
      log_transition a (transition_taken a t m lc w nxt) w), Inr nxt)"
  using assms by (simp add: transition_def transition_taken_def Let_def)

lemma transition_cases:
  obtains (rejected) "next_state (getState lc a) t = None"
      "transition a t m (lc, w) = ((lc, w), Inl (invalid_transition a (getState lc a) t))"
  | (taken) lc' w' r nxt where "next_state (getState lc a) t = Some nxt"
      "transition a t m (lc, w) = ((lc', w'), Inr nxt)"
      "tr_from r = getState lc a" "tr_to r = nxt" "tr_trigger r = t" "tr_meta r = m"
      "tr_timestamp r = date_now w"
      "tr_busSeq r = busSeqCounter lc + 1" "busSeqCounter lc' = busSeqCounter lc + 1"
      "\<And>b. getState lc' b = (if b = a then nxt else getState lc b)"
      "\<And>b. getRecord lc' b = (if b = a then getRecord lc a @ [r] else getRecord lc b)"
      "wlogs w' = wlogs w @ [stamp (transition_entry a r) (nextBusSeq (wlog w))]"
      "log_grows w w'"
proof (cases "next_state (getState lc a) t")
  case None
  then show ?thesis using rejected transition_error by blast
next
  case (Some nxt)
  show ?thesis
    by (rule taken [OF Some transition_ok [OF Some]]) (simp_all add: transition_taken_def)
qed

lemma transition_frame [frame]:
  "snd (fst (transition a t m (lc, w))) = w' \<Longrightarrow> log_grows w w'"
  by (cases rule: transition_cases [of lc a t m w]) auto

section \<open>Runs of the controller\<close>

text \<open>A run is a sequence of calls, some of which throw.\<close>

type_synonym lc_call = "string \<times> trigger \<times> jsval"

primrec lc_run :: "lc_call list \<Rightarrow> lifecycle \<times> world \<Rightarrow> lifecycle \<times> world" where
  "lc_run [] s = s"
| "lc_run (c # cs) s = lc_run cs (fst (transition (fst c) (fst (snd c)) (snd (snd c)) s))"

text \<open>An agent's history is a path of the table.\<close>

fun lc_path :: "agent_state \<Rightarrow> lc_transition list \<Rightarrow> agent_state \<Rightarrow> bool" where
  "lc_path s [] s' \<longleftrightarrow> s = s'"
| "lc_path s (r # rs) s' \<longleftrightarrow>
     tr_from r = s \<and> next_state s (tr_trigger r) = Some (tr_to r) \<and> lc_path (tr_to r) rs s'"

lemma lc_path_snoc:
  "lc_path s (rs @ [r]) s' \<longleftrightarrow>
     lc_path s rs (tr_from r) \<and> next_state (tr_from r) (tr_trigger r) = Some (tr_to r) \<and> tr_to r = s'"
  by (induction s rs s' rule: lc_path.induct) auto

definition lifecycle_ok :: "lifecycle \<Rightarrow> bool" where
  "lifecycle_ok lc \<longleftrightarrow> (\<forall>a. lc_path DEFINED (getRecord lc a) (getState lc a))"

lemma lifecycle_ok_new [simp]: "lifecycle_ok new_lifecycle"
  by (simp add: lifecycle_ok_def new_lifecycle_def getState_def getRecord_def map_get_or_def)

lemma lifecycle_ok_transition [preserve]:
  assumes "lifecycle_ok lc" and "fst (transition a t m (lc, w)) = (lc', w')"
  shows "lifecycle_ok lc'"
  using assms
  by (cases rule: transition_cases [of lc a t m w]) (auto simp: lifecycle_ok_def lc_path_snoc)

text \<open>What the log says of an agent: the \<open>to\<close> field of its last transition entry.\<close>

definition transition_of :: "string \<Rightarrow> log_entry \<Rightarrow> bool" where
  "transition_of a e \<longleftrightarrow> le_kind e = ''LIFECYCLE_TRANSITION'' \<and> le_agentId e = a"

definition logged_state :: "string \<Rightarrow> log_entry list \<Rightarrow> jsval" where
  "logged_state a es =
     foldl (\<lambda>s e. if transition_of a e then map_get_or JUndef (le_fields e) ''to'' else s)
       (JStr ''DEFINED'') es"

lemma logged_state_simps [simp]:
  "logged_state a [] = JStr ''DEFINED''"
  "logged_state a (es @ [e]) =
     (if transition_of a e then map_get_or JUndef (le_fields e) ''to'' else logged_state a es)"
  by (simp_all add: logged_state_def)

lemma transition_of_stamp [simp]:
  "transition_of b (stamp (transition_entry a r) n) \<longleftrightarrow> a = b"
  by (simp add: transition_of_def transition_entry_def)

lemma transition_entry_to [simp]:
  "map_get_or JUndef (le_fields (transition_entry a r)) ''to'' = JStr (state_name (tr_to r))"
  by (simp add: transition_entry_def map_get_or_def)

text \<open>The state maps and histories against the log the run wrote.\<close>

definition lc_agrees :: "world \<Rightarrow> lifecycle \<times> world \<Rightarrow> bool" where
  "lc_agrees w0 s \<longleftrightarrow>
     lifecycle_ok (fst s) \<and> log_grows w0 (snd s) \<and>
     (\<forall>a. logged_state a (added w0 (snd s)) = JStr (state_name (getState (fst s) a)) \<and>
          map le_fields (filter (transition_of a) (added w0 (snd s))) =
            map (\<lambda>r. le_fields (transition_entry a r)) (getRecord (fst s) a))"

lemma lc_agrees_transition:
  assumes "lc_agrees w0 (lc, w)"
  shows "lc_agrees w0 (fst (transition a t m (lc, w)))"
proof (cases rule: transition_cases [of lc a t m w])
  case (taken lc' w' r nxt)
  have "added w0 w' = added w0 w @ [stamp (transition_entry a r) (nextBusSeq (wlog w))]"
    using assms taken by (auto simp: lc_agrees_def added_def log_grows_def prefix_def)
  moreover have "lifecycle_ok lc'"
    using lifecycle_ok_transition [of lc a t m w lc' w'] assms taken by (simp add: lc_agrees_def)
  moreover have "log_grows w0 w'"
    using assms taken by (auto simp: lc_agrees_def intro: log_grows_trans)
  ultimately show ?thesis
    using assms taken by (auto simp: lc_agrees_def)
qed (use assms in simp)

lemma lc_agrees_run: "lc_agrees w0 s \<Longrightarrow> lc_agrees w0 (lc_run cs s)"
proof (induction cs arbitrary: s)
  case (Cons c cs)
  then show ?case
    using lc_agrees_transition [of w0 "fst s" "snd s"] by (cases s) auto
qed simp

lemma lc_agrees_new: "lc_agrees w (new_lifecycle, w)"
  by (simp add: lc_agrees_def, simp add: new_lifecycle_def getState_def getRecord_def map_get_or_def)

lemma lc_run_append: "lc_run (cs @ ds) s = lc_run ds (lc_run cs s)"
  by (induction cs arbitrary: s) auto

lemma lc_run_TERMINATED:
  "getState (fst s) a = TERMINATED \<Longrightarrow>
   getState (fst (lc_run cs s)) a = TERMINATED \<and>
   getRecord (fst (lc_run cs s)) a = getRecord (fst s) a"
proof (induction cs arbitrary: s)
  case (Cons c cs)
  obtain b t m where c: "c = (b, t, m)" by (metis prod_cases3)
  obtain lc w where s: "s = (lc, w)" by fastforce
  have "getState (fst (fst (transition b t m s))) a = TERMINATED \<and>
      getRecord (fst (fst (transition b t m s))) a = getRecord (fst s) a"
    using Cons.prems s by (cases rule: transition_cases [of lc b t m w]) auto
  then show ?case using Cons.IH [of "fst (transition b t m s)"] by (simp add: c)
qed simp

text \<open>From every state the triggers of a shortest path to \<open>TERMINATED\<close>.\<close>

fun exit_path :: "agent_state \<Rightarrow> trigger list" where
  "exit_path TERMINATED = []"
| "exit_path COMPLETING = [T_teardown_ok]"
| "exit_path RESUMABLE = [T_expire]"
| "exit_path FAULTED = [T_abandon]"
| "exit_path RECOVERING = [T_recovery_exhausted]"
| "exit_path WAITING = [T_timeout, T_abandon]"
| "exit_path ACTIVE = [T_complete, T_teardown_ok]"
| "exit_path SPAWNED = [T_activate, T_complete, T_teardown_ok]"
| "exit_path DEFINED = [T_spawn, T_activate, T_complete, T_teardown_ok]"

fun follow :: "agent_state \<Rightarrow> trigger list \<Rightarrow> agent_state option" where
  "follow s [] = Some s"
| "follow s (t # ts) = (case next_state s t of None \<Rightarrow> None | Some s' \<Rightarrow> follow s' ts)"

lemma exit_path_TERMINATED: "follow s (exit_path s) = Some TERMINATED"
  by (cases s) (simp_all add: next_state_def VALID_TRANSITIONS_def)

lemma lc_run_follow:
  "follow (getState (fst s) a) ts = Some s' \<Longrightarrow>
   getState (fst (lc_run (map (\<lambda>t. (a, t, JUndef)) ts) s)) a = s'"
proof (induction ts arbitrary: s)
  case (Cons t ts)
  obtain lc w where s: "s = (lc, w)" by fastforce
  show ?case
  proof (cases rule: transition_cases [of lc a t JUndef w])
    case (taken lc' w' r nxt)
    then show ?thesis using Cons s by simp
  qed (use Cons.prems s in simp)
qed simp

section \<open>Properties\<close>

text \<open>C16: The state machine and the log never disagree. After any sequence of calls of
  \<open>transition\<close>, accepted or rejected, on a new controller, every agent's history is a path of
  the table from \<open>DEFINED\<close> to the agent's current state, the transition entries written to the
  log are that history in order, and the state rebuilt from the log alone is the agent's.\<close>

theorem lifecycle_log_agreement:
  "case lc_run cs (new_lifecycle, w) of (lc, w') \<Rightarrow>
     prefix (wlogs w) (wlogs w') \<and>
     lc_path DEFINED (getRecord lc a) (getState lc a) \<and>
     map le_fields (filter (transition_of a) (added w w')) =
       map (\<lambda>r. le_fields (transition_entry a r)) (getRecord lc a) \<and>
     logged_state a (added w w') = JStr (state_name (getState lc a))"
  using lc_agrees_run [OF lc_agrees_new, of w cs]
  by (auto simp: lc_agrees_def lifecycle_ok_def log_grows_def split: prod.split)

text \<open>A call of \<open>transition\<close> succeeds exactly when the table of doc/state-machine.md has the
  edge. It then moves that agent along the edge and appends one log entry; otherwise it throws
  a \<open>LifecycleError\<close> and changes neither the controller nor the log. No other agent's state or
  history changes in either case.\<close>

theorem transition_implements_table:
  "case transition a t m (lc, w) of ((lc', w'), r) \<Rightarrow>
     (case r of
        Inr s' \<Rightarrow> lc_rule (getState lc a) t s' \<and> getState lc' a = s' \<and>
          length (wlogs w') = Suc (length (wlogs w)) \<and>
          length (getRecord lc' a) = Suc (length (getRecord lc a))
      | Inl e \<Rightarrow> (\<nexists>s'. lc_rule (getState lc a) t s') \<and> err_name e = ''LifecycleError'' \<and>
          lc' = lc \<and> w' = w) \<and>
     (\<forall>b. b = a \<or> getState lc' b = getState lc b \<and> getRecord lc' b = getRecord lc b)"
proof (cases rule: transition_cases [of lc a t m w])
  case rejected
  then show ?thesis by (simp add: invalid_transition_def next_state_None_iff)
next
  case (taken lc' w' r nxt)
  then show ?thesis by (simp add: next_state_iff_rule)
qed

text \<open>C39: \<open>TERMINATED\<close> is final and reachable from everywhere: whatever calls follow, a
  terminated agent stays terminated with an unchanged history; and from any state the calls of
  \<open>exit_path\<close> (at most four) bring an agent to \<open>TERMINATED\<close>.\<close>

theorem terminated_final_and_reachable:
  "(getState (fst s) a = TERMINATED \<longrightarrow>
      getState (fst (lc_run cs s)) a = TERMINATED \<and>
      getRecord (fst (lc_run cs s)) a = getRecord (fst s) a) \<and>
   getState (fst (lc_run (map (\<lambda>t. (a, t, JUndef)) (exit_path (getState (fst s) a))) s)) a =
     TERMINATED"
  using lc_run_TERMINATED lc_run_follow [OF exit_path_TERMINATED] by blast

theorem terminated_final_and_reachable_witness:
  "let s = lc_run (map (\<lambda>t. (''a'', t, JUndef)) [T_spawn, T_activate, T_complete, T_teardown_ok])
             (new_lifecycle, new_world int)
   in getState (fst s) ''a'' = TERMINATED \<and>
      getState (fst (lc_run [(''a'', T_spawn, JUndef)] s)) ''a'' = TERMINATED"
proof -
  let ?s = "lc_run (map (\<lambda>t. (''a'', t, JUndef)) [T_spawn, T_activate, T_complete, T_teardown_ok])
             (new_lifecycle, new_world int)"
  have "getState (fst ?s) ''a'' = TERMINATED"
    by (simp add: transition_def new_lifecycle_def getState_def map_get_or_def apply_transition_def
        map_has_def Let_def)
  with terminated_final_and_reachable [of ?s "''a''" "[(''a'', T_spawn, JUndef)]"]
  show ?thesis by (simp only: Let_def)
qed

end
