(* ===== verification/Persistent.thy ===== *)
theory Persistent
  imports JsRecord Logging
begin

text \<open>
  Durable memory: memory/persistent.ts (\<open>PersistentStore\<close>). Every write and delete is entered in
  the execution log before the store changes (INV-02).

  The specification is the log itself: \<open>wal_own\<close> reads an agent's key off the log entries alone,
  and the refinement theorem says the store never disagrees with it. For an ordinary key that is
  the last value logged (\<open>wal_value\<close>); a write of the key \<open>__proto__\<close> may replace the object's
  prototype instead, which \<open>wal_proto\<close> follows.
\<close>

section \<open>The store\<close>

type_synonym persistent = rec_map

record write_result =
  wr_success :: bool
  wr_txId :: string
  wr_timestamp :: int

definition not_serializable :: "string \<Rightarrow> jserr" where
  "not_serializable k = Error (''Value is not JSON serializable (INV-11): '' @ k)"

definition ps_read :: "string \<Rightarrow> string \<Rightarrow> persistent \<Rightarrow> jserr + jsval" where
  "ps_read a k s =
     (case map_of s a of
        None \<Rightarrow> Inr JNull
      | Some r \<Rightarrow> if rec_get r k = JUndef then Inr JNull else json_clone (rec_get r k))"

definition wal_payload :: "string \<Rightarrow> string \<Rightarrow> jsval option \<Rightarrow> jsval" where
  "wal_payload tx k v =
     JObj ([(''txId'', JStr tx), (''key'', JStr k)] @
           (case v of None \<Rightarrow> [] | Some w \<Rightarrow> [(''value'', w)]))"

definition ps_write ::
  "string \<Rightarrow> string \<Rightarrow> jsval \<Rightarrow> string \<Rightarrow> persistent \<times> world \<Rightarrow> (persistent \<times> world, write_result) outcome" where
  "ps_write a k v tx sw =
     (let (s, w) = sw in
      case json_clone v of
        Inl e \<Rightarrow> (sw, Inl (not_serializable k))
      | Inr x \<Rightarrow>
          let w1 = log_event ''MEMORY_PERSISTENT_WRITE'' a (wal_payload tx k (Some x)) w;
              s1 = put_in a k x s
          in ((s1, tick_clock w1),
              Inr \<lparr>wr_success = True, wr_txId = tx, wr_timestamp = date_now w1\<rparr>))"

definition ps_delete ::
  "string \<Rightarrow> string \<Rightarrow> string \<Rightarrow> persistent \<times> world \<Rightarrow> (persistent \<times> world) \<times> write_result" where
  "ps_delete a k tx sw =
     (let (s, w) = sw;
          w1 = log_event ''MEMORY_PERSISTENT_DELETE'' a (wal_payload tx k None) w;
          s1 = (case map_of s a of None \<Rightarrow> s | Some r \<Rightarrow> AList.update a (rec_del k r) s)
      in ((s1, tick_clock w1), \<lparr>wr_success = True, wr_txId = tx, wr_timestamp = date_now w1\<rparr>))"

definition ps_snapshot :: "string \<Rightarrow> persistent \<Rightarrow> jserr + jsrec" where
  "ps_snapshot a s = rec_clone (map_get_or empty_rec s a)"

section \<open>The log as the specification\<close>

definition wal_of :: "string \<Rightarrow> string \<Rightarrow> log_entry \<Rightarrow> jsval option \<Rightarrow> jsval option" where
  "wal_of a k e old =
     (if le_agentId e = a \<and> js_prop (le_payload e) ''key'' = JStr k then
        if le_kind e = ''MEMORY_PERSISTENT_WRITE'' then Some (js_prop (le_payload e) ''value'')
        else if le_kind e = ''MEMORY_PERSISTENT_DELETE'' then None
        else old
      else old)"

definition wal_value :: "log_entry list \<Rightarrow> string \<Rightarrow> string \<Rightarrow> jsval option" where
  "wal_value es a k = fold (wal_of a k) es None"

definition is_wal :: "log_entry \<Rightarrow> bool" where
  "is_wal e \<longleftrightarrow> le_kind e \<in> {''MEMORY_PERSISTENT_WRITE'', ''MEMORY_PERSISTENT_DELETE''}"

text \<open>The key \<open>__proto__\<close>: whether it is an own property, and the prototype, after the key was
  written (a value) or deleted.\<close>

definition proto_edit :: "jsval option \<Rightarrow> jsval option \<times> jsval option \<Rightarrow> jsval option \<times> jsval option" where
  "proto_edit edit st =
     (case (edit, st) of
        (None, own, p) \<Rightarrow> (None, p)
      | (Some v, own, p) \<Rightarrow>
          if own = None \<and> (case p of Some JNull \<Rightarrow> False | Some (JObj m) \<Rightarrow> map_of m proto_key = None | _ \<Rightarrow> True)
          then (None, case v of JNull \<Rightarrow> Some v | JObj m \<Rightarrow> Some v | JArr xs \<Rightarrow> Some v | _ \<Rightarrow> p)
          else (Some v, p))"

definition wal_proto_of :: "string \<Rightarrow> log_entry \<Rightarrow> jsval option \<times> jsval option \<Rightarrow> jsval option \<times> jsval option" where
  "wal_proto_of a e st =
     (if le_agentId e = a \<and> js_prop (le_payload e) ''key'' = JStr proto_key then
        if le_kind e = ''MEMORY_PERSISTENT_WRITE'' then proto_edit (Some (js_prop (le_payload e) ''value'')) st
        else if le_kind e = ''MEMORY_PERSISTENT_DELETE'' then proto_edit None st
        else st
      else st)"

definition wal_proto :: "log_entry list \<Rightarrow> string \<Rightarrow> jsval option \<times> jsval option" where
  "wal_proto es a = fold (wal_proto_of a) es (None, None)"

definition wal_own :: "log_entry list \<Rightarrow> string \<Rightarrow> string \<Rightarrow> jsval option" where
  "wal_own es a k = (if k = proto_key then fst (wal_proto es a) else wal_value es a k)"

definition wal_written :: "log_entry list \<Rightarrow> string \<Rightarrow> bool" where
  "wal_written es a \<longleftrightarrow> list_ex (\<lambda>e. le_agentId e = a \<and> le_kind e = ''MEMORY_PERSISTENT_WRITE'') es"

definition wal_reprotoed :: "log_entry list \<Rightarrow> string \<Rightarrow> bool" where
  "wal_reprotoed es a \<longleftrightarrow>
     list_ex (\<lambda>e. le_agentId e = a \<and> le_kind e = ''MEMORY_PERSISTENT_WRITE'' \<and>
       js_prop (le_payload e) ''key'' = JStr proto_key) es"

text \<open>What a read finds that is not an own property.\<close>

definition inherited_read :: "jsval option \<Rightarrow> string \<Rightarrow> jserr + jsval" where
  "inherited_read p k = (if inherited_get p k = JUndef then Inr JNull else json_clone (inherited_get p k))"

text \<open>Any interleaving of writes and deletes of any keys, successful or not, with other components
  logging entries of their own kinds in between.\<close>

inductive ps_reach :: "world \<Rightarrow> persistent \<times> world \<Rightarrow> bool" for w0 where
  ps_start: "ps_reach w0 ([], w0)"
| ps_writes: "ps_reach w0 sw \<Longrightarrow> wf_js v \<Longrightarrow> ps_reach w0 (fst (ps_write a k v tx sw))"
| ps_deletes: "ps_reach w0 sw \<Longrightarrow> ps_reach w0 (fst (ps_delete a k tx sw))"
| ps_others: "ps_reach w0 (s, w) \<Longrightarrow> log_grows w w' \<Longrightarrow> \<forall>e \<in> set (added w w'). \<not> is_wal e \<Longrightarrow>
    ps_reach w0 (s, w')"

lemma wal_value_append: "wal_value (es @ fs) a k = fold (wal_of a k) fs (wal_value es a k)"
  by (simp add: wal_value_def)

lemma wal_of_other: "\<not> is_wal e \<Longrightarrow> wal_of a k e old = old"
  by (auto simp: wal_of_def is_wal_def)

lemma fold_wal_other: "\<forall>e \<in> set es. \<not> is_wal e \<Longrightarrow> fold (wal_of a k) es old = old"
  by (induction es arbitrary: old) (auto simp: wal_of_other)

lemma wal_of_stamp [simp]:
  "wal_of a k (stamp \<lparr>le_kind = kd, le_agentId = b, le_timestamp = ts, le_payload = wal_payload tx j v,
     le_fields = fs\<rparr> n) old =
   (if a = b \<and> k = j then
      if kd = ''MEMORY_PERSISTENT_WRITE'' then Some (case v of None \<Rightarrow> JUndef | Some x \<Rightarrow> x)
      else if kd = ''MEMORY_PERSISTENT_DELETE'' then None else old
    else old)"
  by (auto simp: wal_of_def wal_payload_def split: option.split)

lemma added_trans:
  "log_grows w0 w \<Longrightarrow> log_grows w w' \<Longrightarrow> added w0 w' = added w0 w @ added w w'"
  by (auto simp: log_grows_def added_def prefix_def)

lemma added_log_event [simp]:
  "added w (tick_clock (log_event kd a p w)) =
     [stamp \<lparr>le_kind = kd, le_agentId = a, le_timestamp = date_now w, le_payload = p, le_fields = []\<rparr>
        (nextBusSeq (wlog w))]"
  by (simp add: added_def)

lemma log_grows_event_tick: "log_grows w (tick_clock (log_event kd a p w))"
  by (rule log_grows_trans [OF log_grows_event log_grows_tick])

section \<open>The store follows the log\<close>

definition proto_state :: "jsrec \<Rightarrow> jsval option \<times> jsval option" where
  "proto_state r = (rec_own r proto_key, proto r)"

lemma proto_state_put: "proto_state (rec_put k v r) = (if k = proto_key then proto_edit (Some v) (proto_state r) else proto_state r)"
  by (auto simp: proto_state_def rec_put_def proto_edit_def proto_accessor_def rec_own_def own_put_def
      split: jsval.splits option.splits)

lemma proto_state_del: "proto_state (rec_del k r) = (if k = proto_key then proto_edit None (proto_state r) else proto_state r)"
  by (auto simp: proto_state_def proto_edit_def rec_own_def rec_del_def delete_conv')

lemma rec_own_put_any: "j \<noteq> proto_key \<Longrightarrow> rec_own (rec_put k v r) j = (if j = k then Some v else rec_own r j)"
  by (auto simp: rec_put_def rec_own_def own_put_def split: jsval.split)

lemma map_of_put_in_any:
  "map_of (put_in x k v s) a = (if a = x then Some (rec_put k v (map_get_or empty_rec s x)) else map_of s a)"
  by (simp add: put_in_def Let_def map_get_or_def map_has_def split: option.split)

text \<open>A record, or the lack of one, agrees with what the log says of its owner.\<close>

definition follows :: "jsrec option \<Rightarrow> (string \<Rightarrow> jsval option) \<Rightarrow> jsval option \<times> jsval option \<Rightarrow> bool \<Rightarrow> bool" where
  "follows ro val st written \<longleftrightarrow>
     (let r = (case ro of None \<Rightarrow> empty_rec | Some r \<Rightarrow> r)
      in rec_ok r \<and> (\<forall>j. j \<noteq> proto_key \<longrightarrow> rec_own r j = val j) \<and> proto_state r = st \<and> (ro \<noteq> None \<longleftrightarrow> written))"

lemma follows_empty: "follows None (\<lambda>j. None) (None, None) False"
  by (simp add: follows_def proto_state_def rec_own_def) (simp add: empty_rec_def)

lemma follows_put:
  assumes "follows (map_of s x) val st written" "is_json v" "wf_js v"
    "val' = val(k := Some v)" "st' = (if k = proto_key then proto_edit (Some v) st else st)"
  shows "follows (Some (rec_put k v (map_get_or empty_rec s x))) val' st' True"
  using assms
  by (auto simp: follows_def Let_def rec_ok_put rec_own_put_any proto_state_put map_get_or_def split: option.splits)

lemma follows_del:
  assumes "follows (Some r) val st written" "val' = val(k := None)"
    "st' = (if k = proto_key then proto_edit None st else st)"
  shows "follows (Some (rec_del k r)) val' st' written"
  using assms
  by (auto simp: follows_def Let_def rec_ok_del proto_state_del own_store.get_del)

lemma follows_own:
  "follows ro val st written \<Longrightarrow>
   rec_own (case ro of None \<Rightarrow> empty_rec | Some r \<Rightarrow> r) j = (if j = proto_key then fst st else val j)"
  by (auto simp: follows_def Let_def proto_state_def)

lemma follows_read:
  assumes "follows ro val st written"
  shows "(case ro of None \<Rightarrow> Inr JNull | Some r \<Rightarrow> if rec_get r k = JUndef then Inr JNull else json_clone (rec_get r k)) =
    (case if k = proto_key then fst st else val k of
       Some v \<Rightarrow> Inr v
     | None \<Rightarrow> if written then inherited_read (snd st) k else Inr JNull)"
proof (cases ro)
  case None
  then show ?thesis using follows_own [OF assms, of k] assms
    by (auto simp: follows_def Let_def rec_own_def empty_rec_def split: option.split)
next
  case (Some r)
  have own: "rec_own r k = (if k = proto_key then fst st else val k)" and p: "proto r = snd st" and w: written
    and ok: "rec_ok r"
    using follows_own [OF assms, of k] assms Some by (auto simp: follows_def Let_def proto_state_def)
  show ?thesis
  proof (cases "rec_own r k")
    case None
    then show ?thesis using own p w Some by (simp add: rec_get_def rec_own_def inherited_read_def)
  next
    case (Some v)
    then show ?thesis using own \<open>ro = Some r\<close> rec_ok_own [OF ok Some] by (auto simp: rec_get_own)
  qed
qed

lemma follows_clone:
  "follows ro val st written \<Longrightarrow>
   \<exists>r. rec_clone (case ro of None \<Rightarrow> empty_rec | Some r \<Rightarrow> r) = Inr r \<and>
     (\<forall>j. rec_own r j = (if j = proto_key then fst st else val j))"
  using follows_own [of ro val st written] by (auto simp: follows_def Let_def rec_clone_ok rec_own_def)

definition ps_follows :: "world \<Rightarrow> persistent \<times> world \<Rightarrow> bool" where
  "ps_follows w0 sw \<longleftrightarrow>
     log_grows w0 (snd sw) \<and>
     (\<forall>a. follows (map_of (fst sw) a) (wal_value (added w0 (snd sw)) a) (wal_proto (added w0 (snd sw)) a)
        (wal_written (added w0 (snd sw)) a))"

lemma wal_proto_append: "wal_proto (es @ fs) a = fold (wal_proto_of a) fs (wal_proto es a)"
  by (simp add: wal_proto_def)

lemma wal_written_append: "wal_written (es @ fs) a \<longleftrightarrow> wal_written es a \<or> wal_written fs a"
  by (simp add: wal_written_def)

lemma wal_written_stamp [simp]:
  "wal_written [stamp \<lparr>le_kind = kd, le_agentId = b, le_timestamp = ts, le_payload = p, le_fields = fs\<rparr> n] a \<longleftrightarrow>
     b = a \<and> kd = ''MEMORY_PERSISTENT_WRITE''"
  by (simp add: wal_written_def)

lemma wal_proto_of_stamp [simp]:
  "wal_proto_of a (stamp \<lparr>le_kind = kd, le_agentId = b, le_timestamp = ts, le_payload = wal_payload tx j v,
     le_fields = fs\<rparr> n) st =
   (if a = b \<and> j = proto_key then
      if kd = ''MEMORY_PERSISTENT_WRITE'' then proto_edit (Some (case v of None \<Rightarrow> JUndef | Some x \<Rightarrow> x)) st
      else if kd = ''MEMORY_PERSISTENT_DELETE'' then proto_edit None st else st
    else st)"
  by (auto simp: wal_proto_of_def wal_payload_def split: option.split)

lemma fold_wal_proto_other: "\<forall>e \<in> set es. \<not> is_wal e \<Longrightarrow> fold (wal_proto_of a) es st = st"
  by (induction es arbitrary: st) (auto simp: wal_proto_of_def is_wal_def)

lemma wal_written_other: "\<forall>e \<in> set es. \<not> is_wal e \<Longrightarrow> \<not> wal_written es a"
  by (auto simp: wal_written_def list_ex_iff is_wal_def)

lemma ps_follows_write:
  assumes inv: "ps_follows w0 (s, w)" and wf: "wf_js v"
  shows "ps_follows w0 (fst (ps_write a k v tx (s, w)))"
proof (cases "json_clone v")
  case (Inr x)
  let ?w = "tick_clock (log_event ''MEMORY_PERSISTENT_WRITE'' a (wal_payload tx k (Some x)) w)"
  have x: "is_json x" "wf_js x" using json_clone_is_json [OF Inr] json_clone_wf [OF wf Inr] .
  have old: "follows (map_of s b) (wal_value (added w0 w) b) (wal_proto (added w0 w) b) (wal_written (added w0 w) b)" for b
    using inv by (simp add: ps_follows_def)
  have log: "added w0 ?w = added w0 w @ added w ?w" "log_grows w0 ?w"
    using inv added_trans [OF _ log_grows_event_tick, of w0 w] log_grows_trans [OF _ log_grows_event_tick, of w0 w]
    by (simp_all add: ps_follows_def)
  have "follows (map_of (put_in a k x s) b) (wal_value (added w0 ?w) b) (wal_proto (added w0 ?w) b) (wal_written (added w0 ?w) b)" for b
  proof (cases "b = a")
    case True
    have "follows (Some (rec_put k x (map_get_or empty_rec s a))) (wal_value (added w0 ?w) a) (wal_proto (added w0 ?w) a) True"
      by (rule follows_put [OF old x]) (auto simp: log wal_value_append wal_proto_append fun_eq_iff)
    then show ?thesis using True by (simp add: map_of_put_in_any log wal_written_append)
  next
    case False
    then have "wal_value (added w0 ?w) b = wal_value (added w0 w) b"
      by (auto simp: log wal_value_append fun_eq_iff)
    then show ?thesis using False old [of b] by (simp add: map_of_put_in_any log wal_written_append wal_proto_append)
  qed
  then show ?thesis using log(2) by (simp add: ps_write_def Inr Let_def ps_follows_def)
qed (use inv in \<open>simp add: ps_write_def\<close>)

lemma ps_follows_delete:
  assumes inv: "ps_follows w0 (s, w)"
  shows "ps_follows w0 (fst (ps_delete a k tx (s, w)))"
proof -
  let ?s = "case map_of s a of None \<Rightarrow> s | Some r \<Rightarrow> AList.update a (rec_del k r) s"
  let ?w = "tick_clock (log_event ''MEMORY_PERSISTENT_DELETE'' a (wal_payload tx k None) w)"
  have old: "follows (map_of s b) (wal_value (added w0 w) b) (wal_proto (added w0 w) b) (wal_written (added w0 w) b)" for b
    using inv by (simp add: ps_follows_def)
  have log: "added w0 ?w = added w0 w @ added w ?w" "log_grows w0 ?w"
    using inv added_trans [OF _ log_grows_event_tick, of w0 w] log_grows_trans [OF _ log_grows_event_tick, of w0 w]
    by (simp_all add: ps_follows_def)
  have "follows (map_of ?s b) (wal_value (added w0 ?w) b) (wal_proto (added w0 ?w) b) (wal_written (added w0 ?w) b)" for b
  proof (cases "b = a")
    case False
    then have "wal_value (added w0 ?w) b = wal_value (added w0 w) b"
      by (auto simp: log wal_value_append fun_eq_iff)
    then show ?thesis using False old [of b]
      by (auto simp: log wal_written_append wal_proto_append split: option.split)
  next
    case True
    show ?thesis
    proof (cases "map_of s a")
      case None
      have o: "follows None (wal_value (added w0 w) a) (wal_proto (added w0 w) a) (wal_written (added w0 w) a)"
        using old [of a] None by simp
      have "(wal_value (added w0 w) a)(k := None) = wal_value (added w0 w) a" if "k \<noteq> proto_key"
        using follows_own [OF o, of k] that by (auto simp: rec_own_def empty_rec_def fun_eq_iff)
      moreover have "proto_edit None (wal_proto (added w0 w) a) = wal_proto (added w0 w) a"
        using follows_own [OF o, of proto_key]
        by (cases "wal_proto (added w0 w) a") (auto simp: proto_edit_def rec_own_def empty_rec_def)
      moreover have "follows None ((wal_value (added w0 w) a)(proto_key := None)) (wal_proto (added w0 w) a)
          (wal_written (added w0 w) a)"
        using o by (auto simp: follows_def Let_def)
      moreover have "wal_value (added w0 ?w) a = (wal_value (added w0 w) a)(k := None)"
        by (auto simp: log wal_value_append fun_eq_iff)
      moreover have "wal_written (added w0 ?w) a = wal_written (added w0 w) a"
        "wal_proto (added w0 ?w) a =
           (if k = proto_key then proto_edit None (wal_proto (added w0 w) a) else wal_proto (added w0 w) a)"
        by (simp_all add: log wal_written_append wal_proto_append)
      ultimately show ?thesis using True None o by (cases "k = proto_key") simp_all
    next
      case (Some r)
      have "follows (Some (rec_del k r)) (wal_value (added w0 ?w) a) (wal_proto (added w0 ?w) a) (wal_written (added w0 w) a)"
        by (rule follows_del [OF old [of a, unfolded Some]]) (auto simp: log wal_value_append wal_proto_append fun_eq_iff)
      then show ?thesis using True Some by (simp add: log wal_written_append)
    qed
  qed
  then show ?thesis using log(2) by (simp add: ps_delete_def Let_def ps_follows_def)
qed

lemma ps_reach_follows: "ps_reach w0 sw \<Longrightarrow> ps_follows w0 sw"
proof (induction rule: ps_reach.induct)
  case ps_start
  have "wal_value [] a = (\<lambda>j. None)" for a by (simp add: wal_value_def fun_eq_iff)
  then show ?case by (simp add: ps_follows_def follows_empty wal_proto_def wal_written_def)
next
  case (ps_writes sw v a k tx)
  then show ?case using ps_follows_write [of w0 "fst sw" "snd sw"] by simp
next
  case (ps_deletes sw a k tx)
  then show ?case using ps_follows_delete [of w0 "fst sw" "snd sw"] by simp
next
  case (ps_others s w w')
  have "added w0 w' = added w0 w @ added w w'" "log_grows w0 w'"
    using ps_others added_trans [of w0 w w'] log_grows_trans [of w0 w w'] by (simp_all add: ps_follows_def)
  moreover have "wal_value (added w0 w') a = wal_value (added w0 w) a" for a
    using calculation ps_others.hyps by (simp add: wal_value_append fold_wal_other fun_eq_iff)
  ultimately show ?case
    using ps_others
    by (simp add: ps_follows_def wal_proto_append fold_wal_proto_other wal_written_append wal_written_other)
qed

text \<open>Without a write of \<open>__proto__\<close> the log says nothing of prototypes.\<close>

lemma wal_proto_quiet: "\<not> wal_reprotoed es a \<Longrightarrow> wal_proto es a = (None, None) \<and> wal_value es a proto_key = None"
proof (induction es rule: rev_induct)
  case (snoc e es)
  then show ?case
    by (auto simp: wal_reprotoed_def wal_proto_append wal_value_append wal_proto_of_def wal_of_def proto_edit_def)
qed (simp add: wal_proto_def wal_value_def)

lemma inherited_read_plain: "plain_key k \<Longrightarrow> inherited_read None k = Inr JNull"
  by (simp add: inherited_read_def plain_key_def object_prototype_get_def)

lemma ps_read_follows:
  assumes "ps_reach w0 (s, w)"
  shows "ps_read a k s =
    (case wal_own (added w0 w) a k of
       Some v \<Rightarrow> Inr v
     | None \<Rightarrow> if wal_written (added w0 w) a then inherited_read (snd (wal_proto (added w0 w) a)) k else Inr JNull)"
  using follows_read [of "map_of s a"] ps_reach_follows [OF assms]
  by (simp add: ps_follows_def ps_read_def wal_own_def)

lemma ps_reach_own: "ps_reach w0 (s, w) \<Longrightarrow> own_value s a k = wal_own (added w0 w) a k"
  using follows_own [of "map_of s a" "wal_value (added w0 w) a" "wal_proto (added w0 w) a" "wal_written (added w0 w) a" k]
    ps_reach_follows [of w0 "(s, w)"]
  by (simp add: ps_follows_def own_value_get map_get_or_def wal_own_def)

lemma wal_own_quiet: "k \<noteq> proto_key \<or> \<not> wal_reprotoed es a \<Longrightarrow> wal_own es a k = wal_value es a k"
  using wal_proto_quiet [of es a] by (auto simp: wal_own_def)

section \<open>Properties\<close>

text \<open>C17: The store is the replay of its write-ahead log (INV-02). After any history of writes,
  failed writes and deletes of any keys, with other components logging in between, the log alone
  says what the store holds and what every read returns. A snapshot has exactly the properties
  the log gives the agent: for a key other than \<open>__proto__\<close> the value of its last write unless
  it was deleted since. A read returns that value, or what the object inherits: for an agent
  whose log has no write of \<open>__proto__\<close>, \<open>null\<close> for an ordinary key. A write of \<open>__proto__\<close> is
  logged like any other, but stores nothing unless the prototype was taken away before: it
  replaces the prototype or does nothing, as \<open>proto_edit\<close> says.\<close>

theorem persistent_refines_wal:
  assumes "ps_reach w0 (s, w)"
  shows "let es = added w0 w in
    ps_read a k s =
      (case wal_own es a k of
         Some v \<Rightarrow> Inr v
       | None \<Rightarrow> if wal_written es a then inherited_read (snd (wal_proto es a)) k else Inr JNull) \<and>
    (\<exists>r. ps_snapshot a s = Inr r \<and> (\<forall>j. rec_own r j = wal_own es a j)) \<and>
    (\<not> wal_reprotoed es a \<longrightarrow> (\<forall>j. wal_own es a j = wal_value es a j) \<and>
       (plain_key k \<longrightarrow> ps_read a k s = Inr (case wal_value es a k of None \<Rightarrow> JNull | Some v \<Rightarrow> v)))"
proof -
  let ?es = "added w0 w"
  have f: "follows (map_of s a) (wal_value ?es a) (wal_proto ?es a) (wal_written ?es a)"
    using ps_reach_follows [OF assms] by (simp add: ps_follows_def)
  have "\<exists>r. ps_snapshot a s = Inr r \<and> (\<forall>j. rec_own r j = wal_own ?es a j)"
    using follows_clone [OF f] by (simp add: ps_snapshot_def map_get_or_def wal_own_def)
  moreover have "wal_own ?es a j = wal_value ?es a j" if "\<not> wal_reprotoed ?es a" for j
    using that by (simp add: wal_own_quiet)
  moreover have "ps_read a k s = Inr (case wal_value ?es a k of None \<Rightarrow> JNull | Some v \<Rightarrow> v)"
    if "\<not> wal_reprotoed ?es a" "plain_key k"
    using wal_proto_quiet [OF that(1)] inherited_read_plain [OF that(2)]
    by (auto simp: ps_read_follows [OF assms] wal_own_def plain_key_def split: option.split)
  ultimately show ?thesis using ps_read_follows [OF assms] by (simp add: Let_def)
qed

theorem persistent_refines_wal_witness:
  "let sw = fst (ps_delete ''a'' ''x'' ''t2'' (fst (ps_write ''a'' ''k'' (jint 1) ''t1'' ([], new_world int))))
   in ps_read ''a'' ''k'' (fst sw) = Inr (jint 1)"
proof -
  let ?w0 = "new_world int"
  let ?sw = "fst (ps_delete ''a'' ''x'' ''t2'' (fst (ps_write ''a'' ''k'' (jint 1) ''t1'' ([], ?w0))))"
  have "ps_reach ?w0 ?sw"
    by (intro ps_deletes ps_writes ps_start) simp_all
  moreover have "wal_value (added ?w0 (snd ?sw)) ''a'' ''k'' = Some (jint 1)"
    by (simp add: ps_write_def ps_delete_def Let_def wal_value_def added_def new_world_def new_logger_def)
  ultimately show ?thesis
    using persistent_refines_wal [of ?w0 "fst ?sw" "snd ?sw" "''a''" "''k''"]
    by (simp add: wal_own_def proto_key_def Let_def)
qed

text \<open>A write of an object under \<open>__proto__\<close> is reported as a success and logged, but no such
  property is stored: the object becomes the agent's prototype, and a key that was never written
  reads as one of its properties.\<close>

theorem proto_write_redirects:
  "case ps_write ''a'' ''__proto__'' (JObj [(''x'', jint 1)]) ''t'' ([], new_world int) of
     (sw, r) \<Rightarrow> is_ok r \<and> wal_value (added (new_world int) (snd sw)) ''a'' ''__proto__'' = Some (JObj [(''x'', jint 1)]) \<and>
       own_value (fst sw) ''a'' ''__proto__'' = None \<and> ps_read ''a'' ''x'' (fst sw) = Inr (jint 1)"
  by (simp add: ps_write_def json_clone_def Let_def wal_value_def added_def new_world_def new_logger_def put_in_def
      own_value_def rec_own_def rec_put_def proto_accessor_def empty_rec_def proto_key_def ps_read_def rec_get_def
      map_get_or_def map_has_def)

text \<open>Keys that \<open>Object.prototype\<close> knows are not absent. Once an agent has written anything, and has
  not written \<open>__proto__\<close>, reading a key such as \<open>toString\<close> or \<open>constructor\<close> it never wrote does
  not return \<open>null\<close>: the inherited function is found and the clone throws a \<open>SyntaxError\<close>.\<close>

theorem inherited_key_read_throws:
  assumes "ps_reach w0 (s, w)" and "wal_written (added w0 w) a" and "\<not> wal_reprotoed (added w0 w) a"
    and "k \<in> set object_methods" and "wal_value (added w0 w) a k = None"
  shows "ps_read a k s = Inl undefined_not_json"
proof -
  have "k \<noteq> proto_key" using assms(4) by (auto simp: object_methods_def proto_key_def)
  then show ?thesis
    using assms wal_proto_quiet [OF assms(3)]
    by (simp add: ps_read_follows [OF assms(1)] wal_own_def inherited_read_def object_prototype_get_def json_clone_def)
qed

theorem inherited_key_read_throws_witness:
  "let sw = fst (ps_write ''a'' ''k'' (jint 1) ''t1'' ([], new_world int))
   in ps_read ''a'' ''toString'' (fst sw) = Inl undefined_not_json"
proof -
  let ?w0 = "new_world int"
  let ?sw = "fst (ps_write ''a'' ''k'' (jint 1) ''t1'' ([], ?w0))"
  have "ps_reach ?w0 ?sw"
    by (intro ps_writes ps_start) simp_all
  moreover have "wal_value (added ?w0 (snd ?sw)) ''a'' ''toString'' = None" "wal_written (added ?w0 (snd ?sw)) ''a''"
      "\<not> wal_reprotoed (added ?w0 (snd ?sw)) ''a''"
    by (simp_all add: ps_write_def Let_def wal_value_def wal_written_def added_def new_world_def new_logger_def)
      (simp add: wal_reprotoed_def wal_payload_def proto_key_def)
  ultimately show ?thesis
    using inherited_key_read_throws [of ?w0 "fst ?sw" "snd ?sw" "''a''" "''toString''"]
    by (simp add: object_methods_def Let_def)
qed

end
