(* ===== verification/Scheduler.thy ===== *)
theory Scheduler
  imports Execution Lifecycle Persistent
begin

text \<open>
  The scheduler: execution/scheduler.ts (\<open>Scheduler.runAgentLoop\<close>).

  Its state is the lifecycle controller, the optional persistent store, its quota enforcer and
  the rest of the host (\<open>sc_env\<close>, for the tools), with the world of the log and the clock. A
  tool handler is awaited, so it may change all of it. The loop is \<open>run_loop\<close>, one call per
  iteration; it ends because a tool call is followed by a \<open>RETURN\<close>, which completes.

  \<open>sha\<close> is the hash function of node's crypto module.
\<close>

section \<open>State\<close>

record 'x sched =
  sc_lifecycle :: lifecycle
  sc_store :: "persistent option"
  sc_quota :: enforcer
  sc_env :: 'x

type_synonym 'x sw = "'x sched \<times> world"

definition memory_of :: "string \<Rightarrow> 'x sched \<Rightarrow> jserr + jsval" where
  "memory_of a s =
     (case sc_store s of
        None \<Rightarrow> Inr (JObj [])
      | Some p \<Rightarrow> (case ps_snapshot a p of Inl e \<Rightarrow> Inl e | Inr r \<Rightarrow> Inr (JObj (props r))))"

definition kernel_state :: "tick_output \<Rightarrow> agent_state \<Rightarrow> jsval \<Rightarrow> jsval" where
  "kernel_state out st mem =
     JObj [(''output'', output_js out), (''lifecycle'', JStr (state_name st)), (''memory'', mem)]"

section \<open>One iteration\<close>

definition sc_transition :: "string \<Rightarrow> trigger \<Rightarrow> 'x sw \<Rightarrow> ('x sw, unit) outcome" where
  "sc_transition a t sw =
     (let (s, w) = sw; ((lc, w1), r) = transition a t JUndef (sc_lifecycle s, w)
      in ((s\<lparr>sc_lifecycle := lc\<rparr>, w1), case r of Inl e \<Rightarrow> Inl e | Inr _ \<Rightarrow> Inr ()))"

definition sc_force :: "string \<Rightarrow> agent_state \<Rightarrow> 'x sw \<Rightarrow> 'x sw" where
  "sc_force a st sw = (let (s, w) = sw in (s\<lparr>sc_lifecycle := force_state a st (sc_lifecycle s)\<rparr>, w))"

definition state_hash :: "(string \<Rightarrow> string) \<Rightarrow> string \<Rightarrow> tick_output \<Rightarrow> 'x sched \<Rightarrow> jserr + string" where
  "state_hash sha a out s =
     (case memory_of a s of
        Inl e \<Rightarrow> Inl e
      | Inr mem \<Rightarrow> hash_state sha (kernel_state out (getState (sc_lifecycle s) a) mem))"

definition tick_payload :: "int \<Rightarrow> instruction \<Rightarrow> tick_output \<Rightarrow> string \<Rightarrow> jsval" where
  "tick_payload n instr out h =
     JObj [(''sequenceNumber'', jint n), (''instruction'', instruction_js instr),
           (''output'', output_js out), (''stateHash'', JStr h)]"

definition divergence :: "int \<Rightarrow> jsval \<Rightarrow> string \<Rightarrow> jserr" where
  "divergence n logged h =
     Error (''CRYPTOGRAPHIC_DIVERGENCE: Hash mismatch at tick '' @ show_int n @ ''. Expected '' @
            js_string logged @ '', got '' @ h)"

text \<open>Log the tick in LIVE mode, check it against the log in any other.\<close>

definition record_tick ::
  "kernel_mode \<Rightarrow> string \<Rightarrow> int \<Rightarrow> instruction \<Rightarrow> tick_output \<Rightarrow> string \<Rightarrow> world \<Rightarrow> world \<times> (jserr + unit)" where
  "record_tick mode a n instr out h w =
     (if mode = LIVE then (log_event ''TICK_OUTPUT'' a (tick_payload n instr out h) w, Inr ())
      else
        (case find_entry ''TICK_OUTPUT'' a n w of
           None \<Rightarrow> (w, Inl (Error ''REPLAY_MISSING_LOG''))
         | Some e \<Rightarrow>
             let logged = js_prop (le_payload e) ''stateHash'' in
             if \<not> js_strict_eq logged (JStr h) then (w, Inl (divergence n logged h))
             else (w, Inr ())))"

text \<open>\<open>COMPLETED\<close>, \<open>FAILED\<close> and \<open>PENDING_DELEGATION\<close> leave the loop.\<close>

definition complete_agent :: "kernel_mode \<Rightarrow> string \<Rightarrow> 'x sw \<Rightarrow> ('x sw, unit) outcome" where
  "complete_agent mode a sw =
     (if mode = LIVE then
        (case sc_transition a T_complete sw of
           (sw1, Inl e) \<Rightarrow> (sw1, Inl e)
         | (sw1, Inr _) \<Rightarrow> sc_transition a T_teardown_ok sw1)
      else (sc_force a TERMINATED sw, Inr ()))"

definition fail_agent :: "kernel_mode \<Rightarrow> string \<Rightarrow> 'x sw \<Rightarrow> ('x sw, unit) outcome" where
  "fail_agent mode a sw =
     (if mode = LIVE then sc_transition a T_error sw else (sc_force a FAULTED sw, Inr ()))"

definition yield_agent :: "kernel_mode \<Rightarrow> string \<Rightarrow> 'x sw \<Rightarrow> ('x sw, unit) outcome" where
  "yield_agent mode a sw =
     (if mode = LIVE then sc_transition a T_yield sw else (sc_force a WAITING sw, Inr ()))"

definition sc_consume ::
  "(string \<Rightarrow> enforcer \<Rightarrow> (enforcer, unit) outcome) \<Rightarrow> string \<Rightarrow> 'x sw \<Rightarrow> ('x sw, unit) outcome" where
  "sc_consume consume a sw =
     (let (s, w) = sw; (q, r) = consume a (sc_quota s) in ((s\<lparr>sc_quota := q\<rparr>, w), r))"

text \<open>The iteration up to its \<open>switch\<close>: meter, tick, hash, record.\<close>

definition loop_tick ::
  "kernel_mode \<Rightarrow> (string \<Rightarrow> string) \<Rightarrow> string \<Rightarrow> int \<Rightarrow> instruction \<Rightarrow> 'x sw \<Rightarrow> ('x sw, tick_output) outcome" where
  "loop_tick mode sha a n instr sw =
     (case sc_consume consumeTick a sw of
        (sw1, Inl e) \<Rightarrow> (sw1, Inl e)
      | ((s1, w1), Inr _) \<Rightarrow>
          let out = run_tick \<lparr>ti_agentId = a, ti_sequenceNumber = n, ti_instruction = instr,
                              ti_maxSteps = 100\<rparr>
          in (case state_hash sha a out s1 of
                Inl e \<Rightarrow> ((s1, w1), Inl e)
              | Inr h \<Rightarrow>
                  (case record_tick mode a n instr out h w1 of
                     (w2, Inl e) \<Rightarrow> ((s1, w2), Inl e)
                   | (w2, Inr _) \<Rightarrow> ((s1, w2), Inr out))))"

lemma loop_tick_out:
  "loop_tick mode sha a n instr sw = (sw1, Inr out) \<Longrightarrow>
   out = run_tick \<lparr>ti_agentId = a, ti_sequenceNumber = n, ti_instruction = instr, ti_maxSteps = 100\<rparr>"
  by (auto simp: loop_tick_def Let_def split: prod.splits sum.splits)

fun calls_left :: "instruction \<Rightarrow> nat" where
  "calls_left (CALL_TOOL n args) = 1"
| "calls_left _ = 0"

function run_loop ::
  "'x sched handlers \<Rightarrow> kernel_mode \<Rightarrow> (string \<Rightarrow> string) \<Rightarrow> string \<Rightarrow> int \<Rightarrow> instruction \<Rightarrow> 'x sw \<Rightarrow> ('x sw, unit) outcome"
where
  "run_loop hs mode sha a n instr sw =
     (case loop_tick mode sha a n instr sw of
        (sw1, Inl e) \<Rightarrow> (sw1, Inl e)
      | (sw1, Inr out) \<Rightarrow>
          (case out of
             COMPLETED v \<Rightarrow> complete_agent mode a sw1
           | FAILED e \<Rightarrow> fail_agent mode a sw1
           | PENDING_DELEGATION t p \<Rightarrow> yield_agent mode a sw1
           | PENDING_TOOL name args \<Rightarrow>
               (case sc_consume consumeToolCall a sw1 of
                  (sw2, Inl e) \<Rightarrow> (sw2, Inl e)
                | (sw2, Inr _) \<Rightarrow>
                    (case gate_execute hs mode a n name args sw2 of
                       (sw3, Inl e) \<Rightarrow> (sw3, Inl e)
                     | (sw3, Inr v) \<Rightarrow> run_loop hs mode sha a (n + 1) (RETURN v) sw3))))"
  by pat_completeness auto
termination
  by (relation "measure (\<lambda>(hs, mode, sha, a, n, instr, sw). calls_left instr)")
    (auto dest!: loop_tick_out [OF sym] simp: run_tick_def split: instruction.splits)

declare run_loop.simps [simp del]

text \<open>The \<open>catch\<close>: a quota error faults the agent, and every error is thrown on.\<close>

definition run_catch :: "kernel_mode \<Rightarrow> string \<Rightarrow> ('x sw, unit) outcome \<Rightarrow> ('x sw, unit) outcome" where
  "run_catch mode a r =
     (case r of
        (sw, Inr _) \<Rightarrow> (sw, Inr ())
      | (sw, Inl e) \<Rightarrow>
          if err_name e = ''QuotaExceededError'' then
            if mode = LIVE then (fst (sc_transition a T_error sw), Inl e)
            else (sc_force a FAULTED sw, Inl e)
          else (sw, Inl e))"

definition runAgentLoop ::
  "'x sched handlers \<Rightarrow> kernel_mode \<Rightarrow> (string \<Rightarrow> string) \<Rightarrow> string \<Rightarrow> instruction \<Rightarrow> 'x sw \<Rightarrow> ('x sw, unit) outcome" where
  "runAgentLoop hs mode sha a instr sw =
     (if getState (sc_lifecycle (fst sw)) a \<noteq> ACTIVE
      then (sw, Inl (Error (''Agent '' @ a @ '' is not ACTIVE'')))
      else run_catch mode a (run_loop hs mode sha a 1 instr sw))"

section \<open>Lemmas on the pieces\<close>

lemma state_hash_frame [simp]:
  "state_hash sha a out (s\<lparr>sc_quota := q\<rparr>) = state_hash sha a out s"
  "memory_of a (s\<lparr>sc_quota := q\<rparr>) = memory_of a s"
  "memory_of a (s\<lparr>sc_lifecycle := l\<rparr>) = memory_of a s"
  by (simp_all add: state_hash_def memory_of_def split: sum.split)

lemma state_hash_cong:
  "memory_of a r = memory_of a s \<Longrightarrow> getState (sc_lifecycle r) a = getState (sc_lifecycle s) a \<Longrightarrow>
   state_hash sha a out r = state_hash sha a out s"
  by (simp add: state_hash_def split: sum.split)

lemma sc_consume_simps:
  "sc_consume c a (s, w) = ((s\<lparr>sc_quota := fst (c a (sc_quota s))\<rparr>, w), snd (c a (sc_quota s)))"
  by (simp add: sc_consume_def split: prod.split)

lemma sc_transition_ok:
  assumes "next_state (getState (sc_lifecycle s) a) t = Some st"
  obtains lc w' e where "sc_transition a t (s, w) = ((s\<lparr>sc_lifecycle := lc\<rparr>, w'), Inr ())"
    "getState lc a = st" "log_grows w w'" "wlogs w' = wlogs w @ [e]"
    "le_kind e = ''LIFECYCLE_TRANSITION''"
proof (cases rule: transition_cases [of "sc_lifecycle s" a t JUndef w])
  case (taken lc' w' r nxt)
  then show ?thesis
    using assms
    by (intro that [of lc' w' "stamp (transition_entry a r) (nextBusSeq (wlog w))"])
      (simp_all add: sc_transition_def, simp add: transition_entry_def)
qed (use assms in simp)

lemma sc_transition_throws:
  "next_state (getState (sc_lifecycle s) a) t = None \<Longrightarrow>
   \<exists>e. sc_transition a t (s, w) = ((s, w), Inl e) \<and> err_name e = ''LifecycleError''"
  by (simp add: sc_transition_def transition_error invalid_transition_def)

lemma sc_transition_state:
  assumes "sc_transition a t (s, w) = ((s', w'), Inr ())"
  shows "next_state (getState (sc_lifecycle s) a) t = Some (getState (sc_lifecycle s') a)"
proof (cases "next_state (getState (sc_lifecycle s) a) t")
  case None
  then show ?thesis using assms sc_transition_throws by (metis Pair_inject sum.distinct(1))
next
  case (Some st)
  then show ?thesis using assms by (rule_tac sc_transition_ok [OF Some, of w]) auto
qed

text \<open>Where a run that returns leaves its agent.\<close>

fun exit_state :: "instruction \<Rightarrow> agent_state" where
  "exit_state (DELEGATE t p) = WAITING"
| "exit_state (OtherInstruction k) = FAULTED"
| "exit_state _ = TERMINATED"

definition leave :: "kernel_mode \<Rightarrow> string \<Rightarrow> instruction \<Rightarrow> 'x sw \<Rightarrow> ('x sw, unit) outcome" where
  "leave mode a instr =
     (case instr of
        DELEGATE t p \<Rightarrow> yield_agent mode a
      | OtherInstruction k \<Rightarrow> fail_agent mode a
      | _ \<Rightarrow> complete_agent mode a)"

lemma leave_state:
  assumes "leave mode a instr (s, w) = ((s', w'), Inr ())"
  shows "getState (sc_lifecycle s') a = exit_state instr"
proof (cases "mode = LIVE")
  case True
  have "next_state st T_yield = Some st' \<Longrightarrow> st' = WAITING"
    "next_state st T_error = Some st' \<Longrightarrow> st' = FAULTED"
    "next_state st T_teardown_ok = Some st' \<Longrightarrow> st' = TERMINATED" for st st'
    by (auto simp: next_state_iff_rule elim: lc_rule.cases)
  then show ?thesis
    using assms True
    by (auto simp: leave_def complete_agent_def fail_agent_def yield_agent_def
        dest!: sc_transition_state split: instruction.splits prod.splits sum.splits)
next
  case False
  then show ?thesis
    using assms
    by (auto simp: leave_def complete_agent_def fail_agent_def yield_agent_def sc_force_def
        split: instruction.splits)
qed

lemma leave_ok:
  fixes s :: "'x sched"
  assumes "getState (sc_lifecycle s) a = ACTIVE"
  obtains s' :: "'x sched" and w' es where "leave mode a instr (s, w) = ((s', w'), Inr ())" "log_grows w w'"
    "wlogs w' = wlogs w @ es" "\<forall>e \<in> set es. le_kind e = ''LIFECYCLE_TRANSITION''"
    "mode \<noteq> LIVE \<Longrightarrow> w' = w \<and> sc_env s' = sc_env s"
proof (cases "mode = LIVE")
  case False
  then show ?thesis
    by (intro that [of "fst (sc_force a (exit_state instr) (s, w))" w "[]"])
      (cases instr; simp add: leave_def complete_agent_def fail_agent_def yield_agent_def sc_force_def)+
next
  case live: True
  consider (completes) "leave mode a instr (s, w) = complete_agent mode a (s, w)"
    | (other) t st where "leave mode a instr (s, w) = sc_transition a t (s, w)" "next_state ACTIVE t = Some st"
  proof (cases instr)
    case (DELEGATE x y)
    then show thesis
      using live by (intro other [of T_yield WAITING]) (simp_all add: leave_def yield_agent_def)
  next
    case (OtherInstruction k)
    then show thesis
      using live by (intro other [of T_error FAULTED]) (simp_all add: leave_def fail_agent_def)
  qed (use completes in \<open>simp_all add: leave_def\<close>)
  then show ?thesis
  proof cases
    case completes
    obtain lc1 w1 e1 where 1: "sc_transition a T_complete (s, w) = ((s\<lparr>sc_lifecycle := lc1\<rparr>, w1), Inr ())"
      "getState lc1 a = COMPLETING" "log_grows w w1" "wlogs w1 = wlogs w @ [e1]"
      "le_kind e1 = ''LIFECYCLE_TRANSITION''"
      using assms by (rule_tac sc_transition_ok [of s a T_complete COMPLETING w]) simp_all
    obtain lc2 w2 e2 where 2: "sc_transition a T_teardown_ok (s\<lparr>sc_lifecycle := lc1\<rparr>, w1) =
        ((s\<lparr>sc_lifecycle := lc1, sc_lifecycle := lc2\<rparr>, w2), Inr ())"
      "log_grows w1 w2" "wlogs w2 = wlogs w1 @ [e2]" "le_kind e2 = ''LIFECYCLE_TRANSITION''"
      using 1(2)
      by (rule_tac sc_transition_ok [of "s\<lparr>sc_lifecycle := lc1\<rparr>" a T_teardown_ok TERMINATED w1]) simp_all
    show ?thesis
      by (rule that [of "s\<lparr>sc_lifecycle := lc1, sc_lifecycle := lc2\<rparr>" w2 "[e1, e2]"])
        (use 1 2 live in \<open>auto simp: completes [unfolded live] complete_agent_def intro: log_grows_trans\<close>)
  next
    case (other t st)
    then show ?thesis
      using assms live by (rule_tac sc_transition_ok [of s a t st w]) (auto intro: that)
  qed
qed

text \<open>The loop by its instruction.\<close>

lemma run_tick_100:
  "run_tick \<lparr>ti_agentId = a, ti_sequenceNumber = n, ti_instruction = instr, ti_maxSteps = 100\<rparr> =
     (case instr of
        NOOP \<Rightarrow> COMPLETED JNull
      | RETURN v \<Rightarrow> COMPLETED v
      | CALL_TOOL name args \<Rightarrow> PENDING_TOOL name args
      | DELEGATE target payload \<Rightarrow> PENDING_DELEGATION target payload
      | OtherInstruction k \<Rightarrow> FAILED ''UNKNOWN_INSTRUCTION'')"
  by (simp add: run_tick_def)

lemma run_loop_leaf:
  "calls_left instr = 0 \<Longrightarrow>
   run_loop hs mode sha a n instr sw =
     (case loop_tick mode sha a n instr sw of
        (sw1, Inl e) \<Rightarrow> (sw1, Inl e)
      | (sw1, Inr out) \<Rightarrow> leave mode a instr sw1)"
  by (subst run_loop.simps, cases instr)
    (auto simp: leave_def run_tick_100 dest!: loop_tick_out split: prod.split sum.split)

lemma run_loop_call:
  "run_loop hs mode sha a n (CALL_TOOL name args) sw =
     (case loop_tick mode sha a n (CALL_TOOL name args) sw of
        (sw1, Inl e) \<Rightarrow> (sw1, Inl e)
      | (sw1, Inr out) \<Rightarrow>
          (case sc_consume consumeToolCall a sw1 of
             (sw2, Inl e) \<Rightarrow> (sw2, Inl e)
           | (sw2, Inr _) \<Rightarrow>
               (case gate_execute hs mode a n name args sw2 of
                  (sw3, Inl e) \<Rightarrow> (sw3, Inl e)
                | (sw3, Inr v) \<Rightarrow> run_loop hs mode sha a (n + 1) (RETURN v) sw3)))"
  by (subst run_loop.simps) (auto simp: run_tick_100 dest!: loop_tick_out split: prod.split sum.split)

text \<open>One iteration, in the two modes.\<close>

lemma loop_tick_state:
  assumes "loop_tick mode sha a n instr (s, w) = ((s1, w1), r)"
  shows "\<exists>q. s1 = s\<lparr>sc_quota := q\<rparr>" and "log_grows w w1"
  using assms
  by (auto simp: loop_tick_def sc_consume_simps record_tick_def Let_def
      split: prod.splits sum.splits option.splits if_splits)

lemma loop_tick_live:
  assumes "loop_tick LIVE sha a n instr (s, w) = ((s1, w1), Inr out)"
  obtains h where "state_hash sha a out s = Inr h"
    "w1 = log_event ''TICK_OUTPUT'' a (tick_payload n instr out h) w"
  using assms
  by (auto simp: loop_tick_def sc_consume_simps record_tick_def Let_def
      split: prod.splits sum.splits dest!: sym [of _ "state_hash _ _ _ _"])

definition unmetered :: "string \<Rightarrow> 'x sched \<Rightarrow> bool" where
  "unmetered a s \<longleftrightarrow> map_of (limits (sc_quota s)) a = None"

lemma unmetered_consume:
  assumes "unmetered a s"
  shows "sc_consume consumeTick a (s, w) = ((s\<lparr>sc_quota := fst (consumeTick a (sc_quota s))\<rparr>, w), Inr ())"
    "sc_consume consumeToolCall a (s, w) = ((s\<lparr>sc_quota := fst (consumeToolCall a (sc_quota s))\<rparr>, w), Inr ())"
    "unmetered a (s\<lparr>sc_quota := fst (consumeTick a (sc_quota s))\<rparr>)"
    "unmetered a (s\<lparr>sc_quota := fst (consumeToolCall a (sc_quota s))\<rparr>)"
  using assms
  by (simp_all add: sc_consume_simps consumeTick_def consumeToolCall_def unmetered_def Let_def)

text \<open>A logged tick that hashes alike is accepted.\<close>

lemma loop_tick_replay:
  assumes "unmetered a s" and "mode \<noteq> LIVE"
    and "out = run_tick \<lparr>ti_agentId = a, ti_sequenceNumber = n, ti_instruction = instr, ti_maxSteps = 100\<rparr>"
    and "state_hash sha a out s = Inr h"
    and "find_entry ''TICK_OUTPUT'' a n w = Some e"
    and "js_prop (le_payload e) ''stateHash'' = JStr h"
  shows "loop_tick mode sha a n instr (s, w) =
    ((s\<lparr>sc_quota := fst (consumeTick a (sc_quota s))\<rparr>, w), Inr out)"
  using assms
  by (simp add: loop_tick_def unmetered_consume record_tick_def Let_def js_is_object_def)

lemma find_entry_quiet:
  assumes "find_entry k a n w = None" and "log_grows w w'"
    and "\<forall>e \<in> set (added w w'). le_agentId e = a \<longrightarrow> le_kind e \<noteq> k"
  shows "find_entry k a n w' = None"
proof -
  have "getLogsForAgent (wlog w') a =
      getLogsForAgent (wlog w) a @ filter (\<lambda>e. le_agentId e = a) (added w w')"
    using log_grows_added [OF assms(2)] by (simp add: getLogsForAgent_def)
  then show ?thesis
    using assms(1,3) by (auto simp: find_entry_def find_none_iff filter_empty_conv entry_for_def)
qed

lemma tick_payload_simps [simp]:
  "js_truthy (tick_payload n instr out h)"
  "js_prop (tick_payload n instr out h) ''sequenceNumber'' = jint n"
  "js_prop (tick_payload n instr out h) ''stateHash'' = JStr h"
  by (simp_all add: tick_payload_def js_truthy_def)

section \<open>Tools that leave the agent alone\<close>

text \<open>What a run relies on: while a tool runs, nothing changes the agent's state or memory or logs
  ticks or results of the agent.\<close>

definition quiet_change :: "string \<Rightarrow> 'x sw \<Rightarrow> 'x sw \<Rightarrow> bool" where
  "quiet_change a sw sw' \<longleftrightarrow>
     getState (sc_lifecycle (fst sw')) a = getState (sc_lifecycle (fst sw)) a \<and>
     memory_of a (fst sw') = memory_of a (fst sw) \<and>
     log_grows (snd sw) (snd sw') \<and>
     (\<forall>e \<in> set (added (snd sw) (snd sw')). le_agentId e = a \<longrightarrow>
        le_kind e \<noteq> ''TICK_OUTPUT'' \<and> le_kind e \<noteq> ''TOOL_RESULT'')"

locale quiet_tools =
  fixes hs :: "'x sched handlers" and a :: string
  assumes quiet: "map_of hs name = Some h \<Longrightarrow> quiet_change a sw (fst (h args sw))"
begin

lemma call_handler_quiet: "quiet_change a sw (fst (call_handler hs name args sw))"
proof (cases "map_of hs name")
  case (Some h)
  then show ?thesis using quiet [OF Some] by (simp add: call_handler_def handler_lookup_def)
qed (simp add: call_handler_def handler_lookup_def quiet_change_def)

text \<open>The state and log around a call of the gate in LIVE mode.\<close>

lemma gate_live_quiet:
  assumes "gate_execute hs LIVE a n name args (s, w) = ((s1, w1), r)"
  obtains w0 where "quiet_change a (s, tick_clock w) (s1, w0)"
    "w1 = tick_clock (case r of Inl e \<Rightarrow> w0
       | Inr v \<Rightarrow> log_event ''TOOL_RESULT'' a (tool_payload n name args v) w0)"
  using assms call_handler_quiet [of "(s, tick_clock w)" name args]
  by (auto simp: gate_live split: prod.splits sum.splits)

lemma gate_state:
  assumes "gate_execute hs mode a n name args (s, w) = ((s1, w1), r)"
  shows "getState (sc_lifecycle s1) a = getState (sc_lifecycle s) a"
proof (cases mode)
  case LIVE
  then show ?thesis
    using assms by (auto elim!: gate_live_quiet simp: quiet_change_def)
next
  case REPLAY
  then show ?thesis using assms by (simp add: gate_replay)
next
  case (OtherMode m)
  then show ?thesis using assms by (simp add: gate_execute_def gate_body_def)
qed

text \<open>A loop that returns has left the agent in its exit state; one that throws has left it where
  it was.\<close>

lemma run_loop_state_leaf:
  assumes "calls_left instr = 0" and "getState (sc_lifecycle (fst sw)) a = ACTIVE"
    and "run_loop hs mode sha a n instr sw = ((s', w'), r)"
  shows "getState (sc_lifecycle s') a = (if is_ok r then exit_state instr else ACTIVE)"
proof -
  obtain s w where sw: "sw = (s, w)" by fastforce
  obtain s1 w1 r1 where 1: "loop_tick mode sha a n instr (s, w) = ((s1, w1), r1)" by (metis prod.exhaust)
  have st: "getState (sc_lifecycle s1) a = ACTIVE"
    using loop_tick_state(1) [OF 1] assms(2) sw by auto
  show ?thesis
  proof (cases r1)
    case (Inl e)
    then show ?thesis using assms(1,3) 1 st sw by (auto simp: run_loop_leaf)
  next
    case (Inr out)
    then have run: "leave mode a instr (s1, w1) = ((s', w'), r)"
      using assms(1,3) 1 sw by (simp add: run_loop_leaf)
    moreover obtain s2 w2 where "leave mode a instr (s1, w1) = ((s2, w2), Inr ())"
      by (rule leave_ok [OF st])
    ultimately show ?thesis using leave_state by auto
  qed
qed

lemma run_loop_state:
  assumes "getState (sc_lifecycle (fst sw)) a = ACTIVE"
    and "run_loop hs mode sha a n instr sw = ((s', w'), r)"
  shows "getState (sc_lifecycle s') a = (if is_ok r then exit_state instr else ACTIVE)"
proof (cases "calls_left instr")
  case 0
  then show ?thesis using run_loop_state_leaf assms by blast
next
  case (Suc k)
  then obtain name args where instr: "instr = CALL_TOOL name args" by (cases instr) auto
  obtain s w where sw: "sw = (s, w)" by fastforce
  obtain s1 w1 r1 where 1: "loop_tick mode sha a n instr (s, w) = ((s1, w1), r1)" by (metis prod.exhaust)
  have st: "getState (sc_lifecycle s1) a = ACTIVE"
    using loop_tick_state(1) [OF 1] assms(1) sw by auto
  obtain s2 w2 r2 where 2: "sc_consume consumeToolCall a (s1, w1) = ((s2, w2), r2)" by (metis prod.exhaust)
  have st2: "getState (sc_lifecycle s2) a = ACTIVE"
    using 2 st by (auto simp: sc_consume_simps)
  obtain s3 w3 r3 where 3: "gate_execute hs mode a n name args (s2, w2) = ((s3, w3), r3)" by (metis prod.exhaust)
  have st3: "getState (sc_lifecycle s3) a = ACTIVE"
    using gate_state [OF 3] st2 by simp
  show ?thesis
  proof (cases "\<exists>u v x. r1 = Inr u \<and> r2 = Inr v \<and> r3 = Inr x")
    case True
    then obtain x where r3: "r3 = Inr x" and run: "run_loop hs mode sha a (n + 1) (RETURN x) (s3, w3) = ((s', w'), r)"
      using assms(2) 1 2 3 by (auto simp: sw instr run_loop_call)
    have "getState (sc_lifecycle s') a = (if is_ok r then exit_state (RETURN x) else ACTIVE)"
      by (rule run_loop_state_leaf [OF _ _ run]) (simp_all add: st3)
    then show ?thesis by (simp add: instr)
  next
    case False
    then have "(s' = s1 \<or> s' = s2 \<or> s' = s3) \<and> \<not> is_ok r"
      using assms(2) 1 2 3
      by (cases r1; cases r2; cases r3) (auto simp: sw instr run_loop_call)
    then show ?thesis using st st2 st3 by auto
  qed
qed

lemma run_state:
  assumes "runAgentLoop hs mode sha a instr (s, w) = ((s', w'), r)"
    and "getState (sc_lifecycle s) a = ACTIVE"
  shows "getState (sc_lifecycle s') a =
    (case r of
       Inr _ \<Rightarrow> exit_state instr
     | Inl e \<Rightarrow> if err_name e = ''QuotaExceededError'' then FAULTED else ACTIVE)"
proof -
  obtain s1 w1 r1 where 1: "run_loop hs mode sha a 1 instr (s, w) = ((s1, w1), r1)" by (metis prod.exhaust)
  have run: "run_catch mode a ((s1, w1), r1) = ((s', w'), r)"
    using assms 1 by (simp add: runAgentLoop_def)
  show ?thesis
  proof (cases r1)
    case (Inr u)
    then show ?thesis using run run_loop_state [OF _ 1] assms(2) by (auto simp: run_catch_def)
  next
    case (Inl e)
    then have st: "getState (sc_lifecycle s1) a = ACTIVE"
      using run_loop_state [OF _ 1] assms(2) by simp
    have "\<exists>lc w2. sc_transition a T_error (s1, w1) = ((s1\<lparr>sc_lifecycle := lc\<rparr>, w2), Inr ()) \<and> getState lc a = FAULTED"
      using st by (rule_tac sc_transition_ok [of s1 a T_error FAULTED w1]) auto
    then show ?thesis
      using run Inl st by (auto simp: run_catch_def sc_force_def split: if_splits)
  qed
qed

end

end
