(* ===== verification/Replay.thy ===== *)
theory Replay
  imports Scheduler
begin

text \<open>
  Deterministic replay of the scheduler (execution/scheduler.ts in both modes) and the handlers
  host/boot.ts gives it: \<open>adapted_handlers\<close> wraps every tool of a registry, whose own handlers
  act on the host's environment only. Such handlers are quiet in the sense of the locale
  \<open>quiet_tools\<close>, whose interpretation \<open>host\<close> carries its lemmas over.
\<close>

section \<open>A logged run can be replayed\<close>

lemma loop_tick_live_find:
  assumes "loop_tick LIVE sha a n instr (s, w) = ((s1, w1), Inr out)"
    and "find_entry ''TICK_OUTPUT'' a n w = None"
  obtains h e where "state_hash sha a out s = Inr h" "find_entry ''TICK_OUTPUT'' a n w1 = Some e"
    "js_prop (le_payload e) ''stateHash'' = JStr h" "log_grows w w1"
    "\<forall>k m. find_entry k a m w = None \<longrightarrow> k \<noteq> ''TICK_OUTPUT'' \<or> m \<noteq> n \<longrightarrow> find_entry k a m w1 = None"
proof -
  obtain h where h: "state_hash sha a out s = Inr h"
    "w1 = log_event ''TICK_OUTPUT'' a (tick_payload n instr out h) w"
    using loop_tick_live [OF assms(1)] by blast
  show ?thesis
    by (rule that [OF h(1)]) (use assms(2) in \<open>auto simp: h(2) find_entry_log_event\<close>)
qed

text \<open>Replaying an iteration that leaves the loop.\<close>

lemma replay_leaf:
  fixes s :: "'x sched" and r :: "'y sched"
  assumes leaf: "calls_left instr = 0" and mode: "mode \<noteq> LIVE"
    and live: "run_loop hs LIVE sha a n instr (s, w) = ((s', w'), Inr ())"
    and fresh: "find_entry ''TICK_OUTPUT'' a n w = None"
    and act: "getState (sc_lifecycle s) a = ACTIVE" "getState (sc_lifecycle r) a = ACTIVE"
    and mem: "memory_of a r = memory_of a s" and un: "unmetered a r" and later: "log_grows w' v"
  obtains r' where "run_loop hs' mode sha a n instr (r, v) = ((r', v), Inr ())" "sc_env r' = sc_env r"
    "getState (sc_lifecycle r') a = exit_state instr" "log_grows w w'"
proof -
  obtain s1 w1 out where tick: "loop_tick LIVE sha a n instr (s, w) = ((s1, w1), Inr out)"
    and leave: "leave LIVE a instr (s1, w1) = ((s', w'), Inr ())"
    using live by (auto simp: run_loop_leaf [OF leaf] split: prod.splits sum.splits)
  have st1: "getState (sc_lifecycle s1) a = ACTIVE"
    using loop_tick_state(1) [OF tick] act by auto
  obtain s2 w2 where "leave LIVE a instr (s1, w1) = ((s2, w2), Inr ())" "log_grows w1 w2"
    by (rule leave_ok [OF st1])
  then have grows: "log_grows w1 w'" using leave by simp
  obtain h e where h: "state_hash sha a out s = Inr h" "find_entry ''TICK_OUTPUT'' a n w1 = Some e"
    "js_prop (le_payload e) ''stateHash'' = JStr h" "log_grows w w1"
    by (rule loop_tick_live_find [OF tick fresh])
  have found: "find_entry ''TICK_OUTPUT'' a n v = Some e"
    using find_entry_grows [OF h(2)] grows later log_grows_trans by blast
  have hash: "state_hash sha a out r = Inr h"
    using h(1) state_hash_cong [of a r s sha out] mem act by simp
  let ?r = "r\<lparr>sc_quota := fst (consumeTick a (sc_quota r))\<rparr>"
  have "loop_tick mode sha a n instr (r, v) = ((?r, v), Inr out)"
    by (rule loop_tick_replay [OF un mode loop_tick_out [OF tick] hash found h(3)])
  moreover have "getState (sc_lifecycle ?r) a = ACTIVE" using act by simp
  then obtain r' v' where "leave mode a instr (?r, v) = ((r', v'), Inr ())"
    "v' = v" "sc_env r' = sc_env ?r"
    using leave_ok [of ?r a mode instr v] mode by metis
  ultimately show ?thesis
    using leave_state [of mode a instr ?r v r' v'] grows h(4)
    by (intro that [of r']) (auto simp: run_loop_leaf [OF leaf] intro: log_grows_trans)
qed

context quiet_tools
begin

lemma replay_call:
  fixes s :: "'x sched" and r :: "'y sched"
  assumes live: "run_loop hs LIVE sha a n (CALL_TOOL name args) (s, w) = ((s', w'), Inr ())"
    and fresh: "find_entry ''TICK_OUTPUT'' a n w = None" "find_entry ''TICK_OUTPUT'' a (n + 1) w = None"
      "find_entry ''TOOL_RESULT'' a n w = None"
    and act: "getState (sc_lifecycle s) a = ACTIVE" "getState (sc_lifecycle r) a = ACTIVE"
    and mem: "memory_of a r = memory_of a s" and un: "unmetered a r" and later: "log_grows w' v"
  obtains r' v' where "run_loop hs' REPLAY sha a n (CALL_TOOL name args) (r, v) = ((r', v'), Inr ())"
    "sc_env r' = sc_env r" "getState (sc_lifecycle r') a = TERMINATED" "wlog v' = wlog v"
proof -
  let ?i = "CALL_TOOL name args"
  obtain s1 w1 out s2 w2 x s3 w3 where tick: "loop_tick LIVE sha a n ?i (s, w) = ((s1, w1), Inr out)"
    and meter: "sc_consume consumeToolCall a (s1, w1) = ((s2, w2), Inr ())"
    and gate: "gate_execute hs LIVE a n name args (s2, w2) = ((s3, w3), Inr x)"
    and rest: "run_loop hs LIVE sha a (n + 1) (RETURN x) (s3, w3) = ((s', w'), Inr ())"
    using live by (auto simp: run_loop_call split: prod.splits sum.splits)
  obtain h e where h: "state_hash sha a out s = Inr h" "find_entry ''TICK_OUTPUT'' a n w1 = Some e"
    "js_prop (le_payload e) ''stateHash'' = JStr h" "log_grows w w1"
    and none1: "\<forall>k m. find_entry k a m w = None \<longrightarrow> k \<noteq> ''TICK_OUTPUT'' \<or> m \<noteq> n \<longrightarrow> find_entry k a m w1 = None"
    by (rule loop_tick_live_find [OF tick fresh(1)])
  obtain q where s2: "s2 = s\<lparr>sc_quota := q\<rparr>" "w2 = w1"
    using loop_tick_state(1) [OF tick] meter by (auto simp: sc_consume_simps)
  obtain w0 where quiet0: "quiet_change a (s2, tick_clock w2) (s3, w0)"
    and w3: "w3 = tick_clock (log_event ''TOOL_RESULT'' a (tool_payload n name args x) w0)"
    using gate_live_quiet [OF gate] by auto
  have g10: "log_grows w1 w0"
    using quiet0 s2 log_grows_trans [OF log_grows_tick] by (auto simp: quiet_change_def)
  have none0: "find_entry k a m w0 = None"
    if "find_entry k a m w1 = None" "k \<in> {''TICK_OUTPUT'', ''TOOL_RESULT''}" for k m
    by (rule find_entry_quiet [of k a m "tick_clock w2"])
      (use that quiet0 s2 in \<open>auto simp: quiet_change_def\<close>)
  have fresh0: "find_entry ''TOOL_RESULT'' a n w0 = None" "find_entry ''TICK_OUTPUT'' a (n + 1) w0 = None"
    using none0 none1 fresh by simp_all
  obtain f where f: "find_entry ''TOOL_RESULT'' a n w3 = Some f" "js_prop (le_payload f) ''result'' = x"
    by (simp add: w3 find_entry_log_event fresh0)
  have fresh3: "find_entry ''TICK_OUTPUT'' a (n + 1) w3 = None"
    by (simp add: w3 find_entry_log_event fresh0)
  have g03: "log_grows w0 w3"
    using w3 log_grows_trans [OF log_grows_event log_grows_tick] by simp
  have act3: "getState (sc_lifecycle s3) a = ACTIVE" and mem3: "memory_of a s3 = memory_of a s"
    using quiet0 act s2 by (simp_all add: quiet_change_def)
  let ?r1 = "r\<lparr>sc_quota := fst (consumeTick a (sc_quota r))\<rparr>"
  let ?r2 = "?r1\<lparr>sc_quota := fst (consumeToolCall a (sc_quota ?r1))\<rparr>"
  let ?v = "tick_clock (tick_clock v)"
  have un1: "unmetered a ?r1" and un2: "unmetered a ?r2"
    using unmetered_consume(3) [OF un] unmetered_consume(4) by blast+
  have later3: "log_grows w' ?v"
    using later log_grows_tick log_grows_trans by blast
  obtain r' where r': "run_loop hs' REPLAY sha a (n + 1) (RETURN x) (?r2, ?v) = ((r', ?v), Inr ())"
    "sc_env r' = sc_env ?r2" "getState (sc_lifecycle r') a = exit_state (RETURN x)" "log_grows w3 w'"
    by (rule replay_leaf [OF _ _ rest fresh3 act3 _ _ un2 later3, of REPLAY hs'])
      (use act mem mem3 in simp_all)
  have "log_grows w1 v"
    using g10 g03 r'(4) later log_grows_trans by blast
  then have found1: "find_entry ''TICK_OUTPUT'' a n v = Some e"
    by (rule find_entry_grows [OF h(2)])
  have found2: "find_entry ''TOOL_RESULT'' a n v = Some f"
    using find_entry_grows [OF f(1)] r'(4) later log_grows_trans by blast
  have hash: "state_hash sha a out r = Inr h"
    using h(1) state_hash_cong [of a r s sha out] mem act by simp
  have "loop_tick REPLAY sha a n ?i (r, v) = ((?r1, v), Inr out)"
    by (rule loop_tick_replay [OF un _ loop_tick_out [OF tick] hash found1 h(3)]) simp
  then have "run_loop hs' REPLAY sha a n ?i (r, v) = ((r', ?v), Inr ())"
    using unmetered_consume(2) [OF un1, of v] r'(1)
    by (simp add: run_loop_call gate_replay found2 f(2))
  then show ?thesis
    using r' by (intro that [of r' ?v]) simp_all
qed

lemma replay_run:
  fixes s :: "'x sched" and r :: "'y sched"
  assumes live: "runAgentLoop hs LIVE sha a instr (s, w) = ((s', w'), Inr ())"
    and fresh: "\<And>k n. find_entry k a n w = None"
    and act: "getState (sc_lifecycle r) a = ACTIVE"
    and mem: "memory_of a r = memory_of a s" and un: "unmetered a r" and later: "log_grows w' v"
  shows "\<exists>r' v'. runAgentLoop hs' REPLAY sha a instr (r, v) = ((r', v'), Inr ()) \<and>
    sc_env r' = sc_env r \<and> wlog v' = wlog v \<and>
    getState (sc_lifecycle r') a = getState (sc_lifecycle s') a"
proof -
  have act0: "getState (sc_lifecycle s) a = ACTIVE"
    and run: "run_loop hs LIVE sha a 1 instr (s, w) = ((s', w'), Inr ())"
    using live by (auto simp: runAgentLoop_def run_catch_def split: if_splits prod.splits sum.splits)
  have final: "getState (sc_lifecycle s') a = exit_state instr"
    using run_state [OF live act0] by simp
  show ?thesis
  proof (cases "calls_left instr")
    case 0
    obtain r' where "run_loop hs' REPLAY sha a 1 instr (r, v) = ((r', v), Inr ())" "sc_env r' = sc_env r"
      "getState (sc_lifecycle r') a = exit_state instr"
      by (rule replay_leaf [OF 0 _ run fresh act0 act mem un later, of REPLAY hs']) simp
    then show ?thesis
      using act final by (simp add: runAgentLoop_def run_catch_def)
  next
    case (Suc k)
    then obtain name args where i: "instr = CALL_TOOL name args" by (cases instr) auto
    obtain r' v' where "run_loop hs' REPLAY sha a 1 instr (r, v) = ((r', v'), Inr ())"
      "sc_env r' = sc_env r" "getState (sc_lifecycle r') a = TERMINATED" "wlog v' = wlog v"
      unfolding i by (rule replay_call [OF run [unfolded i] fresh fresh fresh act0 act mem un later, of hs'])
    then show ?thesis
      using act final i by (simp add: runAgentLoop_def run_catch_def)
  qed
qed

end


section \<open>The handlers of the host\<close>

fun tool_result_js :: "tool_result \<Rightarrow> jsval" where
  "tool_result_js (SUCCESS d) = JObj [(''kind'', JStr ''SUCCESS''), (''data'', d)]"
| "tool_result_js (ERROR m c) =
     JObj ([(''kind'', JStr ''ERROR''), (''message'', JStr m)] @
           (case c of None \<Rightarrow> [] | Some x \<Rightarrow> [(''code'', JStr x)]))"

definition adapted_handler :: "'x registry \<Rightarrow> string \<Rightarrow> 'x sched handler" where
  "adapted_handler reg name args sw =
     (let (s, w) = sw; (env, r) = executeSync reg name ''system'' args (sc_env s)
      in ((s\<lparr>sc_env := env\<rparr>, w), Inr (tool_result_js r)))"

definition adapted_handlers :: "'x registry \<Rightarrow> 'x sched handlers" where
  "adapted_handlers reg = map (\<lambda>m. (mf_name m, adapted_handler reg (mf_name m))) (listTools reg)"

lemma adapted_handlers_lookup:
  "map_of (adapted_handlers reg) name = Some h \<Longrightarrow> h = adapted_handler reg name"
  by (auto simp: adapted_handlers_def dest!: map_of_SomeD)

interpretation host: quiet_tools "adapted_handlers reg" a for reg a
proof unfold_locales
  fix name h args and sw :: "'a sw"
  assume "map_of (adapted_handlers reg) name = Some h"
  then have h: "h = adapted_handler reg name" by (rule adapted_handlers_lookup)
  show "quiet_change a sw (fst (h args sw))"
    by (simp add: h adapted_handler_def quiet_change_def memory_of_def split: prod.split)
qed

section \<open>Counting ticks\<close>

definition ticks_logged :: "string \<Rightarrow> world \<Rightarrow> nat" where
  "ticks_logged a w =
     length (filter (\<lambda>e. le_kind e = ''TICK_OUTPUT'' \<and> le_agentId e = a) (wlogs w))"

lemma ticks_logged_tick [simp]: "ticks_logged a (tick_clock w) = ticks_logged a w"
  by (simp add: ticks_logged_def)

lemma ticks_logged_event:
  "ticks_logged a (log_event k b p w) = ticks_logged a w + (if k = ''TICK_OUTPUT'' \<and> b = a then 1 else 0)"
  by (simp add: ticks_logged_def)

lemma ticks_logged_other:
  "wlogs w' = wlogs w @ es \<Longrightarrow> \<forall>e \<in> set es. le_agentId e = a \<longrightarrow> le_kind e \<noteq> ''TICK_OUTPUT'' \<Longrightarrow>
   ticks_logged a w' = ticks_logged a w"
  by (auto simp: ticks_logged_def filter_empty_conv)

lemma loop_tick_ticks:
  assumes "loop_tick LIVE sha a n instr (s, w) = ((s1, w1), r)"
  shows "ticks_logged a w1 = ticks_logged a w + (if is_ok r then 1 else 0)"
  using assms
  by (auto simp: loop_tick_def sc_consume_simps record_tick_def Let_def ticks_logged_event
      split: prod.splits sum.splits)

lemma leave_ticks:
  assumes "leave mode a instr (s, w) = ((s', w'), r)" and "getState (sc_lifecycle s) a = ACTIVE"
  shows "ticks_logged b w' = ticks_logged b w \<and> is_ok r"
proof -
  obtain s2 w2 es where "leave mode a instr (s, w) = ((s2, w2), Inr ())" "wlogs w2 = wlogs w @ es"
    "\<forall>e \<in> set es. le_kind e = ''LIFECYCLE_TRANSITION''"
    by (rule leave_ok [OF assms(2)])
  then show ?thesis using assms(1) ticks_logged_other [of w2 w es b] by simp
qed

lemma run_loop_ticks_leaf:
  assumes "calls_left instr = 0" and "getState (sc_lifecycle s) a = ACTIVE"
    and "run_loop hs LIVE sha a n instr (s, w) = ((s', w'), r)"
  shows "ticks_logged a w' = ticks_logged a w + (if is_ok r then 1 else 0)"
proof -
  obtain s1 w1 r1 where 1: "loop_tick LIVE sha a n instr (s, w) = ((s1, w1), r1)" by (metis prod.exhaust)
  have st: "getState (sc_lifecycle s1) a = ACTIVE"
    using loop_tick_state(1) [OF 1] assms(2) by auto
  show ?thesis
    using assms(3) 1 loop_tick_ticks [OF 1] leave_ticks [of LIVE a instr s1 w1 s' w' r a] st
    by (cases r1) (auto simp: run_loop_leaf [OF assms(1)])
qed

context quiet_tools
begin

lemma gate_ticks:
  assumes "gate_execute hs LIVE a n name args (s, w) = ((s1, w1), r)"
  shows "ticks_logged a w1 = ticks_logged a w"
proof -
  obtain w0 where q: "quiet_change a (s, tick_clock w) (s1, w0)"
    and w1: "w1 = tick_clock (case r of Inl e \<Rightarrow> w0
       | Inr v \<Rightarrow> log_event ''TOOL_RESULT'' a (tool_payload n name args v) w0)"
    by (rule gate_live_quiet [OF assms])
  have "wlogs w0 = wlogs w @ added (tick_clock w) w0"
    using q log_grows_added [of "tick_clock w" w0] by (simp add: quiet_change_def)
  then have "ticks_logged a w0 = ticks_logged a w"
    using q by (intro ticks_logged_other) (auto simp: quiet_change_def)
  then show ?thesis by (simp add: w1 ticks_logged_event split: sum.split)
qed

lemma run_loop_ticks:
  assumes act: "getState (sc_lifecycle s) a = ACTIVE"
    and run: "run_loop hs LIVE sha a n instr (s, w) = ((s', w'), r)"
  shows "ticks_logged a w' \<le> ticks_logged a w + 1 + calls_left instr \<and>
    (is_ok r \<longrightarrow> ticks_logged a w' = ticks_logged a w + 1 + calls_left instr)"
proof (cases "calls_left instr")
  case 0
  then show ?thesis using run_loop_ticks_leaf [OF 0 act run] by simp
next
  case (Suc k)
  then obtain name args where instr: "instr = CALL_TOOL name args" by (cases instr) auto
  obtain s1 w1 r1 where 1: "loop_tick LIVE sha a n instr (s, w) = ((s1, w1), r1)" by (metis prod.exhaust)
  obtain s2 w2 r2 where 2: "sc_consume consumeToolCall a (s1, w1) = ((s2, w2), r2)" by (metis prod.exhaust)
  obtain s3 w3 r3 where 3: "gate_execute hs LIVE a n name args (s2, w2) = ((s3, w3), r3)" by (metis prod.exhaust)
  have st3: "getState (sc_lifecycle s3) a = ACTIVE"
    using loop_tick_state(1) [OF 1] 2 gate_state [OF 3] act by (auto simp: sc_consume_simps)
  have t1: "ticks_logged a w1 = ticks_logged a w + (if is_ok r1 then 1 else 0)"
    by (rule loop_tick_ticks [OF 1])
  have t3: "ticks_logged a w3 = ticks_logged a w1" "w2 = w1"
    using gate_ticks [OF 3] 2 by (auto simp: sc_consume_simps)
  show ?thesis
  proof (cases "\<exists>u v x. r1 = Inr u \<and> r2 = Inr v \<and> r3 = Inr x")
    case True
    then obtain x where "run_loop hs LIVE sha a (n + 1) (RETURN x) (s3, w3) = ((s', w'), r)"
      using run 1 2 3 by (auto simp: instr run_loop_call)
    then have "ticks_logged a w' = ticks_logged a w3 + (if is_ok r then 1 else 0)"
      by (rule run_loop_ticks_leaf [rotated 2]) (simp_all add: st3)
    then show ?thesis using t1 t3 True by (auto simp: instr)
  next
    case False
    then have "(w' = w1 \<or> w' = w2 \<or> w' = w3) \<and> \<not> is_ok r"
      using run 1 2 3 by (cases r1; cases r2; cases r3) (auto simp: instr run_loop_call)
    then show ?thesis using t1 t3 by (auto simp: instr)
  qed
qed

lemma run_ticks:
  assumes act: "getState (sc_lifecycle s) a = ACTIVE"
    and run: "runAgentLoop hs LIVE sha a instr (s, w) = ((s', w'), r)"
  shows "ticks_logged a w' \<le> ticks_logged a w + 1 + calls_left instr \<and>
    (is_ok r \<longrightarrow> ticks_logged a w' = ticks_logged a w + 1 + calls_left instr)"
proof -
  obtain s1 w1 r1 where 1: "run_loop hs LIVE sha a 1 instr (s, w) = ((s1, w1), r1)" by (metis prod.exhaust)
  have "ticks_logged a (snd (fst (sc_transition a T_error (s1, w1)))) = ticks_logged a w1"
  proof (cases rule: transition_cases [of "sc_lifecycle s1" a T_error JUndef w1])
    case (taken lc' w2 t nxt)
    have "ticks_logged a w2 = ticks_logged a w1"
      by (rule ticks_logged_other [OF taken(12)]) (simp add: transition_entry_def)
    then show ?thesis using taken(2) by (simp add: sc_transition_def)
  qed (simp add: sc_transition_def)
  then have "ticks_logged a w' = ticks_logged a w1 \<and> is_ok r = is_ok r1"
    using run 1 act
    by (cases r1) (auto simp: runAgentLoop_def run_catch_def split: if_splits prod.splits)
  then show ?thesis using run_loop_ticks [OF act 1] by simp
qed

end

section \<open>A divergent replay is caught\<close>

lemma diverges:
  fixes s :: "'x sched"
  assumes un: "unmetered a s" and mode: "mode \<noteq> LIVE" and act: "getState (sc_lifecycle s) a = ACTIVE"
    and out: "out = run_tick \<lparr>ti_agentId = a, ti_sequenceNumber = 1, ti_instruction = instr, ti_maxSteps = 100\<rparr>"
    and hash: "state_hash sha a out s = Inr h"
    and e: "find_entry ''TICK_OUTPUT'' a 1 w = Some e" "js_prop (le_payload e) ''stateHash'' = JStr h0" "h0 \<noteq> h"
  shows "runAgentLoop hs mode sha a instr (s, w) =
    ((s\<lparr>sc_quota := fst (consumeTick a (sc_quota s))\<rparr>, w), Inl (divergence 1 (JStr h0) h))"
proof -
  have "loop_tick mode sha a 1 instr (s, w) =
      ((s\<lparr>sc_quota := fst (consumeTick a (sc_quota s))\<rparr>, w), Inl (divergence 1 (JStr h0) h))"
    using mode hash e by (simp add: loop_tick_def unmetered_consume [OF un] out [symmetric] record_tick_def Let_def)
  then have "run_loop hs mode sha a 1 instr (s, w) =
      ((s\<lparr>sc_quota := fst (consumeTick a (sc_quota s))\<rparr>, w), Inl (divergence 1 (JStr h0) h))"
    by (subst run_loop.simps) simp
  then show ?thesis
    using act by (simp add: runAgentLoop_def run_catch_def divergence_def)
qed

section \<open>Properties\<close>

text \<open>C2: Replay is deterministic and touches nothing. Take any LIVE run of an agent that returned,
  with the handlers the host builds from a tool registry and a log that had no entries of the
  agent's ticks. On any later log, with any handlers at all, from any kernel in which the agent is
  active with the same memory and no quota, the REPLAY run of the same instruction returns, leaves
  the agent in the same state, does not run a tool (the environment is untouched) and writes
  nothing to the log.\<close>

theorem replay_deterministic:
  fixes s :: "'x sched" and s2 :: "'y sched"
  assumes "runAgentLoop (adapted_handlers reg) LIVE sha a instr (s, w) = ((s1, w1), Inr ())"
    and "\<And>k n. find_entry k a n w = None"
    and "getState (sc_lifecycle s2) a = ACTIVE" and "memory_of a s2 = memory_of a s"
    and "unmetered a s2" and "log_grows w1 w2"
  shows "\<exists>s3 w3. runAgentLoop hs REPLAY sha a instr (s2, w2) = ((s3, w3), Inr ()) \<and>
    sc_env s3 = sc_env s2 \<and> wlog w3 = wlog w2 \<and>
    getState (sc_lifecycle s3) a = getState (sc_lifecycle s1) a"
  using host.replay_run [OF assms(1,2) assms(3) assms(4) assms(5) assms(6)] by blast

definition demo_host :: "unit registry" where
  "demo_host = fst (bootstrapCoreTools new_registry)"

definition demo_instr :: instruction where
  "demo_instr = CALL_TOOL ''system.read_file'' (JObj [(''path'', JStr ''/etc/config'')])"

definition demo_sched :: "unit sched" where
  "demo_sched =
     \<lparr>sc_lifecycle = force_state ''a'' ACTIVE new_lifecycle, sc_store = Some [],
      sc_quota = new_enforcer, sc_env = ()\<rparr>"

lemma demo_sched_simps [simp]:
  "getState (sc_lifecycle demo_sched) ''a'' = ACTIVE" "unmetered ''a'' demo_sched"
  "memory_of ''a'' demo_sched = Inr (JObj [])"
  by (simp_all add: demo_sched_def unmetered_def new_enforcer_def memory_of_def ps_snapshot_def
      rec_clone_def empty_rec_def map_get_or_def)

lemma demo_handler:
  "map_of (adapted_handlers demo_host) ''system.read_file'' = Some (adapted_handler demo_host ''system.read_file'')"
  by (simp add: adapted_handlers_def demo_host_def bootstrapCoreTools_def core_tools_def new_registry_def
      register_tool_def map_has_def listTools_def)

lemma demo_tool:
  "adapted_handler demo_host ''system.read_file'' (JObj [(''path'', JStr ''/etc/config'')]) (s, w) =
     ((s, w), Inr (tool_result_js (SUCCESS (JStr (''max_retries=3'' @ [CHR 0x0A] @ ''logging=true'')))))"
  by (cases s) (simp add: adapted_handler_def executeSync_def demo_host_def bootstrapCoreTools_def
      core_tools_def new_registry_def register_tool_def map_has_def read_file_tool_def arg_prop_def)

lemma demo_run: "\<exists>s1 w1. runAgentLoop (adapted_handlers demo_host) LIVE id ''a'' demo_instr (demo_sched, new_world int) =
    ((s1, w1), Inr ())"
proof -
  have hash: "\<exists>h. state_hash id ''a'' out s = Inr h"
    if "memory_of ''a'' s = Inr (JObj [])" "is_json (output_js out)" for out and s :: "unit sched"
    using that hash_state_json [of "kernel_state out (getState (sc_lifecycle s) ''a'') (JObj [])" id]
    by (auto simp: state_hash_def kernel_state_def)
  have tick: "\<exists>w'. loop_tick LIVE id ''a'' n instr (s, w) =
      ((s\<lparr>sc_quota := fst (consumeTick ''a'' (sc_quota s))\<rparr>, w'),
       Inr (run_tick \<lparr>ti_agentId = ''a'', ti_sequenceNumber = n, ti_instruction = instr, ti_maxSteps = 100\<rparr>))"
    if "memory_of ''a'' s = Inr (JObj [])" "unmetered ''a'' s"
      "is_json (output_js (run_tick \<lparr>ti_agentId = ''a'', ti_sequenceNumber = n, ti_instruction = instr, ti_maxSteps = 100\<rparr>))"
    for n instr w and s :: "unit sched"
    using that hash [of "s\<lparr>sc_quota := fst (consumeTick ''a'' (sc_quota s))\<rparr>"
        "run_tick \<lparr>ti_agentId = ''a'', ti_sequenceNumber = n, ti_instruction = instr, ti_maxSteps = 100\<rparr>"]
    by (auto simp: loop_tick_def unmetered_consume record_tick_def Let_def)
  let ?s1 = "demo_sched\<lparr>sc_quota := fst (consumeTick ''a'' (sc_quota demo_sched))\<rparr>"
  let ?s2 = "?s1\<lparr>sc_quota := fst (consumeToolCall ''a'' (sc_quota ?s1))\<rparr>"
  let ?args = "JObj [(''path'', JStr ''/etc/config'')]"
  obtain w1 where w1: "loop_tick LIVE id ''a'' 1 demo_instr (demo_sched, new_world int) =
      ((?s1, w1), Inr (PENDING_TOOL ''system.read_file'' ?args))"
    using tick [of demo_sched 1 demo_instr "new_world int"] by (auto simp: demo_instr_def run_tick_100)
  have un: "unmetered ''a'' ?s1" by (rule unmetered_consume(3)) simp
  have c: "sc_consume consumeToolCall ''a'' (?s1, w1) = ((?s2, w1), Inr ())"
    using unmetered_consume(2) [OF un] by simp
  let ?v = "tool_result_js (SUCCESS (JStr (''max_retries=3'' @ [CHR 0x0A] @ ''logging=true'')))"
  obtain w2 where g: "gate_execute (adapted_handlers demo_host) LIVE ''a'' 1 ''system.read_file'' ?args (?s2, w1) =
      ((?s2, w2), Inr ?v)"
    by (simp add: gate_live call_handler_def handler_lookup_def demo_handler demo_tool)
  have un2: "unmetered ''a'' ?s2" by (rule unmetered_consume(4) [OF un])
  obtain w3 where w3: "loop_tick LIVE id ''a'' 2 (RETURN ?v) (?s2, w2) =
      ((?s2\<lparr>sc_quota := fst (consumeTick ''a'' (sc_quota ?s2))\<rparr>, w3), Inr (COMPLETED ?v))"
    using tick [of ?s2 2 "RETURN ?v" w2] un2 by (auto simp: run_tick_100)
  have act: "getState (sc_lifecycle (?s2\<lparr>sc_quota := fst (consumeTick ''a'' (sc_quota ?s2))\<rparr>)) ''a'' = ACTIVE"
    by simp
  obtain s4 w4 where "leave LIVE ''a'' (RETURN ?v) (?s2\<lparr>sc_quota := fst (consumeTick ''a'' (sc_quota ?s2))\<rparr>, w3) =
      ((s4, w4), Inr ())"
    by (rule leave_ok [OF act])
  then have "run_loop (adapted_handlers demo_host) LIVE id ''a'' 2 (RETURN ?v) (?s2, w2) = ((s4, w4), Inr ())"
    by (simp only: run_loop_leaf calls_left.simps w3 prod.case sum.case)
  then have "run_loop (adapted_handlers demo_host) LIVE id ''a'' 1 demo_instr (demo_sched, new_world int) =
      ((s4, w4), Inr ())"
    using w1 c g by (simp only: run_loop_call demo_instr_def prod.case sum.case one_add_one)
  then show ?thesis by (simp add: runAgentLoop_def run_catch_def)
qed

lemma new_world_entries [simp]: "find_entry k a n (new_world c) = None"
  by (simp add: find_entry_def getLogsForAgent_def new_world_def new_logger_def)

theorem replay_deterministic_witness:
  "\<exists>s1 w1 s3 w3.
     runAgentLoop (adapted_handlers demo_host) LIVE id ''a'' demo_instr (demo_sched, new_world int) = ((s1, w1), Inr ()) \<and>
     runAgentLoop ([] :: unit sched handlers) REPLAY id ''a'' demo_instr (demo_sched, w1) = ((s3, w3), Inr ())"
proof -
  obtain s1 w1 where run: "runAgentLoop (adapted_handlers demo_host) LIVE id ''a'' demo_instr
      (demo_sched, new_world int) = ((s1, w1), Inr ())"
    using demo_run by blast
  then show ?thesis
    using replay_deterministic [OF run new_world_entries _ _ _ log_grows_refl, of demo_sched "[]"] by auto
qed

text \<open>C3: A divergent replay is caught at once. If the state hashed for the first tick of a REPLAY
  run differs, beyond the order of properties, from the JSON state whose hash was logged, and the
  hash function does not collide on the two texts, the run throws the divergence error naming both
  hashes: no tool is run, the log is unchanged and the agent stays \<open>ACTIVE\<close>.\<close>

theorem divergence_detected:
  assumes "unmetered a s" and "getState (sc_lifecycle s) a = ACTIVE" and "memory_of a s = Inr mem"
    and "k1 = kernel_state (run_tick \<lparr>ti_agentId = a, ti_sequenceNumber = 1, ti_instruction = instr,
      ti_maxSteps = 100\<rparr>) ACTIVE mem"
    and "is_json k0 \<and> wf_js k0 \<and> is_json k1 \<and> wf_js k1" and "canon k0 \<noteq> canon k1"
    and "find_entry ''TICK_OUTPUT'' a 1 w = Some e"
    and "js_prop (le_payload e) ''stateHash'' = JStr h0" and "hash_state sha k0 = Inr h0"
    and "\<And>t u. stable_text k0 = Inr (Some t) \<Longrightarrow> stable_text k1 = Inr (Some u) \<Longrightarrow> sha t = sha u \<Longrightarrow> t = u"
  shows "case runAgentLoop hs REPLAY sha a instr (s, w) of ((s1, w1), r) \<Rightarrow>
    (\<exists>h. hash_state sha k1 = Inr h \<and> r = Inl (divergence 1 (JStr h0) h)) \<and>
    sc_env s1 = sc_env s \<and> w1 = w \<and> getState (sc_lifecycle s1) a = ACTIVE"
proof -
  obtain u where u: "json_text (canon k1) = Some u" "hash_state sha k1 = Inr (sha u)"
    using hash_state_json assms(5) by blast
  obtain t where t: "json_text (canon k0) = Some t" "hash_state sha k0 = Inr (sha t)"
    using hash_state_json assms(5) by blast
  have "t \<noteq> u"
    using json_text_inject [of "canon k0" "canon k1"] t u assms(5,6) by (auto simp: canon_is_json canon_wf)
  moreover have "sha t = sha u \<Longrightarrow> t = u"
    using assms(10) [of t u] t(1) u(1) assms(5) by (simp add: stable_text_canon)
  ultimately have "h0 \<noteq> sha u" using assms(9) t(2) by auto
  moreover have "state_hash sha a (run_tick \<lparr>ti_agentId = a, ti_sequenceNumber = 1, ti_instruction = instr,
      ti_maxSteps = 100\<rparr>) s = Inr (sha u)"
    using assms(2,3,4) u(2) by (simp add: state_hash_def)
  ultimately show ?thesis
    using diverges [OF assms(1) _ assms(2) refl _ assms(7,8), of REPLAY sha instr "sha u" hs] u(2) assms(2)
    by simp
qed

theorem divergence_detected_witness:
  "\<exists>err. snd (runAgentLoop ([] :: unit sched handlers) REPLAY id ''a'' (RETURN (jint 2))
     (demo_sched, log_event ''TICK_OUTPUT'' ''a''
        (JObj [(''sequenceNumber'', jint 1), (''stateHash'', JStr ''null'')]) (new_world int))) = Inl err"
proof -
  let ?p = "JObj [(''sequenceNumber'', jint 1), (''stateHash'', JStr ''null'')]"
  let ?w = "log_event ''TICK_OUTPUT'' ''a'' ?p (new_world int)"
  let ?k1 = "kernel_state (COMPLETED (jint 2)) ACTIVE (JObj [])"
  obtain e where e: "find_entry ''TICK_OUTPUT'' ''a'' 1 ?w = Some e" "js_prop (le_payload e) ''stateHash'' = JStr ''null''"
    by (simp add: find_entry_log_event js_truthy_def)
  have k1: "?k1 = kernel_state (run_tick \<lparr>ti_agentId = ''a'', ti_sequenceNumber = 1,
      ti_instruction = RETURN (jint 2), ti_maxSteps = 100\<rparr>) ACTIVE (JObj [])"
    by (simp add: run_tick_100)
  have "case runAgentLoop ([] :: unit sched handlers) REPLAY id ''a'' (RETURN (jint 2)) (demo_sched, ?w) of ((s1, w1), r) \<Rightarrow>
    (\<exists>h. hash_state id ?k1 = Inr h \<and> r = Inl (divergence 1 (JStr ''null'') h)) \<and>
    sc_env s1 = sc_env demo_sched \<and> w1 = ?w \<and> getState (sc_lifecycle s1) ''a'' = ACTIVE"
    by (rule divergence_detected [OF _ _ _ k1 _ _ e, where ?k0.0 = JNull])
      (simp_all add: kernel_state_def hash_state_def)
  then show ?thesis by (auto split: prod.splits)
qed

text \<open>C19: Where a run leaves its agent, in either mode. A run that returns has terminated the agent,
  or left it waiting after a delegation or faulted after an unknown instruction. A run that throws
  faults the agent if a quota was exceeded; after any other error, such as \<open>TOOL_NOT_FOUND\<close> or a
  divergence, the agent is still \<open>ACTIVE\<close>.\<close>

theorem run_final_state:
  assumes "runAgentLoop (adapted_handlers reg) mode sha a instr (s, w) = ((s', w'), r)"
    and "getState (sc_lifecycle s) a = ACTIVE"
  shows "getState (sc_lifecycle s') a =
    (case r of
       Inr _ \<Rightarrow> exit_state instr
     | Inl e \<Rightarrow> if err_name e = ''QuotaExceededError'' then FAULTED else ACTIVE)"
  using host.run_state [OF assms] .

theorem run_final_state_witness:
  "case runAgentLoop (adapted_handlers demo_host) LIVE id ''a'' (CALL_TOOL ''none'' JNull)
      (demo_sched, new_world int) of ((s', w'), r) \<Rightarrow>
     getState (sc_lifecycle s') ''a'' =
       (case r of Inr _ \<Rightarrow> TERMINATED
        | Inl e \<Rightarrow> if err_name e = ''QuotaExceededError'' then FAULTED else ACTIVE)"
  using run_final_state [of demo_host LIVE id "''a''" "CALL_TOOL ''none'' JNull" demo_sched "new_world int"]
  by (auto split: prod.splits sum.splits)

text \<open>A run ends after at most two ticks. Whatever a LIVE run does, it logs at most one tick
  entry of its agent, and one more if the instruction calls a tool; a run that returns logs
  exactly that many.\<close>

theorem run_tick_bound:
  assumes "getState (sc_lifecycle s) a = ACTIVE"
    and "runAgentLoop (adapted_handlers reg) LIVE sha a instr (s, w) = ((s', w'), r)"
  shows "ticks_logged a w' \<le> ticks_logged a w + 1 + calls_left instr \<and> calls_left instr \<le> 1 \<and>
    (is_ok r \<longrightarrow> ticks_logged a w' = ticks_logged a w + 1 + calls_left instr)"
  using host.run_ticks [OF assms] by (cases instr) auto

theorem run_tick_bound_witness:
  "\<exists>s1 w1. runAgentLoop (adapted_handlers demo_host) LIVE id ''a'' demo_instr (demo_sched, new_world int) =
     ((s1, w1), Inr ()) \<and> ticks_logged ''a'' w1 = 2"
proof -
  obtain s1 w1 where run: "runAgentLoop (adapted_handlers demo_host) LIVE id ''a'' demo_instr
      (demo_sched, new_world int) = ((s1, w1), Inr ())"
    using demo_run by blast
  have "ticks_logged ''a'' (new_world int) = 0"
    by (simp add: ticks_logged_def new_world_def new_logger_def)
  then show ?thesis
    using run run_tick_bound [OF demo_sched_simps(1) run] by (auto simp: demo_instr_def)
qed

end
