(* ===== verification/Ephemeral.thy ===== *)
theory Ephemeral
  imports JsRecord
begin

text \<open>
  Tick-scoped memory: memory/ephemeral.ts (\<open>EphemeralStore\<close>). The active memories and the
  checkpoints are maps from agents to maps from tick numbers to records. A handle is the text
  \<open>agent:tick\<close>, which \<open>read\<close> and \<open>write\<close> split again at its colons.

  The cells of both maps are keyed stores in the sense of the prelude's locale.
\<close>

section \<open>Handles\<close>

definition js_space :: "char \<Rightarrow> bool" where
  "js_space c \<longleftrightarrow> (of_char c :: nat) \<in> {9, 10, 11, 12, 13, 32, 160}"

text \<open>\<open>parseInt(s, 10)\<close>: leading blanks, a sign, then the digits up to the first other
  character; \<open>NaN\<close>, here \<open>None\<close>, without a digit.\<close>

definition sign_split :: "string \<Rightarrow> bool \<times> string" where
  "sign_split u =
     (case u of
        [] \<Rightarrow> (False, u)
      | c # r \<Rightarrow>
          if c = CHR ''-'' then (True, r) else if c = CHR ''+'' then (False, r) else (False, u))"

definition parseInt :: "string \<Rightarrow> int option" where
  "parseInt s =
     (let (neg, v) = sign_split (dropWhile js_space s);
          ds = takeWhile is_digit v
      in if ds = [] then None else Some ((if neg then - 1 else 1) * int (read_nat ds)))"

definition generateHandle :: "string \<Rightarrow> int \<Rightarrow> string" where
  "generateHandle a t = a @ '':'' @ show_int t"

definition parseHandle :: "string \<Rightarrow> jserr + (string \<times> int option)" where
  "parseHandle h =
     (let parts = split_on (CHR '':'') h in
      if length parts \<noteq> 2 then Inl (Error (''Invalid EphemeralHandle: '' @ h))
      else Inr (parts ! 0, parseInt (parts ! 1)))"

section \<open>The store\<close>

type_synonym tick_mem = "(int, jsrec) jsmap"

record ephemeral =
  memoryMap :: "(string, tick_mem) jsmap"
  checkpoints :: "(string, tick_mem) jsmap"

definition new_ephemeral :: ephemeral where
  "new_ephemeral = \<lparr>memoryMap = [], checkpoints = []\<rparr>"

text \<open>\<open>m.get(a)?.get(t)\<close>, and \<open>m.get(a).set(t, r)\<close> with the inner map created when missing.\<close>

definition cell :: "(string, tick_mem) jsmap \<Rightarrow> string \<Rightarrow> int \<Rightarrow> jsrec option" where
  "cell m a t = (case map_of m a of None \<Rightarrow> None | Some tm \<Rightarrow> map_of tm t)"

definition ensure_inner :: "string \<Rightarrow> (string, tick_mem) jsmap \<Rightarrow> (string, tick_mem) jsmap" where
  "ensure_inner a m = (if map_has m a then m else AList.update a [] m)"

definition set_cell :: "string \<Rightarrow> int \<Rightarrow> jsrec \<Rightarrow> (string, tick_mem) jsmap \<Rightarrow> (string, tick_mem) jsmap" where
  "set_cell a t r m =
     (let m1 = ensure_inner a m
      in AList.update a (AList.update t r (map_get_or [] m1 a)) m1)"

definition del_cell :: "string \<Rightarrow> int \<Rightarrow> (string, tick_mem) jsmap \<Rightarrow> (string, tick_mem) jsmap" where
  "del_cell a t m =
     (case map_of m a of None \<Rightarrow> m | Some tm \<Rightarrow> AList.update a (AList.delete t tm) m)"

definition eph_init :: "string \<Rightarrow> int \<Rightarrow> ephemeral \<Rightarrow> ephemeral \<times> string" where
  "eph_init a t s =
     (s\<lparr>memoryMap := set_cell a t empty_rec (memoryMap s)\<rparr>, generateHandle a t)"

definition active_cell :: "ephemeral \<Rightarrow> string \<Rightarrow> int option \<Rightarrow> jsrec option" where
  "active_cell s a t = (case t of None \<Rightarrow> None | Some n \<Rightarrow> cell (memoryMap s) a n)"

definition eph_read :: "string \<Rightarrow> string \<Rightarrow> ephemeral \<Rightarrow> jserr + jsval" where
  "eph_read h k s =
     (case parseHandle h of
        Inl e \<Rightarrow> Inl e
      | Inr (a, t) \<Rightarrow>
          (case active_cell s a t of
             None \<Rightarrow> Inl (Error (''Attempted to read inactive ephemeral memory: '' @ h))
           | Some r \<Rightarrow>
               let value = rec_get r k
               in if value \<noteq> JUndef then json_clone value else Inr JNull))"

definition eph_write :: "string \<Rightarrow> string \<Rightarrow> jsval \<Rightarrow> ephemeral \<Rightarrow> (ephemeral, unit) outcome" where
  "eph_write h k v s =
     (case parseHandle h of
        Inl e \<Rightarrow> (s, Inl e)
      | Inr (a, t) \<Rightarrow>
          (case active_cell s a t of
             None \<Rightarrow> (s, Inl (Error (''Attempted to write to inactive ephemeral memory: '' @ h)))
           | Some r \<Rightarrow>
               (case json_clone v of
                  Inl e \<Rightarrow> (s, Inl (Error (''Value is not JSON serializable (INV-11): '' @ k)))
                | Inr w \<Rightarrow>
                    (s\<lparr>memoryMap := set_cell a (the t) (rec_put k w r) (memoryMap s)\<rparr>, Inr ()))))"

definition eph_checkpoint :: "string \<Rightarrow> int \<Rightarrow> ephemeral \<Rightarrow> (ephemeral, unit) outcome" where
  "eph_checkpoint a t s =
     (case cell (memoryMap s) a t of
        None \<Rightarrow>
          (s, Inl (Error (''Cannot checkpoint non-existent ephemeral memory for '' @ a @ '':'' @ show_int t)))
      | Some r \<Rightarrow>
          (let cp = ensure_inner a (checkpoints s)
           in (case rec_clone r of
                 Inl e \<Rightarrow> (s\<lparr>checkpoints := cp\<rparr>, Inl e)
               | Inr c \<Rightarrow> (s\<lparr>checkpoints := set_cell a t c cp\<rparr>, Inr ()))))"

definition eph_restore :: "string \<Rightarrow> int \<Rightarrow> ephemeral \<Rightarrow> (ephemeral, string) outcome" where
  "eph_restore a t s =
     (case cell (checkpoints s) a t of
        None \<Rightarrow>
          (s, Inl (Error (''Cannot restore. No checkpoint found for '' @ a @ '':'' @ show_int t)))
      | Some r \<Rightarrow>
          (let mm = ensure_inner a (memoryMap s)
           in (case rec_clone r of
                 Inl e \<Rightarrow> (s\<lparr>memoryMap := mm\<rparr>, Inl e)
               | Inr c \<Rightarrow> (s\<lparr>memoryMap := set_cell a t c mm\<rparr>, Inr (generateHandle a t)))))"

definition eph_destroy :: "string \<Rightarrow> int \<Rightarrow> ephemeral \<Rightarrow> ephemeral" where
  "eph_destroy a t s =
     s\<lparr>memoryMap := del_cell a t (memoryMap s), checkpoints := del_cell a t (checkpoints s)\<rparr>"

section \<open>Handles split back\<close>

lemma is_digit_sign: "\<not> is_digit (CHR ''-'')" "\<not> is_digit (CHR ''+'')"
  by (simp_all add: is_digit_def)

lemma digit_not_space: "is_digit c \<Longrightarrow> \<not> js_space c"
  by (auto simp: is_digit_def js_space_def)

lemma parseInt_digits:
  assumes "list_all is_digit ds" and "ds \<noteq> []"
  shows "parseInt ds = Some (int (read_nat ds))" "parseInt (CHR ''-'' # ds) = Some (- int (read_nat ds))"
proof -
  obtain d r where ds: "ds = d # r" using assms(2) by (cases ds) auto
  have d: "is_digit d" "\<not> js_space d" "d \<noteq> CHR ''-''" "d \<noteq> CHR ''+''"
    using assms(1) digit_not_space is_digit_sign by (auto simp: ds)
  have tw: "takeWhile is_digit ds = ds"
    using assms(1) by (simp add: list_all_iff)
  have "dropWhile js_space ds = ds" using d by (simp add: ds)
  moreover have "sign_split ds = (False, ds)"
    using d(3,4) by (simp add: ds sign_split_def)
  ultimately show "parseInt ds = Some (int (read_nat ds))"
    using tw assms(2) by (simp add: parseInt_def Let_def del: takeWhile_eq_all_conv)
  have "dropWhile js_space (CHR ''-'' # ds) = CHR ''-'' # ds"
    by (simp add: js_space_def)
  then show "parseInt (CHR ''-'' # ds) = Some (- int (read_nat ds))"
    using tw assms(2) by (simp add: parseInt_def sign_split_def Let_def del: takeWhile_eq_all_conv)
qed

lemma parseInt_show_int [simp]: "parseInt (show_int i) = Some i"
  using parseInt_digits [OF show_nat_digits show_nat_nonempty]
  by (auto simp: show_int_def)

lemma parse_generateHandle:
  "parseHandle (generateHandle a t) =
     (if CHR '':'' \<in> set a then Inl (Error (''Invalid EphemeralHandle: '' @ generateHandle a t))
      else Inr (a, Some t))"
proof (cases "CHR '':'' \<in> set a")
  case True
  then have "count_list a (CHR '':'') \<noteq> 0" by (simp add: count_list_0_iff)
  moreover have "length (split_on (CHR '':'') (generateHandle a t)) = Suc (Suc (count_list a (CHR '':'')))"
    using show_int_no_colon [of t]
    by (simp add: length_split_on generateHandle_def count_list_append count_list_0_iff)
  ultimately show ?thesis using True by (simp add: parseHandle_def Let_def)
next
  case False
  then show ?thesis
    using split_on_append [OF False] split_on_no_sep [OF show_int_no_colon]
    by (simp add: parseHandle_def generateHandle_def Let_def)
qed

section \<open>Cells\<close>

lemma cell_set_cell [simp]:
  "cell (set_cell a t r m) b u = (if b = a \<and> u = t then Some r else cell m b u)"
  by (auto simp: cell_def set_cell_def map_get_or_def map_has_def ensure_inner_def Let_def
      split: option.split)

lemma cell_del_cell [simp]:
  "cell (del_cell a t m) b u = (if b = a \<and> u = t then None else cell m b u)"
  by (auto simp: cell_def del_cell_def split: option.split)

lemma cell_ensure [simp]: "cell (ensure_inner a m) b u = cell m b u"
  by (auto simp: ensure_inner_def cell_def map_has_def)

interpretation eph_cells:
  keyed_store "\<lambda>m (a, t). cell m a t" "\<lambda>(a, t). set_cell a t" "\<lambda>(a, t). del_cell a t"
  by unfold_locales (auto split: prod.splits)

section \<open>Runs of the store\<close>

datatype eph_op =
  E_init string int | E_write string string jsval | E_checkpoint string int
| E_restore string int | E_destroy string int

fun eph_step :: "eph_op \<Rightarrow> ephemeral \<Rightarrow> ephemeral" where
  "eph_step (E_init a t) s = fst (eph_init a t s)"
| "eph_step (E_write h k v) s = fst (eph_write h k v s)"
| "eph_step (E_checkpoint a t) s = fst (eph_checkpoint a t s)"
| "eph_step (E_restore a t) s = fst (eph_restore a t s)"
| "eph_step (E_destroy a t) s = eph_destroy a t s"

definition eph_run :: "eph_op list \<Rightarrow> ephemeral \<Rightarrow> ephemeral" where
  "eph_run = fold eph_step"

fun op_wf :: "eph_op \<Rightarrow> bool" where
  "op_wf (E_write h k v) \<longleftrightarrow> wf_js v"
| "op_wf _ \<longleftrightarrow> True"

text \<open>Everything stored is a record of JSON values.\<close>

definition eph_ok :: "ephemeral \<Rightarrow> bool" where
  "eph_ok s \<longleftrightarrow>
     (\<forall>a t r. cell (memoryMap s) a t = Some r \<or> cell (checkpoints s) a t = Some r \<longrightarrow> rec_ok r)"

lemma eph_ok_new [simp]: "eph_ok new_ephemeral"
  by (simp add: eph_ok_def new_ephemeral_def cell_def)

lemma rec_clone_cell: "rec_ok r \<Longrightarrow> rec_clone r = Inr (r\<lparr>proto := None\<rparr>)"
  by (cases r) (simp add: rec_clone_ok)

lemma rec_ok_proto [simp]: "rec_ok (r\<lparr>proto := p\<rparr>) \<longleftrightarrow> rec_ok r"
  by (simp add: rec_ok_def)

lemma eph_write_cases:
  obtains (stored) a t r w where "parseHandle h = Inr (a, Some t)"
      "cell (memoryMap s) a t = Some r" "json_clone v = Inr w"
      "eph_write h k v s = (s\<lparr>memoryMap := set_cell a t (rec_put k w r) (memoryMap s)\<rparr>, Inr ())"
  | (thrown) e where "eph_write h k v s = (s, Inl e)"
proof (cases "\<exists>e. snd (eph_write h k v s) = Inl e")
  case True
  then have "\<exists>e. eph_write h k v s = (s, Inl e)"
    by (auto simp: eph_write_def split: sum.splits option.splits prod.splits)
  then show ?thesis using thrown by blast
next
  case False
  then have "\<exists>a t r w. parseHandle h = Inr (a, Some t) \<and> cell (memoryMap s) a t = Some r \<and>
      json_clone v = Inr w \<and>
      eph_write h k v s = (s\<lparr>memoryMap := set_cell a t (rec_put k w r) (memoryMap s)\<rparr>, Inr ())"
    by (auto simp: eph_write_def active_cell_def split: sum.splits option.splits prod.splits)
  then show ?thesis using stored by blast
qed

text \<open>The two operations that copy between the maps, on a store that is in order.\<close>

lemma eph_checkpoint_ok:
  "eph_ok s \<Longrightarrow>
   eph_checkpoint a t s =
     (case cell (memoryMap s) a t of
        None \<Rightarrow>
          (s, Inl (Error (''Cannot checkpoint non-existent ephemeral memory for '' @ a @ '':'' @ show_int t)))
      | Some r \<Rightarrow>
          (s\<lparr>checkpoints := set_cell a t (r\<lparr>proto := None\<rparr>) (ensure_inner a (checkpoints s))\<rparr>, Inr ()))"
  by (auto simp: eph_checkpoint_def eph_ok_def rec_clone_cell Let_def split: option.split)

lemma eph_restore_ok:
  "eph_ok s \<Longrightarrow>
   eph_restore a t s =
     (case cell (checkpoints s) a t of
        None \<Rightarrow>
          (s, Inl (Error (''Cannot restore. No checkpoint found for '' @ a @ '':'' @ show_int t)))
      | Some r \<Rightarrow>
          (s\<lparr>memoryMap := set_cell a t (r\<lparr>proto := None\<rparr>) (ensure_inner a (memoryMap s))\<rparr>,
           Inr (generateHandle a t)))"
  by (auto simp: eph_restore_def eph_ok_def rec_clone_cell Let_def split: option.split)

lemma eph_ok_step [preserve]:
  assumes ok: "eph_ok s" and wf: "op_wf op"
  shows "eph_ok (eph_step op s)"
proof (cases op)
  case (E_write h k v)
  show ?thesis
  proof (cases rule: eph_write_cases [of h s v k])
    case (stored a t r w)
    have "is_json w" "wf_js w"
      using stored(3) wf E_write by (auto simp: json_clone_is_json json_clone_wf)
    then have "rec_ok (rec_put k w r)"
      using ok stored(2) by (intro rec_ok_put) (auto simp: eph_ok_def)
    then show ?thesis
      using ok by (auto simp: E_write stored(4) eph_ok_def)
  qed (simp add: E_write ok)
next
  case (E_checkpoint a t)
  then show ?thesis
    using ok by (auto simp: eph_checkpoint_ok eph_ok_def split: option.split)
next
  case (E_restore a t)
  then show ?thesis
    using ok by (auto simp: eph_restore_ok eph_ok_def split: option.split)
qed (use ok in \<open>auto simp: eph_ok_def eph_init_def eph_destroy_def\<close>)

lemma eph_ok_run [preserve]: "eph_ok s \<Longrightarrow> list_all op_wf ops \<Longrightarrow> eph_ok (eph_run ops s)"
  by (induction ops arbitrary: s) (auto simp: eph_run_def eph_ok_step)

text \<open>Which operations touch a checkpoint, and which can make a memory active.\<close>

definition keeps_checkpoint :: "string \<Rightarrow> int \<Rightarrow> eph_op \<Rightarrow> bool" where
  "keeps_checkpoint a t op \<longleftrightarrow> op \<noteq> E_checkpoint a t \<and> op \<noteq> E_destroy a t"

lemma step_checkpoint:
  assumes "eph_ok s" and "keeps_checkpoint a t op"
  shows "cell (checkpoints (eph_step op s)) a t = cell (checkpoints s) a t"
proof (cases op)
  case (E_write h k v)
  then show ?thesis by (cases rule: eph_write_cases [of h s v k]) auto
qed (use assms in \<open>auto simp: keeps_checkpoint_def eph_init_def eph_destroy_def eph_checkpoint_ok
      eph_restore_ok split: option.split\<close>)

lemma run_checkpoint:
  "eph_ok s \<Longrightarrow> list_all op_wf ops \<Longrightarrow> list_all (keeps_checkpoint a t) ops \<Longrightarrow>
   cell (checkpoints (eph_run ops s)) a t = cell (checkpoints s) a t"
  by (induction ops arbitrary: s) (auto simp: eph_run_def eph_ok_step step_checkpoint)

definition gone :: "string \<Rightarrow> int \<Rightarrow> ephemeral \<Rightarrow> bool" where
  "gone a t s \<longleftrightarrow> cell (memoryMap s) a t = None \<and> cell (checkpoints s) a t = None"

lemma step_gone:
  assumes "eph_ok s" and "gone a t s" and "op \<noteq> E_init a t"
  shows "gone a t (eph_step op s)"
proof (cases op)
  case (E_write h k v)
  then show ?thesis using assms by (cases rule: eph_write_cases [of h s v k]) (auto simp: gone_def)
qed (use assms in \<open>auto simp: gone_def eph_init_def eph_destroy_def eph_checkpoint_ok
      eph_restore_ok split: option.split\<close>)

lemma run_gone:
  "eph_ok s \<Longrightarrow> list_all op_wf ops \<Longrightarrow> gone a t s \<Longrightarrow> E_init a t \<notin> set ops \<Longrightarrow>
   gone a t (eph_run ops s)"
  by (induction ops arbitrary: s) (auto simp: eph_run_def eph_ok_step step_gone)

section \<open>Properties\<close>

text \<open>Reads see the last write and nothing else. For an agent whose id has no colon, a write
  through the handle of an active memory of a serialisable value under a key other than
  \<open>__proto__\<close> succeeds, reading that key gives the value as JSON carries it, and whatever can be
  read through any handle the store gives out under any other agent, tick or key is as before.\<close>

theorem ephemeral_read_write:
  assumes "CHR '':'' \<notin> set a" and "cell (memoryMap s) a t \<noteq> None"
    and "k \<noteq> proto_key" and "json_clone v = Inr w"
  shows "case eph_write (generateHandle a t) k v s of (s', r) \<Rightarrow>
    r = Inr () \<and> eph_read (generateHandle a t) k s' = Inr w \<and>
    (\<forall>b u j. (b, u, j) \<noteq> (a, t, k) \<longrightarrow>
       eph_read (generateHandle b u) j s' = eph_read (generateHandle b u) j s)"
proof -
  obtain r where r: "cell (memoryMap s) a t = Some r" using assms(2) by auto
  have w: "is_json w" "w \<noteq> JUndef"
    using json_clone_is_json [OF assms(4)] by auto
  have get: "rec_get (rec_put k w r) j = (if j = k then w else rec_get r j)" for j
    using assms(3) by (simp add: rec_get_put_same rec_get_put_other)
  show ?thesis
    using assms r w
    by (auto simp: eph_write_def eph_read_def parse_generateHandle active_cell_def get Let_def
        split: sum.splits option.splits)
qed

theorem ephemeral_read_write_witness:
  "case eph_write (generateHandle ''a'' 1) ''k'' (jint 7) (fst (eph_init ''a'' 1 new_ephemeral)) of
     (s', r) \<Rightarrow> eph_read (generateHandle ''a'' 1) ''k'' s' = Inr (jint 7)"
  using ephemeral_read_write [of "''a''" "fst (eph_init ''a'' 1 new_ephemeral)" 1 "''k''" "jint 7" "jint 7"]
  by (auto simp: eph_init_def proto_key_def split: prod.splits)

text \<open>C24: A checkpoint survives anything short of a new checkpoint or the destruction of the
  tick. In any history of a new store, if a memory is checkpointed and later restored, with any
  operations in between other than these two on that tick, the restored memory has exactly the
  properties it had at the checkpoint.\<close>

theorem checkpoint_restore:
  assumes "list_all op_wf before" and "list_all op_wf between"
    and "list_all (keeps_checkpoint a t) between"
    and "cell (memoryMap (eph_run before new_ephemeral)) a t = Some r"
  shows "case eph_restore a t
      (eph_run between (fst (eph_checkpoint a t (eph_run before new_ephemeral)))) of
    (s', h) \<Rightarrow> h = Inr (generateHandle a t) \<and> map_option props (cell (memoryMap s') a t) = Some (props r)"
proof -
  let ?s = "eph_run before new_ephemeral"
  let ?c = "fst (eph_checkpoint a t ?s)"
  have ok: "eph_ok ?s" using assms(1) by (simp add: eph_ok_run)
  have c: "eph_ok ?c" using eph_ok_step [OF ok, of "E_checkpoint a t"] by simp
  have "cell (checkpoints ?c) a t = Some (r\<lparr>proto := None\<rparr>)"
    using ok assms(4) by (simp add: eph_checkpoint_ok)
  then have "cell (checkpoints (eph_run between ?c)) a t = Some (r\<lparr>proto := None\<rparr>)"
    using run_checkpoint [OF c assms(2,3)] by simp
  then show ?thesis
    using eph_ok_run [OF c assms(2)] by (simp add: eph_restore_ok)
qed

theorem checkpoint_restore_witness:
  "case eph_restore ''a'' 1
      (eph_run [E_init ''a'' 1] (fst (eph_checkpoint ''a'' 1
         (eph_run [E_init ''a'' 1, E_write ''a:1'' ''k'' (JStr ''v'')] new_ephemeral)))) of
    (s', h) \<Rightarrow> map_option props (cell (memoryMap s') ''a'' 1) = Some [(''k'', JStr ''v'')]"
proof -
  have "cell (memoryMap (eph_run [E_init ''a'' 1, E_write ''a:1'' ''k'' (JStr ''v'')] new_ephemeral)) ''a'' 1 =
      Some \<lparr>props = [(''k'', JStr ''v'')], proto = None\<rparr>"
    using parse_generateHandle [of "''a''" 1]
    by (simp add: eph_run_def eph_init_def eph_write_def active_cell_def generateHandle_def
        show_int_def show_nat.simps digit_char_def empty_rec_def rec_put_plain proto_key_def own_put_def)
  from checkpoint_restore [OF _ _ _ this, of "[E_init ''a'' 1]"] show ?thesis
    by (simp add: keeps_checkpoint_def split: prod.splits)
qed

text \<open>Ephemeral memory ends with its tick (INV-05). After \<open>destroy\<close>, whatever operations
  follow short of initialising the same tick again, both the memory and its checkpoint are gone:
  every read through the handle throws, and so does \<open>restore\<close>.\<close>

theorem destroyed_for_good:
  assumes "list_all op_wf before" and "list_all op_wf later" and "E_init a t \<notin> set later"
  shows "let s = eph_run later (eph_destroy a t (eph_run before new_ephemeral)) in
    (\<exists>e. eph_read (generateHandle a t) k s = Inl e) \<and> (\<exists>e. snd (eph_restore a t s) = Inl e)"
proof -
  let ?s = "eph_run before new_ephemeral"
  have "eph_ok (eph_destroy a t ?s)"
    using eph_ok_step [of ?s "E_destroy a t"] assms(1) by (simp add: eph_ok_run)
  then have "gone a t (eph_run later (eph_destroy a t ?s))"
    using assms(2,3) by (intro run_gone) (simp_all add: gone_def eph_destroy_def)
  then show ?thesis
    by (auto simp: Let_def gone_def eph_read_def parse_generateHandle active_cell_def eph_restore_def)
qed

theorem destroyed_for_good_witness:
  "\<exists>e. eph_read (generateHandle ''a'' 1) ''k''
     (eph_run [E_restore ''a'' 1] (eph_destroy ''a'' 1
        (eph_run [E_init ''a'' 1, E_checkpoint ''a'' 1] new_ephemeral))) = Inl e"
  using destroyed_for_good [of "[E_init ''a'' 1, E_checkpoint ''a'' 1]" "[E_restore ''a'' 1]" "''a''" 1 "''k''"]
  by (simp add: Let_def)

end
