(* ===== verification/Permissions.thy ===== *)
theory Permissions
  imports Logging
begin

text \<open>
  Policy evaluation: permissions/types.ts and permissions/model.ts. A grant names an action and
  a resource, either possibly \<open>'*'\<close>, and may expire. A policy is code of the caller and so a
  parameter: a function of the agent, action, resource and grants to a \<open>policy_result\<close>, as its
  TypeScript type says (a policy that throws or has effects is not modelled).

  The results are ordered \<open>ALLOW < ESCALATE < DENY\<close>; the loop over the policies computes a
  maximum although it stops at the first \<open>DENY\<close>.
\<close>

section \<open>Grants and policies\<close>

datatype policy_result = ALLOW | ESCALATE | DENY

fun result_name :: "policy_result \<Rightarrow> string" where
  "result_name ALLOW = ''ALLOW''"
| "result_name ESCALATE = ''ESCALATE''"
| "result_name DENY = ''DENY''"

record grant =
  g_action :: string
  g_resource :: string
  g_notAfter :: "int option"

type_synonym policy = "string \<Rightarrow> string \<Rightarrow> string \<Rightarrow> grant list \<Rightarrow> policy_result"

definition grant_js :: "grant \<Rightarrow> jsval" where
  "grant_js g =
     JObj ([(''action'', JStr (g_action g)), (''resource'', JStr (g_resource g))] @
           (case g_notAfter g of None \<Rightarrow> [] | Some t \<Rightarrow> [(''notAfter'', jint t)]))"

text \<open>\<open>!grant.notAfter\<close>: absent, or the falsy number 0.\<close>

definition no_expiry :: "int option \<Rightarrow> bool" where
  "no_expiry n \<longleftrightarrow> n = None \<or> n = Some 0"

definition grant_matches :: "string \<Rightarrow> string \<Rightarrow> int \<Rightarrow> grant \<Rightarrow> bool" where
  "grant_matches act res now g \<longleftrightarrow>
     (g_action g = ''*'' \<or> g_action g = act) \<and>
     (g_resource g = ''*'' \<or> g_resource g = res) \<and>
     (no_expiry (g_notAfter g) \<or> the (g_notAfter g) > now)"

fun has_valid_grant :: "string \<Rightarrow> string \<Rightarrow> int \<Rightarrow> grant list \<Rightarrow> bool" where
  "has_valid_grant act res now [] = False"
| "has_valid_grant act res now (g # gs) =
     (if grant_matches act res now g then True else has_valid_grant act res now gs)"

fun apply_policies ::
  "string \<Rightarrow> string \<Rightarrow> string \<Rightarrow> grant list \<Rightarrow> policy list \<Rightarrow> policy_result \<Rightarrow> policy_result" where
  "apply_policies a act res gs [] acc = acc"
| "apply_policies a act res gs (p # ps) acc =
     (case p a act res gs of
        DENY \<Rightarrow> DENY
      | ESCALATE \<Rightarrow> apply_policies a act res gs ps ESCALATE
      | ALLOW \<Rightarrow> apply_policies a act res gs ps acc)"

section \<open>PermissionModel.evaluate\<close>

definition evaluate ::
  "string \<Rightarrow> string \<Rightarrow> string \<Rightarrow> grant list \<Rightarrow> policy list \<Rightarrow> world \<Rightarrow> world \<times> policy_result" where
  "evaluate a act res gs ps w =
     (let now = date_now w; w1 = tick_clock w in
      if \<not> has_valid_grant act res now gs then
        (log_event ''PERMISSION_EVALUATION'' a
           (JObj [(''action'', JStr act), (''resource'', JStr res), (''result'', JStr ''DENY''),
                  (''reason'', JStr ''NO_VALID_GRANT'')]) w1, DENY)
      else
        let r = apply_policies a act res gs ps ALLOW in
        (log_event ''PERMISSION_EVALUATION'' a
           (JObj [(''action'', JStr act), (''resource'', JStr res),
                  (''result'', JStr (result_name r))]) w1, r))"

section \<open>The results as an order\<close>

instantiation policy_result :: linorder
begin

definition rank :: "policy_result \<Rightarrow> nat" where
  "rank r = (case r of ALLOW \<Rightarrow> 0 | ESCALATE \<Rightarrow> 1 | DENY \<Rightarrow> 2)"

definition less_eq_policy_result :: "policy_result \<Rightarrow> policy_result \<Rightarrow> bool" where
  "less_eq_policy_result r s \<longleftrightarrow> rank r \<le> rank s"

definition less_policy_result :: "policy_result \<Rightarrow> policy_result \<Rightarrow> bool" where
  "less_policy_result r s \<longleftrightarrow> rank r < rank s"

instance
  by standard
    (auto simp: less_eq_policy_result_def less_policy_result_def rank_def
      split: policy_result.splits)

end

lemma policy_result_order [simp]:
  "ALLOW \<le> r" "r \<le> DENY" "ESCALATE \<le> r \<longleftrightarrow> r \<noteq> ALLOW" "max r ALLOW = r" "max ALLOW r = r"
  "max DENY r = DENY" "max r DENY = DENY" "max ESCALATE ALLOW = ESCALATE"
  "max ESCALATE ESCALATE = ESCALATE"
  by (cases r; simp add: less_eq_policy_result_def rank_def max_def)+

lemma has_valid_grant_iff:
  "has_valid_grant act res now gs \<longleftrightarrow> (\<exists>g \<in> set gs. grant_matches act res now g)"
  by (induction gs) auto

lemma apply_policies_max:
  "acc \<noteq> DENY \<Longrightarrow>
   apply_policies a act res gs ps acc = fold max (map (\<lambda>p. p a act res gs) ps) acc"
proof (induction ps arbitrary: acc)
  case (Cons p ps)
  have "fold max rs DENY = DENY" for rs
    by (induction rs) auto
  with Cons show ?case
    by (cases "p a act res gs"; cases acc) simp_all
qed simp

text \<open>What the decision is, apart from the log.\<close>

definition decision ::
  "string \<Rightarrow> string \<Rightarrow> string \<Rightarrow> grant list \<Rightarrow> policy list \<Rightarrow> int \<Rightarrow> policy_result" where
  "decision a act res gs ps now =
     (if \<exists>g \<in> set gs. grant_matches act res now g
      then fold max (map (\<lambda>p. p a act res gs) ps) ALLOW else DENY)"

lemma evaluate_decision: "snd (evaluate a act res gs ps w) = decision a act res gs ps (date_now w)"
  by (simp add: evaluate_def decision_def Let_def has_valid_grant_iff apply_policies_max)

lemma evaluate_grows [frame]: "log_grows w (fst (evaluate a act res gs ps w))"
proof -
  have "log_grows w (log_event k b p (tick_clock w))" for k b p
    by (rule log_grows_trans [OF log_grows_tick log_grows_event])
  then show ?thesis by (simp add: evaluate_def Let_def)
qed

lemma fold_max_eq:
  "fold max rs (acc :: policy_result) = ALLOW \<longleftrightarrow> acc = ALLOW \<and> (\<forall>r \<in> set rs. r = ALLOW)"
  "fold max rs (acc :: policy_result) = DENY \<longleftrightarrow> acc = DENY \<or> DENY \<in> set rs"
proof -
  have m: "max x y = ALLOW \<longleftrightarrow> x = ALLOW \<and> y = ALLOW" "max x y = DENY \<longleftrightarrow> x = DENY \<or> y = DENY"
    for x y :: policy_result
    by (cases x; cases y; simp add: max_def less_eq_policy_result_def rank_def)+
  show "fold max rs acc = ALLOW \<longleftrightarrow> acc = ALLOW \<and> (\<forall>r \<in> set rs. r = ALLOW)"
    by (induction rs arbitrary: acc) (auto simp: m)
  show "fold max rs acc = DENY \<longleftrightarrow> acc = DENY \<or> DENY \<in> set rs"
    by (induction rs arbitrary: acc) (auto simp: m)
qed

section \<open>Properties\<close>

text \<open>C21: Deny by default, and the strictest policy wins whatever the order of the policies: the
  result is \<open>ALLOW\<close> exactly if some unexpired grant matches and every policy allows, \<open>DENY\<close>
  exactly if no such grant exists or some policy denies, \<open>ESCALATE\<close> otherwise. Each evaluation
  appends exactly one entry, of the agent and with the result in it.\<close>

theorem evaluate_spec:
  "case evaluate a act res gs ps w of (w', r) \<Rightarrow>
     (r = ALLOW \<longleftrightarrow> (\<exists>g \<in> set gs. grant_matches act res (date_now w) g) \<and>
        (\<forall>p \<in> set ps. p a act res gs = ALLOW)) \<and>
     (r = DENY \<longleftrightarrow> \<not> (\<exists>g \<in> set gs. grant_matches act res (date_now w) g) \<or>
        (\<exists>p \<in> set ps. p a act res gs = DENY)) \<and>
     (\<exists>e. wlogs w' = wlogs w @ [e] \<and> le_kind e = ''PERMISSION_EVALUATION'' \<and> le_agentId e = a \<and>
        js_prop (le_payload e) ''result'' = JStr (result_name r))"
proof -
  obtain w' r where e: "evaluate a act res gs ps w = (w', r)" by fastforce
  have r: "r = decision a act res gs ps (date_now w)"
    using evaluate_decision [of a act res gs ps w] e by simp
  have "\<exists>e. wlogs w' = wlogs w @ [e] \<and> le_kind e = ''PERMISSION_EVALUATION'' \<and> le_agentId e = a \<and>
        js_prop (le_payload e) ''result'' = JStr (result_name r)"
    using e by (auto simp: evaluate_def Let_def split: if_splits)
  moreover have "r = ALLOW \<longleftrightarrow> (\<exists>g \<in> set gs. grant_matches act res (date_now w) g) \<and>
        (\<forall>p \<in> set ps. p a act res gs = ALLOW)"
    by (simp add: r decision_def fold_max_eq)
  moreover have "r = DENY \<longleftrightarrow> \<not> (\<exists>g \<in> set gs. grant_matches act res (date_now w) g) \<or>
        (\<exists>p \<in> set ps. p a act res gs = DENY)"
    by (simp add: r decision_def fold_max_eq image_iff eq_commute [of DENY]) blast
  ultimately show ?thesis
    by (simp add: e)
qed

theorem evaluate_spec_witness:
  "snd (evaluate ''x'' ''read'' ''doc''
      [\<lparr>g_action = ''read'', g_resource = ''doc'', g_notAfter = None\<rparr>]
      [\<lambda>_ _ _ _. ESCALATE, \<lambda>_ _ _ _. DENY] (new_world int)) = DENY"
  using evaluate_spec [where a = "''x''" and act = "''read''" and res = "''doc''" and
      gs = "[\<lparr>g_action = ''read'', g_resource = ''doc'', g_notAfter = None\<rparr>]" and
      ps = "[\<lambda>_ _ _ _. ESCALATE, \<lambda>_ _ _ _. DENY]" and w = "new_world int"]
  by (simp split: prod.splits)

end
