(* ===== verification/Delegation.thy ===== *)
theory Delegation
  imports Permissions
begin

text \<open>
  Delegation of authority: delegation/types.ts and delegation/protocol.ts
  (\<open>DelegationProtocol\<close>). The tree is a map from agent ids to nodes with their child ids and
  token.

  \<open>revoke\<close> is recursive in the source: it marks the agent's token and then calls itself on each
  child in turn. \<open>revoke_list\<close> keeps the pending calls of the enclosing loops as a list, next
  call first; \<open>revoke_rec\<close> shows it satisfies the source's recursion. It ends because a token is
  marked before its children are visited.

  Counters and times are integers (a request whose \<open>maxDepth\<close> or \<open>ttl\<close> is \<open>NaN\<close> is outside the
  model). The token in a response or in a logged payload is the live object in the source; here
  it is the value at that moment.
\<close>

section \<open>Tokens, nodes and requests\<close>

record dtoken =
  tokenId :: string
  parentAgentId :: string
  childAgentId :: string
  grants :: "grant list"
  maxDepth :: int
  ttl :: int
  revoked :: bool

record dnode =
  dn_agentId :: string
  dn_parentId :: "string option"
  dn_children :: "string list"
  dn_token :: "dtoken option"

record drequest =
  rq_requestId :: string
  rq_parentAgentId :: string
  rq_instruction :: string
  rq_grantSubset :: "grant list"
  rq_maxDepth :: int
  rq_ttl :: int

datatype dresponse = ACCEPTED dtoken string | REJECTED string

record delegation =
  nodes :: "(string, dnode) jsmap"
  tokenIdCounter :: nat

definition new_delegation :: delegation where
  "new_delegation = \<lparr>nodes = [], tokenIdCounter = 1\<rparr>"

definition token_js :: "dtoken \<Rightarrow> jsval" where
  "token_js t =
     JObj [(''tokenId'', JStr (tokenId t)), (''parentAgentId'', JStr (parentAgentId t)),
           (''childAgentId'', JStr (childAgentId t)), (''grants'', JArr (map grant_js (grants t))),
           (''maxDepth'', jint (maxDepth t)), (''ttl'', jint (ttl t)),
           (''revoked'', JBool (revoked t))]"

definition request_js :: "drequest \<Rightarrow> jsval" where
  "request_js r =
     JObj [(''requestId'', JStr (rq_requestId r)), (''parentAgentId'', JStr (rq_parentAgentId r)),
           (''taskSpec'', JObj [(''instruction'', JStr (rq_instruction r))]),
           (''grantSubset'', JArr (map grant_js (rq_grantSubset r))),
           (''maxDepth'', jint (rq_maxDepth r)), (''ttl'', jint (rq_ttl r))]"

section \<open>Operations\<close>

definition MAX_SAFE_INTEGER :: int where
  "MAX_SAFE_INTEGER = 9007199254740991"

definition initRoot :: "string \<Rightarrow> grant list \<Rightarrow> delegation \<Rightarrow> delegation" where
  "initRoot a gs d =
     (let token = \<lparr>tokenId = ''root-token-'' @ show_nat (tokenIdCounter d), parentAgentId = a,
                   childAgentId = a, grants = gs, maxDepth = 100, ttl = MAX_SAFE_INTEGER,
                   revoked = False\<rparr>;
          node = \<lparr>dn_agentId = a, dn_parentId = None, dn_children = [], dn_token = Some token\<rparr>
      in d\<lparr>tokenIdCounter := tokenIdCounter d + 1, nodes := AList.update a node (nodes d)\<rparr>)"

text \<open>\<open>g.notAfter && g.notAfter < now\<close>\<close>

definition grant_expired :: "int \<Rightarrow> grant \<Rightarrow> bool" where
  "grant_expired now g \<longleftrightarrow> \<not> no_expiry (g_notAfter g) \<and> the (g_notAfter g) < now"

definition grant_covers :: "grant \<Rightarrow> grant \<Rightarrow> bool" where
  "grant_covers over sub \<longleftrightarrow>
     (g_action over = ''*'' \<or> g_action over = g_action sub) \<and>
     (g_resource over = ''*'' \<or> g_resource over = g_resource sub) \<and>
     (no_expiry (g_notAfter over) \<or>
      \<not> no_expiry (g_notAfter sub) \<and> the (g_notAfter sub) \<le> the (g_notAfter over))"

fun grant_covered :: "int \<Rightarrow> grant \<Rightarrow> grant list \<Rightarrow> bool" where
  "grant_covered now sub [] = False"
| "grant_covered now sub (over # overs) =
     (if grant_expired now over then grant_covered now sub overs
      else if grant_covers over sub then True
      else grant_covered now sub overs)"

fun isSubset :: "int \<Rightarrow> grant list \<Rightarrow> grant list \<Rightarrow> bool" where
  "isSubset now [] superset = True"
| "isSubset now (sub # subs) superset =
     (if grant_expired now sub then False
      else if \<not> grant_covered now sub superset then False
      else isSubset now subs superset)"

definition issue_token :: "drequest \<Rightarrow> nat \<Rightarrow> dtoken" where
  "issue_token r n =
     \<lparr>tokenId = ''token-'' @ show_nat (n + 1), parentAgentId = rq_parentAgentId r,
      childAgentId = ''child-'' @ rq_parentAgentId r @ ''-'' @ show_nat n,
      grants = rq_grantSubset r, maxDepth = rq_maxDepth r, ttl = rq_ttl r, revoked = False\<rparr>"

lemma issue_token_simps [simp]:
  "grants (issue_token r n) = rq_grantSubset r" "maxDepth (issue_token r n) = rq_maxDepth r"
  "ttl (issue_token r n) = rq_ttl r" "\<not> revoked (issue_token r n)"
  by (simp_all add: issue_token_def)

definition attach_child :: "drequest \<Rightarrow> dnode \<Rightarrow> dtoken \<Rightarrow> delegation \<Rightarrow> delegation" where
  "attach_child r parent token d =
     (let c = childAgentId token;
          child = \<lparr>dn_agentId = c, dn_parentId = Some (rq_parentAgentId r), dn_children = [],
                   dn_token = Some token\<rparr>;
          parent' = parent\<lparr>dn_children := dn_children parent @ [c]\<rparr>
      in d\<lparr>tokenIdCounter := tokenIdCounter d + 2,
           nodes := AList.update c child (AList.update (rq_parentAgentId r) parent' (nodes d))\<rparr>)"

definition delegate :: "drequest \<Rightarrow> delegation \<times> world \<Rightarrow> (delegation \<times> world) \<times> dresponse" where
  "delegate r s =
     (let (d, w) = s in
      case map_of (nodes d) (rq_parentAgentId r) of
        None \<Rightarrow> (s, REJECTED ''Parent agent not found or uninitialized'')
      | Some parent \<Rightarrow>
      (case dn_token parent of
        None \<Rightarrow> (s, REJECTED ''Parent agent not found or uninitialized'')
      | Some pt \<Rightarrow>
          if revoked pt then (s, REJECTED ''Parent token is revoked'')
          else let w1 = tick_clock w in
          if date_now w > ttl pt then ((d, w1), REJECTED ''Parent token is expired'')
          else let w2 = tick_clock w1 in
          if \<not> isSubset (date_now w1) (rq_grantSubset r) (grants pt)
          then ((d, w2), REJECTED ''Requested grants escape parent bounds'')
          else if rq_maxDepth r \<ge> maxDepth pt
          then ((d, w2), REJECTED ''Requested maxDepth exceeds parent allowance'')
          else if rq_ttl r > ttl pt
          then ((d, w2), REJECTED ''Requested ttl exceeds parent ttl'')
          else
            let token = issue_token r (tokenIdCounter d);
                d1 = attach_child r parent token d;
                w3 = log_event ''DELEGATION_ISSUED'' (rq_parentAgentId r)
                       (JObj [(''request'', request_js r), (''token'', token_js token)]) w2
            in ((d1, w3), ACCEPTED token (childAgentId token))))"

definition getToken :: "delegation \<Rightarrow> string \<Rightarrow> dtoken option" where
  "getToken d a = (case map_of (nodes d) a of None \<Rightarrow> None | Some n \<Rightarrow> dn_token n)"

text \<open>The node whose revocation \<open>revoke\<close> would carry out: known, with a token not yet revoked.\<close>

definition live_node :: "delegation \<Rightarrow> string \<Rightarrow> (dnode \<times> dtoken) option" where
  "live_node d a =
     (case map_of (nodes d) a of
        None \<Rightarrow> None
      | Some n \<Rightarrow>
          (case dn_token n of
             None \<Rightarrow> None
           | Some t \<Rightarrow> if revoked t then None else Some (n, t)))"

definition mark_revoked :: "string \<Rightarrow> dnode \<Rightarrow> dtoken \<Rightarrow> delegation \<Rightarrow> delegation" where
  "mark_revoked a n t d =
     d\<lparr>nodes := AList.update a (n\<lparr>dn_token := Some (t\<lparr>revoked := True\<rparr>)\<rparr>) (nodes d)\<rparr>"

definition log_revoked :: "string \<Rightarrow> dtoken \<Rightarrow> world \<Rightarrow> world" where
  "log_revoked a t w = log_event ''DELEGATION_REVOKED'' a (JObj [(''tokenId'', JStr (tokenId t))]) w"

definition live_count :: "delegation \<Rightarrow> nat" where
  "live_count d = card {a. live_node d a \<noteq> None}"

lemma finite_live: "finite {a. live_node d a \<noteq> None}"
proof -
  have "{a. live_node d a \<noteq> None} \<subseteq> dom (map_of (nodes d))"
    by (auto simp: live_node_def split: option.splits)
  then show ?thesis using finite_dom_map_of finite_subset by blast
qed

lemma live_node_mark [simp]:
  "live_node (mark_revoked a n t d) b = (if b = a then None else live_node d b)"
  by (simp add: live_node_def mark_revoked_def)

lemma live_count_mark: "live_node d a = Some nt \<Longrightarrow> live_count (mark_revoked a n t d) < live_count d"
proof -
  assume a: "live_node d a = Some nt"
  have "{b. live_node (mark_revoked a n t d) b \<noteq> None} \<subset> {b. live_node d b \<noteq> None}"
    using a by auto
  then show ?thesis
    unfolding live_count_def by (rule psubset_card_mono [OF finite_live])
qed

function revoke_list :: "string list \<Rightarrow> delegation \<times> world \<Rightarrow> delegation \<times> world" where
  "revoke_list [] s = s"
| "revoke_list (a # as) (d, w) =
     (case live_node d a of
        None \<Rightarrow> revoke_list as (d, w)
      | Some (n, t) \<Rightarrow>
          revoke_list (dn_children n @ as) (mark_revoked a n t d, log_revoked a t w))"
  by pat_completeness auto
termination
  by (relation "measures [\<lambda>(as, s). live_count (fst s), \<lambda>(as, s). length as]")
    (auto simp: live_count_mark)

definition revoke :: "string \<Rightarrow> delegation \<times> world \<Rightarrow> delegation \<times> world" where
  "revoke a s = revoke_list [a] s"

lemma revoke_list_append: "revoke_list (as @ bs) s = revoke_list bs (revoke_list as s)"
  by (induction as s rule: revoke_list.induct) (auto split: option.splits)

lemma revoke_list_fold: "revoke_list as s = fold revoke as s"
proof (induction as arbitrary: s)
  case (Cons a as)
  then show ?case using revoke_list_append [of "[a]" as s] by (simp add: revoke_def)
qed simp

text \<open>The recursion as the source has it.\<close>

lemma revoke_rec:
  "revoke a (d, w) =
     (case live_node d a of
        None \<Rightarrow> (d, w)
      | Some (n, t) \<Rightarrow> fold revoke (dn_children n) (mark_revoked a n t d, log_revoked a t w))"
  unfolding revoke_def [of a] revoke_list_fold [symmetric] by (simp split: option.split)

section \<open>The tree and its invariant\<close>

definition edge :: "delegation \<Rightarrow> string \<Rightarrow> string \<Rightarrow> bool" where
  "edge d p c \<longleftrightarrow> (case map_of (nodes d) p of None \<Rightarrow> False | Some n \<Rightarrow> c \<in> set (dn_children n))"

definition parent_of :: "delegation \<Rightarrow> string \<Rightarrow> string option" where
  "parent_of d a = (case map_of (nodes d) a of None \<Rightarrow> None | Some n \<Rightarrow> dn_parentId n)"

definition attenuates :: "dtoken \<Rightarrow> dtoken \<Rightarrow> bool" where
  "attenuates child parent \<longleftrightarrow>
     maxDepth child < maxDepth parent \<and> ttl child \<le> ttl parent \<and>
     (\<forall>g \<in> set (grants child). \<exists>h \<in> set (grants parent). grant_covers h g)"

definition child_id :: "string \<Rightarrow> nat \<Rightarrow> string" where
  "child_id p n = ''child-'' @ p @ ''-'' @ show_nat n"

definition tree_ok :: "delegation \<Rightarrow> bool" where
  "tree_ok d \<longleftrightarrow>
     (\<forall>a. map_has (nodes d) a \<longrightarrow> getToken d a \<noteq> None) \<and>
     (\<forall>p c. edge d p c \<longleftrightarrow> parent_of d c = Some p) \<and>
     (\<forall>p c. edge d p c \<longrightarrow> attenuates (the (getToken d c)) (the (getToken d p))) \<and>
     (\<forall>p n. map_has (nodes d) (child_id p n) \<longrightarrow> n < tokenIdCounter d)"

text \<open>No revoked agent has a child that is not, except those still waiting in \<open>S\<close>.\<close>

definition cascaded :: "string set \<Rightarrow> delegation \<Rightarrow> bool" where
  "cascaded S d \<longleftrightarrow> (\<forall>p c. edge d p c \<longrightarrow> live_node d p = None \<longrightarrow> live_node d c = None \<or> c \<in> S)"

lemma child_id_inject: "child_id p n = child_id q m \<longleftrightarrow> p = q \<and> n = m"
  using last_sep_inject [of p "CHR ''-''" "show_nat n" q "show_nat m"] show_nat_no_sep(2)
  by (auto simp: child_id_def)

lemma child_id_neq: "child_id p n \<noteq> p"
proof
  assume "child_id p n = p"
  then have "length (child_id p n) = length p" by simp
  then show False by (simp add: child_id_def)
qed

lemma live_node_SomeD:
  "live_node d a = Some (n, t) \<Longrightarrow>
   map_of (nodes d) a = Some n \<and> dn_token n = Some t \<and> \<not> revoked t"
  by (auto simp: live_node_def split: option.splits if_splits)

lemma live_node_getToken:
  "live_node d a =
     (case getToken d a of
        None \<Rightarrow> None
      | Some t \<Rightarrow> if revoked t then None else Some (the (map_of (nodes d) a), t))"
  by (simp add: live_node_def getToken_def split: option.split)

lemma live_node_token:
  "tree_ok d \<Longrightarrow>
   live_node d a = None \<longleftrightarrow> (\<forall>t. getToken d a = Some t \<longrightarrow> revoked t)"
  by (simp add: live_node_getToken split: option.split)

subsection \<open>Marking a token\<close>

lemma mark_frame:
  assumes "live_node d a = Some (n, t)"
  shows "edge (mark_revoked a n t d) = edge d"
    and "parent_of (mark_revoked a n t d) = parent_of d"
    and "getToken (mark_revoked a n t d) b =
      (if b = a then Some (t\<lparr>revoked := True\<rparr>) else getToken d b)"
    and "map_has (nodes (mark_revoked a n t d)) b = map_has (nodes d) b"
    and "tokenIdCounter (mark_revoked a n t d) = tokenIdCounter d"
  using live_node_SomeD [OF assms]
  by (auto simp: mark_revoked_def edge_def parent_of_def getToken_def map_has_def fun_eq_iff
      split: option.splits)

lemma attenuates_revoked [simp]:
  "attenuates (t\<lparr>revoked := x\<rparr>) p = attenuates t p" "attenuates c (t\<lparr>revoked := x\<rparr>) = attenuates c t"
  by (simp_all add: attenuates_def)

lemma tree_ok_mark [preserve]:
  assumes "tree_ok d" and l: "live_node d a = Some (n, t)"
  shows "tree_ok (mark_revoked a n t d)"
proof -
  have "getToken d a = Some t"
    using live_node_SomeD [OF l] by (simp add: getToken_def)
  then have "attenuates (the (getToken (mark_revoked a n t d) c)) (the (getToken (mark_revoked a n t d) p)) =
      attenuates (the (getToken d c)) (the (getToken d p))" for p c
    by (simp add: mark_frame [OF l])
  then show ?thesis
    using assms(1) by (simp add: tree_ok_def mark_frame [OF l])
qed

subsection \<open>The cascade\<close>

text \<open>What the cascade leaves alone, and which tokens it marks.\<close>

definition same_tree :: "delegation \<Rightarrow> delegation \<Rightarrow> bool" where
  "same_tree d d' \<longleftrightarrow>
     edge d' = edge d \<and> parent_of d' = parent_of d \<and> tokenIdCounter d' = tokenIdCounter d \<and>
     (\<forall>a. map_option (\<lambda>t. t\<lparr>revoked := False\<rparr>) (getToken d' a) =
          map_option (\<lambda>t. t\<lparr>revoked := False\<rparr>) (getToken d a)) \<and>
     (\<forall>a. live_node d a = None \<longrightarrow> live_node d' a = None)"

lemma same_tree_refl [simp]: "same_tree d d"
  by (simp add: same_tree_def)

lemma same_tree_trans: "same_tree d e \<Longrightarrow> same_tree e f \<Longrightarrow> same_tree d f"
  by (simp add: same_tree_def)

lemma same_tree_mark: "live_node d a = Some (n, t) \<Longrightarrow> same_tree d (mark_revoked a n t d)"
  using live_node_SomeD [of d a n t]
  by (auto simp: same_tree_def mark_frame) (simp add: getToken_def)

lemma revoke_list_frame:
  "tree_ok (fst s) \<Longrightarrow>
   tree_ok (fst (revoke_list as s)) \<and> same_tree (fst s) (fst (revoke_list as s)) \<and>
   log_grows (snd s) (snd (revoke_list as s))"
proof (induction as s rule: revoke_list.induct)
  case (2 a as d w)
  show ?case
  proof (cases "live_node d a")
    case None
    then show ?thesis using 2 by simp
  next
    case (Some nt)
    obtain n t where nt: "live_node d a = Some (n, t)" using Some by (cases nt) auto
    have "log_grows w (log_revoked a t w)" by (simp add: log_revoked_def)
    then show ?thesis
      using 2(2) [of "(n, t)" n t] 2(3) nt same_tree_mark [OF nt] tree_ok_mark [OF _ nt]
      by (auto intro: same_tree_trans log_grows_trans)
  qed
qed simp

lemma revoke_list_cascaded:
  "cascaded (set as) (fst s) \<Longrightarrow>
   cascaded {} (fst (revoke_list as s)) \<and>
   (\<forall>a \<in> set as. live_node (fst (revoke_list as s)) a = None) \<and>
   (\<forall>a. live_node (fst s) a = None \<longrightarrow> live_node (fst (revoke_list as s)) a = None)"
proof (induction as s rule: revoke_list.induct)
  case (2 a as d w)
  show ?case
  proof (cases "live_node d a")
    case None
    then have "cascaded (set as) d" using 2(3) by (auto simp: cascaded_def)
    then show ?thesis using None 2(1) by simp
  next
    case (Some nt)
    obtain n t where nt: "live_node d a = Some (n, t)" using Some by (cases nt) auto
    have "cascaded (set (dn_children n @ as)) (mark_revoked a n t d)"
      unfolding cascaded_def
    proof (intro allI impI)
      fix p c
      assume e: "edge (mark_revoked a n t d) p c" and dead: "live_node (mark_revoked a n t d) p = None"
      then have "edge d p c" by (simp add: mark_frame [OF nt])
      then show "live_node (mark_revoked a n t d) c = None \<or> c \<in> set (dn_children n @ as)"
      proof (cases "p = a")
        case True
        then show ?thesis using \<open>edge d p c\<close> live_node_SomeD [OF nt] by (simp add: edge_def)
      next
        case False
        then have "live_node d p = None" using dead by simp
        then have "live_node d c = None \<or> c \<in> insert a (set as)"
          using 2(3) \<open>edge d p c\<close> by (auto simp only: cascaded_def fst_conv list.simps)
        then show ?thesis by auto
      qed
    qed
    then have "cascaded {} (fst (revoke_list (dn_children n @ as) (mark_revoked a n t d, log_revoked a t w))) \<and>
        (\<forall>b \<in> set (dn_children n @ as).
           live_node (fst (revoke_list (dn_children n @ as) (mark_revoked a n t d, log_revoked a t w))) b = None) \<and>
        (\<forall>b. live_node (mark_revoked a n t d) b = None \<longrightarrow>
           live_node (fst (revoke_list (dn_children n @ as) (mark_revoked a n t d, log_revoked a t w))) b = None)"
      using 2(2) [of "(n, t)" n t] nt by simp
    then show ?thesis using nt by simp
  qed
qed simp

text \<open>Only descendants of the pending agents are revoked, and one entry is logged for each.\<close>

definition newly_revoked :: "delegation \<Rightarrow> delegation \<Rightarrow> string set" where
  "newly_revoked d d' = {a. live_node d a \<noteq> None \<and> live_node d' a = None}"

lemma newly_revoked_same [simp]: "newly_revoked d d = {}"
  unfolding newly_revoked_def by blast

lemma revoke_list_descendants:
  "tree_ok (fst s) \<Longrightarrow> a \<in> newly_revoked (fst s) (fst (revoke_list as s)) \<Longrightarrow>
   \<exists>x \<in> set as. (edge (fst s))\<^sup>*\<^sup>* x a"
proof (induction as s rule: revoke_list.induct)
  case (2 x as d w)
  show ?case
  proof (cases "live_node d x")
    case None
    then show ?thesis using 2 by auto
  next
    case (Some nt)
    obtain n t where nt: "live_node d x = Some (n, t)" using Some by (cases nt) auto
    let ?d = "mark_revoked x n t d"
    have child: "edge d x c" if "c \<in> set (dn_children n)" for c
      using that live_node_SomeD [OF nt] by (simp add: edge_def)
    show ?thesis
    proof (cases "a = x")
      case False
      then have "a \<in> newly_revoked ?d (fst (revoke_list (dn_children n @ as) (?d, log_revoked x t w)))"
        using 2(4) nt by (simp add: newly_revoked_def)
      then obtain y where "y \<in> set (dn_children n @ as)" "(edge d)\<^sup>*\<^sup>* y a"
        using 2(2) [of "(n, t)" n t] 2(3) nt tree_ok_mark [OF _ nt] mark_frame(1) [OF nt] by auto
      then show ?thesis
        using child by (auto intro: converse_rtranclp_into_rtranclp)
    qed auto
  qed
qed simp

definition revocation_of :: "log_entry \<Rightarrow> bool" where
  "revocation_of e \<longleftrightarrow> le_kind e = ''DELEGATION_REVOKED''"

lemma revoke_list_mono:
  "live_node (fst s) a = None \<Longrightarrow> live_node (fst (revoke_list as s)) a = None"
  by (induction as s rule: revoke_list.induct) (auto split: option.split)

lemma revoke_list_log:
  "\<exists>es. wlogs (snd (revoke_list as s)) = wlogs (snd s) @ es \<and>
     list_all revocation_of es \<and> distinct (map le_agentId es) \<and>
     set (map le_agentId es) = newly_revoked (fst s) (fst (revoke_list as s))"
proof (induction as s rule: revoke_list.induct)
  case (1 s)
  show ?case by (rule exI [of _ "[]"]) simp
next
  case (2 a as d w)
  show ?case
  proof (cases "live_node d a")
    case None
    then show ?thesis using 2 by simp
  next
    case (Some nt)
    obtain n t where nt: "live_node d a = Some (n, t)" using Some by (cases nt) auto
    let ?s = "(mark_revoked a n t d, log_revoked a t w)"
    let ?d = "fst (revoke_list (dn_children n @ as) ?s)"
    obtain es where es: "wlogs (snd (revoke_list (dn_children n @ as) ?s)) = wlogs (snd ?s) @ es"
      "list_all revocation_of es" "distinct (map le_agentId es)"
      "set (map le_agentId es) = newly_revoked (fst ?s) ?d"
      using 2(2) [of "(n, t)" n t] nt by auto
    obtain e where e: "wlogs (log_revoked a t w) = wlogs w @ [e]" "revocation_of e" "le_agentId e = a"
      by (auto simp: log_revoked_def revocation_of_def)
    have dead: "live_node ?d a = None"
      using revoke_list_mono by simp
    have "newly_revoked d ?d = insert a (newly_revoked (fst ?s) ?d)"
      using nt dead by (auto simp: newly_revoked_def)
    moreover have "a \<notin> newly_revoked (fst ?s) ?d" by (simp add: newly_revoked_def)
    ultimately show ?thesis
      using es e nt by (intro exI [of _ "e # es"]) simp
  qed
qed

subsection \<open>Subsets of grants\<close>

lemma grant_covered_covers: "grant_covered now c gs \<Longrightarrow> \<exists>h \<in> set gs. grant_covers h c"
  by (induction now c gs rule: grant_covered.induct) (auto split: if_splits)

lemma isSubset_iff:
  "isSubset now cs gs \<longleftrightarrow> (\<forall>c \<in> set cs. \<not> grant_expired now c \<and> grant_covered now c gs)"
  by (induction now cs gs rule: isSubset.induct) auto

lemma grant_covers_matches:
  "grant_covers h g \<Longrightarrow> grant_matches act res now g \<Longrightarrow> grant_matches act res now h"
  by (auto simp: grant_covers_def grant_matches_def)

lemma attenuates_authority:
  "attenuates t u \<Longrightarrow> has_valid_grant act res now (grants t) \<Longrightarrow> has_valid_grant act res now (grants u)"
  using grant_covers_matches by (fastforce simp: attenuates_def has_valid_grant_iff)

subsection \<open>delegate\<close>

text \<open>The conditions under which a request is granted.\<close>

definition delegable :: "drequest \<Rightarrow> delegation \<Rightarrow> world \<Rightarrow> dtoken \<Rightarrow> bool" where
  "delegable r d w pt \<longleftrightarrow>
     getToken d (rq_parentAgentId r) = Some pt \<and> \<not> revoked pt \<and> date_now w \<le> ttl pt \<and>
     isSubset (date_now (tick_clock w)) (rq_grantSubset r) (grants pt) \<and>
     rq_maxDepth r < maxDepth pt \<and> rq_ttl r \<le> ttl pt"

lemma delegate_cases:
  obtains (accepted) pn pt d' w' where "delegable r d w pt"
      "map_of (nodes d) (rq_parentAgentId r) = Some pn" "dn_token pn = Some pt"
      "delegate r (d, w) =
         ((d', w'), ACCEPTED (issue_token r (tokenIdCounter d)) (child_id (rq_parentAgentId r) (tokenIdCounter d)))"
      "d' = attach_child r pn (issue_token r (tokenIdCounter d)) d"
      "\<exists>e. wlogs w' = wlogs w @ [e] \<and> le_kind e = ''DELEGATION_ISSUED'' \<and>
         le_agentId e = rq_parentAgentId r"
      "log_grows w w'"
  | (refused) reason w' where "\<And>pt. \<not> delegable r d w pt"
      "delegate r (d, w) = ((d, w'), REJECTED reason)" "wlogs w' = wlogs w" "log_grows w w'"
proof (cases "map_of (nodes d) (rq_parentAgentId r)")
  case None
  then show ?thesis
    using refused [where w' = w] by (auto simp: delegate_def delegable_def getToken_def)
next
  case (Some pn)
  show ?thesis
  proof (cases "dn_token pn")
    case None
    then show ?thesis
      using refused [where w' = w] Some by (auto simp: delegate_def delegable_def getToken_def)
  next
    case (Some pt)
    have tok: "getToken d (rq_parentAgentId r) = Some pt"
      using Some \<open>map_of (nodes d) (rq_parentAgentId r) = Some pn\<close> by (simp add: getToken_def)
    let ?w1 = "tick_clock w" and ?t = "issue_token r (tokenIdCounter d)"
    let ?w2 = "tick_clock ?w1"
    let ?w3 = "log_event ''DELEGATION_ISSUED'' (rq_parentAgentId r)
       (JObj [(''request'', request_js r), (''token'', token_js ?t)]) ?w2"
    have g: "log_grows w ?w2" "log_grows w ?w3"
      by (blast intro: log_grows_trans log_grows_tick log_grows_event)+
    show ?thesis
    proof (cases "delegable r d w pt")
      case True
      then have "delegate r (d, w) = ((attach_child r pn ?t d, ?w3),
          ACCEPTED ?t (child_id (rq_parentAgentId r) (tokenIdCounter d)))"
        using Some \<open>map_of (nodes d) (rq_parentAgentId r) = Some pn\<close>
        by (simp add: delegate_def delegable_def tok Let_def issue_token_def child_id_def)
      then show ?thesis
        using accepted [OF True \<open>map_of (nodes d) (rq_parentAgentId r) = Some pn\<close> Some] g by auto
    next
      case False
      have "\<exists>reason w'. delegate r (d, w) = ((d, w'), REJECTED reason) \<and> w' \<in> {w, ?w1, ?w2}"
        using False Some \<open>map_of (nodes d) (rq_parentAgentId r) = Some pn\<close>
        by (auto simp: delegate_def delegable_def tok Let_def)
      then show ?thesis
        using False g tok by (auto intro!: refused simp: delegable_def)
    qed
  qed
qed

lemma attach_child_frame:
  assumes pn: "map_of (nodes d) p = Some pn" and r: "rq_parentAgentId r = p"
    and c: "childAgentId t = c" and new: "\<not> map_has (nodes d) c"
  shows "edge (attach_child r pn t d) q x \<longleftrightarrow> edge d q x \<or> q = p \<and> x = c"
    and "parent_of (attach_child r pn t d) x = (if x = c then Some p else parent_of d x)"
    and "getToken (attach_child r pn t d) x = (if x = c then Some t else getToken d x)"
    and "map_has (nodes (attach_child r pn t d)) x \<longleftrightarrow> x = c \<or> map_has (nodes d) x"
    and "tokenIdCounter (attach_child r pn t d) = tokenIdCounter d + 2"
proof -
  have "c \<noteq> p" using pn new by (auto simp: map_has_def)
  moreover have "map_of (nodes d) c = None" using new by (simp add: map_has_def)
  ultimately show "edge (attach_child r pn t d) q x \<longleftrightarrow> edge d q x \<or> q = p \<and> x = c"
    and "parent_of (attach_child r pn t d) x = (if x = c then Some p else parent_of d x)"
    and "getToken (attach_child r pn t d) x = (if x = c then Some t else getToken d x)"
    and "map_has (nodes (attach_child r pn t d)) x \<longleftrightarrow> x = c \<or> map_has (nodes d) x"
    and "tokenIdCounter (attach_child r pn t d) = tokenIdCounter d + 2"
    using pn r c
    by (auto simp: attach_child_def Let_def edge_def parent_of_def getToken_def map_has_def
        split: option.splits)
qed

section \<open>Reachable trees\<close>

text \<open>Any interleaving of the operations, with other components using the log in between.
  Roots are agents not yet in the tree whose id is not of the form the protocol gives to
  children.\<close>

inductive deleg_reach :: "delegation \<times> world \<Rightarrow> bool" where
  start: "deleg_reach (new_delegation, w)"
| root: "deleg_reach (d, w) \<Longrightarrow> \<not> map_has (nodes d) a \<Longrightarrow> take 6 a \<noteq> ''child-'' \<Longrightarrow>
    deleg_reach (initRoot a gs d, w)"
| delegates: "deleg_reach s \<Longrightarrow> deleg_reach (fst (delegate r s))"
| revokes: "deleg_reach s \<Longrightarrow> deleg_reach (revoke a s)"
| others: "deleg_reach (d, w) \<Longrightarrow> log_grows w w' \<Longrightarrow> deleg_reach (d, w')"

definition deleg_ok :: "delegation \<Rightarrow> bool" where
  "deleg_ok d \<longleftrightarrow> tree_ok d \<and> cascaded {} d"

lemma deleg_ok_new: "deleg_ok new_delegation"
  by (simp add: deleg_ok_def tree_ok_def cascaded_def new_delegation_def edge_def parent_of_def map_has_def)

lemma initRoot_frame:
  assumes "\<not> map_has (nodes d) a"
  shows "edge (initRoot a gs d) = edge d" "parent_of (initRoot a gs d) = parent_of d"
    "getToken (initRoot a gs d) x =
      (if x = a then Some \<lparr>tokenId = ''root-token-'' @ show_nat (tokenIdCounter d), parentAgentId = a,
         childAgentId = a, grants = gs, maxDepth = 100, ttl = MAX_SAFE_INTEGER, revoked = False\<rparr>
       else getToken d x)"
    "map_has (nodes (initRoot a gs d)) x \<longleftrightarrow> x = a \<or> map_has (nodes d) x"
    "tokenIdCounter (initRoot a gs d) = tokenIdCounter d + 1"
  using assms
  by (auto simp: initRoot_def edge_def parent_of_def getToken_def map_has_def Let_def fun_eq_iff
      split: option.splits)

lemma edge_known: "tree_ok d \<Longrightarrow> edge d p c \<Longrightarrow> map_has (nodes d) p \<and> map_has (nodes d) c"
  by (metis edge_def map_has_def option.case(1) option.distinct(1) parent_of_def tree_ok_def)

lemma deleg_ok_initRoot [preserve]:
  assumes ok: "deleg_ok d" and new: "\<not> map_has (nodes d) a" and nc: "take 6 a \<noteq> ''child-''"
  shows "deleg_ok (initRoot a gs d)"
proof -
  have t: "tree_ok d" using ok by (simp add: deleg_ok_def)
  have known: "p \<noteq> a \<and> c \<noteq> a" if "edge d p c" for p c
    using edge_known [OF t that] new by auto
  have "a \<noteq> child_id p n" for p n
    using nc by (auto simp: child_id_def)
  with t known have t': "tree_ok (initRoot a gs d)"
    by (auto simp: tree_ok_def initRoot_frame [OF new] less_SucI)
  have "live_node (initRoot a gs d) x = None \<longleftrightarrow> x \<noteq> a \<and> live_node d x = None" for x
    by (auto simp: live_node_token [OF t] live_node_token [OF t'] initRoot_frame [OF new])
  with ok known t' show ?thesis
    by (auto simp: deleg_ok_def cascaded_def initRoot_frame [OF new])
qed

lemma deleg_ok_delegate [preserve]:
  assumes ok: "deleg_ok d"
  shows "deleg_ok (fst (fst (delegate r (d, w))))"
proof (cases rule: delegate_cases [of r d w])
  case (accepted pn pt d' w')
  let ?p = "rq_parentAgentId r" and ?n = "tokenIdCounter d"
  let ?c = "child_id ?p ?n" and ?t = "issue_token r ?n"
  have t: "tree_ok d" using ok by (simp add: deleg_ok_def)
  then have new: "\<not> map_has (nodes d) ?c" by (auto simp: tree_ok_def)
  have "childAgentId ?t = ?c" by (simp add: issue_token_def child_id_def)
  note fr = attach_child_frame [OF accepted(2) refl this new, folded accepted(5)]
  have att: "attenuates ?t pt"
    using accepted(1) grant_covered_covers
    by (auto simp: attenuates_def delegable_def isSubset_iff issue_token_def)
  have pt: "getToken d ?p = Some pt" "\<not> revoked pt"
    using accepted(1) by (simp_all add: delegable_def)
  have known: "p \<noteq> ?c \<and> c \<noteq> ?c" if "edge d p c" for p c
    using edge_known [OF t that] new by auto
  have np: "?p \<noteq> ?c" using child_id_neq by metis
  have "edge d' p c \<longleftrightarrow> parent_of d' c = Some p" for p c
    using t known by (auto simp: fr tree_ok_def)
  moreover have "attenuates (the (getToken d' c)) (the (getToken d' p))" if "edge d' p c" for p c
    using that t known att pt np by (auto simp: fr tree_ok_def)
  moreover have "n < tokenIdCounter d'" if "map_has (nodes d') (child_id p n)" for p n
    using that t by (auto simp: fr tree_ok_def child_id_inject less_Suc_eq)
  moreover have "getToken d' a \<noteq> None" if "map_has (nodes d') a" for a
    using that t by (auto simp: fr tree_ok_def)
  ultimately have t': "tree_ok d'"
    unfolding tree_ok_def by blast
  have live: "live_node d' x = None \<longleftrightarrow> x \<noteq> ?c \<and> live_node d x = None" for x
    by (auto simp: live_node_token [OF t] live_node_token [OF t'] fr issue_token_def)
  have "live_node d ?p \<noteq> None" using pt by (simp add: live_node_token [OF t])
  with ok known have "cascaded {} d'"
    by (auto simp: deleg_ok_def cascaded_def fr live)
  with t' accepted(4) show ?thesis by (simp add: deleg_ok_def)
qed (use ok in simp)

lemma deleg_ok_revoke_list [preserve]: "deleg_ok (fst s) \<Longrightarrow> deleg_ok (fst (revoke_list as s))"
  using revoke_list_frame [of s as] revoke_list_cascaded [of as s]
  by (auto simp: deleg_ok_def cascaded_def)

lemma deleg_reach_ok: "deleg_reach s \<Longrightarrow> deleg_ok (fst s)"
proof (induction rule: deleg_reach.induct)
  case (delegates s r)
  then show ?case using deleg_ok_delegate [of "fst s" r "snd s"] by simp
qed (simp_all add: deleg_ok_new deleg_ok_initRoot deleg_ok_revoke_list revoke_def)

lemma deleg_ok_edge:
  assumes "deleg_ok d" and "edge d p c"
  obtains pt ct where "getToken d p = Some pt" "getToken d c = Some ct" "attenuates ct pt"
    "revoked pt \<Longrightarrow> revoked ct"
proof -
  have t: "tree_ok d" and c: "cascaded {} d" using assms(1) by (simp_all add: deleg_ok_def)
  have "getToken d x \<noteq> None" if "map_has (nodes d) x" for x
    using t that unfolding tree_ok_def by blast
  then have "getToken d p \<noteq> None" "getToken d c \<noteq> None"
    using edge_known [OF t assms(2)] by blast+
  then obtain pt ct where tok: "getToken d p = Some pt" "getToken d c = Some ct"
    unfolding not_None_eq by blast
  have "attenuates (the (getToken d c)) (the (getToken d p))"
    using t assms(2) unfolding tree_ok_def by blast
  moreover have "revoked ct" if "revoked pt"
  proof -
    have "live_node d p = None" using that tok by (simp add: live_node_token [OF t])
    then have "live_node d c = None" using c assms(2) unfolding cascaded_def by blast
    then show ?thesis using tok by (simp add: live_node_token [OF t])
  qed
  ultimately show ?thesis
    using that [of pt ct] tok by simp
qed

lemma deleg_ok_descendant:
  assumes ok: "deleg_ok d" and path: "(edge d)\<^sup>*\<^sup>* p c" and pt: "getToken d p = Some pt"
  obtains ct where "getToken d c = Some ct" "revoked pt \<Longrightarrow> revoked ct" "ttl ct \<le> ttl pt"
    "c = p \<or> maxDepth ct < maxDepth pt"
    "\<And>act res now. has_valid_grant act res now (grants ct) \<Longrightarrow> has_valid_grant act res now (grants pt)"
proof -
  have "\<exists>ct. getToken d c = Some ct \<and> (revoked pt \<longrightarrow> revoked ct) \<and> ttl ct \<le> ttl pt \<and>
      (c = p \<or> maxDepth ct < maxDepth pt) \<and>
      (\<forall>act res now. has_valid_grant act res now (grants ct) \<longrightarrow> has_valid_grant act res now (grants pt))"
    using path
  proof (induction rule: rtranclp_induct)
    case base
    then show ?case using pt by simp
  next
    case (step y z)
    obtain yt zt where e: "getToken d y = Some yt" "getToken d z = Some zt" "attenuates zt yt"
      "revoked yt \<Longrightarrow> revoked zt"
      using deleg_ok_edge [OF ok step(2)] by metis
    then show ?case
      using step attenuates_authority [OF e(3)] pt by (auto simp: attenuates_def)
  qed
  then show ?thesis using that by blast
qed

lemma cascaded_path:
  "cascaded {} d \<Longrightarrow> (edge d)\<^sup>*\<^sup>* a b \<Longrightarrow> live_node d a = None \<Longrightarrow> live_node d b = None"
  by (erule rtranclp_induct) (auto simp: cascaded_def)

lemma revoke_dead:
  assumes ok: "deleg_ok d"
  shows "live_node (fst (revoke a (d, w))) b = None \<longleftrightarrow> live_node d b = None \<or> (edge d)\<^sup>*\<^sup>* a b"
proof -
  let ?d = "fst (revoke a (d, w))"
  have "tree_ok d" "cascaded (set [a]) d" using ok by (auto simp: deleg_ok_def cascaded_def)
  then have "same_tree d ?d" "cascaded {} ?d" "live_node ?d a = None"
    "live_node d b = None \<Longrightarrow> live_node ?d b = None"
    and new: "b \<in> newly_revoked d ?d \<Longrightarrow> (edge d)\<^sup>*\<^sup>* a b"
    using revoke_list_frame [of "(d, w)" "[a]"] revoke_list_cascaded [of "[a]" "(d, w)"]
      revoke_list_descendants [of "(d, w)" b "[a]"]
    unfolding revoke_def by auto
  then have "(edge d)\<^sup>*\<^sup>* a b \<Longrightarrow> live_node ?d b = None"
    using cascaded_path [of ?d a b] by (simp add: same_tree_def)
  then show ?thesis
    using \<open>live_node d b = None \<Longrightarrow> live_node ?d b = None\<close> new
    unfolding newly_revoked_def by blast
qed

lemma token_unmarked:
  "(t :: dtoken)\<lparr>revoked := False\<rparr> = u\<lparr>revoked := False\<rparr> \<Longrightarrow> t = u\<lparr>revoked := revoked t\<rparr>"
  by (cases t; cases u) simp

lemma revoke_token:
  assumes ok: "deleg_ok d"
  shows "getToken (fst (revoke a (d, w))) b =
    map_option (\<lambda>t. t\<lparr>revoked := revoked t \<or> (edge d)\<^sup>*\<^sup>* a b\<rparr>) (getToken d b)"
proof -
  let ?d = "fst (revoke a (d, w))"
  have t: "tree_ok d" "tree_ok ?d" and same: "same_tree d ?d"
    using ok revoke_list_frame [of "(d, w)" "[a]"] by (auto simp: deleg_ok_def revoke_def)
  have u: "map_option (\<lambda>t. t\<lparr>revoked := False\<rparr>) (getToken ?d b) =
      map_option (\<lambda>t. t\<lparr>revoked := False\<rparr>) (getToken d b)"
    using same by (simp only: same_tree_def)
  show ?thesis
  proof (cases "getToken d b")
    case (Some x)
    then obtain y where y: "getToken ?d b = Some y" "y\<lparr>revoked := False\<rparr> = x\<lparr>revoked := False\<rparr>"
      using u by auto
    have "revoked y \<longleftrightarrow> revoked x \<or> (edge d)\<^sup>*\<^sup>* a b"
      using revoke_dead [OF ok, of a w b] Some y(1)
      by (simp add: live_node_token [OF t(1)] live_node_token [OF t(2)])
    then show ?thesis using token_unmarked [OF y(2)] Some y(1) by simp
  qed (use u in simp)
qed

lemma revoke_idem: "revoke a (revoke a s) = revoke a s"
proof -
  obtain d w where s: "revoke a s = (d, w)" by fastforce
  have "live_node (fst (revoke_list [a] s)) a = None"
  proof (cases s)
    case (Pair d w)
    show ?thesis
    proof (cases "live_node d a")
      case (Some nt)
      then show ?thesis using Pair by (cases nt) (simp add: revoke_list_mono)
    qed (use Pair in simp)
  qed
  then have "live_node d a = None" using s by (simp only: revoke_def fst_conv)
  then show ?thesis using s by (simp add: revoke_rec)
qed

section \<open>A concrete tree\<close>

text \<open>A root and one child, for the witnesses.\<close>

definition demo_grant :: grant where
  "demo_grant = \<lparr>g_action = ''*'', g_resource = ''*'', g_notAfter = None\<rparr>"

definition demo_request :: drequest where
  "demo_request =
     \<lparr>rq_requestId = ''q'', rq_parentAgentId = ''r'', rq_instruction = ''i'',
      rq_grantSubset = [\<lparr>g_action = ''read'', g_resource = ''doc'', g_notAfter = None\<rparr>],
      rq_maxDepth = 5, rq_ttl = 50\<rparr>"

definition demo_root :: "delegation \<times> world" where
  "demo_root = (initRoot ''r'' [demo_grant] new_delegation, new_world int)"

definition demo_tree :: "delegation \<times> world" where
  "demo_tree = fst (delegate demo_request demo_root)"

lemma demo_root_reach: "deleg_reach (fst demo_root, snd demo_root)"
  by (simp add: demo_root_def, rule root [OF start]) (simp_all add: new_delegation_def map_has_def)

lemma demo_tree_reach: "deleg_reach (fst demo_tree, snd demo_tree)"
  using delegates [OF demo_root_reach, of demo_request] by (simp add: demo_tree_def)

lemma demo_tree_eval:
  "edge (fst demo_tree) ''r'' ''child-r-2''"
  "map_option revoked (getToken (fst demo_tree) ''r'') = Some False"
  "map_option maxDepth (getToken (fst demo_tree) ''r'') = Some 100"
  "map_option revoked (getToken (fst demo_tree) ''child-r-2'') = Some False"
  by (simp_all add: demo_tree_def demo_root_def demo_request_def demo_grant_def delegate_def
      initRoot_def new_delegation_def new_world_def date_now_def tick_clock_def no_expiry_def
      grant_expired_def grant_covers_def issue_token_def attach_child_def edge_def getToken_def
      MAX_SAFE_INTEGER_def Let_def show_nat.simps digit_char_def)

lemma demo_path: "(edge (fst demo_tree))\<^sup>*\<^sup>* ''r'' ''child-r-2''"
  using demo_tree_eval(1) by (rule r_into_rtranclp)

section \<open>Properties\<close>

text \<open>C14: Authority only shrinks along the tree. In every reachable tree a descendant's token has
  an expiry no later, a strictly smaller \<open>maxDepth\<close> and is revoked if the ancestor's is; and
  at any time whatever action the policy evaluation allows on the strength of the descendant's
  grants, it allows on the strength of the ancestor's.\<close>

theorem delegation_attenuates:
  assumes "deleg_reach (d, w)" and "(edge d)\<^sup>*\<^sup>* p c" and "getToken d p = Some pt"
  shows "\<exists>ct. getToken d c = Some ct \<and> ttl ct \<le> ttl pt \<and>
    (c = p \<or> maxDepth ct < maxDepth pt) \<and> (revoked pt \<longrightarrow> revoked ct) \<and>
    (\<forall>act res w'. snd (evaluate c act res (grants ct) [] w') = ALLOW \<longrightarrow>
       snd (evaluate p act res (grants pt) [] w') = ALLOW)"
proof -
  have ok: "deleg_ok d" using deleg_reach_ok [OF assms(1)] by simp
  obtain ct where "getToken d c = Some ct" "revoked pt \<Longrightarrow> revoked ct" "ttl ct \<le> ttl pt"
    "c = p \<or> maxDepth ct < maxDepth pt" and
    auth: "\<And>act res now. has_valid_grant act res now (grants ct) \<Longrightarrow> has_valid_grant act res now (grants pt)"
    using deleg_ok_descendant [OF ok assms(2,3)] by metis
  moreover have "snd (evaluate a act res gs [] w') = ALLOW \<longleftrightarrow> has_valid_grant act res (date_now w') gs"
    for a act res gs w'
    by (simp add: evaluate_decision decision_def has_valid_grant_iff)
  ultimately show ?thesis by blast
qed

theorem delegation_attenuates_witness:
  "\<exists>ct. getToken (fst demo_tree) ''child-r-2'' = Some ct \<and> maxDepth ct < 100"
proof -
  obtain pt where pt: "getToken (fst demo_tree) ''r'' = Some pt" "maxDepth pt = 100"
    using demo_tree_eval(3) by auto
  show ?thesis
    using delegation_attenuates [OF demo_tree_reach demo_path pt(1)] pt
    by auto
qed

text \<open>C15: \<open>revoke\<close> is exactly the cascade. In every reachable tree it sets the flag of the agent
  and of all its descendants, whatever the shape of the tree, and changes nothing else of any
  token or of the tree; it logs one entry for each agent whose token it revoked and none for
  the others; and doing it again changes nothing.\<close>

theorem revoke_exact:
  assumes "deleg_reach (d, w)"
  shows "case revoke a (d, w) of (d', w') \<Rightarrow>
    (\<forall>b. getToken d' b =
       map_option (\<lambda>t. t\<lparr>revoked := revoked t \<or> (edge d)\<^sup>*\<^sup>* a b\<rparr>) (getToken d b)) \<and>
    edge d' = edge d \<and>
    (\<exists>es. wlogs w' = wlogs w @ es \<and> (\<forall>e \<in> set es. le_kind e = ''DELEGATION_REVOKED'') \<and>
       distinct (map le_agentId es) \<and>
       set (map le_agentId es) =
         {b. (edge d)\<^sup>*\<^sup>* a b \<and> (\<exists>t. getToken d b = Some t \<and> \<not> revoked t)}) \<and>
    revoke a (d', w') = (d', w')"
proof -
  have ok: "deleg_ok d" using deleg_reach_ok [OF assms] by simp
  then have t: "tree_ok d" by (simp add: deleg_ok_def)
  obtain d' w' where r: "revoke a (d, w) = (d', w')" by fastforce
  have "newly_revoked d d' = {b. (edge d)\<^sup>*\<^sup>* a b \<and> (\<exists>t. getToken d b = Some t \<and> \<not> revoked t)}"
    using revoke_dead [OF ok, of a w] live_node_token [OF t] r
    unfolding newly_revoked_def by auto
  moreover obtain es where "wlogs w' = wlogs w @ es" "list_all revocation_of es"
    "distinct (map le_agentId es)" "set (map le_agentId es) = newly_revoked d d'"
    using revoke_list_log [of "[a]" "(d, w)"] r by (auto simp: revoke_def)
  moreover have "edge d' = edge d"
    using revoke_list_frame [of "(d, w)" "[a]"] t r by (simp add: revoke_def same_tree_def)
  moreover have "revoke a (d', w') = (d', w')"
    using revoke_idem [of a "(d, w)"] r by simp
  ultimately show ?thesis
    using revoke_token [OF ok, of a w] r by (auto simp: list_all_iff revocation_of_def)
qed

theorem revoke_exact_witness:
  "case revoke ''r'' demo_tree of (d', w') \<Rightarrow>
     map_option revoked (getToken d' ''child-r-2'') = Some True"
  using revoke_exact [OF demo_tree_reach, of "''r''"] demo_tree_eval(4) demo_path
  by (auto simp: option.map_comp o_def split: prod.splits)

text \<open>C22: A request is granted exactly when the parent's token exists, is neither revoked nor
  expired, covers every requested grant, and allows the depth and the expiry asked for. The
  child's token then carries what was requested under a fresh id, the parent gets that one
  child, every other token is unchanged and one entry is logged; a refusal changes neither the
  tree nor the log.\<close>

theorem delegate_spec:
  assumes "deleg_reach (d, w)"
  shows "case delegate r (d, w) of ((d', w'), resp) \<Rightarrow>
    (case resp of
       ACCEPTED t c \<Rightarrow>
         (\<exists>pt. delegable r d w pt) \<and> getToken d c = None \<and> getToken d' c = Some t \<and>
         grants t = rq_grantSubset r \<and> maxDepth t = rq_maxDepth r \<and> ttl t = rq_ttl r \<and>
         \<not> revoked t \<and> (\<forall>b. b = c \<or> getToken d' b = getToken d b) \<and>
         (\<forall>p x. edge d' p x \<longleftrightarrow> edge d p x \<or> p = rq_parentAgentId r \<and> x = c) \<and>
         length (wlogs w') = Suc (length (wlogs w))
     | REJECTED reason \<Rightarrow> (\<nexists>pt. delegable r d w pt) \<and> d' = d \<and> wlogs w' = wlogs w)"
proof (cases rule: delegate_cases [of r d w])
  case (accepted pn pt d' w')
  have t: "tree_ok d" using deleg_reach_ok [OF assms] by (simp add: deleg_ok_def)
  then have new: "\<not> map_has (nodes d) (child_id (rq_parentAgentId r) (tokenIdCounter d))"
    by (auto simp: tree_ok_def)
  have "childAgentId (issue_token r (tokenIdCounter d)) =
      child_id (rq_parentAgentId r) (tokenIdCounter d)"
    by (simp add: issue_token_def child_id_def)
  note fr = attach_child_frame [OF accepted(2) refl this new, folded accepted(5)]
  have "getToken d (child_id (rq_parentAgentId r) (tokenIdCounter d)) = None"
    using new by (simp add: getToken_def map_has_def)
  then show ?thesis
    using accepted(1,4,6) by (auto simp: fr)
qed simp

text \<open>At time 0, a live token is extended by a child with any smaller \<open>maxDepth\<close>.\<close>

lemma chain_step:
  assumes reach: "deleg_reach (d, w)" and b: "getToken d b = Some bt" "\<not> revoked bt" "0 \<le> ttl bt"
    and m: "m < maxDepth bt"
  shows "\<exists>d' w' c ct. deleg_reach (d', w') \<and> edge d \<le> edge d' \<and> edge d' b c \<and>
    (\<forall>x t. getToken d x = Some t \<longrightarrow> getToken d' x = Some t) \<and>
    getToken d' c = Some ct \<and> \<not> revoked ct \<and> ttl ct = 0 \<and> maxDepth ct = m"
proof -
  let ?r = "\<lparr>rq_requestId = [], rq_parentAgentId = b, rq_instruction = [], rq_grantSubset = [],
             rq_maxDepth = m, rq_ttl = 0\<rparr>"
  let ?w = "w\<lparr>wclock := (\<lambda>_. 0)\<rparr>"
  have reach0: "deleg_reach (d, ?w)"
    by (rule others [OF reach]) (simp add: log_grows_def)
  have ok: "delegable ?r d ?w bt"
    using b m by (simp add: delegable_def date_now_def)
  obtain d' w' t c where dw: "delegate ?r (d, ?w) = ((d', w'), ACCEPTED t c)"
    using ok by (cases rule: delegate_cases [of ?r d ?w]) auto
  have "deleg_reach (d', w')"
    using delegates [OF reach0, of ?r] dw by simp
  moreover have "getToken d x = Some u \<Longrightarrow> getToken d' x = Some u" for x u
    using delegate_spec [OF reach0, of ?r] dw by (cases "x = c") auto
  moreover have "edge d \<le> edge d'" "edge d' b c" "getToken d' c = Some t" "\<not> revoked t"
    "ttl t = 0" "maxDepth t = m"
    using delegate_spec [OF reach0, of ?r] dw by auto
  ultimately show ?thesis by blast
qed

lemma chain_below_zero:
  "\<exists>d w a at b bt. deleg_reach (d, w) \<and> getToken d a = Some at \<and> maxDepth at = 0 \<and>
     (edge d ^^ n) a b \<and> getToken d b = Some bt \<and> \<not> revoked bt \<and> ttl bt = 0"
proof (induction n)
  case 0
  have reach: "deleg_reach (initRoot ''r'' [] new_delegation, new_world int)"
    by (rule root [OF start]) (simp_all add: new_delegation_def map_has_def)
  have new: "\<not> map_has (nodes new_delegation) ''r''"
    by (simp add: new_delegation_def map_has_def)
  obtain d w c ct where "deleg_reach (d, w)" "getToken d c = Some ct" "\<not> revoked ct"
    "ttl ct = 0" "maxDepth ct = 0"
    using chain_step [OF reach, of "''r''" _ 0] initRoot_frame(3) [OF new, of "[]" "''r''"]
    by (auto simp: MAX_SAFE_INTEGER_def)
  then show ?case by (auto intro!: exI [of _ d] exI [of _ c])
next
  case (Suc n)
  then obtain d w a "at" b bt where IH: "deleg_reach (d, w)" "getToken d a = Some at"
    "maxDepth at = 0" "(edge d ^^ n) a b" "getToken d b = Some bt" "\<not> revoked bt" "ttl bt = 0"
    by blast
  obtain d' w' c ct where "deleg_reach (d', w')" "edge d \<le> edge d'" "edge d' b c"
    "getToken d' a = Some at" "getToken d' c = Some ct" "\<not> revoked ct" "ttl ct = 0"
    using chain_step [OF IH(1,5,6), of "maxDepth bt - 1"] IH(2,7) by auto
  moreover have "(edge d' ^^ n) a b"
    using IH(4) \<open>edge d \<le> edge d'\<close> relpowp_mono [of "edge d" "edge d'"] by blast
  ultimately show ?case using IH(3) by (auto intro!: exI)
qed

theorem delegate_spec_witness:
  "case delegate demo_request demo_root of ((d', w'), resp) \<Rightarrow>
     length (wlogs w') = (case resp of ACCEPTED t c \<Rightarrow> 1 | REJECTED r \<Rightarrow> 0)"
proof -
  have "wlogs (snd demo_root) = []"
    by (simp add: demo_root_def new_world_def new_logger_def)
  then show ?thesis
    using delegate_spec [OF demo_root_reach, of demo_request]
    by (auto split: prod.splits dresponse.splits)
qed

text \<open>\<open>maxDepth\<close> does not bound the depth of the tree. Below a token with \<open>maxDepth\<close> 0, which
  delegation/types.ts says allows no further delegation, chains of every length are reachable,
  because a request may ask for a negative \<open>maxDepth\<close>.\<close>

theorem depth_not_bounded:
  "\<exists>d w a at b. deleg_reach (d, w) \<and> getToken d a = Some at \<and> maxDepth at = 0 \<and> (edge d ^^ n) a b"
  using chain_below_zero [of n] by blast

end
