(* ===== verification/Failure.thy ===== *)
theory Failure
  imports Delegation Lifecycle
begin

text \<open>
  Failure classification and recovery: failure/types.ts and failure/handler.ts
  (\<open>FailureHandler\<close>), and the adapter kernel/index.ts builds for it.

  The handler is given its lifecycle controller as the interface \<open>ILifecycleController\<close>; the
  definitions take that operation as the argument \<open>halt\<close>, and the locale \<open>halting\<close> states what
  the handler relies on. \<open>OtherClass s\<close> is a class outside the type, which the \<open>default\<close> case
  handles. When \<open>halt\<close> throws, the exception leaves \<open>handle\<close>, with everything done before it
  kept.
\<close>

section \<open>Failures\<close>

datatype failure_class =
  TRANSIENT | PERMANENT | POLICY_VIOLATION | INVARIANT_BREACH | OtherClass string

fun class_name :: "failure_class \<Rightarrow> string" where
  "class_name TRANSIENT = ''TRANSIENT''"
| "class_name PERMANENT = ''PERMANENT''"
| "class_name POLICY_VIOLATION = ''POLICY_VIOLATION''"
| "class_name INVARIANT_BREACH = ''INVARIANT_BREACH''"
| "class_name (OtherClass s) = s"

record failure_event =
  fe_agentId :: string
  fe_tickSeq :: int
  fe_class :: failure_class
  fe_code :: string
  fe_message :: string
  fe_context :: "(string \<times> jsval) list"
  fe_timestamp :: int

definition failure_js :: "failure_event \<Rightarrow> jsval" where
  "failure_js f =
     JObj [(''agentId'', JStr (fe_agentId f)), (''tickSeq'', jint (fe_tickSeq f)),
           (''class'', JStr (class_name (fe_class f))), (''code'', JStr (fe_code f)),
           (''message'', JStr (fe_message f)), (''context'', JObj (fe_context f)),
           (''timestamp'', jint (fe_timestamp f))]"

record recovery_record =
  rr_agentId :: string
  rr_tickSeq :: int
  rr_retryCount :: int
  rr_lastAttempt :: int

datatype halt_state = Halt_FAULTED | Halt_TERMINATED

fun halt_name :: "halt_state \<Rightarrow> string" where
  "halt_name Halt_FAULTED = ''FAULTED''"
| "halt_name Halt_TERMINATED = ''TERMINATED''"

text \<open>What the handler reads and writes: its records, the lifecycle it was given, the delegation
  tree and the log.\<close>

record 'l fstate =
  fs_transient :: "(string, recovery_record) jsmap"
  fs_lifecycle :: 'l
  fs_delegation :: delegation
  fs_world :: world

type_synonym 'l halter = "string \<Rightarrow> halt_state \<Rightarrow> 'l \<times> world \<Rightarrow> ('l \<times> world) \<times> (jserr + unit)"

section \<open>The handler\<close>

definition getRecordKey :: "string \<Rightarrow> int \<Rightarrow> string" where
  "getRecordKey a t = a @ '':'' @ show_int t"

definition fs_log :: "string \<Rightarrow> string \<Rightarrow> jsval \<Rightarrow> 'l fstate \<Rightarrow> 'l fstate" where
  "fs_log k a p s = s\<lparr>fs_world := log_event k a p (fs_world s)\<rparr>"

definition fs_transition ::
  "'l halter \<Rightarrow> string \<Rightarrow> halt_state \<Rightarrow> 'l fstate \<Rightarrow> ('l fstate, unit) outcome" where
  "fs_transition halt a h s =
     (let ((l, w), r) = halt a h (fs_lifecycle s, fs_world s)
      in (s\<lparr>fs_lifecycle := l, fs_world := w\<rparr>, r))"

definition handlePermanent :: "'l halter \<Rightarrow> failure_event \<Rightarrow> 'l fstate \<Rightarrow> ('l fstate, unit) outcome" where
  "handlePermanent halt f s =
     (case fs_transition halt (fe_agentId f) Halt_FAULTED s of
        (s1, Inl e) \<Rightarrow> (s1, Inl e)
      | (s1, Inr _) \<Rightarrow>
          (case getToken (fs_delegation s1) (fe_agentId f) of
             None \<Rightarrow> (s1, Inr ())
           | Some t \<Rightarrow>
               if parentAgentId t \<noteq> [] then
                 (fs_log ''CHILD_FAILURE_ESCALATION'' (parentAgentId t)
                    (JObj [(''childAgentId'', JStr (fe_agentId f)), (''failure'', failure_js f)]) s1,
                  Inr ())
               else (s1, Inr ())))"

definition retry_payload :: "failure_event \<Rightarrow> int \<Rightarrow> jsval" where
  "retry_payload f n = JObj [(''tickSeq'', jint (fe_tickSeq f)), (''retryCount'', jint n)]"

text \<open>The lookup or creation of the record, its update and the write back; with the new count.\<close>

definition note_attempt :: "failure_event \<Rightarrow> 'l fstate \<Rightarrow> 'l fstate \<times> int" where
  "note_attempt f s =
     (let key = getRecordKey (fe_agentId f) (fe_tickSeq f);
          (record, w) =
            (case map_of (fs_transient s) key of
               Some r \<Rightarrow> (r, fs_world s)
             | None \<Rightarrow>
                 (\<lparr>rr_agentId = fe_agentId f, rr_tickSeq = fe_tickSeq f, rr_retryCount = 0,
                   rr_lastAttempt = date_now (fs_world s)\<rparr>, tick_clock (fs_world s)));
          record' = record\<lparr>rr_retryCount := rr_retryCount record + 1, rr_lastAttempt := date_now w\<rparr>
      in (s\<lparr>fs_transient := AList.update key record' (fs_transient s), fs_world := tick_clock w\<rparr>,
          rr_retryCount record'))"

definition forget_record :: "string \<Rightarrow> 'l fstate \<Rightarrow> 'l fstate" where
  "forget_record key s = s\<lparr>fs_transient := AList.delete key (fs_transient s)\<rparr>"

definition escalated :: "failure_event \<Rightarrow> failure_event" where
  "escalated f =
     f\<lparr>fe_class := PERMANENT, fe_message := ''[ESCALATED TRANSIENT] '' @ fe_message f\<rparr>"

definition handleTransient ::
  "'l halter \<Rightarrow> int \<Rightarrow> failure_event \<Rightarrow> 'l fstate \<Rightarrow> ('l fstate, unit) outcome" where
  "handleTransient halt maxRetries f s =
     (let (s1, n) = note_attempt f s in
      if n > maxRetries then
        let s2 = fs_log ''TRANSIENT_EXHAUSTED'' (fe_agentId f) (retry_payload f n) s1
        in handlePermanent halt (escalated f)
             (forget_record (getRecordKey (fe_agentId f) (fe_tickSeq f)) s2)
      else
        (fs_log ''TRANSIENT_RETRY_SCHEDULED'' (fe_agentId f) (retry_payload f n) s1, Inr ()))"

definition handlePolicyViolation :: "failure_event \<Rightarrow> 'l fstate \<Rightarrow> ('l fstate, unit) outcome" where
  "handlePolicyViolation f s =
     (fs_log ''POLICY_VIOLATION_HALT'' (fe_agentId f)
        (JObj [(''tickSeq'', jint (fe_tickSeq f)), (''code'', JStr (fe_code f))]) s, Inr ())"

definition fs_revoke :: "string \<Rightarrow> 'l fstate \<Rightarrow> 'l fstate" where
  "fs_revoke a s =
     (let (d, w) = revoke a (fs_delegation s, fs_world s)
      in s\<lparr>fs_delegation := d, fs_world := w\<rparr>)"

definition handleInvariantBreach ::
  "'l halter \<Rightarrow> failure_event \<Rightarrow> 'l fstate \<Rightarrow> ('l fstate, unit) outcome" where
  "handleInvariantBreach halt f s =
     (case fs_transition halt (fe_agentId f) Halt_TERMINATED s of
        (s1, Inl e) \<Rightarrow> (s1, Inl e)
      | (s1, Inr _) \<Rightarrow>
          (fs_log ''KERNEL_PANIC'' (fe_agentId f)
             (JObj [(''reason'', JStr (fe_message f)), (''context'', JObj (fe_context f))])
             (fs_revoke (fe_agentId f) s1), Inr ()))"

definition unrecognized :: "failure_event \<Rightarrow> failure_event" where
  "unrecognized f =
     f\<lparr>fe_class := INVARIANT_BREACH,
       fe_message := ''UNRECOGNIZED FAILURE CLASS: '' @ class_name (fe_class f) @ '' -> '' @ fe_message f\<rparr>"

definition handle :: "'l halter \<Rightarrow> int \<Rightarrow> failure_event \<Rightarrow> 'l fstate \<Rightarrow> ('l fstate, unit) outcome" where
  "handle halt maxRetries f s =
     (let s1 = fs_log ''FAILURE_RECORDED'' (fe_agentId f) (JObj [(''failure'', failure_js f)]) s in
      case fe_class f of
        TRANSIENT \<Rightarrow> handleTransient halt maxRetries f s1
      | PERMANENT \<Rightarrow> handlePermanent halt f s1
      | POLICY_VIOLATION \<Rightarrow> handlePolicyViolation f s1
      | INVARIANT_BREACH \<Rightarrow> handleInvariantBreach halt f s1
      | OtherClass c \<Rightarrow> handleInvariantBreach halt (unrecognized f) s1)"

text \<open>The adapter of kernel/index.ts: the state name goes to the controller as a trigger.\<close>

definition lifecycle_adapter :: "lifecycle halter" where
  "lifecycle_adapter a h s =
     (case transition a (OtherTrigger (halt_name h)) JUndef s of
        (s', Inl e) \<Rightarrow> (s', Inl e)
      | (s', Inr _) \<Rightarrow> (s', Inr ()))"

definition new_fstate :: "'l \<Rightarrow> delegation \<Rightarrow> world \<Rightarrow> 'l fstate" where
  "new_fstate l d w = \<lparr>fs_transient = [], fs_lifecycle = l, fs_delegation = d, fs_world = w\<rparr>"

section \<open>What each operation touches\<close>

lemma fs_log_simps [simp]:
  "fs_transient (fs_log k a p s) = fs_transient s" "fs_lifecycle (fs_log k a p s) = fs_lifecycle s"
  "fs_delegation (fs_log k a p s) = fs_delegation s"
  "fs_world (fs_log k a p s) = log_event k a p (fs_world s)"
  by (simp_all add: fs_log_def)

lemma fs_transition_simps [simp]:
  "fs_transient (fst (fs_transition halt a h s)) = fs_transient s"
  "fs_delegation (fst (fs_transition halt a h s)) = fs_delegation s"
  "fs_world (fst (fs_transition halt a h s)) = snd (fst (halt a h (fs_lifecycle s, fs_world s)))"
  "fs_lifecycle (fst (fs_transition halt a h s)) = fst (fst (halt a h (fs_lifecycle s, fs_world s)))"
  "snd (fs_transition halt a h s) = snd (halt a h (fs_lifecycle s, fs_world s))"
  by (simp_all add: fs_transition_def split: prod.split)

lemma fs_revoke_simps [simp]:
  "fs_transient (fs_revoke a s) = fs_transient s" "fs_lifecycle (fs_revoke a s) = fs_lifecycle s"
  "(fs_delegation (fs_revoke a s), fs_world (fs_revoke a s)) = revoke a (fs_delegation s, fs_world s)"
  by (simp_all add: fs_revoke_def split: prod.split)

lemma fs_delegation_revoke [simp]:
  "fs_delegation (fs_revoke a s) = fst (revoke a (fs_delegation s, fs_world s))"
  by (simp add: fs_revoke_def split: prod.split)

lemma fs_transition_D:
  assumes "fs_transition halt a h s = (s1, r)"
  shows "fs_transient s1 = fs_transient s" "fs_delegation s1 = fs_delegation s"
    "((fs_lifecycle s1, fs_world s1), r) = halt a h (fs_lifecycle s, fs_world s)"
  using assms by (auto simp: fs_transition_def split: prod.splits)

lemma handlePermanent_transient [frame]:
  "fs_transient (fst (handlePermanent halt f s)) = fs_transient s"
  by (auto simp: handlePermanent_def dest: fs_transition_D(1) split: prod.split sum.split option.split)

lemma handleInvariantBreach_transient [frame]:
  "fs_transient (fst (handleInvariantBreach halt f s)) = fs_transient s"
  by (auto simp: handleInvariantBreach_def dest: fs_transition_D(1) split: prod.split sum.split)

lemma fs_revoke_log:
  "\<exists>es. wlogs (fs_world (fs_revoke a s)) = wlogs (fs_world s) @ es \<and> list_all revocation_of es"
proof -
  have "wlogs (fs_world (fs_revoke a s)) = wlogs (snd (revoke a (fs_delegation s, fs_world s)))"
    by (simp add: fs_revoke_def split: prod.split)
  then show ?thesis
    using revoke_list_log [of "[a]" "(fs_delegation s, fs_world s)", folded revoke_def] by auto
qed

lemma getRecordKey_inject: "getRecordKey a t = getRecordKey b u \<longleftrightarrow> a = b \<and> t = u"
  using last_sep_inject [of a "CHR '':''" "show_int t" b "show_int u"] show_int_no_colon
  by (auto simp: getRecordKey_def)

section \<open>Counting retries\<close>

definition retry_count :: "'l fstate \<Rightarrow> string \<Rightarrow> int" where
  "retry_count s k = (case map_of (fs_transient s) k of None \<Rightarrow> 0 | Some r \<Rightarrow> rr_retryCount r)"

definition transient_at :: "string \<Rightarrow> int \<Rightarrow> failure_event \<Rightarrow> bool" where
  "transient_at a t f \<longleftrightarrow> fe_class f = TRANSIENT \<and> fe_agentId f = a \<and> fe_tickSeq f = t"

definition exhausted_at :: "string \<Rightarrow> int \<Rightarrow> log_entry \<Rightarrow> bool" where
  "exhausted_at a t e \<longleftrightarrow>
     le_kind e = ''TRANSIENT_EXHAUSTED'' \<and> le_agentId e = a \<and>
     js_prop (le_payload e) ''tickSeq'' = jint t"

lemma retry_count_frame [simp]:
  "retry_count (s\<lparr>fs_world := w\<rparr>) k = retry_count s k"
  "retry_count (fs_log kd a p s) k = retry_count s k"
  "retry_count (fst (handlePermanent halt f s)) k = retry_count s k"
  "retry_count (fst (handleInvariantBreach halt f s)) k = retry_count s k"
  "retry_count (forget_record j s) k = (if k = j then 0 else retry_count s k)"
  by (simp_all add: retry_count_def forget_record_def handlePermanent_transient
      handleInvariantBreach_transient)

lemma forget_record_world [simp]: "fs_world (forget_record k s) = fs_world s"
  by (simp add: forget_record_def)

lemma note_attempt_simps [simp]:
  "retry_count (fst (note_attempt f s)) k =
     (if k = getRecordKey (fe_agentId f) (fe_tickSeq f) then retry_count s k + 1 else retry_count s k)"
  "snd (note_attempt f s) = retry_count s (getRecordKey (fe_agentId f) (fe_tickSeq f)) + 1"
  "wlogs (fs_world (fst (note_attempt f s))) = wlogs (fs_world s)"
  "fs_lifecycle (fst (note_attempt f s)) = fs_lifecycle s"
  "fs_delegation (fst (note_attempt f s)) = fs_delegation s"
  by (simp_all add: note_attempt_def retry_count_def Let_def split: option.split prod.split)

lemma handleTransient_count:
  "retry_count (fst (handleTransient halt m f s)) k =
     (if k = getRecordKey (fe_agentId f) (fe_tickSeq f)
      then if retry_count s k + 1 > m then 0 else retry_count s k + 1 else retry_count s k)"
proof -
  obtain s1 n where n: "note_attempt f s = (s1, n)" by fastforce
  show ?thesis
    using note_attempt_simps(1,2) [of f s, unfolded n] by (simp add: handleTransient_def n Let_def)
qed

lemma handle_retry_count:
  "retry_count (fst (handle halt m f s)) (getRecordKey a t) =
     (let c = retry_count s (getRecordKey a t) in
      if transient_at a t f then if c + 1 > m then 0 else c + 1 else c)"
  by (cases "fe_class f")
    (auto simp: handle_def transient_at_def Let_def handleTransient_count getRecordKey_inject
      handlePolicyViolation_def)

definition handle_all :: "'l halter \<Rightarrow> int \<Rightarrow> failure_event list \<Rightarrow> 'l fstate \<Rightarrow> 'l fstate" where
  "handle_all halt m = fold (\<lambda>f s. fst (handle halt m f s))"

section \<open>The contract of the lifecycle operation\<close>

text \<open>What the handler's own log entries can be told apart from: the operation it is given only
  writes transition entries.\<close>

locale halting =
  fixes halt :: "'l halter"
  assumes halt_log: "((l', w'), r) = halt a h (l, w) \<Longrightarrow>
    \<exists>es. wlogs w' = wlogs w @ es \<and> (\<forall>e \<in> set es. le_kind e = ''LIFECYCLE_TRANSITION'')"
begin

lemma fs_transition_exhausted:
  assumes "fs_transition halt a h s = (s1, r)"
  shows "filter (exhausted_at b t) (wlogs (fs_world s1)) = filter (exhausted_at b t) (wlogs (fs_world s))"
proof -
  obtain es where "wlogs (fs_world s1) = wlogs (fs_world s) @ es"
    "\<forall>e \<in> set es. le_kind e = ''LIFECYCLE_TRANSITION''"
    using halt_log [OF fs_transition_D(3) [OF assms]] by blast
  then show ?thesis
    by (auto simp: exhausted_at_def filter_empty_conv)
qed

lemma handlePermanent_exhausted:
  "filter (exhausted_at a t) (wlogs (fs_world (fst (handlePermanent halt f s)))) =
     filter (exhausted_at a t) (wlogs (fs_world s))"
  by (auto simp: handlePermanent_def exhausted_at_def [of _ _ "stamp _ _"]
      dest: fs_transition_exhausted split: prod.split sum.split option.split)

lemma handleInvariantBreach_exhausted:
  "filter (exhausted_at a t) (wlogs (fs_world (fst (handleInvariantBreach halt f s)))) =
     filter (exhausted_at a t) (wlogs (fs_world s))"
proof -
  have "filter (exhausted_at a t) (wlogs (fs_world (fs_revoke b u))) =
      filter (exhausted_at a t) (wlogs (fs_world u))" for b and u :: "'l fstate"
    using fs_revoke_log [of b u]
    by (auto simp: exhausted_at_def revocation_of_def list_all_iff filter_empty_conv)
  then show ?thesis
    by (auto simp: handleInvariantBreach_def exhausted_at_def [of _ _ "stamp _ _"]
        dest: fs_transition_exhausted split: prod.split sum.split)
qed

lemma handleTransient_exhausted:
  "length (filter (exhausted_at a t) (wlogs (fs_world (fst (handleTransient halt m f s))))) =
     length (filter (exhausted_at a t) (wlogs (fs_world s))) +
     (if fe_agentId f = a \<and> fe_tickSeq f = t \<and> retry_count s (getRecordKey a t) + 1 > m then 1 else 0)"
proof -
  obtain s1 n where n: "note_attempt f s = (s1, n)" by fastforce
  show ?thesis
    using note_attempt_simps(2,3) [of f s, unfolded n]
    by (auto simp: handleTransient_def n Let_def handlePermanent_exhausted retry_payload_def
        exhausted_at_def [of _ _ "stamp _ _"])
qed

lemma handle_exhausted:
  "length (filter (exhausted_at a t) (wlogs (fs_world (fst (handle halt m f s))))) =
     length (filter (exhausted_at a t) (wlogs (fs_world s))) +
     (if transient_at a t f \<and> retry_count s (getRecordKey a t) + 1 > m then 1 else 0)"
  by (cases "fe_class f")
    (auto simp: handle_def Let_def handlePermanent_exhausted handleInvariantBreach_exhausted
      handleTransient_exhausted handlePolicyViolation_def transient_at_def
      exhausted_at_def [of _ _ "stamp _ _"])

text \<open>Retries and exhaustions account for every transient failure.\<close>

lemma handle_all_account:
  assumes "0 \<le> m" and "0 \<le> retry_count s (getRecordKey a t) \<and> retry_count s (getRecordKey a t) \<le> m"
  shows "let s' = handle_all halt m fs s; k = getRecordKey a t;
      ex = (\<lambda>u. int (length (filter (exhausted_at a t) (wlogs (fs_world u))))) in
    0 \<le> retry_count s' k \<and> retry_count s' k \<le> m \<and>
    retry_count s' k + (m + 1) * ex s' =
      retry_count s k + (m + 1) * ex s + int (length (filter (transient_at a t) fs))"
  using assms(2)
proof (induction fs arbitrary: s)
  case Nil
  then show ?case by (simp add: handle_all_def)
next
  case (Cons f fs)
  let ?s = "fst (handle halt m f s)"
  have "0 \<le> retry_count ?s (getRecordKey a t) \<and> retry_count ?s (getRecordKey a t) \<le> m"
    using Cons.prems assms(1) by (auto simp: handle_retry_count Let_def)
  from Cons.IH [OF this] show ?case
    using Cons.prems
    by (auto simp: handle_all_def handle_retry_count handle_exhausted Let_def algebra_simps)
qed

lemma retry_budget:
  assumes "0 \<le> m" and "s0 = new_fstate l d w" and "wlogs w = []"
  shows "let s = handle_all halt m fs s0; n = int (length (filter (transient_at a t) fs)) in
    retry_count s (getRecordKey a t) = n mod (m + 1) \<and>
    int (length (filter (exhausted_at a t) (wlogs (fs_world s)))) = n div (m + 1)"
proof -
  let ?s = "handle_all halt m fs s0" and ?n = "int (length (filter (transient_at a t) fs))"
  let ?r = "retry_count ?s (getRecordKey a t)"
  let ?e = "int (length (filter (exhausted_at a t) (wlogs (fs_world ?s))))"
  have "retry_count s0 (getRecordKey a t) = 0" "wlogs (fs_world s0) = []"
    using assms by (simp_all add: new_fstate_def retry_count_def)
  then have "0 \<le> ?r \<and> ?r \<le> m \<and> ?r + (m + 1) * ?e = ?n"
    using handle_all_account [OF assms(1), of s0 a t fs] assms(1) by (simp add: Let_def)
  then have r: "0 \<le> ?r" "?r < m + 1" and eq: "?n = ?r + (m + 1) * ?e" by linarith+
  have "?n mod (m + 1) = ?r" "?n div (m + 1) = ?e"
    unfolding eq using r by simp_all
  then show ?thesis by (simp add: Let_def)
qed

end

lemma lifecycle_adapter_throws:
  "lifecycle_adapter a h (lc, w) =
     ((lc, w), Inl (invalid_transition a (getState lc a) (OtherTrigger (halt_name h))))"
  by (simp add: lifecycle_adapter_def transition_error)

interpretation adapter: halting lifecycle_adapter
  by unfold_locales (simp add: lifecycle_adapter_throws)

lemma breach_effects:
  assumes "deleg_reach (fs_delegation s, w)"
    and "fe_class f = INVARIANT_BREACH \<or> fe_class f = OtherClass c"
    and "handle halt m f s = (s', Inr ())"
  shows "(\<forall>b t. (edge (fs_delegation s))\<^sup>*\<^sup>* (fe_agentId f) b \<longrightarrow>
      getToken (fs_delegation s') b = Some t \<longrightarrow> revoked t) \<and>
    le_kind (last (wlogs (fs_world s'))) = ''KERNEL_PANIC'' \<and>
    le_agentId (last (wlogs (fs_world s'))) = fe_agentId f"
proof -
  let ?s = "fs_log ''FAILURE_RECORDED'' (fe_agentId f) (JObj [(''failure'', failure_js f)]) s"
  obtain g where g: "fe_agentId g = fe_agentId f" "handleInvariantBreach halt g ?s = (s', Inr ())"
  proof (cases "fe_class f")
    case INVARIANT_BREACH
    then show thesis using assms(3) by (intro that [of f]) (simp_all add: handle_def Let_def)
  next
    case (OtherClass c)
    have "fe_agentId (unrecognized f) = fe_agentId f" by (simp add: unrecognized_def)
    then show thesis
      using OtherClass assms(3) by (intro that [of "unrecognized f"]) (simp_all add: handle_def Let_def)
  qed (use assms(2) in simp_all)
  then obtain s1 u where s1: "fs_transition halt (fe_agentId f) Halt_TERMINATED ?s = (s1, Inr u)"
    and s': "s' = fs_log ''KERNEL_PANIC'' (fe_agentId f)
      (JObj [(''reason'', JStr (fe_message g)), (''context'', JObj (fe_context g))])
      (fs_revoke (fe_agentId f) s1)"
    by (auto simp: handleInvariantBreach_def split: prod.splits sum.splits)
  have "fs_delegation s1 = fs_delegation s"
    using fs_transition_D(2) [OF s1] by simp
  then have "fs_delegation s' = fst (revoke (fe_agentId f) (fs_delegation s, fs_world s1))"
    using s' fs_revoke_simps(3) [of "fe_agentId f" s1] by (metis fs_log_simps(3) fst_conv)
  then have "revoked t" if "(edge (fs_delegation s))\<^sup>*\<^sup>* (fe_agentId f) b"
    "getToken (fs_delegation s') b = Some t" for b t
    using that revoke_token [of "fs_delegation s" "fe_agentId f" "fs_world s1" b]
      deleg_reach_ok [OF assms(1)] by (cases "getToken (fs_delegation s) b") auto
  then show ?thesis by (simp add: s')
qed

section \<open>Properties\<close>

text \<open>C25: The retry budget is exact, under any interleaving. After any sequence of failures
  handled by a handler wired as in the kernel with \<open>m\<close> retries, the retry count kept for an
  agent's tick is the number of its transient failures modulo \<open>m + 1\<close>, and the log holds one
  \<open>TRANSIENT_EXHAUSTED\<close> entry for each full round of \<open>m + 1\<close>; failures of other agents, ticks or
  classes do not count, even if the agent's id holds the separator of the record key.\<close>

theorem retry_budget_exact:
  assumes "0 \<le> m" and "wlogs w = []"
  shows "let s = handle_all lifecycle_adapter m fs (new_fstate lc d w);
      n = int (length (filter (transient_at a t) fs)) in
    retry_count s (getRecordKey a t) = n mod (m + 1) \<and>
    int (length (filter (exhausted_at a t) (wlogs (fs_world s)))) = n div (m + 1)"
  using adapter.retry_budget [OF assms(1) refl assms(2)] by simp

definition demo_failure :: failure_event where
  "demo_failure =
     \<lparr>fe_agentId = ''a:1'', fe_tickSeq = 2, fe_class = TRANSIENT, fe_code = ''TIMEOUT'',
      fe_message = ''slow'', fe_context = [], fe_timestamp = 0\<rparr>"

theorem retry_budget_exact_witness:
  "let s = handle_all lifecycle_adapter 3 (replicate 5 demo_failure)
             (new_fstate new_lifecycle new_delegation (new_world int)) in
   retry_count s (getRecordKey ''a:1'' 2) = 1 \<and>
   int (length (filter (exhausted_at ''a:1'' 2) (wlogs (fs_world s)))) = 1"
  using retry_budget_exact [of 3 "new_world int" "replicate 5 demo_failure" new_lifecycle
      new_delegation "''a:1''" 2]
  by (simp add: new_world_def new_logger_def transient_at_def demo_failure_def Let_def)

text \<open>C26: An invariant breach, or a failure of an unknown class, takes the whole subtree down.
  Whenever \<open>handle\<close> returns, whatever lifecycle it was given, the tokens of the agent and of all
  its descendants are revoked and the last entry of the log is the agent's \<open>KERNEL_PANIC\<close>.\<close>

theorem breach_revokes_subtree:
  assumes "deleg_reach (fs_delegation s, w)"
    and "fe_class f = INVARIANT_BREACH \<or> fe_class f = OtherClass c"
    and "handle halt m f s = (s', Inr ())"
  shows "(\<forall>b t. (edge (fs_delegation s))\<^sup>*\<^sup>* (fe_agentId f) b \<longrightarrow>
      getToken (fs_delegation s') b = Some t \<longrightarrow> revoked t) \<and>
    le_kind (last (wlogs (fs_world s'))) = ''KERNEL_PANIC'' \<and>
    le_agentId (last (wlogs (fs_world s'))) = fe_agentId f"
  using breach_effects [OF assms] .

theorem breach_revokes_subtree_witness:
  "map_option revoked (getToken (fs_delegation (fst (handle (\<lambda>a h s. (s, Inr ())) 3
       (demo_failure\<lparr>fe_agentId := ''r'', fe_class := INVARIANT_BREACH\<rparr>)
       (new_fstate () (fst demo_tree) (snd demo_tree))))) ''child-r-2'') = Some True"
proof -
  let ?f = "demo_failure\<lparr>fe_agentId := ''r'', fe_class := INVARIANT_BREACH\<rparr>"
  let ?s = "new_fstate () (fst demo_tree) (snd demo_tree)"
  let ?h = "(\<lambda>a h s. (s, Inr ())) :: unit halter"
  obtain s' where s': "handle ?h 3 ?f ?s = (s', Inr ())" and d: "fs_delegation s' =
      fst (revoke ''r'' (fst demo_tree, log_event ''FAILURE_RECORDED'' ''r'' (JObj [(''failure'', failure_js ?f)]) (snd demo_tree)))"
    by (simp add: handle_def handleInvariantBreach_def fs_transition_def Let_def demo_failure_def
        new_fstate_def)
  have reach: "deleg_reach (fs_delegation ?s, snd demo_tree)"
    using demo_tree_reach by (simp add: new_fstate_def)
  have "getToken (fs_delegation s') ''child-r-2'' \<noteq> None"
    using demo_tree_eval(4) deleg_reach_ok [OF demo_tree_reach] by (auto simp: d revoke_token)
  moreover have "\<forall>t. getToken (fs_delegation s') ''child-r-2'' = Some t \<longrightarrow> revoked t"
    using breach_revokes_subtree [OF reach _ s'] demo_path by (simp add: new_fstate_def)
  ultimately show ?thesis using s' by auto
qed

text \<open>Wired as in kernel/index.ts the handler can halt nothing. The adapter hands the state
  names \<open>FAULTED\<close> and \<open>TERMINATED\<close> to the controller as triggers, which no table entry has, so
  permanent failures, exhausted retries and invariant breaches all leave \<open>handle\<close> by an exception,
  with no agent's state changed, no token revoked, and neither a panic nor an escalation logged.\<close>

theorem wired_handler_cannot_halt:
  "case handle lifecycle_adapter m f s of (s', r) \<Rightarrow>
     fs_lifecycle s' = fs_lifecycle s \<and> fs_delegation s' = fs_delegation s \<and>
     (\<forall>e \<in> set (drop (length (wlogs (fs_world s))) (wlogs (fs_world s'))).
        le_kind e \<in> {''FAILURE_RECORDED'', ''TRANSIENT_RETRY_SCHEDULED'', ''TRANSIENT_EXHAUSTED'',
                     ''POLICY_VIOLATION_HALT''}) \<and>
     (is_ok r \<longleftrightarrow> fe_class f = POLICY_VIOLATION \<or>
        fe_class f = TRANSIENT \<and> retry_count s (getRecordKey (fe_agentId f) (fe_tickSeq f)) + 1 \<le> m)"
proof -
  have t: "fs_transition lifecycle_adapter a h u =
      (u, Inl (invalid_transition a (getState (fs_lifecycle u) a) (OtherTrigger (halt_name h))))" for a h u
    by (simp add: fs_transition_def lifecycle_adapter_throws)
  obtain s1 n where n: "note_attempt f (fs_log ''FAILURE_RECORDED'' (fe_agentId f)
      (JObj [(''failure'', failure_js f)]) s) = (s1, n)" by fastforce
  note ns = note_attempt_simps [of f "fs_log ''FAILURE_RECORDED'' (fe_agentId f)
      (JObj [(''failure'', failure_js f)]) s", unfolded n]
  have fr: "fs_lifecycle (forget_record k u) = fs_lifecycle u"
    "fs_delegation (forget_record k u) = fs_delegation u" for k and u :: "lifecycle fstate"
    by (simp_all add: forget_record_def)
  show ?thesis
    using ns
    by (cases "fe_class f")
      (simp_all add: handle_def handlePermanent_def handleInvariantBreach_def handleTransient_def
        handlePolicyViolation_def t n fr Let_def)
qed

theorem wired_handler_cannot_halt_witness:
  "let s = new_fstate new_lifecycle (fst demo_tree) (snd demo_tree);
       f = demo_failure\<lparr>fe_agentId := ''r'', fe_class := INVARIANT_BREACH\<rparr>
   in \<not> is_ok (snd (handle lifecycle_adapter 3 f s)) \<and>
      map_option revoked (getToken (fs_delegation (fst (handle lifecycle_adapter 3 f s))) ''r'') = Some False"
  using wired_handler_cannot_halt [where m = 3 and f = "demo_failure\<lparr>fe_agentId := ''r'', fe_class := INVARIANT_BREACH\<rparr>" and
      s = "new_fstate new_lifecycle (fst demo_tree) (snd demo_tree)"] demo_tree_eval(2)
  by (simp add: new_fstate_def split: prod.splits)

end
