(* ===== verification/Shared.thy ===== *)
theory Shared
  imports Persistent Permissions
begin

text \<open>
  Memory shared between agents: memory/shared.ts (\<open>SharedStore\<close>), a map from namespaces to
  records. Every access is first put to the policy evaluation as the action \<open>read\<close> or \<open>write\<close> on
  \<open>shared/namespace/key\<close>; anything but \<open>ALLOW\<close> throws.
\<close>

section \<open>The store\<close>

type_synonym shared = rec_map

definition shared_resource :: "string \<Rightarrow> string \<Rightarrow> string" where
  "shared_resource ns k = ''shared/'' @ ns @ ''/'' @ k"

definition checkPermission ::
  "string \<Rightarrow> string \<Rightarrow> string \<Rightarrow> string \<Rightarrow> grant list \<Rightarrow> policy list \<Rightarrow> world \<Rightarrow> world \<times> (jserr + unit)" where
  "checkPermission a act ns k gs ps w =
     (let res = shared_resource ns k; (w1, result) = evaluate a act res gs ps w in
      (w1, case result of
             DENY \<Rightarrow> Inl (Error (''PERMISSION_DENIED: Agent '' @ a @ '' cannot '' @ act @ '' resource '' @ res))
           | ESCALATE \<Rightarrow> Inl (Error (''PERMISSION_ESCALATED: Agent '' @ a @ '' requires escalation to '' @
                          act @ '' resource '' @ res))
           | ALLOW \<Rightarrow> Inr ()))"

definition sh_read ::
  "string \<Rightarrow> string \<Rightarrow> string \<Rightarrow> grant list \<Rightarrow> policy list \<Rightarrow> shared \<times> world \<Rightarrow> (shared \<times> world, jsval) outcome" where
  "sh_read a ns k gs ps sw =
     (let (s, w) = sw; (w1, perm) = checkPermission a ''read'' ns k gs ps w in
      case perm of
        Inl e \<Rightarrow> ((s, w1), Inl e)
      | Inr _ \<Rightarrow>
          (case map_of s ns of
             None \<Rightarrow> ((s, w1), Inr JNull)
           | Some r \<Rightarrow>
               if rec_get r k = JUndef then ((s, w1), Inr JNull)
               else
                 ((s, log_event ''MEMORY_SHARED_READ'' a
                        (JObj [(''namespace'', JStr ns), (''key'', JStr k)]) w1),
                  json_clone (rec_get r k))))"

definition sh_payload :: "string \<Rightarrow> string \<Rightarrow> string \<Rightarrow> jsval \<Rightarrow> jsval" where
  "sh_payload tx ns k v =
     JObj [(''txId'', JStr tx), (''namespace'', JStr ns), (''key'', JStr k), (''value'', v)]"

definition sh_write ::
  "string \<Rightarrow> string \<Rightarrow> string \<Rightarrow> jsval \<Rightarrow> string \<Rightarrow> grant list \<Rightarrow> policy list \<Rightarrow> shared \<times> world \<Rightarrow>
   (shared \<times> world, write_result) outcome" where
  "sh_write a ns k v tx gs ps sw =
     (let (s, w) = sw; (w1, perm) = checkPermission a ''write'' ns k gs ps w in
      case perm of
        Inl e \<Rightarrow> ((s, w1), Inl e)
      | Inr _ \<Rightarrow>
          (case json_clone v of
             Inl e \<Rightarrow> ((s, w1), Inl (not_serializable k))
           | Inr x \<Rightarrow>
               let w2 = log_event ''MEMORY_SHARED_WRITE'' a (sh_payload tx ns k x) w1;
                   s1 = put_in ns k x s
               in ((s1, tick_clock w2),
                   Inr \<lparr>wr_success = True, wr_txId = tx, wr_timestamp = date_now w2\<rparr>)))"

section \<open>What the log says\<close>

definition sh_write_of :: "string \<Rightarrow> string \<Rightarrow> log_entry \<Rightarrow> jsval option \<Rightarrow> jsval option" where
  "sh_write_of ns k e old =
     (if le_kind e = ''MEMORY_SHARED_WRITE'' \<and> js_prop (le_payload e) ''namespace'' = JStr ns \<and>
         js_prop (le_payload e) ''key'' = JStr k
      then Some (js_prop (le_payload e) ''value'') else old)"

definition sh_value :: "log_entry list \<Rightarrow> string \<Rightarrow> string \<Rightarrow> jsval option" where
  "sh_value es ns k = fold (sh_write_of ns k) es None"

text \<open>What the log says of the key \<open>__proto__\<close> of a namespace, and of all its keys.\<close>

definition sh_proto_of :: "string \<Rightarrow> log_entry \<Rightarrow> jsval option \<times> jsval option \<Rightarrow> jsval option \<times> jsval option" where
  "sh_proto_of ns e st =
     (if le_kind e = ''MEMORY_SHARED_WRITE'' \<and> js_prop (le_payload e) ''namespace'' = JStr ns \<and>
         js_prop (le_payload e) ''key'' = JStr proto_key
      then proto_edit (Some (js_prop (le_payload e) ''value'')) st else st)"

definition sh_proto :: "log_entry list \<Rightarrow> string \<Rightarrow> jsval option \<times> jsval option" where
  "sh_proto es ns = fold (sh_proto_of ns) es (None, None)"

definition sh_own :: "log_entry list \<Rightarrow> string \<Rightarrow> string \<Rightarrow> jsval option" where
  "sh_own es ns k = (if k = proto_key then fst (sh_proto es ns) else sh_value es ns k)"

definition sh_written :: "log_entry list \<Rightarrow> string \<Rightarrow> bool" where
  "sh_written es ns \<longleftrightarrow>
     list_ex (\<lambda>e. le_kind e = ''MEMORY_SHARED_WRITE'' \<and> js_prop (le_payload e) ''namespace'' = JStr ns) es"

definition sh_reprotoed :: "log_entry list \<Rightarrow> string \<Rightarrow> bool" where
  "sh_reprotoed es ns \<longleftrightarrow>
     list_ex (\<lambda>e. le_kind e = ''MEMORY_SHARED_WRITE'' \<and> js_prop (le_payload e) ''namespace'' = JStr ns \<and>
       js_prop (le_payload e) ''key'' = JStr proto_key) es"

definition allows_write :: "log_entry \<Rightarrow> log_entry \<Rightarrow> bool" where
  "allows_write p e \<longleftrightarrow>
     le_kind p = ''PERMISSION_EVALUATION'' \<and> le_agentId p = le_agentId e \<and>
     js_prop (le_payload p) ''action'' = JStr ''write'' \<and>
     js_prop (le_payload p) ''result'' = JStr ''ALLOW'' \<and>
     (\<exists>ns k. js_prop (le_payload e) ''namespace'' = JStr ns \<and> js_prop (le_payload e) ''key'' = JStr k \<and>
        js_prop (le_payload p) ''resource'' = JStr (shared_resource ns k))"

text \<open>Every shared write stands right behind the evaluation that allowed it.\<close>

fun writes_allowed :: "log_entry option \<Rightarrow> log_entry list \<Rightarrow> bool" where
  "writes_allowed p [] \<longleftrightarrow> True"
| "writes_allowed p (e # es) \<longleftrightarrow>
     (le_kind e = ''MEMORY_SHARED_WRITE'' \<longrightarrow> (\<exists>q. p = Some q \<and> allows_write q e)) \<and>
     writes_allowed (Some e) es"

definition last_entry :: "log_entry option \<Rightarrow> log_entry list \<Rightarrow> log_entry option" where
  "last_entry p es = (if es = [] then p else Some (last es))"

lemma writes_allowed_append:
  "writes_allowed p (es @ fs) \<longleftrightarrow> writes_allowed p es \<and> writes_allowed (last_entry p es) fs"
  by (induction p es rule: writes_allowed.induct) (auto simp: last_entry_def)

lemma writes_allowed_other:
  "\<forall>e \<in> set es. le_kind e \<noteq> ''MEMORY_SHARED_WRITE'' \<Longrightarrow> writes_allowed p es"
  by (induction p es rule: writes_allowed.induct) auto

lemma sh_value_append: "sh_value (es @ fs) ns k = fold (sh_write_of ns k) fs (sh_value es ns k)"
  by (simp add: sh_value_def)

lemma fold_sh_other:
  "\<forall>e \<in> set es. le_kind e \<noteq> ''MEMORY_SHARED_WRITE'' \<Longrightarrow> fold (sh_write_of ns k) es old = old"
  by (induction es arbitrary: old) (auto simp: sh_write_of_def)

lemma fold_sh_proto_other:
  "\<forall>e \<in> set es. le_kind e \<noteq> ''MEMORY_SHARED_WRITE'' \<Longrightarrow> fold (sh_proto_of ns) es st = st"
  by (induction es arbitrary: st) (auto simp: sh_proto_of_def)

lemma sh_proto_append: "sh_proto (es @ fs) ns = fold (sh_proto_of ns) fs (sh_proto es ns)"
  by (simp add: sh_proto_def)

lemma sh_written_append: "sh_written (es @ fs) ns \<longleftrightarrow> sh_written es ns \<or> sh_written fs ns"
  by (simp add: sh_written_def)

lemma sh_written_other: "\<forall>e \<in> set es. le_kind e \<noteq> ''MEMORY_SHARED_WRITE'' \<Longrightarrow> \<not> sh_written es ns"
  by (auto simp: sh_written_def list_ex_iff)

lemma sh_proto_quiet: "\<not> sh_reprotoed es ns \<Longrightarrow> sh_proto es ns = (None, None) \<and> sh_value es ns proto_key = None"
proof (induction es rule: rev_induct)
  case (snoc e es)
  then show ?case
    by (auto simp: sh_reprotoed_def sh_proto_append sh_value_append sh_proto_of_def sh_write_of_def)
qed (simp add: sh_proto_def sh_value_def)

section \<open>One access\<close>

text \<open>The entry an evaluation leaves.\<close>

lemma evaluate_entry:
  obtains w1 e where "evaluate a act res gs ps w = (w1, decision a act res gs ps (date_now w))"
    "wlogs w1 = wlogs w @ [e]" "le_kind e = ''PERMISSION_EVALUATION''" "le_agentId e = a"
    "js_prop (le_payload e) ''action'' = JStr act" "js_prop (le_payload e) ''resource'' = JStr res"
    "js_prop (le_payload e) ''result'' = JStr (result_name (decision a act res gs ps (date_now w)))"
    "log_grows w w1"
proof -
  obtain w1 r where e: "evaluate a act res gs ps w = (w1, r)" by fastforce
  have r: "r = decision a act res gs ps (date_now w)"
    using evaluate_decision [of a act res gs ps w] e by simp
  have "log_grows w w1" using evaluate_grows [of w a act res gs ps] e by simp
  moreover have "\<exists>e. wlogs w1 = wlogs w @ [e] \<and> le_kind e = ''PERMISSION_EVALUATION'' \<and> le_agentId e = a \<and>
      js_prop (le_payload e) ''action'' = JStr act \<and> js_prop (le_payload e) ''resource'' = JStr res \<and>
      js_prop (le_payload e) ''result'' = JStr (result_name r)"
    using e by (auto simp: evaluate_def Let_def split: if_splits)
  ultimately show ?thesis using that e unfolding r by blast
qed

lemma sh_read_log:
  "\<exists>es. wlogs (snd (fst (sh_read a ns k gs ps (s, w)))) = wlogs w @ es \<and>
     (\<forall>e \<in> set es. le_kind e \<noteq> ''MEMORY_SHARED_WRITE'') \<and> fst (fst (sh_read a ns k gs ps (s, w))) = s \<and>
     log_grows w (snd (fst (sh_read a ns k gs ps (s, w))))"
proof -
  obtain w1 e where e: "evaluate a ''read'' (shared_resource ns k) gs ps w =
      (w1, decision a ''read'' (shared_resource ns k) gs ps (date_now w))"
    "wlogs w1 = wlogs w @ [e]" "le_kind e = ''PERMISSION_EVALUATION''" "log_grows w w1"
    by (rule evaluate_entry)
  have "log_grows w (log_event kd b p w1)" for kd b p
    using e(4) log_grows_event log_grows_trans by blast
  then show ?thesis
    using e by (auto simp: sh_read_def checkPermission_def Let_def split: policy_result.split option.split)
qed

lemma sh_write_cases:
  obtains (refused) w1 e err where "sh_write a ns k v tx gs ps (s, w) = ((s, w1), Inl err)"
      "wlogs w1 = wlogs w @ [e]" "le_kind e = ''PERMISSION_EVALUATION''" "log_grows w w1"
      "decision a ''write'' (shared_resource ns k) gs ps (date_now w) \<noteq> ALLOW \<or> \<not> is_ok (json_clone v)"
  | (written) x w' p e res where "json_clone v = Inr x"
      "sh_write a ns k v tx gs ps (s, w) = ((put_in ns k x s, w'), Inr res)"
      "wlogs w' = wlogs w @ [p, e]" "allows_write p e" "log_grows w w'"
      "le_kind e = ''MEMORY_SHARED_WRITE''" "le_agentId e = a" "le_payload e = sh_payload tx ns k x"
      "decision a ''write'' (shared_resource ns k) gs ps (date_now w) = ALLOW"
proof -
  let ?d = "decision a ''write'' (shared_resource ns k) gs ps (date_now w)"
  obtain w1 e where e: "evaluate a ''write'' (shared_resource ns k) gs ps w = (w1, ?d)"
    "wlogs w1 = wlogs w @ [e]" "le_kind e = ''PERMISSION_EVALUATION''" "le_agentId e = a"
    "js_prop (le_payload e) ''action'' = JStr ''write''"
    "js_prop (le_payload e) ''resource'' = JStr (shared_resource ns k)"
    "js_prop (le_payload e) ''result'' = JStr (result_name ?d)" "log_grows w w1"
    by (rule evaluate_entry)
  show ?thesis
  proof (cases "?d = ALLOW")
    case False
    then have "\<exists>err. sh_write a ns k v tx gs ps (s, w) = ((s, w1), Inl err)"
      by (cases ?d) (simp_all add: sh_write_def checkPermission_def e(1) Let_def)
    then show ?thesis using refused e False by blast
  next
    case allow: True
    show ?thesis
    proof (cases "json_clone v")
      case (Inl err)
      then show ?thesis
        using allow e refused [of w1 _ e] by (simp add: sh_write_def checkPermission_def Let_def)
    next
      case (Inr x)
      let ?w = "tick_clock (log_event ''MEMORY_SHARED_WRITE'' a (sh_payload tx ns k x) w1)"
      obtain f where f: "wlogs ?w = wlogs w @ [e, f]" "le_kind f = ''MEMORY_SHARED_WRITE''"
        "le_agentId f = a" "le_payload f = sh_payload tx ns k x"
        using e(2) by simp
      have "allows_write e f"
        using e f allow by (simp add: allows_write_def sh_payload_def)
      moreover have "log_grows w ?w"
        using e(8) log_grows_event_tick log_grows_trans by blast
      ultimately show ?thesis
        using written [of x ?w _ e f] Inr allow e(1) f
        by (simp add: sh_write_def checkPermission_def Let_def)
    qed
  qed
qed

section \<open>Histories\<close>

text \<open>Reads and writes of any keys by any agents, allowed or not, with whatever else is logged in
  between.\<close>

inductive sh_reach :: "world \<Rightarrow> shared \<times> world \<Rightarrow> bool" for w0 where
  sh_start: "sh_reach w0 ([], w0)"
| sh_reads: "sh_reach w0 sw \<Longrightarrow> sh_reach w0 (fst (sh_read a ns k gs ps sw))"
| sh_writes: "sh_reach w0 sw \<Longrightarrow> wf_js v \<Longrightarrow>
    sh_reach w0 (fst (sh_write a ns k v tx gs ps sw))"
| sh_others: "sh_reach w0 (s, w) \<Longrightarrow> log_grows w w' \<Longrightarrow>
    \<forall>e \<in> set (added w w'). le_kind e \<noteq> ''MEMORY_SHARED_WRITE'' \<Longrightarrow> sh_reach w0 (s, w')"

lemma added_eq: "wlogs w' = wlogs w @ es \<Longrightarrow> added w w' = es"
  by (simp add: added_def)

definition sh_follows :: "world \<Rightarrow> shared \<times> world \<Rightarrow> bool" where
  "sh_follows w0 sw \<longleftrightarrow>
     log_grows w0 (snd sw) \<and> writes_allowed None (added w0 (snd sw)) \<and>
     (\<forall>ns. follows (map_of (fst sw) ns) (sh_value (added w0 (snd sw)) ns) (sh_proto (added w0 (snd sw)) ns)
        (sh_written (added w0 (snd sw)) ns))"

lemma sh_follows_other:
  assumes "sh_follows w0 (s, w)" and "log_grows w w'"
    and other: "\<forall>e \<in> set (added w w'). le_kind e \<noteq> ''MEMORY_SHARED_WRITE''"
  shows "sh_follows w0 (s, w')"
proof -
  have log: "added w0 w' = added w0 w @ added w w'" "log_grows w0 w'"
    using assms(1,2) added_trans [of w0 w w'] log_grows_trans [of w0 w w'] by (simp_all add: sh_follows_def)
  have "sh_value (added w0 w') ns = sh_value (added w0 w) ns" for ns
    using other by (simp add: log sh_value_append fold_sh_other fun_eq_iff)
  then show ?thesis
    using assms(1) other log(2)
    by (simp add: sh_follows_def log(1) sh_proto_append fold_sh_proto_other sh_written_append sh_written_other
        writes_allowed_append writes_allowed_other)
qed

lemma sh_follows_write:
  assumes inv: "sh_follows w0 (s, w)" and wf: "wf_js v"
  shows "sh_follows w0 (fst (sh_write a ns k v tx gs ps (s, w)))"
proof (cases rule: sh_write_cases [of a ns k v tx gs ps s w])
  case (refused w1 e err)
  then show ?thesis using sh_follows_other [OF inv] added_eq [OF refused(2)] by simp
next
  case (written x w' p e res)
  have log: "added w0 w' = added w0 w @ [p, e]" "log_grows w0 w'"
    using inv written added_trans [of w0 w w'] added_eq [OF written(3)] log_grows_trans [of w0 w w']
    by (simp_all add: sh_follows_def)
  have p: "le_kind p \<noteq> ''MEMORY_SHARED_WRITE''" using written(4) by (simp add: allows_write_def)
  have e: "le_kind e = ''MEMORY_SHARED_WRITE''" "js_prop (le_payload e) ''namespace'' = JStr ns"
    "js_prop (le_payload e) ''key'' = JStr k" "js_prop (le_payload e) ''value'' = x"
    using written(6,8) by (simp_all add: sh_payload_def)
  have val: "sh_value (added w0 w') m = (if m = ns then (sh_value (added w0 w) m)(k := Some x) else sh_value (added w0 w) m)" for m
    using p e by (auto simp: log sh_value_append sh_write_of_def fun_eq_iff)
  have pro: "sh_proto (added w0 w') m =
      (if m = ns \<and> k = proto_key then proto_edit (Some x) (sh_proto (added w0 w) m) else sh_proto (added w0 w) m)" for m
    using p e by (auto simp: log sh_proto_append sh_proto_of_def)
  have wri: "sh_written (added w0 w') m \<longleftrightarrow> sh_written (added w0 w) m \<or> m = ns" for m
    using p e by (auto simp: log sh_written_append) (auto simp: sh_written_def)
  have old: "follows (map_of s m) (sh_value (added w0 w) m) (sh_proto (added w0 w) m) (sh_written (added w0 w) m)" for m
    using inv by (simp add: sh_follows_def)
  have "follows (Some (rec_put k x (map_get_or empty_rec s ns))) (sh_value (added w0 w') ns) (sh_proto (added w0 w') ns) True"
    by (rule follows_put [OF old json_clone_is_json [OF written(1)] json_clone_wf [OF wf written(1)]])
      (simp_all add: val pro)
  then have "follows (map_of (put_in ns k x s) m) (sh_value (added w0 w') m) (sh_proto (added w0 w') m) (sh_written (added w0 w') m)" for m
    using old [of m] by (cases "m = ns") (simp_all add: map_of_put_in_any val pro wri)
  moreover have "writes_allowed None (added w0 w')"
    using inv written(4) p by (simp add: sh_follows_def log writes_allowed_append)
  ultimately show ?thesis using log(2) written(2) by (simp add: sh_follows_def)
qed

lemma sh_reach_follows: "sh_reach w0 sw \<Longrightarrow> sh_follows w0 sw"
proof (induction rule: sh_reach.induct)
  case sh_start
  have "sh_value [] ns = (\<lambda>j. None)" for ns by (simp add: sh_value_def fun_eq_iff)
  then show ?case by (simp add: sh_follows_def follows_empty sh_proto_def sh_written_def)
next
  case (sh_reads sw a ns k gs ps)
  obtain s w where sw: "sw = (s, w)" by fastforce
  obtain w' r where r: "sh_read a ns k gs ps (s, w) = ((s, w'), r)"
    "log_grows w w'" "\<forall>e \<in> set (added w w'). le_kind e \<noteq> ''MEMORY_SHARED_WRITE''"
    using sh_read_log [of a ns k gs ps s w] added_eq [of _ w]
    by (cases "sh_read a ns k gs ps (s, w)") auto
  then show ?case using sh_follows_other sh_reads.IH sw by simp
next
  case (sh_writes sw v a ns k tx gs ps)
  then show ?case using sh_follows_write [of w0 "fst sw" "snd sw"] by simp
next
  case (sh_others s w w')
  then show ?case using sh_follows_other by blast
qed

lemma writes_allowed_nth:
  "writes_allowed p es \<Longrightarrow> i < length es \<Longrightarrow> le_kind (es ! i) = ''MEMORY_SHARED_WRITE'' \<Longrightarrow>
   (case i of 0 \<Rightarrow> \<exists>q. p = Some q \<and> allows_write q (es ! i) | Suc j \<Rightarrow> allows_write (es ! j) (es ! i))"
proof (induction p es arbitrary: i rule: writes_allowed.induct)
  case (2 p e es)
  show ?case
  proof (cases i)
    case (Suc j)
    then show ?thesis using 2 by (cases j) fastforce+
  qed (use 2 in simp)
qed simp

lemma sh_reach_own: "sh_reach w0 (s, w) \<Longrightarrow> own_value s ns k = sh_own (added w0 w) ns k"
  using follows_own [of "map_of s ns" "sh_value (added w0 w) ns" "sh_proto (added w0 w) ns" "sh_written (added w0 w) ns" k]
    sh_reach_follows [of w0 "(s, w)"]
  by (simp add: sh_follows_def own_value_get map_get_or_def sh_own_def)

lemma sh_own_quiet: "k \<noteq> proto_key \<or> \<not> sh_reprotoed es ns \<Longrightarrow> sh_own es ns k = sh_value es ns k"
  using sh_proto_quiet [of es ns] by (auto simp: sh_own_def)

section \<open>Properties\<close>

text \<open>C18: No shared write without permission (INV-03). In any history of the store, with reads and
  writes of any keys and whatever else is logged, each write entry stands immediately behind an
  evaluation that allowed this agent this write on this resource, and the store holds exactly
  what the write entries of the log say: under a key other than \<open>__proto__\<close> the value of the last
  one, and under \<open>__proto__\<close> what \<open>proto_edit\<close> makes of its writes, which is nothing unless the
  prototype was taken away before. In a namespace whose log has no write of \<open>__proto__\<close> it is the
  last value for every key.\<close>

theorem shared_writes_authorised:
  assumes "sh_reach w0 (s, w)"
  shows "(\<forall>i < length (added w0 w). le_kind (added w0 w ! i) = ''MEMORY_SHARED_WRITE'' \<longrightarrow>
      0 < i \<and> allows_write (added w0 w ! (i - 1)) (added w0 w ! i)) \<and>
    (\<forall>ns k. own_value s ns k = sh_own (added w0 w) ns k) \<and>
    (\<forall>ns k. \<not> sh_reprotoed (added w0 w) ns \<longrightarrow> own_value s ns k = sh_value (added w0 w) ns k)"
proof -
  have inv: "writes_allowed None (added w0 w)"
    using sh_reach_follows [OF assms] by (simp add: sh_follows_def)
  have "0 < i \<and> allows_write (added w0 w ! (i - 1)) (added w0 w ! i)"
    if "i < length (added w0 w)" "le_kind (added w0 w ! i) = ''MEMORY_SHARED_WRITE''" for i
    using writes_allowed_nth [OF inv that] by (cases i) auto
  then show ?thesis using sh_reach_own [OF assms] sh_own_quiet by auto
qed

definition demo_all :: grant where
  "demo_all = \<lparr>g_action = ''*'', g_resource = ''*'', g_notAfter = None\<rparr>"

definition demo_shared :: "shared \<times> world" where
  "demo_shared =
     fst (sh_write ''a'' ''n'' ''k'' (jint 5) ''t'' [demo_all] [] ([], new_world int))"

lemma demo_shared_reach: "sh_reach (new_world int) (fst demo_shared, snd demo_shared)"
  unfolding demo_shared_def prod.collapse by (intro sh_writes sh_start) simp

theorem shared_writes_authorised_witness:
  "own_value (fst demo_shared) ''n'' ''k'' =
     sh_own (added (new_world int) (snd demo_shared)) ''n'' ''k'' \<and>
   own_value (fst demo_shared) ''n'' ''k'' = Some (jint 5)"
proof -
  from shared_writes_authorised [OF demo_shared_reach]
  have "own_value (fst demo_shared) ''n'' ''k'' =
      sh_own (added (new_world int) (snd demo_shared)) ''n'' ''k''" by blast
  moreover have "own_value (fst demo_shared) ''n'' ''k'' = Some (jint 5)"
    by (simp add: demo_shared_def sh_write_def checkPermission_def evaluate_def demo_all_def
        grant_matches_def no_expiry_def Let_def own_value_put_in proto_key_def)
  ultimately show ?thesis by simp
qed

text \<open>Access is decided by the evaluation alone, and an allowed reader sees the last write. In
  any history, a read throws when the decision is not \<open>ALLOW\<close>; otherwise, for an ordinary key of
  a namespace whose log has no write of \<open>__proto__\<close>, it returns the value of the last write entry
  for that namespace and key, \<open>null\<close> if there is none; it never changes the store. The read entry
  doc/invariants.md asks for is logged only if there was a value.\<close>

theorem shared_read_spec:
  assumes "sh_reach w0 (s, w)" and "plain_key k" and "\<not> sh_reprotoed (added w0 w) ns"
  shows "case sh_read a ns k gs ps (s, w) of ((s', w'), r) \<Rightarrow>
    s' = s \<and>
    (if decision a ''read'' (shared_resource ns k) gs ps (date_now w) = ALLOW
     then r = Inr (case sh_value (added w0 w) ns k of None \<Rightarrow> JNull | Some v \<Rightarrow> v) \<and>
       length (wlogs w') = length (wlogs w) + (if sh_value (added w0 w) ns k = None then 1 else 2)
     else \<not> is_ok r \<and> length (wlogs w') = length (wlogs w) + 1)"
proof -
  let ?d = "decision a ''read'' (shared_resource ns k) gs ps (date_now w)" and ?v = "sh_value (added w0 w) ns k"
  have f: "follows (map_of s ns) (sh_value (added w0 w) ns) (None, None) (sh_written (added w0 w) ns)"
    using sh_reach_follows [OF assms(1)] sh_proto_quiet [OF assms(3)] unfolding sh_follows_def by (metis fst_conv snd_conv)
  have k: "k \<noteq> proto_key" using assms(2) by (simp add: plain_key_def)
  obtain w1 e where e: "evaluate a ''read'' (shared_resource ns k) gs ps w = (w1, ?d)"
    "wlogs w1 = wlogs w @ [e]"
    by (rule evaluate_entry)
  show ?thesis
  proof (cases "?d = ALLOW")
    case False
    then show ?thesis
      using e by (cases ?d) (simp_all add: sh_read_def checkPermission_def Let_def)
  next
    case allow: True
    show ?thesis
    proof (cases "map_of s ns")
      case None
      then have "?v = None" using follows_own [OF f, of k] k by (simp add: rec_own_def empty_rec_def)
      then show ?thesis using None allow e by (simp add: sh_read_def checkPermission_def Let_def)
    next
      case (Some r)
      have own: "rec_own r k = ?v" "rec_ok r" "proto r = None"
        using f Some k by (simp_all add: follows_def Let_def proto_state_def)
      show ?thesis
      proof (cases ?v)
        case None
        then have "rec_get r k = JUndef"
          using own assms(2) by (simp add: rec_get_def rec_own_def plain_key_def object_prototype_get_def)
        then show ?thesis using None Some allow e by (simp add: sh_read_def checkPermission_def Let_def)
      next
        case v: (Some v)
        then have "rec_get r k = v" "v \<noteq> JUndef" "json_clone v = Inr v"
          using own rec_ok_own [of r k v] by (auto simp: rec_get_own)
        then show ?thesis using v Some allow e by (simp add: sh_read_def checkPermission_def Let_def)
      qed
    qed
  qed
qed

theorem shared_read_spec_witness:
  "\<not> is_ok (snd (sh_read ''b'' ''n'' ''k'' [] [] demo_shared))"
proof -
  have "\<not> sh_reprotoed (added (new_world int) (snd demo_shared)) ''n''"
    by (simp add: demo_shared_def sh_write_def checkPermission_def evaluate_def demo_all_def grant_matches_def
        no_expiry_def Let_def sh_reprotoed_def added_def new_world_def new_logger_def sh_payload_def proto_key_def)
  from shared_read_spec [OF demo_shared_reach _ this, of "''k''" "''b''" "[]" "[]"] show ?thesis
    by (simp add: plain_key_def proto_key_def object_methods_def decision_def split: prod.splits)
qed

end
