(* ===== verification/Invariants.thy ===== *)
theory Invariants
  imports Failure Shared
begin

text \<open>
  The assertions of invariants/checker.ts. Each returns, or throws an \<open>InvariantError\<close>, which
  carries the failure event the failure handler is meant to be given. The constructor reads the
  clock; an assertion that holds does not.
\<close>

section \<open>InvariantError\<close>

record invariant_error =
  ie_error :: jserr
  ie_event :: failure_event

definition invariant_error ::
  "string \<Rightarrow> int \<Rightarrow> string \<Rightarrow> string \<Rightarrow> (string \<times> jsval) list \<Rightarrow> world \<Rightarrow> world \<times> invariant_error" where
  "invariant_error a n code msg ctx w =
     (tick_clock w,
      \<lparr>ie_error = JsErr ''InvariantError'' (''['' @ code @ ''] '' @ msg),
       ie_event = \<lparr>fe_agentId = a, fe_tickSeq = n, fe_class = INVARIANT_BREACH, fe_code = code,
                   fe_message = msg, fe_context = ctx, fe_timestamp = date_now w\<rparr>\<rparr>)"

type_synonym assertion = "world \<Rightarrow> world \<times> (invariant_error + unit)"

definition throw_unless ::
  "bool \<Rightarrow> string \<Rightarrow> int \<Rightarrow> string \<Rightarrow> string \<Rightarrow> (string \<times> jsval) list \<Rightarrow> assertion" where
  "throw_unless c a n code msg ctx w =
     (if c then (w, Inr ())
      else (let (w1, e) = invariant_error a n code msg ctx w in (w1, Inl e)))"

section \<open>The assertions\<close>

definition assertSingleTickProcessing :: "string \<Rightarrow> int \<Rightarrow> bool \<Rightarrow> assertion" where
  "assertSingleTickProcessing a n isProcessing =
     throw_unless (\<not> isProcessing) a n ''INV-03''
       ''Attempted to start processing a tick while another tick is already active for this agent.'' []"

definition assertEphemeralWipedOrCheckpointed :: "string \<Rightarrow> int \<Rightarrow> bool \<Rightarrow> bool \<Rightarrow> assertion" where
  "assertEphemeralWipedOrCheckpointed a n isWiped isCheckpointed =
     throw_unless (\<not> (\<not> isWiped \<and> \<not> isCheckpointed)) a n ''INV-05''
       ''Ephemeral memory leaked. Must be explicitly checkpointed or destroyed at the end of a tick execution.'' []"

definition assertStepBound :: "string \<Rightarrow> int \<Rightarrow> int \<Rightarrow> int \<Rightarrow> assertion" where
  "assertStepBound a n currentStep maxSteps =
     throw_unless (\<not> currentStep > maxSteps) a n ''INV-12''
       (''Determinstic execution bound broken. Tried to execute step '' @ show_int currentStep @
        '' which exceeds hard limit '' @ show_int maxSteps @ ''.'') []"

definition assertAgentNotTerminated :: "string \<Rightarrow> int \<Rightarrow> string \<Rightarrow> assertion" where
  "assertAgentNotTerminated a n currentState =
     throw_unless (currentState \<noteq> ''TERMINATED'') a n ''INV-09''
       ''Agent is TERMINATED and attempted to execute an action. Zombie execution halted.'' []"

definition js_typeof :: "jsval \<Rightarrow> string" where
  "js_typeof v =
     (case v of
        JUndef \<Rightarrow> ''undefined''
      | JBool _ \<Rightarrow> ''boolean''
      | JNum _ \<Rightarrow> ''number''
      | JStr _ \<Rightarrow> ''string''
      | JFun _ \<Rightarrow> ''function''
      | JBigInt _ \<Rightarrow> ''bigint''
      | _ \<Rightarrow> ''object'')"

definition assertSerializable :: "string \<Rightarrow> int \<Rightarrow> jsval \<Rightarrow> string \<Rightarrow> assertion" where
  "assertSerializable a n v key =
     throw_unless (json_error v = None) a n ''INV-11''
       (''Value provided for '' @ key @ '' is not JSON serializable.'')
       [(''providedType'', JStr (js_typeof v))]"

definition assert_condition :: "bool \<Rightarrow> string \<Rightarrow> int \<Rightarrow> string \<Rightarrow> string \<Rightarrow> assertion" where
  "assert_condition c a n code msg = throw_unless c a n code msg []"

lemma throw_unless_cases:
  obtains (holds) "c" "throw_unless c a n code msg ctx w = (w, Inr ())"
  | (fails) e where "\<not> c" "throw_unless c a n code msg ctx w = (tick_clock w, Inl e)"
      "fe_class (ie_event e) = INVARIANT_BREACH" "fe_agentId (ie_event e) = a"
      "fe_tickSeq (ie_event e) = n" "fe_code (ie_event e) = code"
  by (cases c) (auto simp: throw_unless_def invariant_error_def)

text \<open>Beside JSON values the serialisability assertion lets undefined and functions through, which
  have no JSON text; the stores refuse them.\<close>

lemma assertSerializable_gap:
  "(case assertSerializable a n v key w of
      (w1, Inl e) \<Rightarrow> fe_class (ie_event e) = INVARIANT_BREACH \<and> fe_code (ie_event e) = ''INV-11'' \<and>
        \<not> is_ok (json_clone v)
    | (w1, Inr _) \<Rightarrow> w1 = w \<and> (is_ok (json_clone v) \<longleftrightarrow> json_image v \<noteq> None))"
  by (auto simp: assertSerializable_def throw_unless_def invariant_error_def json_clone_def
      split: option.split)

section \<open>Properties\<close>

text \<open>A thrown assertion takes the agent down. Guarding an action with
  \<open>assertAgentNotTerminated\<close> on the controller's state throws exactly for a terminated agent; and
  whenever the event any failed assertion carries is handed to a failure handler that returns,
  the tokens of the agent and of all its descendants are revoked.\<close>

theorem terminated_agent_is_halted:
  assumes "deleg_reach (fs_delegation s, w')"
  shows "case assertAgentNotTerminated a n (state_name (getState lc a)) w of (w1, r) \<Rightarrow>
    (case r of
       Inr _ \<Rightarrow> getState lc a \<noteq> TERMINATED \<and> w1 = w
     | Inl e \<Rightarrow> getState lc a = TERMINATED \<and> fe_agentId (ie_event e) = a \<and>
         (case handle halt m (ie_event e) s of
            (s', Inl _) \<Rightarrow> True
          | (s', Inr _) \<Rightarrow>
              le_kind (last (wlogs (fs_world s'))) = ''KERNEL_PANIC'' \<and>
              (\<forall>b. (edge (fs_delegation s))\<^sup>*\<^sup>* a b \<longrightarrow>
                 map_option revoked (getToken (fs_delegation s') b) \<noteq> Some False)))"
proof -
  have name: "state_name st = ''TERMINATED'' \<longleftrightarrow> st = TERMINATED" for st
    by (cases st) simp_all
  show ?thesis
  proof (cases rule: throw_unless_cases [of "state_name (getState lc a) \<noteq> ''TERMINATED''" a n "''INV-09''"
        "''Agent is TERMINATED and attempted to execute an action. Zombie execution halted.''" "[]" w])
    case holds
    then show ?thesis by (simp add: assertAgentNotTerminated_def name)
  next
    case (fails e)
    have "(\<forall>b. (edge (fs_delegation s))\<^sup>*\<^sup>* a b \<longrightarrow> map_option revoked (getToken (fs_delegation s') b) \<noteq> Some False) \<and>
        le_kind (last (wlogs (fs_world s'))) = ''KERNEL_PANIC''"
      if "handle halt m (ie_event e) s = (s', Inr u)" for s' u
      using breach_effects [OF assms, of "ie_event e" _ halt m s'] that fails by auto
    then show ?thesis
      using fails by (auto simp: assertAgentNotTerminated_def name split: prod.split sum.split)
  qed
qed

theorem terminated_agent_is_halted_witness:
  "case snd (assertAgentNotTerminated ''r'' 2
      (state_name (getState (force_state ''r'' TERMINATED new_lifecycle) ''r'')) (new_world int)) of
     Inl e \<Rightarrow> fe_agentId (ie_event e) = ''r''
   | Inr _ \<Rightarrow> False"
  using terminated_agent_is_halted [where s = "new_fstate () (fst demo_tree) (snd demo_tree)" and
      w' = "snd demo_tree" and a = "''r''" and n = 2 and halt = "\<lambda>a h s. (s, Inr ())" and m = 3 and
      lc = "force_state ''r'' TERMINATED new_lifecycle" and w = "new_world int"] demo_tree_reach
  by (auto simp: new_fstate_def case_prod_unfold split: sum.splits)

end
