(* ===== verification/Bus.thy ===== *)
theory Bus
  imports Logging
begin

text \<open>
  Synchronous delivery (kernel/bus.ts) and the identity registry (identity/registry.ts).
  \<open>KernelBus\<close> and \<open>SwarmProtocol\<close> both keep a \<open>Map\<close> from a topic to the array of its
  handlers and call them in order. A handler acts on an environment of type \<open>'e\<close> and may
  throw, which stops the delivery: nothing catches between the handlers. Handlers that use the
  bus while it delivers are modelled in \<open>Reentrant\<close>, those of the swarm in \<open>Swarm\<close>.

  The locale \<open>topics\<close> is the contract of such a table of subscriptions; the bus is
  interpreted here, the swarm protocol in \<open>Swarm\<close>.
\<close>

section \<open>Listeners\<close>

type_synonym ('m, 'e) listener = "'m \<Rightarrow> 'e \<Rightarrow> ('e, unit) outcome"

primrec notify :: "('m, 'e) listener list \<Rightarrow> 'm \<Rightarrow> 'e \<Rightarrow> ('e, unit) outcome" where
  "notify [] m e = (e, Inr ())"
| "notify (h # hs) m e =
     (case h m e of
        (e', Inl x) \<Rightarrow> (e', Inl x)
      | (e', Inr _) \<Rightarrow> notify hs m e')"

definition add_listener ::
  "string \<Rightarrow> 'h \<Rightarrow> (string, 'h list) jsmap \<Rightarrow> (string, 'h list) jsmap" where
  "add_listener k h ls =
     (let ls1 = (if \<not> map_has ls k then AList.update k [] ls else ls)
      in AList.update k (map_get_or [] ls1 k @ [h]) ls1)"

lemma add_listener_get [simp]:
  "map_get_or [] (add_listener k h ls) k' = map_get_or [] ls k' @ (if k = k' then [h] else [])"
  by (auto simp: add_listener_def Let_def map_get_or_def map_has_def split: option.split)

lemma notify_append:
  "notify (hs @ hs') m e =
     (case notify hs m e of (e', Inl x) \<Rightarrow> (e', Inl x) | (e', Inr _) \<Rightarrow> notify hs' m e')"
  by (induction hs arbitrary: e) (auto split: prod.split sum.split)

section \<open>The contract of a table of subscriptions\<close>

locale topics =
  fixes sub :: "string \<Rightarrow> 'h \<Rightarrow> 's \<Rightarrow> 's"
    and listeners_of :: "'s \<Rightarrow> string \<Rightarrow> 'h list"
    and nobody :: 's
  assumes listeners_sub:
      "listeners_of (sub k h s) k' = listeners_of s k' @ (if k = k' then [h] else [])"
    and listeners_nobody: "listeners_of nobody k = []"
begin

definition subscribe_all :: "(string \<times> 'h) list \<Rightarrow> 's \<Rightarrow> 's" where
  "subscribe_all xs s = foldl (\<lambda>s x. sub (fst x) (snd x) s) s xs"

lemma listeners_subscribe_all:
  "listeners_of (subscribe_all xs s) k =
     listeners_of s k @ map snd (filter (\<lambda>x. fst x = k) xs)"
  by (induction xs arbitrary: s) (simp_all add: subscribe_all_def listeners_sub)

lemma listeners_from_start:
  "listeners_of (subscribe_all xs nobody) k = map snd (filter (\<lambda>x. fst x = k) xs)"
  by (simp add: listeners_subscribe_all listeners_nobody)

end

section \<open>KernelBus\<close>

datatype kernel_event =
    AGENT_SPAWNED (ev_agent: string) (ev_time: int)
  | LIFECYCLE_TRANSITION (ev_agent: string) string string (ev_time: int)
  | TICK_COMPLETED (ev_agent: string) int (ev_time: int)
  | TICK_FAILED (ev_agent: string) int string (ev_time: int)
  | TOOL_CALL_REQUESTED (ev_agent: string) string (ev_time: int)
  | MEMORY_ACCESS (ev_agent: string) string string string (ev_time: int)
  | KERNEL_PANIC (ev_agent: string) string (ev_time: int)

fun event_kind :: "kernel_event \<Rightarrow> string" where
  "event_kind (AGENT_SPAWNED a t) = ''AGENT_SPAWNED''"
| "event_kind (LIFECYCLE_TRANSITION a f g t) = ''LIFECYCLE_TRANSITION''"
| "event_kind (TICK_COMPLETED a n t) = ''TICK_COMPLETED''"
| "event_kind (TICK_FAILED a n r t) = ''TICK_FAILED''"
| "event_kind (TOOL_CALL_REQUESTED a n t) = ''TOOL_CALL_REQUESTED''"
| "event_kind (MEMORY_ACCESS a s c k t) = ''MEMORY_ACCESS''"
| "event_kind (KERNEL_PANIC a r t) = ''KERNEL_PANIC''"

type_synonym 'e event_handler = "(kernel_event, 'e) listener"

record 'e bus =
  bus_listeners :: "(string, 'e event_handler list) jsmap"

definition new_bus :: "'e bus" where
  "new_bus = \<lparr>bus_listeners = []\<rparr>"

definition bus_subscribe :: "string \<Rightarrow> 'e event_handler \<Rightarrow> 'e bus \<Rightarrow> 'e bus" where
  "bus_subscribe k h b = b\<lparr>bus_listeners := add_listener k h (bus_listeners b)\<rparr>"

definition bus_emit :: "kernel_event \<Rightarrow> 'e bus \<Rightarrow> 'e \<Rightarrow> ('e, unit) outcome" where
  "bus_emit ev b e =
     (case (if map_has (bus_listeners b) (event_kind ev)
            then notify (map_get_or [] (bus_listeners b) (event_kind ev)) ev e
            else (e, Inr ())) of
        (e1, Inl x) \<Rightarrow> (e1, Inl x)
      | (e1, Inr _) \<Rightarrow>
          if map_has (bus_listeners b) ''*''
          then notify (map_get_or [] (bus_listeners b) ''*'') ev e1
          else (e1, Inr ()))"

definition bus_handlers :: "'e bus \<Rightarrow> string \<Rightarrow> 'e event_handler list" where
  "bus_handlers b k = map_get_or [] (bus_listeners b) k"

interpretation bus_topics: topics bus_subscribe bus_handlers new_bus
  by unfold_locales (simp_all add: bus_handlers_def bus_subscribe_def new_bus_def, simp add: map_get_or_def)

lemma notify_present:
  "(if map_has m k then notify (map_get_or [] m k) ev e else (e, Inr ())) =
   notify (map_get_or [] m k) ev e"
  by (auto simp: map_has_def map_get_or_def)

lemma bus_emit_handlers:
  "bus_emit ev b e = notify (bus_handlers b (event_kind ev) @ bus_handlers b ''*'') ev e"
  unfolding bus_emit_def notify_present
  by (simp add: notify_append bus_handlers_def)

section \<open>AgentRegistry\<close>

record agent_identity =
  id_id :: string
  id_type :: string
  id_createdAt :: int
  id_name :: "string option"
  id_version :: "string option"

record agent_registry =
  identities :: "(string, agent_identity) jsmap"

definition new_agent_registry :: agent_registry where
  "new_agent_registry = \<lparr>identities = []\<rparr>"

definition registerAgent :: "agent_identity \<Rightarrow> agent_registry \<Rightarrow> (agent_registry, unit) outcome" where
  "registerAgent i r =
     (if map_has (identities r) (id_id i)
      then (r, Inl (Error (''Agent with id '' @ id_id i @ '' already registered'')))
      else (r\<lparr>identities := AList.update (id_id i) i (identities r)\<rparr>, Inr ()))"

definition getAgent :: "string \<Rightarrow> agent_registry \<Rightarrow> agent_identity option" where
  "getAgent a r = map_of (identities r) a"

definition listAgents :: "agent_registry \<Rightarrow> agent_identity list" where
  "listAgents r = map snd (identities r)"

definition register_agents :: "agent_identity list \<Rightarrow> agent_registry \<Rightarrow> agent_registry" where
  "register_agents is r = foldl (\<lambda>r i. fst (registerAgent i r)) r is"

lemma register_agents_simps [simp]:
  "register_agents [] r = r"
  "register_agents (i # is) r = register_agents is (fst (registerAgent i r))"
  "register_agents (is @ [i]) r = fst (registerAgent i (register_agents is r))"
  by (simp_all add: register_agents_def)

lemma registerAgent_list:
  "listAgents (fst (registerAgent i r)) =
     (if getAgent (id_id i) r = None then listAgents r @ [i] else listAgents r)"
  by (simp add: registerAgent_def listAgents_def getAgent_def map_has_def update_fresh)

lemma registerAgent_get:
  "getAgent a (fst (registerAgent i r)) =
     (if a = id_id i \<and> getAgent a r = None then Some i else getAgent a r)"
  by (auto simp: registerAgent_def getAgent_def map_has_def)

lemma getAgent_find: "getAgent a (register_agents is new_agent_registry) = find (\<lambda>i. id_id i = a) is"
proof (induction "is" rule: rev_induct)
  case (snoc i "is")
  have "find P (xs @ [x]) = (case find P xs of None \<Rightarrow> if P x then Some x else None | Some y \<Rightarrow> Some y)"
    for P xs and x :: agent_identity
    by (induction xs) auto
  with snoc show ?case by (auto simp: registerAgent_get split: option.split)
qed (simp add: getAgent_def new_agent_registry_def)

section \<open>Properties\<close>

text \<open>The bus delivers in a fixed order. An event reaches the handlers subscribed to exactly its
  kind, in the order they subscribed in, then the wildcard handlers in theirs, and no other; a
  handler that throws keeps it from all that come after. An identity is registered once: the
  registry answers with the first identity registered under an id, and registering under a taken
  id throws and leaves the registry as it was.\<close>

theorem bus_and_identity_order:
  "bus_emit ev (foldl (\<lambda>b x. bus_subscribe (fst x) (snd x) b) new_bus xs) e =
      notify (map snd (filter (\<lambda>x. fst x = event_kind ev) xs) @
              map snd (filter (\<lambda>x. fst x = ''*'') xs)) ev e \<and>
   getAgent a (register_agents is new_agent_registry) = find (\<lambda>i. id_id i = a) is \<and>
   registerAgent i (register_agents is new_agent_registry) =
      (if find (\<lambda>j. id_id j = id_id i) is = None
       then (register_agents (is @ [i]) new_agent_registry, Inr ())
       else (register_agents is new_agent_registry,
             Inl (Error (''Agent with id '' @ id_id i @ '' already registered''))))"
  using bus_topics.listeners_from_start [of xs]
  by (auto simp: bus_emit_handlers bus_topics.subscribe_all_def getAgent_find registerAgent_def
      map_has_def simp flip: getAgent_find [unfolded getAgent_def])

end
