(* ===== verification/Swarm.thy ===== *)
theory Swarm
  imports Bus JsValue
begin

text \<open>
  The swarm: channels, votes and the message log of swarm/protocol.ts, and the three strategies
  of swarm/coordinator.ts.

  The handlers of the channels and the functions a caller passes to \<open>execute\<close> are parameters.
  They may use the protocol (\<open>getProtocol()\<close> hands it out): subscribe handlers, read the log, and
  send messages, whose delivery runs other handlers before it returns or throws. So each of them,
  and each method of the coordinator, is a \<open>sw_script\<close>: the calls it makes, with what it does next
  for each answer. \<open>run_script\<close> runs one; its value is \<open>None\<close> where a delivery does not end. A
  message is a value here, and so is the configuration: code that changes the object of a message
  it is handed, or the caller's list of agents, while a run goes on is outside the model.
\<close>

section \<open>SwarmProtocol\<close>

record swarm_message =
  sm_from :: string
  sm_to :: string
  sm_channel :: string
  sm_payload :: jsval
  sm_timestamp :: int

record vote_request =
  vr_proposer :: string
  vr_proposal :: string
  vr_voters :: "string list"

record vote_result =
  vo_proposal :: string
  vo_votes :: "(string, bool) jsmap"
  vo_accepted :: bool
  vo_quorum :: int

text \<open>What the code of a caller does: return, throw, act on its own environment, ask for the time or
  the log, subscribe, or send; the answer of \<open>send\<close> is an exception if a handler threw one, which
  the code may catch.\<close>

datatype ('h, 'e, 'a) sw_script =
    SwReturn 'a
  | SwThrow jserr
  | SwOwn "'e \<Rightarrow> 'e" "'e \<Rightarrow> ('h, 'e, 'a) sw_script"
  | SwNow "int \<Rightarrow> ('h, 'e, 'a) sw_script"
  | SwLog "swarm_message list \<Rightarrow> ('h, 'e, 'a) sw_script"
  | SwSubscribe string string 'h "('h, 'e, 'a) sw_script"
  | SwSend swarm_message "jserr + unit \<Rightarrow> ('h, 'e, 'a) sw_script"

text \<open>A handler is known by a name; this gives the code behind it.\<close>

type_synonym ('h, 'e) message_handlers = "'h \<Rightarrow> swarm_message \<Rightarrow> ('h, 'e, unit) sw_script"

record ('h, 'e) protocol =
  channels :: "(string, 'h list) jsmap"
  messageLog :: "swarm_message list"
  pr_world :: world
  pr_env :: 'e

definition new_protocol :: "world \<Rightarrow> 'e \<Rightarrow> ('h, 'e) protocol" where
  "new_protocol w e = \<lparr>channels = [], messageLog = [], pr_world = w, pr_env = e\<rparr>"

definition sw_subscribe :: "string \<Rightarrow> string \<Rightarrow> 'h \<Rightarrow> ('h, 'e) protocol \<Rightarrow> ('h, 'e) protocol" where
  "sw_subscribe a channel h p = p\<lparr>channels := add_listener channel h (channels p)\<rparr>"

definition sw_handlers :: "('h, 'e) protocol \<Rightarrow> string \<Rightarrow> 'h list" where
  "sw_handlers p k = map_get_or [] (channels p) k"

definition getMessageLog :: "('h, 'e) protocol \<Rightarrow> swarm_message list" where
  "getMessageLog p = messageLog p"

interpretation swarm_topics: topics "sw_subscribe a" sw_handlers "new_protocol w e"
  by unfold_locales (simp_all add: sw_handlers_def sw_subscribe_def new_protocol_def,
      simp add: map_get_or_def)

text \<open>The loop of \<open>send\<close> goes through the array \<open>subscribe\<close> pushes to, by index. A delivery is a
  stack: loops with the next index, what is left of the code of handlers, and the places where a
  handler waits for its own \<open>send\<close>. An exception goes to the innermost of these.\<close>

datatype ('h, 'e) sw_frame =
    Deliver swarm_message nat
  | Body "('h, 'e, unit) sw_script"
  | Resume "jserr + unit \<Rightarrow> ('h, 'e, unit) sw_script"

definition log_message :: "swarm_message \<Rightarrow> ('h, 'e) protocol \<Rightarrow> ('h, 'e) protocol" where
  "log_message m p = p\<lparr>messageLog := messageLog p @ [m]\<rparr>"

fun sw_step ::
  "('h, 'e) message_handlers \<Rightarrow> ('h, 'e) sw_frame \<Rightarrow> ('h, 'e) protocol \<Rightarrow>
   jserr + ('h, 'e) sw_frame list \<times> ('h, 'e) protocol" where
  "sw_step code (Deliver m i) p =
     (let hs = sw_handlers p (sm_channel m)
      in if i < length hs then Inr ([Body (code (hs ! i) m), Deliver m (Suc i)], p) else Inr ([], p))"
| "sw_step code (Resume k) p = Inr ([Body (k (Inr ()))], p)"
| "sw_step code (Body (SwReturn _)) p = Inr ([], p)"
| "sw_step code (Body (SwThrow x)) p = Inl x"
| "sw_step code (Body (SwOwn f k)) p = Inr ([Body (k (pr_env p))], p\<lparr>pr_env := f (pr_env p)\<rparr>)"
| "sw_step code (Body (SwNow k)) p =
     Inr ([Body (k (date_now (pr_world p)))], p\<lparr>pr_world := tick_clock (pr_world p)\<rparr>)"
| "sw_step code (Body (SwLog k)) p = Inr ([Body (k (getMessageLog p))], p)"
| "sw_step code (Body (SwSubscribe a c h k)) p = Inr ([Body k], sw_subscribe a c h p)"
| "sw_step code (Body (SwSend m k)) p = Inr ([Deliver m 0, Resume k], log_message m p)"

fun unwind :: "jserr \<Rightarrow> ('h, 'e) sw_frame list \<Rightarrow> ('h, 'e) sw_frame list option" where
  "unwind x [] = None"
| "unwind x (Resume k # fs) = Some (Body (k (Inl x)) # fs)"
| "unwind x (Deliver m i # fs) = unwind x fs"
| "unwind x (Body s # fs) = unwind x fs"

partial_function (option) run_delivery ::
  "('h, 'e) message_handlers \<Rightarrow> ('h, 'e) sw_frame list \<Rightarrow> ('h, 'e) protocol \<Rightarrow>
   (('h, 'e) protocol, unit) outcome option" where
  "run_delivery code fs p =
     (case fs of
        [] \<Rightarrow> Some (p, Inr ())
      | f # rest \<Rightarrow>
          (case sw_step code f p of
             Inr (gs, p1) \<Rightarrow> run_delivery code (gs @ rest) p1
           | Inl x \<Rightarrow>
               (case unwind x rest of
                  None \<Rightarrow> Some (p, Inl x)
                | Some gs \<Rightarrow> run_delivery code gs p)))"

declare run_delivery.simps [code]

definition sw_send ::
  "('h, 'e) message_handlers \<Rightarrow> swarm_message \<Rightarrow> ('h, 'e) protocol \<Rightarrow>
   (('h, 'e) protocol, unit) outcome option" where
  "sw_send code m p = run_delivery code [Deliver m 0] (log_message m p)"

primrec run_script ::
  "('h, 'e) message_handlers \<Rightarrow> ('h, 'e, 'a) sw_script \<Rightarrow> ('h, 'e) protocol \<Rightarrow>
   (('h, 'e) protocol, 'a) outcome option" where
  "run_script code (SwReturn v) p = Some (p, Inr v)"
| "run_script code (SwThrow x) p = Some (p, Inl x)"
| "run_script code (SwOwn f k) p = run_script code (k (pr_env p)) (p\<lparr>pr_env := f (pr_env p)\<rparr>)"
| "run_script code (SwNow k) p =
     run_script code (k (date_now (pr_world p))) (p\<lparr>pr_world := tick_clock (pr_world p)\<rparr>)"
| "run_script code (SwLog k) p = run_script code (k (getMessageLog p)) p"
| "run_script code (SwSubscribe a c h k) p = run_script code k (sw_subscribe a c h p)"
| "run_script code (SwSend m k) p =
     (case sw_send code m p of
        None \<Rightarrow> None
      | Some (p1, r) \<Rightarrow> run_script code (k r) p1)"

text \<open>One call followed by the rest of the method, which an exception skips.\<close>

primrec sw_bind :: "('h, 'e, 'a) sw_script \<Rightarrow> ('a \<Rightarrow> ('h, 'e, 'b) sw_script) \<Rightarrow> ('h, 'e, 'b) sw_script" where
  "sw_bind (SwReturn v) f = f v"
| "sw_bind (SwThrow x) f = SwThrow x"
| "sw_bind (SwOwn g k) f = SwOwn g (\<lambda>e. sw_bind (k e) f)"
| "sw_bind (SwNow k) f = SwNow (\<lambda>t. sw_bind (k t) f)"
| "sw_bind (SwLog k) f = SwLog (\<lambda>l. sw_bind (k l) f)"
| "sw_bind (SwSubscribe a c h k) f = SwSubscribe a c h (sw_bind k f)"
| "sw_bind (SwSend m k) f = SwSend m (\<lambda>r. sw_bind (k r) f)"

text \<open>A message literal ends with \<open>timestamp: Date.now()\<close>.\<close>

definition sw_post :: "string \<Rightarrow> string \<Rightarrow> string \<Rightarrow> jsval \<Rightarrow> ('h, 'e, unit) sw_script" where
  "sw_post f t c v =
     SwNow (\<lambda>now. SwSend \<lparr>sm_from = f, sm_to = t, sm_channel = c, sm_payload = v, sm_timestamp = now\<rparr>
       (\<lambda>r. case r of Inl x \<Rightarrow> SwThrow x | Inr _ \<Rightarrow> SwReturn ()))"

definition sw_broadcast :: "string \<Rightarrow> string \<Rightarrow> jsval \<Rightarrow> ('h, 'e, unit) sw_script" where
  "sw_broadcast f c v = sw_post f ''*'' c v"

section \<open>Votes\<close>

fun count_votes ::
  "(string, bool) jsmap \<Rightarrow> string list \<Rightarrow> (string, bool) jsmap \<times> int \<Rightarrow>
   (string, bool) jsmap \<times> int" where
  "count_votes ds [] (votes, approvals) = (votes, approvals)"
| "count_votes ds (v # vs) (votes, approvals) =
     (let decision = map_get_or False ds v
      in count_votes ds vs
           (AList.update v decision votes, if decision then approvals + 1 else approvals))"

definition requestVote :: "vote_request \<Rightarrow> (string, bool) jsmap \<Rightarrow> vote_result" where
  "requestVote r ds =
     (case count_votes ds (vr_voters r) ([], 0) of
        (votes, approvals) \<Rightarrow>
          (let quorum = (int (length (vr_voters r)) + 1) div 2
           in \<lparr>vo_proposal = vr_proposal r, vo_votes = votes, vo_accepted = (approvals \<ge> quorum),
               vo_quorum = quorum\<rparr>))"

fun all_agree :: "(string, bool) jsmap \<Rightarrow> bool" where
  "all_agree [] = True"
| "all_agree ((v, vote) # votes) = (if \<not> vote then False else all_agree votes)"

definition reachConsensus :: "vote_request \<Rightarrow> (string, bool) jsmap \<Rightarrow> vote_result" where
  "reachConsensus r ds =
     (let result = requestVote r ds
      in result\<lparr>vo_accepted := all_agree (vo_votes result)\<rparr>)"

lemma count_votes_number:
  "snd (count_votes ds vs (votes, n)) = n + int (length (filter (map_get_or False ds) vs))"
  by (induction vs arbitrary: votes n) (auto simp: Let_def)

lemma count_votes_get:
  "map_of (fst (count_votes ds vs (votes, n))) v =
     (if v \<in> set vs then Some (map_get_or False ds v) else map_of votes v)"
  by (induction vs arbitrary: votes n) (auto simp: Let_def)

lemma count_votes_distinct:
  "distinct (map fst votes) \<Longrightarrow> distinct (map fst (fst (count_votes ds vs (votes, n))))"
  by (induction vs arbitrary: votes n) (auto simp: Let_def distinct_update)

lemma all_agree_iff: "all_agree m \<longleftrightarrow> (\<forall>k. (k, False) \<notin> set m)"
  by (induction m rule: all_agree.induct) auto

lemma consensus_iff:
  "all_agree (fst (count_votes ds vs ([], 0))) \<longleftrightarrow> list_all (map_get_or False ds) vs"
proof -
  let ?m = "fst (count_votes ds vs ([], 0))"
  have d: "distinct (map fst ?m)" by (rule count_votes_distinct) simp
  have "all_agree ?m \<longleftrightarrow> (\<forall>k. map_of ?m k \<noteq> Some False)"
    using d by (simp add: all_agree_iff map_of_eq_Some_iff)
  then show ?thesis by (auto simp: count_votes_get list_all_iff)
qed

section \<open>SwarmCoordinator\<close>

datatype strategy = MAP_REDUCE | CONSENSUS | PIPELINE

record swarm_config =
  agentIds :: "string list"
  goal :: string
  sw_strategy :: strategy

record swarm_result =
  sr_strategy :: strategy
  sr_goal :: string
  sr_leader :: string
  sr_agentResults :: "(string, jsval) jsmap"
  sr_finalResult :: jsval
  sr_messageCount :: int

type_synonym ('h, 'e) splitter = "string \<Rightarrow> int \<Rightarrow> ('h, 'e, jsval list) sw_script"
type_synonym ('h, 'e) worker = "string \<Rightarrow> jsval \<Rightarrow> ('h, 'e, jsval) sw_script"
type_synonym ('h, 'e) merger = "(string, jsval) jsmap \<Rightarrow> ('h, 'e, jsval) sw_script"

definition electLeader :: "swarm_config \<Rightarrow> ('h, 'e, string) sw_script" where
  "electLeader c =
     (case agentIds c of
        [] \<Rightarrow> SwThrow (Error ''SWARM_EMPTY: No agents to elect leader from.'')
      | leader # _ \<Rightarrow>
          sw_bind
            (sw_broadcast leader ''swarm.leadership''
               (JObj [(''event'', JStr ''LEADER_ELECTED''), (''leader'', JStr leader)]))
            (\<lambda>_. SwReturn leader))"

text \<open>\<open>subtasks[i % subtasks.length]\<close>: \<open>i % 0\<close> is \<open>NaN\<close>, which is no index.\<close>

definition subtask_at :: "jsval list \<Rightarrow> nat \<Rightarrow> jsval" where
  "subtask_at ts i = (if ts = [] then JUndef else ts ! (i mod length ts))"

fun map_workers ::
  "('h, 'e) worker \<Rightarrow> string \<Rightarrow> jsval list \<Rightarrow> nat \<Rightarrow> string list \<Rightarrow> (string, jsval) jsmap \<Rightarrow>
   ('h, 'e, (string, jsval) jsmap) sw_script" where
  "map_workers work leader ts i [] rs = SwReturn rs"
| "map_workers work leader ts i (a # as) rs =
     sw_bind (sw_post leader a ''swarm.task'' (JObj [(''subtask'', subtask_at ts i)])) (\<lambda>_.
     sw_bind (work a (subtask_at ts i)) (\<lambda>r.
     sw_bind (sw_post a leader ''swarm.result'' (JObj [(''result'', r)])) (\<lambda>_.
       map_workers work leader ts (Suc i) as (AList.update a r rs))))"

fun index_of :: "string \<Rightarrow> string list \<Rightarrow> nat \<Rightarrow> nat option" where
  "index_of a [] n = None"
| "index_of a (x # xs) n = (if x = a then Some n else index_of a xs (Suc n))"

text \<open>\<open>agentIds[agentIds.indexOf(agentId) + 1] || leader\<close>: past the end, and for an empty id,
  the leader.\<close>

definition next_stage :: "string list \<Rightarrow> string \<Rightarrow> string \<Rightarrow> string" where
  "next_stage ids leader a =
     (let k = (case index_of a ids 0 of None \<Rightarrow> 0 | Some n \<Rightarrow> Suc n)
      in if k < length ids \<and> ids ! k \<noteq> [] then ids ! k else leader)"

fun pipe_workers ::
  "('h, 'e) worker \<Rightarrow> string list \<Rightarrow> string \<Rightarrow> string list \<Rightarrow> jsval \<Rightarrow> (string, jsval) jsmap \<Rightarrow>
   ('h, 'e, jsval \<times> (string, jsval) jsmap) sw_script" where
  "pipe_workers work ids leader [] input rs = SwReturn (input, rs)"
| "pipe_workers work ids leader (a # as) input rs =
     sw_bind (work a input) (\<lambda>r.
     sw_bind (sw_post a (next_stage ids leader a) ''swarm.pipeline''
         (JObj [(''stage'', JStr a), (''result'', r)])) (\<lambda>_.
       pipe_workers work ids leader as r (AList.update a r rs)))"

fun free_workers ::
  "('h, 'e) worker \<Rightarrow> jsval list \<Rightarrow> nat \<Rightarrow> string list \<Rightarrow> (string, jsval) jsmap \<Rightarrow>
   ('h, 'e, (string, jsval) jsmap) sw_script" where
  "free_workers work ts i [] rs = SwReturn rs"
| "free_workers work ts i (a # as) rs =
     sw_bind (work a (subtask_at ts i)) (\<lambda>r.
       free_workers work ts (Suc i) as (AList.update a r rs))"

definition finish ::
  "swarm_config \<Rightarrow> string \<Rightarrow> (string, jsval) jsmap \<Rightarrow> jsval \<Rightarrow> ('h, 'e, swarm_result) sw_script" where
  "finish c leader rs v =
     SwLog (\<lambda>l. SwReturn
       \<lparr>sr_strategy = sw_strategy c, sr_goal = goal c, sr_leader = leader, sr_agentResults = rs,
        sr_finalResult = v, sr_messageCount = int (length l)\<rparr>)"

definition sw_execute ::
  "('h, 'e) splitter \<Rightarrow> ('h, 'e) worker \<Rightarrow> ('h, 'e) merger \<Rightarrow> swarm_config \<Rightarrow>
   ('h, 'e, swarm_result) sw_script" where
  "sw_execute split work merge c =
     sw_bind (electLeader c) (\<lambda>leader.
       (case sw_strategy c of
          MAP_REDUCE \<Rightarrow>
            sw_bind (split (goal c) (int (length (agentIds c)))) (\<lambda>ts.
            sw_bind (map_workers work leader ts 0 (agentIds c) []) (\<lambda>rs.
            sw_bind (merge rs) (\<lambda>v. finish c leader rs v)))
        | PIPELINE \<Rightarrow>
            sw_bind (pipe_workers work (agentIds c) leader (agentIds c) (JStr (goal c)) [])
              (\<lambda>(v, rs). finish c leader rs v)
        | CONSENSUS \<Rightarrow>
            sw_bind (split (goal c) (int (length (agentIds c)))) (\<lambda>ts.
            sw_bind (free_workers work ts 0 (agentIds c) []) (\<lambda>rs.
              finish c leader rs (map_get_or JUndef rs leader)))))"

section \<open>Running a script\<close>

lemma run_delivery_nil: "run_delivery code [] p = Some (p, Inr ())"
  and run_delivery_cons: "run_delivery code (f # rest) p =
    (case sw_step code f p of
       Inr (gs, p1) \<Rightarrow> run_delivery code (gs @ rest) p1
     | Inl x \<Rightarrow> (case unwind x rest of None \<Rightarrow> Some (p, Inl x) | Some gs \<Rightarrow> run_delivery code gs p))"
  by (subst run_delivery.simps; simp)+

lemma run_bind:
  "run_script code (sw_bind s f) p =
     (case run_script code s p of
        None \<Rightarrow> None
      | Some (q, Inl x) \<Rightarrow> Some (q, Inl x)
      | Some (q, Inr v) \<Rightarrow> run_script code (f v) q)"
  by (induction s arbitrary: p) (auto split: option.split prod.split)

lemma run_bind_ok:
  "run_script code (sw_bind s f) p = Some (q, Inr w) \<longleftrightarrow>
     (\<exists>p1 v. run_script code s p = Some (p1, Inr v) \<and> run_script code (f v) p1 = Some (q, Inr w))"
  by (auto simp: run_bind split: option.splits prod.splits sum.splits)

lemma finish_run:
  "run_script code (finish c leader rs v) p = Some (q, Inr r) \<longleftrightarrow>
     q = p \<and> r = \<lparr>sr_strategy = sw_strategy c, sr_goal = goal c, sr_leader = leader, sr_agentResults = rs,
       sr_finalResult = v, sr_messageCount = int (length (messageLog p))\<rparr>"
  by (auto simp: finish_def getMessageLog_def)

text \<open>The log only grows, and a message is in it before any handler sees it.\<close>

lemma sw_step_log: "sw_step code f p = Inr (gs, p1) \<Longrightarrow> prefix (messageLog p) (messageLog p1)"
  by (cases "(code, f, p)" rule: sw_step.cases)
    (auto simp: Let_def sw_subscribe_def log_message_def split: if_splits)

lemma run_delivery_log: "run_delivery code fs p = Some (q, r) \<Longrightarrow> prefix (messageLog p) (messageLog q)"
proof (induction code fs p "(q, r)" arbitrary: q r
    rule: run_delivery.raw_induct [rotated, consumes 1, case_names step])
  case (step rec code fs p)
  then show ?case
    by (force split: list.splits sum.splits option.splits
        dest: sw_step_log intro: prefix_order.trans)
qed

lemma sw_send_log: "sw_send code m p = Some (q, r) \<Longrightarrow> prefix (messageLog p @ [m]) (messageLog q)"
  using run_delivery_log [of code "[Deliver m 0]" "log_message m p" q r]
  by (simp add: sw_send_def log_message_def)

lemma run_script_log: "run_script code s p = Some (q, r) \<Longrightarrow> prefix (messageLog p) (messageLog q)"
proof (induction s arbitrary: p)
  case (SwSend m k)
  then obtain p1 u where "sw_send code m p = Some (p1, u)" "run_script code (k u) p1 = Some (q, r)"
    by (auto split: option.splits)
  then show ?case
    using SwSend.IH [of _ p1] sw_send_log [of code m p p1 u] by (auto dest: append_prefixD intro: prefix_order.trans)
qed (fastforce simp: sw_subscribe_def)+

section \<open>What a run leaves in the message log\<close>

definition route :: "swarm_message \<Rightarrow> string \<times> string \<times> string" where
  "route m = (sm_from m, sm_to m, sm_channel m)"

text \<open>Code that sends nothing.\<close>

primrec silent :: "('h, 'e, 'a) sw_script \<Rightarrow> bool" where
  "silent (SwReturn v) = True"
| "silent (SwThrow x) = True"
| "silent (SwOwn f k) = (\<forall>e. silent (k e))"
| "silent (SwNow k) = (\<forall>t. silent (k t))"
| "silent (SwLog k) = (\<forall>l. silent (k l))"
| "silent (SwSubscribe a c h k) = silent k"
| "silent (SwSend m k) = False"

fun silent_frame :: "('h, 'e) sw_frame \<Rightarrow> bool" where
  "silent_frame (Deliver m i) = True"
| "silent_frame (Body s) = silent s"
| "silent_frame (Resume k) = (\<forall>r. silent (k r))"

definition silent_handlers :: "('h, 'e) message_handlers \<Rightarrow> bool" where
  "silent_handlers code \<longleftrightarrow> (\<forall>h m. silent (code h m))"

lemma silent_step:
  assumes "sw_step code f p = Inr (gs, p1)" "silent_frame f" "silent_handlers code"
  shows "messageLog p1 = messageLog p \<and> list_all silent_frame gs"
  using assms by (cases "(code, f, p)" rule: sw_step.cases)
    (auto simp: Let_def sw_subscribe_def silent_handlers_def split: if_splits)

lemma silent_unwind:
  "unwind x fs = Some gs \<Longrightarrow> list_all silent_frame fs \<Longrightarrow> list_all silent_frame gs"
  by (induction x fs rule: unwind.induct) auto

lemma silent_delivery:
  "run_delivery code fs p = Some (q, r) \<Longrightarrow> list_all silent_frame fs \<Longrightarrow> silent_handlers code \<Longrightarrow>
   messageLog q = messageLog p"
proof (induction code fs p "(q, r)" arbitrary: q r
    rule: run_delivery.raw_induct [rotated, consumes 1, case_names step])
  case (step rec code fs p)
  show ?case
  proof (cases fs)
    case (Cons f rest)
    show ?thesis
    proof (cases "sw_step code f p")
      case (Inl x)
      then show ?thesis using step Cons silent_unwind [of x rest] by (auto split: option.splits)
    next
      case (Inr w)
      then obtain gs p1 where "sw_step code f p = Inr (gs, p1)" by (cases w) auto
      then show ?thesis using step Cons silent_step [of code f p gs p1] by auto
    qed
  qed (use step in auto)
qed

lemma silent_send:
  assumes "sw_send code m p = Some (q, r)" "silent_handlers code"
  shows "messageLog q = messageLog p @ [m]"
  using silent_delivery [of code "[Deliver m 0]" "log_message m p" q r] assms
  by (simp add: sw_send_def log_message_def)

lemma silent_script:
  "run_script code s p = Some (q, r) \<Longrightarrow> silent s \<Longrightarrow> messageLog q = messageLog p"
  by (induction s arbitrary: p) (force simp: sw_subscribe_def)+

text \<open>Between two states the log grows by messages among which those of the routes are, in order;
  under \<open>b\<close> it grows by nothing else.\<close>

definition adds_legs :: "bool \<Rightarrow> ('h, 'e) protocol \<Rightarrow> ('h, 'e) protocol \<Rightarrow> (string \<times> string \<times> string) list \<Rightarrow> bool" where
  "adds_legs b p q legs \<longleftrightarrow>
     (\<exists>ms. messageLog q = messageLog p @ ms \<and> subseq legs (map route ms) \<and> (b \<longrightarrow> map route ms = legs))"

lemma legs_refl: "adds_legs b p p []"
  by (simp add: adds_legs_def)

lemma legs_trans: "adds_legs b p q xs \<Longrightarrow> adds_legs b q r ys \<Longrightarrow> adds_legs b p r (xs @ ys)"
  by (auto simp: adds_legs_def intro: list_emb_append_mono)

lemma legs_script:
  assumes "run_script code s p = Some (q, r)" "b \<Longrightarrow> silent s"
  shows "adds_legs b p q []"
  using run_script_log [OF assms(1)] silent_script [OF assms(1)] assms(2) by (auto simp: adds_legs_def prefix_def)

lemma sw_post_run:
  "run_script code (sw_post f t c v) p = Some (q, r) \<longleftrightarrow>
     sw_send code \<lparr>sm_from = f, sm_to = t, sm_channel = c, sm_payload = v, sm_timestamp = date_now (pr_world p)\<rparr>
       (p\<lparr>pr_world := tick_clock (pr_world p)\<rparr>) = Some (q, r)"
  by (auto simp: sw_post_def Let_def split: option.splits sum.splits prod.splits)

lemma legs_post:
  assumes "run_script code (sw_post f t c v) p = Some (q, r)" "b \<Longrightarrow> silent_handlers code"
  shows "\<exists>ms. messageLog q = messageLog p @ ms \<and> prefix [(f, t, c)] (map route ms) \<and>
     (b \<longrightarrow> map route ms = [(f, t, c)])"
proof -
  let ?m = "\<lparr>sm_from = f, sm_to = t, sm_channel = c, sm_payload = v, sm_timestamp = date_now (pr_world p)\<rparr>"
  have s: "sw_send code ?m (p\<lparr>pr_world := tick_clock (pr_world p)\<rparr>) = Some (q, r)"
    using assms(1) by (simp add: sw_post_run)
  obtain ms where ms: "messageLog q = messageLog p @ ?m # ms"
    using sw_send_log [OF s] by (auto simp: prefix_def)
  moreover have "b \<Longrightarrow> ms = []" using silent_send [OF s assms(2)] ms by simp
  ultimately show ?thesis by (intro exI [of _ "?m # ms"]) (auto simp: route_def)
qed

lemma legs_posted:
  assumes "run_script code (sw_post f t c v) p = Some (q, r)" "b \<Longrightarrow> silent_handlers code"
  shows "adds_legs b p q [(f, t, c)]"
proof -
  obtain ms where "messageLog q = messageLog p @ ms" "prefix [(f, t, c)] (map route ms)"
      "b \<longrightarrow> map route ms = [(f, t, c)]"
    using legs_post [of code f t c v p q r b, OF assms] by metis
  then show ?thesis unfolding adds_legs_def by (intro exI [of _ ms] conjI prefix_imp_subseq)
qed

section \<open>The messages of the strategies\<close>

definition legs_out :: "string \<Rightarrow> string \<Rightarrow> (string \<times> string \<times> string) list" where
  "legs_out leader a = [(leader, a, ''swarm.task''), (a, leader, ''swarm.result'')]"

text \<open>The agent listed after the first place of \<open>a\<close>; the leader, if there is none or its id is empty.\<close>

definition follower :: "string \<Rightarrow> string list \<Rightarrow> string \<Rightarrow> string" where
  "follower leader ids a =
     (case tl (dropWhile (\<lambda>x. x \<noteq> a) ids) of [] \<Rightarrow> leader | b # _ \<Rightarrow> if b = [] then leader else b)"

fun strategy_legs :: "strategy \<Rightarrow> string \<Rightarrow> string list \<Rightarrow> (string \<times> string \<times> string) list" where
  "strategy_legs MAP_REDUCE leader ids = concat (map (legs_out leader) ids)"
| "strategy_legs PIPELINE leader ids = map (\<lambda>a. (a, follower leader ids a, ''swarm.pipeline'')) ids"
| "strategy_legs CONSENSUS leader ids = []"

lemma index_of_drop:
  "a \<in> set ids \<Longrightarrow> \<exists>k. index_of a ids n = Some (n + k) \<and> dropWhile (\<lambda>x. x \<noteq> a) ids = drop k ids"
proof (induction ids arbitrary: n)
  case (Cons x xs)
  show ?case
  proof (cases "x = a")
    case False
    then obtain k where "index_of a xs (Suc n) = Some (Suc n + k)" "dropWhile (\<lambda>x. x \<noteq> a) xs = drop k xs"
      using Cons.IH [of "Suc n"] Cons.prems by auto
    then show ?thesis using False by (intro exI [of _ "Suc k"]) simp
  qed auto
qed simp

lemma next_stage_follower: "a \<in> set ids \<Longrightarrow> next_stage ids leader a = follower leader ids a"
proof -
  assume "a \<in> set ids"
  from index_of_drop [OF this, of 0] obtain k
    where k: "index_of a ids 0 = Some k" "dropWhile (\<lambda>x. x \<noteq> a) ids = drop k ids" by auto
  show ?thesis
  proof (cases "Suc k < length ids")
    case True
    then have "tl (drop k ids) = ids ! Suc k # drop (Suc (Suc k)) ids"
      by (simp add: tl_drop drop_Suc [symmetric] Cons_nth_drop_Suc)
    then show ?thesis using k True by (simp add: next_stage_def follower_def)
  qed (simp add: next_stage_def follower_def k tl_drop drop_Suc [symmetric])
qed

text \<open>With distinct ids, none of them empty, the stages form a chain that ends at the leader.\<close>

lemma pipeline_chain:
  assumes "distinct ids" and "[] \<notin> set ids"
  shows "strategy_legs PIPELINE leader ids =
    map (\<lambda>(a, b). (a, b, ''swarm.pipeline'')) (zip ids (tl ids @ [leader]))"
proof (rule nth_equalityI)
  fix i
  assume "i < length (strategy_legs PIPELINE leader ids)"
  then have i: "i < length ids" by simp
  have "dropWhile (\<lambda>x. x \<noteq> ids ! i) ids = drop i ids"
  proof -
    have "\<forall>x \<in> set (take i ids). x \<noteq> ids ! i"
      using assms(1) i by (auto simp: in_set_conv_nth nth_eq_iff_index_eq)
    then have "dropWhile (\<lambda>x. x \<noteq> ids ! i) (take i ids @ drop i ids) =
        dropWhile (\<lambda>x. x \<noteq> ids ! i) (drop i ids)"
      by (intro dropWhile_append2) auto
    also have "\<dots> = drop i ids" using i by (simp add: Cons_nth_drop_Suc [symmetric])
    finally show ?thesis by simp
  qed
  moreover have "ids ! Suc i \<noteq> []" if "Suc i < length ids"
    using assms(2) nth_mem [OF that] by auto
  ultimately have "follower leader ids (ids ! i) = (tl ids @ [leader]) ! i"
    using i by (auto simp: follower_def tl_drop nth_append nth_tl drop_Suc [symmetric] less_diff_conv
        Cons_nth_drop_Suc [symmetric] split: list.split)
  then show "strategy_legs PIPELINE leader ids ! i =
      map (\<lambda>(a, b). (a, b, ''swarm.pipeline'')) (zip ids (tl ids @ [leader])) ! i"
    using i by simp
qed (cases ids, simp_all)

lemma map_workers_adds:
  assumes "run_script code (map_workers work leader ts i as rs) p = Some (q, Inr rs')"
    and "b \<Longrightarrow> silent_handlers code \<and> (\<forall>a x. silent (work a x))"
  shows "adds_legs b p q (concat (map (legs_out leader) as))"
  using assms(1)
proof (induction as arbitrary: i rs p)
  case (Cons a as)
  from Cons.prems obtain p1 u1 p2 r p3 u3 where
    s1: "run_script code (sw_post leader a ''swarm.task'' (JObj [(''subtask'', subtask_at ts i)])) p = Some (p1, Inr u1)" and
    s2: "run_script code (work a (subtask_at ts i)) p1 = Some (p2, Inr r)" and
    s3: "run_script code (sw_post a leader ''swarm.result'' (JObj [(''result'', r)])) p2 = Some (p3, Inr u3)" and
    s4: "run_script code (map_workers work leader ts (Suc i) as (AList.update a r rs)) p3 = Some (q, Inr rs')"
    by (auto simp: run_bind_ok)
  have "adds_legs b p q ([(leader, a, ''swarm.task'')] @ [] @ [(a, leader, ''swarm.result'')] @ concat (map (legs_out leader) as))"
    using assms(2) by (intro legs_trans [OF legs_posted [OF s1]] legs_trans [OF legs_script [OF s2]]
        legs_trans [OF legs_posted [OF s3] Cons.IH [OF s4]]) auto
  then show ?case by (simp add: legs_out_def [of leader a])
qed (simp add: legs_refl)

lemma pipe_workers_adds:
  assumes "run_script code (pipe_workers work ids leader as x rs) p = Some (q, Inr (v, rs'))"
    and "b \<Longrightarrow> silent_handlers code \<and> (\<forall>a x. silent (work a x))"
  shows "adds_legs b p q (map (\<lambda>a. (a, next_stage ids leader a, ''swarm.pipeline'')) as)"
  using assms(1)
proof (induction as arbitrary: x rs p)
  case (Cons a as)
  from Cons.prems obtain p1 r p2 u where
    s1: "run_script code (work a x) p = Some (p1, Inr r)" and
    s2: "run_script code (sw_post a (next_stage ids leader a) ''swarm.pipeline''
        (JObj [(''stage'', JStr a), (''result'', r)])) p1 = Some (p2, Inr u)" and
    s3: "run_script code (pipe_workers work ids leader as r (AList.update a r rs)) p2 = Some (q, Inr (v, rs'))"
    by (auto simp: run_bind_ok)
  have "adds_legs b p q ([] @ [(a, next_stage ids leader a, ''swarm.pipeline'')] @
      map (\<lambda>a. (a, next_stage ids leader a, ''swarm.pipeline'')) as)"
    using assms(2) by (intro legs_trans [OF legs_script [OF s1]] legs_trans [OF legs_posted [OF s2] Cons.IH [OF s3]]) auto
  then show ?case by simp
qed (simp add: legs_refl)

lemma free_workers_adds:
  assumes "run_script code (free_workers work ts i as rs) p = Some (q, Inr rs')"
    and "b \<Longrightarrow> \<forall>a x. silent (work a x)"
  shows "adds_legs b p q []"
  using assms(1)
proof (induction as arbitrary: i rs p)
  case (Cons a as)
  from Cons.prems obtain p1 r where
    s1: "run_script code (work a (subtask_at ts i)) p = Some (p1, Inr r)" and
    s2: "run_script code (free_workers work ts (Suc i) as (AList.update a r rs)) p1 = Some (q, Inr rs')"
    by (auto simp: run_bind_ok)
  have "adds_legs b p q ([] @ [])"
    using assms(2) by (intro legs_trans [OF legs_script [OF s1] Cons.IH [OF s2]]) auto
  then show ?case by simp
qed (simp add: legs_refl)

definition silent_swarm ::
  "('h, 'e) message_handlers \<Rightarrow> ('h, 'e) splitter \<Rightarrow> ('h, 'e) worker \<Rightarrow> ('h, 'e) merger \<Rightarrow> bool" where
  "silent_swarm code split work merge \<longleftrightarrow>
     silent_handlers code \<and> (\<forall>g n. silent (split g n)) \<and> (\<forall>a x. silent (work a x)) \<and> (\<forall>rs. silent (merge rs))"

lemma electLeader_run:
  "run_script code (electLeader c) p = Some (q, Inr leader) \<longleftrightarrow>
     (\<exists>as. agentIds c = leader # as) \<and>
     run_script code (sw_post leader ''*'' ''swarm.leadership''
       (JObj [(''event'', JStr ''LEADER_ELECTED''), (''leader'', JStr leader)])) p = Some (q, Inr ())"
  by (auto simp: electLeader_def sw_broadcast_def run_bind_ok simp del: sw_post_run split: list.split)

text \<open>A run that returns, taken apart.\<close>

lemma execute_cases:
  assumes "run_script code (sw_execute split work merge c) p = Some (q, Inr r)"
  obtains (map_reduce) p1 leader p2 ts p3 rs v where "sw_strategy c = MAP_REDUCE"
      "run_script code (electLeader c) p = Some (p1, Inr leader)"
      "run_script code (split (goal c) (int (length (agentIds c)))) p1 = Some (p2, Inr ts)"
      "run_script code (map_workers work leader ts 0 (agentIds c) []) p2 = Some (p3, Inr rs)"
      "run_script code (merge rs) p3 = Some (q, Inr v)"
      "run_script code (finish c leader rs v) q = Some (q, Inr r)"
  | (pipeline) p1 leader v rs where "sw_strategy c = PIPELINE"
      "run_script code (electLeader c) p = Some (p1, Inr leader)"
      "run_script code (pipe_workers work (agentIds c) leader (agentIds c) (JStr (goal c)) []) p1 = Some (q, Inr (v, rs))"
      "run_script code (finish c leader rs v) q = Some (q, Inr r)"
  | (consensus) p1 leader p2 ts rs where "sw_strategy c = CONSENSUS"
      "run_script code (electLeader c) p = Some (p1, Inr leader)"
      "run_script code (split (goal c) (int (length (agentIds c)))) p1 = Some (p2, Inr ts)"
      "run_script code (free_workers work ts 0 (agentIds c) []) p2 = Some (q, Inr rs)"
      "run_script code (finish c leader rs (map_get_or JUndef rs leader)) q = Some (q, Inr r)"
  using assms by (cases "sw_strategy c") (auto simp: sw_execute_def run_bind_ok finish_run)

section \<open>The calls of the worker\<close>

text \<open>The state goes through calls of the worker, each with the agent, the input and what was
  returned, in order; between them messages of the coordinator are sent.\<close>

inductive worked ::
  "('h, 'e) message_handlers \<Rightarrow> ('h, 'e) worker \<Rightarrow> ('h, 'e) protocol \<Rightarrow> (string \<times> jsval \<times> jsval) list \<Rightarrow>
   ('h, 'e) protocol \<Rightarrow> bool" for code work where
  worked_end: "worked code work p [] p"
| worked_post: "run_script code (sw_post f t c v) p = Some (p1, Inr u) \<Longrightarrow> worked code work p1 cs q \<Longrightarrow>
    worked code work p cs q"
| worked_call: "run_script code (work a x) p = Some (p1, Inr v) \<Longrightarrow> worked code work p1 cs q \<Longrightarrow>
    worked code work p ((a, x, v) # cs) q"

definition file_result :: "(string, jsval) jsmap \<Rightarrow> string \<times> jsval \<times> jsval \<Rightarrow> (string, jsval) jsmap" where
  "file_result rs call = (case call of (a, x, v) \<Rightarrow> AList.update a v rs)"

lemma file_result_simp [simp]: "file_result rs (a, x, v) = AList.update a v rs"
  by (simp add: file_result_def)

lemma filed_get:
  "map_of (foldl file_result rs cs) k = map_of (rev (map (\<lambda>(a, x, v). (a, v)) cs) @ rs) k"
  by (induction cs arbitrary: rs) (auto simp: map_add_def split: option.split)

lemma filed_keys:
  "map fst (foldl file_result [] cs) = rev (remdups (rev (map fst cs)))"
proof (induction cs rule: rev_induct)
  case (snoc c cs)
  have "fst ` set (foldl file_result [] cs) = fst ` set cs" using arg_cong [OF snoc, of set] by simp
  then show ?case using snoc by (cases c) (simp add: keys_update map_has_def map_of_eq_None_iff)
qed simp

lemma map_workers_calls:
  "run_script code (map_workers work leader ts i as rs) p = Some (q, Inr rs') \<Longrightarrow>
   \<exists>cs. worked code work p cs q \<and> map fst cs = as \<and>
     map (\<lambda>c. fst (snd c)) cs = map (subtask_at ts) [i..<i + length as] \<and> rs' = foldl file_result rs cs"
proof (induction as arbitrary: i rs p)
  case (Cons a as)
  from Cons.prems obtain p1 u1 p2 r p3 u3 where
    s1: "run_script code (sw_post leader a ''swarm.task'' (JObj [(''subtask'', subtask_at ts i)])) p = Some (p1, Inr u1)" and
    s2: "run_script code (work a (subtask_at ts i)) p1 = Some (p2, Inr r)" and
    s3: "run_script code (sw_post a leader ''swarm.result'' (JObj [(''result'', r)])) p2 = Some (p3, Inr u3)" and
    s4: "run_script code (map_workers work leader ts (Suc i) as (AList.update a r rs)) p3 = Some (q, Inr rs')"
    by (auto simp: run_bind_ok)
  obtain cs where cs: "worked code work p3 cs q" "map fst cs = as"
      "map (\<lambda>c. fst (snd c)) cs = map (subtask_at ts) [Suc i..<Suc i + length as]"
      "rs' = foldl file_result (AList.update a r rs) cs"
    using Cons.IH [OF s4] by blast
  have "worked code work p ((a, subtask_at ts i, r) # cs) q"
    by (rule worked_post [OF s1 worked_call [OF s2 worked_post [OF s3 cs(1)]]])
  then show ?case using cs(2-4)
    by (intro exI [of _ "(a, subtask_at ts i, r) # cs"]) (simp add: upt_conv_Cons del: upt_Suc)
qed (auto intro: worked_end)

lemma free_workers_calls:
  "run_script code (free_workers work ts i as rs) p = Some (q, Inr rs') \<Longrightarrow>
   \<exists>cs. worked code work p cs q \<and> map fst cs = as \<and>
     map (\<lambda>c. fst (snd c)) cs = map (subtask_at ts) [i..<i + length as] \<and> rs' = foldl file_result rs cs"
proof (induction as arbitrary: i rs p)
  case (Cons a as)
  from Cons.prems obtain p1 r where
    s1: "run_script code (work a (subtask_at ts i)) p = Some (p1, Inr r)" and
    s2: "run_script code (free_workers work ts (Suc i) as (AList.update a r rs)) p1 = Some (q, Inr rs')"
    by (auto simp: run_bind_ok)
  obtain cs where cs: "worked code work p1 cs q" "map fst cs = as"
      "map (\<lambda>c. fst (snd c)) cs = map (subtask_at ts) [Suc i..<Suc i + length as]"
      "rs' = foldl file_result (AList.update a r rs) cs"
    using Cons.IH [OF s2] by blast
  show ?case using worked_call [OF s1 cs(1)] cs(2-4)
    by (intro exI [of _ "(a, subtask_at ts i, r) # cs"]) (simp add: upt_conv_Cons del: upt_Suc)
qed (auto intro: worked_end)

lemma pipe_workers_calls:
  "run_script code (pipe_workers work ids leader as x rs) p = Some (q, Inr (v, rs')) \<Longrightarrow>
   \<exists>cs. worked code work p cs q \<and> map fst cs = as \<and>
     map (\<lambda>c. fst (snd c)) cs @ [v] = x # map (\<lambda>c. snd (snd c)) cs \<and> rs' = foldl file_result rs cs"
proof (induction as arbitrary: x rs p)
  case (Cons a as)
  from Cons.prems obtain p1 r p2 u where
    s1: "run_script code (work a x) p = Some (p1, Inr r)" and
    s2: "run_script code (sw_post a (next_stage ids leader a) ''swarm.pipeline''
        (JObj [(''stage'', JStr a), (''result'', r)])) p1 = Some (p2, Inr u)" and
    s3: "run_script code (pipe_workers work ids leader as r (AList.update a r rs)) p2 = Some (q, Inr (v, rs'))"
    by (auto simp: run_bind_ok)
  obtain cs where cs: "worked code work p2 cs q" "map fst cs = as"
      "map (\<lambda>c. fst (snd c)) cs @ [v] = r # map (\<lambda>c. snd (snd c)) cs" "rs' = foldl file_result (AList.update a r rs) cs"
    using Cons.IH [OF s3] by blast
  show ?case using worked_call [OF s1 worked_post [OF s2 cs(1)]] cs(2-4)
    by (intro exI [of _ "(a, x, r) # cs"]) simp
qed (auto intro: worked_end)

section \<open>Code that returns\<close>

text \<open>From every state of \<open>I\<close> the script returns, in a state of \<open>I\<close>.\<close>

definition returns_in ::
  "(('h, 'e) protocol \<Rightarrow> bool) \<Rightarrow> ('h, 'e) message_handlers \<Rightarrow> ('h, 'e, 'a) sw_script \<Rightarrow> bool" where
  "returns_in I code s \<longleftrightarrow> (\<forall>p. I p \<longrightarrow> (\<exists>q v. run_script code s p = Some (q, Inr v) \<and> I q))"

lemma returns_bind:
  "returns_in I code s \<Longrightarrow> (\<And>v. returns_in I code (f v)) \<Longrightarrow> returns_in I code (sw_bind s f)"
  unfolding returns_in_def run_bind_ok by metis

lemma returns_done: "returns_in I code (SwReturn v)"
  by (simp add: returns_in_def)

lemma returns_finish: "returns_in I code (finish c leader rs v)"
  by (simp add: returns_in_def finish_def)

text \<open>The channels of the coordinator's own messages.\<close>

definition swarm_channels :: "string list" where
  "swarm_channels = [''swarm.leadership'', ''swarm.task'', ''swarm.result'', ''swarm.pipeline'']"

lemma workers_return:
  assumes "\<And>f t ch v. ch \<in> set swarm_channels \<Longrightarrow> returns_in I code (sw_post f t ch v)"
    "\<And>a x. a \<in> set as \<Longrightarrow> returns_in I code (work a x)"
  shows "returns_in I code (map_workers work leader ts i as rs)"
    "returns_in I code (free_workers work ts i as rs)"
    "returns_in I code (pipe_workers work ids leader as x rs)"
proof -
  show "returns_in I code (map_workers work leader ts i as rs)"
    using assms(2) by (induction as arbitrary: i rs) (auto simp: swarm_channels_def intro!: returns_bind returns_done assms(1))
  show "returns_in I code (free_workers work ts i as rs)"
    using assms(2) by (induction as arbitrary: i rs) (auto intro!: returns_bind returns_done)
  show "returns_in I code (pipe_workers work ids leader as x rs)"
    using assms(2) by (induction as arbitrary: x rs) (auto simp: swarm_channels_def intro!: returns_bind returns_done assms(1))
qed

lemma execute_returns:
  assumes "agentIds c \<noteq> []" "\<And>f t ch v. ch \<in> set swarm_channels \<Longrightarrow> returns_in I code (sw_post f t ch v)"
    "\<And>a x. a \<in> set (agentIds c) \<Longrightarrow> returns_in I code (work a x)"
    "returns_in I code (split (goal c) (int (length (agentIds c))))" "\<And>rs. returns_in I code (merge rs)"
  shows "returns_in I code (sw_execute split work merge c)"
proof -
  have elected: "returns_in I code (electLeader c)"
    using assms(1) unfolding electLeader_def sw_broadcast_def
    by (auto simp: swarm_channels_def intro!: returns_bind returns_done assms(2) split: list.split)
  have "returns_in I code (map_workers work leader ts i (agentIds c) rs)"
    "returns_in I code (free_workers work ts i (agentIds c) rs)"
    "returns_in I code (pipe_workers work ids leader (agentIds c) x rs)" for leader ts i rs ids x
    by (rule workers_return; use assms(2,3) in auto)+
  then show ?thesis
    unfolding sw_execute_def
    by (cases "sw_strategy c") (auto intro!: returns_bind [OF elected] returns_bind returns_finish assms(4,5))
qed

section \<open>Properties\<close>

text \<open>Votes. A proposal is accepted exactly if at least half of the voters approve, counted with
  their repetitions, a voter without a decision against it: exactly half is enough, and so is
  nobody of nobody. The quorum is the half rounded up. Consensus is accepted exactly if every
  voter approves. The votes are each voter's decision.\<close>

theorem vote_spec:
  "(vo_accepted (requestVote r ds) \<longleftrightarrow>
      length (vr_voters r) \<le> 2 * length (filter (map_get_or False ds) (vr_voters r))) \<and>
   (vo_accepted (reachConsensus r ds) \<longleftrightarrow> list_all (map_get_or False ds) (vr_voters r)) \<and>
   length (vr_voters r) \<le> 2 * nat (vo_quorum (requestVote r ds)) \<and>
   2 * nat (vo_quorum (requestVote r ds)) \<le> length (vr_voters r) + 1 \<and>
   map_of (vo_votes (reachConsensus r ds)) v =
     (if v \<in> set (vr_voters r) then Some (map_get_or False ds v) else None)"
  using count_votes_number [of ds "vr_voters r" "[]" 0] consensus_iff [of ds "vr_voters r"]
    count_votes_get [of ds "vr_voters r" "[]" 0 v]
  by (auto simp: requestVote_def reachConsensus_def Let_def split: prod.splits)

lemma execute_adds:
  assumes "run_script code (sw_execute split work merge c) p = Some (q, Inr r)"
    and b: "b \<Longrightarrow> silent_swarm code split work merge"
  shows "\<exists>p1 leader. run_script code (electLeader c) p = Some (p1, Inr leader) \<and>
    adds_legs b p1 q (strategy_legs (sw_strategy c) leader (agentIds c))"
  using assms(1)
proof (cases rule: execute_cases)
  case (map_reduce p1 leader p2 ts p3 rs v)
  have "adds_legs b p1 q ([] @ strategy_legs MAP_REDUCE leader (agentIds c) @ [])"
    unfolding strategy_legs.simps using b
    by (intro legs_trans [OF legs_script [OF map_reduce(3)]] legs_trans [OF map_workers_adds [OF map_reduce(4)]]
        legs_script [OF map_reduce(5)]) (auto simp: silent_swarm_def)
  then show ?thesis using map_reduce(1,2) by auto
next
  case (pipeline p1 leader v rs)
  have "adds_legs b p1 q (map (\<lambda>a. (a, next_stage (agentIds c) leader a, ''swarm.pipeline'')) (agentIds c))"
    using b by (intro pipe_workers_adds [OF pipeline(3)]) (auto simp: silent_swarm_def)
  then show ?thesis using pipeline(1,2) by (auto simp: next_stage_follower cong: map_cong)
next
  case (consensus p1 leader p2 ts rs)
  have "adds_legs b p1 q ([] @ [])"
    using b by (intro legs_trans [OF legs_script [OF consensus(3)] free_workers_adds [OF consensus(4)]])
      (auto simp: silent_swarm_def)
  then show ?thesis using consensus(1,2) by auto
qed

lemma execute_calls:
  assumes "run_script code (sw_execute split work merge c) p = Some (q, Inr r)"
  shows "\<exists>p1 p2 p3 cs as. run_script code (electLeader c) p = Some (p1, Inr (sr_leader r)) \<and>
     agentIds c = sr_leader r # as \<and>
     sr_strategy r = sw_strategy c \<and> sr_goal r = goal c \<and> sr_messageCount r = int (length (messageLog q)) \<and>
     worked code work p2 cs p3 \<and> map fst cs = agentIds c \<and> sr_agentResults r = foldl file_result [] cs \<and>
     (case sw_strategy c of
        PIPELINE \<Rightarrow> p2 = p1 \<and> p3 = q \<and>
          map (\<lambda>c. fst (snd c)) cs @ [sr_finalResult r] = JStr (goal c) # map (\<lambda>c. snd (snd c)) cs
      | _ \<Rightarrow> (\<exists>ts. run_script code (split (goal c) (int (length (agentIds c)))) p1 = Some (p2, Inr ts) \<and>
          map (\<lambda>c. fst (snd c)) cs = map (subtask_at ts) [0..<length (agentIds c)]) \<and>
          (if sw_strategy c = MAP_REDUCE
           then run_script code (merge (sr_agentResults r)) p3 = Some (q, Inr (sr_finalResult r))
           else p3 = q \<and> map_of (sr_agentResults r) (sr_leader r) = Some (sr_finalResult r)))"
  using assms
proof (cases rule: execute_cases)
  case (map_reduce p1 leader p2 ts p3 rs v)
  then show ?thesis
    using map_workers_calls [OF map_reduce(4)] by (auto simp: finish_run electLeader_run)
next
  case (pipeline p1 leader v rs)
  then show ?thesis
    using pipe_workers_calls [OF pipeline(3)] by (auto simp: finish_run electLeader_run)
next
  case (consensus p1 leader p2 ts rs)
  obtain cs where cs: "worked code work p2 cs q" "map fst cs = agentIds c"
      "map (\<lambda>c. fst (snd c)) cs = map (subtask_at ts) [0..<length (agentIds c)]" "rs = foldl file_result [] cs"
    using free_workers_calls [OF consensus(4)] by auto
  obtain as where as: "agentIds c = leader # as" using consensus(2) by (auto simp: electLeader_run)
  have "leader \<in> set (map fst rs)" using cs as by (simp add: filed_keys)
  then obtain v where "map_of rs leader = Some v" by (metis in_set_conv_decomp list.set_map map_of_eq_None_iff not_None_eq)
  then show ?thesis using consensus cs as
    by (intro exI [of _ p1] exI [of _ p2] exI [of _ q] exI [of _ cs] exI [of _ as])
      (auto simp: finish_run map_get_or_def)
qed

text \<open>C33: The message log of a run is the documented exchange. When \<open>execute\<close> returns, whatever the
  functions and the handlers do with the protocol meanwhile, the leader is the first agent, every
  agent has a result and no one else, and the messages added to the log begin with the election
  broadcast and contain in order the strategy's messages: a task and a result message for each
  agent; one hand-over from each stage to the agent listed after the first place of its id, to the
  leader past the end or if that id is empty; or none. If no handler and no function sends, these
  are exactly the messages added. The reported count is the length of the log. With distinct ids,
  none of them empty, the hand-overs are the chain through the stages back to the leader.\<close>

theorem swarm_traffic:
  assumes "run_script code (sw_execute split work merge c) p = Some (q, Inr r)"
  shows "\<exists>ms. let legs = (hd (agentIds c), ''*'', ''swarm.leadership'') #
        strategy_legs (sw_strategy c) (hd (agentIds c)) (agentIds c)
    in messageLog q = messageLog p @ ms \<and> take 1 (map route ms) = take 1 legs \<and> subseq legs (map route ms) \<and>
       (silent_swarm code split work merge \<longrightarrow> map route ms = legs) \<and>
       sr_leader r = hd (agentIds c) \<and> dom (map_of (sr_agentResults r)) = set (agentIds c) \<and>
       sr_messageCount r = int (length (messageLog q)) \<and>
       (distinct (agentIds c) \<and> [] \<notin> set (agentIds c) \<and> sw_strategy c = PIPELINE \<longrightarrow>
         tl legs = map (\<lambda>(a, b). (a, b, ''swarm.pipeline'')) (zip (agentIds c) (tl (agentIds c) @ [hd (agentIds c)])))"
proof -
  let ?b = "silent_swarm code split work merge"
  let ?e = "(hd (agentIds c), ''*'', ''swarm.leadership'')"
  let ?legs = "strategy_legs (sw_strategy c) (hd (agentIds c)) (agentIds c)"
  obtain p1 leader where e: "run_script code (electLeader c) p = Some (p1, Inr leader)"
      and s: "adds_legs ?b p1 q (strategy_legs (sw_strategy c) leader (agentIds c))"
    using execute_adds [OF assms, of ?b] by blast
  obtain cs as where calls: "agentIds c = sr_leader r # as" "map fst cs = agentIds c"
      "sr_agentResults r = foldl file_result [] cs" "sr_messageCount r = int (length (messageLog q))"
    using execute_calls [OF assms] by blast
  have l: "leader = hd (agentIds c)" using e by (auto simp: electLeader_run)
  obtain ms1 where 1: "messageLog p1 = messageLog p @ ms1" "prefix [?e] (map route ms1)"
      "?b \<longrightarrow> map route ms1 = [?e]"
    using legs_post [of code leader "''*''" "''swarm.leadership''" _ p p1 "Inr ()" ?b] e l
    by (fastforce simp: electLeader_run silent_swarm_def)
  obtain ms2 where 2: "messageLog q = messageLog p1 @ ms2" "subseq ?legs (map route ms2)"
      "?b \<longrightarrow> map route ms2 = ?legs"
    using s l by (auto simp: adds_legs_def)
  have "dom (map_of (sr_agentResults r)) = set (map fst (sr_agentResults r))" by (simp add: dom_map_of_conv_image_fst)
  also have "\<dots> = set (agentIds c)" using calls(2) by (simp add: calls(3) filed_keys)
  finally have d: "dom (map_of (sr_agentResults r)) = set (agentIds c)" .
  have sub: "subseq ([?e] @ ?legs) (map route (ms1 @ ms2))"
    using 1(2) 2(2) by (simp only: map_append) (rule list_emb_append_mono, auto)
  have "take 1 (map route (ms1 @ ms2)) = [?e]" using 1(2) by (auto simp: prefix_def)
  then show ?thesis
    using 1 2 sub d calls pipeline_chain [of "agentIds c" "hd (agentIds c)"]
    by (intro exI [of _ "ms1 @ ms2"]) auto
qed

text \<open>C34: A run returns what its strategy computes, whatever state the functions keep. Let \<open>I\<close> hold of
  the state, and let the splitter, the workers and the merger each return from every state of
  \<open>I\<close>, and the delivery of each of the coordinator's messages, into a state of \<open>I\<close>; then
  \<open>execute\<close> returns for every non-empty swarm. When it returns, the worker was called once for each
  place in the list of agents, in order, one call on the state the other left but for messages of
  the coordinator; the results hold each agent's last answer, in the order of their first places;
  MAP_REDUCE hands the subtasks out in turn and returns what the merger makes of the results;
  CONSENSUS does too but returns the leader's; PIPELINE feeds each agent the answer of the one
  before, the first the goal, and returns the last. An empty swarm throws before anything is sent.\<close>

theorem swarm_result:
  assumes "I p" and "\<And>f t ch v. ch \<in> set swarm_channels \<Longrightarrow> returns_in I code (sw_post f t ch v)"
    and "returns_in I code (split (goal c) (int (length (agentIds c))))"
    and "\<And>a x. a \<in> set (agentIds c) \<Longrightarrow> returns_in I code (work a x)" and "\<And>rs. returns_in I code (merge rs)"
  shows "case agentIds c of
      [] \<Rightarrow> run_script code (sw_execute split work merge c) p =
        Some (p, Inl (Error ''SWARM_EMPTY: No agents to elect leader from.''))
    | leader # _ \<Rightarrow>
        \<exists>q r p1 p2 p3 cs. run_script code (sw_execute split work merge c) p = Some (q, Inr r) \<and> I q \<and>
          run_script code (electLeader c) p = Some (p1, Inr leader) \<and>
          worked code work p2 cs p3 \<and> map fst cs = agentIds c \<and>
          map_of (sr_agentResults r) = map_of (rev (map (\<lambda>(a, x, v). (a, v)) cs)) \<and>
          map fst (sr_agentResults r) = rev (remdups (rev (agentIds c))) \<and>
          (case sw_strategy c of
             PIPELINE \<Rightarrow> p2 = p1 \<and> p3 = q \<and>
               map (\<lambda>c. fst (snd c)) cs @ [sr_finalResult r] = JStr (goal c) # map (\<lambda>c. snd (snd c)) cs
           | _ \<Rightarrow> (\<exists>ts. run_script code (split (goal c) (int (length (agentIds c)))) p1 = Some (p2, Inr ts) \<and>
               map (\<lambda>c. fst (snd c)) cs = map (subtask_at ts) [0..<length (agentIds c)]) \<and>
               (if sw_strategy c = MAP_REDUCE
                then run_script code (merge (sr_agentResults r)) p3 = Some (q, Inr (sr_finalResult r))
                else p3 = q \<and> map_of (sr_agentResults r) leader = Some (sr_finalResult r)))"
proof (cases "agentIds c")
  case Nil
  then show ?thesis by (simp add: sw_execute_def electLeader_def)
next
  case (Cons a as)
  have "returns_in I code (sw_execute split work merge c)"
    by (rule execute_returns) (use Cons assms(2-5) in auto)
  then obtain q r where run: "run_script code (sw_execute split work merge c) p = Some (q, Inr r)" "I q"
    using assms(1) by (auto simp: returns_in_def)
  obtain p1 p2 p3 cs where cs: "run_script code (electLeader c) p = Some (p1, Inr (sr_leader r))"
      "sr_leader r = a" "worked code work p2 cs p3" "map fst cs = agentIds c"
      "sr_agentResults r = foldl file_result [] cs"
    and st: "case sw_strategy c of
        PIPELINE \<Rightarrow> p2 = p1 \<and> p3 = q \<and>
          map (\<lambda>c. fst (snd c)) cs @ [sr_finalResult r] = JStr (goal c) # map (\<lambda>c. snd (snd c)) cs
      | _ \<Rightarrow> (\<exists>ts. run_script code (split (goal c) (int (length (agentIds c)))) p1 = Some (p2, Inr ts) \<and>
          map (\<lambda>c. fst (snd c)) cs = map (subtask_at ts) [0..<length (agentIds c)]) \<and>
          (if sw_strategy c = MAP_REDUCE
           then run_script code (merge (sr_agentResults r)) p3 = Some (q, Inr (sr_finalResult r))
           else p3 = q \<and> map_of (sr_agentResults r) (sr_leader r) = Some (sr_finalResult r))"
    using execute_calls [OF run(1)] Cons by auto
  have "map_of (sr_agentResults r) = map_of (rev (map (\<lambda>(a, x, v). (a, v)) cs))"
    using filed_get [of "[]" cs] by (auto simp: cs(5))
  moreover have "map fst (sr_agentResults r) = rev (remdups (rev (agentIds c)))"
    by (simp add: cs(4,5) filed_keys)
  ultimately have "run_script code (sw_execute split work merge c) p = Some (q, Inr r) \<and> I q \<and>
      run_script code (electLeader c) p = Some (p1, Inr a) \<and> worked code work p2 cs p3 \<and> map fst cs = agentIds c \<and>
      map_of (sr_agentResults r) = map_of (rev (map (\<lambda>(a, x, v). (a, v)) cs)) \<and>
      map fst (sr_agentResults r) = rev (remdups (rev (agentIds c)))"
    using run cs by simp
  with st show ?thesis
    unfolding Cons list.case cs(2)
    by - (rule exI [of _ q], rule exI [of _ r], rule exI [of _ p1], rule exI [of _ p2], rule exI [of _ p3],
      rule exI [of _ cs], simp only: simp_thms)
qed

section \<open>Instances\<close>

text \<open>A worker that counts its calls and announces each one, and a handler that answers an
  announcement with a message of its own; results are counted by a handler as well.\<close>

definition demo_work :: "(nat, nat) worker" where
  "demo_work a t = SwOwn Suc (\<lambda>n. sw_bind (sw_broadcast a ''demo.progress'' (jint (int n)))
     (\<lambda>_. SwReturn (JArr [JStr a, t, jint (int n)])))"

definition demo_handlers :: "(nat, nat) message_handlers" where
  "demo_handlers h m =
     (if h = 0 then sw_post ''log'' (sm_from m) ''demo.seen'' (sm_payload m) else SwOwn Suc (\<lambda>_. SwReturn ()))"

definition demo_split :: "(nat, nat) splitter" where
  "demo_split g n = SwReturn [JNum (NInt 1), JNum (NInt 2)]"

definition demo_merge :: "(nat, nat) merger" where
  "demo_merge rs = SwReturn (JArr (map snd rs))"

definition demo_config :: "strategy \<Rightarrow> swarm_config" where
  "demo_config st = \<lparr>agentIds = [''a'', ''b''], goal = ''g'', sw_strategy = st\<rparr>"

definition demo_protocol :: "(nat, nat) protocol" where
  "demo_protocol =
     sw_subscribe ''l'' ''demo.progress'' 0 (sw_subscribe ''l'' ''swarm.result'' 1 (new_protocol (new_world int) 0))"

lemmas demo_defs = demo_work_def demo_split_def demo_merge_def demo_config_def demo_protocol_def new_protocol_def
  sw_subscribe_def add_listener_def map_has_def map_get_or_def

lemma demo_post:
  assumes "channels p = channels demo_protocol"
  shows "\<exists>q. run_script demo_handlers (sw_post f t ch v) p = Some (q, Inr ()) \<and> channels q = channels demo_protocol"
  using assms
  by (cases "ch = ''demo.progress'' \<or> ch = ''swarm.result''")
    (auto simp: sw_post_run sw_send_def run_delivery_nil run_delivery_cons log_message_def sw_handlers_def
      demo_defs demo_handlers_def sw_post_def Let_def)

abbreviation demo_inv :: "(nat, nat) protocol \<Rightarrow> bool" where
  "demo_inv p \<equiv> channels p = channels demo_protocol"

lemma demo_returns:
  "returns_in demo_inv demo_handlers (sw_post f t ch v)"
  "returns_in demo_inv demo_handlers (demo_split g n)"
  "returns_in demo_inv demo_handlers (demo_work a x)"
  "returns_in demo_inv demo_handlers (demo_merge rs)"
proof -
  show post: "returns_in demo_inv demo_handlers (sw_post f t ch v)" for f t ch v
    using demo_post by (auto simp: returns_in_def)
  show "returns_in demo_inv demo_handlers (demo_split g n)" "returns_in demo_inv demo_handlers (demo_merge rs)"
    by (simp_all add: demo_split_def demo_merge_def returns_done)
  have "returns_in demo_inv demo_handlers (sw_bind (sw_broadcast a ''demo.progress'' (jint (int n)))
      (\<lambda>_. SwReturn (JArr [JStr a, x, jint (int n)])))" for n
    unfolding sw_broadcast_def by (intro returns_bind post returns_done)
  then show "returns_in demo_inv demo_handlers (demo_work a x)"
    by (simp add: returns_in_def demo_work_def)
qed

lemma swarm_traffic_witness:
  "\<exists>q r ms. run_script demo_handlers (sw_execute demo_split demo_work demo_merge (demo_config PIPELINE)) demo_protocol =
       Some (q, Inr r) \<and> messageLog q = ms \<and>
     subseq [(''a'', ''*'', ''swarm.leadership''), (''a'', ''b'', ''swarm.pipeline''), (''b'', ''a'', ''swarm.pipeline'')]
       (map route ms)"
proof -
  have "returns_in demo_inv demo_handlers (sw_execute demo_split demo_work demo_merge (demo_config PIPELINE))"
    by (rule execute_returns) (simp_all add: demo_returns demo_config_def)
  then obtain q r where
    run: "run_script demo_handlers (sw_execute demo_split demo_work demo_merge (demo_config PIPELINE)) demo_protocol =
      Some (q, Inr r)"
    by (auto simp: returns_in_def)
  show ?thesis
    using swarm_traffic [OF run] run
    by (auto simp: Let_def demo_defs follower_def)
qed

lemma swarm_result_witness:
  "\<exists>q r. run_script demo_handlers (sw_execute demo_split demo_work demo_merge (demo_config MAP_REDUCE)) demo_protocol =
       Some (q, Inr r) \<and> map fst (sr_agentResults r) = [''a'', ''b''] \<and>
     sr_finalResult r = JArr (map snd (sr_agentResults r))"
  using swarm_result [of demo_inv demo_protocol demo_handlers demo_split "demo_config MAP_REDUCE" demo_work demo_merge,
      OF refl demo_returns(1,2,3,4)]
  by (auto simp: demo_config_def demo_merge_def)

text \<open>Its counting shows in the answers: the second call finds what the first and the handler counted.\<close>

lemma demo_answers:
  "\<exists>q r. run_script demo_handlers (sw_execute demo_split demo_work demo_merge (demo_config MAP_REDUCE)) demo_protocol =
       Some (q, Inr r) \<and>
     sr_finalResult r = JArr [JArr [JStr ''a'', JNum (NInt 1), jint 0], JArr [JStr ''b'', JNum (NInt 2), jint 2]] \<and>
     sr_messageCount r = 9"
  by (simp add: sw_execute_def electLeader_def sw_broadcast_def sw_post_def sw_send_def run_delivery_nil run_delivery_cons
      log_message_def sw_handlers_def demo_defs demo_handlers_def finish_def getMessageLog_def subtask_at_def)

text \<open>An agent listed twice: its second stage hands over to the stage after its first, not to the leader.\<close>

lemma repeated_stage_misroutes:
  "\<exists>q r. run_script h (sw_execute demo_split (\<lambda>a x. SwReturn x) demo_merge
        \<lparr>agentIds = [''a'', ''b'', ''a''], goal = ''g'', sw_strategy = PIPELINE\<rparr>) (new_protocol (new_world int) 0) =
      Some (q, Inr r) \<and>
    map route (messageLog q) = [(''a'', ''*'', ''swarm.leadership''), (''a'', ''b'', ''swarm.pipeline''),
      (''b'', ''a'', ''swarm.pipeline''), (''a'', ''b'', ''swarm.pipeline'')]"
  by (simp add: sw_execute_def electLeader_def sw_broadcast_def sw_post_def sw_send_def run_delivery_nil run_delivery_cons
      log_message_def sw_handlers_def new_protocol_def map_get_or_def next_stage_def Let_def finish_def route_def)

end
