(* ===== verification/Paths.thy ===== *)
theory Paths
  imports Prelude
begin

text \<open>
  The POSIX paths of Node's \<open>path\<close> module, as far as the program uses them: \<open>resolve\<close>, \<open>join\<close>,
  \<open>dirname\<close> and \<open>basename\<close>. The working directory \<open>resolve\<close> starts from is an argument.
\<close>

section \<open>Normal form\<close>

abbreviation slash :: char where
  "slash \<equiv> CHR ''/''"

definition segments :: "string \<Rightarrow> string list" where
  "segments p = filter (\<lambda>s. s \<noteq> [] \<and> s \<noteq> ''.'') (split_on slash p)"

text \<open>\<open>..\<close> takes the segment before it; above the root of an absolute path there is nothing to
  take, a relative path keeps it.\<close>

definition push_segment :: "bool \<Rightarrow> string list \<Rightarrow> string \<Rightarrow> string list" where
  "push_segment absolute st s =
     (if s \<noteq> ''..'' then st @ [s]
      else if st \<noteq> [] \<and> last st \<noteq> ''..'' then butlast st
      else if absolute then st
      else st @ [s])"

definition normal_segments :: "bool \<Rightarrow> string \<Rightarrow> string list" where
  "normal_segments absolute p = foldl (push_segment absolute) [] (segments p)"

definition slash_join :: "string list \<Rightarrow> string" where
  "slash_join ss = concat (map (\<lambda>s. slash # s) ss)"

definition is_absolute :: "string \<Rightarrow> bool" where
  "is_absolute p \<longleftrightarrow> p \<noteq> [] \<and> hd p = slash"

definition abs_path :: "string list \<Rightarrow> string" where
  "abs_path ss = (if ss = [] then [slash] else slash_join ss)"

section \<open>The functions of the module\<close>

definition extend_path :: "string \<Rightarrow> string \<Rightarrow> string" where
  "extend_path cur p = (if p = [] then cur else if is_absolute p then p else cur @ slash # p)"

definition path_resolve :: "string \<Rightarrow> string list \<Rightarrow> string" where
  "path_resolve cwd ps = abs_path (normal_segments True (foldl extend_path cwd ps))"

definition path_normalize :: "string \<Rightarrow> string" where
  "path_normalize p =
     (if p = [] then ''.''
      else (let absolute = is_absolute p; trailing = (last p = slash);
                ss = normal_segments absolute p;
                body = (if ss = [] \<and> \<not> absolute then ''.'' else tl (slash_join ss));
                tail = (if trailing \<and> (ss \<noteq> [] \<or> \<not> absolute) then [slash] else [])
            in (if absolute then [slash] else []) @ body @ tail))"

definition path_join :: "string \<Rightarrow> string \<Rightarrow> string" where
  "path_join a b =
     (if a = [] then path_normalize b
      else if b = [] then path_normalize a
      else path_normalize (a @ slash # b))"

text \<open>For paths that do not end with a separator, as those of \<open>resolve\<close> do not (but for the root,
  its own parent).\<close>

definition path_dirname :: "string \<Rightarrow> string" where
  "path_dirname p =
     (let d = rev (tl (dropWhile (\<lambda>c. c \<noteq> slash) (rev p)))
      in if slash \<notin> set p then ''.'' else if d = [] then [slash] else d)"

definition strip_suffix :: "string \<Rightarrow> string \<Rightarrow> string" where
  "strip_suffix ext s =
     (if suffix ext s \<and> s \<noteq> ext then take (length s - length ext) s else s)"

definition path_basename :: "string \<Rightarrow> string \<Rightarrow> string" where
  "path_basename p ext =
     (let q = rev (dropWhile (\<lambda>c. c = slash) (rev p))
      in if ext \<noteq> [] \<and> p = ext then []
         else strip_suffix ext (rev (takeWhile (\<lambda>c. c \<noteq> slash) (rev q))))"

section \<open>Lemmas\<close>

text \<open>A segment of a normal absolute path.\<close>

definition plain_segment :: "string \<Rightarrow> bool" where
  "plain_segment s \<longleftrightarrow> s \<noteq> [] \<and> s \<noteq> ''.'' \<and> s \<noteq> ''..'' \<and> slash \<notin> set s"

lemma slash_join_simps [simp]:
  "slash_join [] = []" "slash_join (s # ss) = slash # s @ slash_join ss"
  "slash_join (ss @ ts) = slash_join ss @ slash_join ts"
  by (simp_all add: slash_join_def)

lemma split_on_no_sep_mem: "s \<in> set (split_on c p) \<Longrightarrow> c \<notin> set s"
  by (induction p arbitrary: s) (auto split: list.splits if_splits)

lemma segments_mem: "s \<in> set (segments p) \<Longrightarrow> s \<noteq> [] \<and> s \<noteq> ''.'' \<and> slash \<notin> set s"
  by (auto simp: segments_def dest: split_on_no_sep_mem)

lemma push_plain:
  assumes "list_all plain_segment st" and "s \<noteq> [] \<and> s \<noteq> ''.'' \<and> slash \<notin> set s"
  shows "list_all plain_segment (push_segment True st s)"
  using assms
  by (auto simp: push_segment_def plain_segment_def list_all_iff dest: in_set_butlastD)

lemma foldl_push_plain:
  "list_all plain_segment st \<Longrightarrow> (\<And>s. s \<in> set ss \<Longrightarrow> s \<noteq> [] \<and> s \<noteq> ''.'' \<and> slash \<notin> set s) \<Longrightarrow>
   list_all plain_segment (foldl (push_segment True) st ss)"
proof (induction ss arbitrary: st)
  case (Cons s ss)
  have "list_all plain_segment (push_segment True st s)"
    using Cons.prems by (intro push_plain) auto
  then show ?case using Cons by simp
qed simp

lemma normal_segments_plain: "list_all plain_segment (normal_segments True p)"
  unfolding normal_segments_def by (rule foldl_push_plain) (auto dest: segments_mem)

lemma plain_push: "plain_segment s \<Longrightarrow> push_segment a st s = st @ [s]"
  by (simp add: push_segment_def plain_segment_def)

lemma plain_foldl_push: "list_all plain_segment ss \<Longrightarrow> foldl (push_segment a) st ss = st @ ss"
  by (induction ss arbitrary: st) (simp_all add: plain_push)

lemma segments_split: "segments (p @ slash # q) = segments p @ segments q"
proof -
  have "split_on slash (p @ slash # q) = split_on slash p @ split_on slash q"
    by (induction p) (auto split: list.split simp: append_eq_Cons_conv)
  then show ?thesis by (simp add: segments_def)
qed

lemma segments_join: "list_all plain_segment ss \<Longrightarrow> segments (p @ slash_join ss) = segments p @ ss"
proof (induction ss arbitrary: p)
  case (Cons s ss)
  have "segments s = [s]"
    using Cons.prems by (simp add: segments_def split_on_no_sep plain_segment_def)
  then show ?case
    using Cons.IH [of "p @ slash # s"] Cons.prems by (simp add: segments_split)
qed simp

lemma segments_abs_path [simp]: "list_all plain_segment ss \<Longrightarrow> segments (abs_path ss) = ss"
  using segments_join [of ss "[]"] by (simp add: abs_path_def segments_def)

lemma normal_abs_path [simp]:
  "list_all plain_segment ss \<Longrightarrow> normal_segments a (abs_path ss) = ss"
  by (simp add: normal_segments_def plain_foldl_push)

lemma abs_path_absolute [simp]: "is_absolute (abs_path ss)" "abs_path ss \<noteq> []"
  by (cases ss; simp add: abs_path_def is_absolute_def)+

lemma resolve_absolute:
  "list_all plain_segment ss \<Longrightarrow> path_resolve cwd [d, abs_path ss] = abs_path ss"
  by (simp add: path_resolve_def extend_path_def)

lemma resolve_form: "\<exists>ss. path_resolve cwd ps = abs_path ss \<and> list_all plain_segment ss"
  unfolding path_resolve_def using normal_segments_plain by blast

text \<open>\<open>startsWith\<close> on normal paths compares the last segment of the prefix only up to its length.\<close>

lemma prefix_segment:
  assumes "slash \<notin> set b" and "slash \<notin> set t"
  shows "prefix (b @ slash_join bs) (t @ slash_join ts) \<longleftrightarrow>
    (if bs = [] then prefix b t else b = t \<and> prefix (slash_join bs) (slash_join ts))"
  using assms
proof (induction b arbitrary: t)
  case Nil
  then show ?case by (cases bs; cases t) auto
next
  case (Cons x b)
  then show ?case by (cases t; cases ts) auto
qed

lemma prefix_abs_path:
  assumes "list_all plain_segment bs" and "list_all plain_segment ts" and "bs \<noteq> []"
  shows "prefix (abs_path bs) (abs_path ts) \<longleftrightarrow>
    (\<exists>x r. ts = butlast bs @ (last bs @ x) # r)"
  using assms
proof (induction bs arbitrary: ts)
  case (Cons b bs)
  show ?case
  proof (cases ts)
    case Nil
    then show ?thesis using Cons.prems by (auto simp: abs_path_def plain_segment_def)
  next
    case (Cons t ts')
    have ns: "slash \<notin> set b" "slash \<notin> set t"
      using Cons.prems Cons by (auto simp: plain_segment_def)
    show ?thesis
    proof (cases bs)
      case Nil
      then show ?thesis
        using prefix_segment [OF ns, of "[]" ts'] Cons by (auto simp: abs_path_def prefix_def)
    next
      case (Cons c cs)
      then have "prefix (abs_path (b # bs)) (abs_path ts) \<longleftrightarrow> b = t \<and> prefix (abs_path bs) (abs_path ts')"
        using prefix_segment [OF ns, of bs ts'] \<open>ts = t # ts'\<close> Cons.prems(1)
        by (cases ts') (auto simp: abs_path_def plain_segment_def)
      then show ?thesis
        using Cons.IH [of ts'] Cons.prems Cons \<open>ts = t # ts'\<close> by auto
    qed
  qed
qed simp

lemma dirname_abs_path:
  assumes "list_all plain_segment ss"
  shows "path_dirname (abs_path ss) = abs_path (butlast ss)"
proof (cases ss rule: rev_cases)
  case Nil
  then show ?thesis by (simp add: path_dirname_def abs_path_def)
next
  case (snoc bs s)
  then have s: "slash \<notin> set s" using assms by (simp add: plain_segment_def)
  have "dropWhile (\<lambda>c. c \<noteq> slash) (rev s @ slash # rev (slash_join bs)) = slash # rev (slash_join bs)"
    using s by (subst dropWhile_append2) auto
  then show ?thesis
    using snoc by (cases bs) (auto simp: path_dirname_def abs_path_def Let_def)
qed

end
