(* ===== verification/HostTools.thy ===== *)
theory HostTools
  imports Paths Tools JsonText
begin

text \<open>
  The tools of the host: host/tools/fs.ts, git.ts, net.ts and bash.ts. The operating system is a
  parameter: the operations of Node's \<open>fs\<close> module as functions on an environment, and what a
  shell command gives back. A tool returns a result in every case, since each handler catches
  what it throws; the git tools do not, so theirs is an outcome.
\<close>

section \<open>The file system\<close>

text \<open>\<open>fs_mkdir\<close> makes one directory.\<close>

record 'e fs_ops =
  fs_exists :: "string \<Rightarrow> 'e \<Rightarrow> bool"
  fs_read :: "string \<Rightarrow> 'e \<Rightarrow> jserr + string"
  fs_write :: "string \<Rightarrow> string \<Rightarrow> 'e \<Rightarrow> ('e, unit) outcome"
  fs_mkdir :: "string \<Rightarrow> 'e \<Rightarrow> ('e, unit) outcome"
  fs_readdir :: "string \<Rightarrow> 'e \<Rightarrow> jserr + (string \<times> bool) list"

type_synonym 'e host_tool = "string \<Rightarrow> jsval \<Rightarrow> 'e \<Rightarrow> 'e \<times> tool_result"

definition failed :: "string \<Rightarrow> tool_result" where
  "failed msg = ERROR msg None"

definition caught :: "string \<Rightarrow> jserr \<Rightarrow> tool_result" where
  "caught pre x = failed (pre @ err_message x)"

text \<open>\<open>path.resolve(sandboxBaseDir, p)\<close> and the check against the resolved base.\<close>

definition sandbox_target :: "string \<Rightarrow> string \<Rightarrow> string \<Rightarrow> string" where
  "sandbox_target cwd base p = path_resolve cwd [base, p]"

definition in_sandbox :: "string \<Rightarrow> string \<Rightarrow> string \<Rightarrow> bool" where
  "in_sandbox cwd base p \<longleftrightarrow> prefix (path_resolve cwd [base]) (sandbox_target cwd base p)"

definition escape_denied :: "string \<Rightarrow> tool_result" where
  "escape_denied p = failed (''SANDBOX_ESCAPED_DENIED: Path '' @ p @ '' resolves outside sandbox.'')"

definition no_relative_path :: tool_result where
  "no_relative_path = failed ''Missing or invalid relativePath strictly required.''"

definition read_tool :: "'e fs_ops \<Rightarrow> string \<Rightarrow> string \<Rightarrow> 'e host_tool" where
  "read_tool ops cwd base a args e =
     (case arg_prop args ''relativePath'' of
        Inl x \<Rightarrow> (e, caught ''FS_ERROR: '' x)
      | Inr (JStr rel) \<Rightarrow>
          if rel = [] then (e, no_relative_path)
          else if \<not> in_sandbox cwd base rel then (e, escape_denied rel)
          else if \<not> fs_exists ops (sandbox_target cwd base rel) e then (e, failed ''FILE_NOT_FOUND'')
          else (case fs_read ops (sandbox_target cwd base rel) e of
                  Inl x \<Rightarrow> (e, caught ''FS_ERROR: '' x)
                | Inr content \<Rightarrow> (e, SUCCESS (JStr content)))
      | Inr _ \<Rightarrow> (e, no_relative_path))"

text \<open>\<open>mkdirSync(dir, { recursive: true })\<close>: every directory on the way to \<open>dir\<close> that is missing is
  made, the outermost first.\<close>

definition path_chain :: "string \<Rightarrow> string list" where
  "path_chain p = map abs_path (tl (prefixes (segments p)))"

fun make_dirs :: "'e fs_ops \<Rightarrow> string list \<Rightarrow> 'e \<Rightarrow> ('e, unit) outcome" where
  "make_dirs ops [] e = (e, Inr ())"
| "make_dirs ops (d # ds) e =
     (if fs_exists ops d e then make_dirs ops ds e
      else (case fs_mkdir ops d e of
              (e1, Inl x) \<Rightarrow> (e1, Inl x)
            | (e1, Inr _) \<Rightarrow> make_dirs ops ds e1))"

definition mkdir_recursive :: "'e fs_ops \<Rightarrow> string \<Rightarrow> 'e \<Rightarrow> ('e, unit) outcome" where
  "mkdir_recursive ops dir e = make_dirs ops (path_chain dir) e"

definition make_parent :: "'e fs_ops \<Rightarrow> string \<Rightarrow> 'e \<Rightarrow> ('e, unit) outcome" where
  "make_parent ops target e =
     (let parentDir = path_dirname target
      in if \<not> fs_exists ops parentDir e then mkdir_recursive ops parentDir e else (e, Inr ()))"

definition store_file :: "'e fs_ops \<Rightarrow> string \<Rightarrow> string \<Rightarrow> 'e \<Rightarrow> ('e, unit) outcome" where
  "store_file ops target content e =
     (case make_parent ops target e of
        (e1, Inl x) \<Rightarrow> (e1, Inl x)
      | (e1, Inr _) \<Rightarrow> fs_write ops target content e1)"

definition write_tool :: "'e fs_ops \<Rightarrow> string \<Rightarrow> string \<Rightarrow> 'e host_tool" where
  "write_tool ops cwd base a args e =
     (case arg_prop args ''relativePath'' of
        Inl x \<Rightarrow> (e, caught ''FS_WRITE_ERROR: '' x)
      | Inr (JStr rel) \<Rightarrow>
          if rel = [] then (e, no_relative_path)
          else (case js_prop args ''content'' of
                  JStr content \<Rightarrow>
                    if \<not> in_sandbox cwd base rel then (e, escape_denied rel)
                    else (case store_file ops (sandbox_target cwd base rel) content e of
                            (e1, Inl x) \<Rightarrow> (e1, caught ''FS_WRITE_ERROR: '' x)
                          | (e1, Inr _) \<Rightarrow> (e1, SUCCESS (JStr (''Successfully wrote payload to '' @ rel))))
                | _ \<Rightarrow> (e, failed ''Missing or invalid content payload strictly required.''))
      | Inr _ \<Rightarrow> (e, no_relative_path))"

definition catalog :: "string \<Rightarrow> (string \<times> bool) list \<Rightarrow> jsval" where
  "catalog dir items =
     JObj [(''directory'', JStr dir),
           (''contents'', JArr (map (\<lambda>(n, d). JObj [(''name'', JStr n), (''isDirectory'', JBool d)]) items))]"

definition list_tool :: "'e fs_ops \<Rightarrow> string \<Rightarrow> string \<Rightarrow> 'e host_tool" where
  "list_tool ops cwd base a args e =
     (case arg_prop args ''relativePath'' of
        Inl x \<Rightarrow> (e, caught ''FS_LIST_ERROR: '' x)
      | Inr v \<Rightarrow>
          (case (if js_truthy v then v else JStr ''.'') of
             JStr p \<Rightarrow>
               if \<not> in_sandbox cwd base p then (e, escape_denied p)
               else if \<not> fs_exists ops (sandbox_target cwd base p) e then (e, failed ''DIRECTORY_NOT_FOUND'')
               else (case fs_readdir ops (sandbox_target cwd base p) e of
                       Inl x \<Rightarrow> (e, caught ''FS_LIST_ERROR: '' x)
                     | Inr items \<Rightarrow> (e, SUCCESS (JStr (text_of (catalog p items)))))
           | _ \<Rightarrow> (e, failed ''Invalid relativePath strictly required.'')))"

section \<open>Network and shell\<close>

definition net_fetch_tool :: "'e host_tool" where
  "net_fetch_tool a args e =
     (case arg_prop args ''url'' of
        Inl x \<Rightarrow> (e, caught ''NET_ERROR: '' x)
      | Inr (JStr url) \<Rightarrow>
          if url = [] then (e, failed ''Missing or invalid URL'')
          else if url = ''https://api.github.com/zen''
          then (e, SUCCESS (JStr ''Mind and machine are one.''))
          else (e, SUCCESS (JStr (''MOCKED_FETCH: payload for '' @ url)))
      | Inr _ \<Rightarrow> (e, failed ''Missing or invalid URL''))"

definition js_blank :: "char \<Rightarrow> bool" where
  "js_blank c \<longleftrightarrow> (of_char c :: nat) \<in> {9, 10, 11, 12, 13, 32, 160}"

definition js_trim :: "string \<Rightarrow> string" where
  "js_trim s = rev (dropWhile js_blank (rev (dropWhile js_blank s)))"

text \<open>A shell gives back the two output streams, or an error; the sandbox one text.\<close>

definition bash_tool ::
  "(string \<Rightarrow> int \<Rightarrow> 'e \<Rightarrow> ('e, string \<times> string) outcome) \<Rightarrow>
   (string \<Rightarrow> int \<Rightarrow> 'e \<Rightarrow> ('e, string) outcome) option \<Rightarrow> int \<Rightarrow> 'e host_tool" where
  "bash_tool shell sandbox timeoutMs a args e =
     (case arg_prop args ''command'' of
        Inl x \<Rightarrow> (e, caught ''BASH_ERROR: '' x)
      | Inr (JStr cmd) \<Rightarrow>
          if cmd = [] then (e, failed ''Missing or invalid command strictly required.'')
          else (case (case sandbox of
                        Some box \<Rightarrow> box cmd timeoutMs e
                      | None \<Rightarrow>
                          (case shell cmd timeoutMs e of
                             (e1, Inl x) \<Rightarrow> (e1, Inl x)
                           | (e1, Inr (out, err)) \<Rightarrow> (e1, Inr (out @ err)))) of
                  (e1, Inl x) \<Rightarrow> (e1, caught ''BASH_ERROR: '' x)
                | (e1, Inr output) \<Rightarrow> (e1, SUCCESS (JStr (take 4000 (js_trim output)))))
      | Inr _ \<Rightarrow> (e, failed ''Missing or invalid command strictly required.''))"

section \<open>The tools as the host registers them\<close>

text \<open>A handler that is not \<open>async\<close> gives the registry its result at once.\<close>

definition sync_tool :: "'e host_tool \<Rightarrow> 'e reg_handler" where
  "sync_tool h a args e = (case h a args e of (e1, r) \<Rightarrow> (e1, Inr (Returned r)))"

definition createReadTool :: "'e fs_ops \<Rightarrow> string \<Rightarrow> string \<Rightarrow> manifest \<times> 'e reg_handler" where
  "createReadTool ops cwd base =
     (\<lparr>mf_name = ''host.fs.read_file'',
       mf_description = JStr ''Read the contents of a file securely within the assigned sandbox bounds.'',
       mf_parameters = JObj [(''relativePath'', JStr ''string'')]\<rparr>,
      sync_tool (read_tool ops cwd base))"

definition createWriteTool :: "'e fs_ops \<Rightarrow> string \<Rightarrow> string \<Rightarrow> manifest \<times> 'e reg_handler" where
  "createWriteTool ops cwd base =
     (\<lparr>mf_name = ''host.fs.write_file'',
       mf_description = JStr ''Write string content to a file securely within the assigned sandbox bounds.'',
       mf_parameters = JObj [(''relativePath'', JStr ''string''), (''content'', JStr ''string'')]\<rparr>,
      sync_tool (write_tool ops cwd base))"

definition createListDirTool :: "'e fs_ops \<Rightarrow> string \<Rightarrow> string \<Rightarrow> manifest \<times> 'e reg_handler" where
  "createListDirTool ops cwd base =
     (\<lparr>mf_name = ''host.fs.list_dir'',
       mf_description = JStr ''Returns an array of files/directories securely located at the sandbox path.'',
       mf_parameters = JObj [(''relativePath'', JStr ''string'')]\<rparr>,
      sync_tool (list_tool ops cwd base))"

definition createFetchTool :: "manifest \<times> 'e reg_handler" where
  "createFetchTool =
     (\<lparr>mf_name = ''host.net.fetch'',
       mf_description = JStr ''Make a simple synchronous HTTP GET request mapping native resolution. Returns JSON.'',
       mf_parameters = JObj [(''url'', JStr ''string'')]\<rparr>,
      sync_tool net_fetch_tool)"

section \<open>Git\<close>

text \<open>What \<open>exec\<close> hands to its callback: an error message or none, and the two streams.\<close>

type_synonym 'e shell = "string \<Rightarrow> string option \<Rightarrow> 'e \<Rightarrow> 'e \<times> (string option \<times> string \<times> string)"

definition not_a_string :: "string \<Rightarrow> jserr" where
  "not_a_string what = JsErr ''TypeError'' (what @ '' must be of type string'')"

definition need_string :: "string \<Rightarrow> jsval \<Rightarrow> jserr + string" where
  "need_string what v = (case v of JStr s \<Rightarrow> Inr s | _ \<Rightarrow> Inl (not_a_string what))"

definition clone_dir :: "jsval \<Rightarrow> jserr + jsval" where
  "clone_dir args =
     (case arg_prop args ''url'' of
        Inl x \<Rightarrow> Inl x
      | Inr url \<Rightarrow>
          if js_truthy (js_prop args ''directory'') then Inr (js_prop args ''directory'')
          else (case need_string ''path'' url of
                  Inl x \<Rightarrow> Inl x
                | Inr u \<Rightarrow> Inr (JStr (path_basename u ''.git''))))"

definition clone_path :: "string \<Rightarrow> jsval \<Rightarrow> jserr + string" where
  "clone_path cwd args =
     (case clone_dir args of
        Inl x \<Rightarrow> Inl x
      | Inr d \<Rightarrow>
          (case need_string ''path'' d of
             Inl x \<Rightarrow> Inl x
           | Inr dir \<Rightarrow> Inr (path_resolve cwd [''.workspace'', dir])))"

definition git_clone :: "'e shell \<Rightarrow> string \<Rightarrow> jsval \<Rightarrow> 'e \<Rightarrow> ('e, jsval) outcome" where
  "git_clone exec cwd args e =
     (case clone_path cwd args of
        Inl x \<Rightarrow> (e, Inl x)
      | Inr safePath \<Rightarrow>
          (case exec (''git clone '' @ js_string (js_prop args ''url'') @ '' '' @ safePath) None e of
             (e1, Some msg, out, err) \<Rightarrow> (e1, Inr (JObj [(''error'', JStr msg), (''stderr'', JStr err)]))
           | (e1, None, out, err) \<Rightarrow>
               (e1, Inr (JObj [(''success'', JBool True), (''stdout'', JStr out),
                               (''clonedPath'', JStr safePath)]))))"

text \<open>\<open>args.cwd ? path.resolve('.workspace', args.cwd) : path.resolve('.workspace')\<close>\<close>

definition git_cwd :: "string \<Rightarrow> jsval \<Rightarrow> jserr + string" where
  "git_cwd cwd args =
     (case arg_prop args ''cwd'' of
        Inl x \<Rightarrow> Inl x
      | Inr d \<Rightarrow>
          if js_truthy d
          then (case need_string ''path'' d of
                  Inl x \<Rightarrow> Inl x
                | Inr dir \<Rightarrow> Inr (path_resolve cwd [''.workspace'', dir]))
          else Inr (path_resolve cwd [''.workspace'']))"

definition git_commit :: "'e shell \<Rightarrow> string \<Rightarrow> jsval \<Rightarrow> 'e \<Rightarrow> ('e, jsval) outcome" where
  "git_commit exec cwd args e =
     (case git_cwd cwd args of
        Inl x \<Rightarrow> (e, Inl x)
      | Inr dir \<Rightarrow>
          (case exec (''git add . && git commit -m '' @ [CHR 0x22] @ js_string (js_prop args ''message'') @
                      [CHR 0x22]) (Some dir) e of
             (e1, Some msg, out, err) \<Rightarrow> (e1, Inr (JObj [(''error'', JStr msg), (''stderr'', JStr err)]))
           | (e1, None, out, err) \<Rightarrow> (e1, Inr (JObj [(''success'', JBool True), (''stdout'', JStr out)]))))"

definition git_log :: "'e shell \<Rightarrow> string \<Rightarrow> jsval \<Rightarrow> 'e \<Rightarrow> ('e, jsval) outcome" where
  "git_log exec cwd args e =
     (case git_cwd cwd args of
        Inl x \<Rightarrow> (e, Inl x)
      | Inr dir \<Rightarrow>
          (let n = (if js_truthy (js_prop args ''maxCount'') then js_prop args ''maxCount'' else jint 5)
           in case exec (''git log -n '' @ js_string n @ '' --oneline'') (Some dir) e of
                (e1, Some msg, out, err) \<Rightarrow> (e1, Inr (JObj [(''error'', JStr msg), (''stderr'', JStr err)]))
              | (e1, None, out, err) \<Rightarrow>
                  (e1, Inr (JObj [(''success'', JBool True),
                     (''logs'', JArr (map JStr (filter (\<lambda>l. js_trim l \<noteq> []) (split_on (CHR 0x0A) out))))]))))"

section \<open>What the sandbox check admits\<close>

lemma resolve_base:
  obtains bs where "path_resolve cwd [base] = abs_path bs" and "list_all plain_segment bs"
  using resolve_form by blast

text \<open>The paths whose segments begin like the base's, the last of them only up to its length.\<close>

definition sandbox_region :: "string list \<Rightarrow> string list \<Rightarrow> bool" where
  "sandbox_region bs ts \<longleftrightarrow> bs = [] \<or> (\<exists>x r. ts = butlast bs @ (last bs @ x) # r)"

lemma region_prefix:
  "list_all plain_segment bs \<Longrightarrow> list_all plain_segment ts \<Longrightarrow>
   sandbox_region bs ts \<longleftrightarrow> prefix (abs_path bs) (abs_path ts)"
proof (cases "bs = []")
  case True
  have "prefix [slash] (abs_path ts)"
    by (cases ts) (simp_all add: abs_path_def)
  then show ?thesis using True by (simp add: sandbox_region_def abs_path_def)
qed (simp add: sandbox_region_def prefix_abs_path)

text \<open>A file system on which files can be read and written and directories listed only at the
  paths of \<open>P\<close>, paths be looked for only in \<open>Q\<close>, and directories be made only in \<open>M\<close>.\<close>

definition jail :: "(string \<Rightarrow> bool) \<Rightarrow> (string \<Rightarrow> bool) \<Rightarrow> (string \<Rightarrow> bool) \<Rightarrow> 'e fs_ops \<Rightarrow> 'e fs_ops" where
  "jail P Q M ops =
     \<lparr>fs_exists = (\<lambda>p e. Q p \<and> fs_exists ops p e),
      fs_read = (\<lambda>p e. if P p then fs_read ops p e else Inl (Error ''EACCES'')),
      fs_write = (\<lambda>p c e. if P p then fs_write ops p c e else (e, Inl (Error ''EACCES''))),
      fs_mkdir = (\<lambda>p e. if M p then fs_mkdir ops p e else (e, Inl (Error ''EACCES''))),
      fs_readdir = (\<lambda>p e. if P p then fs_readdir ops p e else Inl (Error ''EACCES''))\<rparr>"

text \<open>The paths the check of the tools admits, and the directories the base is in, up to the root.\<close>

definition within_base :: "string \<Rightarrow> string \<Rightarrow> string \<Rightarrow> bool" where
  "within_base cwd base p \<longleftrightarrow> prefix (path_resolve cwd [base]) p"

definition dirs_above :: "string \<Rightarrow> string \<Rightarrow> string list" where
  "dirs_above cwd base = map abs_path (prefixes (butlast (segments (path_resolve cwd [base]))))"

lemma target_within: "in_sandbox cwd base p \<Longrightarrow> within_base cwd base (sandbox_target cwd base p)"
  by (simp add: in_sandbox_def within_base_def)

lemma in_set_tl: "x \<in> set (tl xs) \<Longrightarrow> x \<in> set xs"
  by (cases xs) auto

lemma chain_sub: "set (map abs_path (tl (prefixes xs))) \<subseteq> set (map abs_path (prefixes xs))"
  and chain_self: "abs_path xs \<in> set (map abs_path (prefixes xs))"
  by (auto dest: in_set_tl simp del: in_set_prefixes) simp

lemma parent_chain:
  assumes "in_sandbox cwd base p"
  obtains outs ins where "path_chain (path_dirname (sandbox_target cwd base p)) = outs @ ins"
    "set outs \<subseteq> set (dirs_above cwd base)" "list_all (within_base cwd base) ins"
    "within_base cwd base (path_dirname (sandbox_target cwd base p)) \<or>
     path_dirname (sandbox_target cwd base p) \<in> set (dirs_above cwd base)"
proof -
  obtain bs where b: "path_resolve cwd [base] = abs_path bs" "list_all plain_segment bs"
    by (rule resolve_base)
  obtain ts where t: "sandbox_target cwd base p = abs_path ts" "list_all plain_segment ts"
    using resolve_form [of cwd "[base, p]"] by (auto simp: sandbox_target_def)
  have bt: "list_all plain_segment (butlast ts)" and bb: "list_all plain_segment (butlast bs)"
    using b(2) t(2) by (auto simp: list_all_iff dest: in_set_butlastD)
  have dir: "path_dirname (sandbox_target cwd base p) = abs_path (butlast ts)"
    using t by (simp add: dirname_abs_path)
  have chain: "path_chain (path_dirname (sandbox_target cwd base p)) = map abs_path (tl (prefixes (butlast ts)))"
    by (simp add: path_chain_def dir bt)
  have above: "dirs_above cwd base = map abs_path (prefixes (butlast bs))"
    by (simp add: dirs_above_def b)
  have within: "within_base cwd base (abs_path us)" if "sandbox_region bs us" "list_all plain_segment us" for us
    using that region_prefix [OF b(2) that(2)] by (simp add: within_base_def b)
  have reg: "sandbox_region bs ts"
    using assms region_prefix [OF b(2) t(2)] by (simp add: in_sandbox_def b t)
  have sub: "list_all plain_segment us" if "us \<in> set (prefixes (butlast ts))" for us
    using that bt by (auto simp: prefix_def)
  show ?thesis
  proof (cases "bs = []")
    case True
    have all: "within_base cwd base d" if "d \<in> set (map abs_path (prefixes (butlast ts)))" for d
      using that sub within True by (auto simp: sandbox_region_def)
    have "list_all (within_base cwd base) (map abs_path (tl (prefixes (butlast ts))))"
      unfolding list_all_iff set_map by (auto dest!: in_set_tl intro!: all simp del: in_set_prefixes)
    then show ?thesis
      using that [of "[]" "map abs_path (tl (prefixes (butlast ts)))"] chain dir
        all [of "abs_path (butlast ts)"]
      by simp
  next
    case False
    with reg obtain x r where ts: "ts = butlast bs @ (last bs @ x) # r"
      by (auto simp: sandbox_region_def)
    show ?thesis
    proof (cases "r = []")
      case True
      then have "butlast ts = butlast bs" by (simp add: ts butlast_append)
      then show ?thesis
        using that [of "map abs_path (tl (prefixes (butlast bs)))" "[]"] chain dir above
          chain_sub [of "butlast bs"] chain_self [of "butlast bs"]
        by simp
    next
      case r: False
      then have bl: "butlast ts = butlast bs @ (last bs @ x) # butlast r" by (simp add: ts butlast_append)
      let ?ins = "map (\<lambda>us. butlast bs @ us) (tl (prefixes ((last bs @ x) # butlast r)))"
      have split: "tl (prefixes (butlast ts)) = tl (prefixes (butlast bs)) @ ?ins"
        by (simp add: bl prefixes_append tl_append split: list.split)
      have "within_base cwd base (abs_path us)" if "us \<in> set ?ins" for us
      proof (rule within)
        show "sandbox_region bs us" using that by (auto simp: sandbox_region_def)
        show "list_all plain_segment us" using that split sub [of us] in_set_tl [of us "prefixes (butlast ts)"] by auto
      qed
      moreover have "within_base cwd base (abs_path (butlast ts))"
        using within [OF _ bt] bl by (auto simp: sandbox_region_def)
      ultimately show ?thesis
        using that [of "map abs_path (tl (prefixes (butlast bs)))" "map abs_path ?ins"] chain split dir above
          chain_sub [of "butlast bs"]
        by (simp add: list_all_iff)
    qed
  qed
qed

lemma jail_simps [simp]:
  "fs_exists (jail P Q M ops) p e \<longleftrightarrow> Q p \<and> fs_exists ops p e"
  "P p \<Longrightarrow> fs_read (jail P Q M ops) p e = fs_read ops p e"
  "P p \<Longrightarrow> fs_write (jail P Q M ops) p c e = fs_write ops p c e"
  "M p \<Longrightarrow> fs_mkdir (jail P Q M ops) p e = fs_mkdir ops p e"
  "P p \<Longrightarrow> fs_readdir (jail P Q M ops) p e = fs_readdir ops p e"
  by (simp_all add: jail_def)

lemma make_dirs_jail:
  "list_all (\<lambda>d. Q d \<and> M d) ds \<Longrightarrow> make_dirs (jail P Q M ops) ds e = make_dirs ops ds e"
  by (induction ds arbitrary: e) (auto split: prod.split sum.split)

lemma make_dirs_append:
  "make_dirs ops (as @ bs) e =
     (case make_dirs ops as e of (e1, Inl x) \<Rightarrow> (e1, Inl x) | (e1, Inr _) \<Rightarrow> make_dirs ops bs e1)"
  by (induction as arbitrary: e) (auto split: prod.split sum.split)

lemma make_dirs_present: "\<forall>d \<in> set ds. fs_exists ops d e \<Longrightarrow> make_dirs ops ds e = (e, Inr ())"
  by (induction ds) auto

lemma read_tool_jail:
  "read_tool (jail (within_base cwd base) (within_base cwd base) M ops) cwd base a args e = read_tool ops cwd base a args e"
  using target_within [of cwd base] by (auto simp: read_tool_def split: sum.split jsval.split)

lemma list_tool_jail:
  "list_tool (jail (within_base cwd base) (within_base cwd base) M ops) cwd base a args e = list_tool ops cwd base a args e"
  using target_within [of cwd base] by (auto simp: list_tool_def split: sum.split jsval.split)

lemma store_file_jail:
  assumes p: "in_sandbox cwd base p"
    and M: "\<And>d. within_base cwd base d \<Longrightarrow> M d"
    and above: "(\<forall>d \<in> set (dirs_above cwd base). M d) \<or> (\<forall>d \<in> set (dirs_above cwd base). fs_exists ops d e)"
    and Q: "\<And>d. Q d \<longleftrightarrow> within_base cwd base d \<or> d \<in> set (dirs_above cwd base)"
  shows "store_file (jail (within_base cwd base) Q M ops) (sandbox_target cwd base p) c e =
    store_file ops (sandbox_target cwd base p) c e"
proof -
  let ?dir = "path_dirname (sandbox_target cwd base p)" and ?j = "jail (within_base cwd base) Q M ops"
  obtain outs ins where chain: "path_chain ?dir = outs @ ins" "set outs \<subseteq> set (dirs_above cwd base)"
      "list_all (within_base cwd base) ins" "Q ?dir"
    using parent_chain [OF p] Q by metis
  have ins: "make_dirs ?j ins e = make_dirs ops ins e" for e
    using chain(3) M Q by (intro make_dirs_jail) (auto simp: list_all_iff)
  have "make_dirs ?j outs e = make_dirs ops outs e"
    using above
  proof
    assume "\<forall>d \<in> set (dirs_above cwd base). M d"
    then show ?thesis using chain(2) Q by (intro make_dirs_jail) (auto simp: list_all_iff)
  next
    assume "\<forall>d \<in> set (dirs_above cwd base). fs_exists ops d e"
    then have "make_dirs ops outs e = (e, Inr ())" "make_dirs ?j outs e = (e, Inr ())"
      using chain(2) Q by (auto intro!: make_dirs_present)
    then show ?thesis by simp
  qed
  then have "make_parent ?j (sandbox_target cwd base p) e = make_parent ops (sandbox_target cwd base p) e"
    using chain(4) by (simp add: make_parent_def Let_def mkdir_recursive_def chain(1) make_dirs_append ins
        split: prod.split sum.split)
  then show ?thesis
    using target_within [OF p] by (simp add: store_file_def split: prod.split sum.split)
qed

lemma write_tool_jail:
  assumes "\<And>d. within_base cwd base d \<Longrightarrow> M d"
    and "(\<forall>d \<in> set (dirs_above cwd base). M d) \<or> (\<forall>d \<in> set (dirs_above cwd base). fs_exists ops d e)"
    and "\<And>d. Q d \<longleftrightarrow> within_base cwd base d \<or> d \<in> set (dirs_above cwd base)"
  shows "write_tool (jail (within_base cwd base) Q M ops) cwd base a args e = write_tool ops cwd base a args e"
  using store_file_jail [OF _ assms] by (auto simp: write_tool_def split: sum.split jsval.split)

section \<open>Properties\<close>

text \<open>C30: The file tools are confined. On any file system the tools that read and list do exactly what
  they would do on one with nothing but the paths that start with the resolved base. The write
  tool does exactly what it would do where files can be written only at those paths; the one
  thing it does elsewhere is to look for the directories above the base and to make those that
  are missing, and if none of them is missing it makes no directory but at those paths either.
  Paths are compared as strings: what a link leads to is the file system's business.\<close>

theorem sandbox_confines:
  "let within = within_base cwd base; above = (\<lambda>d. d \<in> set (dirs_above cwd base));
       near = (\<lambda>d. within d \<or> above d)
   in read_tool (jail within within within ops) cwd base a args e = read_tool ops cwd base a args e \<and>
      list_tool (jail within within within ops) cwd base a args e = list_tool ops cwd base a args e \<and>
      write_tool (jail within near near ops) cwd base a args e = write_tool ops cwd base a args e \<and>
      ((\<forall>d. above d \<longrightarrow> fs_exists ops d e) \<longrightarrow>
        write_tool (jail within near within ops) cwd base a args e = write_tool ops cwd base a args e)"
  unfolding Let_def by (intro conjI impI read_tool_jail list_tool_jail write_tool_jail) auto

text \<open>The sandbox is larger than its directory. The paths a tool accepts are exactly those in the
  base or in a directory beside it whose name begins with the base's name: the check compares
  strings. The clone target of the git tool is not constrained at all: every path is accepted.\<close>

theorem sandbox_check_exact:
  assumes "list_all plain_segment ts" and "path_resolve cwd [base] = abs_path (bs @ [b])"
    and "list_all plain_segment (bs @ [b])"
  shows "((\<exists>rel. in_sandbox cwd base rel \<and> sandbox_target cwd base rel = abs_path ts) \<longleftrightarrow>
      (\<exists>x r. ts = bs @ (b @ x) # r)) \<and>
    (\<exists>args. clone_path cwd args = Inr (abs_path ts))"
proof
  have target: "sandbox_target cwd base (abs_path ts) = abs_path ts"
    unfolding sandbox_target_def by (rule resolve_absolute [OF assms(1)])
  have "prefix (abs_path (bs @ [b])) (abs_path ts) \<longleftrightarrow> (\<exists>x r. ts = bs @ (b @ x) # r)"
    using prefix_abs_path [OF assms(3,1)] by simp
  moreover have "in_sandbox cwd base rel \<longleftrightarrow> prefix (abs_path (bs @ [b])) (abs_path ts)"
    if "sandbox_target cwd base rel = abs_path ts" for rel
    by (simp add: in_sandbox_def assms(2) that)
  ultimately show "(\<exists>rel. in_sandbox cwd base rel \<and> sandbox_target cwd base rel = abs_path ts) \<longleftrightarrow>
      (\<exists>x r. ts = bs @ (b @ x) # r)"
    using target by blast
next
  have "clone_path cwd (JObj [(''url'', JNull), (''directory'', JStr (abs_path ts))]) = Inr (abs_path ts)"
    using resolve_absolute [OF assms(1)]
    by (simp add: clone_path_def clone_dir_def arg_prop_def js_truthy_def need_string_def)
  then show "\<exists>args. clone_path cwd args = Inr (abs_path ts)" by blast
qed

theorem sandbox_check_exact_witness:
  "\<exists>rel. in_sandbox ''/'' ''/srv/box'' rel \<and> sandbox_target ''/'' ''/srv/box'' rel = ''/srv/boxes/key''"
proof -
  have "path_resolve ''/'' [''/srv/box''] = abs_path ([''srv''] @ [''box''])"
    by (simp add: path_resolve_def extend_path_def is_absolute_def normal_segments_def segments_def
        push_segment_def abs_path_def)
  from sandbox_check_exact [OF _ this, of "[''srv'', ''boxes'', ''key'']"] show ?thesis
    by (simp add: plain_segment_def abs_path_def)
qed

text \<open>What was written is read back. If the operating system reads back what it has written,
  then after a successful write the read tool, given the same path, returns the content.\<close>

theorem sandbox_write_read:
  assumes "\<And>p c e e'. fs_write ops p c e = (e', Inr ()) \<Longrightarrow> fs_exists ops p e' \<and> fs_read ops p e' = Inr c"
    and "write_tool ops cwd base a args e = (e', SUCCESS v)"
  shows "js_prop args ''content'' \<noteq> JUndef \<and>
    read_tool ops cwd base a' args e' = (e', SUCCESS (js_prop args ''content''))"
proof -
  obtain rel content where rel: "arg_prop args ''relativePath'' = Inr (JStr rel)" "rel \<noteq> []"
      "in_sandbox cwd base rel" and c: "js_prop args ''content'' = JStr content"
    and st: "store_file ops (sandbox_target cwd base rel) content e = (e', Inr ())"
    using assms(2)
    by (auto simp: write_tool_def no_relative_path_def failed_def caught_def escape_denied_def
        split: sum.splits jsval.splits if_splits prod.splits)
  obtain e1 where "fs_write ops (sandbox_target cwd base rel) content e1 = (e', Inr ())"
    using st by (auto simp: store_file_def split: prod.splits sum.splits)
  from assms(1) [OF this] show ?thesis
    using rel c by (simp add: read_tool_def)
qed

definition map_fs :: "(string, string) jsmap fs_ops" where
  "map_fs =
     \<lparr>fs_exists = (\<lambda>p e. map_has e p),
      fs_read = (\<lambda>p e. case map_of e p of Some c \<Rightarrow> Inr c | None \<Rightarrow> Inl (Error ''ENOENT'')),
      fs_write = (\<lambda>p c e. (AList.update p c e, Inr ())),
      fs_mkdir = (\<lambda>p e. (e, Inr ())),
      fs_readdir = (\<lambda>p e. Inr [])\<rparr>"

lemma map_fs_simps [simp]:
  "fs_exists map_fs p e = map_has e p"
  "fs_read map_fs p e = (case map_of e p of Some c \<Rightarrow> Inr c | None \<Rightarrow> Inl (Error ''ENOENT''))"
  "fs_write map_fs p c e = (AList.update p c e, Inr ())"
  "fs_mkdir map_fs p e = (e, Inr ())"
  by (simp_all add: map_fs_def)

theorem sandbox_confines_witness:
  "\<exists>e'. write_tool (jail (within_base ''/'' ''/srv/box'')
        (\<lambda>d. within_base ''/'' ''/srv/box'' d \<or> d \<in> set (dirs_above ''/'' ''/srv/box'')) (within_base ''/'' ''/srv/box'') map_fs)
      ''/'' ''/srv/box'' ''a'' (JObj [(''relativePath'', JStr ''notes''), (''content'', JStr ''hello'')])
      [(''/'', []), (''/srv'', [])] = (e', SUCCESS (JStr ''Successfully wrote payload to notes''))"
proof -
  let ?args = "JObj [(''relativePath'', JStr ''notes''), (''content'', JStr ''hello'')]"
    and ?e = "[(''/'', []), (''/srv'', [])] :: (string, string) jsmap"
  have base: "dirs_above ''/'' ''/srv/box'' = [''/'', ''/srv'']"
    by (simp add: dirs_above_def path_resolve_def extend_path_def is_absolute_def normal_segments_def segments_def
        push_segment_def abs_path_def)
  have "\<exists>e'. write_tool map_fs ''/'' ''/srv/box'' ''a'' ?args ?e =
      (e', SUCCESS (JStr ''Successfully wrote payload to notes''))"
    by (simp add: write_tool_def arg_prop_def in_sandbox_def sandbox_target_def path_resolve_def
        extend_path_def is_absolute_def normal_segments_def segments_def push_segment_def abs_path_def
        store_file_def make_parent_def mkdir_recursive_def path_chain_def path_dirname_def map_has_def Let_def)
  then show ?thesis
    using sandbox_confines [of "''/''" "''/srv/box''" map_fs "''a''" ?args ?e] base by (simp add: Let_def map_has_def)
qed

text \<open>Where a directory above the base is missing, the write tool makes it, outside the sandbox.\<close>

definition disk_fs :: "string list fs_ops" where
  "disk_fs =
     \<lparr>fs_exists = (\<lambda>p e. p \<in> set e), fs_read = (\<lambda>p e. Inr []), fs_write = (\<lambda>p c e. (e @ [p], Inr ())),
      fs_mkdir = (\<lambda>p e. (e @ [p], Inr ())), fs_readdir = (\<lambda>p e. Inr [])\<rparr>"

theorem write_makes_dirs_above:
  "fst (write_tool disk_fs ''/'' ''/srv/box'' ''a'' (JObj [(''relativePath'', JStr ''notes''), (''content'', JStr ''hello'')])
      [''/'']) = [''/'', ''/srv'', ''/srv/box'', ''/srv/box/notes'']"
  by (simp add: disk_fs_def write_tool_def arg_prop_def in_sandbox_def sandbox_target_def path_resolve_def
      extend_path_def is_absolute_def normal_segments_def segments_def push_segment_def abs_path_def
      store_file_def make_parent_def mkdir_recursive_def path_chain_def path_dirname_def Let_def)

theorem sandbox_write_read_witness:
  "let args = JObj [(''relativePath'', JStr ''notes''), (''content'', JStr ''hello'')] in
   snd (read_tool map_fs ''/'' ''/srv'' ''a'' args
     (fst (write_tool map_fs ''/'' ''/srv'' ''a'' args []))) = SUCCESS (JStr ''hello'')"
proof -
  let ?args = "JObj [(''relativePath'', JStr ''notes''), (''content'', JStr ''hello'')]"
  obtain e' v where w: "write_tool map_fs ''/'' ''/srv'' ''a'' ?args [] = (e', SUCCESS v)"
    by (simp add: write_tool_def arg_prop_def in_sandbox_def sandbox_target_def path_resolve_def
        extend_path_def is_absolute_def normal_segments_def segments_def push_segment_def abs_path_def
        store_file_def make_parent_def mkdir_recursive_def path_chain_def path_dirname_def map_has_def Let_def)
  show ?thesis
    using sandbox_write_read [OF _ w, of "''a''"] w by (simp add: map_has_def)
qed

end
