(* ===== verification/Plugins.thy ===== *)
theory Plugins
  imports HostTools
begin

text \<open>
  The manifest validator of plugins/validator.ts. A manifest is any value \<open>JSON.parse\<close> can
  give; the validator may throw on it, which the loader (theory \<open>PluginLoader\<close>) catches.
\<close>

section \<open>Printing a value that need not be a string\<close>

text \<open>An object with an own \<open>toString\<close>, which in a parsed value is never callable, cannot be
  converted; an array is converted element by element.\<close>

fun no_text :: "jsval \<Rightarrow> bool" where
  "no_text (JObj kvs) = (''toString'' \<in> fst ` set kvs)"
| "no_text (JArr xs) = list_ex no_text xs"
| "no_text _ = False"

definition to_text :: "jsval \<Rightarrow> jserr + string" where
  "to_text v =
     (if no_text v then Inl (JsErr ''TypeError'' ''Cannot convert object to primitive value'')
      else Inr (js_string v))"

definition dq :: "string \<Rightarrow> string" where
  "dq s = CHR 0x22 # s @ [CHR 0x22]"

section \<open>PluginValidator\<close>

record validation =
  vl_valid :: bool
  vl_errors :: "string list"

definition required_fields :: "string list" where
  "required_fields = [''name'', ''version'', ''description'', ''tools'', ''permissions'']"

definition valid_permissions :: "string list" where
  "valid_permissions = [''network'', ''filesystem'', ''shell'', ''memory'', ''delegation'']"

definition is_lower :: "char \<Rightarrow> bool" where
  "is_lower c \<longleftrightarrow> c \<in> set ''abcdefghijklmnopqrstuvwxyz''"

text \<open>\<open>/^[a-z][a-z0-9\-]{2,63}$/\<close>\<close>

definition name_regex :: "string \<Rightarrow> bool" where
  "name_regex s \<longleftrightarrow>
     (case s of
        [] \<Rightarrow> False
      | c # cs \<Rightarrow>
          is_lower c \<and> 2 \<le> length cs \<and> length cs \<le> 63 \<and>
          list_all (\<lambda>d. is_lower d \<or> is_digit d \<or> d = CHR ''-'') cs)"

text \<open>\<open>/^\d+\.\d+\.\d+$/\<close>\<close>

definition version_regex :: "string \<Rightarrow> bool" where
  "version_regex s \<longleftrightarrow>
     (let ps = split_on (CHR ''.'') s
      in length ps = 3 \<and> list_all (\<lambda>p. p \<noteq> [] \<and> list_all is_digit p) ps)"

fun missing_fields :: "jsval \<Rightarrow> string list \<Rightarrow> jserr + string list" where
  "missing_fields m [] = Inr []"
| "missing_fields m (f # fs) =
     (case arg_prop m f of
        Inl x \<Rightarrow> Inl x
      | Inr v \<Rightarrow>
          (case missing_fields m fs of
             Inl x \<Rightarrow> Inl x
           | Inr es \<Rightarrow>
               Inr (if v = JUndef \<or> v = JNull then (''Missing required field: '' @ dq f) # es else es)))"

text \<open>The checks push onto one array; an exception in any of them leaves the method.\<close>

fun collect :: "(jserr + string list) list \<Rightarrow> jserr + string list" where
  "collect [] = Inr []"
| "collect (c # cs) =
     (case c of
        Inl x \<Rightarrow> Inl x
      | Inr es \<Rightarrow> (case collect cs of Inl x \<Rightarrow> Inl x | Inr fs \<Rightarrow> Inr (es @ fs)))"

definition complain :: "jsval \<Rightarrow> (string \<Rightarrow> string) \<Rightarrow> jserr + string list" where
  "complain v msg = (case to_text v of Inl x \<Rightarrow> Inl x | Inr s \<Rightarrow> Inr [msg s])"

definition check_name :: "jsval \<Rightarrow> jserr + string list" where
  "check_name m =
     (case to_text (js_prop m ''name'') of
        Inl x \<Rightarrow> Inl x
      | Inr s \<Rightarrow>
          if \<not> name_regex s
          then complain (js_prop m ''name'') (\<lambda>s. ''Invalid plugin name '' @ dq s @
                 ''. Must match: lowercase, 3-64 chars, alphanumeric + hyphens.'')
          else Inr [])"

definition check_version :: "jsval \<Rightarrow> jserr + string list" where
  "check_version m =
     (if (case js_prop m ''version'' of JStr s \<Rightarrow> version_regex s | _ \<Rightarrow> False) then Inr []
      else complain (js_prop m ''version'') (\<lambda>s. ''Invalid version '' @ dq s @
             ''. Must be semver (e.g. 1.0.0).''))"

definition is_text :: "jsval \<Rightarrow> bool" where
  "is_text v \<longleftrightarrow> (case v of JStr s \<Rightarrow> s \<noteq> [] | _ \<Rightarrow> False)"

text \<open>\<open>Tool "${tool.name || i}" missing ...\<close>\<close>

definition check_handler :: "jsval \<Rightarrow> nat \<Rightarrow> string \<Rightarrow> jserr + string list" where
  "check_handler tool i field =
     (if is_text (js_prop tool field) then Inr []
      else complain
             (if js_truthy (js_prop tool ''name'') then js_prop tool ''name'' else jint (int i))
             (\<lambda>s. ''Tool '' @ dq s @ '' missing '' @ dq field @ ''.''))"

definition check_tool :: "nat \<Rightarrow> jsval \<Rightarrow> jserr + string list" where
  "check_tool i tool =
     (case arg_prop tool ''name'' of
        Inl x \<Rightarrow> Inl x
      | Inr v \<Rightarrow>
          collect
            [Inr (if is_text v then []
                  else [''Tool at index '' @ show_nat i @ '' missing valid '' @ dq ''name'' @ ''.'']),
             check_handler tool i ''handlerModule'',
             check_handler tool i ''handlerExport''])"

definition check_tools :: "jsval \<Rightarrow> (jserr + string list) list" where
  "check_tools m =
     (case js_prop m ''tools'' of
        JArr ts \<Rightarrow> map (\<lambda>i. check_tool i (ts ! i)) [0..<length ts]
      | _ \<Rightarrow> [Inr [dq ''tools'' @ '' must be an array.'']])"

fun list_with_commas :: "string list \<Rightarrow> string" where
  "list_with_commas [] = []"
| "list_with_commas [s] = s"
| "list_with_commas (s # ss) = s @ '', '' @ list_with_commas ss"

definition check_permission :: "jsval \<Rightarrow> jserr + string list" where
  "check_permission p =
     (if (case p of JStr s \<Rightarrow> s \<in> set valid_permissions | _ \<Rightarrow> False) then Inr []
      else complain p (\<lambda>s. ''Unknown permission: '' @ dq s @ ''. Valid: '' @
             list_with_commas valid_permissions))"

definition check_permissions :: "jsval \<Rightarrow> (jserr + string list) list" where
  "check_permissions m =
     (case js_prop m ''permissions'' of
        JArr ps \<Rightarrow> map check_permission ps
      | _ \<Rightarrow> [Inr [dq ''permissions'' @ '' must be an array.'']])"

definition check_namespace :: "string \<Rightarrow> jsval \<Rightarrow> jserr + string list" where
  "check_namespace name tool =
     (case arg_prop tool ''name'' of
        Inl x \<Rightarrow> Inl x
      | Inr (JStr s) \<Rightarrow>
          Inr (if s \<noteq> [] \<and> \<not> prefix (name @ ''.'') s
               then [''Tool '' @ dq s @ '' must be namespaced under plugin '' @ dq (name @ ''.'') @
                     '' (e.g. '' @ dq (name @ ''.'' @ s) @ '').'']
               else [])
      | Inr v \<Rightarrow>
          if js_truthy v then Inl (JsErr ''TypeError'' ''tool.name.startsWith is not a function'')
          else Inr [])"

definition check_namespaces :: "jsval \<Rightarrow> (jserr + string list) list" where
  "check_namespaces m =
     (case (js_prop m ''tools'', js_prop m ''name'') of
        (JArr ts, JStr name) \<Rightarrow> map (check_namespace name) ts
      | _ \<Rightarrow> [])"

definition validate_manifest :: "jsval \<Rightarrow> jserr + validation" where
  "validate_manifest m =
     (case missing_fields m required_fields of
        Inl x \<Rightarrow> Inl x
      | Inr missing \<Rightarrow>
          if missing \<noteq> [] then Inr \<lparr>vl_valid = False, vl_errors = missing\<rparr>
          else (case collect ([check_name m, check_version m] @ check_tools m @ check_permissions m @
                       check_namespaces m) of
                  Inl x \<Rightarrow> Inl x
                | Inr es \<Rightarrow> Inr \<lparr>vl_valid = (es = []), vl_errors = es\<rparr>))"

section \<open>What the validator accepts\<close>

definition tool_conforms :: "jsval \<Rightarrow> bool" where
  "tool_conforms t \<longleftrightarrow>
     is_text (js_prop t ''name'') \<and> is_text (js_prop t ''handlerModule'') \<and>
     is_text (js_prop t ''handlerExport'')"

definition namespaced :: "jsval \<Rightarrow> jsval \<Rightarrow> bool" where
  "namespaced name t \<longleftrightarrow>
     (case name of JStr n \<Rightarrow> prefix (n @ ''.'') (js_string (js_prop t ''name'')) | _ \<Rightarrow> True)"

definition conforms :: "jsval \<Rightarrow> bool" where
  "conforms m \<longleftrightarrow>
     (\<forall>f \<in> set required_fields. js_prop m f \<noteq> JUndef \<and> js_prop m f \<noteq> JNull) \<and>
     (\<exists>s. to_text (js_prop m ''name'') = Inr s \<and> name_regex s) \<and>
     (\<exists>s. js_prop m ''version'' = JStr s \<and> version_regex s) \<and>
     (\<exists>ts. js_prop m ''tools'' = JArr ts \<and>
        (\<forall>t \<in> set ts. tool_conforms t \<and> namespaced (js_prop m ''name'') t)) \<and>
     (\<exists>ps. js_prop m ''permissions'' = JArr ps \<and> set ps \<subseteq> JStr ` set valid_permissions)"

lemma collect_Nil: "collect cs = Inr [] \<longleftrightarrow> (\<forall>c \<in> set cs. c = Inr [])"
  by (induction cs) (auto split: sum.splits)

lemma complain_not_Nil [simp]: "complain v msg \<noteq> Inr []"
  by (simp add: complain_def split: sum.split)

lemma missing_fields_Nil:
  "missing_fields m fs = Inr [] \<longleftrightarrow> (\<forall>f \<in> set fs. js_prop m f \<noteq> JUndef \<and> js_prop m f \<noteq> JNull)"
  by (induction fs) (auto simp: arg_prop_def split: sum.splits)

lemma check_name_Nil:
  "check_name m = Inr [] \<longleftrightarrow> (\<exists>s. to_text (js_prop m ''name'') = Inr s \<and> name_regex s)"
  by (auto simp: check_name_def split: sum.split)

lemma check_version_Nil:
  "check_version m = Inr [] \<longleftrightarrow> (\<exists>s. js_prop m ''version'' = JStr s \<and> version_regex s)"
  by (auto simp: check_version_def split: jsval.split)

lemma check_tool_Nil: "check_tool i t = Inr [] \<longleftrightarrow> tool_conforms t"
proof (cases "t = JUndef \<or> t = JNull")
  case True
  then show ?thesis by (auto simp: check_tool_def arg_prop_def tool_conforms_def is_text_def)
next
  case False
  then show ?thesis
    by (auto simp: check_tool_def arg_prop_def check_handler_def collect_Nil tool_conforms_def
        simp del: collect.simps split: if_splits)
qed

lemma check_tools_Nil:
  "(\<forall>c \<in> set (check_tools m). c = Inr []) \<longleftrightarrow>
   (\<exists>ts. js_prop m ''tools'' = JArr ts \<and> (\<forall>t \<in> set ts. tool_conforms t))"
  by (simp add: check_tools_def check_tool_Nil all_set_conv_all_nth split: jsval.split)

lemma check_permission_Nil: "check_permission p = Inr [] \<longleftrightarrow> p \<in> JStr ` set valid_permissions"
  by (cases p) (auto simp: check_permission_def)

lemma check_permissions_Nil:
  "(\<forall>c \<in> set (check_permissions m). c = Inr []) \<longleftrightarrow>
   (\<exists>ps. js_prop m ''permissions'' = JArr ps \<and> set ps \<subseteq> JStr ` set valid_permissions)"
  by (simp add: check_permissions_def check_permission_Nil subset_eq split: jsval.split)

lemma check_namespace_Nil:
  "tool_conforms t \<Longrightarrow>
   check_namespace n t = Inr [] \<longleftrightarrow> prefix (n @ ''.'') (js_string (js_prop t ''name''))"
proof -
  assume "tool_conforms t"
  then obtain s where s: "js_prop t ''name'' = JStr s" "s \<noteq> []"
    by (auto simp: tool_conforms_def is_text_def split: jsval.splits)
  then have "arg_prop t ''name'' = Inr (JStr s)"
    by (cases t) (simp_all add: arg_prop_def)
  with s show ?thesis by (simp add: check_namespace_def)
qed

lemma check_namespaces_Nil:
  "js_prop m ''tools'' = JArr ts \<Longrightarrow> \<forall>t \<in> set ts. tool_conforms t \<Longrightarrow>
   (\<forall>c \<in> set (check_namespaces m). c = Inr []) \<longleftrightarrow> (\<forall>t \<in> set ts. namespaced (js_prop m ''name'') t)"
  by (cases "js_prop m ''name''")
     (simp_all add: check_namespaces_def namespaced_def check_namespace_Nil)

lemma validate_valid:
  "(\<exists>v. validate_manifest m = Inr v \<and> vl_valid v) \<longleftrightarrow> conforms m"
proof -
  let ?cs = "[check_name m, check_version m] @ check_tools m @ check_permissions m @ check_namespaces m"
  have "(\<exists>v. validate_manifest m = Inr v \<and> vl_valid v) \<longleftrightarrow>
      missing_fields m required_fields = Inr [] \<and> collect ?cs = Inr []"
    by (auto simp: validate_manifest_def split: sum.splits)
  also have "\<dots> \<longleftrightarrow> conforms m"
    unfolding collect_Nil missing_fields_Nil conforms_def
    using check_namespaces_Nil [of m] check_tools_Nil [of m] check_permissions_Nil [of m]
    by (auto simp: check_name_Nil check_version_Nil)
  finally show ?thesis .
qed

section \<open>Properties\<close>

text \<open>C32: The validator accepts a manifest exactly if every required field is present, the name
  reads as a plugin name, the version has three numbers, every tool has its three texts and every
  permission is known; and, but only if the name is a string, every tool name is under it. So a
  list holding one valid name is accepted as a name, with tools of any names.\<close>

theorem validator_spec:
  "((\<exists>v. validate_manifest m = Inr v \<and> vl_valid v) \<longleftrightarrow>
      list_all (\<lambda>f. js_prop m f \<noteq> JUndef \<and> js_prop m f \<noteq> JNull) required_fields \<and>
      (\<exists>s. to_text (js_prop m ''name'') = Inr s \<and> name_regex s) \<and>
      (\<exists>s. js_prop m ''version'' = JStr s \<and> version_regex s) \<and>
      (\<exists>ts. js_prop m ''tools'' = JArr ts \<and>
         list_all (\<lambda>t. tool_conforms t \<and> namespaced (js_prop m ''name'') t) ts) \<and>
      (\<exists>ps. js_prop m ''permissions'' = JArr ps \<and> set ps \<subseteq> JStr ` set valid_permissions)) \<and>
   (\<exists>v. validate_manifest
      (JObj [(''name'', JArr [JStr ''good-name'']), (''version'', JStr ''1.0.0''), (''description'', JStr []),
             (''tools'', JArr [JObj [(''name'', JStr ''system.read_file''), (''handlerModule'', JStr ''m''),
                                     (''handlerExport'', JStr ''f'')]]),
             (''permissions'', JArr [])]) = Inr v \<and> vl_valid v)"
  unfolding validate_valid
  by (auto simp: conforms_def list_all_iff required_fields_def to_text_def name_regex_def is_lower_def
      version_regex_def is_digit_def tool_conforms_def is_text_def namespaced_def)

end
