(* ===== verification/PluginLoader.thy ===== *)
theory PluginLoader
  imports Plugins
begin

text \<open>
  The plugin loader of plugins/loader.ts, which injects the tools of valid plugins into a tool
  registry, and the forecast tool of the one plugin in the repository. The directory the plugins
  are in and the exports of a required module are parameters.
\<close>

section \<open>PluginLoader\<close>

record 'h loaded_plugin =
  lp_manifest :: jsval
  lp_tools :: "(string, manifest \<times> 'h) jsmap"
  lp_valid :: bool
  lp_errors :: "string list"

text \<open>\<open>require(path)[name]\<close>: an error, a function, or something else.\<close>

type_synonym 'h module_table = "string \<Rightarrow> string \<Rightarrow> jserr + 'h option"

definition or_default :: "jsval \<Rightarrow> jsval \<Rightarrow> jsval" where
  "or_default v d = (if js_truthy v then v else d)"

text \<open>The dash of the message is three bytes in the encoding of the file.\<close>

definition load_failed :: "string \<Rightarrow> jserr \<Rightarrow> string" where
  "load_failed name x =
     ''Tool '' @ dq name @ '': failed to load handler '' @ [CHR 0xE2, CHR 0x80, CHR 0x94] @ '' '' @ err_message x"

definition load_tool ::
  "'e fs_ops \<Rightarrow> 'h module_table \<Rightarrow> string \<Rightarrow> 'e \<Rightarrow> string \<Rightarrow> jsval \<Rightarrow> string + (string \<times> manifest \<times> 'h)" where
  "load_tool ops req cwd e dir decl =
     (let name = js_string (js_prop decl ''name'');
          hm = js_string (js_prop decl ''handlerModule'');
          he = js_string (js_prop decl ''handlerExport'');
          modulePath = path_resolve cwd [dir, hm]
      in if \<not> fs_exists ops modulePath e \<and> \<not> fs_exists ops (modulePath @ ''.ts'') e \<and>
            \<not> fs_exists ops (modulePath @ ''.js'') e
         then Inl (''Tool '' @ dq name @ '': handler module not found at '' @ hm)
         else (case req modulePath he of
                 Inl x \<Rightarrow> Inl (load_failed name x)
               | Inr None \<Rightarrow>
                   Inl (''Tool '' @ dq name @ '': export '' @ dq he @ '' is not a function in '' @ hm)
               | Inr (Some h) \<Rightarrow>
                   Inr (name, \<lparr>mf_name = name,
                          mf_description = or_default (js_prop decl ''description'') (JStr []),
                          mf_parameters = or_default (js_prop decl ''parameters'') (JObj [])\<rparr>, h)))"

fun loadToolHandlers ::
  "'e fs_ops \<Rightarrow> 'h module_table \<Rightarrow> string \<Rightarrow> 'e \<Rightarrow> string \<Rightarrow> jsval list \<Rightarrow>
   (string, manifest \<times> 'h) jsmap \<Rightarrow> string list \<Rightarrow> (string, manifest \<times> 'h) jsmap \<times> string list" where
  "loadToolHandlers ops req cwd e dir [] found errs = (found, errs)"
| "loadToolHandlers ops req cwd e dir (d # ds) found errs =
     (case load_tool ops req cwd e dir d of
        Inl msg \<Rightarrow> loadToolHandlers ops req cwd e dir ds found (errs @ [msg])
      | Inr (name, mh) \<Rightarrow> loadToolHandlers ops req cwd e dir ds (AList.update name mh found) errs)"

definition tool_decls :: "jsval \<Rightarrow> jsval list" where
  "tool_decls m = (case js_prop m ''tools'' of JArr ts \<Rightarrow> ts | _ \<Rightarrow> [])"

definition blank_manifest :: "string \<Rightarrow> jsval" where
  "blank_manifest name =
     JObj [(''name'', JStr name), (''version'', JStr ''0.0.0''), (''description'', JStr []),
           (''tools'', JArr []), (''permissions'', JArr [])]"

definition rejected_plugin :: "jsval \<Rightarrow> string list \<Rightarrow> 'h loaded_plugin" where
  "rejected_plugin m es = \<lparr>lp_manifest = m, lp_tools = [], lp_valid = False, lp_errors = es\<rparr>"

text \<open>One directory: the result, and whether it was loaded. The \<open>try\<close> covers reading, parsing and
  validating the manifest.\<close>

definition read_manifest :: "'e fs_ops \<Rightarrow> string \<Rightarrow> 'e \<Rightarrow> jserr + jsval \<times> validation" where
  "read_manifest ops path e =
     (case fs_read ops path e of
        Inl x \<Rightarrow> Inl x
      | Inr text \<Rightarrow>
          (case json_parse text of
             Inl x \<Rightarrow> Inl x
           | Inr m \<Rightarrow> (case validate_manifest m of Inl x \<Rightarrow> Inl x | Inr v \<Rightarrow> Inr (m, v))))"

definition load_plugin ::
  "'e fs_ops \<Rightarrow> 'h module_table \<Rightarrow> string \<Rightarrow> 'e \<Rightarrow> string \<Rightarrow> string \<Rightarrow> bool \<times> 'h loaded_plugin" where
  "load_plugin ops req cwd e pluginsDir dir =
     (let pluginPath = path_join pluginsDir dir;
          manifestPath = path_join pluginPath ''plugin.manifest.json''
      in if \<not> fs_exists ops manifestPath e
         then (False, rejected_plugin (blank_manifest dir)
                 [''No plugin.manifest.json found in '' @ dir @ ''/''])
         else (case read_manifest ops manifestPath e of
                 Inl x \<Rightarrow> (False, rejected_plugin (blank_manifest dir)
                            [''Failed to parse manifest: '' @ err_message x])
               | Inr (m, v) \<Rightarrow>
                   if \<not> vl_valid v then (False, rejected_plugin m (vl_errors v))
                   else (case loadToolHandlers ops req cwd e pluginPath (tool_decls m) [] [] of
                           (ts, es) \<Rightarrow>
                             (True, \<lparr>lp_manifest = m, lp_tools = ts, lp_valid = (es = []),
                                     lp_errors = es\<rparr>))))"

text \<open>\<open>this.loaded\<close>: its keys are the names of valid manifests, which need not be strings. Arrays
  are keys by identity, and every parsed array is a new one.\<close>

type_synonym 'h loaded = "(jsval \<times> 'h loaded_plugin) list"

definition note_loaded :: "'h loaded_plugin \<Rightarrow> 'h loaded \<Rightarrow> 'h loaded" where
  "note_loaded p l =
     (let k = js_prop (lp_manifest p) ''name''
      in if js_is_object k then l @ [(k, p)] else AList.update k p l)"

fun load_dirs ::
  "(string \<Rightarrow> bool \<times> 'h loaded_plugin) \<Rightarrow> string list \<Rightarrow> 'h loaded \<Rightarrow> 'h loaded \<times> 'h loaded_plugin list" where
  "load_dirs load [] l = (l, [])"
| "load_dirs load (d # ds) l =
     (case load d of
        (keep, p) \<Rightarrow>
          (case load_dirs load ds (if keep then note_loaded p l else l) of
             (l', ps) \<Rightarrow> (l', p # ps)))"

definition discoverAndLoad ::
  "'e fs_ops \<Rightarrow> 'h module_table \<Rightarrow> string \<Rightarrow> 'e \<Rightarrow> string \<Rightarrow> 'h loaded \<Rightarrow> ('h loaded, 'h loaded_plugin list) outcome" where
  "discoverAndLoad ops req cwd e pluginsDir l =
     (if \<not> fs_exists ops pluginsDir e then (l, Inr [])
      else (case fs_readdir ops pluginsDir e of
              Inl x \<Rightarrow> (l, Inl x)
            | Inr entries \<Rightarrow>
                (case load_dirs (load_plugin ops req cwd e pluginsDir)
                        (map fst (filter snd entries)) l of
                   (l', ps) \<Rightarrow> (l', Inr ps))))"

record injection =
  in_injected :: "string list"
  in_rejected :: "jsval list"

fun inject_tools ::
  "(string \<times> manifest \<times> 's reg_handler) list \<Rightarrow> 's registry \<Rightarrow> injection \<Rightarrow> 's registry \<times> injection" where
  "inject_tools [] r i = (r, i)"
| "inject_tools ((name, m, h) # ts) r i =
     (case register_tool m h r of
        (r1, Inl x) \<Rightarrow> inject_tools ts r1 (i\<lparr>in_rejected := in_rejected i @ [JStr name]\<rparr>)
      | (r1, Inr _) \<Rightarrow> inject_tools ts r1 (i\<lparr>in_injected := in_injected i @ [name]\<rparr>))"

fun inject_plugins ::
  "'s reg_handler loaded \<Rightarrow> 's registry \<Rightarrow> injection \<Rightarrow> 's registry \<times> injection" where
  "inject_plugins [] r i = (r, i)"
| "inject_plugins ((k, p) # ps) r i =
     (if \<not> lp_valid p then inject_plugins ps r (i\<lparr>in_rejected := in_rejected i @ [k]\<rparr>)
      else (case inject_tools (lp_tools p) r i of (r1, i1) \<Rightarrow> inject_plugins ps r1 i1))"

definition injectIntoRegistry :: "'s reg_handler loaded \<Rightarrow> 's registry \<Rightarrow> 's registry \<times> injection" where
  "injectIntoRegistry l r = inject_plugins l r \<lparr>in_injected = [], in_rejected = []\<rparr>"

section \<open>The forecast tool\<close>

definition to_lower :: "char \<Rightarrow> char" where
  "to_lower c =
     (let n = (of_char c :: nat)
      in if 65 \<le> n \<and> n \<le> 90 \<or> 192 \<le> n \<and> n \<le> 222 \<and> n \<noteq> 215 then char_of (n + 32) else c)"

definition forecast_of :: "int \<Rightarrow> string \<Rightarrow> int \<Rightarrow> jsval" where
  "forecast_of t c h = JObj [(''temp'', jint t), (''condition'', JStr c), (''humidity'', jint h)]"

definition forecasts :: jsrec where
  "forecasts =
     \<lparr>props = [(''london'', forecast_of 12 ''Cloudy'' 78), (''tokyo'', forecast_of 24 ''Sunny'' 55),
               (''new york'', forecast_of 18 ''Partly Cloudy'' 62)], proto = None\<rparr>"

definition no_city :: tool_result where
  "no_city = failed (''Missing or invalid '' @ dq ''city'' @ '' parameter.'')"

definition forecast_for :: "string \<Rightarrow> jsval" where
  "forecast_for city =
     or_default (rec_get forecasts (map to_lower city)) (forecast_of 20 ''Unknown'' 50)"

definition getForecast :: "'s reg_handler" where
  "getForecast a args s =
     (s, case arg_prop args ''city'' of
           Inl x \<Rightarrow> Inl x
         | Inr (JStr city) \<Rightarrow>
             Inr (Returned
               (if city = [] then no_city
                else SUCCESS (JStr (text_of
                  (JObj [(''city'', JStr city), (''forecast'', forecast_for city)])))))
         | Inr _ \<Rightarrow> Inr (Returned no_city))"

section \<open>What the loader keeps\<close>

text \<open>The tools of a loaded plugin: under their own names, each declared in a manifest that conforms.\<close>

definition declares :: "jsval \<Rightarrow> string \<Rightarrow> bool" where
  "declares m n \<longleftrightarrow>
     (\<exists>t \<in> set (tool_decls m). js_prop t ''name'' = JStr n \<and> namespaced (js_prop m ''name'') t)"

definition plugin_ok :: "'h loaded_plugin \<Rightarrow> bool" where
  "plugin_ok p \<longleftrightarrow>
     (\<forall>(n, m, h) \<in> set (lp_tools p).
        mf_name m = n \<and> conforms (lp_manifest p) \<and> declares (lp_manifest p) n)"

definition loaded_ok :: "'h loaded \<Rightarrow> bool" where
  "loaded_ok l \<longleftrightarrow> (\<forall>(k, p) \<in> set l. plugin_ok p)"

lemma set_update_subset: "set (AList.update k v m) \<subseteq> insert (k, v) (set m)"
  by (induction m) auto

lemma load_tool_name:
  "load_tool ops req cwd e dir d = Inr (n, m, h) \<Longrightarrow> mf_name m = n \<and> n = js_string (js_prop d ''name'')"
  by (auto simp: load_tool_def Let_def split: if_splits sum.splits option.splits)

lemma loadToolHandlers_names:
  assumes "loadToolHandlers ops req cwd e dir ds found errs = (ts, es)"
    and "(n, m, h) \<in> set ts"
  shows "(n, m, h) \<in> set found \<or> mf_name m = n \<and> (\<exists>d \<in> set ds. n = js_string (js_prop d ''name''))"
  using assms
proof (induction ds arbitrary: found errs)
  case (Cons d ds)
  show ?case
  proof (cases "load_tool ops req cwd e dir d")
    case (Inl msg)
    then show ?thesis using Cons.IH [of found "errs @ [msg]"] Cons.prems by auto
  next
    case (Inr r)
    obtain name m' h' where r: "r = (name, m', h')" by (cases r)
    have "(n, m, h) \<in> set (AList.update name (m', h') found) \<Longrightarrow>
        (n, m, h) \<in> set found \<or> mf_name m = n \<and> n = js_string (js_prop d ''name'')"
      using set_update_subset [of name "(m', h')" found] load_tool_name [OF Inr [unfolded r]] by auto
    then show ?thesis
      using Cons.IH [of "AList.update name (m', h') found" errs] Cons.prems Inr r by auto
  qed
qed simp

lemma conforms_declares:
  assumes "conforms m" and "d \<in> set (tool_decls m)"
  shows "declares m (js_string (js_prop d ''name''))"
proof -
  obtain ts where ts: "js_prop m ''tools'' = JArr ts"
      "\<forall>t \<in> set ts. tool_conforms t \<and> namespaced (js_prop m ''name'') t"
    using assms(1) by (auto simp: conforms_def)
  then have "tool_conforms d" "namespaced (js_prop m ''name'') d"
    using assms(2) by (auto simp: tool_decls_def)
  then show ?thesis
    using assms(2) by (auto simp: declares_def tool_conforms_def is_text_def split: jsval.splits)
qed

lemma load_plugin_ok: "load_plugin ops req cwd e base dir = (b, p) \<Longrightarrow> plugin_ok p"
proof -
  assume load: "load_plugin ops req cwd e base dir = (b, p)"
  show ?thesis
  proof (cases "lp_tools p = []")
    case False
    then obtain m v ts es where v: "validate_manifest m = Inr v" "vl_valid v" and
      ts: "loadToolHandlers ops req cwd e (path_join base dir) (tool_decls m) [] [] = (ts, es)" and
      p: "lp_manifest p = m" "lp_tools p = ts"
      using load by (auto simp: load_plugin_def read_manifest_def rejected_plugin_def Let_def
          split: if_splits sum.splits prod.splits)
    have "conforms m" using v validate_valid by blast
    then show ?thesis
      using loadToolHandlers_names [OF ts] conforms_declares [of m] p by (fastforce simp: plugin_ok_def)
  qed (simp add: plugin_ok_def)
qed

lemma note_loaded_ok: "loaded_ok l \<Longrightarrow> plugin_ok p \<Longrightarrow> loaded_ok (note_loaded p l)"
  using set_update_subset by (fastforce simp: loaded_ok_def note_loaded_def Let_def)

lemma load_dirs_ok:
  "(\<And>d. plugin_ok (snd (load d))) \<Longrightarrow> loaded_ok l \<Longrightarrow> loaded_ok (fst (load_dirs load ds l))"
proof (induction ds arbitrary: l)
  case (Cons d ds)
  obtain keep p where d: "load d = (keep, p)" by fastforce
  have "plugin_ok p" using Cons.prems(1) [of d] d by simp
  then have "loaded_ok (if keep then note_loaded p l else l)"
    using note_loaded_ok [OF Cons.prems(2), of p] Cons.prems(2) by simp
  from Cons.IH [OF Cons.prems(1) this] show ?case by (cases keep) (simp_all add: d case_prod_unfold)
qed simp

lemma discover_ok: "loaded_ok l \<Longrightarrow> loaded_ok (fst (discoverAndLoad ops req cwd e base l))"
proof -
  assume "loaded_ok l"
  then have "loaded_ok (fst (load_dirs (load_plugin ops req cwd e base) ds l))" for ds
    by (rule load_dirs_ok [rotated]) (rule load_plugin_ok, rule prod.collapse [symmetric])
  with \<open>loaded_ok l\<close> show ?thesis
    by (auto simp: discoverAndLoad_def split: sum.split prod.split)
       (metis fst_conv)
qed

section \<open>Injection\<close>

text \<open>What injecting may do to a registry: keep every handler, and report exactly the new names.\<close>

definition inject_step :: "string set \<Rightarrow> 's registry \<times> injection \<Rightarrow> 's registry \<times> injection \<Rightarrow> bool" where
  "inject_step S x y \<longleftrightarrow>
     (\<forall>n h. getHandler (fst x) n = Some h \<longrightarrow> getHandler (fst y) n = Some h) \<and>
     (\<exists>new. in_injected (snd y) = in_injected (snd x) @ new \<and> distinct new \<and> set new \<subseteq> S \<and>
        (\<forall>n. n \<in> set new \<longleftrightarrow> getHandler (fst x) n = None \<and> getHandler (fst y) n \<noteq> None))"

lemma inject_step_refl: "in_injected i' = in_injected i \<Longrightarrow> inject_step S (r, i) (r, i')"
  by (auto simp: inject_step_def)

lemma inject_step_trans:
  assumes "inject_step S x y" and "inject_step S y z"
  shows "inject_step S x z"
proof -
  obtain a b where a: "in_injected (snd y) = in_injected (snd x) @ a" "distinct a" "set a \<subseteq> S"
      "\<forall>n. n \<in> set a \<longleftrightarrow> getHandler (fst x) n = None \<and> getHandler (fst y) n \<noteq> None"
    and b: "in_injected (snd z) = in_injected (snd y) @ b" "distinct b" "set b \<subseteq> S"
      "\<forall>n. n \<in> set b \<longleftrightarrow> getHandler (fst y) n = None \<and> getHandler (fst z) n \<noteq> None"
    using assms unfolding inject_step_def by blast
  have keep: "getHandler (fst x) n = Some h \<Longrightarrow> getHandler (fst y) n = Some h"
    "getHandler (fst y) n = Some h \<Longrightarrow> getHandler (fst z) n = Some h" for n h
    using assms unfolding inject_step_def by blast+
  have "set a \<inter> set b = {}" using a(4) b(4) by auto
  moreover have "n \<in> set (a @ b) \<longleftrightarrow> getHandler (fst x) n = None \<and> getHandler (fst z) n \<noteq> None" for n
    using a(4) b(4) keep(1) [of n] keep(2) [of n]
    by (cases "getHandler (fst x) n"; cases "getHandler (fst y) n") auto
  ultimately show ?thesis
    unfolding inject_step_def using a b keep
    by (intro conjI allI impI exI [of _ "a @ b"]) auto
qed

lemma inject_step_skip:
  "in_injected i' = in_injected i \<Longrightarrow> inject_step S (r, i') y \<Longrightarrow> inject_step S (r, i) y"
  using inject_step_trans inject_step_refl by blast

lemma inject_step_mono: "inject_step S x y \<Longrightarrow> S \<subseteq> T \<Longrightarrow> inject_step T x y"
  unfolding inject_step_def by blast

lemma inject_tools_step:
  "(\<forall>(n, m, h) \<in> set ts. mf_name m = n) \<Longrightarrow>
   inject_step (fst ` set ts) (r, i) (inject_tools ts r i)"
proof (induction ts r i rule: inject_tools.induct)
  case (2 name m h ts r i)
  have name: "mf_name m = name" using "2.prems" by simp
  show ?case
  proof (cases "map_has (tools r) name")
    case True
    then have reg: "register_tool m h r = (r, Inl (Error (''Tool '' @ name @ '' is already registered.'')))"
      by (simp add: register_tool_def name)
    let ?i = "i\<lparr>in_rejected := in_rejected i @ [JStr name]\<rparr>"
    have "inject_step (fst ` set ts) (r, ?i) (inject_tools ts r ?i)"
      using "2.IH"(1) reg "2.prems" by auto
    then show ?thesis
      using reg inject_step_skip [OF _ inject_step_mono, of ?i i "fst ` set ts" r] by simp blast
  next
    case False
    let ?r = "r\<lparr>manifests := AList.update name m (manifests r), tools := AList.update name h (tools r)\<rparr>"
    let ?i = "i\<lparr>in_injected := in_injected i @ [name]\<rparr>"
    have reg: "register_tool m h r = (?r, Inr ())"
      using False by (simp add: register_tool_def name)
    have "inject_step (fst ` set ts) (?r, ?i) (inject_tools ts ?r ?i)"
      using "2.IH"(2) reg "2.prems" by auto
    moreover have "inject_step {name} (r, i) (?r, ?i)"
      using False by (auto simp: inject_step_def getHandler_def map_has_def)
    ultimately show ?thesis
      using reg by (auto intro: inject_step_trans inject_step_mono)
  qed
qed (simp add: inject_step_refl)

definition plugin_names :: "'h loaded \<Rightarrow> string set" where
  "plugin_names l = {n. \<exists>(k, p) \<in> set l. lp_valid p \<and> n \<in> fst ` set (lp_tools p)}"

lemma inject_plugins_step:
  "loaded_ok l \<Longrightarrow> inject_step (plugin_names l) (r, i) (inject_plugins l r i)"
proof (induction l r i rule: inject_plugins.induct)
  case (2 k p ps r i)
  have ok: "loaded_ok ps" "\<forall>(n, m, h) \<in> set (lp_tools p). mf_name m = n"
    using "2.prems" by (auto simp: loaded_ok_def plugin_ok_def)
  have sub: "plugin_names ps \<subseteq> plugin_names ((k, p) # ps)"
    by (auto simp: plugin_names_def)
  show ?case
  proof (cases "lp_valid p")
    case False
    let ?i = "i\<lparr>in_rejected := in_rejected i @ [k]\<rparr>"
    have "inject_step (plugin_names ps) (r, ?i) (inject_plugins ps r ?i)"
      using "2.IH"(1) False ok by blast
    then show ?thesis
      using sub False by (auto intro: inject_step_skip [of ?i] inject_step_mono)
  next
    case True
    obtain r1 i1 where t: "inject_tools (lp_tools p) r i = (r1, i1)" by fastforce
    have "inject_step (fst ` set (lp_tools p)) (r, i) (r1, i1)"
      using inject_tools_step [OF ok(2)] t by metis
    moreover have "fst ` set (lp_tools p) \<subseteq> plugin_names ((k, p) # ps)"
      using True by (auto simp: plugin_names_def)
    moreover have "inject_step (plugin_names ps) (r1, i1) (inject_plugins ps r1 i1)"
      using "2.IH"(2) True t ok by simp
    ultimately show ?thesis
      using True t sub by (auto intro: inject_step_trans inject_step_mono)
  qed
qed (simp add: inject_step_refl)

lemma discovered_names:
  assumes "loaded_ok l" and "n \<in> plugin_names l"
  shows "\<exists>m. conforms m \<and> declares m n"
  using assms by (fastforce simp: plugin_names_def loaded_ok_def plugin_ok_def)

section \<open>Properties\<close>

text \<open>C31: Injection is safe. Injecting what was discovered replaces no registered tool; the names it
  reports are exactly the new ones, each once; and every new tool is declared in a manifest the
  validator accepts, under the plugin's namespace if the plugin's name is a string.\<close>

theorem injection_safe:
  assumes "discoverAndLoad ops req cwd e base [] = (l, out)"
    and "injectIntoRegistry l r = (r', i)"
  shows "(\<forall>n. getHandler r n \<noteq> None \<longrightarrow> getHandler r' n = getHandler r n) \<and>
    distinct (in_injected i) \<and>
    (\<forall>n. n \<in> set (in_injected i) \<longleftrightarrow> getHandler r n = None \<and> getHandler r' n \<noteq> None) \<and>
    (\<forall>n \<in> set (in_injected i). \<exists>m. (\<exists>v. validate_manifest m = Inr v \<and> vl_valid v) \<and>
       (\<exists>t \<in> set (tool_decls m). js_prop t ''name'' = JStr n) \<and>
       (case js_prop m ''name'' of JStr p \<Rightarrow> prefix (p @ ''.'') n | _ \<Rightarrow> True))"
proof -
  have ok: "loaded_ok l"
    using discover_ok [of "[]" ops req cwd e base] assms(1) by (simp add: loaded_ok_def)
  have new: "(\<exists>v. validate_manifest m = Inr v \<and> vl_valid v) \<and>
      (\<exists>t \<in> set (tool_decls m). js_prop t ''name'' = JStr n) \<and>
      (case js_prop m ''name'' of JStr p \<Rightarrow> prefix (p @ ''.'') n | _ \<Rightarrow> True)"
    if "conforms m" "declares m n" for m n
    using that by (auto simp: validate_valid declares_def namespaced_def split: jsval.split)
  have step: "inject_step (plugin_names l) (r, \<lparr>in_injected = [], in_rejected = []\<rparr>) (r', i)"
    using inject_plugins_step [OF ok, of r "\<lparr>in_injected = [], in_rejected = []\<rparr>"] assms(2)
    by (simp add: injectIntoRegistry_def)
  then have keep: "getHandler r n = Some h \<Longrightarrow> getHandler r' n = Some h" for n h
    by (simp add: inject_step_def)
  obtain ns where ns: "in_injected i = ns" "distinct ns" "set ns \<subseteq> plugin_names l"
      "\<forall>n. n \<in> set ns \<longleftrightarrow> getHandler r n = None \<and> getHandler r' n \<noteq> None"
    using step unfolding inject_step_def by auto
  have "\<exists>m. (\<exists>v. validate_manifest m = Inr v \<and> vl_valid v) \<and>
       (\<exists>t \<in> set (tool_decls m). js_prop t ''name'' = JStr n) \<and>
       (case js_prop m ''name'' of JStr p \<Rightarrow> prefix (p @ ''.'') n | _ \<Rightarrow> True)"
    if "n \<in> set ns" for n
    using discovered_names [OF ok, of n] ns(3) that new by blast
  then show ?thesis
    using ns keep by auto
qed

subsection \<open>An example\<close>

definition demo_manifest :: jsval where
  "demo_manifest =
     JObj [(''name'', JStr ''weather''), (''version'', JStr ''1.0.0''), (''description'', JStr []),
           (''tools'', JArr [JObj [(''name'', JStr ''weather.now''), (''handlerModule'', JStr ''now''),
                                   (''handlerExport'', JStr ''run'')]]),
           (''permissions'', JArr [JStr ''network''])]"

definition demo_plugins :: "unit fs_ops" where
  "demo_plugins =
     \<lparr>fs_exists = (\<lambda>p e. p \<in> set [''/p'', ''/p/w/plugin.manifest.json'', ''/p/w/now.ts'']),
      fs_read = (\<lambda>p e. Inr (text_of demo_manifest)),
      fs_write = (\<lambda>p c e. (e, Inr ())), fs_mkdir = (\<lambda>p e. (e, Inr ())),
      fs_readdir = (\<lambda>p e. Inr [(''w'', True)])\<rparr>"

definition demo_exports :: "unit reg_handler module_table" where
  "demo_exports p x = Inr (Some (\<lambda>a args s. (s, Inr Promised)))"

lemma demo_manifest_read: "json_parse (text_of demo_manifest) = Inr demo_manifest"
proof (rule parse_json_text)
  show "is_json demo_manifest" "wf_js demo_manifest"
    by (simp_all add: demo_manifest_def)
  then show "json_text demo_manifest = Some (text_of demo_manifest)"
    using json_text_is_json by blast
qed

lemma demo_manifest_conforms: "conforms demo_manifest"
  by (simp add: conforms_def demo_manifest_def required_fields_def to_text_def name_regex_def is_lower_def
      version_regex_def is_digit_def tool_conforms_def is_text_def namespaced_def valid_permissions_def
      split: nat.split)

lemma demo_paths:
  "path_join ''/p'' ''w'' = ''/p/w''"
  "path_join ''/p/w'' ''plugin.manifest.json'' = ''/p/w/plugin.manifest.json''"
  "path_resolve ''/'' [''/p/w'', ''now''] = ''/p/w/now''"
  by (simp_all add: path_join_def path_normalize_def path_resolve_def extend_path_def is_absolute_def
      normal_segments_def segments_def push_segment_def abs_path_def Let_def)

lemma demo_plugins_simps [simp]:
  "fs_exists demo_plugins ''/p'' e" "fs_exists demo_plugins ''/p/w/plugin.manifest.json'' e"
  "fs_exists demo_plugins ''/p/w/now.ts'' e" "\<not> fs_exists demo_plugins ''/p/w/now'' e"
  "fs_read demo_plugins p e = Inr (text_of demo_manifest)"
  "fs_readdir demo_plugins p e = Inr [(''w'', True)]"
  by (simp_all add: demo_plugins_def)

definition demo_decl :: jsval where
  "demo_decl = JObj [(''name'', JStr ''weather.now''), (''handlerModule'', JStr ''now''),
     (''handlerExport'', JStr ''run'')]"

lemma demo_load_tool:
  obtains m h where "load_tool demo_plugins demo_exports ''/'' () ''/p/w'' demo_decl = Inr (''weather.now'', m, h)"
proof -
  have "js_prop demo_decl ''name'' = JStr ''weather.now''" "js_prop demo_decl ''handlerModule'' = JStr ''now''"
    "js_prop demo_decl ''handlerExport'' = JStr ''run''"
    by (simp_all add: demo_decl_def)
  then show ?thesis
    using that by (simp add: load_tool_def demo_paths demo_exports_def Let_def)
qed

lemma demo_load:
  "\<exists>p. load_plugin demo_plugins demo_exports ''/'' () ''/p'' ''w'' = (True, p) \<and> lp_valid p \<and>
     map fst (lp_tools p) = [''weather.now''] \<and> lp_manifest p = demo_manifest"
proof -
  obtain v where v: "validate_manifest demo_manifest = Inr v" "vl_valid v"
    using demo_manifest_conforms validate_valid by blast
  have r: "read_manifest demo_plugins ''/p/w/plugin.manifest.json'' () = Inr (demo_manifest, v)"
    by (simp add: read_manifest_def demo_manifest_read v)
  obtain m h where "load_tool demo_plugins demo_exports ''/'' () ''/p/w'' demo_decl = Inr (''weather.now'', m, h)"
    by (rule demo_load_tool)
  moreover have "tool_decls demo_manifest = [demo_decl]"
    by (simp add: tool_decls_def demo_manifest_def demo_decl_def)
  ultimately have "loadToolHandlers demo_plugins demo_exports ''/'' () ''/p/w'' (tool_decls demo_manifest) [] [] =
      ([(''weather.now'', m, h)], [])"
    by simp
  then show ?thesis
    by (simp add: load_plugin_def demo_paths r v)
qed

lemma demo_name: "js_prop demo_manifest ''name'' = JStr ''weather''"
  by (simp add: demo_manifest_def)

theorem injection_safe_witness:
  "let l = fst (discoverAndLoad demo_plugins demo_exports ''/'' () ''/p'' []) in
   in_injected (snd (injectIntoRegistry l new_registry)) = [''weather.now''] \<and>
   map_option (\<lambda>h. ()) (getHandler (fst (injectIntoRegistry l new_registry)) ''weather.now'') = Some ()"
proof -
  obtain p where p: "load_plugin demo_plugins demo_exports ''/'' () ''/p'' ''w'' = (True, p)" "lp_valid p"
      "map fst (lp_tools p) = [''weather.now'']" "lp_manifest p = demo_manifest"
    using demo_load by (elim exE conjE)
  have "note_loaded p [] = [(JStr ''weather'', p)]"
    by (simp add: note_loaded_def p(4) demo_name js_is_object_def)
  then have "load_dirs (load_plugin demo_plugins demo_exports ''/'' () ''/p'') [''w''] [] =
      ([(JStr ''weather'', p)], [p])"
    by (simp add: p(1))
  then have d: "discoverAndLoad demo_plugins demo_exports ''/'' () ''/p'' [] =
      ([(JStr ''weather'', p)], Inr [p])"
    by (simp add: discoverAndLoad_def)
  obtain m h where "lp_tools p = [(''weather.now'', m, h)]"
    using p(3) by (auto simp: map_eq_Cons_conv)
  moreover have "mf_name m = ''weather.now''"
    using load_plugin_ok [OF p(1)] calculation by (simp add: plugin_ok_def)
  ultimately obtain r' i where inj: "injectIntoRegistry [(JStr ''weather'', p)] new_registry = (r', i)"
      "in_injected i = [''weather.now'']"
    using p(2) by (simp add: injectIntoRegistry_def register_tool_def new_registry_def map_has_def)
  show ?thesis
    using injection_safe [OF d inj(1)] d inj by auto
qed

end
