(* ===== verification/Sqlite.thy ===== *)
theory Sqlite
  imports Persistent Canonical "HOL-Library.Multiset"
begin

text \<open>
  The database-backed variants of host/db: \<open>SqliteStore\<close> (sqlite-store.ts), which overrides
  every operation of the persistent store, and \<open>SqliteLogger\<close> (sqlite-logger.ts), which
  overrides the log. The prepared statements are translated to operations on the rows of a
  table; the order in which a query without \<open>ORDER BY\<close> gives its rows is a parameter. Errors of
  the database itself (a locked or a full one) are not modelled.
\<close>

section \<open>SqliteStore\<close>

text \<open>The table \<open>agent_memory\<close>: the text of a value for each pair of agent and key, its primary key.\<close>

type_synonym memory_table = "((string \<times> string), string) jsmap"

definition ss_read :: "string \<Rightarrow> string \<Rightarrow> memory_table \<Rightarrow> jserr + jsval" where
  "ss_read a k t = (case map_of t (a, k) of None \<Rightarrow> Inr JNull | Some row \<Rightarrow> json_parse row)"

definition ss_write ::
  "string \<Rightarrow> string \<Rightarrow> jsval \<Rightarrow> string \<Rightarrow> memory_table \<times> world \<Rightarrow> (memory_table \<times> world, write_result) outcome" where
  "ss_write a k v tx tw =
     (let (t, w) = tw in
      case json_clone v of
        Inl e \<Rightarrow> (tw, Inl (not_serializable k))
      | Inr parsed \<Rightarrow>
          (case json_parse (text_of parsed) of
             Inl e \<Rightarrow> (tw, Inl e)
           | Inr logged \<Rightarrow>
               let w1 = log_event ''MEMORY_PERSISTENT_WRITE'' a (wal_payload tx k (Some logged)) w
               in ((AList.update (a, k) (text_of parsed) t, tick_clock w1),
                   Inr \<lparr>wr_success = True, wr_txId = tx, wr_timestamp = date_now w1\<rparr>)))"

definition ss_delete ::
  "string \<Rightarrow> string \<Rightarrow> string \<Rightarrow> memory_table \<times> world \<Rightarrow> (memory_table \<times> world) \<times> write_result" where
  "ss_delete a k tx tw =
     (let (t, w) = tw;
          w1 = log_event ''MEMORY_PERSISTENT_DELETE'' a (wal_payload tx k None) w
      in ((AList.delete (a, k) t, tick_clock w1),
          \<lparr>wr_success = True, wr_txId = tx, wr_timestamp = date_now w1\<rparr>))"

definition agent_rows :: "string \<Rightarrow> memory_table \<Rightarrow> (string \<times> string) list" where
  "agent_rows a t = map (\<lambda>((b, k), row). (k, row)) (filter (\<lambda>r. fst (fst r) = a) t)"

fun put_rows :: "(string \<times> string) list \<Rightarrow> jsrec \<Rightarrow> jserr + jsrec" where
  "put_rows [] r = Inr r"
| "put_rows ((k, row) # rows) r =
     (case json_parse row of Inl e \<Rightarrow> Inl e | Inr v \<Rightarrow> put_rows rows (rec_put k v r))"

definition ss_snapshot ::
  "((string \<times> string) list \<Rightarrow> (string \<times> string) list) \<Rightarrow> string \<Rightarrow> memory_table \<Rightarrow> jserr + jsrec" where
  "ss_snapshot arrange a t = put_rows (arrange (agent_rows a t)) empty_rec"

section \<open>The two stores side by side\<close>

datatype store_op =
    Write (op_agent: string) (op_key: string) (op_value: jsval) (op_tx: string)
  | Delete (op_agent: string) (op_key: string) (op_tx: string)

fun op_ok :: "store_op \<Rightarrow> bool" where
  "op_ok (Write a k v tx) = (k \<noteq> proto_key \<and> wf_js v)"
| "op_ok (Delete a k tx) = True"

fun ps_step :: "store_op \<Rightarrow> persistent \<times> world \<Rightarrow> (persistent \<times> world, write_result) outcome" where
  "ps_step (Write a k v tx) sw = ps_write a k v tx sw"
| "ps_step (Delete a k tx) sw = (case ps_delete a k tx sw of (sw1, r) \<Rightarrow> (sw1, Inr r))"

fun ss_step :: "store_op \<Rightarrow> memory_table \<times> world \<Rightarrow> (memory_table \<times> world, write_result) outcome" where
  "ss_step (Write a k v tx) tw = ss_write a k v tx tw"
| "ss_step (Delete a k tx) tw = (case ss_delete a k tx tw of (tw1, r) \<Rightarrow> (tw1, Inr r))"

fun run_store :: "(store_op \<Rightarrow> 's \<Rightarrow> ('s, 'a) outcome) \<Rightarrow> store_op list \<Rightarrow> 's \<Rightarrow> 's \<times> (jserr + 'a) list" where
  "run_store step [] s = (s, [])"
| "run_store step (x # xs) s =
     (case step x s of (s1, r) \<Rightarrow> (case run_store step xs s1 of (s2, rs) \<Rightarrow> (s2, r # rs)))"

text \<open>Two stores that never disagree: a simulation kept by every operation.\<close>

locale store_simulation =
  fixes step1 :: "store_op \<Rightarrow> 's \<Rightarrow> ('s, 'a) outcome"
    and step2 :: "store_op \<Rightarrow> 't \<Rightarrow> ('t, 'a) outcome"
    and related :: "'s \<Rightarrow> 't \<Rightarrow> bool"
    and fine :: "store_op \<Rightarrow> bool"
  assumes step_related:
    "related s t \<Longrightarrow> fine x \<Longrightarrow>
     related (fst (step1 x s)) (fst (step2 x t)) \<and> snd (step1 x s) = snd (step2 x t)"
begin

lemma run_related:
  "related s t \<Longrightarrow> list_all fine xs \<Longrightarrow>
   related (fst (run_store step1 xs s)) (fst (run_store step2 xs t)) \<and>
   snd (run_store step1 xs s) = snd (run_store step2 xs t)"
proof (induction xs arbitrary: s t)
  case (Cons x xs)
  then show ?case
    using step_related [of s t x] by (auto simp: case_prod_unfold)
qed simp

end

text \<open>The row of a pair is the text of what the other store holds.\<close>

definition stores_agree :: "persistent \<times> world \<Rightarrow> memory_table \<times> world \<Rightarrow> bool" where
  "stores_agree sw tw \<longleftrightarrow>
     snd sw = snd tw \<and> store_ok (fst sw) \<and> distinct (map fst (fst tw)) \<and>
     (\<forall>a k. map_of (fst tw) (a, k) = map_option text_of (own_value (fst sw) a k)) \<and>
     (\<forall>a. own_value (fst sw) a proto_key = None)"

lemma json_round: "is_json v \<Longrightarrow> wf_js v \<Longrightarrow> json_parse (text_of v) = Inr v"
  by (rule parse_json_text) (simp_all add: json_text_is_json)

lemma agree_write:
  assumes ag: "stores_agree (s, w) (t, w)" and k: "k \<noteq> proto_key" and wf: "wf_js v"
  shows "stores_agree (fst (ps_write a k v tx (s, w))) (fst (ss_write a k v tx (t, w))) \<and>
    snd (ps_write a k v tx (s, w)) = snd (ss_write a k v tx (t, w))"
proof (cases "json_clone v")
  case (Inl e)
  then show ?thesis using ag by (simp add: ps_write_def ss_write_def)
next
  case (Inr x)
  have x: "is_json x" "wf_js x"
    using json_clone_is_json [OF Inr] json_clone_wf [OF wf Inr] by simp_all
  show ?thesis
    using ag k x
    by (auto simp: ps_write_def ss_write_def Inr Let_def json_round stores_agree_def
        own_value_put_in [OF k] store_ok_put_in distinct_update)
qed

lemma agree_delete:
  assumes ag: "stores_agree (s, w) (t, w)"
  shows "stores_agree (fst (ps_delete a k tx (s, w))) (fst (ss_delete a k tx (t, w))) \<and>
    snd (ps_delete a k tx (s, w)) = snd (ss_delete a k tx (t, w))"
proof -
  let ?s = "case map_of s a of None \<Rightarrow> s | Some r \<Rightarrow> AList.update a (rec_del k r) s"
  have "store_ok ?s"
    using ag by (auto simp: stores_agree_def store_ok_def rec_ok_del split: option.split)
      (simp add: rec_del_def)
  moreover have "own_value ?s b j = (if b = a \<and> j = k then None else own_value s b j)" for b j
    by (auto simp: own_value_def own_store.get_del split: option.split)
  ultimately show ?thesis
    using ag by (simp add: ps_delete_def ss_delete_def Let_def stores_agree_def distinct_delete)
qed

interpretation sqlite_store: store_simulation ps_step ss_step stores_agree op_ok
proof unfold_locales
  fix s t x
  assume ag: "stores_agree s t" and ok: "op_ok x"
  obtain u w t' where eq: "s = (u, w)" "t = (t', w)"
    using ag by (cases s; cases t) (simp add: stores_agree_def)
  show "stores_agree (fst (ps_step x s)) (fst (ss_step x t)) \<and> snd (ps_step x s) = snd (ss_step x t)"
    unfolding eq
  proof (cases x)
    case (Write a k v tx)
    then show "stores_agree (fst (ps_step x (u, w))) (fst (ss_step x (t', w))) \<and>
        snd (ps_step x (u, w)) = snd (ss_step x (t', w))"
      using agree_write [of u w t' k v a tx] ag ok eq by simp
  next
    case (Delete a k tx)
    then show "stores_agree (fst (ps_step x (u, w))) (fst (ss_step x (t', w))) \<and>
        snd (ps_step x (u, w)) = snd (ss_step x (t', w))"
      using agree_delete [of u w t' a k tx] ag eq by (simp add: case_prod_unfold)
  qed
qed

lemma agree_start: "stores_agree ([], w) ([], w)"
  by (simp add: stores_agree_def own_value_def)

lemma own_value_json: "store_ok s \<Longrightarrow> own_value s a k = Some v \<Longrightarrow> is_json v \<and> wf_js v"
proof -
  assume "store_ok s" and "own_value s a k = Some v"
  then obtain r where "rec_ok r" "rec_own r k = Some v"
    by (auto simp: own_value_def store_ok_def split: option.splits)
  then show ?thesis by (rule rec_ok_own)
qed

lemma agree_read: "stores_agree (s, w) (t, w) \<Longrightarrow> plain_key k \<Longrightarrow> ss_read a k t = ps_read a k s"
proof -
  assume ag: "stores_agree (s, w) (t, w)" and k: "plain_key k"
  have ok: "store_ok s" and row: "map_of t (a, k) = map_option text_of (own_value s a k)"
    using ag by (simp_all add: stores_agree_def)
  show ?thesis
  proof (cases "own_value s a k")
    case None
    have "rec_get r k = JUndef" if "map_of s a = Some r" for r
      using read_absent [OF ok None that] k by (simp add: plain_key_def object_prototype_get_def)
    then show ?thesis
      using None row by (simp add: ps_read_def ss_read_def split: option.split)
  next
    case (Some v)
    then show ?thesis
      using read_own [OF ok Some] own_value_json [OF ok Some] row
      by (auto simp: ps_read_def ss_read_def json_round)
  qed
qed

lemma put_rows_own:
  assumes "distinct (map fst rows)"
    and "\<And>k row. (k, row) \<in> set rows \<Longrightarrow>
      k \<noteq> proto_key \<and> (\<exists>v. g k = Some v \<and> row = text_of v \<and> is_json v \<and> wf_js v)"
  shows "\<exists>r'. put_rows rows r = Inr r' \<and>
    (\<forall>j. rec_own r' j = (if j \<in> fst ` set rows then g j else rec_own r j))"
  using assms
proof (induction rows arbitrary: r)
  case (Cons x rows)
  obtain k row where x: "x = (k, row)" by fastforce
  obtain v where v: "k \<noteq> proto_key" "g k = Some v" "row = text_of v" "is_json v" "wf_js v"
    using Cons.prems(2) [of k row] x by auto
  obtain r' where r': "put_rows rows (rec_put k v r) = Inr r'"
      "\<forall>j. rec_own r' j = (if j \<in> fst ` set rows then g j else rec_own (rec_put k v r) j)"
    using Cons.IH [of "rec_put k v r"] Cons.prems by auto
  then show ?case
    using v x Cons.prems(1) by (auto simp: json_round rec_put_plain own_store.get_put)
qed simp

lemma agent_rows_mem: "(k, row) \<in> set (agent_rows a t) \<longleftrightarrow> ((a, k), row) \<in> set t"
  by (force simp: agent_rows_def)

lemma agent_rows_distinct: "distinct (map fst t) \<Longrightarrow> distinct (map fst (agent_rows a t))"
proof (induction t)
  case (Cons x t)
  have "k \<notin> fst ` set (agent_rows a t)" if "(a, k) \<notin> fst ` set t" for k
    using that agent_rows_mem [of k _ a t] by force
  then show ?case using Cons by (cases x) (auto simp: agent_rows_def, force)
qed (simp add: agent_rows_def)

lemma agree_snapshot:
  assumes ag: "stores_agree (s, w) (t, w)" and perm: "\<And>rs. mset (arrange rs) = mset rs"
  shows "\<exists>r. ss_snapshot arrange a t = Inr r \<and> rec_own r = own_value s a"
proof -
  let ?rows = "arrange (agent_rows a t)"
  have ok: "store_ok s" and d: "distinct (map fst t)"
    and row: "\<And>k. map_of t (a, k) = map_option text_of (own_value s a k)"
    and np: "own_value s a proto_key = None"
    using ag by (simp_all add: stores_agree_def)
  have set: "set ?rows = set (agent_rows a t)"
    using perm by (metis set_mset_mset)
  have dist: "distinct (map fst ?rows)"
    using perm [of "agent_rows a t"] agent_rows_distinct [OF d]
    by (metis mset_map mset_eq_imp_distinct_iff)
  have mem: "k \<noteq> proto_key \<and> (\<exists>v. own_value s a k = Some v \<and> rw = text_of v \<and> is_json v \<and> wf_js v)"
    if "(k, rw) \<in> set ?rows" for k rw
  proof -
    have "map_of t (a, k) = Some rw"
      using that d by (simp add: set agent_rows_mem)
    then obtain v where "own_value s a k = Some v" "rw = text_of v"
      using row by auto
    then show ?thesis using own_value_json [OF ok] np by auto
  qed
  obtain r where r: "put_rows ?rows empty_rec = Inr r"
      "\<forall>j. rec_own r j = (if j \<in> fst ` set ?rows then own_value s a j else rec_own empty_rec j)"
    using put_rows_own [OF dist mem, of empty_rec] by auto
  have "own_value s a j = None" if "j \<notin> fst ` set ?rows" for j
  proof -
    have "(j, rw) \<notin> set (agent_rows a t)" for rw
      using that set by force
    then have "map_of t (a, j) = None"
      by (metis agent_rows_mem map_of_SomeD not_Some_eq)
    then show ?thesis using row by simp
  qed
  with r show ?thesis
    by (auto simp: ss_snapshot_def rec_own_def empty_rec_def fun_eq_iff)
qed

section \<open>SqliteLogger\<close>

record audit_row =
  ar_busSeq :: int
  ar_kind :: string
  ar_agentId :: string
  ar_timestamp :: int
  ar_payload :: "string option"

text \<open>The table \<open>audit_log\<close> and the counter SQLite keeps for its \<open>AUTOINCREMENT\<close> key.\<close>

record audit_log =
  audit_rows :: "audit_row list"
  last_rowid :: int

definition new_audit_log :: audit_log where
  "new_audit_log = \<lparr>audit_rows = [], last_rowid = 0\<rparr>"

text \<open>\<open>JSON.stringify\<close> may throw, and gives no text for a function; \<open>NULL\<close> is stored then.\<close>

definition payload_text :: "jsval \<Rightarrow> jserr + string option" where
  "payload_text v =
     (if v = JUndef then Inr None
      else (case json_error v of Some e \<Rightarrow> Inl e | None \<Rightarrow> Inr (json_text v)))"

definition sl_append :: "log_input \<Rightarrow> audit_log \<Rightarrow> (audit_log, log_entry) outcome" where
  "sl_append i l =
     (case payload_text (le_payload i) of
        Inl e \<Rightarrow> (l, Inl e)
      | Inr p \<Rightarrow>
          (let n = last_rowid l + 1
           in (\<lparr>audit_rows = audit_rows l @ [\<lparr>ar_busSeq = n, ar_kind = le_kind i, ar_agentId = le_agentId i,
                  ar_timestamp = le_timestamp i, ar_payload = p\<rparr>],
                last_rowid = n\<rparr>,
               Inr (stamp i n))))"

definition row_payload :: "string option \<Rightarrow> jserr + jsval" where
  "row_payload p =
     (case p of Some t \<Rightarrow> if t \<noteq> [] then json_parse t else Inr JUndef | None \<Rightarrow> Inr JUndef)"

definition mapRowToLogEntry :: "audit_row \<Rightarrow> jserr + log_entry" where
  "mapRowToLogEntry r =
     (case row_payload (ar_payload r) of
        Inl e \<Rightarrow> Inl e
      | Inr p \<Rightarrow>
          Inr (stamp \<lparr>le_kind = ar_kind r, le_agentId = ar_agentId r, le_timestamp = ar_timestamp r,
                      le_payload = p, le_fields = []\<rparr> (ar_busSeq r)))"

fun map_rows :: "audit_row list \<Rightarrow> jserr + log_entry list" where
  "map_rows [] = Inr []"
| "map_rows (r # rs) =
     (case mapRowToLogEntry r of
        Inl e \<Rightarrow> Inl e
      | Inr x \<Rightarrow> (case map_rows rs of Inl e \<Rightarrow> Inl e | Inr xs \<Rightarrow> Inr (x # xs)))"

definition sl_getLogs :: "audit_log \<Rightarrow> jserr + log_entry list" where
  "sl_getLogs l = map_rows (sort_key ar_busSeq (audit_rows l))"

definition sl_getLogsForAgent :: "string \<Rightarrow> audit_log \<Rightarrow> jserr + log_entry list" where
  "sl_getLogsForAgent a l =
     map_rows (sort_key ar_busSeq (filter (\<lambda>r. ar_agentId r = a) (audit_rows l)))"

fun sl_append_all :: "log_input list \<Rightarrow> audit_log \<Rightarrow> audit_log" where
  "sl_append_all [] l = l"
| "sl_append_all (i # is) l = sl_append_all is (fst (sl_append i l))"

subsection \<open>What the database keeps of an entry\<close>

text \<open>The declared fields and the JSON image of the payload; fields a caller spread into the entry
  have no column.\<close>

definition db_image :: "log_entry \<Rightarrow> log_entry" where
  "db_image e =
     e\<lparr>le_payload := (case json_image (le_payload e) of None \<Rightarrow> JUndef | Some v \<Rightarrow> v), le_fields := []\<rparr>"

definition storable :: "log_input \<Rightarrow> bool" where
  "storable i \<longleftrightarrow> json_error (le_payload i) = None \<and> wf_js (le_payload i)"

lemma payload_round:
  assumes "json_error v = None" and "wf_js v"
  obtains p where "payload_text v = Inr p"
    and "row_payload p = Inr (case json_image v of None \<Rightarrow> JUndef | Some x \<Rightarrow> x)"
proof (cases "json_image v")
  case None
  then have "json_text v = None" using json_text_image [OF assms(1)] by simp
  then show ?thesis
    using that [of None] assms(1) None by (auto simp: payload_text_def row_payload_def)
next
  case (Some x)
  have x: "is_json x" "wf_js x"
    using json_image_is_json [OF Some] json_image_wf [OF assms(2) Some] by auto
  have "json_parse [] \<noteq> Inr x" by (simp add: json_parse_def skip_ws_def)
  then have "text_of x \<noteq> []" using json_round [OF x] by metis
  moreover have "json_text v = Some (text_of x)"
    using json_text_image [OF assms(1)] Some json_text_is_json [OF x(1)] by simp
  moreover have "v \<noteq> JUndef" using Some by auto
  ultimately show ?thesis
    using that [of "Some (text_of x)"] assms(1) Some json_round [OF x]
    by (auto simp: payload_text_def row_payload_def)
qed

text \<open>A table and a base logger that hold the same entries, as far as the table can.\<close>

definition mirrors :: "audit_log \<Rightarrow> logger \<Rightarrow> bool" where
  "mirrors l b \<longleftrightarrow>
     list_all2 (\<lambda>r e. mapRowToLogEntry r = Inr (db_image e) \<and> ar_agentId r = le_agentId e)
       (audit_rows l) (logs b) \<and>
     last_rowid l = nextBusSeq b - 1 \<and>
     sorted (map ar_busSeq (audit_rows l)) \<and> (\<forall>r \<in> set (audit_rows l). ar_busSeq r \<le> last_rowid l)"

lemma mirrors_start: "mirrors new_audit_log new_logger"
  by (simp add: mirrors_def new_audit_log_def new_logger_def)

lemma mirrors_append:
  assumes m: "mirrors l b" and i: "storable i"
  shows "mirrors (fst (sl_append i l)) (snd (append_entry i b)) \<and>
    snd (sl_append i l) = Inr (fst (append_entry i b))"
proof -
  obtain p where p: "payload_text (le_payload i) = Inr p"
      "row_payload p = Inr (case json_image (le_payload i) of None \<Rightarrow> JUndef | Some x \<Rightarrow> x)"
    using payload_round i unfolding storable_def by blast
  have eq: "stamp \<lparr>le_kind = le_kind i, le_agentId = le_agentId i, le_timestamp = le_timestamp i,
        le_payload = (case json_image (le_payload i) of None \<Rightarrow> JUndef | Some x \<Rightarrow> x), le_fields = []\<rparr> n =
      db_image (stamp i n)" for n
    by (simp add: db_image_def stamp_def)
  let ?n = "last_rowid l + 1"
  let ?r = "\<lparr>ar_busSeq = ?n, ar_kind = le_kind i, ar_agentId = le_agentId i,
      ar_timestamp = le_timestamp i, ar_payload = p\<rparr>"
  have "mapRowToLogEntry ?r = Inr (db_image (stamp i ?n))"
    by (simp add: mapRowToLogEntry_def p eq)
  moreover have "nextBusSeq b = ?n" using m by (simp add: mirrors_def)
  ultimately have "list_all2 (\<lambda>r e. mapRowToLogEntry r = Inr (db_image e) \<and> ar_agentId r = le_agentId e)
      (audit_rows l @ [?r]) (logs b @ [stamp i (nextBusSeq b)])"
    using m by (intro list_all2_appendI) (simp_all add: mirrors_def)
  then show ?thesis
    using m \<open>nextBusSeq b = ?n\<close>
    by (auto simp: sl_append_def p mirrors_def Let_def sorted_append)
qed

lemma mirrors_all:
  "mirrors l b \<Longrightarrow> list_all storable is \<Longrightarrow> mirrors (sl_append_all is l) (base_log.append_all is b)"
  by (induction "is" arbitrary: l b) (simp_all add: mirrors_append)

lemma mirrors_filter:
  "list_all2 (\<lambda>r e. mapRowToLogEntry r = Inr (db_image e) \<and> ar_agentId r = le_agentId e) rs es \<Longrightarrow>
   map_rows (filter (\<lambda>r. ar_agentId r = a) rs) =
     Inr (map db_image (filter (\<lambda>e. le_agentId e = a) es)) \<and>
   map_rows rs = Inr (map db_image es)"
  by (induction rule: list_all2_induct) auto

lemma mirrors_views:
  assumes "mirrors l b"
  shows "sl_getLogs l = Inr (map db_image (logs b))"
    and "sl_getLogsForAgent a l = Inr (map db_image (getLogsForAgent b a))"
  using assms mirrors_filter [of "audit_rows l" "logs b" a]
  by (simp_all add: mirrors_def sl_getLogs_def sl_getLogsForAgent_def getLogsForAgent_def
      sort_key_id_if_sorted sorted_filter)

section \<open>Properties\<close>

text \<open>C20: The database store is the persistent store. Over any history of writes and deletes, with
  values of every kind and keys other than \<open>__proto__\<close>, the two give the same results and errors
  and write the same log; afterwards every ordinary key reads the same in both, and a snapshot
  has the same properties whatever order the database returns its rows in.\<close>

theorem sqlite_store_equivalent:
  assumes "list_all op_ok xs" and "\<And>rs. mset (arrange rs) = mset rs"
    and "run_store ps_step xs ([], w) = ((s, w1), rs)" and "run_store ss_step xs ([], w) = ((t, w2), rs')"
  shows "rs = rs' \<and> w1 = w2 \<and> (plain_key k \<longrightarrow> ss_read a k t = ps_read a k s) \<and>
    map_sum id rec_own (ss_snapshot arrange a t) = map_sum id rec_own (ps_snapshot a s)"
proof -
  have ag: "stores_agree (s, w1) (t, w2)" and rs: "rs = rs'"
    using sqlite_store.run_related [OF agree_start assms(1), of w] assms(3,4) by simp_all
  then have w: "w1 = w2" and ok: "store_ok s" by (simp_all add: stores_agree_def)
  obtain r where r: "ss_snapshot arrange a t = Inr r" "rec_own r = own_value s a"
    using agree_snapshot [OF ag [unfolded w] assms(2)] by blast
  have "ps_snapshot a s = Inr \<lparr>props = props (map_get_or empty_rec s a), proto = None\<rparr>"
    using store_ok_get [OF ok, of a] by (simp add: ps_snapshot_def rec_clone_ok)
  moreover have "rec_own \<lparr>props = props (map_get_or empty_rec s a), proto = None\<rparr> = own_value s a"
    by (simp add: fun_eq_iff own_value_get rec_own_def)
  ultimately show ?thesis
    using rs w r agree_read ag by auto
qed

theorem sqlite_store_equivalent_witness:
  "snd (run_store ss_step [Write ''a'' ''k'' (jint 1) ''t'', Write ''a'' ''k'' JUndef ''u''] ([], new_world int)) =
   snd (run_store ps_step [Write ''a'' ''k'' (jint 1) ''t'', Write ''a'' ''k'' JUndef ''u''] ([], new_world int))"
proof -
  let ?xs = "[Write ''a'' ''k'' (jint 1) ''t'', Write ''a'' ''k'' JUndef ''u'']"
  let ?p = "run_store ps_step ?xs ([], new_world int)" and ?q = "run_store ss_step ?xs ([], new_world int)"
  have ok: "list_all op_ok ?xs" by (simp add: proto_key_def)
  have p: "?p = ((fst (fst ?p), snd (fst ?p)), snd ?p)" and q: "?q = ((fst (fst ?q), snd (fst ?q)), snd ?q)"
    by (simp_all only: prod.collapse)
  show ?thesis
    by (rule sqlite_store_equivalent [where arrange = "\<lambda>rs. rs", OF ok refl p q, THEN conjunct1, symmetric])
qed

text \<open>The database log is a copy of the base log without the extra fields. Appending the same
  inputs to a new base logger and to a new table, \<open>append\<close> returns the same entry; but
  \<open>getLogs\<close> and \<open>getLogsForAgent\<close> return the base logger's entries with the JSON image of their
  payload and without any field beside the declared ones, so not the states of a lifecycle
  transition.\<close>

theorem sqlite_log_image:
  assumes "list_all storable is" and "storable i"
  shows "(let l = sl_append_all is new_audit_log; b = base_log.append_all is new_logger
     in sl_getLogs l = Inr (map (\<lambda>e. e\<lparr>le_payload := (case json_image (le_payload e) of
          None \<Rightarrow> JUndef | Some v \<Rightarrow> v), le_fields := []\<rparr>) (getLogs b)) \<and>
        sl_getLogsForAgent a l = Inr (map (\<lambda>e. e\<lparr>le_payload := (case json_image (le_payload e) of
          None \<Rightarrow> JUndef | Some v \<Rightarrow> v), le_fields := []\<rparr>) (getLogsForAgent b a)) \<and>
        snd (sl_append i l) = Inr (fst (append_entry i b)))"
proof -
  have m: "mirrors (sl_append_all is new_audit_log) (base_log.append_all is new_logger)"
    using mirrors_all [OF mirrors_start assms(1)] .
  show ?thesis
    using mirrors_views [OF m] mirrors_append [OF m assms(2)]
    by (simp add: db_image_def [abs_def] getLogs_def Let_def)
qed

theorem sqlite_log_image_witness:
  "let i = \<lparr>le_kind = ''LIFECYCLE_TRANSITION'', le_agentId = ''a'', le_timestamp = 7,
            le_payload = JUndef, le_fields = [(''from'', JStr ''ACTIVE'')]\<rparr>
   in map_sum id (map le_fields) (sl_getLogs (sl_append_all [i] new_audit_log)) = Inr [[]]"
  using sqlite_log_image [of "[\<lparr>le_kind = ''LIFECYCLE_TRANSITION'', le_agentId = ''a'', le_timestamp = 7,
            le_payload = JUndef, le_fields = [(''from'', JStr ''ACTIVE'')]\<rparr>]"
      "\<lparr>le_kind = ''K'', le_agentId = ''a'', le_timestamp = 7, le_payload = JNull, le_fields = []\<rparr>" "''a''"]
  by (simp add: storable_def new_logger_def Let_def getLogs_def)

end
