(* ===== verification/FileLog.thy ===== *)
theory FileLog
  imports Canonical Logging
begin

text \<open>
  The log on disk (host/logger.ts): \<open>FileLogger\<close> appends each entry to a file as one line of JSON,
  and \<open>loadFromFile\<close> builds a logger from such a file. Entries are kept as JavaScript objects
  here, because whatever a line holds becomes an entry. The opened file is the text it holds; the
  directory, the name of the file and the messages on the console are left out.
\<close>

section \<open>Entries as objects\<close>

definition entry_js :: "log_entry \<Rightarrow> jsval" where
  "entry_js e =
     JObj ([(''kind'', JStr (le_kind e)), (''agentId'', JStr (le_agentId e)),
            (''timestamp'', jint (le_timestamp e)), (''payload'', le_payload e)] @
           le_fields e @ [(''busSeq'', jint (le_busSeq e))])"

section \<open>FileLogger\<close>

text \<open>\<open>fl_next\<close> is \<open>nextBusSeq\<close>, \<open>None\<close> for \<open>NaN\<close>; \<open>fl_frozen\<close> says that the array of entries can
  no longer be extended.\<close>

record file_logger =
  fl_logs :: "jsval list"
  fl_next :: "int option"
  fl_frozen :: bool
  fl_file :: string

definition newline :: string where
  "newline = [CHR 0x0A]"

definition new_file_logger :: "string \<Rightarrow> file_logger" where
  "new_file_logger content = \<lparr>fl_logs = [], fl_next = Some 1, fl_frozen = False, fl_file = content\<rparr>"

definition not_extensible :: jserr where
  "not_extensible = JsErr ''TypeError'' ''Cannot add property, object is not extensible''"

text \<open>An entry whose number is \<open>NaN\<close> reads \<open>null\<close> in the file.\<close>

definition numbered :: "log_input \<Rightarrow> int option \<Rightarrow> jsval" where
  "numbered i n =
     JObj ([(''kind'', JStr (le_kind i)), (''agentId'', JStr (le_agentId i)),
            (''timestamp'', jint (le_timestamp i)), (''payload'', le_payload i)] @
           le_fields i @ [(''busSeq'', case n of Some k \<Rightarrow> jint k | None \<Rightarrow> JNum NNaN)])"

definition fl_append :: "log_input \<Rightarrow> file_logger \<Rightarrow> (file_logger, jsval) outcome" where
  "fl_append i l =
     (let e = numbered i (fl_next l);
          l1 = l\<lparr>fl_next := map_option (\<lambda>n. n + 1) (fl_next l)\<rparr>
      in if fl_frozen l then (l1, Inl not_extensible)
         else (let l2 = l1\<lparr>fl_logs := fl_logs l @ [e]\<rparr>
               in case json_error e of
                    Some x \<Rightarrow> (l2, Inl x)
                  | None \<Rightarrow> (l2\<lparr>fl_file := fl_file l @ text_of e @ newline\<rparr>, Inr e)))"

definition blank_char :: "char \<Rightarrow> bool" where
  "blank_char c \<longleftrightarrow> (of_char c :: nat) \<in> {9, 10, 11, 12, 13, 32, 160}"

definition file_lines :: "string \<Rightarrow> string list" where
  "file_lines s = filter (\<lambda>l. \<not> list_all blank_char l) (split_on (CHR 0x0A) s)"

text \<open>\<open>Math.max(nextBusSeq, entry.busSeq + 1)\<close>, where \<open>entry.busSeq\<close> throws on \<open>null\<close>. Numbers are
  what the logger writes; any other value is taken for \<open>NaN\<close>.\<close>

definition seq_after :: "jsval \<Rightarrow> int option" where
  "seq_after v = (case js_prop v ''busSeq'' of JNum (NInt k) \<Rightarrow> Some (k + 1) | _ \<Rightarrow> None)"

definition max_seq :: "int option \<Rightarrow> int option \<Rightarrow> int option" where
  "max_seq m n = (case (m, n) of (Some a, Some b) \<Rightarrow> Some (max a b) | _ \<Rightarrow> None)"

definition null_entry :: jserr where
  "null_entry = JsErr ''TypeError'' ''Cannot read properties of null''"

fun load_lines :: "string list \<Rightarrow> file_logger \<Rightarrow> jserr + file_logger" where
  "load_lines [] l = Inr l"
| "load_lines (t # ts) l =
     (case json_parse t of
        Inl x \<Rightarrow> Inl x
      | Inr e \<Rightarrow>
          if e = JNull then Inl null_entry
          else load_lines ts
                 (l\<lparr>fl_logs := fl_logs l @ [e], fl_next := max_seq (fl_next l) (seq_after e)\<rparr>))"

definition loadFromFile :: "string \<Rightarrow> jserr + file_logger" where
  "loadFromFile content =
     (case load_lines (file_lines content) (new_file_logger content) of
        Inl x \<Rightarrow> Inl x
      | Inr l \<Rightarrow> Inr (l\<lparr>fl_frozen := True\<rparr>))"

section \<open>One line per entry\<close>

lemma newline_hex: "n < 16 \<Longrightarrow> hex_digit n \<noteq> CHR 0x0A"
  by (auto simp: hex_digit_def numeral_eq_Suc less_Suc_eq)

lemma newline_quote_char: "CHR 0x0A \<notin> set (quote_char c)"
proof -
  have "of_char (CHR 0x0A) = (10 :: nat)" by simp
  then have "(of_char c :: nat) \<noteq> 10 \<Longrightarrow> c \<noteq> CHR 0x0A" by metis
  moreover have "(of_char c :: nat) < 32 \<Longrightarrow>
      hex_digit (of_char c div 16) \<noteq> CHR 0x0A \<and> hex_digit (of_char c mod 16) \<noteq> CHR 0x0A"
    by (simp add: newline_hex)
  ultimately show ?thesis
    by (auto simp: quote_char_def Let_def)
qed

lemma newline_quote: "CHR 0x0A \<notin> set (quote s)"
  using newline_quote_char by (auto simp: quote_def)

lemma newline_join: "(\<And>s. s \<in> set ss \<Longrightarrow> CHR 0x0A \<notin> set s) \<Longrightarrow> CHR 0x0A \<notin> set (join_with '','' ss)"
  by (induction "'',''" ss rule: join_with.induct) auto

lemma newline_number: "wf_num n \<Longrightarrow> CHR 0x0A \<notin> set (num_text n)"
proof (cases n)
  case (NInt i)
  have "CHR 0x0A \<notin> set (show_nat k)" for k
    using show_nat_is_digit [of "CHR 0x0A" k] by (auto simp: is_digit_def)
  then show ?thesis by (simp add: NInt show_int_def)
next
  case (NDec s)
  assume "wf_num n"
  then have "list_all num_char s" by (simp add: NDec)
  moreover have "\<not> num_char (CHR 0x0A)" by (simp add: num_char_def)
  ultimately show ?thesis by (auto simp: NDec list_all_iff)
qed simp_all

lemma newline_text: "is_json v \<Longrightarrow> wf_js v \<Longrightarrow> CHR 0x0A \<notin> set (text_of v)"
proof (induction v rule: is_json.induct)
  case (5 xs)
  then have "CHR 0x0A \<notin> set (join_with '','' (map text_of xs))"
    by (intro newline_join) auto
  then show ?case using 5 by (simp add: text_of_JArr)
next
  case (6 kvs)
  then have "CHR 0x0A \<notin> set (text_of v)" if "(k, v) \<in> set kvs" for k v
    using that by fastforce
  then have "CHR 0x0A \<notin> set (join_with '','' (map member_text kvs))"
    by (intro newline_join) (auto simp: newline_quote)
  then show ?case using 6 by (simp add: text_of_JObj)
qed (auto simp: newline_quote newline_number)

text \<open>The objects whose line can be read back: what is left of them is a JSON object.\<close>

definition line_image :: "jsval \<Rightarrow> jsval" where
  "line_image v = (case json_image v of None \<Rightarrow> JNull | Some w \<Rightarrow> w)"

lemma line_read:
  assumes "json_error (JObj kvs) = None" and "wf_js (JObj kvs)"
  shows "json_parse (text_of (JObj kvs)) = Inr (line_image (JObj kvs)) \<and>
    CHR 0x0A \<notin> set (text_of (JObj kvs)) \<and> \<not> list_all blank_char (text_of (JObj kvs)) \<and>
    line_image (JObj kvs) = JObj (image_props kvs)"
proof -
  let ?w = "JObj (image_props kvs)"
  have img: "json_image (JObj kvs) = Some ?w" by simp
  have w: "is_json ?w" "wf_js ?w"
    using json_image_is_json [OF img] json_image_wf [OF assms(2) img] by simp_all
  have t: "text_of (JObj kvs) = text_of ?w"
    using json_text_image [OF assms(1)] img json_text_is_json [OF w(1)] by (simp add: text_of_def)
  have "\<forall>(k, v) \<in> set (image_props kvs). is_json v" using w(1) by simp
  then have "\<exists>r. text_of ?w = CHR ''{'' # r"
    using text_of_JObj by auto
  then have "\<not> list_all blank_char (text_of ?w)"
    by (auto simp: blank_char_def)
  moreover have "json_parse (text_of ?w) = Inr ?w"
    by (rule parse_json_text [OF w]) (rule json_text_is_json [OF w(1)])
  ultimately show ?thesis
    using newline_text [OF w] img by (simp only: t line_image_def option.case simp_thms)
qed

fun fl_append_all :: "log_input list \<Rightarrow> file_logger \<Rightarrow> file_logger" where
  "fl_append_all [] l = l"
| "fl_append_all (i # is) l = fl_append_all is (fst (fl_append i l))"

definition line_ok :: "log_input \<Rightarrow> bool" where
  "line_ok i \<longleftrightarrow> json_error (numbered i (Some 0)) = None \<and> wf_js (numbered i (Some 0))"

definition entry_props :: "log_input \<Rightarrow> int \<Rightarrow> (string \<times> jsval) list" where
  "entry_props i n =
     [(''kind'', JStr (le_kind i)), (''agentId'', JStr (le_agentId i)),
      (''timestamp'', jint (le_timestamp i)), (''payload'', le_payload i)] @
     le_fields i @ [(''busSeq'', jint n)]"

lemma numbered_props: "numbered i (Some n) = JObj (entry_props i n)"
  by (simp add: numbered_def entry_props_def)

lemma numbered_ok:
  assumes "line_ok i"
  shows "json_error (JObj (entry_props i n)) = None" and "wf_js (JObj (entry_props i n))"
    and "seq_after (line_image (JObj (entry_props i n))) = Some (n + 1)"
proof -
  have e0: "json_error (JObj (entry_props i 0)) = None" and w0: "wf_js (JObj (entry_props i 0))"
    using assms by (simp_all only: line_ok_def numbered_props)
  show e: "json_error (JObj (entry_props i n)) = None"
    using e0 by (simp add: entry_props_def)
  show w: "wf_js (JObj (entry_props i n))"
    using w0 by (simp add: entry_props_def)
  have "(''busSeq'', jint n) \<in> set (image_props (entry_props i n))"
    by (subst image_props_set) (auto simp: entry_props_def)
  moreover have "distinct (map fst (image_props (entry_props i n)))"
    using w by (intro json_image_distinct) simp
  ultimately have "map_of (image_props (entry_props i n)) ''busSeq'' = Some (jint n)"
    by (rule map_of_is_SomeI [rotated])
  then show "seq_after (line_image (JObj (entry_props i n))) = Some (n + 1)"
    using line_read [OF e w] by (simp add: seq_after_def del: json_image.simps)
qed

text \<open>What a history of appends leaves: the entries in order and their lines in the file.\<close>

fun entries_from :: "int \<Rightarrow> log_input list \<Rightarrow> jsval list" where
  "entries_from n [] = []"
| "entries_from n (i # is) = JObj (entry_props i n) # entries_from (n + 1) is"

definition lines_of :: "jsval list \<Rightarrow> string" where
  "lines_of es = concat (map (\<lambda>e. text_of e @ newline) es)"

lemma fl_append_all_state:
  "list_all line_ok is \<Longrightarrow> \<not> fl_frozen l \<Longrightarrow> fl_next l = Some n \<Longrightarrow>
   fl_append_all is l =
     l\<lparr>fl_logs := fl_logs l @ entries_from n is, fl_next := Some (n + int (length is)),
       fl_file := fl_file l @ lines_of (entries_from n is)\<rparr>"
proof (induction "is" arbitrary: l n)
  case Nil
  then show ?case by (simp add: lines_of_def)
next
  case (Cons i "is")
  have "json_error (JObj (entry_props i n)) = None"
    using Cons.prems(1) by (intro numbered_ok(1)) simp
  then have "fst (fl_append i l) = l\<lparr>fl_next := Some (n + 1), fl_logs := fl_logs l @ [JObj (entry_props i n)],
      fl_file := fl_file l @ text_of (JObj (entry_props i n)) @ newline\<rparr>"
    using Cons.prems by (simp add: fl_append_def numbered_props Let_def del: json_error.simps)
  then show ?case
    using Cons.IH [of "fst (fl_append i l)" "n + 1"] Cons.prems by (simp add: lines_of_def)
qed

lemma file_lines_entries:
  "list_all line_ok is \<Longrightarrow> file_lines (lines_of (entries_from n is)) = map text_of (entries_from n is)"
proof (induction "is" arbitrary: n)
  case Nil
  then show ?case by (simp add: file_lines_def lines_of_def)
next
  case (Cons i "is")
  note ok = line_read [OF numbered_ok(1,2) [of i n]]
  have "split_on (CHR 0x0A) (text_of (JObj (entry_props i n)) @ CHR 0x0A # lines_of (entries_from (n + 1) is)) =
      text_of (JObj (entry_props i n)) # split_on (CHR 0x0A) (lines_of (entries_from (n + 1) is))"
    using ok Cons.prems by (intro split_on_append) simp
  then show ?case
    using Cons.IH [of "n + 1"] Cons.prems ok
    by (simp add: file_lines_def lines_of_def newline_def)
qed

lemma load_entries:
  "list_all line_ok is \<Longrightarrow> fl_next l = Some n \<Longrightarrow>
   load_lines (map text_of (entries_from n is)) l =
     Inr (l\<lparr>fl_logs := fl_logs l @ map line_image (entries_from n is),
            fl_next := Some (n + int (length is))\<rparr>)"
proof (induction "is" arbitrary: l n)
  case (Cons i "is")
  note ok = line_read [OF numbered_ok(1,2) [of i n]]
  have "line_image (JObj (entry_props i n)) \<noteq> JNull"
    using ok Cons.prems(1) by simp
  then show ?case
    using Cons.IH [of "l\<lparr>fl_logs := fl_logs l @ [line_image (JObj (entry_props i n))], fl_next := Some (n + 1)\<rparr>" "n + 1"]
      ok numbered_ok(3) [of i n] Cons.prems
    by (simp add: max_seq_def del: json_image.simps)
qed simp

section \<open>Properties\<close>

text \<open>C27: A restart loses nothing but what JSON loses, and ends the log. Whatever was appended to a
  new file logger, \<open>loadFromFile\<close> on its file gives a logger with the JSON images of the same
  entries in the same order and the same next number; but its array is frozen, so the next
  \<open>append\<close> throws after taking a number and writes nothing to the file. The entries are such
  that \<open>JSON.stringify\<close> prints them (\<open>line_ok\<close>).\<close>

theorem file_log_roundtrip:
  assumes "list_all line_ok is"
  shows "let l = fl_append_all is (new_file_logger []) in
    (case loadFromFile (fl_file l) of
       Inl x \<Rightarrow> False
     | Inr l' \<Rightarrow>
         fl_logs l' = map line_image (fl_logs l) \<and> fl_next l' = fl_next l \<and>
         fl_next l = Some (int (length is) + 1) \<and>
         snd (fl_append i l') = Inl not_extensible \<and> fl_file (fst (fl_append i l')) = fl_file l)"
  using fl_append_all_state [OF assms, of "new_file_logger []" 1] file_lines_entries [OF assms, of 1]
    load_entries [OF assms, of "new_file_logger (lines_of (entries_from 1 is))" 1]
  by (simp add: new_file_logger_def loadFromFile_def Let_def fl_append_def)

theorem file_log_roundtrip_witness:
  "let i = \<lparr>le_kind = ''TICK'', le_agentId = ''a'', le_timestamp = 7,
            le_payload = JObj [(''x'', JStr [CHR 0x0A])], le_fields = []\<rparr>;
       l = fl_append_all [i, i] (new_file_logger [])
   in map_sum id (\<lambda>l'. (length (fl_logs l'), fl_next l')) (loadFromFile (fl_file l)) = Inr (2, Some 3)"
proof -
  let ?i = "\<lparr>le_kind = ''TICK'', le_agentId = ''a'', le_timestamp = 7,
      le_payload = JObj [(''x'', JStr [CHR 0x0A])], le_fields = []\<rparr>"
  have ok: "list_all line_ok [?i, ?i]" by (simp add: line_ok_def numbered_def)
  have "length (fl_logs (fl_append_all [?i, ?i] (new_file_logger []))) = 2"
    using fl_append_all_state [OF ok, of "new_file_logger []" 1] by (simp add: new_file_logger_def)
  then show ?thesis
    using file_log_roundtrip [OF ok, of ?i] by (auto simp: Let_def split: sum.splits)
qed

end
