(* ===== verification/Dashboard.thy ===== *)
theory Dashboard
  imports Bus JsonText
begin

text \<open>
  The dashboard of host/dashboard/server.ts: the server that buffers every bus event and sends it
  to the connected clients, and the script of the embedded page that counts and lists what it is
  sent. A socket is a name; what is sent to it is recorded in \<open>outbox\<close>. Whether a socket is open,
  the token its request carries and the local time of day are parameters.
\<close>

section \<open>Events as objects\<close>

fun event_js :: "kernel_event \<Rightarrow> jsval" where
  "event_js (AGENT_SPAWNED a t) =
     JObj [(''kind'', JStr ''AGENT_SPAWNED''), (''agentId'', JStr a), (''timestamp'', jint t)]"
| "event_js (LIFECYCLE_TRANSITION a f g t) =
     JObj [(''kind'', JStr ''LIFECYCLE_TRANSITION''), (''agentId'', JStr a), (''from'', JStr f),
           (''to'', JStr g), (''timestamp'', jint t)]"
| "event_js (TICK_COMPLETED a n t) =
     JObj [(''kind'', JStr ''TICK_COMPLETED''), (''agentId'', JStr a), (''tickSeq'', jint n),
           (''timestamp'', jint t)]"
| "event_js (TICK_FAILED a n r t) =
     JObj [(''kind'', JStr ''TICK_FAILED''), (''agentId'', JStr a), (''tickSeq'', jint n),
           (''reason'', JStr r), (''timestamp'', jint t)]"
| "event_js (TOOL_CALL_REQUESTED a n t) =
     JObj [(''kind'', JStr ''TOOL_CALL_REQUESTED''), (''agentId'', JStr a), (''toolName'', JStr n),
           (''timestamp'', jint t)]"
| "event_js (MEMORY_ACCESS a s c k t) =
     JObj [(''kind'', JStr ''MEMORY_ACCESS''), (''agentId'', JStr a), (''scope'', JStr s),
           (''action'', JStr c), (''key'', JStr k), (''timestamp'', jint t)]"
| "event_js (KERNEL_PANIC a r t) =
     JObj [(''kind'', JStr ''KERNEL_PANIC''), (''agentId'', JStr a), (''reason'', JStr r),
           (''timestamp'', jint t)]"

section \<open>DashboardServer\<close>

record dashboard =
  clients :: "string list"
  eventBuffer :: "jsval list"
  outbox :: "(string \<times> string) list"
  closed :: "(string \<times> (int \<times> string) option) list"
  db_world :: world

definition new_dashboard :: "world \<Rightarrow> dashboard" where
  "new_dashboard w =
     \<lparr>clients = [], eventBuffer = [], outbox = [], closed = [], db_world = w\<rparr>"

definition maxBufferSize :: nat where
  "maxBufferSize = 200"

text \<open>An empty \<open>authToken\<close> is no token.\<close>

definition authorised :: "string option \<Rightarrow> string option \<Rightarrow> bool" where
  "authorised authToken token \<longleftrightarrow>
     (case authToken of None \<Rightarrow> True | Some t \<Rightarrow> t = [] \<or> token = Some t)"

definition init_message :: "jsval list \<Rightarrow> jsval" where
  "init_message buffer =
     JObj [(''type'', JStr ''INIT''), (''payload'', JObj [(''bufferedEvents'', JArr buffer)])]"

definition on_connection ::
  "string option \<Rightarrow> string \<Rightarrow> string option \<Rightarrow> dashboard \<Rightarrow> dashboard" where
  "on_connection authToken c token d =
     (if \<not> authorised authToken token
      then d\<lparr>closed := closed d @ [(c, Some (4001, ''Unauthorized''))]\<rparr>
      else d\<lparr>clients := (if c \<in> set (clients d) then clients d else clients d @ [c]),
             outbox := outbox d @ [(c, text_of (init_message (eventBuffer d)))]\<rparr>)"

definition on_close :: "string \<Rightarrow> dashboard \<Rightarrow> dashboard" where
  "on_close c d = d\<lparr>clients := removeAll c (clients d)\<rparr>"

definition bus_message :: "kernel_event \<Rightarrow> int \<Rightarrow> jsval" where
  "bus_message ev t =
     JObj [(''type'', JStr ''BUS_EVENT''), (''payload'', event_js ev), (''timestamp'', jint t)]"

definition on_event :: "(string \<Rightarrow> bool) \<Rightarrow> kernel_event \<Rightarrow> dashboard \<Rightarrow> dashboard" where
  "on_event is_open ev d =
     (let message = bus_message ev (date_now (db_world d));
          buffer = eventBuffer d @ [message];
          buffer1 = (if length buffer > maxBufferSize then tl buffer else buffer);
          data = text_of message
      in d\<lparr>eventBuffer := buffer1,
           outbox := outbox d @ map (\<lambda>c. (c, data)) (filter is_open (clients d)),
           db_world := tick_clock (db_world d)\<rparr>)"

definition db_stop :: "dashboard \<Rightarrow> dashboard" where
  "db_stop d = d\<lparr>closed := closed d @ map (\<lambda>c. (c, None)) (clients d), clients := []\<rparr>"

definition getClientCount :: "dashboard \<Rightarrow> nat" where
  "getClientCount d = length (clients d)"

definition getBufferedEvents :: "dashboard \<Rightarrow> jsval list" where
  "getBufferedEvents d = eventBuffer d"

text \<open>The page: the file beside the server if it is there, the embedded one otherwise.\<close>

definition db_serve :: "string option \<Rightarrow> string \<Rightarrow> string \<Rightarrow> int \<times> string" where
  "db_serve html_file embedded url =
     (if url = ''/'' \<or> url = ''/index.html''
      then (200, case html_file of Some html \<Rightarrow> html | None \<Rightarrow> embedded)
      else (404, ''Not Found''))"

section \<open>The script of the page\<close>

record page =
  pg_rows :: "string list"
  pg_agents :: "string list"
  totalEvents :: nat
  totalTicks :: nat
  totalTools :: nat

definition new_page :: page where
  "new_page = \<lparr>pg_rows = [], pg_agents = [], totalEvents = 0, totalTicks = 0, totalTools = 0\<rparr>"

definition getBadgeClass :: "string \<Rightarrow> string" where
  "getBadgeClass kind =
     (if str_includes kind ''SPAWN'' then ''spawn''
      else if str_includes kind ''TICK'' then ''tick''
      else if str_includes kind ''TOOL'' then ''tool''
      else if str_includes kind ''MEMORY'' then ''memory''
      else ''default'')"

definition text_or :: "jsval \<Rightarrow> string \<Rightarrow> string" where
  "text_or v d = (case v of JStr s \<Rightarrow> if s \<noteq> [] then s else d | _ \<Rightarrow> d)"

text \<open>The dash of an event without an agent lies beyond the code units of the model and is written as
  its UTF-8 bytes.\<close>

definition row_html :: "string \<Rightarrow> jsval \<Rightarrow> string" where
  "row_html ts event =
     (let payload = js_prop event ''payload'' in
      ''<span class='' @ [CHR 0x22] @ ''ts'' @ [CHR 0x22] @ ''>'' @ ts @ ''</span>'' @
      ''<span class='' @ [CHR 0x22] @ ''badge '' @ getBadgeClass (text_or (js_prop payload ''kind'') []) @
      [CHR 0x22] @ ''>'' @ text_or (js_prop payload ''kind'') ''EVENT'' @ ''</span>'' @
      ''<span class='' @ [CHR 0x22] @ ''agent-id'' @ [CHR 0x22] @ ''>'' @
      text_or (js_prop payload ''agentId'') [CHR 0xE2, CHR 0x80, CHR 0x94] @ ''</span>'')"

definition addEvent :: "(jsval \<Rightarrow> string) \<Rightarrow> jsval \<Rightarrow> page \<Rightarrow> page" where
  "addEvent local_time event p =
     (let payload = js_prop event ''payload'';
          kind = text_or (js_prop payload ''kind'') [];
          agent = text_or (js_prop payload ''agentId'') [];
          rows = row_html (local_time (js_prop event ''timestamp'')) event # pg_rows p;
          rows1 = (if length rows > 200 then butlast rows else rows)
      in \<lparr>pg_rows = rows1,
          pg_agents = (if agent = [] \<or> agent \<in> set (pg_agents p) then pg_agents p
                       else pg_agents p @ [agent]),
          totalEvents = totalEvents p + 1,
          totalTicks = (if str_includes kind ''TICK'' then totalTicks p + 1 else totalTicks p),
          totalTools = (if str_includes kind ''TOOL'' then totalTools p + 1 else totalTools p)\<rparr>)"

definition on_message :: "(jsval \<Rightarrow> string) \<Rightarrow> jsval \<Rightarrow> page \<Rightarrow> page" where
  "on_message local_time msg p =
     (if js_prop msg ''type'' = JStr ''INIT''
      then (case js_prop (js_prop msg ''payload'') ''bufferedEvents'' of
              JArr es \<Rightarrow> fold (addEvent local_time) es p
            | _ \<Rightarrow> p)
      else addEvent local_time msg p)"

section \<open>Histories\<close>

datatype db_action = Connect string "string option" | Close string | Event kernel_event

fun db_step :: "(string \<Rightarrow> bool) \<Rightarrow> string option \<Rightarrow> db_action \<Rightarrow> dashboard \<Rightarrow> dashboard" where
  "db_step is_open auth (Connect c token) d = on_connection auth c token d"
| "db_step is_open auth (Close c) d = on_close c d"
| "db_step is_open auth (Event ev) d = on_event is_open ev d"

fun messages_of :: "db_action list \<Rightarrow> world \<Rightarrow> jsval list" where
  "messages_of [] w = []"
| "messages_of (Event ev # as) w = bus_message ev (date_now w) # messages_of as (tick_clock w)"
| "messages_of (_ # as) w = messages_of as w"

definition last_n :: "nat \<Rightarrow> 'a list \<Rightarrow> 'a list" where
  "last_n n xs = drop (length xs - n) xs"

lemma last_n_step:
  "last_n n (last_n n xs @ ys) = last_n n (xs @ ys)"
proof (cases "length xs \<le> n")
  case False
  then have "length ys + (length xs - n) = length xs + length ys - n" by simp
  with False show ?thesis by (simp add: last_n_def)
qed (simp add: last_n_def)

lemma buffer_step:
  "0 < n \<Longrightarrow> length b \<le> n \<Longrightarrow> (if length (b @ [x]) > n then tl (b @ [x]) else b @ [x]) = last_n n (b @ [x])"
  by (cases b) (auto simp: last_n_def Suc_diff_le)

lemma on_event_buffer:
  "length (eventBuffer d) \<le> maxBufferSize \<Longrightarrow>
   eventBuffer (on_event is_open ev d) =
     last_n maxBufferSize (eventBuffer d @ [bus_message ev (date_now (db_world d))])"
  using buffer_step [of maxBufferSize "eventBuffer d"] by (simp add: on_event_def Let_def maxBufferSize_def)

lemma db_buffer:
  "length (eventBuffer d) \<le> maxBufferSize \<Longrightarrow>
   eventBuffer (fold (db_step is_open auth) as d) =
     last_n maxBufferSize (eventBuffer d @ messages_of as (db_world d))"
proof (induction as arbitrary: d)
  case Nil
  then show ?case by (simp add: last_n_def)
next
  case (Cons x as)
  show ?case
  proof (cases x)
    case (Event ev)
    have "length (eventBuffer (on_event is_open ev d)) \<le> maxBufferSize"
      using on_event_buffer [OF Cons.prems] by (simp add: last_n_def)
    moreover have "db_world (on_event is_open ev d) = tick_clock (db_world d)"
      by (simp add: on_event_def Let_def)
    ultimately show ?thesis
      using Cons.IH on_event_buffer [OF Cons.prems, of is_open ev] Event
      by (simp add: last_n_step maxBufferSize_def)
  qed (use Cons in \<open>simp_all add: on_connection_def on_close_def\<close>)
qed

lemma messages_skip: "messages_of (as @ Connect c token # bs) w = messages_of (as @ bs) w"
proof (induction as arbitrary: w)
  case (Cons x as)
  then show ?case by (cases x) simp_all
qed simp

text \<open>What a socket was sent.\<close>

definition sent_to :: "string \<Rightarrow> dashboard \<Rightarrow> string list" where
  "sent_to c d = map snd (filter (\<lambda>x. fst x = c) (outbox d))"

definition about :: "string \<Rightarrow> db_action \<Rightarrow> bool" where
  "about c x \<longleftrightarrow> x = Close c \<or> (\<exists>token. x = Connect c token)"

definition lets_in :: "string option \<Rightarrow> string \<Rightarrow> db_action \<Rightarrow> bool" where
  "lets_in auth c x \<longleftrightarrow> (\<exists>token. x = Connect c token \<and> authorised auth token)"

definition receivers :: "dashboard \<Rightarrow> string set" where
  "receivers d = set (clients d) \<union> fst ` set (outbox d)"

lemma receivers_step: "receivers (db_step is_open auth x d) \<subseteq> receivers d \<union> {c. lets_in auth c x}"
  by (cases x) (auto simp: receivers_def on_connection_def on_close_def on_event_def lets_in_def Let_def)

lemma receivers_fold:
  "receivers (fold (db_step is_open auth) as d) \<subseteq> receivers d \<union> {c. list_ex (lets_in auth c) as}"
proof (induction as arbitrary: d)
  case (Cons x as)
  show ?case using Cons [of "db_step is_open auth x d"] receivers_step [of is_open auth x d] by auto
qed simp

lemma filter_one: "distinct xs \<Longrightarrow> c \<in> set xs \<Longrightarrow> P c \<Longrightarrow> filter (\<lambda>x. x = c) (filter P xs) = [c]"
  by (induction xs) (auto simp: filter_empty_conv)

lemma sent_event:
  assumes "c \<in> set (clients d)" "distinct (clients d)" "is_open c"
  shows "sent_to c (on_event is_open ev d) = sent_to c d @ [text_of (bus_message ev (date_now (db_world d)))]"
proof -
  have "map snd (filter (\<lambda>x. fst x = c) (map (\<lambda>c. (c, data)) xs)) = map (\<lambda>_. data) (filter (\<lambda>x. x = c) xs)"
    for data :: string and xs
    by (induction xs) auto
  then show ?thesis
    using filter_one [of "clients d" c is_open] assms
    by (simp add: on_event_def sent_to_def Let_def)
qed

lemma db_delivery:
  "c \<in> set (clients d) \<Longrightarrow> distinct (clients d) \<Longrightarrow> is_open c \<Longrightarrow> list_all (\<lambda>x. \<not> about c x) as \<Longrightarrow>
   sent_to c (fold (db_step is_open auth) as d) =
     sent_to c d @ map text_of (messages_of as (db_world d))"
proof (induction as arbitrary: d)
  case (Cons x as)
  show ?case
  proof (cases x)
    case (Event ev)
    then show ?thesis
      using Cons.IH [of "on_event is_open ev d"] Cons.prems sent_event [of c d is_open ev]
      by (simp add: on_event_def Let_def)
  next
    case (Connect b token)
    then show ?thesis
      using Cons.IH [of "on_connection auth b token d"] Cons.prems
      by (auto simp: on_connection_def sent_to_def about_def)
  next
    case (Close b)
    then show ?thesis
      using Cons.IH [of "on_close b d"] Cons.prems
      by (auto simp: on_close_def sent_to_def about_def distinct_removeAll)
  qed
qed simp

lemma db_distinct: "distinct (clients d) \<Longrightarrow> distinct (clients (fold (db_step is_open auth) as d))"
proof (induction as arbitrary: d)
  case (Cons x as)
  have "distinct (clients (db_step is_open auth x d))"
    using Cons.prems by (cases x) (auto simp: on_connection_def on_close_def on_event_def Let_def
        distinct_removeAll)
  then show ?case using Cons by simp
qed simp

lemma db_world_fold: "messages_of (as @ bs) (db_world d) =
    messages_of as (db_world d) @ messages_of bs (db_world (fold (db_step is_open auth) as d))"
proof (induction as arbitrary: d)
  case (Cons x as)
  show ?case
    using Cons [of "db_step is_open auth x d"]
    by (cases x) (auto simp: on_connection_def on_close_def on_event_def Let_def split: if_splits)
qed simp

section \<open>Properties\<close>

text \<open>C29: The dashboard loses no event and leaks none. At any time the buffer holds the last two
  hundred messages, in order. A socket that joins with the right token is sent the buffer as it
  then is and after that, as long as it stays open, every later event exactly once and in order;
  and nothing is ever sent to a socket that never presented the right token.\<close>

theorem dashboard_delivery:
  assumes "authorised auth token" and "is_open c"
    and "list_all (\<lambda>x. \<not> about c x) (as @ bs)"
  shows "let d0 = new_dashboard w;
      d = fold (db_step is_open auth) as d0;
      d' = fold (db_step is_open auth) (Connect c token # bs) d
    in eventBuffer d' = last_n 200 (messages_of (as @ bs) w) \<and>
       sent_to c d' = text_of (init_message (last_n 200 (messages_of as w))) #
         map text_of (drop (length (messages_of as w)) (messages_of (as @ bs) w)) \<and>
       (\<forall>b. list_all (\<lambda>x. \<not> lets_in auth b x) (as @ Connect c token # bs) \<longrightarrow> sent_to b d' = [])"
proof -
  let ?start = "new_dashboard w"
  let ?d = "fold (db_step is_open auth) as ?start"
  let ?e = "on_connection auth c token ?d"
  let ?d' = "fold (db_step is_open auth) bs ?e"
  have w: "db_world ?start = w" "length (eventBuffer ?start) \<le> maxBufferSize" "eventBuffer ?start = []"
    by (simp_all add: new_dashboard_def)
  have ms: "messages_of (as @ Connect c token # bs) w = messages_of (as @ bs) w"
    by (rule messages_skip)
  have buf: "eventBuffer ?d = last_n 200 (messages_of as w)"
    using db_buffer [OF w(2)] w by (simp add: maxBufferSize_def)
  have all: "eventBuffer ?d' = last_n 200 (messages_of (as @ bs) w)"
    using db_buffer [OF w(2), of is_open auth "as @ Connect c token # bs"] w ms by (simp add: maxBufferSize_def)
  have none: "list_all (\<lambda>x. \<not> lets_in auth b x) xs \<Longrightarrow> sent_to b (fold (db_step is_open auth) xs ?start) = []"
    for b xs
    using receivers_fold [of is_open auth xs ?start]
    by (force simp: new_dashboard_def receivers_def list_all_iff list_ex_iff sent_to_def filter_empty_conv)
  have "\<not> about c x \<Longrightarrow> \<not> lets_in auth c x" for x by (auto simp: about_def lets_in_def)
  then have "sent_to c ?d = []"
    using none [of c as] assms(3) by (auto simp: list_all_iff)
  then have e: "sent_to c ?e = [text_of (init_message (eventBuffer ?d))]" "c \<in> set (clients ?e)"
      "distinct (clients ?e)" "db_world ?e = db_world ?d"
    using assms(1) db_distinct [of ?start is_open auth as]
    by (auto simp: on_connection_def sent_to_def new_dashboard_def)
  have "sent_to c ?d' = text_of (init_message (last_n 200 (messages_of as w))) #
      map text_of (messages_of bs (db_world ?d))"
    using db_delivery [where d = "?e" and is_open = is_open and c = c and as = bs and auth = auth,
        OF e(2,3) assms(2)] assms(3) e(1,4) buf by simp
  moreover have "messages_of bs (db_world ?d) = drop (length (messages_of as w)) (messages_of (as @ bs) w)"
    using db_world_fold [of as bs ?start is_open auth] w by simp
  ultimately show ?thesis
    using all none [of _ "as @ Connect c token # bs"] by (simp add: Let_def)
qed

theorem dashboard_delivery_witness:
  "let d = fold (db_step (\<lambda>c. True) (Some ''s''))
       [Event (AGENT_SPAWNED ''a'' 1), Connect ''c'' (Some ''s''), Event (TICK_COMPLETED ''a'' 1 2)]
       (new_dashboard (new_world int))
   in sent_to ''c'' d =
        [text_of (init_message [bus_message (AGENT_SPAWNED ''a'' 1) 0]),
         text_of (bus_message (TICK_COMPLETED ''a'' 1 2) 1)]"
  using dashboard_delivery [of "Some ''s''" "Some ''s''" "\<lambda>c. True" "''c''" "[Event (AGENT_SPAWNED ''a'' 1)]"
      "[Event (TICK_COMPLETED ''a'' 1 2)]" "new_world int"]
  by (simp add: authorised_def about_def last_n_def date_now_def tick_clock_def new_world_def Let_def)

text \<open>The counters of the page. After a stream of messages from a fresh page, the totals are the
  numbers of events, of tick events and of tool events, at most two hundred rows are listed and
  no agent twice; but the page keeps its totals when it reconnects, and counts the buffered
  events again.\<close>

theorem page_counts:
  "let p = fold (addEvent f) ms new_page in
   totalEvents p = length ms \<and>
   totalTicks p = length (filter (\<lambda>m. str_includes (text_or (js_prop (js_prop m ''payload'') ''kind'') []) ''TICK'') ms) \<and>
   totalTools p = length (filter (\<lambda>m. str_includes (text_or (js_prop (js_prop m ''payload'') ''kind'') []) ''TOOL'') ms) \<and>
   length (pg_rows p) = min 200 (length ms) \<and> distinct (pg_agents p) \<and>
   totalEvents (on_message f (init_message ms) p) = 2 * length ms"
proof -
  have step: "totalEvents (fold (addEvent f) ms p) = totalEvents p + length ms \<and>
    totalTicks (fold (addEvent f) ms p) = totalTicks p +
      length (filter (\<lambda>m. str_includes (text_or (js_prop (js_prop m ''payload'') ''kind'') []) ''TICK'') ms) \<and>
    totalTools (fold (addEvent f) ms p) = totalTools p +
      length (filter (\<lambda>m. str_includes (text_or (js_prop (js_prop m ''payload'') ''kind'') []) ''TOOL'') ms) \<and>
    (length (pg_rows p) \<le> 200 \<longrightarrow> length (pg_rows (fold (addEvent f) ms p)) = min 200 (length (pg_rows p) + length ms)) \<and>
    (distinct (pg_agents p) \<longrightarrow> distinct (pg_agents (fold (addEvent f) ms p)))" for p
    by (induction ms arbitrary: p) (auto simp: addEvent_def Let_def)
  show ?thesis
    using step [of new_page] step [of "fold (addEvent f) ms new_page"]
    by (simp add: new_page_def on_message_def init_message_def)
qed

end
