(* ===== verification/Docker.thy ===== *)
theory Docker
  imports JsonText "HOL-Library.Word"
begin

text \<open>
  The container sandbox of host/sandbox/docker.ts: the decoding of the multiplexed log of a
  container, on bytes, and the control flow of a command under a timer. The container service
  answers each request from the requests it has seen; what it answers, and during which await the
  timer fires, are parameters.
\<close>

section \<open>UTF-8\<close>

text \<open>
  \<open>Buffer.toString('utf8', \<dots>)\<close>, as the decoder of the Encoding Standard that it implements: the text
  is the list of its code points, and a maximal ill-formed part becomes the replacement character.
\<close>

type_synonym byte = "8 word"
type_synonym codes = "nat list"

definition replacement :: nat where
  "replacement = 0xFFFD"

text \<open>The code point so far, how many bytes are missing, and the bounds of the next one.\<close>

type_synonym utf8_state = "nat \<times> nat \<times> nat \<times> nat"

definition utf8_start :: "nat \<Rightarrow> codes \<times> utf8_state" where
  "utf8_start n =
     (if n < 0x80 then ([n], 0, 0, 0x80, 0xBF)
      else if 0xC2 \<le> n \<and> n \<le> 0xDF then ([], n - 0xC0, 1, 0x80, 0xBF)
      else if 0xE0 \<le> n \<and> n \<le> 0xEF
      then ([], n - 0xE0, 2, if n = 0xE0 then 0xA0 else 0x80, if n = 0xED then 0x9F else 0xBF)
      else if 0xF0 \<le> n \<and> n \<le> 0xF4
      then ([], n - 0xF0, 3, if n = 0xF0 then 0x90 else 0x80, if n = 0xF4 then 0x8F else 0xBF)
      else ([replacement], 0, 0, 0x80, 0xBF))"

fun utf8_step :: "nat \<Rightarrow> utf8_state \<Rightarrow> codes \<times> utf8_state" where
  "utf8_step n (cp, needed, lower, upper) =
     (if needed = 0 then utf8_start n
      else if n < lower \<or> upper < n
      then (case utf8_start n of (out, s) \<Rightarrow> (replacement # out, s))
      else if needed = 1 then ([cp * 64 + n mod 64], 0, 0, 0x80, 0xBF)
      else ([], cp * 64 + n mod 64, needed - 1, 0x80, 0xBF))"

fun utf8_run :: "nat list \<Rightarrow> utf8_state \<Rightarrow> codes" where
  "utf8_run [] (cp, needed, lower, upper) = (if needed = 0 then [] else [replacement])"
| "utf8_run (n # ns) s = (case utf8_step n s of (out, s') \<Rightarrow> out @ utf8_run ns s')"

definition utf8_text :: "byte list \<Rightarrow> codes" where
  "utf8_text bs = utf8_run (map unat bs) (0, 0, 0x80, 0xBF)"

section \<open>The log of a container\<close>

definition readUInt32BE :: "byte list \<Rightarrow> nat \<Rightarrow> nat" where
  "readUInt32BE bs i =
     unat (bs ! i) * 2 ^ 24 + unat (bs ! (i + 1)) * 2 ^ 16 + unat (bs ! (i + 2)) * 2 ^ 8 + unat (bs ! (i + 3))"

function demux :: "byte list \<Rightarrow> nat \<Rightarrow> codes" where
  "demux logs i =
     (if i \<ge> length logs then []
      else if i + 8 > length logs then []
      else let n = readUInt32BE logs (i + 4)
           in if i + 8 + n > length logs then []
              else utf8_text (take n (drop (i + 8) logs)) @ demux logs (i + 8 + n))"
  by pat_completeness auto
termination by (relation "measure (\<lambda>(logs, i). length logs - i)") auto

declare demux.simps [simp del]

datatype log_data = Buffer "byte list" | Stream codes

fun log_text :: "log_data \<Rightarrow> codes" where
  "log_text (Buffer bs) = demux bs 0"
| "log_text (Stream s) = s"

section \<open>A command in a container\<close>

datatype request =
  CreateContainer string "string list" nat string
| StartContainer string
| WaitContainer string
| LogsContainer string
| KillContainer string
| RemoveContainer string

text \<open>The answer of the service to the last of the requests it has seen; \<open>None\<close> is none at all.\<close>

record service =
  on_create :: "request list \<Rightarrow> (jserr + string) option"
  on_start :: "request list \<Rightarrow> (jserr + unit) option"
  on_wait :: "request list \<Rightarrow> (jserr + unit) option"
  on_logs :: "request list \<Rightarrow> (jserr + log_data) option"
  on_remove :: "request list \<Rightarrow> (jserr + unit) option"

text \<open>The awaits of the body; the timer fires during one of them or not at all.\<close>

datatype await = AtCreate | AtStart | AtWait | AtLogs

definition isTimeout :: "await option \<Rightarrow> bool" where
  "isTimeout fires \<longleftrightarrow> fires = Some AtCreate \<or> fires = Some AtStart \<or> fires = Some AtWait"

definition timeout_error :: "nat \<Rightarrow> jserr" where
  "timeout_error ms = Error (''Timeout of '' @ show_nat ms @ ''ms exceeded'')"

definition timer_callback ::
  "await option \<Rightarrow> await \<Rightarrow> string option \<Rightarrow> request list \<Rightarrow> request list" where
  "timer_callback fires p container rs =
     (if fires = Some p
      then (case container of Some c \<Rightarrow> rs @ [KillContainer c] | None \<Rightarrow> rs)
      else rs)"

text \<open>One await: the request goes out, the timer may fire, the service answers.\<close>

definition ask ::
  "(request list \<Rightarrow> 'a option) \<Rightarrow> await option \<Rightarrow> await \<Rightarrow> string option \<Rightarrow> request \<Rightarrow>
   request list \<Rightarrow> request list \<times> 'a option" where
  "ask answer fires p container r rs =
     (let rs1 = timer_callback fires p container (rs @ [r]) in (rs1, answer rs1))"

fun await_then ::
  "request list \<times> (jserr + 'a) option \<Rightarrow>
   (request list \<Rightarrow> 'a \<Rightarrow> request list \<times> (jserr + 'b) option) \<Rightarrow>
   request list \<times> (jserr + 'b) option" where
  "await_then (rs, None) k = (rs, None)"
| "await_then (rs, Some (Inl e)) k = (rs, Some (Inl e))"
| "await_then (rs, Some (Inr v)) k = k rs v"

definition run_container ::
  "service \<Rightarrow> await option \<Rightarrow> nat \<Rightarrow> string \<Rightarrow> request list \<Rightarrow>
   request list \<times> (jserr + codes) option" where
  "run_container srv fires ms c rs =
     await_then (ask (on_start srv) fires AtStart (Some c) (StartContainer c) rs) (\<lambda>rs _.
     await_then (ask (on_wait srv) fires AtWait (Some c) (WaitContainer c) rs) (\<lambda>rs _.
     if isTimeout fires then (rs, Some (Inl (timeout_error ms)))
     else await_then (ask (on_logs srv) fires AtLogs (Some c) (LogsContainer c) rs) (\<lambda>rs logs.
     (rs, Some (Inr (log_text logs))))))"

text \<open>The \<open>finally\<close> block removes the container, if there is one; a refusal is ignored.\<close>

definition remove_finally ::
  "service \<Rightarrow> string \<Rightarrow> request list \<times> (jserr + codes) option \<Rightarrow>
   request list \<times> (jserr + codes) option" where
  "remove_finally srv c out =
     (case out of
        (rs, None) \<Rightarrow> (rs, None)
      | (rs, Some res) \<Rightarrow>
          let rs1 = rs @ [RemoveContainer c]
          in (rs1, case on_remove srv rs1 of None \<Rightarrow> None | Some _ \<Rightarrow> Some res))"

text \<open>\<open>initialize\<close>: the image is pulled and the progress followed; either may never call back.\<close>

definition docker_initialize ::
  "(string \<Rightarrow> (jserr + 's) option) \<Rightarrow> ('s \<Rightarrow> (jserr + 'o) option) \<Rightarrow> string \<Rightarrow> (jserr + unit) option" where
  "docker_initialize pull followProgress img =
     (case pull img of
        None \<Rightarrow> None
      | Some (Inl err) \<Rightarrow> Some (Inl err)
      | Some (Inr stream) \<Rightarrow>
          (case followProgress stream of
             None \<Rightarrow> None
           | Some (Inl followErr) \<Rightarrow> Some (Inl followErr)
           | Some (Inr out) \<Rightarrow> Some (Inr ())))"

definition create_request :: "string \<Rightarrow> string \<Rightarrow> request" where
  "create_request img command =
     CreateContainer img [''sh'', ''-c'', command] (128 * 1024 * 1024) ''none''"

definition docker_execute ::
  "service \<Rightarrow> await option \<Rightarrow> string \<Rightarrow> string \<Rightarrow> nat \<Rightarrow>
   request list \<times> (jserr + codes) option" where
  "docker_execute srv fires img command ms =
     await_then (ask (on_create srv) fires AtCreate None (create_request img command) [])
       (\<lambda>rs c. remove_finally srv c (run_container srv fires ms c rs))"

section \<open>Well-formed text\<close>

definition scalar :: "nat \<Rightarrow> bool" where
  "scalar cp \<longleftrightarrow> cp < 0x110000 \<and> \<not> (0xD800 \<le> cp \<and> cp \<le> 0xDFFF)"

definition utf8_encode :: "nat \<Rightarrow> nat list" where
  "utf8_encode cp =
     (if cp < 0x80 then [cp]
      else if cp < 0x800 then [0xC0 + cp div 64, 0x80 + cp mod 64]
      else if cp < 0x10000
      then [0xE0 + cp div 4096, 0x80 + cp div 64 mod 64, 0x80 + cp mod 64]
      else [0xF0 + cp div 262144, 0x80 + cp div 4096 mod 64, 0x80 + cp div 64 mod 64, 0x80 + cp mod 64])"

definition encoded :: "nat list \<Rightarrow> byte list" where
  "encoded cps = map word_of_nat (concat (map utf8_encode cps))"

lemma byte_nat: "n < 256 \<Longrightarrow> unat (word_of_nat n :: byte) = n"
  by (simp add: unat_of_nat)

lemma continuation: "y < 64 \<Longrightarrow> (0x80 + y) mod 64 = y" for y :: nat
  using mod_mult_self1 [of y 2 64] by (simp add: add.commute)

lemma utf8_run_two:
  assumes "2 \<le> x" "x < 32" "y < 64"
  shows "utf8_run ([0xC0 + x, 0x80 + y] @ ns) (0, 0, 0x80, 0xBF) = (x * 64 + y) # utf8_run ns (0, 0, 0x80, 0xBF)"
  using assms by (auto simp: utf8_start_def continuation)

lemma utf8_run_three:
  assumes "x < 16" "y < 64" "z < 64" "x = 0 \<Longrightarrow> 32 \<le> y" "x = 13 \<Longrightarrow> y < 32"
  shows "utf8_run ([0xE0 + x, 0x80 + y, 0x80 + z] @ ns) (0, 0, 0x80, 0xBF) =
    (x * 4096 + y * 64 + z) # utf8_run ns (0, 0, 0x80, 0xBF)"
  using assms by (auto simp: utf8_start_def continuation)

lemma utf8_run_four:
  assumes "x < 5" "y < 64" "z < 64" "t < 64" "x = 0 \<Longrightarrow> 16 \<le> y" "x = 4 \<Longrightarrow> y < 16"
  shows "utf8_run ([0xF0 + x, 0x80 + y, 0x80 + z, 0x80 + t] @ ns) (0, 0, 0x80, 0xBF) =
    (x * 262144 + y * 4096 + z * 64 + t) # utf8_run ns (0, 0, 0x80, 0xBF)"
  using assms by (auto simp: utf8_start_def continuation)

lemma sixths: "cp div 64 = cp div 4096 * 64 + cp div 64 mod 64" "cp = cp div 64 * 64 + cp mod 64"
    "cp div 4096 = cp div 262144 * 64 + cp div 4096 mod 64"
  for cp :: nat
  using div_mult_mod_eq [of "cp div 64" 64] div_mult_mod_eq [of cp 64] div_mult_mod_eq [of "cp div 4096" 64]
  by (simp_all flip: div_mult2_eq)

lemma utf8_run_encode:
  assumes "scalar cp"
  shows "utf8_run (utf8_encode cp @ ns) (0, 0, 0x80, 0xBF) = cp # utf8_run ns (0, 0, 0x80, 0xBF)"
proof -
  consider (one) "cp < 0x80" | (two) "0x80 \<le> cp" "cp < 0x800" | (three) "0x800 \<le> cp" "cp < 0x10000"
    | (four) "0x10000 \<le> cp" "cp < 0x110000"
    using assms unfolding scalar_def by linarith
  then show ?thesis
  proof cases
    case one
    then show ?thesis by (simp add: utf8_encode_def utf8_start_def)
  next
    case two
    then have "2 \<le> cp div 64" "cp div 64 < 32" "cp mod 64 < 64" by simp_all
    moreover have "utf8_encode cp = [0xC0 + cp div 64, 0x80 + cp mod 64]"
      using two by (simp add: utf8_encode_def)
    ultimately show ?thesis
      using utf8_run_two [of "cp div 64" "cp mod 64" ns] sixths(2) [of cp] by (simp only:)
  next
    case three
    have "32 \<le> cp div 64" using three by simp
    then have up: "cp div 4096 = 0 \<Longrightarrow> 32 \<le> cp div 64 mod 64"
      using sixths(1) [of cp] by linarith
    have low: "cp div 64 mod 64 < 32" if "cp div 4096 = 13"
    proof -
      have "cp < 0xD800"
        using assms div_mult_mod_eq [of cp 4096] mod_less_divisor [of 4096 cp] that
        unfolding scalar_def by linarith
      then have "cp div 64 < 864" by simp
      then show ?thesis using sixths(1) [of cp] that by linarith
    qed
    have "cp div 4096 < 16" "cp div 64 mod 64 < 64" "cp mod 64 < 64" using three by simp_all
    note run = utf8_run_three [OF this up low, of ns]
    have "utf8_encode cp = [0xE0 + cp div 4096, 0x80 + cp div 64 mod 64, 0x80 + cp mod 64]"
      using three by (simp add: utf8_encode_def)
    moreover have "cp div 4096 * 4096 + cp div 64 mod 64 * 64 + cp mod 64 = cp"
      using sixths(1,2) [of cp] by linarith
    ultimately show ?thesis using run by (simp only:)
  next
    case four
    have "16 \<le> cp div 4096" "cp div 4096 < 272" using four by simp_all
    then have up: "cp div 262144 = 0 \<Longrightarrow> 16 \<le> cp div 4096 mod 64"
      and low: "cp div 262144 = 4 \<Longrightarrow> cp div 4096 mod 64 < 16"
      using sixths(3) [of cp] by linarith+
    have "cp div 262144 < 5" "cp div 4096 mod 64 < 64" "cp div 64 mod 64 < 64" "cp mod 64 < 64"
      using four by simp_all
    note run = utf8_run_four [OF this up low, of ns]
    have "utf8_encode cp =
        [0xF0 + cp div 262144, 0x80 + cp div 4096 mod 64, 0x80 + cp div 64 mod 64, 0x80 + cp mod 64]"
      using four by (simp add: utf8_encode_def)
    moreover have "cp div 262144 * 262144 + cp div 4096 mod 64 * 4096 + cp div 64 mod 64 * 64 + cp mod 64 = cp"
      using sixths [of cp] by linarith
    ultimately show ?thesis using run by (simp only:)
  qed
qed

lemma utf8_encode_byte: "scalar cp \<Longrightarrow> list_all (\<lambda>n. n < 256) (utf8_encode cp)"
  using mod_less_divisor [of 64 cp] mod_less_divisor [of 64 "cp div 64"] mod_less_divisor [of 64 "cp div 4096"]
  by (auto simp: utf8_encode_def scalar_def less_mult_imp_div_less simp del: mod_less_divisor)

lemma encoded_bytes: "list_all scalar cps \<Longrightarrow> map unat (encoded cps) = concat (map utf8_encode cps)"
proof (induction cps)
  case (Cons cp cps)
  have "map unat (map word_of_nat ns :: byte list) = ns" if "list_all (\<lambda>n. n < 256) ns" for ns
    using that by (induction ns) (simp_all add: byte_nat)
  from this [OF utf8_encode_byte [of cp]] show ?case
    using Cons by (simp add: encoded_def)
qed (simp add: encoded_def)

lemma utf8_text_encoded: "list_all scalar cps \<Longrightarrow> utf8_text (encoded cps) = cps"
proof -
  have "utf8_run (concat (map utf8_encode cps)) (0, 0, 0x80, 0xBF) = cps" if "list_all scalar cps"
    using that by (induction cps) (simp_all add: utf8_run_encode del: utf8_run.simps(2))
  then show "list_all scalar cps \<Longrightarrow> ?thesis" by (simp only: utf8_text_def encoded_bytes)
qed

section \<open>The frames of a log\<close>

definition be32 :: "nat \<Rightarrow> byte list" where
  "be32 n = map word_of_nat [n div 2 ^ 24, n div 2 ^ 16 mod 256, n div 2 ^ 8 mod 256, n mod 256]"

text \<open>The service writes each piece of output behind a header of eight bytes: the stream it is from,
  three zeros and the length.\<close>

definition log_frame :: "byte \<times> byte list \<Rightarrow> byte list" where
  "log_frame p = [fst p, 0, 0, 0] @ be32 (length (snd p)) @ snd p"

lemma length_be32 [simp]: "length (be32 n) = 4"
  by (simp add: be32_def)

lemma be32_sum:
  "n < 2 ^ 32 \<Longrightarrow> n div 2 ^ 24 * 2 ^ 24 + n div 2 ^ 16 mod 256 * 2 ^ 16 + n div 2 ^ 8 mod 256 * 2 ^ 8 + n mod 256 = n"
  for n :: nat
proof -
  have "n mod 65536 = n div 256 mod 256 * 256 + n mod 256" using mod_mult2_eq [of n 256 256] by simp
  moreover have "n mod 16777216 = n div 65536 mod 256 * 65536 + n mod 65536" using mod_mult2_eq [of n 65536 256] by simp
  ultimately show ?thesis using div_mult_mod_eq [of n 16777216] by simp
qed

lemma read_be32:
  assumes "n < 2 ^ 32" and "length pre = i"
  shows "readUInt32BE (pre @ be32 n @ rest) i = n"
proof -
  have "n div 2 ^ 24 < 256" using assms(1) by simp
  then have "unat (word_of_nat (n div 2 ^ 24) :: byte) = n div 2 ^ 24"
    "unat (word_of_nat (n div 2 ^ 16 mod 256) :: byte) = n div 2 ^ 16 mod 256"
    "unat (word_of_nat (n div 2 ^ 8 mod 256) :: byte) = n div 2 ^ 8 mod 256"
    "unat (word_of_nat (n mod 256) :: byte) = n mod 256"
    by (simp_all only: byte_nat pos_mod_bound mod_less_divisor)
  then show ?thesis
    using be32_sum [OF assms(1)] assms(2) by (simp add: readUInt32BE_def be32_def nth_append)
qed

lemma demux_frame:
  assumes "length (snd p) < 2 ^ 32"
  shows "demux (pre @ log_frame p @ rest) (length pre) =
    utf8_text (snd p) @ demux (pre @ log_frame p @ rest) (length (pre @ log_frame p))"
proof -
  have "readUInt32BE (pre @ log_frame p @ rest) (length pre + 4) = length (snd p)"
    using read_be32 [OF assms, of "pre @ [fst p, 0, 0, 0]" "length pre + 4" "snd p @ rest"]
    by (simp add: log_frame_def)
  moreover have "length (log_frame p) = 8 + length (snd p)"
    by (simp add: log_frame_def)
  ultimately show ?thesis
    by (subst demux.simps) (simp add: Let_def log_frame_def ac_simps)
qed

lemma demux_cut:
  assumes "length (snd p) < 2 ^ 32" and "strict_prefix rest (log_frame p)"
  shows "demux (pre @ rest) (length pre) = []"
proof (cases "length rest < 8")
  case False
  obtain tl where tl: "log_frame p = rest @ tl" "tl \<noteq> []"
    using assms(2) by (auto simp: strict_prefix_def prefix_def)
  define cut where "cut = drop 8 rest"
  have "rest = take 8 (log_frame p) @ cut"
    using tl False by (simp add: cut_def)
  also have "take 8 (log_frame p) = [fst p, 0, 0, 0] @ be32 (length (snd p))"
    by (simp add: log_frame_def)
  finally have rest: "rest = [fst p, 0, 0, 0] @ be32 (length (snd p)) @ cut" by simp
  then have "readUInt32BE (pre @ rest) (length pre + 4) = length (snd p)"
    using read_be32 [OF assms(1), of "pre @ [fst p, 0, 0, 0]" "length pre + 4" cut] by simp
  moreover have "length rest < 8 + length (snd p)"
    using arg_cong [OF tl(1), of length] tl(2) by (simp add: log_frame_def)
  ultimately show ?thesis by (subst demux.simps) (simp add: Let_def)
qed (subst demux.simps, simp)

lemma demux_frames:
  "list_all (\<lambda>p. length (snd p) < 2 ^ 32) fs \<Longrightarrow>
   demux (pre @ concat (map log_frame fs) @ rest) (length pre) =
     concat (map (utf8_text \<circ> snd) fs) @
     demux (pre @ concat (map log_frame fs) @ rest) (length (pre @ concat (map log_frame fs)))"
proof (induction fs arbitrary: pre)
  case (Cons p fs)
  then show ?case
    using demux_frame [of p pre "concat (map log_frame fs) @ rest"] Cons.IH [of "pre @ log_frame p"] by simp
qed simp

text \<open>C36: The sandbox reads back what a command printed. When the log is a sequence of frames, each
  with well-formed text of less than 4 GiB, followed by a frame that was cut short, the result is
  the text of the whole frames, in order; the decoder returns for every buffer of bytes.\<close>

theorem container_log_roundtrip:
  assumes "list_all (\<lambda>(stream, cps). list_all scalar cps \<and> length (encoded cps) < 2 ^ 32) texts"
    and "length (snd p) < 2 ^ 32" and "strict_prefix broken (log_frame p)"
  shows "log_text (Buffer (concat (map (\<lambda>(stream, cps). log_frame (stream, encoded cps)) texts) @ broken)) =
    concat (map snd texts)"
proof -
  let ?fs = "map (\<lambda>(stream, cps). (stream, encoded cps)) texts"
  have eq: "concat (map (\<lambda>(stream, cps). log_frame (stream, encoded cps)) texts) = concat (map log_frame ?fs)"
    by (simp add: comp_def case_prod_unfold)
  have "list_all (\<lambda>p. length (snd p) < 2 ^ 32) ?fs"
    using assms(1) by (auto simp: list_all_iff)
  then have "log_text (Buffer (concat (map log_frame ?fs) @ broken)) = concat (map (utf8_text \<circ> snd) ?fs)"
    using demux_frames [of ?fs "[]" broken] demux_cut [OF assms(2,3), of "concat (map log_frame ?fs)"] by simp
  moreover have "map (utf8_text \<circ> snd) ?fs = map snd texts"
    using assms(1) by (auto simp: list_all_iff utf8_text_encoded)
  ultimately show ?thesis by (simp only: eq)
qed

theorem container_log_roundtrip_witness:
  "log_text (Buffer (log_frame (1, encoded [104, 105]) @ log_frame (2, encoded [0x20AC]) @ [1, 0, 0])) =
     [104, 105, 0x20AC]"
  using container_log_roundtrip [of "[(1, [104, 105]), (2, [0x20AC])]" "(1, [])" "[1, 0, 0]"]
  by (simp add: scalar_def encoded_def utf8_encode_def log_frame_def be32_def)

text \<open>A character that two frames share is lost.\<close>

lemma split_character_is_lost:
  "log_text (Buffer (log_frame (1, [0xC3]) @ log_frame (1, [0xA9]))) = [replacement, replacement] \<and>
   utf8_text [0xC3, 0xA9] = [0xE9]"
proof -
  have "utf8_text [0xC3] = [replacement]" "utf8_text [0xA9] = [replacement]"
    by (simp_all add: utf8_text_def utf8_start_def)
  then have "concat (map (utf8_text \<circ> snd) [(1, [0xC3]), (1 :: byte, [0xA9])]) = [replacement, replacement]"
    by simp
  moreover have "utf8_text [0xC3, 0xA9] = [0xE9]"
    by (simp add: utf8_text_def utf8_start_def)
  moreover have "demux bs (length bs) = []" for bs
    by (subst demux.simps) simp
  ultimately show ?thesis
    using demux_frames [of "[(1, [0xC3]), (1, [0xA9])]" "[]" "[]"] by (simp flip: length_append)
qed

section \<open>The life of a container\<close>

definition kill_at :: "await option \<Rightarrow> await \<Rightarrow> string \<Rightarrow> request list" where
  "kill_at fires p c = (if fires = Some p then [KillContainer c] else [])"

text \<open>The requests between the creation and the removal when none of them is refused.\<close>

definition body_requests :: "await option \<Rightarrow> string \<Rightarrow> request list" where
  "body_requests fires c =
     [StartContainer c] @ kill_at fires AtStart c @ [WaitContainer c] @ kill_at fires AtWait c @
     (if isTimeout fires then [] else [LogsContainer c] @ kill_at fires AtLogs c)"

lemma ask_Some: "ask answer fires p (Some c) r rs = (rs @ [r] @ kill_at fires p c, answer (rs @ [r] @ kill_at fires p c))"
  by (simp add: ask_def timer_callback_def kill_at_def Let_def)

lemma await_then_cases:
  assumes "await_then (rs, a) k = (rs', b)"
  obtains "a = None" "rs' = rs" "b = None"
    | e where "a = Some (Inl e)" "rs' = rs" "b = Some (Inl e)"
    | v where "a = Some (Inr v)" "k rs v = (rs', b)"
  using assms by (cases a; cases "the a") auto

lemma run_container_cases:
  assumes "run_container srv fires ms c rs = (rs', Some res)"
  obtains (Refused) e where "res = Inl e" "\<exists>mid. rs' = rs @ mid \<and> prefix mid (body_requests fires c)"
    | (Late) "isTimeout fires" "res = Inl (timeout_error ms)" "rs' = rs @ body_requests fires c"
    | (Returned) logs where "\<not> isTimeout fires" "rs' = rs @ body_requests fires c"
        "on_logs srv rs' = Some (Inr logs)" "res = Inr (log_text logs)"
  using assms unfolding run_container_def ask_Some
proof (elim await_then_cases, goal_cases)
  case (2 e)
  then show ?case by (auto simp: body_requests_def)
next
  case (4 _ e)
  then show ?case by (auto simp: body_requests_def)
next
  case (5 u v)
  show ?case
  proof (cases "isTimeout fires")
    case True
    then show ?thesis using 5 by (auto simp: body_requests_def)
  next
    case False
    then have no: "kill_at fires AtStart c = []" "kill_at fires AtWait c = []"
      by (auto simp: kill_at_def isTimeout_def)
    from 5(6) False show ?thesis
      by (simp, elim await_then_cases) (use 5(1,3) no False in \<open>auto simp: body_requests_def\<close>)
  qed
qed auto

lemma body_requests_no_remove: "prefix mid (body_requests fires c) \<Longrightarrow> RemoveContainer d \<notin> set mid"
proof -
  have "RemoveContainer d \<notin> set (body_requests fires c)"
    by (simp add: body_requests_def kill_at_def)
  then show "prefix mid (body_requests fires c) \<Longrightarrow> RemoveContainer d \<notin> set mid"
    using set_mono_prefix by blast
qed

text \<open>C35: The sandbox leaves no container behind. Whatever the service answers and whenever the timer
  fires, a call that returns has made its requests in the order create, start, wait, logs, with
  at most one kill, and removes the container it created in its last request, once; it returns
  text only if the timer did not fire before the container ended, and then the decoded log. A
  timer that fires while the container is being created kills nothing.\<close>

theorem sandbox_removes_container:
  assumes "docker_execute srv fires img command ms = (rs, Some res)"
  shows "(\<exists>e. rs = [create_request img command] \<and> on_create srv rs = Some (Inl e) \<and> res = Inl e) \<or>
    (\<exists>c mid. on_create srv [create_request img command] = Some (Inr c) \<and>
       rs = create_request img command # mid @ [RemoveContainer c] \<and>
       prefix mid (body_requests fires c) \<and> (\<forall>d. RemoveContainer d \<notin> set mid) \<and>
       (\<forall>text. res = Inr text \<longrightarrow> \<not> isTimeout fires \<and> mid = body_requests fires c \<and>
          (\<exists>logs. on_logs srv (butlast rs) = Some (Inr logs) \<and> text = log_text logs)) \<and>
       (fires = Some AtCreate \<longrightarrow> (\<forall>d. KillContainer d \<notin> set rs)))"
proof -
  let ?create = "[create_request img command]"
  have "docker_execute srv fires img command ms =
      await_then (?create, on_create srv ?create) (\<lambda>rs c. remove_finally srv c (run_container srv fires ms c rs))"
    by (simp add: docker_execute_def ask_def timer_callback_def Let_def)
  with assms have "await_then (?create, on_create srv ?create)
      (\<lambda>rs c. remove_finally srv c (run_container srv fires ms c rs)) = (rs, Some res)" by simp
  then show ?thesis
  proof (cases rule: await_then_cases)
    case (3 c)
    from 3(2) obtain rs1 where run: "run_container srv fires ms c ?create = (rs1, Some res)"
      and rs: "rs = rs1 @ [RemoveContainer c]"
      by (auto simp: remove_finally_def Let_def split: prod.splits option.splits)
    have quiet: "fires = Some AtCreate \<Longrightarrow> prefix mid (body_requests fires c) \<Longrightarrow> KillContainer d \<notin> set mid"
      for mid d
    proof -
      assume "fires = Some AtCreate"
      then have "KillContainer d \<notin> set (body_requests fires c)"
        by (simp add: body_requests_def kill_at_def)
      then show "prefix mid (body_requests fires c) \<Longrightarrow> KillContainer d \<notin> set mid"
        using set_mono_prefix by blast
    qed
    have fits: ?thesis if "rs1 = ?create @ mid" "prefix mid (body_requests fires c)"
      "\<And>text. res = Inr text \<Longrightarrow> \<not> isTimeout fires \<and> mid = body_requests fires c \<and>
         (\<exists>logs. on_logs srv rs1 = Some (Inr logs) \<and> text = log_text logs)" for mid
      using that 3(1) rs body_requests_no_remove [OF that(2)] quiet [OF _ that(2)]
      by (intro disjI2 exI [of _ c] exI [of _ mid]) (auto simp: create_request_def)
    from run show ?thesis
    proof (cases rule: run_container_cases)
      case (Refused e)
      then show ?thesis using fits by auto
    next
      case Late
      then show ?thesis using fits by auto
    next
      case (Returned logs)
      then show ?thesis using fits [of "body_requests fires c"] by auto
    qed
  qed auto
qed

definition demo_service :: service where
  "demo_service = \<lparr>on_create = \<lambda>rs. Some (Inr ''c1''), on_start = \<lambda>rs. Some (Inr ()),
     on_wait = \<lambda>rs. Some (Inr ()), on_logs = \<lambda>rs. Some (Inr (Stream [111, 107])), on_remove = \<lambda>rs. Some (Inr ())\<rparr>"

theorem sandbox_removes_container_witness:
  "docker_execute demo_service (Some AtCreate) ''alpine'' ''ls'' 5 =
     ([create_request ''alpine'' ''ls'', StartContainer ''c1'', WaitContainer ''c1'', RemoveContainer ''c1''],
      Some (Inl (Error ''Timeout of 5ms exceeded''))) \<and>
   (\<exists>mid. [create_request ''alpine'' ''ls'', StartContainer ''c1'', WaitContainer ''c1'', RemoveContainer ''c1''] =
      create_request ''alpine'' ''ls'' # mid @ [RemoveContainer ''c1''])"
proof -
  have "docker_execute demo_service (Some AtCreate) ''alpine'' ''ls'' 5 =
     ([create_request ''alpine'' ''ls'', StartContainer ''c1'', WaitContainer ''c1'', RemoveContainer ''c1''],
      Some (Inl (Error ''Timeout of 5ms exceeded'')))"
    by (simp add: docker_execute_def run_container_def remove_finally_def ask_def timer_callback_def
        demo_service_def isTimeout_def timeout_error_def show_nat.simps digit_char_def create_request_def)
  from this sandbox_removes_container [OF this] show ?thesis
    by (auto simp: demo_service_def)
qed

end
