(* ===== verification/Awaiting.thy ===== *)
theory Awaiting
  imports Replay
begin

text \<open>
  The scheduler and the gate at their awaits. A call of \<open>runAgentLoop\<close> (execution/scheduler.ts)
  runs on its own up to the first \<open>await\<close> and then waits as a pending promise; each of the
  continuations below is one piece of it that runs without interruption. A program that does not
  await its runs interleaves their pieces. \<open>start_run\<close> is the piece up to the first await and
  \<open>resume\<close> any later one; the handlers of the gate (tools/gate.ts) are those that return a value
  at once.
\<close>

section \<open>A run in pieces\<close>

text \<open>A run waits at \<open>await handler(args)\<close> with what the handler returned, at
  \<open>await this.toolGate.execute(\<dots>)\<close> with what the gate gave or threw, or is settled.\<close>

datatype run =
    Calling int string jsval jsval
  | Resuming int "jserr + jsval"
  | Settled "jserr + unit"

definition settle :: "kernel_mode \<Rightarrow> string \<Rightarrow> ('x sw, unit) outcome \<Rightarrow> 'x sw \<times> run" where
  "settle mode a r = (let (sw, res) = run_catch mode a r in (sw, Settled res))"

definition gate_start ::
  "'x sched handlers \<Rightarrow> kernel_mode \<Rightarrow> string \<Rightarrow> int \<Rightarrow> string \<Rightarrow> jsval \<Rightarrow> 'x sw \<Rightarrow> 'x sw \<times> run" where
  "gate_start hs mode a n name args sw =
     (let (s, w) = sw; sw1 = (s, tick_clock w);
          finish = (\<lambda>((s2, w2), r). ((s2, tick_clock w2), Resuming n r))
      in if mode = LIVE then
           (case call_handler hs name args sw1 of
              (sw2, Inl e) \<Rightarrow> finish (sw2, Inl e)
            | (sw2, Inr result) \<Rightarrow> (sw2, Calling n name args result))
         else finish (gate_body hs mode a n name args sw1))"

definition enter_loop ::
  "'x sched handlers \<Rightarrow> kernel_mode \<Rightarrow> (string \<Rightarrow> string) \<Rightarrow> string \<Rightarrow> int \<Rightarrow> instruction \<Rightarrow> 'x sw \<Rightarrow> 'x sw \<times> run"
where
  "enter_loop hs mode sha a n instr sw =
     (case loop_tick mode sha a n instr sw of
        (sw1, Inl e) \<Rightarrow> settle mode a (sw1, Inl e)
      | (sw1, Inr out) \<Rightarrow>
          (case out of
             COMPLETED v \<Rightarrow> settle mode a (complete_agent mode a sw1)
           | FAILED e \<Rightarrow> settle mode a (fail_agent mode a sw1)
           | PENDING_DELEGATION t p \<Rightarrow> settle mode a (yield_agent mode a sw1)
           | PENDING_TOOL name args \<Rightarrow>
               (case sc_consume consumeToolCall a sw1 of
                  (sw2, Inl e) \<Rightarrow> settle mode a (sw2, Inl e)
                | (sw2, Inr _) \<Rightarrow> gate_start hs mode a n name args sw2)))"

definition start_run ::
  "'x sched handlers \<Rightarrow> kernel_mode \<Rightarrow> (string \<Rightarrow> string) \<Rightarrow> string \<Rightarrow> instruction \<Rightarrow> 'x sw \<Rightarrow> 'x sw \<times> run" where
  "start_run hs mode sha a instr sw =
     (if getState (sc_lifecycle (fst sw)) a \<noteq> ACTIVE
      then (sw, Settled (Inl (Error (''Agent '' @ a @ '' is not ACTIVE''))))
      else enter_loop hs mode sha a 1 instr sw)"

fun resume ::
  "'x sched handlers \<Rightarrow> kernel_mode \<Rightarrow> (string \<Rightarrow> string) \<Rightarrow> string \<Rightarrow> 'x sw \<times> run \<Rightarrow> 'x sw \<times> run" where
  "resume hs mode sha a ((s, w), Calling n name args v) =
     ((s, tick_clock (log_event ''TOOL_RESULT'' a (tool_payload n name args v) w)), Resuming n (Inr v))"
| "resume hs mode sha a (sw, Resuming n (Inl e)) = settle mode a (sw, Inl e)"
| "resume hs mode sha a (sw, Resuming n (Inr v)) = enter_loop hs mode sha a (n + 1) (RETURN v) sw"
| "resume hs mode sha a (sw, Settled r) = (sw, Settled r)"

section \<open>The pieces make up the run\<close>

lemma enter_leaf:
  assumes "calls_left instr = 0"
  shows "enter_loop hs mode sha a n instr sw = settle mode a (run_loop hs mode sha a n instr sw)"
  using assms
  by (subst run_loop.simps) (cases instr;
    auto simp: enter_loop_def run_tick_100 dest!: loop_tick_out split: prod.split sum.split)

lemma gate_start_resumes:
  "(case gate_execute hs mode a n name args sw of (sw1, r) \<Rightarrow> (sw1, Resuming n r)) \<in>
     {gate_start hs mode a n name args sw, resume hs mode sha a (gate_start hs mode a n name args sw)}"
proof (cases "mode = LIVE")
  case True
  then show ?thesis
    by (auto simp: gate_start_def gate_execute_def gate_body_def Let_def
        split: prod.split sum.split)
next
  case False
  then show ?thesis
    by (auto simp: gate_start_def gate_execute_def Let_def split: prod.split)
qed

lemma enter_call:
  "enter_loop hs mode sha a n (CALL_TOOL name args) sw =
     (case loop_tick mode sha a n (CALL_TOOL name args) sw of
        (sw1, Inl e) \<Rightarrow> settle mode a (sw1, Inl e)
      | (sw1, Inr out) \<Rightarrow>
          (case sc_consume consumeToolCall a sw1 of
             (sw2, Inl e) \<Rightarrow> settle mode a (sw2, Inl e)
           | (sw2, Inr _) \<Rightarrow> gate_start hs mode a n name args sw2))"
  by (auto simp: enter_loop_def run_tick_100 dest!: loop_tick_out split: prod.split sum.split)

text \<open>The number of pieces left; a run has at most two after its first.\<close>

fun pieces_left :: "run \<Rightarrow> nat" where
  "pieces_left (Calling n name args v) = 2"
| "pieces_left (Resuming n r) = 1"
| "pieces_left (Settled r) = 0"

lemma settle_settled: "\<exists>sw1 r1. settle mode a r = (sw1, Settled r1)"
  by (simp add: settle_def split: prod.split)

lemma settle_pieces [simp]: "pieces_left (snd (settle mode a r)) = 0"
  using settle_settled [of mode a r] by auto

lemma resume_settled: "pieces_left (snd p) = 0 \<Longrightarrow> resume hs mode sha a p = p"
  by (cases p; cases "snd p"; simp)

lemma resume_pieces:
  "pieces_left (snd (resume hs mode sha a p)) = pieces_left (snd p) - 1"
  by (cases "(hs, mode, sha, a, p)" rule: resume.cases) (simp_all add: enter_leaf)

lemma start_pieces: "pieces_left (snd (start_run hs mode sha a instr sw)) \<le> 2"
  by (auto simp: start_run_def enter_loop_def gate_start_def Let_def
      split: prod.split sum.split tick_output.split)

text \<open>Resumed until it is settled, an interrupted run has done what the run does at one go.\<close>

lemma resume_call:
  assumes "gate_execute hs mode a n name args sw = (sw1, r)"
  shows "(resume hs mode sha a ^^ 2) (gate_start hs mode a n name args sw) =
    (case r of Inl e \<Rightarrow> settle mode a (sw1, Inl e) | Inr v \<Rightarrow> enter_loop hs mode sha a (n + 1) (RETURN v) sw1)"
proof -
  let ?g = "gate_start hs mode a n name args sw" and ?R = "resume hs mode sha a"
  let ?fin = "case r of Inl e \<Rightarrow> settle mode a (sw1, Inl e) | Inr v \<Rightarrow> enter_loop hs mode sha a (n + 1) (RETURN v) sw1"
  have last: "?R (sw1, Resuming n r) = ?fin"
    by (cases r) simp_all
  have "pieces_left (snd ?fin) = 0"
    by (cases r) (simp_all add: enter_leaf)
  then have stays: "?R ?fin = ?fin" by (rule resume_settled)
  have "(sw1, Resuming n r) = ?g \<or> (sw1, Resuming n r) = ?R ?g"
    using gate_start_resumes [where hs = hs and mode = mode and a = a and n = n and name = name and args = args and sw = sw and sha = sha] by (simp add: assms)
  then show ?thesis
    using last stays by (auto simp: numeral_2_eq_2)
qed

lemma resume_loop:
  "(resume hs mode sha a ^^ 2) (enter_loop hs mode sha a n instr sw) =
     settle mode a (run_loop hs mode sha a n instr sw)"
proof (cases "calls_left instr = 0")
  case True
  have "resume hs mode sha a (settle mode a r) = settle mode a r" for r
    by (rule resume_settled) simp
  then show ?thesis by (simp add: enter_leaf [OF True] numeral_2_eq_2)
next
  case False
  then obtain name args where i: "instr = CALL_TOOL name args"
    by (cases instr) auto
  have s: "(resume hs mode sha a ^^ 2) (settle mode a r) = settle mode a r" for r
    by (simp add: numeral_2_eq_2 resume_settled)
  show ?thesis
  proof (cases "loop_tick mode sha a n instr sw")
    case (Pair sw1 r)
    show ?thesis
    proof (cases r)
      case (Inl e)
      then show ?thesis by (simp add: Pair enter_call [of _ _ _ _ _ name args, folded i] run_loop_call [of _ _ _ _ _ name args, folded i] s)
    next
      case (Inr out)
      obtain sw2 q where c: "sc_consume consumeToolCall a sw1 = (sw2, q)" by fastforce
      obtain sw3 v where g: "gate_execute hs mode a n name args sw2 = (sw3, v)" by fastforce
      show ?thesis
        using resume_call [OF g, of sha]
        by (simp add: enter_call [of _ _ _ _ _ name args, folded i] run_loop_call [of _ _ _ _ _ name args, folded i]
            Pair Inr c g s enter_leaf split: sum.split)
    qed
  qed
qed

text \<open>Awaiting a run is running it. The pieces of a run, resumed one after another with nothing in
  between, settle after at most two resumptions, with the state, the log and the outcome of the
  run at one go; further resumptions change nothing.\<close>

lemma resumed_run:
  "(resume hs mode sha a ^^ (k + 2)) (start_run hs mode sha a instr sw) =
     (let (sw1, r) = runAgentLoop hs mode sha a instr sw in (sw1, Settled r))"
proof -
  have two: "(resume hs mode sha a ^^ 2) (start_run hs mode sha a instr sw) =
      (let (sw1, r) = runAgentLoop hs mode sha a instr sw in (sw1, Settled r))"
    by (simp add: start_run_def runAgentLoop_def resume_loop settle_def Let_def)
      (simp add: numeral_2_eq_2)
  have "(resume hs mode sha a ^^ k) p = p" if "pieces_left (snd p) = 0" for p
    by (induction k) (simp_all add: resume_settled that)
  moreover have "pieces_left (snd (let (sw1, r) = runAgentLoop hs mode sha a instr sw in (sw1, Settled r))) = 0"
    by (simp split: prod.split)
  ultimately show ?thesis
    by (simp only: funpow_add o_apply two)
qed

end
