(* ===== verification/Kernel.thy ===== *)
theory Kernel
  imports Failure Shared Scheduler Ephemeral Bus
begin

text \<open>
  The kernel as it is wired in kernel/index.ts (\<open>OmniKernel\<close>): one logger that every component
  appends to, the lifecycle controller and the delegation tree that the failure handler shares,
  the gate with no handlers of its own and the scheduler in \<open>LIVE\<close> mode. A run of the kernel is any
  sequence of operations of its components.

  The locale \<open>log_client\<close> is the contract between a component and the log it shares: its
  invariant survives whatever entries the others append, as long as they are not of its own kinds.
\<close>

section \<open>Entries of given kinds\<close>

definition adds :: "string set \<Rightarrow> world \<Rightarrow> world \<Rightarrow> bool" where
  "adds K w w' \<longleftrightarrow> log_grows w w' \<and> (\<forall>e \<in> set (added w w'). le_kind e \<in> K)"

lemma adds_refl [simp]: "adds K w w"
  by (simp add: adds_def)

lemma adds_trans: "adds K u v \<Longrightarrow> adds K v w \<Longrightarrow> adds K u w"
  using added_trans [of u v w] by (auto simp: adds_def intro: log_grows_trans)

lemma adds_mono: "adds J u v \<Longrightarrow> J \<subseteq> K \<Longrightarrow> adds K u v"
  by (auto simp: adds_def)

lemma adds_tick [simp]: "adds K w (tick_clock w)"
  by (simp add: adds_def added_def)

lemma adds_event: "kd \<in> K \<Longrightarrow> adds K w (log_event kd a p w)"
  by (simp add: adds_def added_def)

lemma adds_entries: "wlogs w' = wlogs w @ es \<Longrightarrow> log_grows w w' \<Longrightarrow> \<forall>e \<in> set es. le_kind e \<in> K \<Longrightarrow> adds K w w'"
  by (simp add: adds_def added_def)

lemma adds_log_grows: "adds K w w' \<Longrightarrow> log_grows w w'"
  by (simp add: adds_def)

section \<open>Clients of the log\<close>

locale log_client =
  fixes inv :: "world \<Rightarrow> 's \<times> world \<Rightarrow> bool"
    and own :: "string set"
    and start :: 's
  assumes inv_start: "inv w (start, w)"
    and inv_others: "inv w0 (s, w) \<Longrightarrow> log_grows w w' \<Longrightarrow> \<forall>e \<in> set (added w w'). le_kind e \<notin> own \<Longrightarrow> inv w0 (s, w')"
begin

lemma inv_adds: "inv w0 (s, w) \<Longrightarrow> adds K w w' \<Longrightarrow> K \<inter> own = {} \<Longrightarrow> inv w0 (s, w')"
  by (rule inv_others) (auto simp: adds_def)

end

definition wal_kinds :: "string set" where
  "wal_kinds = {''MEMORY_PERSISTENT_WRITE'', ''MEMORY_PERSISTENT_DELETE''}"

definition persistent_ok :: "world \<Rightarrow> persistent \<times> world \<Rightarrow> bool" where
  "persistent_ok w0 sw \<longleftrightarrow> ps_reach w0 sw"

definition shared_ok :: "world \<Rightarrow> shared \<times> world \<Rightarrow> bool" where
  "shared_ok w0 sw \<longleftrightarrow> sh_reach w0 sw"

interpretation persistent_log: log_client persistent_ok wal_kinds "[]"
  by unfold_locales (auto simp: persistent_ok_def is_wal_def wal_kinds_def intro: ps_start ps_others)

interpretation shared_log: log_client shared_ok "{''MEMORY_SHARED_WRITE''}" "[]"
  by unfold_locales (auto simp: shared_ok_def intro: sh_start sh_others)

lemma lc_agrees_others:
  assumes "lc_agrees w0 (lc, w)" and "log_grows w w'"
    and "\<forall>e \<in> set (added w w'). le_kind e \<notin> {''LIFECYCLE_TRANSITION''}"
  shows "lc_agrees w0 (lc, w')"
proof -
  have none: "\<not> transition_of a e" if "e \<in> set (added w w')" for a e
    using assms(3) that by (auto simp: transition_of_def)
  have "logged_state a (xs @ ys) = logged_state a xs" if "\<forall>e \<in> set ys. \<not> transition_of a e" for a xs ys
    using that by (induction ys rule: rev_induct) (simp_all flip: append_assoc)
  moreover have "added w0 w' = added w0 w @ added w w'"
    using assms(1,2) by (intro added_trans) (simp_all add: lc_agrees_def)
  ultimately show ?thesis
    using assms none by (auto simp: lc_agrees_def filter_empty_conv intro: log_grows_trans)
qed

interpretation lifecycle_log: log_client lc_agrees "{''LIFECYCLE_TRANSITION''}" new_lifecycle
  by unfold_locales (auto intro: lc_agrees_new lc_agrees_others)

definition delegation_ok :: "world \<Rightarrow> delegation \<times> world \<Rightarrow> bool" where
  "delegation_ok w0 dw \<longleftrightarrow> deleg_reach dw"

interpretation delegation_log: log_client delegation_ok "{}" new_delegation
  by unfold_locales (auto simp: delegation_ok_def intro: deleg_reach.start deleg_reach.others)

section \<open>The kernel\<close>

record kernel =
  k_registry :: agent_registry
  k_lifecycle :: lifecycle
  k_delegation :: delegation
  k_ephemeral :: ephemeral
  k_persistent :: persistent
  k_shared :: shared
  k_transient :: "(string, recovery_record) jsmap"
  k_quota :: enforcer
  k_world :: world

definition new_kernel :: "world \<Rightarrow> kernel" where
  "new_kernel injectedLogger =
     \<lparr>k_registry = new_agent_registry, k_lifecycle = new_lifecycle, k_delegation = new_delegation,
      k_ephemeral = new_ephemeral, k_persistent = [], k_shared = [], k_transient = [],
      k_quota = new_enforcer, k_world = injectedLogger\<rparr>"

definition kernel_config :: kernel_mode where
  "kernel_config = LIVE"

definition max_transient_retries :: int where
  "max_transient_retries = 3"

text \<open>The handlers the kernel gives its gate.\<close>

definition base_handlers :: "'s handlers" where
  "base_handlers = []"

definition kernel_fstate :: "kernel \<Rightarrow> lifecycle fstate" where
  "kernel_fstate k =
     \<lparr>fs_transient = k_transient k, fs_lifecycle = k_lifecycle k, fs_delegation = k_delegation k,
      fs_world = k_world k\<rparr>"

definition kernel_handle :: "failure_event \<Rightarrow> kernel \<Rightarrow> (kernel, unit) outcome" where
  "kernel_handle f k =
     (let (s, r) = handle lifecycle_adapter max_transient_retries f (kernel_fstate k)
      in (k\<lparr>k_transient := fs_transient s, k_lifecycle := fs_lifecycle s,
            k_delegation := fs_delegation s, k_world := fs_world s\<rparr>, r))"

definition kernel_gate :: "string \<Rightarrow> int \<Rightarrow> string \<Rightarrow> jsval \<Rightarrow> kernel \<Rightarrow> (kernel, jsval) outcome" where
  "kernel_gate a n name args k =
     (let ((_, w), r) = gate_execute base_handlers kernel_config a n name args ((), k_world k)
      in (k\<lparr>k_world := w\<rparr>, r))"

definition kernel_sched :: "kernel \<Rightarrow> unit sched" where
  "kernel_sched k =
     \<lparr>sc_lifecycle = k_lifecycle k, sc_store = Some (k_persistent k), sc_quota = k_quota k, sc_env = ()\<rparr>"

definition kernel_run :: "(string \<Rightarrow> string) \<Rightarrow> string \<Rightarrow> instruction \<Rightarrow> kernel \<Rightarrow> (kernel, unit) outcome" where
  "kernel_run sha a instr k =
     (let ((s, w), r) = runAgentLoop base_handlers kernel_config sha a instr (kernel_sched k, k_world k)
      in (k\<lparr>k_lifecycle := sc_lifecycle s, k_quota := sc_quota s, k_world := w\<rparr>, r))"

section \<open>Operations\<close>

datatype kernel_op =
  Register agent_identity
| Transition string trigger jsval
| Evaluate string string string "grant list" "policy list"
| InitRoot string "grant list"
| Delegate drequest
| Revoke string
| Fail failure_event
| TickMemory eph_op
| PersistentWrite string string jsval string
| PersistentDelete string string string
| SharedRead string string string "grant list" "policy list"
| SharedWrite string string string jsval string "grant list" "policy list"
| Tool string int string jsval
| Run string instruction


fun kernel_step :: "(string \<Rightarrow> string) \<Rightarrow> kernel_op \<Rightarrow> kernel \<Rightarrow> kernel" where
  "kernel_step sha (Register i) k = k\<lparr>k_registry := fst (registerAgent i (k_registry k))\<rparr>"
| "kernel_step sha (Transition a t m) k =
     (let (lc, w) = fst (transition a t m (k_lifecycle k, k_world k)) in k\<lparr>k_lifecycle := lc, k_world := w\<rparr>)"
| "kernel_step sha (Evaluate a act res gs ps) k = k\<lparr>k_world := fst (evaluate a act res gs ps (k_world k))\<rparr>"
| "kernel_step sha (InitRoot a gs) k = k\<lparr>k_delegation := initRoot a gs (k_delegation k)\<rparr>"
| "kernel_step sha (Delegate r) k =
     (let (d, w) = fst (delegate r (k_delegation k, k_world k)) in k\<lparr>k_delegation := d, k_world := w\<rparr>)"
| "kernel_step sha (Revoke a) k =
     (let (d, w) = revoke a (k_delegation k, k_world k) in k\<lparr>k_delegation := d, k_world := w\<rparr>)"
| "kernel_step sha (Fail f) k = fst (kernel_handle f k)"
| "kernel_step sha (TickMemory x) k = k\<lparr>k_ephemeral := eph_step x (k_ephemeral k)\<rparr>"
| "kernel_step sha (PersistentWrite a key v tx) k =
     (let (p, w) = fst (ps_write a key v tx (k_persistent k, k_world k)) in k\<lparr>k_persistent := p, k_world := w\<rparr>)"
| "kernel_step sha (PersistentDelete a key tx) k =
     (let (p, w) = fst (ps_delete a key tx (k_persistent k, k_world k)) in k\<lparr>k_persistent := p, k_world := w\<rparr>)"
| "kernel_step sha (SharedRead a ns key gs ps) k =
     (let (s, w) = fst (sh_read a ns key gs ps (k_shared k, k_world k)) in k\<lparr>k_shared := s, k_world := w\<rparr>)"
| "kernel_step sha (SharedWrite a ns key v tx gs ps) k =
     (let (s, w) = fst (sh_write a ns key v tx gs ps (k_shared k, k_world k)) in k\<lparr>k_shared := s, k_world := w\<rparr>)"
| "kernel_step sha (Tool a n name args) k = fst (kernel_gate a n name args k)"
| "kernel_step sha (Run a instr) k = fst (kernel_run sha a instr k)"

text \<open>What is asked of the callers: a root only for an agent the tree does not know. That the property
  names of a written value are not repeated is a fact of JavaScript's objects.\<close>

fun op_allowed :: "kernel_op \<Rightarrow> kernel \<Rightarrow> bool" where
  "op_allowed (InitRoot a gs) k \<longleftrightarrow> \<not> map_has (nodes (k_delegation k)) a \<and> take 6 a \<noteq> ''child-''"
| "op_allowed (PersistentWrite a key v tx) k \<longleftrightarrow> wf_js v"
| "op_allowed (SharedWrite a ns key v tx gs ps) k \<longleftrightarrow> wf_js v"
| "op_allowed _ k \<longleftrightarrow> True"

inductive kernel_reach :: "(string \<Rightarrow> string) \<Rightarrow> world \<Rightarrow> kernel \<Rightarrow> bool" for sha w0 where
  boot: "kernel_reach sha w0 (new_kernel w0)"
| step: "kernel_reach sha w0 k \<Longrightarrow> op_allowed x k \<Longrightarrow> kernel_reach sha w0 (kernel_step sha x k)"

section \<open>What each operation appends\<close>

definition other_kinds :: "string set" where
  "other_kinds = {''PERMISSION_EVALUATION'', ''DELEGATION_ISSUED'', ''DELEGATION_REVOKED'', ''FAILURE_RECORDED'',
     ''TRANSIENT_EXHAUSTED'', ''TRANSIENT_RETRY_SCHEDULED'', ''CHILD_FAILURE_ESCALATION'',
     ''POLICY_VIOLATION_HALT'', ''KERNEL_PANIC'', ''MEMORY_SHARED_READ'', ''TOOL_RESULT'', ''TICK_OUTPUT''}"

lemma adds_transition: "adds {''LIFECYCLE_TRANSITION''} w (snd (fst (transition a t m (lc, w))))"
proof (cases rule: transition_cases [of lc a t m w])
  case (taken lc' w' r nxt)
  then show ?thesis
    using adds_entries [OF taken(12,13), of "{''LIFECYCLE_TRANSITION''}"] by (simp add: transition_entry_def stamp_def)
qed simp

lemma adds_evaluate: "adds {''PERMISSION_EVALUATION''} w (fst (evaluate a act res gs ps w))"
proof -
  obtain w1 e where "evaluate a act res gs ps w = (w1, decision a act res gs ps (date_now w))"
    "wlogs w1 = wlogs w @ [e]" "le_kind e = ''PERMISSION_EVALUATION''" "log_grows w w1"
    by (rule evaluate_entry)
  then show ?thesis using adds_entries [of w1 w "[e]"] by simp
qed

lemma adds_delegate: "adds {''DELEGATION_ISSUED''} w (snd (fst (delegate r (d, w))))"
proof (cases rule: delegate_cases [of r d w])
  case (accepted pn pt d' w')
  then show ?thesis using adds_entries [of w' w] by auto
next
  case (refused reason w')
  then show ?thesis using adds_entries [of w' w "[]"] by simp
qed

lemma adds_revoke_list: "adds {''DELEGATION_REVOKED''} (snd s) (snd (revoke_list as s))"
proof (induction as s rule: revoke_list.induct)
  case (2 a as d w)
  show ?case
  proof (cases "live_node d a")
    case (Some nt)
    obtain n t where nt: "live_node d a = Some (n, t)" using Some by (cases nt) auto
    have "adds {''DELEGATION_REVOKED''} w (log_revoked a t w)"
      by (simp add: log_revoked_def adds_event)
    then show ?thesis
      using 2(2) [of "(n, t)" n t] nt by (auto intro: adds_trans)
  qed (use 2 in simp)
qed simp

definition handler_kinds :: "string set" where
  "handler_kinds = {''FAILURE_RECORDED'', ''TRANSIENT_EXHAUSTED'', ''TRANSIENT_RETRY_SCHEDULED'', ''POLICY_VIOLATION_HALT''}"

text \<open>Wired to the adapter, the handler only writes to the log.\<close>

definition only_logs :: "lifecycle fstate \<Rightarrow> lifecycle fstate \<Rightarrow> bool" where
  "only_logs s s' \<longleftrightarrow> fs_lifecycle s' = fs_lifecycle s \<and> fs_delegation s' = fs_delegation s \<and>
     adds handler_kinds (fs_world s) (fs_world s')"

lemma only_logs_refl [simp]: "only_logs s s"
  by (simp add: only_logs_def)

lemma only_logs_trans: "only_logs s t \<Longrightarrow> only_logs t u \<Longrightarrow> only_logs s u"
  by (auto simp: only_logs_def intro: adds_trans)

lemma only_logs_event: "kd \<in> handler_kinds \<Longrightarrow> only_logs s (fs_log kd a p s)"
  by (simp add: only_logs_def fs_log_def adds_event)

lemma only_logs_attempt: "only_logs s (fst (note_attempt f s))"
  using adds_trans [OF adds_tick adds_tick, of handler_kinds "fs_world s"]
  by (simp add: only_logs_def note_attempt_def Let_def split: option.split)

lemma only_logs_forget: "only_logs s (forget_record k s)"
  by (simp add: only_logs_def forget_record_def)

lemma handler_kinds_intro:
  "''FAILURE_RECORDED'' \<in> handler_kinds" "''TRANSIENT_EXHAUSTED'' \<in> handler_kinds"
  "''TRANSIENT_RETRY_SCHEDULED'' \<in> handler_kinds" "''POLICY_VIOLATION_HALT'' \<in> handler_kinds"
  by (simp_all add: handler_kinds_def)

lemma fs_transition_adapter:
  "fs_transition lifecycle_adapter a h u =
     (u, Inl (invalid_transition a (getState (fs_lifecycle u) a) (OtherTrigger (halt_name h))))"
  by (simp add: fs_transition_def lifecycle_adapter_throws)

lemma adapter_stops:
  "fst (handlePermanent lifecycle_adapter f s) = s" "fst (handleInvariantBreach lifecycle_adapter f s) = s"
  by (simp_all add: handlePermanent_def handleInvariantBreach_def fs_transition_adapter)

lemma only_logs_transient: "only_logs s (fst (handleTransient lifecycle_adapter m f s))"
proof -
  obtain s1 n where n: "note_attempt f s = (s1, n)" by fastforce
  have "only_logs s s1" using only_logs_attempt [of s f] n by simp
  then have "only_logs s (fs_log kd (fe_agentId f) p s1)" if "kd \<in> handler_kinds" for kd p
    using only_logs_event [OF that] only_logs_trans by blast
  moreover from this [OF handler_kinds_intro(2)] have "only_logs s
      (forget_record key (fs_log ''TRANSIENT_EXHAUSTED'' (fe_agentId f) p s1))" for key p
    by (rule only_logs_trans [OF _ only_logs_forget])
  ultimately show ?thesis
    by (simp add: handleTransient_def n adapter_stops handler_kinds_intro Let_def)
qed

lemma only_logs_handle: "only_logs s (fst (handle lifecycle_adapter m f s))"
proof -
  let ?s1 = "fs_log ''FAILURE_RECORDED'' (fe_agentId f) (JObj [(''failure'', failure_js f)]) s"
  have first: "only_logs s ?s1" by (rule only_logs_event) (rule handler_kinds_intro)
  have "only_logs ?s1 (fst (handle lifecycle_adapter m f s))"
    using only_logs_event [OF handler_kinds_intro(4)]
    by (cases "fe_class f")
      (simp_all add: handle_def adapter_stops handlePolicyViolation_def only_logs_transient Let_def)
  with first show ?thesis by (rule only_logs_trans)
qed

lemma adds_gate:
  "adds {''TOOL_RESULT''} w (snd (fst (gate_execute base_handlers LIVE a n name args (s, w))))"
proof -
  have same: "fst (call_handler base_handlers name args sw) = sw" for sw :: "'a \<times> world"
    by (simp add: call_handler_def handler_lookup_def base_handlers_def)
  have "adds {''TOOL_RESULT''} w (tick_clock (log_event ''TOOL_RESULT'' a p (tick_clock w)))" for p
    by (intro adds_trans [OF adds_tick adds_trans [OF adds_event adds_tick]]) simp
  moreover have "adds {''TOOL_RESULT''} w (tick_clock (tick_clock w))"
    by (rule adds_trans [OF adds_tick adds_tick])
  ultimately show ?thesis
    using same [of "(s, tick_clock w)"]
    by (auto simp: gate_execute_def gate_body_def Let_def split: prod.splits sum.splits)
qed

lemma gate_keeps: "fst (fst (gate_execute base_handlers LIVE a n name args (s, w))) = s"
  by (auto simp: gate_execute_def gate_body_def call_handler_def handler_lookup_def base_handlers_def
      Let_def split: prod.splits sum.splits)


section \<open>A run of the scheduler\<close>

definition run_kinds :: "string set" where
  "run_kinds = {''TICK_OUTPUT'', ''TOOL_RESULT''}"

text \<open>What a run keeps: the lifecycle in step with the log, and the store.\<close>

definition run_keeps :: "world \<Rightarrow> persistent option \<Rightarrow> world \<Rightarrow> unit sw \<Rightarrow> bool" where
  "run_keeps w0 st w1 sw \<longleftrightarrow>
     lc_agrees w0 (sc_lifecycle (fst sw), snd sw) \<and> sc_store (fst sw) = st \<and>
     adds (insert ''LIFECYCLE_TRANSITION'' run_kinds) w1 (snd sw)"

lemma run_keeps_log:
  assumes "run_keeps w0 st w1 (s, w)" and "adds run_kinds w w'"
  shows "run_keeps w0 st w1 (s\<lparr>sc_quota := q\<rparr>, w')"
proof -
  have "adds (insert ''LIFECYCLE_TRANSITION'' run_kinds) w w'"
    using assms(2) by (rule adds_mono) auto
  moreover have "run_kinds \<inter> {''LIFECYCLE_TRANSITION''} = {}"
    by (simp add: run_kinds_def)
  then have "lc_agrees w0 (sc_lifecycle s, w')"
    using lifecycle_log.inv_adds [OF _ assms(2)] assms(1) by (simp add: run_keeps_def)
  ultimately show ?thesis
    using assms(1) by (auto simp: run_keeps_def intro: adds_trans)
qed

lemma run_keeps_transition:
  assumes "run_keeps w0 st w1 sw"
  shows "run_keeps w0 st w1 (fst (sc_transition a t sw))"
proof -
  obtain s w where sw: "sw = (s, w)" by fastforce
  obtain lc w' r where t: "transition a t JUndef (sc_lifecycle s, w) = ((lc, w'), r)"
    by (metis surj_pair)
  have "lc_agrees w0 (lc, w')"
    using lc_agrees_transition [of w0 "sc_lifecycle s" w a t JUndef] assms t by (simp add: run_keeps_def sw)
  moreover have "adds (insert ''LIFECYCLE_TRANSITION'' run_kinds) w w'"
    using adds_transition [of w a t JUndef "sc_lifecycle s"] t by (auto intro: adds_mono)
  ultimately show ?thesis
    using assms t by (auto simp: run_keeps_def sw sc_transition_def Let_def intro: adds_trans)
qed

lemma run_keeps_complete: "run_keeps w0 st w1 sw \<Longrightarrow> run_keeps w0 st w1 (fst (complete_agent LIVE a sw))"
proof -
  assume k: "run_keeps w0 st w1 sw"
  obtain sw1 r where t: "sc_transition a T_complete sw = (sw1, r)" by fastforce
  have "run_keeps w0 st w1 sw1" using run_keeps_transition [OF k] t by (metis fst_conv)
  then show ?thesis using t run_keeps_transition by (simp add: complete_agent_def split: sum.split)
qed

lemma run_keeps_consume: "run_keeps w0 st w1 sw \<Longrightarrow> run_keeps w0 st w1 (fst (sc_consume c a sw))"
  using run_keeps_log [where w' = "snd sw" and w = "snd sw" and s = "fst sw"]
  by (cases sw) (simp add: sc_consume_def Let_def split: prod.split)

lemma run_keeps_tick: "run_keeps w0 st w1 sw \<Longrightarrow> run_keeps w0 st w1 (fst (loop_tick LIVE sha a n instr sw))"
proof -
  assume k: "run_keeps w0 st w1 sw"
  obtain s w r where c: "sc_consume consumeTick a sw = ((s, w), r)" by (metis surj_pair)
  have k1: "run_keeps w0 st w1 (s, w)" using run_keeps_consume [OF k, of consumeTick a] c by simp
  have "adds run_kinds w (log_event ''TICK_OUTPUT'' a p w)" for p
    by (simp add: adds_event run_kinds_def)
  from run_keeps_log [OF k1 this, of "sc_quota s"]
  show ?thesis using k1 c
    by (auto simp: loop_tick_def record_tick_def Let_def split: sum.split)
qed

lemma run_keeps_gate:
  "run_keeps w0 st w1 sw \<Longrightarrow> run_keeps w0 st w1 (fst (gate_execute base_handlers LIVE a n name args sw))"
proof -
  assume k: "run_keeps w0 st w1 sw"
  obtain s w where sw: "sw = (s, w)" by fastforce
  have "adds run_kinds w (snd (fst (gate_execute base_handlers LIVE a n name args (s, w))))"
    by (rule adds_mono [OF adds_gate]) (simp add: run_kinds_def)
  from run_keeps_log [OF k [unfolded sw] this, of "sc_quota s"]
  show ?thesis using gate_keeps [of a n name args s w] unfolding sw by simp (metis prod.collapse)
qed

lemma run_keeps_loop: "run_keeps w0 st w1 sw \<Longrightarrow> run_keeps w0 st w1 (fst (run_loop base_handlers LIVE sha a n instr sw))"
proof (induction "calls_left instr" arbitrary: n instr sw rule: less_induct)
  case less
  obtain sw1 r where t: "loop_tick LIVE sha a n instr sw = (sw1, r)" by fastforce
  have k1: "run_keeps w0 st w1 sw1" using run_keeps_tick [OF less.prems] t by (metis fst_conv)
  show ?case
  proof (cases r)
    case (Inl e)
    then show ?thesis using t k1 by (subst run_loop.simps) simp
  next
    case (Inr out)
    show ?thesis
    proof (cases out)
      case (PENDING_TOOL name args)
      have c: "calls_left (RETURN v) < calls_left instr" for v
        using loop_tick_out [of LIVE sha a n instr sw sw1 out] t Inr PENDING_TOOL
        by (cases instr) (simp_all add: run_tick_def)
      obtain sw2 r2 where q: "sc_consume consumeToolCall a sw1 = (sw2, r2)" by fastforce
      have k2: "run_keeps w0 st w1 sw2" using run_keeps_consume [OF k1] q by (metis fst_conv)
      obtain sw3 r3 where g: "gate_execute base_handlers LIVE a n name args sw2 = (sw3, r3)" by fastforce
      have k3: "run_keeps w0 st w1 sw3" using run_keeps_gate [OF k2] g by (metis fst_conv)
      show ?thesis
        using t Inr PENDING_TOOL q g k2 k3 less.hyps [OF c k3]
        by (subst run_loop.simps) (simp split: sum.split)
    next
      case (COMPLETED v)
      then show ?thesis using t Inr run_keeps_complete [OF k1] by (subst run_loop.simps) simp
    next
      case (FAILED e)
      then show ?thesis using t Inr run_keeps_transition [OF k1] by (subst run_loop.simps) (simp add: fail_agent_def)
    next
      case (PENDING_DELEGATION tg p)
      then show ?thesis using t Inr run_keeps_transition [OF k1] by (subst run_loop.simps) (simp add: yield_agent_def)
    qed
  qed
qed

lemma run_keeps_run:
  assumes "run_keeps w0 st w1 sw"
  shows "run_keeps w0 st w1 (fst (runAgentLoop base_handlers LIVE sha a instr sw))"
proof -
  obtain sw1 r where l: "run_loop base_handlers LIVE sha a 1 instr sw = (sw1, r)" by fastforce
  have "run_keeps w0 st w1 sw1" using run_keeps_loop [OF assms] l by (metis fst_conv)
  then show ?thesis
    using assms l run_keeps_transition [of w0 st w1 sw1]
    by (simp add: runAgentLoop_def run_catch_def split: sum.split)
qed


section \<open>The kernel as a whole\<close>

definition kernel_ok :: "world \<Rightarrow> kernel \<Rightarrow> bool" where
  "kernel_ok w0 k \<longleftrightarrow>
     persistent_ok w0 (k_persistent k, k_world k) \<and> shared_ok w0 (k_shared k, k_world k) \<and>
     lc_agrees w0 (k_lifecycle k, k_world k) \<and> delegation_ok w0 (k_delegation k, k_world k)"

lemma kernel_ok_new: "kernel_ok w (new_kernel w)"
  using persistent_log.inv_start shared_log.inv_start lifecycle_log.inv_start delegation_log.inv_start
  by (simp add: kernel_ok_def new_kernel_def)

lemma kinds_apart:
  "insert ''MEMORY_SHARED_WRITE'' (insert ''LIFECYCLE_TRANSITION'' other_kinds) \<inter> wal_kinds = {}"
  "(wal_kinds \<union> insert ''LIFECYCLE_TRANSITION'' other_kinds) \<inter> {''MEMORY_SHARED_WRITE''} = {}"
  "(wal_kinds \<union> insert ''MEMORY_SHARED_WRITE'' other_kinds) \<inter> {''LIFECYCLE_TRANSITION''} = {}"
  by (simp_all add: other_kinds_def wal_kinds_def)

text \<open>The four invariants after entries of given kinds.\<close>

lemma others_persistent:
  "persistent_ok w0 (p, w) \<Longrightarrow> adds (insert ''MEMORY_SHARED_WRITE'' (insert ''LIFECYCLE_TRANSITION'' other_kinds)) w w' \<Longrightarrow>
   persistent_ok w0 (p, w')"
  using persistent_log.inv_adds [OF _ _ kinds_apart(1)] .

lemma others_shared:
  "shared_ok w0 (s, w) \<Longrightarrow> adds (wal_kinds \<union> insert ''LIFECYCLE_TRANSITION'' other_kinds) w w' \<Longrightarrow> shared_ok w0 (s, w')"
  using shared_log.inv_adds [OF _ _ kinds_apart(2)] .

lemma others_lifecycle:
  "lc_agrees w0 (lc, w) \<Longrightarrow> adds (wal_kinds \<union> insert ''MEMORY_SHARED_WRITE'' other_kinds) w w' \<Longrightarrow> lc_agrees w0 (lc, w')"
  using lifecycle_log.inv_adds [OF _ _ kinds_apart(3)] .

lemma others_delegation: "delegation_ok w0 (d, w) \<Longrightarrow> adds K w w' \<Longrightarrow> delegation_ok w0 (d, w')"
  using delegation_log.inv_adds [OF _ _ Int_empty_right] .

lemma kernel_ok_others:
  assumes "kernel_ok w0 k" and "adds other_kinds (k_world k) w"
  shows "persistent_ok w0 (k_persistent k, w)" "shared_ok w0 (k_shared k, w)"
    "lc_agrees w0 (k_lifecycle k, w)" "delegation_ok w0 (k_delegation k, w)"
proof -
  have ok: "persistent_ok w0 (k_persistent k, k_world k)" "shared_ok w0 (k_shared k, k_world k)"
    "lc_agrees w0 (k_lifecycle k, k_world k)" "delegation_ok w0 (k_delegation k, k_world k)"
    using assms(1) by (simp_all add: kernel_ok_def)
  show "persistent_ok w0 (k_persistent k, w)"
    by (rule others_persistent [OF ok(1) adds_mono [OF assms(2)]]) auto
  show "shared_ok w0 (k_shared k, w)"
    by (rule others_shared [OF ok(2) adds_mono [OF assms(2)]]) auto
  show "lc_agrees w0 (k_lifecycle k, w)"
    by (rule others_lifecycle [OF ok(3) adds_mono [OF assms(2)]]) auto
  show "delegation_ok w0 (k_delegation k, w)"
    by (rule others_delegation [OF ok(4) assms(2)])
qed

lemma other_kinds_mono:
  "adds {''PERMISSION_EVALUATION''} w w' \<Longrightarrow> adds other_kinds w w'"
  "adds {''DELEGATION_ISSUED''} w w' \<Longrightarrow> adds other_kinds w w'"
  "adds {''DELEGATION_REVOKED''} w w' \<Longrightarrow> adds other_kinds w w'"
  "adds {''TOOL_RESULT''} w w' \<Longrightarrow> adds other_kinds w w'"
  "adds handler_kinds w w' \<Longrightarrow> adds other_kinds w w'"
  by (erule adds_mono, simp add: other_kinds_def handler_kinds_def)+

lemma adds_ps_write: "adds wal_kinds w (snd (fst (ps_write a key v tx (p, w))))"
  using adds_trans [OF adds_event adds_tick]
  by (simp add: ps_write_def wal_kinds_def Let_def split: sum.split)

lemma adds_ps_delete: "adds wal_kinds w (snd (fst (ps_delete a key tx (p, w))))"
  using adds_trans [OF adds_event adds_tick]
  by (simp add: ps_delete_def wal_kinds_def Let_def)

lemma adds_check: "adds {''PERMISSION_EVALUATION''} w (fst (checkPermission a act ns key gs ps w))"
  using adds_evaluate [of w a act "shared_resource ns key" gs ps]
  by (auto simp: checkPermission_def Let_def split: prod.split)

lemma adds_sh_read:
  "adds {''PERMISSION_EVALUATION'', ''MEMORY_SHARED_READ''} w (snd (fst (sh_read a ns key gs ps (s, w))))"
proof -
  obtain w1 r where c: "checkPermission a ''read'' ns key gs ps w = (w1, r)" by fastforce
  have "adds {''PERMISSION_EVALUATION'', ''MEMORY_SHARED_READ''} w w1"
    using adds_check [of w a "''read''" ns key gs ps] c by (auto intro: adds_mono)
  moreover have "adds {''PERMISSION_EVALUATION'', ''MEMORY_SHARED_READ''} w1 (log_event ''MEMORY_SHARED_READ'' a p w1)" for p
    by (simp add: adds_event)
  ultimately show ?thesis
    using adds_trans by (auto simp: sh_read_def c split: sum.split option.split)
qed

lemma adds_sh_write:
  "adds {''PERMISSION_EVALUATION'', ''MEMORY_SHARED_WRITE''} w (snd (fst (sh_write a ns key v tx gs ps (s, w))))"
proof -
  obtain w1 r where c: "checkPermission a ''write'' ns key gs ps w = (w1, r)" by fastforce
  have "adds {''PERMISSION_EVALUATION'', ''MEMORY_SHARED_WRITE''} w w1"
    using adds_check [of w a "''write''" ns key gs ps] c by (auto intro: adds_mono)
  moreover have "adds {''PERMISSION_EVALUATION'', ''MEMORY_SHARED_WRITE''} w1 (tick_clock (log_event ''MEMORY_SHARED_WRITE'' a p w1))" for p
    by (rule adds_trans [OF adds_event adds_tick]) simp
  ultimately show ?thesis
    using adds_trans by (auto simp: sh_write_def c Let_def split: sum.split)
qed


lemma kernel_ok_lifecycle:
  assumes "kernel_ok w0 k" and "adds (insert ''LIFECYCLE_TRANSITION'' run_kinds) (k_world k) w"
    and "lc_agrees w0 (lc, w)"
  shows "kernel_ok w0 (k\<lparr>k_lifecycle := lc, k_quota := q, k_world := w\<rparr>)"
proof -
  have sub: "run_kinds \<subseteq> other_kinds" by (simp add: run_kinds_def other_kinds_def)
  have ok: "persistent_ok w0 (k_persistent k, k_world k)" "shared_ok w0 (k_shared k, k_world k)"
    "delegation_ok w0 (k_delegation k, k_world k)"
    using assms(1) by (simp_all add: kernel_ok_def)
  have "persistent_ok w0 (k_persistent k, w)"
    by (rule others_persistent [OF ok(1) adds_mono [OF assms(2)]]) (use sub in auto)
  moreover have "shared_ok w0 (k_shared k, w)"
    by (rule others_shared [OF ok(2) adds_mono [OF assms(2)]]) (use sub in auto)
  ultimately show ?thesis
    using others_delegation [OF ok(3) assms(2)] assms(3) by (simp add: kernel_ok_def)
qed

lemma kernel_ok_run: "kernel_ok w0 k \<Longrightarrow> kernel_ok w0 (kernel_step sha (Run a instr) k)"
proof -
  assume ok: "kernel_ok w0 k"
  obtain s w r where r: "runAgentLoop base_handlers LIVE sha a instr (kernel_sched k, k_world k) = ((s, w), r)"
    by (metis surj_pair)
  have "run_keeps w0 (Some (k_persistent k)) (k_world k) (kernel_sched k, k_world k)"
    using ok by (simp add: run_keeps_def kernel_sched_def kernel_ok_def)
  from run_keeps_run [OF this, of sha a instr] show ?thesis
    using kernel_ok_lifecycle [OF ok, of w "sc_lifecycle s" "sc_quota s"] r
    by (simp add: kernel_run_def kernel_config_def run_keeps_def)
qed

lemma kernel_ok_transition: "kernel_ok w0 k \<Longrightarrow> kernel_ok w0 (kernel_step sha (Transition a t m) k)"
proof -
  assume ok: "kernel_ok w0 k"
  obtain lc w r where t: "transition a t m (k_lifecycle k, k_world k) = ((lc, w), r)"
    by (metis surj_pair)
  have "adds (insert ''LIFECYCLE_TRANSITION'' run_kinds) (k_world k) w"
    using adds_transition [of "k_world k" a t m "k_lifecycle k"] t by (auto intro: adds_mono)
  moreover have "lc_agrees w0 (lc, w)"
    using lc_agrees_transition [of w0 "k_lifecycle k" "k_world k" a t m] ok t by (simp add: kernel_ok_def)
  ultimately show ?thesis
    using kernel_ok_lifecycle [OF ok, of w lc "k_quota k"] t by simp
qed

lemma kernel_ok_delegation:
  assumes "kernel_ok w0 k" and "adds other_kinds (k_world k) w" and "deleg_reach (d, w)"
  shows "kernel_ok w0 (k\<lparr>k_delegation := d, k_world := w\<rparr>)"
  using kernel_ok_others [OF assms(1,2)] assms(3) by (simp add: kernel_ok_def delegation_ok_def)

lemma kernel_ok_memory:
  assumes "kernel_ok w0 k"
  shows "adds wal_kinds (k_world k) w \<Longrightarrow> persistent_ok w0 (p, w) \<Longrightarrow> kernel_ok w0 (k\<lparr>k_persistent := p, k_world := w\<rparr>)"
    and "adds {''PERMISSION_EVALUATION'', ''MEMORY_SHARED_READ'', ''MEMORY_SHARED_WRITE''} (k_world k) w \<Longrightarrow>
      shared_ok w0 (s, w) \<Longrightarrow> kernel_ok w0 (k\<lparr>k_shared := s, k_world := w\<rparr>)"
proof -
  have ok: "persistent_ok w0 (k_persistent k, k_world k)" "shared_ok w0 (k_shared k, k_world k)"
    "lc_agrees w0 (k_lifecycle k, k_world k)" "delegation_ok w0 (k_delegation k, k_world k)"
    using assms(1) by (simp_all add: kernel_ok_def)
  show "kernel_ok w0 (k\<lparr>k_persistent := p, k_world := w\<rparr>)"
    if a: "adds wal_kinds (k_world k) w" and p: "persistent_ok w0 (p, w)"
  proof -
    have "shared_ok w0 (k_shared k, w)" by (rule others_shared [OF ok(2) adds_mono [OF a]]) auto
    moreover have "lc_agrees w0 (k_lifecycle k, w)" by (rule others_lifecycle [OF ok(3) adds_mono [OF a]]) auto
    ultimately show ?thesis using others_delegation [OF ok(4) a] p by (simp add: kernel_ok_def)
  qed
  show "kernel_ok w0 (k\<lparr>k_shared := s, k_world := w\<rparr>)"
    if a: "adds {''PERMISSION_EVALUATION'', ''MEMORY_SHARED_READ'', ''MEMORY_SHARED_WRITE''} (k_world k) w"
      and s: "shared_ok w0 (s, w)"
  proof -
    have "persistent_ok w0 (k_persistent k, w)"
      by (rule others_persistent [OF ok(1) adds_mono [OF a]]) (simp add: other_kinds_def)
    moreover have "lc_agrees w0 (k_lifecycle k, w)"
      by (rule others_lifecycle [OF ok(3) adds_mono [OF a]]) (simp add: other_kinds_def)
    ultimately show ?thesis using others_delegation [OF ok(4) a] s by (simp add: kernel_ok_def)
  qed
qed

lemma kernel_ok_step:
  assumes ok: "kernel_ok w0 k" and allowed: "op_allowed x k"
  shows "kernel_ok w0 (kernel_step sha x k)"
proof -
  have reach: "ps_reach w0 (k_persistent k, k_world k)" "sh_reach w0 (k_shared k, k_world k)"
    "deleg_reach (k_delegation k, k_world k)"
    using ok by (simp_all add: kernel_ok_def persistent_ok_def shared_ok_def delegation_ok_def)
  show ?thesis
  proof (cases x)
    case (Evaluate a act res gs ps)
    then show ?thesis
      using kernel_ok_others [OF ok other_kinds_mono(1) [OF adds_evaluate]] by (simp add: kernel_ok_def)
  next
    case (InitRoot a gs)
    then have "deleg_reach (initRoot a gs (k_delegation k), k_world k)"
      using deleg_reach.root [OF reach(3)] allowed by simp
    then show ?thesis using ok InitRoot by (simp add: kernel_ok_def delegation_ok_def)
  next
    case (Delegate r)
    obtain d w res where d: "delegate r (k_delegation k, k_world k) = ((d, w), res)" by (metis surj_pair)
    have "adds other_kinds (k_world k) w"
      using other_kinds_mono(2) [OF adds_delegate, of "k_world k" r "k_delegation k"] d by simp
    moreover have "deleg_reach (d, w)" using deleg_reach.delegates [OF reach(3), of r] d by simp
    ultimately show ?thesis using kernel_ok_delegation [OF ok] d Delegate by simp
  next
    case (Revoke a)
    obtain d w where d: "revoke a (k_delegation k, k_world k) = (d, w)" by fastforce
    have "adds other_kinds (k_world k) w"
      using other_kinds_mono(3) adds_revoke_list [of "(k_delegation k, k_world k)" "[a]"] d
      by (simp add: revoke_def)
    moreover have "deleg_reach (d, w)" using deleg_reach.revokes [OF reach(3), of a] d by simp
    ultimately show ?thesis using kernel_ok_delegation [OF ok] d Revoke by simp
  next
    case (Fail f)
    obtain s r where h: "handle lifecycle_adapter max_transient_retries f (kernel_fstate k) = (s, r)" by fastforce
    have "only_logs (kernel_fstate k) s"
      using only_logs_handle [of "kernel_fstate k" max_transient_retries f] h by simp
    then have "fs_lifecycle s = k_lifecycle k" "fs_delegation s = k_delegation k"
      "adds other_kinds (k_world k) (fs_world s)"
      using other_kinds_mono(5) by (simp_all add: only_logs_def kernel_fstate_def)
    then show ?thesis
      using kernel_ok_others [OF ok] h Fail by (simp add: kernel_handle_def kernel_ok_def)
  next
    case (PersistentWrite a key v tx)
    obtain p w r where p: "ps_write a key v tx (k_persistent k, k_world k) = ((p, w), r)" by (metis surj_pair)
    show ?thesis
      using kernel_ok_memory(1) [OF ok, of w p] adds_ps_write [of "k_world k" a key v tx "k_persistent k"]
        ps_writes [OF reach(1), of v a key tx] allowed p PersistentWrite
      by (simp add: persistent_ok_def)
  next
    case (PersistentDelete a key tx)
    obtain p w r where p: "ps_delete a key tx (k_persistent k, k_world k) = ((p, w), r)" by (metis surj_pair)
    show ?thesis
      using kernel_ok_memory(1) [OF ok, of w p] adds_ps_delete [of "k_world k" a key tx "k_persistent k"]
        ps_deletes [OF reach(1), of a key tx] p PersistentDelete
      by (simp add: persistent_ok_def)
  next
    case (SharedRead a ns key gs ps)
    obtain s w r where p: "sh_read a ns key gs ps (k_shared k, k_world k) = ((s, w), r)" by (metis surj_pair)
    have "adds {''PERMISSION_EVALUATION'', ''MEMORY_SHARED_READ'', ''MEMORY_SHARED_WRITE''} (k_world k) w"
      using adds_sh_read [of "k_world k" a ns key gs ps "k_shared k"] p by (auto intro: adds_mono)
    then show ?thesis
      using kernel_ok_memory(2) [OF ok, of w s] sh_reads [OF reach(2), of a ns key gs ps] p SharedRead
      by (simp add: shared_ok_def)
  next
    case (SharedWrite a ns key v tx gs ps)
    obtain s w r where p: "sh_write a ns key v tx gs ps (k_shared k, k_world k) = ((s, w), r)" by (metis surj_pair)
    have "adds {''PERMISSION_EVALUATION'', ''MEMORY_SHARED_READ'', ''MEMORY_SHARED_WRITE''} (k_world k) w"
      using adds_sh_write [of "k_world k" a ns key v tx gs ps "k_shared k"] p by (auto intro: adds_mono)
    then show ?thesis
      using kernel_ok_memory(2) [OF ok, of w s] sh_writes [OF reach(2), of v a ns key tx gs ps] allowed p SharedWrite
      by (simp add: shared_ok_def)
  next
    case (Tool a n name args)
    obtain s w r where g: "gate_execute base_handlers LIVE a n name args ((), k_world k) = ((s, w), r)"
      by (metis surj_pair)
    have "adds other_kinds (k_world k) w"
      using other_kinds_mono(4) [OF adds_gate, of "k_world k" a n name args "()"] g by simp
    then show ?thesis
      using kernel_ok_others [OF ok] g Tool by (simp add: kernel_gate_def kernel_config_def kernel_ok_def)
  next
    case (Run a instr)
    then show ?thesis using kernel_ok_run [OF ok] by simp
  next
    case (Transition a t m)
    then show ?thesis using kernel_ok_transition [OF ok] by simp
  qed (use ok in \<open>simp_all add: kernel_ok_def\<close>)
qed

lemma kernel_reach_ok: "kernel_reach sha w0 k \<Longrightarrow> kernel_ok w0 k"
  by (induction rule: kernel_reach.induct) (auto intro: kernel_ok_new kernel_ok_step)


section \<open>Properties\<close>

text \<open>C1: The log is the state of the kernel. After any operations of its components in any order -
  transitions, evaluations, delegations, revocations, failures, memory accesses, tool calls and
  whole scheduler runs, successful or not - the one log only grew and is numbered without gaps, and
  replaying its entries gives back the state of every agent, the whole of the persistent store and
  the whole of the shared store, although the entries of all components are interleaved in it. A
  key holds the last value logged for it, except that the key \<open>__proto__\<close> of an agent or namespace
  it was written for holds what \<open>proto_edit\<close> makes of those writes. One thing is asked of the
  callers (\<open>op_allowed\<close>): \<open>initRoot\<close> is called only for an agent the delegation tree does not
  know and whose id is not one the tree generates.\<close>

theorem kernel_state_is_its_log:
  assumes "kernel_reach sha w0 k" and "log_ok (wlog w0)"
  shows "prefix (wlogs w0) (wlogs (k_world k)) \<and> log_ok (wlog (k_world k)) \<and>
    (\<forall>a. logged_state a (added w0 (k_world k)) = JStr (state_name (getState (k_lifecycle k) a)) \<and>
         lc_path DEFINED (getRecord (k_lifecycle k) a) (getState (k_lifecycle k) a)) \<and>
    (\<forall>a key. own_value (k_persistent k) a key = wal_own (added w0 (k_world k)) a key \<and>
       (key \<noteq> proto_key \<or> \<not> wal_reprotoed (added w0 (k_world k)) a \<longrightarrow>
        own_value (k_persistent k) a key = wal_value (added w0 (k_world k)) a key)) \<and>
    (\<forall>ns key. own_value (k_shared k) ns key = sh_own (added w0 (k_world k)) ns key \<and>
       (key \<noteq> proto_key \<or> \<not> sh_reprotoed (added w0 (k_world k)) ns \<longrightarrow>
        own_value (k_shared k) ns key = sh_value (added w0 (k_world k)) ns key))"
proof -
  have ok: "ps_reach w0 (k_persistent k, k_world k)" "sh_reach w0 (k_shared k, k_world k)"
    "lc_agrees w0 (k_lifecycle k, k_world k)"
    using kernel_reach_ok [OF assms(1)] by (simp_all add: kernel_ok_def persistent_ok_def shared_ok_def)
  then have "log_grows w0 (k_world k)" using ps_reach_follows by (fastforce simp: ps_follows_def)
  then show ?thesis
    using ps_reach_own [OF ok(1)] sh_reach_own [OF ok(2)] wal_own_quiet sh_own_quiet ok(3) assms(2)
    by (auto simp: lc_agrees_def lifecycle_ok_def log_grows_def)
qed

definition demo_kernel :: kernel where
  "demo_kernel =
     kernel_step id (PersistentWrite ''a'' ''x'' (jint 1) ''t1'')
       (kernel_step id (Fail \<lparr>fe_agentId = ''a'', fe_tickSeq = 1, fe_class = TRANSIENT, fe_code = ''E'',
           fe_message = ''m'', fe_context = [], fe_timestamp = 0\<rparr>)
         (kernel_step id (Transition ''a'' T_spawn JUndef) (new_kernel (new_world int))))"

theorem kernel_state_is_its_log_witness:
  "getState (k_lifecycle demo_kernel) ''a'' = SPAWNED \<and>
   wal_value (added (new_world int) (k_world demo_kernel)) ''a'' ''x'' = Some (jint 1) \<and>
   logged_state ''a'' (added (new_world int) (k_world demo_kernel)) = JStr ''SPAWNED''"
proof -
  have "kernel_reach id (new_world int) demo_kernel"
    unfolding demo_kernel_def by (intro kernel_reach.step kernel_reach.boot) simp_all
  moreover have "log_ok (wlog (new_world int))" by (simp add: new_world_def)
  moreover have "''x'' \<noteq> proto_key" by (simp add: proto_key_def)
  ultimately have th: "logged_state ''a'' (added (new_world int) (k_world demo_kernel)) =
      JStr (state_name (getState (k_lifecycle demo_kernel) ''a''))"
    "own_value (k_persistent demo_kernel) ''a'' ''x'' = wal_value (added (new_world int) (k_world demo_kernel)) ''a'' ''x''"
    using kernel_state_is_its_log [of id "new_world int" demo_kernel] by blast+
  have "getState (k_lifecycle demo_kernel) ''a'' = SPAWNED" by code_simp
  moreover have "own_value (k_persistent demo_kernel) ''a'' ''x'' = Some (jint 1)" by code_simp
  ultimately show ?thesis using th by simp
qed

end
