(* ===== verification/Simulation.thy ===== *)
theory Simulation
  imports Awaiting Kernel FileLog
begin

text \<open>
  The two programs that demonstrate replay: simulation.ts (\<open>runSimulation\<close>) and host/boot.ts
  (\<open>hostBoot\<close>). Both spawn an agent, start a LIVE run of a tool call, and start a REPLAY of it;
  neither awaits the runs, so the pieces of both run in some order after the program has reached
  its end. The simulation replays from the log the LIVE run is writing, the boot from the file
  that log has been written to so far. Console output is left out, and the bus listener of the
  simulation, which only prints.
\<close>

section \<open>Spawning the agent\<close>

definition kernel_register :: "string \<Rightarrow> string \<Rightarrow> kernel \<Rightarrow> (kernel, unit) outcome" where
  "kernel_register a ty k =
     (let (reg, r) = registerAgent \<lparr>id_id = a, id_type = ty, id_createdAt = date_now (k_world k),
                                    id_name = None, id_version = None\<rparr> (k_registry k)
      in (k\<lparr>k_registry := reg, k_world := tick_clock (k_world k)\<rparr>, r))"

definition kernel_transition :: "string \<Rightarrow> trigger \<Rightarrow> kernel \<Rightarrow> (kernel, unit) outcome" where
  "kernel_transition a t k =
     (let ((lc, w), r) = transition a t JUndef (k_lifecycle k, k_world k)
      in (k\<lparr>k_lifecycle := lc, k_world := w\<rparr>, map_sum id (\<lambda>_. ()) r))"

definition spawn_root :: "string \<Rightarrow> kernel \<Rightarrow> (kernel, unit) outcome" where
  "spawn_root a k =
     run_steps [kernel_register a ''root'', kernel_transition a T_spawn, kernel_transition a T_activate] k"

definition config_args :: jsval where
  "config_args = JObj [(''path'', JStr ''/etc/config'')]"

definition read_config :: instruction where
  "read_config = CALL_TOOL ''system.read_file'' config_args"

definition host_sched :: "lifecycle \<Rightarrow> persistent \<Rightarrow> unit sched" where
  "host_sched lc p = \<lparr>sc_lifecycle = lc, sc_store = Some p, sc_quota = new_enforcer, sc_env = ()\<rparr>"

section \<open>Two runs at once\<close>

text \<open>Both runs use one clock. \<open>rc_history\<close> is the log the REPLAY reads, when it is not the log the
  LIVE run writes.\<close>

record race =
  rc_live :: "unit sched \<times> run"
  rc_replay :: "unit sched \<times> run"
  rc_world :: world
  rc_history :: "logger option"

definition replay_world :: "logger option \<Rightarrow> world \<Rightarrow> world" where
  "replay_world h w = (case h of None \<Rightarrow> w | Some l \<Rightarrow> w\<lparr>wlog := l\<rparr>)"

definition live_world :: "logger option \<Rightarrow> world \<Rightarrow> world \<Rightarrow> world" where
  "live_world h w w1 = (case h of None \<Rightarrow> w1 | Some l \<Rightarrow> w1\<lparr>wlog := wlog w\<rparr>)"

definition new_history :: "logger option \<Rightarrow> world \<Rightarrow> logger option" where
  "new_history h w1 = (case h of None \<Rightarrow> None | Some l \<Rightarrow> Some (wlog w1))"

definition race_start ::
  "unit sched handlers \<Rightarrow> (string \<Rightarrow> string) \<Rightarrow> string \<Rightarrow> unit sched \<Rightarrow> unit sched \<Rightarrow>
   (world \<Rightarrow> jserr + logger option) \<Rightarrow> world \<Rightarrow> jserr + race" where
  "race_start hs sha a live replay history w =
     (let ((s, w1), p) = start_run hs LIVE sha a read_config (live, w)
      in case history w1 of
           Inl e \<Rightarrow> Inl e
         | Inr h \<Rightarrow>
             let ((s2, w2), p2) = start_run hs REPLAY sha a read_config (replay, replay_world h w1)
             in Inr \<lparr>rc_live = (s, p), rc_replay = (s2, p2), rc_world = live_world h w1 w2,
                     rc_history = new_history h w2\<rparr>)"

definition race_step ::
  "unit sched handlers \<Rightarrow> (string \<Rightarrow> string) \<Rightarrow> string \<Rightarrow> bool \<Rightarrow> race \<Rightarrow> race" where
  "race_step hs sha a live r =
     (if live then
        (let (s, p) = rc_live r; ((s1, w1), p1) = resume hs LIVE sha a ((s, rc_world r), p)
         in r\<lparr>rc_live := (s1, p1), rc_world := w1\<rparr>)
      else
        (let (s, p) = rc_replay r; h = rc_history r; w = rc_world r;
             ((s1, w1), p1) = resume hs REPLAY sha a ((s, replay_world h w), p)
         in r\<lparr>rc_replay := (s1, p1), rc_world := live_world h w w1, rc_history := new_history h w1\<rparr>))"

definition race_run ::
  "unit sched handlers \<Rightarrow> (string \<Rightarrow> string) \<Rightarrow> string \<Rightarrow> bool list \<Rightarrow> race \<Rightarrow> race" where
  "race_run hs sha a schedule r = fold (race_step hs sha a) schedule r"

section \<open>The programs\<close>

definition runSimulation :: "(string \<Rightarrow> string) \<Rightarrow> (nat \<Rightarrow> int) \<Rightarrow> jserr + unit sched handlers \<times> race" where
  "runSimulation sha clock =
     (case bootstrapCoreTools new_registry of
        (reg, Inl e) \<Rightarrow> Inl e
      | (reg, Inr _) \<Rightarrow>
          (case spawn_root ''os-root-1'' (new_kernel (new_world clock)) of
             (k, Inl e) \<Rightarrow> Inl e
           | (k, Inr _) \<Rightarrow>
               let hs = adapted_handlers reg;
                   replayLifecycle = force_state ''os-root-1'' ACTIVE new_lifecycle
               in map_sum id (Pair hs)
                    (race_start hs sha ''os-root-1'' (host_sched (k_lifecycle k) (k_persistent k))
                      (host_sched replayLifecycle (k_persistent k)) (\<lambda>_. Inr None) (k_world k))))"

text \<open>An entry read back from the file. A line that is no entry cannot be in it.\<close>

definition text_prop :: "jsval \<Rightarrow> string \<Rightarrow> string" where
  "text_prop v k = (case js_prop v k of JStr s \<Rightarrow> s | _ \<Rightarrow> [])"

definition int_prop :: "jsval \<Rightarrow> string \<Rightarrow> int" where
  "int_prop v k = (case js_prop v k of JNum (NInt i) \<Rightarrow> i | _ \<Rightarrow> 0)"

definition entry_of :: "jsval \<Rightarrow> log_entry" where
  "entry_of v =
     \<lparr>le_kind = text_prop v ''kind'', le_agentId = text_prop v ''agentId'',
      le_timestamp = int_prop v ''timestamp'', le_payload = js_prop v ''payload'',
      le_fields = (case v of JObj kvs \<Rightarrow>
          filter (\<lambda>p. fst p \<notin> {''kind'', ''agentId'', ''timestamp'', ''payload'', ''busSeq''}) kvs | _ \<Rightarrow> []),
      le_busSeq = int_prop v ''busSeq''\<rparr>"

text \<open>The file the \<open>FileLogger\<close> of the first boot has written, and the logger restored from it.\<close>

definition file_text :: "logger \<Rightarrow> string" where
  "file_text l = lines_of (map entry_js (logs l))"

definition restored :: "world \<Rightarrow> jserr + logger option" where
  "restored w =
     (case loadFromFile (file_text (wlog w)) of
        Inl e \<Rightarrow> Inl e
      | Inr l \<Rightarrow> Inr (Some \<lparr>logs = map entry_of (fl_logs l),
                           nextBusSeq = (case fl_next l of Some n \<Rightarrow> n | None \<Rightarrow> 0)\<rparr>))"

definition hostBoot :: "(string \<Rightarrow> string) \<Rightarrow> (nat \<Rightarrow> int) \<Rightarrow> jserr + unit sched handlers \<times> race" where
  "hostBoot sha clock =
     (case bootstrapCoreTools new_registry of
        (reg, Inl e) \<Rightarrow> Inl e
      | (reg, Inr _) \<Rightarrow>
          (case spawn_root ''persistent-agent-1'' (new_kernel (new_world clock)) of
             (k, Inl e) \<Rightarrow> Inl e
           | (k, Inr _) \<Rightarrow>
               let hs = adapted_handlers reg;
                   replayLifecycle = force_state ''persistent-agent-1'' ACTIVE new_lifecycle
               in map_sum id (Pair hs)
                    (race_start hs sha ''persistent-agent-1'' (host_sched (k_lifecycle k) (k_persistent k))
                      (host_sched replayLifecycle []) restored (k_world k))))"

section \<open>The LIVE run\<close>

lemma live_tick_json:
  assumes "memory_of a s = Inr mem" "is_json mem" "unmetered a s"
    and "out = run_tick \<lparr>ti_agentId = a, ti_sequenceNumber = n, ti_instruction = instr, ti_maxSteps = 100\<rparr>"
    and "is_json (output_js out)"
  obtains h where "state_hash sha a out s = Inr h"
    "\<And>w. loop_tick LIVE sha a n instr (s, w) =
       ((s\<lparr>sc_quota := fst (consumeTick a (sc_quota s))\<rparr>, log_event ''TICK_OUTPUT'' a (tick_payload n instr out h) w), Inr out)"
proof -
  have "is_json (kernel_state out (getState (sc_lifecycle s) a) mem)"
    using assms by (simp add: kernel_state_def)
  then obtain h where "state_hash sha a out s = Inr h"
    using hash_state_json assms(1) by (fastforce simp: state_hash_def)
  then show ?thesis
    using assms by (intro that [of h]) (simp_all add: loop_tick_def unmetered_consume record_tick_def Let_def)
qed

text \<open>What both runs need of a scheduler; a step of the quota keeps it.\<close>

definition fit :: "string \<Rightarrow> unit sched \<Rightarrow> bool" where
  "fit a s \<longleftrightarrow> getState (sc_lifecycle s) a = ACTIVE \<and> memory_of a s = Inr (JObj []) \<and> unmetered a s"

lemma fit_consume [simp]:
  "fit a s \<Longrightarrow> fit a (s\<lparr>sc_quota := fst (consumeTick a (sc_quota s))\<rparr>)"
  "fit a s \<Longrightarrow> fit a (s\<lparr>sc_quota := fst (consumeToolCall a (sc_quota s))\<rparr>)"
  by (simp_all add: fit_def unmetered_consume)

definition config_result :: jsval where
  "config_result = tool_result_js (SUCCESS (JStr (''max_retries=3'' @ [CHR 0x0A] @ ''logging=true'')))"

lemma config_result_json: "is_json config_result" "wf_js config_result"
  by (simp_all add: config_result_def)

definition core_handlers :: "unit sched handlers" where
  "core_handlers = adapted_handlers (fst (bootstrapCoreTools new_registry))"

lemma core_reads_config:
  "call_handler core_handlers ''system.read_file'' (JObj [(''path'', JStr ''/etc/config'')]) sw = (sw, Inr config_result)"
  by (cases sw) (simp add: core_handlers_def call_handler_def handler_lookup_def demo_handler [unfolded demo_host_def]
      demo_tool [unfolded demo_host_def] config_result_def)

text \<open>The entry of the first tick, and the LIVE run up to its first await.\<close>

definition first_payload :: "string \<Rightarrow> jsval" where
  "first_payload h = tick_payload 1 read_config (PENDING_TOOL ''system.read_file'' config_args) h"

lemma live_start:
  assumes "fit a s"
  obtains h s1 where "fit a s1" "state_hash sha a (PENDING_TOOL ''system.read_file'' config_args) s = Inr h"
    "\<And>w. start_run core_handlers LIVE sha a read_config (s, w) =
       ((s1, tick_clock (log_event ''TICK_OUTPUT'' a (first_payload h) w)),
        Calling 1 ''system.read_file'' config_args config_result)"
proof -
  let ?out = "PENDING_TOOL ''system.read_file'' config_args"
  let ?s1 = "s\<lparr>sc_quota := fst (consumeTick a (sc_quota s))\<rparr>"
  let ?s2 = "?s1\<lparr>sc_quota := fst (consumeToolCall a (sc_quota ?s1))\<rparr>"
  have s: "memory_of a s = Inr (JObj [])" "unmetered a s" "getState (sc_lifecycle s) a = ACTIVE"
    using assms by (simp_all add: fit_def)
  have f1: "fit a ?s1" using assms by (rule fit_consume)
  then have f2: "fit a ?s2" by (rule fit_consume)
  obtain h where h: "state_hash sha a ?out s = Inr h"
    "\<And>w. loop_tick LIVE sha a 1 read_config (s, w) = ((?s1, log_event ''TICK_OUTPUT'' a (first_payload h) w), Inr ?out)"
    using s by (rule_tac live_tick_json [of a s "JObj []" ?out 1 read_config sha])
      (simp_all add: run_tick_100 read_config_def first_payload_def, simp add: config_args_def)
  have c: "sc_consume consumeToolCall a (?s1, w) = ((?s2, w), Inr ())" for w
    using f1 by (simp add: fit_def unmetered_consume)
  show ?thesis
    by (rule that [OF f2 h(1)])
      (simp add: start_run_def s read_config_def enter_call h(2) [unfolded read_config_def] c gate_start_def
        core_reads_config [folded config_args_def])
qed

text \<open>The rest of it, from any world.\<close>

lemma live_rest:
  assumes "fit a s"
  obtains s1 w1 where
    "(resume core_handlers LIVE sha a ^^ (k + 2)) ((s, w), Calling 1 ''system.read_file'' config_args config_result) =
       ((s1, w1), Settled (Inr ()))"
    "getState (sc_lifecycle s1) a = TERMINATED"
    "map le_kind (wlogs w1) = map le_kind (wlogs w) @
       [''TOOL_RESULT'', ''TICK_OUTPUT'', ''LIFECYCLE_TRANSITION'', ''LIFECYCLE_TRANSITION'']"
proof -
  let ?R = "resume core_handlers LIVE sha a"
  let ?w1 = "tick_clock (log_event ''TOOL_RESULT'' a (tool_payload 1 ''system.read_file'' config_args config_result) w)"
  let ?s1 = "s\<lparr>sc_quota := fst (consumeTick a (sc_quota s))\<rparr>"
  obtain h where h: "\<And>w. loop_tick LIVE sha a 2 (RETURN config_result) (s, w) =
      ((?s1, log_event ''TICK_OUTPUT'' a (tick_payload 2 (RETURN config_result) (COMPLETED config_result) h) w),
       Inr (COMPLETED config_result))"
    using assms config_result_json(1)
    by (rule_tac live_tick_json [of a s "JObj []" "COMPLETED config_result" 2 "RETURN config_result" sha])
      (simp_all add: fit_def run_tick_100)
  let ?w2 = "log_event ''TICK_OUTPUT'' a (tick_payload 2 (RETURN config_result) (COMPLETED config_result) h) ?w1"
  have act: "getState (sc_lifecycle ?s1) a = ACTIVE" using assms by (simp add: fit_def)
  obtain lc3 w3 e3 where 3: "sc_transition a T_complete (?s1, ?w2) = ((?s1\<lparr>sc_lifecycle := lc3\<rparr>, w3), Inr ())"
    "getState lc3 a = COMPLETING" "wlogs w3 = wlogs ?w2 @ [e3]" "le_kind e3 = ''LIFECYCLE_TRANSITION''"
    using act by (rule_tac sc_transition_ok [of ?s1 a T_complete COMPLETING ?w2]) simp_all
  obtain lc4 w4 e4 where 4: "sc_transition a T_teardown_ok (?s1\<lparr>sc_lifecycle := lc3\<rparr>, w3) =
      ((?s1\<lparr>sc_lifecycle := lc3, sc_lifecycle := lc4\<rparr>, w4), Inr ())"
    "getState lc4 a = TERMINATED" "wlogs w4 = wlogs w3 @ [e4]" "le_kind e4 = ''LIFECYCLE_TRANSITION''"
    using 3(2) by (rule_tac sc_transition_ok [of "?s1\<lparr>sc_lifecycle := lc3\<rparr>" a T_teardown_ok TERMINATED w3]) simp_all
  let ?fin = "((?s1\<lparr>sc_lifecycle := lc3, sc_lifecycle := lc4\<rparr>, w4), Settled (Inr ()))"
  have two: "(?R ^^ 2) ((s, w), Calling 1 ''system.read_file'' config_args config_result) = ?fin"
    using 3(1) 4(1)
    by (simp add: numeral_2_eq_2 enter_loop_def h [unfolded numeral_2_eq_2 [symmetric]] complete_agent_def settle_def run_catch_def)
  have "(?R ^^ k) ?fin = ?fin" by (induction k) simp_all
  then have "(?R ^^ (k + 2)) ((s, w), Calling 1 ''system.read_file'' config_args config_result) = ?fin"
    by (simp only: funpow_add o_apply two)
  then show ?thesis
    by (rule that) (use 3 4 in \<open>simp_all add: stamp_def\<close>)
qed

section \<open>The REPLAY run\<close>

definition missing_result :: jserr where
  "missing_result = Error ''REPLAY_MISSING_TOOL_RESULT''"

text \<open>A REPLAY that starts when the tick is logged and the result of its tool is not.\<close>

lemma replay_start:
  assumes "fit a s" and "state_hash sha a (PENDING_TOOL ''system.read_file'' config_args) s = Inr h"
    and "find_entry ''TICK_OUTPUT'' a 1 w = Some e" and "js_prop (le_payload e) ''stateHash'' = JStr h"
    and "find_entry ''TOOL_RESULT'' a 1 w = None"
  obtains s1 where "fit a s1"
    "start_run hs REPLAY sha a read_config (s, w) =
       ((s1, tick_clock (tick_clock w)), Resuming 1 (Inl missing_result))"
proof -
  let ?s1 = "s\<lparr>sc_quota := fst (consumeTick a (sc_quota s))\<rparr>"
  let ?s2 = "?s1\<lparr>sc_quota := fst (consumeToolCall a (sc_quota ?s1))\<rparr>"
  have f1: "fit a ?s1" using assms(1) by (rule fit_consume)
  then have f2: "fit a ?s2" by (rule fit_consume)
  have t: "loop_tick REPLAY sha a 1 read_config (s, w) = ((?s1, w), Inr (PENDING_TOOL ''system.read_file'' config_args))"
    using assms by (intro loop_tick_replay [where e = e and h = h])
      (simp_all add: fit_def run_tick_100 read_config_def)
  have c: "sc_consume consumeToolCall a (?s1, w) = ((?s2, w), Inr ())"
    using f1 by (simp add: fit_def unmetered_consume)
  have "find_entry ''TOOL_RESULT'' a 1 (tick_clock w) = None"
    using assms(5) by (simp add: find_entry_def)
  then show ?thesis
    using assms(1)
    by (intro that [OF f2]) (simp add: start_run_def fit_def read_config_def enter_call t [unfolded read_config_def] c
        gate_start_def gate_body_def missing_result_def)
qed

lemma replay_rest: "resume hs REPLAY sha a (sw, Resuming n (Inl missing_result)) = (sw, Settled (Inl missing_result))"
  by (simp add: settle_def run_catch_def missing_result_def)

text \<open>Its last piece does not touch the world, so every order of the pieces gives the same.\<close>

lemma race_run_order:
  assumes "rc_live r = (s, p)" and "rc_replay r = (s2, p2)"
    and "p2 \<in> {Resuming n (Inl missing_result), Settled (Inl missing_result)}"
  shows "race_run hs sha a schedule r =
    (let ((s1, w1), p1) = (resume hs LIVE sha a ^^ count_list schedule True) ((s, rc_world r), p)
     in r\<lparr>rc_live := (s1, p1), rc_world := w1,
          rc_replay := (s2, if False \<in> set schedule then Settled (Inl missing_result) else p2)\<rparr>)"
  using assms
proof (induction schedule arbitrary: r s p p2)
  case Nil
  then show ?case by (simp add: race_run_def)
next
  case (Cons live schedule)
  show ?case
  proof (cases live)
    case True
    obtain s1 w1 p1 where 1: "resume hs LIVE sha a ((s, rc_world r), p) = ((s1, w1), p1)"
      by (metis prod_cases3 prod.collapse)
    let ?r = "r\<lparr>rc_live := (s1, p1), rc_world := w1\<rparr>"
    have "race_run hs sha a (live # schedule) r = race_run hs sha a schedule ?r"
      using Cons.prems True by (simp add: race_run_def race_step_def 1)
    also have "\<dots> = (let ((s1, w1), p1) = (resume hs LIVE sha a ^^ count_list schedule True) ((s1, rc_world ?r), p1)
     in ?r\<lparr>rc_live := (s1, p1), rc_world := w1,
          rc_replay := (s2, if False \<in> set schedule then Settled (Inl missing_result) else p2)\<rparr>)"
      using Cons.prems by (intro Cons.IH) simp_all
    finally show ?thesis
      using True by (simp add: funpow_swap1 1 split: prod.split)
  next
    case False
    let ?p = "Settled (Inl missing_result)" let ?r = "r\<lparr>rc_replay := (s2, ?p)\<rparr>"
    have "resume hs REPLAY sha a (sw, p2) = (sw, ?p)" for sw
      using Cons.prems(3) replay_rest [of hs sha a sw n] by (elim insertE emptyE) simp_all
    moreover have "live_world h w (replay_world h w) = w" "new_history h (replay_world h w) = h" for h w
      by (simp_all add: live_world_def replay_world_def new_history_def split: option.split)
    ultimately have "race_step hs sha a live r = ?r"
      using Cons.prems False by (simp add: race_step_def)
    then have "race_run hs sha a (live # schedule) r = race_run hs sha a schedule ?r"
      by (simp add: race_run_def)
    also have "\<dots> = (let ((s1, w1), p1) = (resume hs LIVE sha a ^^ count_list schedule True) ((s, rc_world ?r), p)
     in ?r\<lparr>rc_live := (s1, p1), rc_world := w1,
          rc_replay := (s2, if False \<in> set schedule then Settled (Inl missing_result) else ?p)\<rparr>)"
      using Cons.prems by (intro Cons.IH) simp_all
    finally show ?thesis
      using False by (simp split: prod.split)
  qed
qed

section \<open>Both programs\<close>

lemma fit_host_sched: "getState lc a = ACTIVE \<Longrightarrow> fit a (host_sched lc [])"
  by (simp add: fit_def host_sched_def memory_of_def ps_snapshot_def rec_clone_def empty_rec_def
      map_get_or_def unmetered_def new_enforcer_def)

lemma host_sched_hash:
  "getState lc a = ACTIVE \<Longrightarrow> getState lc' a = ACTIVE \<Longrightarrow>
   state_hash sha a out (host_sched lc' []) = state_hash sha a out (host_sched lc [])"
  by (rule state_hash_cong) (simp_all add: host_sched_def memory_of_def)

lemma kernel_transition_ok:
  assumes "next_state (getState (k_lifecycle k) a) t = Some st"
  obtains k1 r where "kernel_transition a t k = (k1, Inr ())" "getState (k_lifecycle k1) a = st"
    "k_persistent k1 = k_persistent k" "tr_meta r = JUndef"
    "wlogs (k_world k1) = wlogs (k_world k) @ [stamp (transition_entry a r) (nextBusSeq (wlog (k_world k)))]"
    "nextBusSeq (wlog (k_world k1)) = nextBusSeq (wlog (k_world k)) + 1"
proof -
  let ?r = "transition_taken a t JUndef (k_lifecycle k) (k_world k) st"
  show ?thesis
    by (rule that [of "fst (kernel_transition a t k)" ?r])
      (simp_all add: kernel_transition_def transition_ok [OF assms], simp_all add: transition_taken_def)
qed

text \<open>A spawned agent has two transitions in the log.\<close>

lemma spawn_fresh:
  obtains k r1 r2 where "spawn_root a (new_kernel (new_world clock)) = (k, Inr ())"
    "getState (k_lifecycle k) a = ACTIVE" "k_persistent k = []" "tr_meta r1 = JUndef" "tr_meta r2 = JUndef"
    "wlogs (k_world k) = [stamp (transition_entry a r1) 1, stamp (transition_entry a r2) 2]"
    "nextBusSeq (wlog (k_world k)) = 3"
proof -
  obtain k0 where 0: "kernel_register a ''root'' (new_kernel (new_world clock)) = (k0, Inr ())"
    "getState (k_lifecycle k0) a = DEFINED" "k_persistent k0 = []" "wlogs (k_world k0) = []"
    "nextBusSeq (wlog (k_world k0)) = 1"
    by (rule that [of "fst (kernel_register a ''root'' (new_kernel (new_world clock)))"])
      (simp_all add: kernel_register_def registerAgent_def new_kernel_def new_agent_registry_def new_world_def
        new_logger_def map_has_def new_lifecycle_def getState_def map_get_or_def)
  obtain k1 r1 where 1: "kernel_transition a T_spawn k0 = (k1, Inr ())" "getState (k_lifecycle k1) a = SPAWNED"
    "k_persistent k1 = k_persistent k0" "tr_meta r1 = JUndef"
    "wlogs (k_world k1) = wlogs (k_world k0) @ [stamp (transition_entry a r1) (nextBusSeq (wlog (k_world k0)))]"
    "nextBusSeq (wlog (k_world k1)) = nextBusSeq (wlog (k_world k0)) + 1"
    using 0(2) by (rule_tac kernel_transition_ok [of k0 a T_spawn SPAWNED]) simp_all
  obtain k2 r2 where 2: "kernel_transition a T_activate k1 = (k2, Inr ())" "getState (k_lifecycle k2) a = ACTIVE"
    "k_persistent k2 = k_persistent k1" "tr_meta r2 = JUndef"
    "wlogs (k_world k2) = wlogs (k_world k1) @ [stamp (transition_entry a r2) (nextBusSeq (wlog (k_world k1)))]"
    "nextBusSeq (wlog (k_world k2)) = nextBusSeq (wlog (k_world k1)) + 1"
    using 1(2) by (rule_tac kernel_transition_ok [of k1 a T_activate ACTIVE]) simp_all
  show ?thesis
    by (rule that [of k2 r1 r2]) (use 0 1 2 in \<open>simp_all add: spawn_root_def\<close>)
qed

definition race_over :: "string \<Rightarrow> race \<Rightarrow> bool" where
  "race_over a q \<longleftrightarrow>
     snd (rc_replay q) = Settled (Inl missing_result) \<and> getState (sc_lifecycle (fst (rc_replay q))) a = ACTIVE \<and>
     snd (rc_live q) = Settled (Inr ()) \<and> getState (sc_lifecycle (fst (rc_live q))) a = TERMINATED"

text \<open>The two programs as starts of a race.\<close>

definition raced :: "string \<Rightarrow> (string \<Rightarrow> string) \<Rightarrow> jserr + unit sched handlers \<times> race \<Rightarrow> bool" where
  "raced a sha p \<longleftrightarrow> (\<exists>r. p = Inr (core_handlers, r) \<and>
     getState (sc_lifecycle (fst (rc_live r))) a = ACTIVE \<and>
     map le_kind (wlogs (rc_world r)) = [''LIFECYCLE_TRANSITION'', ''LIFECYCLE_TRANSITION'', ''TICK_OUTPUT''] \<and>
     (\<forall>schedule. 2 \<le> count_list schedule True \<longrightarrow> False \<in> set schedule \<longrightarrow>
       race_over a (race_run core_handlers sha a schedule r) \<and>
       map le_kind (wlogs (rc_world (race_run core_handlers sha a schedule r))) =
         map le_kind (wlogs (rc_world r)) @
         [''TOOL_RESULT'', ''TICK_OUTPUT'', ''LIFECYCLE_TRANSITION'', ''LIFECYCLE_TRANSITION'']))"

text \<open>Both programs: the REPLAY reads a log that has the tick and lacks the result.\<close>

lemma race_result:
  assumes spawned: "getState (k_lifecycle k) a = ACTIVE" "k_persistent k = []"
    and log: "\<And>h w. w = tick_clock (log_event ''TICK_OUTPUT'' a (first_payload h) (k_world k)) \<Longrightarrow>
      \<exists>l e. history w = Inr l \<and> find_entry ''TICK_OUTPUT'' a 1 (replay_world l w) = Some e \<and>
        js_prop (le_payload e) ''stateHash'' = JStr h \<and> find_entry ''TOOL_RESULT'' a 1 (replay_world l w) = None"
    and kinds: "map le_kind (wlogs (k_world k)) = [''LIFECYCLE_TRANSITION'', ''LIFECYCLE_TRANSITION'']"
  shows "raced a sha (map_sum id (Pair core_handlers)
    (race_start core_handlers sha a (host_sched (k_lifecycle k) (k_persistent k))
      (host_sched (force_state a ACTIVE new_lifecycle) []) history (k_world k)))"
proof -
  let ?s = "host_sched (k_lifecycle k) []" and ?s2 = "host_sched (force_state a ACTIVE new_lifecycle) []"
  have fit: "fit a ?s" "fit a ?s2" using spawned by (simp_all add: fit_host_sched)
  obtain h s1 where 1: "fit a s1" "state_hash sha a (PENDING_TOOL ''system.read_file'' config_args) ?s = Inr h"
    "\<And>w. start_run core_handlers LIVE sha a read_config (?s, w) =
       ((s1, tick_clock (log_event ''TICK_OUTPUT'' a (first_payload h) w)),
        Calling 1 ''system.read_file'' config_args config_result)"
    by (rule live_start [OF fit(1), where sha = sha]) (rule that, assumption+)
  let ?w = "tick_clock (log_event ''TICK_OUTPUT'' a (first_payload h) (k_world k))"
  obtain l e where l: "history ?w = Inr l" "find_entry ''TICK_OUTPUT'' a 1 (replay_world l ?w) = Some e"
    "js_prop (le_payload e) ''stateHash'' = JStr h" "find_entry ''TOOL_RESULT'' a 1 (replay_world l ?w) = None"
    using log [OF refl] by blast
  have "state_hash sha a (PENDING_TOOL ''system.read_file'' config_args) ?s2 = Inr h"
    using 1(2) host_sched_hash [of "force_state a ACTIVE new_lifecycle" a "k_lifecycle k" sha] spawned by simp
  from replay_start [OF fit(2) this l(2-4)]
  obtain s2 where 2: "fit a s2" "start_run core_handlers REPLAY sha a read_config (?s2, replay_world l ?w) =
       ((s2, tick_clock (tick_clock (replay_world l ?w))), Resuming 1 (Inl missing_result))" .
  let ?r = "\<lparr>rc_live = (s1, Calling 1 ''system.read_file'' config_args config_result),
    rc_replay = (s2, Resuming 1 (Inl missing_result)),
    rc_world = live_world l ?w (tick_clock (tick_clock (replay_world l ?w))),
    rc_history = new_history l (tick_clock (tick_clock (replay_world l ?w)))\<rparr>"
  have w: "wlogs (rc_world ?r) = wlogs ?w"
    by (cases l) (simp_all add: live_world_def replay_world_def)
  have over: "race_over a (race_run core_handlers sha a schedule ?r) \<and>
       map le_kind (wlogs (rc_world (race_run core_handlers sha a schedule ?r))) =
         map le_kind (wlogs (rc_world ?r)) @
         [''TOOL_RESULT'', ''TICK_OUTPUT'', ''LIFECYCLE_TRANSITION'', ''LIFECYCLE_TRANSITION'']"
    if n: "2 \<le> count_list schedule True" and f: "False \<in> set schedule" for schedule
  proof -
    obtain n where "count_list schedule True = n + 2" using n by (metis add.commute le_iff_add)
    moreover obtain s3 w3 where
      "(resume core_handlers LIVE sha a ^^ (n + 2)) ((s1, rc_world ?r), Calling 1 ''system.read_file'' config_args config_result) =
         ((s3, w3), Settled (Inr ()))" "getState (sc_lifecycle s3) a = TERMINATED"
      "map le_kind (wlogs w3) = map le_kind (wlogs (rc_world ?r)) @
         [''TOOL_RESULT'', ''TICK_OUTPUT'', ''LIFECYCLE_TRANSITION'', ''LIFECYCLE_TRANSITION'']"
      by (rule live_rest [OF 1(1), where sha = sha and k = n and w = "rc_world ?r"])
    ultimately show ?thesis
      using race_run_order [of ?r s1 _ s2 _ 1 core_handlers sha a schedule] f 2(1)
      by (simp add: race_over_def fit_def)
  qed
  show ?thesis
    unfolding raced_def
    by (rule exI [of _ ?r]) (use 1 2 l w over kinds in \<open>simp add: race_start_def spawned fit_def stamp_def\<close>)
qed

section \<open>The log of the simulation and the file of the boot\<close>

lemma find_in_three:
  assumes "logs (wlog w) = [e1, e2, e3]"
    and "le_kind e1 = ''LIFECYCLE_TRANSITION''" "le_kind e2 = ''LIFECYCLE_TRANSITION''"
    and "le_kind e3 = ''TICK_OUTPUT''" "le_agentId e3 = a" "le_payload e3 = first_payload h"
  shows "find_entry ''TICK_OUTPUT'' a 1 w = Some e3" "find_entry ''TOOL_RESULT'' a 1 w = None"
  using assms by (simp_all add: find_entry_def getLogsForAgent_def entry_for_def first_payload_def)

lemma wlogs_three:
  assumes "w1 = tick_clock (log_event ''TICK_OUTPUT'' a (first_payload h) w)" and "wlogs w = [e1, e2]"
    and "nextBusSeq (wlog w) = 3"
  obtains e3 where "wlogs w1 = [e1, e2, e3]"
    "e3 = stamp \<lparr>le_kind = ''TICK_OUTPUT'', le_agentId = a, le_timestamp = date_now w,
                le_payload = first_payload h, le_fields = []\<rparr> 3"
  using assms by simp

lemma first_payload_json: "is_json (first_payload h)" "wf_js (first_payload h)"
  by (simp_all add: first_payload_def tick_payload_def read_config_def config_args_def)

text \<open>The three entries as they are read back.\<close>

lemma line_ok_transition: "tr_meta r = JUndef \<Longrightarrow> line_ok (transition_entry a r)"
  by (simp add: line_ok_def numbered_def transition_entry_def)

lemma line_ok_tick:
  "line_ok \<lparr>le_kind = ''TICK_OUTPUT'', le_agentId = a, le_timestamp = t, le_payload = first_payload h, le_fields = []\<rparr>"
  using first_payload_json [of h]
  by (simp add: line_ok_def numbered_def is_json_json_error)

lemma entry_js_stamp: "entry_js (stamp i n) = JObj (entry_props i n)"
  by (simp add: entry_js_def stamp_def entry_props_def)

lemma entry_of_line:
  "le_kind (entry_of (line_image (JObj (entry_props i n)))) = le_kind i"
  "le_agentId (entry_of (line_image (JObj (entry_props i n)))) = le_agentId i"
  "is_json (le_payload i) \<Longrightarrow> le_payload (entry_of (line_image (JObj (entry_props i n)))) = le_payload i"
  by (simp_all add: entry_of_def line_image_def entry_props_def text_prop_def is_json_json_image)

lemma restored_three:
  assumes "wlogs w = [stamp i1 1, stamp i2 2, stamp i3 3]" and "list_all line_ok [i1, i2, i3]"
  obtains l where "restored w = Inr (Some l)"
    "logs l = map (\<lambda>(i, n). entry_of (line_image (JObj (entry_props i n)))) [(i1, 1), (i2, 2), (i3, 3)]"
proof -
  let ?is = "[i1, i2, i3]"
  have e: "entries_from 1 ?is = [JObj (entry_props i1 1), JObj (entry_props i2 2), JObj (entry_props i3 3)]"
    by simp
  have f: "file_text (wlog w) = lines_of (entries_from 1 ?is)"
    by (simp only: e file_text_def assms(1) list.map entry_js_stamp)
  have n: "fl_next (new_file_logger t) = Some 1" "fl_logs (new_file_logger t) = []" for t
    by (simp_all add: new_file_logger_def)
  have "loadFromFile (file_text (wlog w)) =
      Inr ((new_file_logger (file_text (wlog w)))\<lparr>fl_logs := map line_image (entries_from 1 ?is),
        fl_next := Some (1 + int (length ?is)), fl_frozen := True\<rparr>)"
    using load_entries [OF assms(2) n(1)]
    by (simp only: loadFromFile_def f file_lines_entries [OF assms(2)] n append_Nil sum.case file_logger.simps)
  then show ?thesis
    by (intro that) (simp add: restored_def e del: json_image.simps, simp add: e)
qed

lemma core_boot:
  obtains reg where "bootstrapCoreTools new_registry = (reg, Inr ())" "core_handlers = adapted_handlers reg"
  by (rule that [of "fst (bootstrapCoreTools new_registry)"])
    (simp_all add: core_handlers_def bootstrapCoreTools_def core_tools_def new_registry_def register_tool_def map_has_def)

lemma transition_entry_fields [simp]:
  "le_kind (transition_entry a r) = ''LIFECYCLE_TRANSITION''" "le_agentId (transition_entry a r) = a"
  by (simp_all add: transition_entry_def)

lemma stamp_fields [simp]:
  "le_kind (stamp i n) = le_kind i" "le_agentId (stamp i n) = le_agentId i" "le_payload (stamp i n) = le_payload i"
  by (simp_all add: stamp_def)

lemma simulation_raced: "raced ''os-root-1'' sha (runSimulation sha clock)"
proof -
  let ?a = "''os-root-1''"
  obtain k r1 r2 where k: "spawn_root ?a (new_kernel (new_world clock)) = (k, Inr ())"
    "getState (k_lifecycle k) ?a = ACTIVE" "k_persistent k = []" "tr_meta r1 = JUndef" "tr_meta r2 = JUndef"
    "wlogs (k_world k) = [stamp (transition_entry ?a r1) 1, stamp (transition_entry ?a r2) 2]"
    "nextBusSeq (wlog (k_world k)) = 3"
    by (rule spawn_fresh)
  have "raced ?a sha (map_sum id (Pair core_handlers)
    (race_start core_handlers sha ?a (host_sched (k_lifecycle k) (k_persistent k))
      (host_sched (force_state ?a ACTIVE new_lifecycle) []) (\<lambda>_. Inr None) (k_world k)))"
  proof (rule race_result [OF k(2,3)])
    fix h w
    assume "w = tick_clock (log_event ''TICK_OUTPUT'' ?a (first_payload h) (k_world k))"
    then obtain e where e: "wlogs w = [stamp (transition_entry ?a r1) 1, stamp (transition_entry ?a r2) 2, e]"
      "le_kind e = ''TICK_OUTPUT''" "le_agentId e = ?a" "le_payload e = first_payload h"
      using k(6,7) by simp
    then show "\<exists>l e. (Inr None :: jserr + logger option) = Inr l \<and>
        find_entry ''TICK_OUTPUT'' ?a 1 (replay_world l w) = Some e \<and>
        js_prop (le_payload e) ''stateHash'' = JStr h \<and> find_entry ''TOOL_RESULT'' ?a 1 (replay_world l w) = None"
      using find_in_three [OF e(1) _ _ e(2-4)]
      by (intro exI [of _ None] exI [of _ e]) (simp add: replay_world_def first_payload_def)
  qed (simp add: k(6))
  moreover obtain reg where "bootstrapCoreTools new_registry = (reg, Inr ())" "core_handlers = adapted_handlers reg"
    by (rule core_boot)
  ultimately show ?thesis
    by (simp add: runSimulation_def k(1,3))
qed

lemma boot_raced: "raced ''persistent-agent-1'' sha (hostBoot sha clock)"
proof -
  let ?a = "''persistent-agent-1''"
  obtain k r1 r2 where k: "spawn_root ?a (new_kernel (new_world clock)) = (k, Inr ())"
    "getState (k_lifecycle k) ?a = ACTIVE" "k_persistent k = []" "tr_meta r1 = JUndef" "tr_meta r2 = JUndef"
    "wlogs (k_world k) = [stamp (transition_entry ?a r1) 1, stamp (transition_entry ?a r2) 2]"
    "nextBusSeq (wlog (k_world k)) = 3"
    by (rule spawn_fresh)
  have "raced ?a sha (map_sum id (Pair core_handlers)
    (race_start core_handlers sha ?a (host_sched (k_lifecycle k) (k_persistent k))
      (host_sched (force_state ?a ACTIVE new_lifecycle) []) restored (k_world k)))"
  proof (rule race_result [OF k(2,3)])
    fix h w
    assume w: "w = tick_clock (log_event ''TICK_OUTPUT'' ?a (first_payload h) (k_world k))"
    let ?i = "\<lparr>le_kind = ''TICK_OUTPUT'', le_agentId = ?a, le_timestamp = date_now (k_world k),
      le_payload = first_payload h, le_fields = []\<rparr>"
    have ok: "list_all line_ok [transition_entry ?a r1, transition_entry ?a r2, ?i]"
      by (simp add: line_ok_transition k(4,5) line_ok_tick)
    have "wlogs w = [stamp (transition_entry ?a r1) 1, stamp (transition_entry ?a r2) 2, stamp ?i 3]"
      using w k(6,7) by simp
    from restored_three [OF this ok]
    obtain l where l: "restored w = Inr (Some l)"
      "logs l = map (\<lambda>(i, n). entry_of (line_image (JObj (entry_props i n))))
         [(transition_entry ?a r1, 1), (transition_entry ?a r2, 2), (?i, 3)]" .
    let ?e = "entry_of (line_image (JObj (entry_props ?i 3)))"
    have e: "le_kind ?e = ''TICK_OUTPUT''" "le_agentId ?e = ?a" "le_payload ?e = first_payload h"
      using entry_of_line [of ?i 3] first_payload_json [of h] by simp_all
    have log: "logs (wlog (replay_world (Some l) w)) =
        [entry_of (line_image (JObj (entry_props (transition_entry ?a r1) 1))),
         entry_of (line_image (JObj (entry_props (transition_entry ?a r2) 2))), ?e]"
      using l(2) by (simp add: replay_world_def)
    have f: "find_entry ''TICK_OUTPUT'' ?a 1 (replay_world (Some l) w) = Some ?e"
      "find_entry ''TOOL_RESULT'' ?a 1 (replay_world (Some l) w) = None"
      by (rule find_in_three [OF log _ _ e]; simp add: entry_of_line(1))+
    show "\<exists>l e. restored w = Inr l \<and>
        find_entry ''TICK_OUTPUT'' ?a 1 (replay_world l w) = Some e \<and>
        js_prop (le_payload e) ''stateHash'' = JStr h \<and> find_entry ''TOOL_RESULT'' ?a 1 (replay_world l w) = None"
      using l(1) f e(3) tick_payload_simps(3)
      by (intro exI [of _ "Some l"] exI [of _ ?e]) (simp add: first_payload_def)
  qed (simp add: k(6))
  moreover obtain reg where "bootstrapCoreTools new_registry = (reg, Inr ())" "core_handlers = adapted_handlers reg"
    by (rule core_boot)
  ultimately show ?thesis
    by (simp add: hostBoot_def k(1))
qed

section \<open>Properties\<close>

text \<open>C9: The replay that is not awaited starts too early. In the simulation and in the boot, for any
  clock and any hash function, the program reaches its end and reports success while the LIVE run
  is still waiting for its tool, with the agent \<open>ACTIVE\<close> and three entries in the log; the REPLAY has
  already looked for the result of the tool and not found it. In whatever order the pieces of the
  two runs follow, the LIVE run returns and ends the agent, and the REPLAY is rejected with
  \<open>REPLAY_MISSING_TOOL_RESULT\<close> outside the block that would catch it.\<close>

theorem unawaited_replay_fails:
  assumes "(prog, a) \<in> {(runSimulation, ''os-root-1''), (hostBoot, ''persistent-agent-1'')}"
    and "2 \<le> count_list schedule True" and "False \<in> set schedule"
  shows "\<exists>hs r. prog sha clock = Inr (hs, r) \<and>
    getState (sc_lifecycle (fst (rc_live r))) a = ACTIVE \<and>
    map le_kind (wlogs (rc_world r)) = [''LIFECYCLE_TRANSITION'', ''LIFECYCLE_TRANSITION'', ''TICK_OUTPUT''] \<and>
    race_over a (race_run hs sha a schedule r) \<and>
    map le_kind (wlogs (rc_world (race_run hs sha a schedule r))) =
      map le_kind (wlogs (rc_world r)) @
      [''TOOL_RESULT'', ''TICK_OUTPUT'', ''LIFECYCLE_TRANSITION'', ''LIFECYCLE_TRANSITION'']"
  using assms simulation_raced [of sha clock] boot_raced [of sha clock] by (auto simp: raced_def)

theorem unawaited_replay_fails_witness:
  "\<exists>hs r. hostBoot id (\<lambda>_. 7) = Inr (hs, r) \<and>
     race_over ''persistent-agent-1'' (race_run hs id ''persistent-agent-1'' [True, False, True] r)"
  using unawaited_replay_fails [of hostBoot "''persistent-agent-1''" "[True, False, True]" id "\<lambda>_. 7"] by auto

end
