(* ===== verification/Tui.thy ===== *)
theory Tui
  imports Bus
begin

text \<open>
  The terminal dashboard of host/tui.ts: the handler it subscribes to every event, with the three
  boxes it fills. The boxes of the terminal library are lists of lines; how they are drawn, and
  the keys, are left out. Characters beyond the code units of the model are written as their
  UTF-8 bytes.
\<close>

section \<open>The time of day\<close>

text \<open>\<open>new Date(t).toISOString().split('T')[1].slice(0, 12)\<close>; a time no \<open>Date\<close> can hold throws.\<close>

definition pad_digits :: "nat \<Rightarrow> nat \<Rightarrow> string" where
  "pad_digits n i = (let s = show_nat i in replicate (n - length s) (CHR ''0'') @ s)"

definition valid_date :: "int \<Rightarrow> bool" where
  "valid_date t \<longleftrightarrow> \<bar>t\<bar> \<le> 8640000000000000"

definition day_ms :: "int \<Rightarrow> nat" where
  "day_ms t = nat (t mod 86400000)"

definition time_of_day :: "int \<Rightarrow> string" where
  "time_of_day t =
     (let ms = day_ms t
      in pad_digits 2 (ms div 3600000) @ '':'' @ pad_digits 2 (ms div 60000 mod 60) @ '':'' @
         pad_digits 2 (ms div 1000 mod 60) @ ''.'' @ pad_digits 3 (ms mod 1000))"

section \<open>The boxes\<close>

record tui =
  tui_agents :: "string list"
  agentBox :: "string list"
  logBox :: "string list"
  memoryBox :: string

definition new_tui :: tui where
  "new_tui = \<lparr>tui_agents = [], agentBox = [], logBox = [], memoryBox = []\<rparr>"

definition updateAgentList :: "tui \<Rightarrow> tui" where
  "updateAgentList u = u\<lparr>agentBox := tui_agents u\<rparr>"

definition colour :: "string \<Rightarrow> string \<Rightarrow> string" where
  "colour c s = ''{'' @ c @ ''-fg}'' @ s @ ''{/'' @ c @ ''-fg}''"

definition line_prefix :: "int \<Rightarrow> string" where
  "line_prefix t = colour ''gray'' (''['' @ time_of_day t @ '']'')"

definition agent_tag :: "string \<Rightarrow> string" where
  "agent_tag a = ''Agent ['' @ colour ''yellow'' a @ '']''"

definition arrow :: string where
  "arrow = [CHR 0xE2, CHR 0x86, CHR 0x92]"

text \<open>The text of a line behind its time; the transition event has no \<open>trigger\<close> to show.\<close>

fun event_line :: "kernel_event \<Rightarrow> string" where
  "event_line (AGENT_SPAWNED a t) =
     colour ''green'' ''[SPAWN]'' @ '' '' @ agent_tag a @ '' entered the registry.''"
| "event_line (LIFECYCLE_TRANSITION a f g t) =
     colour ''magenta'' ''[STATE]'' @ '' '' @ agent_tag a @ '' shifted: '' @ colour ''gray'' f @ '' '' @
     arrow @ '' '' @ colour ''white'' g @ '' (Trigger: undefined)''"
| "event_line (TICK_COMPLETED a n t) =
     colour ''blue'' ''[TICK]'' @ '' '' @ agent_tag a @ '': Tick #'' @ show_int n @ '' Finished.''"
| "event_line (TOOL_CALL_REQUESTED a n t) =
     colour ''cyan'' ''[TOOL ]'' @ '' '' @ agent_tag a @ '' requested: '' @ colour ''red'' n"
| "event_line (MEMORY_ACCESS a s c k t) =
     colour ''yellow'' ''[ MEM ]'' @ '' '' @ agent_tag a @ '' '' @ c @ '': '' @ s @ ''/'' @ k"
| "event_line ev =
     colour ''gray'' ''[EVENT]'' @ '' Generic <'' @ event_kind ev @ ''> triggered.''"

fun memory_text :: "kernel_event \<Rightarrow> string option" where
  "memory_text (MEMORY_ACCESS a s c k t) =
     Some (colour ''cyan'' ''Last Access:'' @ [CHR 0x0A] @ ''Scope: '' @ s @ [CHR 0x0A] @ ''Key: '' @ k @
       [CHR 0x0A] @ ''Action: '' @ c @ [CHR 0x0A] @ ''Agent: '' @ a)"
| "memory_text ev = None"

definition box_log :: "kernel_event \<Rightarrow> tui \<Rightarrow> tui" where
  "box_log ev u = u\<lparr>logBox := logBox u @ [line_prefix (ev_time ev) @ '' '' @ event_line ev]\<rparr>"

definition box_memory :: "kernel_event \<Rightarrow> tui \<Rightarrow> tui" where
  "box_memory ev u = (case memory_text ev of Some s \<Rightarrow> u\<lparr>memoryBox := s\<rparr> | None \<Rightarrow> u)"

definition box_agents :: "kernel_event \<Rightarrow> tui \<Rightarrow> tui" where
  "box_agents ev u =
     (case ev of
        AGENT_SPAWNED a t \<Rightarrow>
          updateAgentList (u\<lparr>tui_agents := (if a \<in> set (tui_agents u) then tui_agents u else tui_agents u @ [a])\<rparr>)
      | _ \<Rightarrow> u)"

definition visualise :: "(kernel_event, tui) listener" where
  "visualise ev u =
     (if \<not> valid_date (ev_time ev) then (u, Inl (JsErr ''RangeError'' ''Invalid time value''))
      else (box_memory ev (box_log ev (box_agents ev u)), Inr ()))"

definition startVisualizer :: "tui bus \<Rightarrow> tui bus" where
  "startVisualizer b = bus_subscribe ''*'' visualise b"


section \<open>What the terminal shows\<close>

primrec emit_all :: "'e bus \<Rightarrow> kernel_event list \<Rightarrow> 'e \<Rightarrow> ('e, unit) outcome" where
  "emit_all b [] e = (e, Inr ())"
| "emit_all b (ev # evs) e =
     (case bus_emit ev b e of
        (e1, Inl x) \<Rightarrow> (e1, Inl x)
      | (e1, Inr _) \<Rightarrow> emit_all b evs e1)"

fun spawned :: "kernel_event list \<Rightarrow> string list" where
  "spawned [] = []"
| "spawned (AGENT_SPAWNED a t # evs) = a # spawned evs"
| "spawned (_ # evs) = spawned evs"

fun last_memory :: "string \<Rightarrow> kernel_event list \<Rightarrow> string" where
  "last_memory s [] = s"
| "last_memory s (ev # evs) = last_memory (case memory_text ev of Some x \<Rightarrow> x | None \<Rightarrow> s) evs"

text \<open>The elements of a list in the order they first occur in.\<close>

definition first_seen :: "string list \<Rightarrow> string list" where
  "first_seen xs = foldl (\<lambda>seen a. if a \<in> set seen then seen else seen @ [a]) [] xs"

lemma emit_visualise: "bus_emit ev (startVisualizer new_bus) u = visualise ev u"
proof -
  have "event_kind ev \<noteq> ''*''" by (cases ev) simp_all
  then show ?thesis
    by (simp add: bus_emit_handlers startVisualizer_def bus_topics.listeners_sub bus_topics.listeners_nobody
        split: prod.split sum.split)
qed

definition show_event :: "kernel_event \<Rightarrow> tui \<Rightarrow> tui" where
  "show_event ev u = box_memory ev (box_log ev (box_agents ev u))"

lemma emit_all_visualise:
  "list_all (\<lambda>ev. valid_date (ev_time ev)) evs \<Longrightarrow>
   emit_all (startVisualizer new_bus) evs u = (fold show_event evs u, Inr ())"
  by (induction evs arbitrary: u) (simp_all add: emit_visualise visualise_def show_event_def)

lemma show_event_logBox: "logBox (show_event ev u) = logBox u @ [line_prefix (ev_time ev) @ '' '' @ event_line ev]"
  by (simp add: show_event_def box_memory_def box_log_def box_agents_def updateAgentList_def
      split: option.split kernel_event.split)

lemma fold_logBox:
  "logBox (fold show_event evs u) = logBox u @ map (\<lambda>ev. line_prefix (ev_time ev) @ '' '' @ event_line ev) evs"
  by (induction evs arbitrary: u) (simp_all add: show_event_logBox)

lemma show_event_memory:
  "memoryBox (show_event ev u) = (case memory_text ev of Some x \<Rightarrow> x | None \<Rightarrow> memoryBox u)"
  by (simp add: show_event_def box_memory_def box_log_def box_agents_def updateAgentList_def
      split: option.split kernel_event.split)

lemma fold_memory: "memoryBox (fold show_event evs u) = last_memory (memoryBox u) evs"
  by (induction evs arbitrary: u) (simp_all add: show_event_memory)

lemma fold_agents:
  "agentBox u = tui_agents u \<Longrightarrow>
   let v = fold show_event evs u
   in agentBox v = tui_agents v \<and>
      tui_agents v = foldl (\<lambda>seen a. if a \<in> set seen then seen else seen @ [a]) (tui_agents u) (spawned evs)"
proof (induction evs arbitrary: u)
  case (Cons ev evs)
  have frame: "tui_agents (show_event ev u) = tui_agents (box_agents ev u)"
    "agentBox (show_event ev u) = agentBox (box_agents ev u)" for ev
    by (simp_all add: show_event_def box_memory_def box_log_def split: option.split)
  show ?case
    using Cons.IH [of "show_event ev u"] Cons.prems
    by (cases ev) (simp_all add: frame box_agents_def updateAgentList_def Let_def)
qed simp

subsection \<open>Times\<close>

lemma replicate_zero_read: "read_nat (replicate n (CHR ''0'') @ s) = read_nat s"
proof (induction n)
  case (Suc n)
  have "read_nat (CHR ''0'' # t) = read_nat t" for t
    by (simp add: read_nat_def digit_val_def)
  with Suc show ?case by simp
qed simp

lemma pad_read [simp]: "read_nat (pad_digits n i) = i"
  by (simp add: pad_digits_def Let_def replicate_zero_read)

lemma length_show_nat: "i < 10 ^ n \<Longrightarrow> 0 < n \<Longrightarrow> length (show_nat i) \<le> n"
proof (induction i arbitrary: n rule: show_nat.induct)
  case (1 i)
  show ?case
  proof (cases "i < 10")
    case False
    then obtain m where "n = Suc m" "0 < m"
      using 1(2,3) by (cases n) (auto, metis gr0I power_0 mult.right_neutral)
    then show ?thesis using 1(1) [of m] 1(2) False by (subst show_nat.simps) (simp add: less_mult_imp_div_less mult.commute)
  qed (use 1 in \<open>subst show_nat.simps, simp\<close>)
qed

lemma length_pad: "i < 10 ^ n \<Longrightarrow> 0 < n \<Longrightarrow> length (pad_digits n i) = n"
  using length_show_nat [of i n] by (simp add: pad_digits_def Let_def)

lemma pad_inject: "pad_digits n i = pad_digits n j \<Longrightarrow> i = j"
  by (metis pad_read)

lemma clock_sum:
  "m * 60 + s = q \<Longrightarrow> h * 60 + m' = m \<Longrightarrow> q * 1000 + ms = n \<Longrightarrow> n = (h * 60 + m') * 60000 + s * 1000 + ms"
  for h :: nat
  by (simp add: algebra_simps)

lemma time_of_day_inject: "time_of_day t = time_of_day u \<longleftrightarrow> day_ms t = day_ms u"
proof
  assume eq: "time_of_day t = time_of_day u"
  have len: "length (pad_digits 2 (day_ms x div 3600000)) = 2" "length (pad_digits 2 (day_ms x div 60000 mod 60)) = 2"
    "length (pad_digits 2 (day_ms x div 1000 mod 60)) = 2" for x
  proof -
    have "day_ms x < 86400000" by (simp add: day_ms_def nat_less_iff)
    then show "length (pad_digits 2 (day_ms x div 3600000)) = 2" by (intro length_pad) simp_all
    have small: "n mod 60 < 10 ^ 2" for n :: nat using mod_less_divisor [of 60 n] by simp
    show "length (pad_digits 2 (day_ms x div 60000 mod 60)) = 2" "length (pad_digits 2 (day_ms x div 1000 mod 60)) = 2"
      by (intro length_pad small; simp)+
  qed
  from eq have parts: "day_ms t div 3600000 = day_ms u div 3600000"
    "day_ms t div 60000 mod 60 = day_ms u div 60000 mod 60"
    "day_ms t div 1000 mod 60 = day_ms u div 1000 mod 60" "day_ms t mod 1000 = day_ms u mod 1000"
    by (auto simp: time_of_day_def Let_def len dest: pad_inject)
  have "n = (n div 3600000 * 60 + n div 60000 mod 60) * 60000 + (n div 1000 mod 60) * 1000 + n mod 1000" for n :: nat
  proof -
    have "n div 60000 * 60 + n div 1000 mod 60 = n div 1000" "n div 3600000 * 60 + n div 60000 mod 60 = n div 60000"
      using div_mult_mod_eq [of "n div 1000" 60] div_mult_mod_eq [of "n div 60000" 60]
      by (simp_all flip: div_mult2_eq)
    from clock_sum [OF this div_mult_mod_eq] show ?thesis .
  qed
  then show "day_ms t = day_ms u" using parts by metis
qed (simp add: time_of_day_def)


section \<open>Properties\<close>

text \<open>The terminal shows the history of the bus. Once the visualiser is subscribed and as long as the
  times are ones a \<open>Date\<close> can hold, no event is lost or stopped: the log has one line per event in
  order, the agent box lists the spawned agents once each in the order they came, and the memory
  box holds the last access. Two lines show the same time exactly when their events are a whole
  number of days apart, and every line of a transition gives its trigger as undefined.\<close>

theorem terminal_shows_history:
  assumes "list_all (\<lambda>ev. valid_date (ev_time ev)) evs"
  shows "\<exists>u. emit_all (startVisualizer new_bus) evs new_tui = (u, Inr ()) \<and>
    logBox u = map (\<lambda>ev. line_prefix (ev_time ev) @ '' '' @ event_line ev) evs \<and>
    agentBox u = first_seen (spawned evs) \<and> memoryBox u = last_memory [] evs \<and>
    (\<forall>t t'. line_prefix t = line_prefix t' \<longleftrightarrow> (86400000 :: int) dvd t - t') \<and>
    (\<forall>a f g t. suffix ''(Trigger: undefined)'' (event_line (LIFECYCLE_TRANSITION a f g t)))"
proof -
  have "line_prefix t = line_prefix t' \<longleftrightarrow> (86400000 :: int) dvd t - t'" for t t'
    using time_of_day_inject [of t t']
    by (simp add: line_prefix_def colour_def day_ms_def eq_nat_nat_iff mod_eq_dvd_iff)
  moreover have "suffix ''(Trigger: undefined)'' (event_line (LIFECYCLE_TRANSITION a f g t))" for a f g t
    by (simp add: suffix_def)
  ultimately show ?thesis
    using emit_all_visualise [OF assms, of new_tui] fold_agents [of new_tui evs]
    by (intro exI [of _ "fold show_event evs new_tui"])
      (simp add: fold_logBox fold_memory new_tui_def first_seen_def Let_def)
qed

theorem terminal_shows_history_witness:
  "\<exists>u. emit_all (startVisualizer new_bus) [AGENT_SPAWNED ''a'' 0, AGENT_SPAWNED ''a'' 5, TICK_COMPLETED ''a'' 1 7] new_tui = (u, Inr ()) \<and>
     agentBox u = [''a''] \<and> length (logBox u) = 3"
proof -
  have "list_all (\<lambda>ev. valid_date (ev_time ev)) [AGENT_SPAWNED ''a'' 0, AGENT_SPAWNED ''a'' 5, TICK_COMPLETED ''a'' 1 7]"
    by (simp add: valid_date_def)
  from terminal_shows_history [OF this] show ?thesis
    by (elim exE conjE) (auto simp: first_seen_def)
qed

end
