(* ===== verification/SwarmScript.thy ===== *)
theory SwarmScript
  imports Kernel Tui
begin

text \<open>
  The swarm demonstration of host/agents/swarm.ts: a manager and two workers that exchange results
  through shared memory, each tool call checked against the grants of the agent its arguments
  name. The tools are called with strings; \<open>Math.random()\<close> is a parameter. The kernel, its bus and
  the terminal are those of the other theories; delays and console output are left out.
\<close>

section \<open>The host\<close>

record host =
  h_kernel :: kernel
  h_tui :: tui

definition new_host :: "world \<Rightarrow> host" where
  "new_host w = \<lparr>h_kernel = new_kernel w, h_tui = new_tui\<rparr>"

text \<open>An event with the current time, to the terminal that watches the bus.\<close>

definition host_emit :: "(int \<Rightarrow> kernel_event) \<Rightarrow> host \<Rightarrow> (host, unit) outcome" where
  "host_emit ev h =
     (let w = k_world (h_kernel h);
          (u, r) = bus_emit (ev (date_now w)) (startVisualizer new_bus) (h_tui h)
      in (h\<lparr>h_kernel := (h_kernel h)\<lparr>k_world := tick_clock w\<rparr>, h_tui := u\<rparr>, r))"

definition host_transition :: "string \<Rightarrow> trigger \<Rightarrow> host \<Rightarrow> (host, unit) outcome" where
  "host_transition a t h =
     (let k = h_kernel h; ((lc, w), r) = transition a t JUndef (k_lifecycle k, k_world k)
      in (h\<lparr>h_kernel := k\<lparr>k_lifecycle := lc, k_world := w\<rparr>\<rparr>, case r of Inl e \<Rightarrow> Inl e | Inr _ \<Rightarrow> Inr ()))"

definition host_register :: "string \<Rightarrow> string \<Rightarrow> host \<Rightarrow> (host, unit) outcome" where
  "host_register a ty h =
     (let k = h_kernel h;
          (reg, r) = registerAgent \<lparr>id_id = a, id_type = ty, id_createdAt = date_now (k_world k),
                                    id_name = None, id_version = None\<rparr> (k_registry k)
      in (h\<lparr>h_kernel := k\<lparr>k_registry := reg, k_world := tick_clock (k_world k)\<rparr>\<rparr>, r))"

section \<open>Grants and tools\<close>

definition lasting :: "string \<Rightarrow> string \<Rightarrow> grant" where
  "lasting act res = \<lparr>g_action = act, g_resource = res, g_notAfter = None\<rparr>"

definition managerGrants :: "grant list" where
  "managerGrants =
     [lasting ''write'' ''shared/swarm/task_assignment'', lasting ''read'' ''shared/swarm/worker_1_result'',
      lasting ''read'' ''shared/swarm/worker_2_result'', lasting ''write'' ''shared/swarm/final_output'']"

definition worker1Grants :: "grant list" where
  "worker1Grants =
     [lasting ''read'' ''shared/swarm/task_assignment'', lasting ''write'' ''shared/swarm/worker_1_result'']"

definition worker2Grants :: "grant list" where
  "worker2Grants =
     [lasting ''read'' ''shared/swarm/task_assignment'', lasting ''write'' ''shared/swarm/worker_2_result'']"

definition getGrantsForAgent :: "string \<Rightarrow> grant list" where
  "getGrantsForAgent a =
     (if a = ''manager-1'' then managerGrants
      else if a = ''worker-1'' then worker1Grants
      else if a = ''worker-2'' then worker2Grants
      else [])"

definition no_arguments :: jserr where
  "no_arguments = JsErr ''TypeError'' ''Cannot destructure the arguments''"

definition arg_text :: "jsval \<Rightarrow> string \<Rightarrow> string" where
  "arg_text args k = js_string (js_prop args k)"

definition memoryReadTool :: "shared handler" where
  "memoryReadTool args sw =
     (if args = JUndef \<or> args = JNull then (sw, Inl no_arguments)
      else
        let a = arg_text args ''agentId'' in
        (case sh_read a (arg_text args ''namespace'') (arg_text args ''key'') (getGrantsForAgent a) [] sw of
           (sw1, Inl e) \<Rightarrow> (sw1, Inl e)
         | (sw1, Inr v) \<Rightarrow> (sw1, Inr (if v \<noteq> JNull then v else JStr ''NOT_FOUND''))))"

definition memoryWriteTool :: "(world \<Rightarrow> string) \<Rightarrow> shared handler" where
  "memoryWriteTool random args sw =
     (if args = JUndef \<or> args = JNull then (sw, Inl no_arguments)
      else
        let (s, w) = sw;
            a = arg_text args ''agentId''; ns = arg_text args ''namespace''; k = arg_text args ''key'';
            tx = ''tx-'' @ show_int (date_now w) @ ''-'' @ random w
        in (case sh_write a ns k (js_prop args ''value'') tx (getGrantsForAgent a) [] (s, tick_clock w) of
              (sw1, Inl e) \<Rightarrow> (sw1, Inl e)
            | (sw1, Inr _) \<Rightarrow> (sw1, Inr (JStr (''Successfully wrote to '' @ ns @ ''/'' @ k)))))"

definition swarm_handlers :: "(world \<Rightarrow> string) \<Rightarrow> shared handlers" where
  "swarm_handlers random =
     [(''swarm.memory.read'', memoryReadTool), (''swarm.memory.write'', memoryWriteTool random)]"

section \<open>The script\<close>

definition write_call :: "string \<Rightarrow> string \<Rightarrow> string \<Rightarrow> instruction" where
  "write_call a k v =
     CALL_TOOL ''swarm.memory.write''
       (JObj [(''agentId'', JStr a), (''namespace'', JStr ''swarm''), (''key'', JStr k), (''value'', JStr v)])"

definition read_call :: "string \<Rightarrow> string \<Rightarrow> instruction" where
  "read_call a k =
     CALL_TOOL ''swarm.memory.read''
       (JObj [(''agentId'', JStr a), (''namespace'', JStr ''swarm''), (''key'', JStr k)])"

definition task_text :: string where
  "task_text = ''Calculate optimal pathing algorithm weights.''"

definition swarm_instruction :: "string \<Rightarrow> int \<Rightarrow> instruction" where
  "swarm_instruction a n =
     (if a = ''manager-1'' \<and> n = 1 then write_call a ''task_assignment'' task_text
      else if a = ''worker-1'' \<and> n = 1 then read_call a ''task_assignment''
      else if a = ''worker-1'' \<and> n = 2 then write_call a ''worker_1_result'' ''Sub-path A optimal at 42ms.''
      else if a = ''worker-2'' \<and> n = 1 then read_call a ''task_assignment''
      else if a = ''worker-2'' \<and> n = 2 then write_call a ''worker_2_result'' ''Sub-path B optimal at 37ms.''
      else if a = ''manager-1'' \<and> n = 2 then read_call a ''worker_2_result''
      else if a = ''manager-1'' \<and> n = 3
      then write_call a ''final_output'' ''Selected Sub-path B as optimal trajectory.''
      else RETURN (JStr ''DONE''))"

definition swarm_gate ::
  "(world \<Rightarrow> string) \<Rightarrow> string \<Rightarrow> int \<Rightarrow> string \<Rightarrow> jsval \<Rightarrow> host \<Rightarrow> (host, jsval) outcome" where
  "swarm_gate random a n name args h =
     (let k = h_kernel h;
          ((s, w), r) = gate_execute (swarm_handlers random) LIVE a n name args (k_shared k, k_world k)
      in (h\<lparr>h_kernel := k\<lparr>k_shared := s, k_world := w\<rparr>\<rparr>, r))"

definition runAgentTick :: "(world \<Rightarrow> string) \<Rightarrow> string \<Rightarrow> int \<Rightarrow> host \<Rightarrow> (host, unit) outcome" where
  "runAgentTick random a n h =
     (case run_tick \<lparr>ti_agentId = a, ti_sequenceNumber = n, ti_instruction = swarm_instruction a n,
                     ti_maxSteps = 10\<rparr> of
        PENDING_TOOL name args \<Rightarrow>
          run_steps [host_emit (TOOL_CALL_REQUESTED a name),
            \<lambda>h. case swarm_gate random a n name args h of
                  (h1, Inl e) \<Rightarrow> (h1, Inl e) | (h1, Inr _) \<Rightarrow> (h1, Inr ())] h
      | COMPLETED v \<Rightarrow> run_steps [host_transition a T_complete, host_transition a T_teardown_ok] h
      | _ \<Rightarrow> (h, Inr ()))"

definition swarm_agents :: "string list" where
  "swarm_agents = [''manager-1'', ''worker-1'', ''worker-2'']"

definition spawn_agent :: "string \<Rightarrow> host \<Rightarrow> (host, unit) outcome" where
  "spawn_agent a =
     run_steps [host_register a (if str_includes a ''manager'' then ''manager'' else ''worker''),
       host_transition a T_spawn, host_transition a T_activate]"

definition swarm_ticks :: "(string \<times> int) list" where
  "swarm_ticks =
     [(''manager-1'', 1), (''worker-1'', 1), (''worker-2'', 1), (''worker-1'', 2), (''worker-2'', 2),
      (''manager-1'', 2), (''manager-1'', 3), (''worker-1'', 3), (''worker-2'', 3), (''manager-1'', 4)]"

text \<open>The call at the end, whose error is caught and shown.\<close>

definition isolation_probe :: "(world \<Rightarrow> string) \<Rightarrow> host \<Rightarrow> (host, jsval) outcome" where
  "isolation_probe random =
     swarm_gate random ''worker-1'' 99 ''swarm.memory.read''
       (JObj [(''agentId'', JStr ''worker-1''), (''namespace'', JStr ''swarm''), (''key'', JStr ''worker_2_result'')])"

definition bootstrapSwarm ::
  "(world \<Rightarrow> string) \<Rightarrow> host \<Rightarrow> (host, unit) outcome \<times> (jserr + jsval) option" where
  "bootstrapSwarm random h =
     (case run_steps (map spawn_agent swarm_agents @ map (\<lambda>(a, n). runAgentTick random a n) swarm_ticks) h of
        (h1, Inl e) \<Rightarrow> ((h1, Inl e), None)
      | (h1, Inr _) \<Rightarrow> (case isolation_probe random h1 of (h2, r) \<Rightarrow> ((h2, Inr ()), Some r)))"


section \<open>What a step does\<close>

text \<open>The registered agents, their states, the shared store and a clock that a terminal can show.\<close>

type_synonym host_view = "string set \<times> (string \<Rightarrow> agent_state) \<times> shared"

definition clock_ok :: "world \<Rightarrow> bool" where
  "clock_ok w \<longleftrightarrow> (\<forall>n. valid_date (wclock w n))"

fun host_at :: "host_view \<Rightarrow> host \<Rightarrow> bool" where
  "host_at (ids, st, s) h \<longleftrightarrow>
     {a. map_has (identities (k_registry (h_kernel h))) a} = ids \<and>
     getState (k_lifecycle (h_kernel h)) = st \<and> k_shared (h_kernel h) = s \<and>
     clock_ok (k_world (h_kernel h))"

definition runs_to :: "(host \<Rightarrow> (host, unit) outcome) \<Rightarrow> host_view \<Rightarrow> host_view \<Rightarrow> bool" where
  "runs_to f v v' \<longleftrightarrow> (\<forall>h. host_at v h \<longrightarrow> (\<exists>h1. f h = (h1, Inr ()) \<and> host_at v' h1))"

lemma clock_ok_steps [simp]:
  "clock_ok w \<Longrightarrow> clock_ok (tick_clock w)" "clock_ok w \<Longrightarrow> clock_ok (log_event kd a p w)"
  "clock_ok w \<Longrightarrow> clock_ok (log_transition a r w)" "clock_ok w \<Longrightarrow> valid_date (date_now w)"
  by (simp_all add: clock_ok_def tick_clock_def log_event_def log_transition_def date_now_def Let_def)

lemma runs_to_step:
  assumes "runs_to f u v" and "runs_to (run_steps fs) v v'"
  shows "runs_to (run_steps (f # fs)) u v'"
  unfolding runs_to_def
proof (intro allI impI)
  fix h assume "host_at u h"
  then obtain h1 where h1: "f h = (h1, Inr ())" "host_at v h1" using assms(1) by (auto simp: runs_to_def)
  then show "\<exists>h1. run_steps (f # fs) h = (h1, Inr ()) \<and> host_at v' h1"
    using assms(2) by (simp add: runs_to_def)
qed

lemma runs_to_end: "runs_to (run_steps []) v v"
  by (simp add: runs_to_def)

lemma emit_runs: "(\<And>t. ev_time (ev t) = t) \<Longrightarrow> runs_to (host_emit ev) v v"
  by (cases v) (auto simp: runs_to_def host_emit_def emit_visualise visualise_def Let_def)

lemma transition_runs:
  "next_state (st a) t = Some nxt \<Longrightarrow> runs_to (host_transition a t) (ids, st, s) (ids, st(a := nxt), s)"
  by (auto simp: runs_to_def host_transition_def transition_ok Let_def transition_taken_def intro!: ext)

lemma register_runs: "a \<notin> ids \<Longrightarrow> runs_to (host_register a ty) (ids, st, s) (insert a ids, st, s)"
  by (auto simp: runs_to_def host_register_def registerAgent_def Let_def)

lemma spawn_runs:
  "a \<notin> ids \<Longrightarrow> st a = DEFINED \<Longrightarrow> runs_to (spawn_agent a) (ids, st, s) (insert a ids, st(a := ACTIVE), s)"
  unfolding spawn_agent_def
  by (rule runs_to_step [OF register_runs] runs_to_step [OF transition_runs] | simp)+
     (use runs_to_end [of "(insert a ids, st(a := ACTIVE), s)"] in simp)

lemma check_allowed:
  assumes "\<And>now. has_valid_grant act (shared_resource ns k) now gs" and "clock_ok w"
  obtains w1 where "checkPermission a act ns k gs [] w = (w1, Inr ())" "clock_ok w1"
proof -
  have "\<exists>w1. checkPermission a act ns k gs [] w = (w1, Inr ()) \<and> clock_ok w1"
    using assms by (simp add: checkPermission_def evaluate_def Let_def)
  then show thesis using that by blast
qed

lemma gate_own:
  assumes "map_of hs name = Some f" and "f args (s, tick_clock w) = ((s1, w1), Inr v)"
  shows "gate_execute hs LIVE a n name args (s, w) =
    ((s1, tick_clock (log_event ''TOOL_RESULT'' a (tool_payload n name args v) w1)), Inr v)"
  using assms by (simp add: gate_execute_def gate_body_def call_handler_def handler_lookup_def)

lemma write_runs:
  assumes instr: "swarm_instruction a n = write_call a k v"
    and grant: "\<And>now. has_valid_grant ''write'' (shared_resource ''swarm'' k) now (getGrantsForAgent a)"
  shows "runs_to (runAgentTick random a n) (ids, st, s) (ids, st, put_in ''swarm'' k (JStr v) s)"
proof -
  let ?args = "JObj [(''agentId'', JStr a), (''namespace'', JStr ''swarm''), (''key'', JStr k), (''value'', JStr v)]"
  let ?gate = "\<lambda>h. case swarm_gate random a n ''swarm.memory.write'' ?args h of
                  (h1, Inl e) \<Rightarrow> (h1, Inl e) | (h1, Inr _) \<Rightarrow> (h1, Inr ())"
  have tick: "runAgentTick random a n = run_steps [host_emit (TOOL_CALL_REQUESTED a ''swarm.memory.write''), ?gate]"
    by (rule ext) (simp add: runAgentTick_def instr write_call_def run_tick_def)
  have "runs_to ?gate (ids, st, s) (ids, st, put_in ''swarm'' k (JStr v) s)"
    unfolding runs_to_def
  proof (intro allI impI)
    fix h assume h: "host_at (ids, st, s) h"
    let ?w = "k_world (h_kernel h)"
    have ok: "clock_ok ?w" using h by simp
    obtain w1 where c: "checkPermission a ''write'' ''swarm'' k (getGrantsForAgent a) [] (tick_clock (tick_clock ?w)) = (w1, Inr ())"
      "clock_ok w1"
      by (rule check_allowed [OF grant, of "tick_clock (tick_clock ?w)" a]) (use ok in auto)
    have "\<exists>w2 r. memoryWriteTool random ?args (s, tick_clock ?w) = ((put_in ''swarm'' k (JStr v) s, w2), Inr r) \<and>
        clock_ok w2"
      by (simp add: memoryWriteTool_def arg_text_def sh_write_def c Let_def)
    then obtain w2 r where m: "memoryWriteTool random ?args (s, tick_clock ?w) = ((put_in ''swarm'' k (JStr v) s, w2), Inr r)"
      "clock_ok w2" by blast
    have own: "map_of (swarm_handlers random) ''swarm.memory.write'' = Some (memoryWriteTool random)"
      by (simp add: swarm_handlers_def)
    have "k_shared (h_kernel h) = s" using h by simp
    then show "\<exists>h1. ?gate h = (h1, Inr ()) \<and> host_at (ids, st, put_in ''swarm'' k (JStr v) s) h1"
      using h gate_own [OF own m(1)] m(2) by (simp add: swarm_gate_def Let_def)
  qed
  then show ?thesis
    unfolding tick by (intro runs_to_step [OF emit_runs] runs_to_step [OF _ runs_to_end]) simp_all
qed

lemma read_runs:
  assumes instr: "swarm_instruction a n = read_call a k"
    and grant: "\<And>now. has_valid_grant ''read'' (shared_resource ''swarm'' k) now (getGrantsForAgent a)"
    and stored: "map_of s ''swarm'' = Some rc" "rec_get rc k = JStr v"
  shows "runs_to (runAgentTick random a n) (ids, st, s) (ids, st, s)"
proof -
  let ?args = "JObj [(''agentId'', JStr a), (''namespace'', JStr ''swarm''), (''key'', JStr k)]"
  let ?gate = "\<lambda>h. case swarm_gate random a n ''swarm.memory.read'' ?args h of
                  (h1, Inl e) \<Rightarrow> (h1, Inl e) | (h1, Inr _) \<Rightarrow> (h1, Inr ())"
  have tick: "runAgentTick random a n = run_steps [host_emit (TOOL_CALL_REQUESTED a ''swarm.memory.read''), ?gate]"
    by (rule ext) (simp add: runAgentTick_def instr read_call_def run_tick_def)
  have "runs_to ?gate (ids, st, s) (ids, st, s)"
    unfolding runs_to_def
  proof (intro allI impI)
    fix h assume h: "host_at (ids, st, s) h"
    let ?w = "k_world (h_kernel h)"
    have ok: "clock_ok ?w" using h by simp
    obtain w1 where c: "checkPermission a ''read'' ''swarm'' k (getGrantsForAgent a) [] (tick_clock ?w) = (w1, Inr ())"
      "clock_ok w1"
      by (rule check_allowed [OF grant, of "tick_clock ?w" a]) (use ok in auto)
    have "\<exists>w2 r. memoryReadTool ?args (s, tick_clock ?w) = ((s, w2), Inr r) \<and> clock_ok w2"
      by (simp add: memoryReadTool_def arg_text_def sh_read_def c stored Let_def)
    then obtain w2 r where m: "memoryReadTool ?args (s, tick_clock ?w) = ((s, w2), Inr r)"
      "clock_ok w2" by blast
    have own: "map_of (swarm_handlers random) ''swarm.memory.read'' = Some memoryReadTool"
      by (simp add: swarm_handlers_def)
    have "k_shared (h_kernel h) = s" using h by simp
    then show "\<exists>h1. ?gate h = (h1, Inr ()) \<and> host_at (ids, st, s) h1"
      using h gate_own [OF own m(1)] m(2) by (simp add: swarm_gate_def Let_def)
  qed
  then show ?thesis
    unfolding tick by (intro runs_to_step [OF emit_runs] runs_to_step [OF _ runs_to_end]) simp_all
qed

lemma done_runs:
  assumes "swarm_instruction a n = RETURN (JStr ''DONE'')" and "st a = ACTIVE"
  shows "runs_to (runAgentTick random a n) (ids, st, s) (ids, st(a := TERMINATED), s)"
proof -
  have tick: "runAgentTick random a n = run_steps [host_transition a T_complete, host_transition a T_teardown_ok]"
    by (rule ext) (simp add: runAgentTick_def assms run_tick_def)
  have "runs_to (host_transition a T_complete) (ids, st, s) (ids, st(a := COMPLETING), s)"
    by (rule transition_runs) (simp add: assms)
  moreover have "runs_to (host_transition a T_teardown_ok) (ids, st(a := COMPLETING), s) (ids, st(a := TERMINATED), s)"
    using transition_runs [of "st(a := COMPLETING)" a T_teardown_ok TERMINATED ids s] by simp
  ultimately show ?thesis
    unfolding tick by (blast intro: runs_to_step runs_to_end)
qed


section \<open>Properties\<close>

lemma read_last: "k \<noteq> proto_key \<Longrightarrow> \<exists>rc. map_of (put_in ns k v m) ns = Some rc \<and> rec_get rc k = v"
  using rec_get_put_same [of k v] by (simp add: map_of_put_in rec_put_plain)

lemma read_runs_last:
  assumes "swarm_instruction a n = read_call a k"
    and "\<And>now. has_valid_grant ''read'' (shared_resource ''swarm'' k) now (getGrantsForAgent a)"
    and "k \<noteq> proto_key"
  shows "runs_to (runAgentTick random a n) (ids, st, put_in ''swarm'' k (JStr v) s) (ids, st, put_in ''swarm'' k (JStr v) s)"
  using read_last [OF assms(3), of "''swarm''" "JStr v" s] read_runs [OF assms(1,2)] by blast

lemma swarm_granted:
  "has_valid_grant ''write'' (shared_resource ''swarm'' ''task_assignment'') now (getGrantsForAgent ''manager-1'')"
  "has_valid_grant ''write'' (shared_resource ''swarm'' ''final_output'') now (getGrantsForAgent ''manager-1'')"
  "has_valid_grant ''read'' (shared_resource ''swarm'' ''worker_2_result'') now (getGrantsForAgent ''manager-1'')"
  "has_valid_grant ''read'' (shared_resource ''swarm'' ''task_assignment'') now (getGrantsForAgent ''worker-1'')"
  "has_valid_grant ''write'' (shared_resource ''swarm'' ''worker_1_result'') now (getGrantsForAgent ''worker-1'')"
  "has_valid_grant ''read'' (shared_resource ''swarm'' ''task_assignment'') now (getGrantsForAgent ''worker-2'')"
  "has_valid_grant ''write'' (shared_resource ''swarm'' ''worker_2_result'') now (getGrantsForAgent ''worker-2'')"
  "\<not> has_valid_grant ''read'' (shared_resource ''swarm'' ''worker_2_result'') now (getGrantsForAgent ''worker-1'')"
  by (simp_all add: getGrantsForAgent_def managerGrants_def worker1Grants_def worker2Grants_def lasting_def
      grant_matches_def no_expiry_def shared_resource_def)

definition swarm_store :: shared where
  "swarm_store =
     put_in ''swarm'' ''final_output'' (JStr ''Selected Sub-path B as optimal trajectory.'')
       (put_in ''swarm'' ''worker_2_result'' (JStr ''Sub-path B optimal at 37ms.'')
         (put_in ''swarm'' ''worker_1_result'' (JStr ''Sub-path A optimal at 42ms.'')
           (put_in ''swarm'' ''task_assignment'' (JStr task_text) [])))"

definition swarm_end :: host_view where
  "swarm_end = (set swarm_agents, (\<lambda>a. if a \<in> set swarm_agents then TERMINATED else DEFINED), swarm_store)"

lemma swarm_end_eq:
  "swarm_end =
     ({''worker-2'', ''worker-1'', ''manager-1''},
      (\<lambda>_. DEFINED)(''manager-1'' := ACTIVE, ''worker-1'' := ACTIVE, ''worker-2'' := ACTIVE,
        ''worker-1'' := TERMINATED, ''worker-2'' := TERMINATED, ''manager-1'' := TERMINATED), swarm_store)"
  by (auto simp: swarm_end_def swarm_agents_def)

lemma swarm_runs:
  "runs_to (run_steps (map spawn_agent swarm_agents @ map (\<lambda>(a, n). runAgentTick random a n) swarm_ticks))
     ({}, \<lambda>_. DEFINED, []) swarm_end"
  unfolding swarm_agents_def swarm_ticks_def swarm_end_eq swarm_store_def
  apply (simp only: list.map append.simps prod.case)
  apply (rule runs_to_step [OF spawn_runs], simp, simp)
  apply (rule runs_to_step [OF spawn_runs], simp, simp)
  apply (rule runs_to_step [OF spawn_runs], simp, simp)
  apply (rule runs_to_step [OF write_runs [where k = "''task_assignment''" and v = task_text]], simp add: swarm_instruction_def, rule swarm_granted)
  apply (rule runs_to_step [OF read_runs_last [where k = "''task_assignment''"]], simp add: swarm_instruction_def, rule swarm_granted, simp add: proto_key_def)
  apply (rule runs_to_step [OF read_runs_last [where k = "''task_assignment''"]], simp add: swarm_instruction_def, rule swarm_granted, simp add: proto_key_def)
  apply (rule runs_to_step [OF write_runs [where k = "''worker_1_result''" and v = "''Sub-path A optimal at 42ms.''"]],
        simp add: swarm_instruction_def, rule swarm_granted)
  apply (rule runs_to_step [OF write_runs [where k = "''worker_2_result''" and v = "''Sub-path B optimal at 37ms.''"]],
        simp add: swarm_instruction_def, rule swarm_granted)
  apply (rule runs_to_step [OF read_runs_last [where k = "''worker_2_result''"]], simp add: swarm_instruction_def, rule swarm_granted, simp add: proto_key_def)
  apply (rule runs_to_step [OF write_runs [where k = "''final_output''" and v = "''Selected Sub-path B as optimal trajectory.''"]],
        simp add: swarm_instruction_def, rule swarm_granted)
  apply (rule runs_to_step [OF done_runs], simp add: swarm_instruction_def, simp)
  apply (rule runs_to_step [OF done_runs], simp add: swarm_instruction_def, simp)
  apply (rule runs_to_step [OF done_runs], simp add: swarm_instruction_def, simp)
  apply (rule runs_to_end)
  done


text \<open>The swarm demonstration runs as it says. From a fresh kernel and for any random numbers and any
  clock whose readings are dates, every scripted step succeeds, the shared store ends with the
  task, both results and the choice of the manager, all three agents end \<open>TERMINATED\<close>, and the last
  call, worker 1 reading the result of worker 2, is refused for want of a grant - although the
  gate does not refuse it for the agent being terminated.\<close>

theorem swarm_script_runs:
  assumes "clock_ok w"
  shows "\<exists>h. bootstrapSwarm random (new_host w) =
      ((h, Inr ()), Some (Inl (Error
         ''PERMISSION_DENIED: Agent worker-1 cannot read resource shared/swarm/worker_2_result''))) \<and>
    k_shared (h_kernel h) = swarm_store \<and>
    (\<forall>a. getState (k_lifecycle (h_kernel h)) a = (if a \<in> set swarm_agents then TERMINATED else DEFINED))"
proof -
  have "host_at ({}, \<lambda>_. DEFINED, []) (new_host w)"
    using assms by (auto simp: new_host_def new_kernel_def new_agent_registry_def map_has_def new_lifecycle_def
        getState_def map_get_or_def)
  with swarm_runs [of random] obtain h1 where h1:
    "run_steps (map spawn_agent swarm_agents @ map (\<lambda>(a, n). runAgentTick random a n) swarm_ticks) (new_host w) =
      (h1, Inr ())" "host_at swarm_end h1"
    unfolding runs_to_def by blast
  have "snd (isolation_probe random h1) = Inl (Error
      ''PERMISSION_DENIED: Agent worker-1 cannot read resource shared/swarm/worker_2_result'')"
    "k_lifecycle (h_kernel (fst (isolation_probe random h1))) = k_lifecycle (h_kernel h1)"
    "k_shared (h_kernel (fst (isolation_probe random h1))) = k_shared (h_kernel h1)"
    using swarm_granted(8)
    by (simp_all add: isolation_probe_def swarm_gate_def gate_execute_def gate_body_def call_handler_def
        handler_lookup_def swarm_handlers_def memoryReadTool_def arg_text_def sh_read_def checkPermission_def
        evaluate_def shared_resource_def Let_def split: prod.split)
  with h1 show ?thesis
    by (auto simp: bootstrapSwarm_def swarm_end_def split: prod.split)
qed


theorem swarm_script_runs_witness:
  "\<exists>h. fst (bootstrapSwarm (\<lambda>_. ''0.5'') (new_host (new_world (\<lambda>_. 7)))) = (h, Inr ()) \<and>
     getState (k_lifecycle (h_kernel h)) ''worker-1'' = TERMINATED"
proof -
  have "clock_ok (new_world (\<lambda>_. 7))" by (simp add: clock_ok_def new_world_def valid_date_def)
  from swarm_script_runs [OF this, of "\<lambda>_. ''0.5''"] show ?thesis
    by (elim exE conjE) (simp add: swarm_agents_def)
qed

text \<open>The tools trust the identity in their arguments. What the read tool of the swarm answers depends
  on the agent its arguments name and not on the agent that calls: with a stored text, it is the
  text if the named agent has the grant and a refusal otherwise, whoever calls.\<close>

theorem grants_follow_claimed_identity:
  assumes "map_of (k_shared (h_kernel h)) ns = Some rc" and "rec_get rc k = JStr v"
  shows "snd (swarm_gate random caller n ''swarm.memory.read''
      (JObj [(''agentId'', JStr a), (''namespace'', JStr ns), (''key'', JStr k)]) h) =
    (if has_valid_grant ''read'' (shared_resource ns k) (date_now (tick_clock (k_world (h_kernel h)))) (getGrantsForAgent a)
     then Inr (JStr v)
     else Inl (Error (''PERMISSION_DENIED: Agent '' @ a @ '' cannot read resource '' @ shared_resource ns k)))"
  using assms
  by (simp add: swarm_gate_def gate_execute_def gate_body_def call_handler_def handler_lookup_def
      swarm_handlers_def memoryReadTool_def arg_text_def sh_read_def checkPermission_def evaluate_def Let_def
      split: prod.split)

theorem grants_follow_claimed_identity_witness:
  "snd (swarm_gate (\<lambda>_. ''0.5'') ''worker-1'' 99 ''swarm.memory.read''
     (JObj [(''agentId'', JStr ''manager-1''), (''namespace'', JStr ''swarm''), (''key'', JStr ''worker_2_result'')])
     \<lparr>h_kernel = (new_kernel (new_world int))\<lparr>k_shared := put_in ''swarm'' ''worker_2_result'' (JStr ''B'') []\<rparr>,
      h_tui = new_tui\<rparr>) = Inr (JStr ''B'')"
proof -
  obtain rc where "map_of (put_in ''swarm'' ''worker_2_result'' (JStr ''B'') []) ''swarm'' = Some rc"
    "rec_get rc ''worker_2_result'' = JStr ''B''"
    using read_last [of "''worker_2_result''" "''swarm''" "JStr ''B''" "[]"] by (auto simp: proto_key_def)
  then show ?thesis
    using swarm_granted(3) by (subst grants_follow_claimed_identity) simp_all
qed

end
