(* ===== verification/Brain.thy ===== *)
theory Brain
  imports HostTools Execution
begin

text \<open>
  The language-model adapters: host/adapters/ollama.ts (\<open>OllamaAdapter\<close>) and host/brain.ts
  (\<open>LlmBrainAdapter\<close>). What a model service answers is a parameter, a function on an environment;
  the recovery of an instruction from its text is modelled, with the regular expressions it uses
  and their backtracking. Console output is left out.
\<close>

section \<open>Regular expressions\<close>

text \<open>The items the patterns are built of: a literal, \<open>c?\<close>, \<open>\\s*\<close> and a captured class \<open>([\<dots>]+)\<close>.
  A match gives the captured text; greedy items try their longest choice first.\<close>

datatype re_item = Lit string | Maybe char | Blanks | Capture "char \<Rightarrow> bool"

fun first_some :: "'a option list \<Rightarrow> 'a option" where
  "first_some [] = None"
| "first_some (None # xs) = first_some xs"
| "first_some (Some x # xs) = Some x"

definition longest_first :: "nat \<Rightarrow> nat \<Rightarrow> nat list" where
  "longest_first lo hi = rev [lo..<hi + 1]"

fun match_here :: "re_item list \<Rightarrow> string \<Rightarrow> string \<Rightarrow> string option" where
  "match_here [] s cap = Some cap"
| "match_here (Lit l # re) s cap = (if prefix l s then match_here re (drop (length l) s) cap else None)"
| "match_here (Maybe c # re) s cap =
     first_some ((case s of x # xs \<Rightarrow> if x = c then [match_here re xs cap] else [] | [] \<Rightarrow> []) @
       [match_here re s cap])"
| "match_here (Blanks # re) s cap =
     first_some (map (\<lambda>n. match_here re (drop n s) cap) (longest_first 0 (length (takeWhile js_blank s))))"
| "match_here (Capture p # re) s cap =
     first_some (map (\<lambda>n. match_here re (drop n s) (take n s)) (longest_first 1 (length (takeWhile p s))))"

text \<open>\<open>s.match(re)\<close> takes the leftmost position where the pattern matches.\<close>

fun re_search :: "re_item list \<Rightarrow> string \<Rightarrow> string option" where
  "re_search re s =
     (case match_here re s [] of
        Some cap \<Rightarrow> Some cap
      | None \<Rightarrow> (case s of [] \<Rightarrow> None | x # xs \<Rightarrow> re_search re xs))"

declare re_search.simps [simp del]

definition dq :: char where
  "dq = CHR 0x22"

definition field_re :: "string \<Rightarrow> (char \<Rightarrow> bool) \<Rightarrow> re_item list" where
  "field_re name class =
     [Maybe dq, Lit name, Maybe dq, Blanks, Lit '':'', Blanks, Maybe dq, Capture class, Maybe dq]"

definition kind_char :: "char \<Rightarrow> bool" where
  "kind_char c \<longleftrightarrow> (CHR ''A'' \<le> c \<and> c \<le> CHR ''Z'') \<or> c = CHR ''_''"

section \<open>OllamaAdapter.parseBrokenJson\<close>

definition ticks :: string where
  "ticks = [CHR 0x60, CHR 0x60, CHR 0x60]"

definition newline_char :: char where
  "newline_char = CHR 0x0A"

definition drop_start :: "string \<Rightarrow> string \<Rightarrow> string" where
  "drop_start p s = (if prefix p s then drop (length p) s else s)"

definition drop_end :: "string \<Rightarrow> string \<Rightarrow> string" where
  "drop_end p s = (if suffix p s then take (length s - length p) s else s)"

definition strip_fence :: "string \<Rightarrow> string" where
  "strip_fence content =
     (if prefix (ticks @ ''json'') content
      then drop_end (newline_char # ticks) (drop_start (ticks @ ''json'' @ [newline_char]) content)
      else if prefix ticks content
      then drop_end (newline_char # ticks) (drop_start (ticks @ [newline_char]) content)
      else content)"

definition noop_value :: jsval where
  "noop_value = JObj [(''kind'', JStr ''NOOP'')]"

definition recover_instruction :: "string \<Rightarrow> jsval" where
  "recover_instruction content =
     (case re_search (field_re ''kind'' kind_char) content of
        None \<Rightarrow> noop_value
      | Some kind \<Rightarrow>
          if kind = ''CALL_TOOL''
          then JObj [(''kind'', JStr ''CALL_TOOL''),
                 (''toolName'', JStr (case re_search (field_re ''toolName'' (\<lambda>c. c \<noteq> dq)) content of
                                     Some name \<Rightarrow> name | None \<Rightarrow> ''unknown'')),
                 (''args'', JObj [])]
          else if kind = ''RETURN''
          then JObj [(''kind'', JStr ''RETURN''),
                 (''value'', JStr (case re_search (field_re ''value'' (\<lambda>c. c \<noteq> dq)) content of
                                  Some text \<Rightarrow> text | None \<Rightarrow> []))]
          else noop_value)"

definition parseBrokenJson :: "string \<Rightarrow> jsval" where
  "parseBrokenJson content0 =
     (let content = strip_fence (js_trim content0)
      in (case json_parse content of
            Inr v \<Rightarrow> v
          | Inl e \<Rightarrow> recover_instruction content))"

section \<open>OllamaAdapter\<close>

definition prompt_lines :: "string \<Rightarrow> string \<Rightarrow> string \<Rightarrow> string \<Rightarrow> string list" where
  "prompt_lines os extra goal context =
     [''You are a strict logical processor inside the '' @ os @ '' Agent OS.'',
      ''CURRENT AGENT GOAL: '' @ goal,
      [],
      ''Below is the dynamic State Context'' @ extra @ '':'',
      context,
      [],
      ''Based entirely on this goal and state, deduct the singular next required operation.'',
      ''You must return your output explicitly mapped as ONE of the following precise JSON objects:'',
      [],
      ''1. {'' @ quote ''kind'' @ '': '' @ quote ''CALL_TOOL'' @ '', '' @ quote ''toolName'' @ '': '' @
        quote ''<name>'' @ '', '' @ quote ''args'' @ '': {<args>}}'',
      ''2. {'' @ quote ''kind'' @ '': '' @ quote ''RETURN'' @ '', '' @ quote ''value'' @ '': '' @
        quote ''<final result string>'' @ ''}'',
      ''3. {'' @ quote ''kind'' @ '': '' @ quote ''NOOP'' @ ''}'']"

text \<open>The context goes through \<open>JSON.stringify\<close>, which may throw, into a template literal.\<close>

definition context_text :: "jsval \<Rightarrow> jserr + string" where
  "context_text v =
     (case json_error v of
        Some e \<Rightarrow> Inl e
      | None \<Rightarrow> Inr (case json_text v of Some s \<Rightarrow> s | None \<Rightarrow> ''undefined''))"

definition crashed :: "jserr \<Rightarrow> jsval" where
  "crashed e =
     JObj [(''kind'', JStr ''RETURN''),
       (''value'', JStr (''KERNEL_PANIC: LLM evaluation crashed determining target Instruction mapping: '' @
          err_message e))]"

definition empty_packet :: jserr where
  "empty_packet = Error ''Empty LLM completion packet''"

definition no_trim :: jserr where
  "no_trim = JsErr ''TypeError'' ''content.trim is not a function''"

record http_response =
  hr_ok :: bool
  hr_statusText :: string
  hr_json :: "jserr + jsval"

type_synonym 'e fetch = "string \<Rightarrow> string \<Rightarrow> 'e \<Rightarrow> ('e, http_response) outcome"

definition ollama_body :: "string \<Rightarrow> string \<Rightarrow> jsval" where
  "ollama_body model prompt =
     JObj [(''model'', JStr model), (''prompt'', JStr prompt), (''stream'', JBool False),
           (''format'', JStr ''json'')]"

definition ollama_content :: "http_response \<Rightarrow> jserr + jsval" where
  "ollama_content r =
     (if \<not> hr_ok r then Inl (Error (''Ollama API error: '' @ hr_statusText r))
      else (case hr_json r of
              Inl e \<Rightarrow> Inl e
            | Inr data \<Rightarrow>
                (case arg_prop data ''response'' of
                   Inl e \<Rightarrow> Inl e
                 | Inr content \<Rightarrow>
                     if \<not> js_truthy content then Inl empty_packet
                     else (case content of JStr s \<Rightarrow> Inr (parseBrokenJson s) | _ \<Rightarrow> Inl no_trim))))"

definition ollama_evaluate ::
  "'e fetch \<Rightarrow> string \<Rightarrow> string \<Rightarrow> string \<Rightarrow> jsval \<Rightarrow> 'e \<Rightarrow> ('e, jsval) outcome" where
  "ollama_evaluate post baseUrl model goal context e =
     (case context_text context of
        Inl x \<Rightarrow> (e, Inl x)
      | Inr text \<Rightarrow>
          let prompt = join_with [newline_char] (prompt_lines ''OmniPaw'' [] goal text)
          in (case post (baseUrl @ ''/api/generate'') (text_of (ollama_body model prompt)) e of
                (e1, Inl x) \<Rightarrow> (e1, Inr (crashed x))
              | (e1, Inr r) \<Rightarrow>
                  (case ollama_content r of
                     Inl x \<Rightarrow> (e1, Inr (crashed x))
                   | Inr v \<Rightarrow> (e1, Inr v))))"


section \<open>LlmBrainAdapter\<close>

datatype provider = Openai | Anthropic | Gemini | Mock

definition usable_key :: "string option \<Rightarrow> bool" where
  "usable_key key = (case key of None \<Rightarrow> False | Some k \<Rightarrow> k \<noteq> [] \<and> \<not> str_includes k ''your_api'')"

definition activeProvider :: "string option \<Rightarrow> string option \<Rightarrow> string option \<Rightarrow> provider" where
  "activeProvider openAIApiKey anthropicApiKey geminiApiKey =
     (if usable_key openAIApiKey then Openai
      else if usable_key anthropicApiKey then Anthropic
      else if usable_key geminiApiKey then Gemini
      else Mock)"

definition first_item :: "jsval \<Rightarrow> jserr + jsval" where
  "first_item v =
     (case v of
        JArr (x # xs) \<Rightarrow> Inr x
      | _ \<Rightarrow> (case arg_prop v ''0'' of Inl e \<Rightarrow> Inl e | Inr y \<Rightarrow> Inr y))"

fun try_path :: "jsval \<Rightarrow> string list \<Rightarrow> jserr + jsval" where
  "try_path v [] = Inr v"
| "try_path v (k # ks) = (case arg_prop v k of Inl e \<Rightarrow> Inl e | Inr w \<Rightarrow> try_path w ks)"

text \<open>Where each service keeps the text of its answer.\<close>

fun completion_text :: "provider \<Rightarrow> jsval \<Rightarrow> jserr + jsval" where
  "completion_text Openai response =
     (case arg_prop response ''choices'' of
        Inl e \<Rightarrow> Inl e
      | Inr choices \<Rightarrow>
          (case first_item choices of
             Inl e \<Rightarrow> Inl e
           | Inr choice \<Rightarrow> try_path choice [''message'', ''content'']))"
| "completion_text Anthropic response =
     (case arg_prop response ''content'' of
        Inl e \<Rightarrow> Inl e
      | Inr content \<Rightarrow>
          (case first_item content of
             Inl e \<Rightarrow> Inl e
           | Inr block \<Rightarrow>
               (case arg_prop block ''type'' of
                  Inl e \<Rightarrow> Inl e
                | Inr t \<Rightarrow> Inr (if t = JStr ''text'' then js_prop block ''text'' else JNull))))"
| "completion_text Gemini response =
     (case arg_prop response ''text'' of
        Inl e \<Rightarrow> Inl e
      | Inr t \<Rightarrow> Inr (if js_truthy t then t else JNull))"
| "completion_text Mock response = Inr JNull"

definition parse_reply :: "string \<Rightarrow> jserr + jsval" where
  "parse_reply content = json_parse (strip_fence (js_trim content))"

definition reply_instruction :: "provider \<Rightarrow> jsval \<Rightarrow> jserr + jsval" where
  "reply_instruction p response =
     (case completion_text p response of
        Inl e \<Rightarrow> Inl e
      | Inr content \<Rightarrow>
          if \<not> js_truthy content then Inl empty_packet
          else (case content of JStr s \<Rightarrow> parse_reply s | _ \<Rightarrow> Inl no_trim))"

definition call_tool_value :: "string \<Rightarrow> (string \<times> jsval) list \<Rightarrow> jsval" where
  "call_tool_value name args =
     JObj [(''kind'', JStr ''CALL_TOOL''), (''toolName'', JStr name), (''args'', JObj args)]"

definition mock_app :: string where
  "mock_app = join_with [newline_char]
     [''const express = require('' @ [CHR 0x27] @ ''express'' @ [CHR 0x27] @ '');'',
      ''const app = express();'',
      [],
      ''app.get('' @ [CHR 0x27, CHR ''/'', CHR 0x27] @ '', (req, res) => res.send('' @ [CHR 0x27] @
        ''Hello from OmniPaw!'' @ [CHR 0x27] @ ''));'',
      ''app.listen(3000, () => console.log('' @ [CHR 0x27] @ ''Server running...'' @ [CHR 0x27] @ ''));'']"

definition mock_readme :: string where
  "mock_readme = join_with [newline_char]
     [''# Generated by OmniPaw SWE Agent'',
      ''This workspace was autonomously configured securely.'']"

text \<open>\<open>currentContext.length || 0\<close>. The callback of the timer throws on \<open>undefined\<close> and \<open>null\<close>, and the
  promise is never settled.\<close>

definition step_count :: "jsval \<Rightarrow> jsval option" where
  "step_count context =
     (case context of
        JUndef \<Rightarrow> None
      | JNull \<Rightarrow> None
      | JArr xs \<Rightarrow> Some (jint (int (length xs)))
      | JStr s \<Rightarrow> Some (jint (int (length s)))
      | _ \<Rightarrow> let n = js_prop context ''length'' in Some (if js_truthy n then n else jint 0))"

definition mockEvaluate :: "string \<Rightarrow> jsval \<Rightarrow> jsval option" where
  "mockEvaluate goal context =
     (case step_count context of
        None \<Rightarrow> None
      | Some n \<Rightarrow> Some (
          if js_strict_eq n (jint 0)
          then call_tool_value ''host.fs.list_dir'' [(''relativePath'', JStr ''.'')]
          else if js_strict_eq n (jint 1)
          then call_tool_value ''host.fs.write_file''
                 [(''relativePath'', JStr ''app.js''), (''content'', JStr mock_app)]
          else if js_strict_eq n (jint 2)
          then call_tool_value ''host.fs.write_file''
                 [(''relativePath'', JStr ''README.md''), (''content'', JStr mock_readme)]
          else JObj [(''kind'', JStr ''RETURN''),
                 (''value'', JStr (''Final explicit deductive completion for: '' @ goal))]))"

type_synonym 'e completion = "provider \<Rightarrow> string \<Rightarrow> 'e \<Rightarrow> ('e, jsval) outcome"

definition brain_evaluate ::
  "'e completion \<Rightarrow> provider \<Rightarrow> string \<Rightarrow> jsval \<Rightarrow> 'e \<Rightarrow> 'e \<times> jsval option" where
  "brain_evaluate complete p goal context e =
     (if p = Mock then (e, mockEvaluate goal context)
      else (case context_text context of
              Inl x \<Rightarrow> (e, Some (crashed x))
            | Inr text \<Rightarrow>
                let prompt = join_with [newline_char] (prompt_lines ''Omni'' '' (memory, prior results)'' goal text)
                in (case complete p prompt e of
                      (e1, Inl x) \<Rightarrow> (e1, Some (crashed x))
                    | (e1, Inr response) \<Rightarrow>
                        (case reply_instruction p response of
                           Inl x \<Rightarrow> (e1, Some (crashed x))
                         | Inr v \<Rightarrow> (e1, Some v)))))"

section \<open>A tick round\<close>

text \<open>What \<open>runTick\<close> does with a value it is told is an instruction: the output, as an object. The
  kind is read for the telemetry before anything is checked.\<close>

definition run_tick_value :: "int \<Rightarrow> jsval \<Rightarrow> jserr + jsval" where
  "run_tick_value maxSteps v =
     (case arg_prop v ''kind'' of
        Inl e \<Rightarrow> Inl e
      | Inr kind \<Rightarrow>
          if maxSteps < 1 then Inr (output_js (FAILED ''TICK_OVERFLOW''))
          else if kind = JStr ''NOOP'' then Inr (output_js (COMPLETED JNull))
          else if kind = JStr ''RETURN'' then Inr (output_js (COMPLETED (js_prop v ''value'')))
          else if kind = JStr ''CALL_TOOL''
          then Inr (JObj [(''kind'', JStr ''PENDING_TOOL''), (''toolName'', js_prop v ''toolName''),
                 (''args'', js_prop v ''args'')])
          else if kind = JStr ''DELEGATE''
          then Inr (JObj [(''kind'', JStr ''PENDING_DELEGATION''), (''target'', js_prop v ''target''),
                 (''payload'', js_prop v ''payload'')])
          else Inr (output_js (FAILED ''UNKNOWN_INSTRUCTION'')))"

definition round_steps :: int where
  "round_steps = 10"

definition ollama_spin ::
  "'e fetch \<Rightarrow> string \<Rightarrow> string \<Rightarrow> string \<Rightarrow> jsval \<Rightarrow> 'e \<Rightarrow> ('e, jsval) outcome" where
  "ollama_spin post baseUrl model goal context e =
     (case ollama_evaluate post baseUrl model goal context e of
        (e1, Inl x) \<Rightarrow> (e1, Inl x)
      | (e1, Inr v) \<Rightarrow> (e1, run_tick_value round_steps v))"

definition brain_spin ::
  "'e completion \<Rightarrow> provider \<Rightarrow> string \<Rightarrow> jsval \<Rightarrow> 'e \<Rightarrow> 'e \<times> (jserr + jsval) option" where
  "brain_spin complete p goal context e =
     (case brain_evaluate complete p goal context e of
        (e1, None) \<Rightarrow> (e1, None)
      | (e1, Some v) \<Rightarrow> (e1, Some (run_tick_value round_steps v)))"


section \<open>Fences and blanks\<close>

definition visible :: "char \<Rightarrow> bool" where
  "visible c \<longleftrightarrow> \<not> js_blank c \<and> c \<noteq> CHR 0x60"

lemma num_char_visible: "num_char c \<Longrightarrow> visible c"
  by (auto simp: num_char_def visible_def js_blank_def is_digit_def)

lemma num_text_visible:
  assumes "is_json (JNum n)" and "wf_num n"
  shows "num_text n \<noteq> [] \<and> visible (hd (num_text n)) \<and> visible (last (num_text n))"
proof -
  have "list_all num_char (num_text n)"
    using assms show_int_num_chars by (cases n) (auto simp: num_char_def)
  moreover have "num_text n \<noteq> []" using num_text_hd [OF assms] by simp
  ultimately show ?thesis by (auto simp: list_all_iff intro: num_char_visible)
qed

lemma text_ends:
  assumes "is_json v" and "wf_js v"
  shows "text_of v \<noteq> [] \<and> visible (hd (text_of v)) \<and> visible (last (text_of v))"
proof (cases v)
  case (JNum n)
  then show ?thesis using num_text_visible [of n] assms by simp
qed (use assms in \<open>auto simp: visible_def js_blank_def quote_def text_of_def\<close>)

lemma js_trim_pad:
  assumes "list_all js_blank a" "list_all js_blank b"
    and "s \<noteq> []" "\<not> js_blank (hd s)" "\<not> js_blank (last s)"
  shows "js_trim (a @ s @ b) = s"
proof -
  have "dropWhile js_blank (a @ s @ b) = s @ b"
    using assms by (cases s) (auto simp: dropWhile_append list_all_iff)
  moreover have "dropWhile js_blank (rev b @ rev s) = rev s"
    using assms by (cases s rule: rev_cases) (auto simp: dropWhile_append list_all_iff)
  ultimately show ?thesis by (simp add: js_trim_def)
qed

lemma strip_plain: "s \<noteq> [] \<Longrightarrow> hd s \<noteq> CHR 0x60 \<Longrightarrow> strip_fence s = s"
  by (cases s) (simp_all add: strip_fence_def ticks_def)

definition fenced :: "string \<Rightarrow> string \<Rightarrow> string" where
  "fenced tag s = ticks @ tag @ [newline_char] @ s @ [newline_char] @ ticks"

lemma drop_end_same: "drop_end p (s @ p) = s"
  by (simp add: drop_end_def suffix_def)

lemma strip_fenced: "strip_fence (fenced ''json'' s) = s" "strip_fence (fenced [] s) = s"
  using drop_end_same [of "newline_char # ticks" s]
  by (simp_all add: strip_fence_def fenced_def drop_start_def ticks_def newline_char_def)

lemma fenced_ends: "fenced tag s \<noteq> []" "\<not> js_blank (hd (fenced tag s))" "\<not> js_blank (last (fenced tag s))"
  by (simp_all add: fenced_def ticks_def js_blank_def)

text \<open>A model that answers in JSON is understood: a value printed as JSON, bare or in a code fence
  with or without a language tag, and with blanks around it, is what both adapters read.\<close>

theorem reply_roundtrip:
  assumes "is_json v" "wf_js v" and "list_all js_blank a" "list_all js_blank b"
    and "body \<in> {text_of v, fenced ''json'' (text_of v), fenced [] (text_of v)}"
  shows "parse_reply (a @ body @ b) = Inr v \<and> parseBrokenJson (a @ body @ b) = v"
proof -
  have ends: "text_of v \<noteq> []" "\<not> js_blank (hd (text_of v))" "hd (text_of v) \<noteq> CHR 0x60"
    "\<not> js_blank (last (text_of v))"
    using text_ends [OF assms(1,2)] by (simp_all add: visible_def)
  have "js_trim (a @ body @ b) = body"
    using assms(3-5) ends fenced_ends fenced_ends(1) [THEN not_sym] by (intro js_trim_pad) auto
  moreover have "strip_fence body = text_of v"
    using assms(5) strip_fenced strip_plain [OF ends(1,3)] by auto
  moreover have "json_parse (text_of v) = Inr v"
    using parse_json_text [OF assms(1,2)] json_text_is_json [OF assms(1)] by simp
  ultimately show ?thesis by (simp add: parse_reply_def parseBrokenJson_def)
qed

theorem reply_roundtrip_witness:
  "parseBrokenJson ('' '' @ fenced ''json'' (text_of noop_value) @ '' '') = noop_value"
  using reply_roundtrip [of noop_value "'' ''" "'' ''" "fenced ''json'' (text_of noop_value)"]
  by (simp add: noop_value_def js_blank_def)

section \<open>Recovery\<close>

lemma match_end [simp]: "match_here [Maybe c] s cap = Some cap"
  by (cases s) simp_all

lemma longest_first_Cons: "lo \<le> hi \<Longrightarrow> longest_first lo hi = hi # rev [lo..<hi]"
  by (simp add: longest_first_def)

lemma match_blanks:
  "list_all js_blank b \<Longrightarrow> s = [] \<or> \<not> js_blank (hd s) \<Longrightarrow> match_here re s cap = Some x \<Longrightarrow>
   match_here (Blanks # re) (b @ s) cap = Some x"
  by (cases s) (simp_all add: longest_first_Cons takeWhile_all takeWhile_append list_all_iff)

lemma match_hit:
  "match_here re s cap = Some x \<Longrightarrow> match_here (Maybe c # re) (c # s) cap = Some x"
  "match_here re s cap = Some x \<Longrightarrow> match_here (Lit l # re) (l @ s) cap = Some x"
  by simp_all

lemma match_capture:
  "text \<noteq> [] \<Longrightarrow> list_all p text \<Longrightarrow> \<not> p c \<Longrightarrow>
   match_here [Capture p, Maybe d] (text @ c # rest) cap = Some text"
  by (simp add: longest_first_Cons takeWhile_append list_all_iff Suc_le_eq)

declare match_here.simps [simp del]

lemma not_blank: "\<not> js_blank dq" "\<not> js_blank (CHR '':'')"
  by (simp_all add: js_blank_def dq_def)

lemma match_field:
  assumes "list_all js_blank b" "list_all js_blank d" "text \<noteq> []" "list_all class text" "\<not> class dq"
  shows "match_here (field_re name class) (dq # name @ dq # b @ '':'' @ d @ dq # text @ dq # rest) [] = Some text"
proof -
  have "match_here [Maybe dq, Capture class, Maybe dq] (dq # text @ dq # rest) [] = Some text"
    by (intro match_hit match_capture assms(3-5))
  then have "match_here [Blanks, Maybe dq, Capture class, Maybe dq] (d @ dq # text @ dq # rest) [] = Some text"
    by (rule match_blanks [OF assms(2), rotated]) (simp add: not_blank)
  then have "match_here [Lit '':'', Blanks, Maybe dq, Capture class, Maybe dq]
      ('':'' @ d @ dq # text @ dq # rest) [] = Some text"
    by (rule match_hit)
  then have "match_here [Blanks, Lit '':'', Blanks, Maybe dq, Capture class, Maybe dq]
      (b @ '':'' @ d @ dq # text @ dq # rest) [] = Some text"
    by (rule match_blanks [OF assms(1), rotated]) (simp add: not_blank)
  then show ?thesis
    unfolding field_re_def by (intro match_hit)
qed

lemma search_skip:
  assumes "name \<noteq> []" "list_all (\<lambda>c. c \<noteq> dq \<and> c \<noteq> hd name) xs"
  shows "re_search (field_re name class) (xs @ s) = re_search (field_re name class) s"
  using assms(2)
proof (induction xs)
  case (Cons c xs)
  then have "match_here (field_re name class) (c # xs @ s) [] = None"
    using assms(1) by (cases name) (auto simp: field_re_def match_here.simps(2,3))
  then show ?case using Cons by (simp add: re_search.simps [of _ "c # xs @ s"])
qed simp

lemma search_skip_quote:
  assumes "name \<noteq> []" "hd name \<noteq> dq" "\<not> prefix name s"
  shows "re_search (field_re name class) (dq # s) = re_search (field_re name class) s"
proof -
  have "match_here (field_re name class) (dq # s) [] = None"
    using assms by (cases name) (auto simp: field_re_def match_here.simps(2,3))
  then show ?thesis by (simp add: re_search.simps [of _ "dq # s"])
qed

lemma search_hit:
  assumes "list_all js_blank b" "list_all js_blank d" "text \<noteq> []" "list_all class text" "\<not> class dq"
  shows "re_search (field_re name class) (dq # name @ dq # b @ '':'' @ d @ dq # text @ dq # rest) = Some text"
  by (subst re_search.simps) (simp only: match_field [OF assms] option.case)


text \<open>The beginning of a tool call as models write it, with blanks between the tokens, up to the end of
  the name of the tool.\<close>

definition call_start :: "string \<Rightarrow> string \<Rightarrow> string \<Rightarrow> string" where
  "call_start b d name =
     ''{'' @ d @ dq # ''kind'' @ dq # b @ '':'' @ d @ dq # ''CALL_TOOL'' @ dq # '','' @ d @
     dq # ''toolName'' @ dq # b @ '':'' @ d @ dq # name @ [dq]"

lemma blank_skip:
  assumes "list_all js_blank b"
  shows "c \<noteq> dq \<Longrightarrow> c \<noteq> CHR ''k'' \<Longrightarrow> list_all (\<lambda>c. c \<noteq> dq \<and> c \<noteq> CHR ''k'') (c # b)"
    and "c \<noteq> dq \<Longrightarrow> c \<noteq> CHR ''t'' \<Longrightarrow> list_all (\<lambda>c. c \<noteq> dq \<and> c \<noteq> CHR ''t'') (c # b)"
  using assms by (auto simp: list_all_iff js_blank_def dq_def)

lemma call_start_kind:
  assumes "list_all js_blank b" "list_all js_blank d"
  shows "re_search (field_re ''kind'' kind_char) (call_start b d name @ rest) = Some ''CALL_TOOL''"
proof -
  have "list_all kind_char ''CALL_TOOL''" "\<not> kind_char dq"
    by (simp_all add: kind_char_def dq_def)
  then show ?thesis
    using search_skip [of "''kind''" "''{'' @ d" kind_char] blank_skip(1) [OF assms(2), of "CHR ''{''"]
      search_hit [OF assms, of "''CALL_TOOL''" kind_char "''kind''"]
    by (simp add: call_start_def dq_def)
qed

lemma call_start_name:
  assumes b: "list_all js_blank b" "list_all js_blank d" and name: "name \<noteq> []" "dq \<notin> set name"
  shows "re_search (field_re ''toolName'' (\<lambda>c. c \<noteq> dq)) (call_start b d name @ rest) = Some name"
proof -
  let ?re = "field_re ''toolName'' (\<lambda>c. c \<noteq> dq)"
  define tail3 where "tail3 = dq # ''toolName'' @ dq # b @ '':'' @ d @ dq # name @ dq # rest"
  define tail2 where "tail2 = dq # ''CALL_TOOL'' @ dq # '','' @ d @ tail3"
  define tail1 where "tail1 = dq # b @ '':'' @ d @ tail2"
  note skip = search_skip [of "''toolName''" _ "\<lambda>c. c \<noteq> dq", simplified]
  note skip_quote = search_skip_quote [of "''toolName''" _ "\<lambda>c. c \<noteq> dq", simplified]
  have "re_search ?re tail3 = Some name"
    unfolding tail3_def by (rule search_hit) (use assms in \<open>auto simp: list_all_iff\<close>)
  moreover have "re_search ?re tail2 = re_search ?re tail3"
    using skip [of "'','' @ d" tail3] skip [of "''CALL_TOOL''" "dq # '','' @ d @ tail3"]
      skip_quote [of "''CALL_TOOL'' @ dq # '','' @ d @ tail3"] skip_quote [of "'','' @ d @ tail3"]
      blank_skip(2) [OF b(2), of "CHR '',''"]
    by (simp add: tail2_def dq_def)
  moreover have "\<not> prefix ''toolName'' (b @ '':'' @ d @ tail2)"
    using b(1) by (cases b) (auto simp: js_blank_def)
  then have "re_search ?re tail1 = re_search ?re tail2"
    using skip [of "b" "'':'' @ d @ tail2"] skip [of "'':'' @ d" tail2] skip_quote [of "b @ '':'' @ d @ tail2"]
      blank_skip(2) [OF b(1), of "CHR '':''"] blank_skip(2) [OF b(2), of "CHR '':''"]
    by (simp add: tail1_def dq_def)
  moreover have "re_search ?re (''{'' @ d @ dq # ''kind'' @ tail1) = re_search ?re tail1"
    using skip [of "''{'' @ d" "dq # ''kind'' @ tail1"] skip [of "''kind''" tail1] skip_quote [of "''kind'' @ tail1"]
      blank_skip(2) [OF b(2), of "CHR ''{''"]
    by (simp add: dq_def)
  moreover have "call_start b d name @ rest = ''{'' @ d @ dq # ''kind'' @ tail1"
    by (simp add: call_start_def tail1_def tail2_def tail3_def)
  ultimately show ?thesis by (simp only:)
qed

lemma js_trim_front:
  assumes "p \<noteq> []" "\<not> js_blank (hd p)" "\<not> js_blank (last p)"
  shows "\<exists>r'. js_trim (p @ r) = p @ r'"
proof -
  have "dropWhile js_blank (p @ r) = p @ r"
    using assms by (cases p) auto
  moreover have "\<exists>q. dropWhile js_blank (rev r @ rev p) = q @ rev p"
    using assms by (cases p rule: rev_cases) (auto simp: dropWhile_append)
  ultimately show ?thesis
    by (auto simp: js_trim_def)
qed

text \<open>A reply that was cut short still names its tool. If the text of a tool call breaks off, or
  goes wrong, anywhere after the name of the tool, so that it is no JSON, the local adapter reads
  it as a call of that tool with no arguments.\<close>

theorem truncated_call_recovered:
  assumes "list_all js_blank b" "list_all js_blank d" "name \<noteq> []" "dq \<notin> set name"
    and "json_parse (js_trim (call_start b d name @ rest)) = Inl err"
  shows "parseBrokenJson (call_start b d name @ rest) = instruction_js (CALL_TOOL name (JObj []))"
proof -
  let ?p = "call_start b d name"
  have "?p \<noteq> []" "\<not> js_blank (hd ?p)" "\<not> js_blank (last ?p)"
    by (simp_all add: call_start_def js_blank_def dq_def)
  from js_trim_front [OF this] obtain r' where r': "js_trim (?p @ rest) = ?p @ r'" by blast
  have "strip_fence (?p @ r') = ?p @ r'"
    by (rule strip_plain) (simp_all add: call_start_def)
  then show ?thesis
    using assms(5) r' call_start_kind [OF assms(1,2), of name r'] call_start_name [OF assms(1-4), of r']
    by (simp add: parseBrokenJson_def recover_instruction_def)
qed

theorem truncated_call_recovered_witness:
  "parseBrokenJson (call_start [] '' '' ''fs'' @ '', '') = instruction_js (CALL_TOOL ''fs'' (JObj []))"
proof -
  have "js_trim (call_start [] '' '' ''fs'' @ '', '') = call_start [] '' '' ''fs'' @ '',''"
    by (simp add: js_trim_def call_start_def js_blank_def dq_def)
  moreover have "json_parse (call_start [] '' '' ''fs'' @ '','') =
      Inl (JsErr ''SyntaxError'' ''Unexpected token in JSON'')"
    by code_simp
  ultimately show ?thesis
    using truncated_call_recovered [of "[]" "'' ''" "''fs''" "'', ''"] by (simp add: js_blank_def dq_def)
qed


section \<open>What a tick round comes to\<close>

definition proper_kind :: "instruction \<Rightarrow> bool" where
  "proper_kind i \<longleftrightarrow> (\<forall>k. i = OtherInstruction k \<longrightarrow> k \<notin> {''NOOP'', ''RETURN'', ''CALL_TOOL'', ''DELEGATE''})"

lemma run_tick_value_typed:
  assumes "proper_kind (ti_instruction i)"
  shows "run_tick_value (ti_maxSteps i) (instruction_js (ti_instruction i)) = Inr (output_js (run_tick i))"
  using assms by (cases "ti_instruction i") (simp_all add: run_tick_value_def run_tick_def arg_prop_def proper_kind_def)

lemma recover_instruction_cases:
  obtains i where "recover_instruction s = instruction_js i"
    and "i = NOOP \<or> (\<exists>n. i = CALL_TOOL n (JObj [])) \<or> (\<exists>t. i = RETURN (JStr t))"
proof (cases "re_search (field_re ''kind'' kind_char) s")
  case None
  then show thesis by (intro that [of NOOP]) (simp_all add: recover_instruction_def noop_value_def)
next
  case (Some k)
  let ?name = "case re_search (field_re ''toolName'' (\<lambda>c. c \<noteq> dq)) s of Some name \<Rightarrow> name | None \<Rightarrow> ''unknown''"
  let ?text = "case re_search (field_re ''value'' (\<lambda>c. c \<noteq> dq)) s of Some text \<Rightarrow> text | None \<Rightarrow> []"
  consider "k = ''CALL_TOOL''" | "k = ''RETURN''" | "k \<noteq> ''CALL_TOOL''" "k \<noteq> ''RETURN''" by blast
  then show thesis
  proof cases
    case 1
    then show thesis using Some
      by (intro that [of "CALL_TOOL ?name (JObj [])"]) (simp_all add: recover_instruction_def)
  next
    case 2
    then show thesis using Some by (intro that [of "RETURN (JStr ?text)"]) (simp_all add: recover_instruction_def)
  next
    case 3
    then show thesis using Some
      by (intro that [of NOOP]) (simp_all add: recover_instruction_def noop_value_def)
  qed
qed

text \<open>C37: The local adapter types what it is given. A reply that is JSON is passed on as it is; any other
  reply becomes one of three well-formed instructions, on which a tick on the raw value and a tick
  on the typed instruction have the same output: a completion or a pending tool call, never a
  failure.\<close>

theorem broken_reply_is_instruction:
  "case json_parse (strip_fence (js_trim s)) of
     Inr v \<Rightarrow> parseBrokenJson s = v
   | Inl err \<Rightarrow> \<exists>i. parseBrokenJson s = instruction_js i \<and>
       (i = NOOP \<or> (\<exists>n. i = CALL_TOOL n (JObj [])) \<or> (\<exists>t. i = RETURN (JStr t))) \<and>
       run_tick_value round_steps (parseBrokenJson s) =
         Inr (output_js (run_tick \<lparr>ti_agentId = a, ti_sequenceNumber = n, ti_instruction = i,
                                   ti_maxSteps = round_steps\<rparr>)) \<and>
       (\<forall>e. run_tick \<lparr>ti_agentId = a, ti_sequenceNumber = n, ti_instruction = i,
              ti_maxSteps = round_steps\<rparr> \<noteq> FAILED e)"
proof (cases "json_parse (strip_fence (js_trim s))")
  case (Inl err)
  obtain i where i: "parseBrokenJson s = instruction_js i"
    "i = NOOP \<or> (\<exists>n. i = CALL_TOOL n (JObj [])) \<or> (\<exists>t. i = RETURN (JStr t))"
    using recover_instruction_cases [of "strip_fence (js_trim s)"] Inl by (auto simp: parseBrokenJson_def Let_def)
  let ?t = "\<lparr>ti_agentId = a, ti_sequenceNumber = n, ti_instruction = i, ti_maxSteps = round_steps\<rparr>"
  have "proper_kind i" using i(2) by (auto simp: proper_kind_def)
  then have "run_tick_value round_steps (parseBrokenJson s) = Inr (output_js (run_tick ?t))"
    using run_tick_value_typed [of ?t] i(1) by simp
  moreover have "run_tick ?t \<noteq> FAILED e" for e
    using i(2) by (auto simp: run_tick_def round_steps_def)
  ultimately show ?thesis using Inl i by auto
qed (simp add: parseBrokenJson_def)

lemma run_tick_value_ok: "v \<noteq> JUndef \<Longrightarrow> v \<noteq> JNull \<Longrightarrow> \<exists>w. run_tick_value n v = Inr w"
  by (simp add: run_tick_value_def arg_prop_def)

lemma crashed_ok [simp]: "\<exists>w. run_tick_value n (crashed x) = Inr w"
  by (rule run_tick_value_ok) (simp_all add: crashed_def)

lemma json_parse_defined: "json_parse s = Inr v \<Longrightarrow> v \<noteq> JUndef"
proof -
  have "parse_value f s = Some (v, r) \<Longrightarrow> v \<noteq> JUndef" for f r
    by (cases f) (auto simp: parse_num_def Let_def split: list.splits if_splits)
  then show "json_parse s = Inr v \<Longrightarrow> ?thesis"
    by (auto simp: json_parse_def simp del: parse_value.simps split: option.splits if_splits prod.splits)
qed

lemma reply_instruction_defined: "reply_instruction p r = Inr v \<Longrightarrow> v \<noteq> JUndef"
  by (auto simp: reply_instruction_def parse_reply_def dest: json_parse_defined
      split: sum.splits if_splits jsval.splits)

text \<open>What a service makes of a round: the instruction of its reply, or the error on the way to it.\<close>

definition service_outcome ::
  "(provider \<Rightarrow> string \<Rightarrow> 'e \<Rightarrow> ('e, jsval) outcome) \<Rightarrow> provider \<Rightarrow> string \<Rightarrow> jsval \<Rightarrow> 'e \<Rightarrow> jserr + jsval" where
  "service_outcome complete p goal context e =
     (case context_text context of
        Inl x \<Rightarrow> Inl x
      | Inr text \<Rightarrow>
          (case snd (complete p (join_with [newline_char] (prompt_lines ''Omni'' '' (memory, prior results)'' goal text)) e) of
             Inl x \<Rightarrow> Inl x
           | Inr response \<Rightarrow> reply_instruction p response))"

lemma brain_spin_service:
  "p \<noteq> Mock \<Longrightarrow> snd (brain_spin complete p goal context e) =
     Some (run_tick_value round_steps (case service_outcome complete p goal context e of Inl x \<Rightarrow> crashed x | Inr v \<Rightarrow> v))"
  by (simp add: brain_spin_def brain_evaluate_def service_outcome_def Let_def split: sum.split prod.split)

lemma service_defined: "service_outcome complete p goal context e = Inr v \<Longrightarrow> v \<noteq> JUndef"
  by (auto simp: service_outcome_def dest: reply_instruction_defined split: sum.splits)

lemma run_tick_value_throws: "v \<noteq> JUndef \<Longrightarrow> (\<exists>x. run_tick_value n v = Inl x) \<longleftrightarrow> v = JNull"
  using run_tick_value_ok [of v n] by (cases "v = JNull") (auto simp: run_tick_value_def arg_prop_def)

lemma crashed_completes:
  "run_tick_value round_steps (crashed x) = Inr (output_js (COMPLETED (JStr
     (''KERNEL_PANIC: LLM evaluation crashed determining target Instruction mapping: '' @ err_message x))))"
  by (simp add: run_tick_value_def crashed_def arg_prop_def round_steps_def)

lemma brain_spin_mock:
  "(snd (brain_spin complete Mock goal context e) = None \<longleftrightarrow> context = JUndef \<or> context = JNull) \<and>
   (\<nexists>x. snd (brain_spin complete Mock goal context e) = Some (Inl x))"
proof -
  have "mockEvaluate goal context = None \<longleftrightarrow> context = JUndef \<or> context = JNull"
    by (cases "context") (simp_all add: mockEvaluate_def step_count_def Let_def)
  moreover have "\<exists>w. run_tick_value round_steps v = Inr w" if "mockEvaluate goal context = Some v" for v
    by (rule run_tick_value_ok) (use that in \<open>auto simp: mockEvaluate_def call_tool_value_def split: option.splits if_splits\<close>)
  ultimately show ?thesis
    by (cases "mockEvaluate goal context") (force simp: brain_spin_def brain_evaluate_def)+
qed

text \<open>Every outcome of a tick round of the hosted adapter. It never settles only for the mock without
  a context. It throws only when a service replies with the text \<open>null\<close>, which passes the adapter
  as an instruction and makes the tick engine throw. Otherwise it gives an output; in particular
  a service that fails, replies nothing or replies no JSON ends in a completion that carries the
  error.\<close>

theorem brain_round_outcomes:
  "(snd (brain_spin complete p goal context e) = None \<longleftrightarrow> p = Mock \<and> (context = JUndef \<or> context = JNull)) \<and>
   ((\<exists>x. snd (brain_spin complete p goal context e) = Some (Inl x)) \<longleftrightarrow>
      p \<noteq> Mock \<and> service_outcome complete p goal context e = Inr JNull) \<and>
   (\<forall>x. p \<noteq> Mock \<and> service_outcome complete p goal context e = Inl x \<longrightarrow>
      snd (brain_spin complete p goal context e) =
        Some (Inr (output_js (COMPLETED (JStr
          (''KERNEL_PANIC: LLM evaluation crashed determining target Instruction mapping: '' @ err_message x))))))"
proof (cases "p = Mock")
  case True
  then show ?thesis using brain_spin_mock [of complete goal "context" e] by simp
next
  case False
  then show ?thesis
    using run_tick_value_throws [OF service_defined, of complete p goal "context" e _ round_steps]
    by (cases "service_outcome complete p goal context e") (simp_all add: brain_spin_service crashed_completes)
qed

theorem brain_round_outcomes_witness:
  "(\<exists>x. snd (brain_spin (\<lambda>p s e. (e, Inr (JObj [(''text'', JStr ''null'')]))) Gemini ''g'' (JArr []) (0 :: int)) = Some (Inl x)) \<and>
   snd (brain_spin (\<lambda>p s e. (e, Inl (Error ''down''))) Gemini ''g'' (JArr []) (0 :: int)) =
     Some (Inr (output_js (COMPLETED (JStr
       ''KERNEL_PANIC: LLM evaluation crashed determining target Instruction mapping: down''))))"
proof -
  have ctx: "context_text (JArr []) = Inr ''[]''"
    by (simp add: context_text_def)
  have "json_parse (strip_fence (js_trim ''null'')) = Inr JNull" by code_simp
  then have "reply_instruction Gemini (JObj [(''text'', JStr ''null'')]) = Inr JNull"
    by (simp add: reply_instruction_def arg_prop_def js_truthy_def parse_reply_def)
  with ctx show ?thesis
    using brain_round_outcomes [of "\<lambda>p s e. (e, Inr (JObj [(''text'', JStr ''null'')]))" Gemini "''g''" "JArr []" "0 :: int"]
      brain_round_outcomes [of "\<lambda>p s e. (e, Inl (Error ''down''))" Gemini "''g''" "JArr []" "0 :: int"]
    by (simp add: service_outcome_def)
qed

text \<open>The output of the mock after a number of results.\<close>

definition mock_output :: "string \<Rightarrow> nat \<Rightarrow> tick_output" where
  "mock_output goal n =
     (if n = 0 then PENDING_TOOL ''host.fs.list_dir'' (JObj [(''relativePath'', JStr ''.'')])
      else if n = 1
      then PENDING_TOOL ''host.fs.write_file'' (JObj [(''relativePath'', JStr ''app.js''), (''content'', JStr mock_app)])
      else if n = 2
      then PENDING_TOOL ''host.fs.write_file'' (JObj [(''relativePath'', JStr ''README.md''), (''content'', JStr mock_readme)])
      else COMPLETED (JStr (''Final explicit deductive completion for: '' @ goal)))"

lemma mock_spin:
  "brain_spin complete Mock goal (JArr results) e = (e, Some (Inr (output_js (mock_output goal (length results)))))"
  by (simp add: brain_spin_def brain_evaluate_def mockEvaluate_def step_count_def call_tool_value_def
      run_tick_value_def arg_prop_def round_steps_def mock_output_def)

text \<open>An agent without keys makes exactly three tool calls and then returns, whatever the tools answered
  and without any request to a service: in every round the output depends only on the number of
  results, and the environment of the services is left alone.\<close>

theorem mock_agent_script:
  "brain_spin complete (activeProvider None (Some []) (Some ''your_api_key'')) goal (JArr results) e =
     (e, Some (Inr (output_js (mock_output goal (length results))))) \<and>
   (length results < 3 \<longleftrightarrow> (\<exists>name args. mock_output goal (length results) = PENDING_TOOL name args))"
proof -
  have "activeProvider None (Some []) (Some ''your_api_key'') = Mock"
    by (simp add: activeProvider_def usable_key_def str_includes_def)
  moreover have "n < 3 \<longleftrightarrow> (\<exists>name args. mock_output goal n = PENDING_TOOL name args)" for n
    by (auto simp: mock_output_def)
  ultimately show ?thesis using mock_spin [of complete goal results e] by simp
qed

end
