(* ===== verification/SweAgent.thy ===== *)
theory SweAgent
  imports SwarmScript Brain Replay
begin

text \<open>
  The engineer agent of host/agents/swe.ts: rounds of a language model and the file tools, with the
  outputs kept in tick memory. The services the brain calls and the file system act on one
  environment; a tool name that is no string is turned into one. Delays and console output are
  left out.
\<close>

section \<open>The application\<close>

definition SWE_ID :: string where
  "SWE_ID = ''swe-agent-1''"

definition SWE_GOAL :: string where
  "SWE_GOAL = ''Inspect the directory. Replace the content of README.md with a greeting formatted explicitly in Markdown. '' @
     ''Then, create a new file named `app.js` and write a simple Express.js server script into it.''"

record 'e swe =
  swe_host :: host
  swe_env :: 'e

definition tool_handler :: "'e host_tool \<Rightarrow> 'e handler" where
  "tool_handler tool args ew =
     (let (e, w) = ew; (e1, r) = tool SWE_ID args e in ((e1, w), Inr (tool_result_js r)))"

definition swe_handlers :: "'e fs_ops \<Rightarrow> string \<Rightarrow> string \<Rightarrow> 'e handlers" where
  "swe_handlers ops cwd sandboxDir =
     [(mf_name (fst (createReadTool ops cwd sandboxDir :: manifest \<times> 'e reg_handler)), tool_handler (read_tool ops cwd sandboxDir)),
      (mf_name (fst (createWriteTool ops cwd sandboxDir :: manifest \<times> 'e reg_handler)), tool_handler (write_tool ops cwd sandboxDir)),
      (mf_name (fst (createListDirTool ops cwd sandboxDir :: manifest \<times> 'e reg_handler)), tool_handler (list_tool ops cwd sandboxDir))]"

definition provision :: "'e fs_ops \<Rightarrow> string \<Rightarrow> 'e \<Rightarrow> ('e, unit) outcome" where
  "provision ops sandboxDir e =
     (case (if \<not> fs_exists ops sandboxDir e then mkdir_recursive ops sandboxDir e else (e, Inr ())) of
        (e1, Inl x) \<Rightarrow> (e1, Inl x)
      | (e1, Inr _) \<Rightarrow> fs_write ops (path_join sandboxDir ''README.md'') ''# Empty Workspace'' e1)"

definition swe_boot :: "world \<Rightarrow> 'e \<Rightarrow> ('e swe, unit) outcome" where
  "swe_boot w e =
     (case run_steps [host_register SWE_ID ''engineer'', host_transition SWE_ID T_spawn,
                      host_transition SWE_ID T_activate] (new_host w) of
        (h, r) \<Rightarrow>
          (let k = h_kernel h;
               k1 = (if is_ok r then k\<lparr>k_ephemeral := fst (eph_init SWE_ID 1 (k_ephemeral k))\<rparr> else k)
           in (\<lparr>swe_host = h\<lparr>h_kernel := k1\<rparr>, swe_env = e\<rparr>, r)))"

definition memory_handle :: string where
  "memory_handle = SWE_ID @ '':1''"

definition history_of :: "jsval \<Rightarrow> jsval list" where
  "history_of raw = (case raw of JArr xs \<Rightarrow> xs | _ \<Rightarrow> [])"

definition swe_gate ::
  "'e handlers \<Rightarrow> int \<Rightarrow> string \<Rightarrow> jsval \<Rightarrow> 'e swe \<Rightarrow> ('e swe, jsval) outcome" where
  "swe_gate hs n name args s =
     (let h = swe_host s; k = h_kernel h;
          ((e, w), r) = gate_execute hs LIVE SWE_ID n name args (swe_env s, k_world k)
      in (s\<lparr>swe_host := h\<lparr>h_kernel := k\<lparr>k_world := w\<rparr>\<rparr>, swe_env := e\<rparr>, r))"

text \<open>A pending tool is announced and called; an error of the call is only printed.\<close>

definition swe_tool :: "'e handlers \<Rightarrow> int \<Rightarrow> jsval \<Rightarrow> 'e swe \<Rightarrow> ('e swe, unit) outcome" where
  "swe_tool hs n out s =
     (if js_prop out ''kind'' = JStr ''PENDING_TOOL''
      then
        let name = js_string (js_prop out ''toolName'') in
        (case host_emit (TOOL_CALL_REQUESTED SWE_ID name) (swe_host s) of
           (h, Inl x) \<Rightarrow> (s\<lparr>swe_host := h\<rparr>, Inl x)
         | (h, Inr _) \<Rightarrow> (fst (swe_gate hs n name (js_prop out ''args'') (s\<lparr>swe_host := h\<rparr>)), Inr ()))
      else (s, Inr ()))"

definition swe_remember :: "int \<Rightarrow> jsval list \<Rightarrow> jsval \<Rightarrow> 'e swe \<Rightarrow> ('e swe, unit) outcome" where
  "swe_remember n history out s =
     (case json_clone out of
        Inl x \<Rightarrow> (s, Inl x)
      | Inr copy \<Rightarrow>
          let k = h_kernel (swe_host s);
              (eph, r) = eph_write memory_handle ''tick_memory''
                (JArr (history @ [JObj [(''tick'', jint n), (''output'', copy)]])) (k_ephemeral k)
          in (s\<lparr>swe_host := (swe_host s)\<lparr>h_kernel := k\<lparr>k_ephemeral := eph\<rparr>\<rparr>\<rparr>, r))"

text \<open>How a round leaves the loop, if it does.\<close>

datatype swe_exit = Again | Crashed jserr | Terminated | Capped | Waiting

definition swe_round ::
  "'e completion \<Rightarrow> provider \<Rightarrow> 'e handlers \<Rightarrow> int \<Rightarrow> 'e swe \<Rightarrow> 'e swe \<times> swe_exit" where
  "swe_round complete p hs n s =
     (case eph_read memory_handle ''tick_memory'' (k_ephemeral (h_kernel (swe_host s))) of
        Inl x \<Rightarrow> (s, Crashed x)
      | Inr raw \<Rightarrow>
          (case brain_spin complete p SWE_GOAL (JArr (history_of raw)) (swe_env s) of
             (e, None) \<Rightarrow> (s\<lparr>swe_env := e\<rparr>, Waiting)
           | (e, Some (Inl x)) \<Rightarrow> (s\<lparr>swe_env := e\<rparr>, Crashed x)
           | (e, Some (Inr out)) \<Rightarrow>
               (case swe_tool hs n out (s\<lparr>swe_env := e\<rparr>) of
                  (s1, Inl x) \<Rightarrow> (s1, Crashed x)
                | (s1, Inr _) \<Rightarrow>
                    (case swe_remember n (history_of raw) out s1 of
                       (s2, Inl x) \<Rightarrow> (s2, Crashed x)
                     | (s2, Inr _) \<Rightarrow>
                         (s2, if getState (k_lifecycle (h_kernel (swe_host s2))) SWE_ID = TERMINATED
                              then Terminated else Again)))))"

function swe_loop ::
  "'e completion \<Rightarrow> provider \<Rightarrow> 'e handlers \<Rightarrow> int \<Rightarrow> 'e swe \<Rightarrow> 'e swe \<times> swe_exit" where
  "swe_loop complete p hs tickCounter s =
     (if tickCounter < 15
      then (case swe_round complete p hs tickCounter s of
              (s1, Again) \<Rightarrow> swe_loop complete p hs (tickCounter + 1) s1
            | (s1, x) \<Rightarrow> (s1, x))
      else (s, Capped))"
  by pat_completeness auto
termination by (relation "measure (\<lambda>(complete, p, hs, n, s). nat (15 - n))") auto

declare swe_loop.simps [simp del]

definition bootstrapSWE ::
  "'e completion \<Rightarrow> provider \<Rightarrow> 'e fs_ops \<Rightarrow> string \<Rightarrow> string \<Rightarrow> world \<Rightarrow> 'e \<Rightarrow> 'e swe \<times> swe_exit" where
  "bootstrapSWE complete p ops cwd sandboxDir w e =
     (case provision ops sandboxDir e of
        (e1, Inl x) \<Rightarrow> (\<lparr>swe_host = new_host w, swe_env = e1\<rparr>, Crashed x)
      | (e1, Inr _) \<Rightarrow>
          (case swe_boot w e1 of
             (s, Inl x) \<Rightarrow> (s, Crashed x)
           | (s, Inr _) \<Rightarrow> swe_loop complete p (swe_handlers ops cwd sandboxDir) 1 s))"

section \<open>Rounds of the mock\<close>

definition swe_at :: "jsval list \<Rightarrow> 'e swe \<Rightarrow> bool" where
  "swe_at hist s \<longleftrightarrow>
     (let k = h_kernel (swe_host s) in
      (\<exists>r. active_cell (k_ephemeral k) SWE_ID (Some 1) = Some r \<and>
           rec_get r ''tick_memory'' = (if hist = [] then JUndef else JArr hist)) \<and>
      list_all is_json hist \<and> getState (k_lifecycle k) SWE_ID = ACTIVE \<and> clock_ok (k_world k))"

lemma parse_memory_handle: "parseHandle memory_handle = Inr (SWE_ID, Some 1)"
  by code_simp

lemma swe_at_read:
  "swe_at hist s \<Longrightarrow>
   \<exists>raw. eph_read memory_handle ''tick_memory'' (k_ephemeral (h_kernel (swe_host s))) = Inr raw \<and> history_of raw = hist"
  by (auto simp: swe_at_def eph_read_def parse_memory_handle history_of_def list_all_iff Let_def)

lemma swe_at_env: "swe_at hist (s\<lparr>swe_env := e\<rparr>) \<longleftrightarrow> swe_at hist s"
  by (simp add: swe_at_def)

lemma swe_at_remember:
  assumes "swe_at hist s" and "is_json out"
  shows "\<exists>s'. swe_remember n hist out s = (s', Inr ()) \<and>
    swe_at (hist @ [JObj [(''tick'', jint n), (''output'', out)]]) s'"
proof -
  let ?new = "hist @ [JObj [(''tick'', jint n), (''output'', out)]]"
  obtain r where r: "cell (memoryMap (k_ephemeral (h_kernel (swe_host s)))) SWE_ID 1 = Some r"
    using assms(1) by (auto simp: swe_at_def active_cell_def Let_def)
  have j: "is_json (JArr ?new)" "list_all is_json ?new"
    using assms by (auto simp: swe_at_def list_all_iff Let_def)
  have k: "''tick_memory'' \<noteq> proto_key" by (simp add: proto_key_def)
  have "json_clone out = Inr out" "json_clone (JArr ?new) = Inr (JArr ?new)"
    using assms(2) j(1) by (simp_all only: json_clone_json)
  then show ?thesis
    using r assms(1) j(2) rec_get_put_same [OF k]
    by (simp add: swe_remember_def eph_write_def parse_memory_handle active_cell_def swe_at_def Let_def)
qed

lemma swe_gate_keeps:
  assumes "swe_at hist s"
  shows "swe_at hist (fst (swe_gate (swe_handlers ops cwd dir) n name args s))"
proof -
  have same: "snd (fst (call_handler (swe_handlers ops cwd dir) name args ew)) = snd ew" for ew
  proof (cases "handler_lookup (swe_handlers ops cwd dir) name")
    case (Own f)
    then have "\<exists>tool. f = tool_handler tool"
      by (auto simp: handler_lookup_def swe_handlers_def split: option.splits if_splits)
    then show ?thesis using Own
      by (auto simp: call_handler_def tool_handler_def Let_def split: prod.split)
  qed (simp_all add: call_handler_def)
  let ?w = "k_world (h_kernel (swe_host s))"
  have "clock_ok ?w" using assms by (simp add: swe_at_def Let_def)
  then have "clock_ok (snd (fst (gate_execute (swe_handlers ops cwd dir) LIVE SWE_ID n name args (swe_env s, ?w))))"
    using same [of "(swe_env s, tick_clock ?w)"]
    by (auto simp: gate_execute_def gate_body_def Let_def split: prod.split sum.split)
  then show ?thesis
    using assms by (auto simp: swe_gate_def swe_at_def Let_def split: prod.split)
qed

lemma swe_tool_runs:
  assumes "swe_at hist s"
  shows "\<exists>s'. swe_tool (swe_handlers ops cwd dir) n out s = (s', Inr ()) \<and> swe_at hist s'"
proof (cases "js_prop out ''kind'' = JStr ''PENDING_TOOL''")
  case True
  let ?ev = "TOOL_CALL_REQUESTED SWE_ID (js_string (js_prop out ''toolName''))"
  have "clock_ok (k_world (h_kernel (swe_host s)))" using assms by (simp add: swe_at_def Let_def)
  then obtain h where h: "host_emit ?ev (swe_host s) = (h, Inr ())" "swe_at hist (s\<lparr>swe_host := h\<rparr>)"
    using assms by (auto simp: host_emit_def emit_visualise visualise_def swe_at_def Let_def)
  then show ?thesis
    using True swe_gate_keeps [OF h(2)] by (simp add: swe_tool_def Let_def)
next
  case False
  then show ?thesis using assms by (simp add: swe_tool_def)
qed

definition swe_entry :: "nat \<Rightarrow> jsval" where
  "swe_entry n = JObj [(''tick'', jint (int n)), (''output'', output_js (mock_output SWE_GOAL (n - 1)))]"

lemma mock_output_json: "is_json (output_js (mock_output goal n))"
  by (simp add: mock_output_def)

lemma swe_round_runs:
  assumes "swe_at (map swe_entry [1..<n]) s" and "0 < n"
  shows "\<exists>s'. swe_round complete Mock (swe_handlers ops cwd dir) (int n) s = (s', Again) \<and>
    swe_at (map swe_entry [1..<Suc n]) s'"
proof -
  let ?h = "map swe_entry [1..<n]"
  let ?out = "output_js (mock_output SWE_GOAL (n - 1))"
  obtain raw where raw: "eph_read memory_handle ''tick_memory'' (k_ephemeral (h_kernel (swe_host s))) = Inr raw"
    "history_of raw = ?h"
    using swe_at_read [OF assms(1)] by blast
  have spin: "brain_spin complete Mock SWE_GOAL (JArr ?h) (swe_env s) = (swe_env s, Some (Inr ?out))"
    using mock_spin [of complete SWE_GOAL ?h "swe_env s"] by simp
  obtain s1 where s1: "swe_tool (swe_handlers ops cwd dir) (int n) ?out s = (s1, Inr ())" "swe_at ?h s1"
    using swe_tool_runs [OF assms(1)] by blast
  obtain s2 where s2: "swe_remember (int n) ?h ?out s1 = (s2, Inr ())"
    "swe_at (?h @ [JObj [(''tick'', jint (int n)), (''output'', ?out)]]) s2"
    using swe_at_remember [OF s1(2) mock_output_json] by blast
  have "map swe_entry [1..<Suc n] = ?h @ [JObj [(''tick'', jint (int n)), (''output'', ?out)]]"
    using assms(2) by (simp add: swe_entry_def)
  moreover have "getState (k_lifecycle (h_kernel (swe_host s2))) SWE_ID = ACTIVE"
    using s2(2) by (simp add: swe_at_def Let_def)
  ultimately show ?thesis
    using raw spin s1(1) s2 by (simp add: swe_round_def)
qed

lemma swe_loop_runs:
  assumes "swe_at (map swe_entry [1..<n]) s" and "0 < n" and "n \<le> 15"
  shows "\<exists>s'. swe_loop complete Mock (swe_handlers ops cwd dir) (int n) s = (s', Capped) \<and>
    swe_at (map swe_entry [1..<15]) s'"
  using assms
proof (induction "15 - n" arbitrary: n s)
  case 0
  then show ?case by (simp add: swe_loop.simps)
next
  case (Suc m)
  obtain s1 where "swe_round complete Mock (swe_handlers ops cwd dir) (int n) s = (s1, Again)"
    "swe_at (map swe_entry [1..<Suc n]) s1"
    using swe_round_runs [OF Suc.prems(1,2)] by blast
  moreover have "n < 15" "m = 15 - Suc n" using Suc.hyps(2) by simp_all
  ultimately show ?case
    using Suc.hyps(1) [of "Suc n" s1] by (subst swe_loop.simps) (simp add: add.commute)
qed


section \<open>Properties\<close>

lemma swe_boot_at:
  assumes "clock_ok w"
  shows "\<exists>s. swe_boot w e = (s, Inr ()) \<and> swe_at [] s"
proof -
  have "host_at ({}, \<lambda>_. DEFINED, []) (new_host w)"
    using assms by (auto simp: new_host_def new_kernel_def new_agent_registry_def map_has_def new_lifecycle_def
        getState_def map_get_or_def)
  moreover have "runs_to (run_steps [host_register SWE_ID ''engineer'', host_transition SWE_ID T_spawn,
      host_transition SWE_ID T_activate]) ({}, \<lambda>_. DEFINED, []) ({SWE_ID}, (\<lambda>_. DEFINED)(SWE_ID := SPAWNED, SWE_ID := ACTIVE), [])"
    by (rule runs_to_step [OF register_runs], simp, rule runs_to_step [OF transition_runs], simp,
        rule runs_to_step [OF transition_runs], simp, rule runs_to_end)
  ultimately obtain h where h: "run_steps [host_register SWE_ID ''engineer'', host_transition SWE_ID T_spawn,
      host_transition SWE_ID T_activate] (new_host w) = (h, Inr ())"
    "host_at ({SWE_ID}, (\<lambda>_. DEFINED)(SWE_ID := ACTIVE), []) h"
    unfolding runs_to_def fun_upd_upd by blast
  then have "getState (k_lifecycle (h_kernel h)) = (\<lambda>_. DEFINED)(SWE_ID := ACTIVE)" "clock_ok (k_world (h_kernel h))"
    by simp_all
  moreover have "plain_key ''tick_memory''"
    by (simp add: plain_key_def proto_key_def object_methods_def)
  ultimately show ?thesis
    using h(1) by (simp add: swe_boot_def swe_at_def eph_init_def active_cell_def rec_get_empty Let_def
        del: run_steps.simps)
qed

text \<open>The loop of the engineer agent is bounded, and only by its cap. Without keys, for any file system
  and any clock whose readings are dates, it goes through all fourteen rounds: three tool calls and
  then eleven times the same completion, each in the tick memory with its number. The agent is
  still \<open>ACTIVE\<close> at the end, since nothing in the loop ends it, so that the exit for a terminated
  agent is never taken.\<close>

theorem swe_loop_only_capped:
  assumes "clock_ok w" and "provision ops dir e = (e1, Inr ())"
  shows "\<exists>s. bootstrapSWE complete Mock ops cwd dir w e = (s, Capped) \<and>
    eph_read memory_handle ''tick_memory'' (k_ephemeral (h_kernel (swe_host s))) =
      Inr (JArr (map (\<lambda>n. JObj [(''tick'', jint (int n)), (''output'', output_js (mock_output SWE_GOAL (n - 1)))]) [1..<15])) \<and>
    getState (k_lifecycle (h_kernel (swe_host s))) SWE_ID = ACTIVE"
proof -
  obtain s where s: "swe_boot w e1 = (s, Inr ())" "swe_at [] s"
    using swe_boot_at [OF assms(1), of e1] by (elim exE conjE)
  have "swe_at (map swe_entry [1..<1]) s" using s(2) by simp
  moreover have "(1 :: nat) \<le> 15" by simp
  ultimately have "\<exists>s'. swe_loop complete Mock (swe_handlers ops cwd dir) 1 s = (s', Capped) \<and>
      swe_at (map swe_entry [1..<15]) s'"
    by (rule swe_loop_runs [OF _ zero_less_one, unfolded of_nat_1])
  then obtain s' where s': "swe_loop complete Mock (swe_handlers ops cwd dir) 1 s = (s', Capped)"
      "swe_at (map swe_entry [1..<15]) s'"
    by (elim exE conjE)
  obtain raw where "eph_read memory_handle ''tick_memory'' (k_ephemeral (h_kernel (swe_host s'))) = Inr raw"
    "history_of raw = map swe_entry [1..<15]"
    using swe_at_read [OF s'(2)] by blast
  moreover have "raw = JArr (history_of raw)" if "history_of raw \<noteq> []"
    using that by (auto simp: history_of_def split: jsval.splits)
  then have "raw = JArr (map swe_entry [1..<15])" using calculation(2) by fastforce
  moreover have "getState (k_lifecycle (h_kernel (swe_host s'))) SWE_ID = ACTIVE"
    using s'(2) by (simp add: swe_at_def Let_def)
  ultimately show ?thesis
    using s(1) s'(1) assms(2)
    by (intro exI [of _ s']) (simp only: bootstrapSWE_def swe_entry_def [abs_def] prod.case sum.case simp_thms)
qed

definition no_files :: "int fs_ops" where
  "no_files = \<lparr>fs_exists = \<lambda>p e. False, fs_read = \<lambda>p e. Inl (Error ''ENOENT''), fs_write = \<lambda>p c e. (e, Inr ()),
     fs_mkdir = \<lambda>p e. (e, Inr ()), fs_readdir = \<lambda>p e. Inr []\<rparr>"

theorem swe_loop_only_capped_witness:
  "\<exists>s. bootstrapSWE (\<lambda>p s e. (e, Inl (Error ''offline''))) Mock no_files ''/'' ''/w'' (new_world (\<lambda>_. 7)) 0 = (s, Capped) \<and>
     getState (k_lifecycle (h_kernel (swe_host s))) SWE_ID = ACTIVE"
proof -
  have "clock_ok (new_world (\<lambda>_. 7))" by (simp add: clock_ok_def new_world_def valid_date_def)
  moreover have "provision no_files ''/w'' 0 = (0, Inr ())" by (simp add: provision_def mkdir_recursive_def path_chain_def segments_def no_files_def)
  ultimately show ?thesis
    using swe_loop_only_capped [of "new_world (\<lambda>_. 7)" no_files "''/w''" 0 0] by blast
qed

end
