(* ===== verification/Ecosystem.thy ===== *)
theory Ecosystem
  imports SweAgent
begin

text \<open>
  The host application of host/index.ts: an explorer agent with the file reader and the fetch tool,
  two rounds of a language model and, in between, one tool call that is not awaited. Its rejection
  has no handler, and the next inference waits for a timer or for the network, so that Node ends
  the process first (exit \<open>Unhandled\<close>). The delay before the start and console output are left
  out; a tool name that is no string is turned into one.
\<close>

section \<open>The application\<close>

definition EXPLORER :: string where
  "EXPLORER = ''ai-explorer-1''"

record 'e ecosystem =
  ec_host :: host
  ec_env :: 'e

datatype eco_exit = Ended | Rejected jserr | Unhandled jserr | Stuck

definition register_host_tools :: "'e fs_ops \<Rightarrow> string \<Rightarrow> string \<Rightarrow> ('e registry, unit) outcome" where
  "register_host_tools ops cwd sandboxDir =
     (let readTool = createReadTool ops cwd sandboxDir; netTool = createFetchTool
      in run_steps [register_tool (fst readTool) (snd readTool), register_tool (fst netTool) (snd netTool)]
           new_registry)"

text \<open>The tools of the registry as handlers of the gate.\<close>

definition registry_handler :: "'e registry \<Rightarrow> string \<Rightarrow> 'e handler" where
  "registry_handler reg name args ew =
     (let (e, w) = ew; (e1, r) = executeSync reg name ''system'' args e in ((e1, w), Inr (tool_result_js r)))"

definition registry_handlers :: "'e registry \<Rightarrow> 'e handlers" where
  "registry_handlers reg = map (\<lambda>m. (mf_name m, registry_handler reg (mf_name m))) (listTools reg)"

definition eco_boot :: "world \<Rightarrow> (host, unit) outcome" where
  "eco_boot w =
     run_steps [host_register EXPLORER ''explorer'', host_emit (AGENT_SPAWNED EXPLORER),
                host_transition EXPLORER T_spawn, host_transition EXPLORER T_activate] (new_host w)"

definition on_host :: "(host \<Rightarrow> (host, unit) outcome) \<Rightarrow> 'e ecosystem \<Rightarrow> ('e ecosystem, unit) outcome" where
  "on_host f s = (let (h, r) = f (ec_host s) in (s\<lparr>ec_host := h\<rparr>, r))"

text \<open>An inference, announced on the bus.\<close>

definition eco_think ::
  "'e completion \<Rightarrow> provider \<Rightarrow> int \<Rightarrow> string \<Rightarrow> jsval \<Rightarrow> 'e ecosystem \<Rightarrow> 'e ecosystem \<times> (eco_exit + jsval)" where
  "eco_think complete p n goal mem s =
     (case brain_spin complete p goal mem (ec_env s) of
        (e, None) \<Rightarrow> (s\<lparr>ec_env := e\<rparr>, Inl Stuck)
      | (e, Some (Inl x)) \<Rightarrow> (s\<lparr>ec_env := e\<rparr>, Inl (Unhandled x))
      | (e, Some (Inr out)) \<Rightarrow>
          (case on_host (host_emit (TICK_COMPLETED EXPLORER n)) (s\<lparr>ec_env := e\<rparr>) of
             (s1, Inl x) \<Rightarrow> (s1, Inl (Unhandled x))
           | (s1, Inr _) \<Rightarrow> (s1, Inr out)))"

definition eco_gate :: "'e handlers \<Rightarrow> int \<Rightarrow> string \<Rightarrow> jsval \<Rightarrow> 'e ecosystem \<Rightarrow> ('e ecosystem, jsval) outcome" where
  "eco_gate hs n name args s =
     (let h = ec_host s; k = h_kernel h;
          ((e, w), r) = gate_execute hs LIVE EXPLORER n name args (ec_env s, k_world k)
      in (s\<lparr>ec_host := h\<lparr>h_kernel := k\<lparr>k_world := w\<rparr>\<rparr>, ec_env := e\<rparr>, r))"

text \<open>The call gets the number of the next tick.\<close>

definition eco_call :: "'e handlers \<Rightarrow> jsval \<Rightarrow> 'e ecosystem \<Rightarrow> ('e ecosystem, unit) outcome" where
  "eco_call hs out s =
     (if js_prop out ''kind'' = JStr ''PENDING_TOOL''
      then
        let name = js_string (js_prop out ''toolName'') in
        (case on_host (host_emit (TOOL_CALL_REQUESTED EXPLORER name)) s of
           (s1, Inl x) \<Rightarrow> (s1, Inl x)
         | (s1, Inr _) \<Rightarrow>
             (let (s2, r) = eco_gate hs 2 name (js_prop out ''args'') s1 in (s2, map_sum id (\<lambda>_. ()) r)))
      else (s, Inr ()))"

definition eco_exit_steps :: "host \<Rightarrow> (host, unit) outcome" where
  "eco_exit_steps = run_steps [host_transition EXPLORER T_complete, host_transition EXPLORER T_teardown_ok]"

definition explore :: "'e completion \<Rightarrow> provider \<Rightarrow> 'e handlers \<Rightarrow> 'e ecosystem \<Rightarrow> 'e ecosystem \<times> eco_exit" where
  "explore complete p hs s =
     (case eco_think complete p 1 ''Discover Host System files'' (JObj []) s of
        (s1, Inl x) \<Rightarrow> (s1, x)
      | (s1, Inr out) \<Rightarrow>
          (case eco_call hs out s1 of
             (s2, Inl x) \<Rightarrow> (s2, Unhandled x)
           | (s2, Inr _) \<Rightarrow>
               (case eco_think complete p 2 ''Analyze Data further'' (JObj [(''cache'', JBool True)]) s2 of
                  (s3, Inl x) \<Rightarrow> (s3, x)
                | (s3, Inr _) \<Rightarrow>
                    (case on_host eco_exit_steps s3 of
                       (s4, Inl x) \<Rightarrow> (s4, Unhandled x)
                     | (s4, Inr _) \<Rightarrow> (s4, Ended)))))"

definition bootstrapFullEcosystem ::
  "'e completion \<Rightarrow> provider \<Rightarrow> 'e fs_ops \<Rightarrow> string \<Rightarrow> string \<Rightarrow> world \<Rightarrow> 'e \<Rightarrow> 'e ecosystem \<times> eco_exit" where
  "bootstrapFullEcosystem complete p ops cwd sandboxDir w e =
     (case register_host_tools ops cwd sandboxDir of
        (reg, Inl x) \<Rightarrow> (\<lparr>ec_host = new_host w, ec_env = e\<rparr>, Rejected x)
      | (reg, Inr _) \<Rightarrow>
          (case eco_boot w of
             (h, Inl x) \<Rightarrow> (\<lparr>ec_host = h, ec_env = e\<rparr>, Rejected x)
           | (h, Inr _) \<Rightarrow> explore complete p (registry_handlers reg) \<lparr>ec_host = h, ec_env = e\<rparr>))"

section \<open>Its steps\<close>

text \<open>The explorer is in state \<open>st\<close>, and the clock gives dates.\<close>

definition eco_at :: "agent_state \<Rightarrow> 'e ecosystem \<Rightarrow> bool" where
  "eco_at st s \<longleftrightarrow> host_at ({EXPLORER}, (\<lambda>_. DEFINED)(EXPLORER := st), []) (ec_host s)"

lemma new_host_at: "clock_ok w \<Longrightarrow> host_at ({}, \<lambda>_. DEFINED, []) (new_host w)"
  by (auto simp: new_host_def new_kernel_def new_agent_registry_def map_has_def new_lifecycle_def
      getState_def map_get_or_def)

lemma eco_boot_at:
  assumes "clock_ok w"
  obtains h where "eco_boot w = (h, Inr ())" "eco_at ACTIVE \<lparr>ec_host = h, ec_env = e\<rparr>"
proof -
  have "runs_to (run_steps [host_register EXPLORER ''explorer'', host_emit (AGENT_SPAWNED EXPLORER),
      host_transition EXPLORER T_spawn, host_transition EXPLORER T_activate])
      ({}, \<lambda>_. DEFINED, []) ({EXPLORER}, (\<lambda>_. DEFINED)(EXPLORER := SPAWNED, EXPLORER := ACTIVE), [])"
    by (rule runs_to_step [OF register_runs], simp, rule runs_to_step [OF emit_runs], simp,
        rule runs_to_step [OF transition_runs], simp, rule runs_to_step [OF transition_runs], simp, rule runs_to_end)
  then show thesis
    using new_host_at [OF assms] that by (auto simp: eco_boot_def eco_at_def runs_to_def simp del: run_steps.simps)
qed

lemma on_host_runs:
  assumes "runs_to f ({EXPLORER}, (\<lambda>_. DEFINED)(EXPLORER := st), []) ({EXPLORER}, (\<lambda>_. DEFINED)(EXPLORER := st'), [])"
    and "eco_at st s"
  obtains s1 where "on_host f s = (s1, Inr ())" "eco_at st' s1" "ec_env s1 = ec_env s"
proof -
  obtain h where "f (ec_host s) = (h, Inr ())" "host_at ({EXPLORER}, (\<lambda>_. DEFINED)(EXPLORER := st'), []) h"
    using assms unfolding runs_to_def eco_at_def by blast
  then show thesis by (intro that [of "s\<lparr>ec_host := h\<rparr>"]) (simp_all add: on_host_def eco_at_def)
qed

lemma eco_at_env [simp]: "eco_at st (s\<lparr>ec_env := e\<rparr>) = eco_at st s"
  by (simp add: eco_at_def)

lemma eco_think_runs:
  assumes "eco_at st s" and "brain_spin complete p goal mem (ec_env s) = (e, Some (Inr out))"
  obtains s1 where "eco_think complete p n goal mem s = (s1, Inr out)" "eco_at st s1" "ec_env s1 = e"
proof -
  obtain s1 where "on_host (host_emit (TICK_COMPLETED EXPLORER n)) (s\<lparr>ec_env := e\<rparr>) = (s1, Inr ())" "eco_at st s1"
    "ec_env s1 = ec_env (s\<lparr>ec_env := e\<rparr>)"
    by (rule on_host_runs [where f = "host_emit (TICK_COMPLETED EXPLORER n)" and s = "s\<lparr>ec_env := e\<rparr>"])
      (rule emit_runs, use assms in simp_all)
  then show thesis using assms(2) by (intro that [of s1]) (simp_all add: eco_think_def)
qed

text \<open>The registry of the application has its two tools and never throws.\<close>

definition host_tool_names :: "string list" where
  "host_tool_names = [''host.fs.read_file'', ''host.net.fetch'']"

lemma register_host_tools_ok:
  obtains reg where "register_host_tools ops cwd dir = (reg, Inr ())"
    "map fst (registry_handlers reg) = host_tool_names"
  by (rule that [of "fst (register_host_tools ops cwd dir)"])
    (simp_all add: register_host_tools_def createReadTool_def createFetchTool_def register_tool_def new_registry_def
      map_has_def registry_handlers_def listTools_def host_tool_names_def)

lemma registry_handler_own:
  assumes "map_of (registry_handlers reg) name = Some f"
  shows "\<exists>e1 r. f args (e, w) = ((e1, w), Inr r)"
  using assms
  by (auto simp: registry_handlers_def registry_handler_def split: prod.split dest!: map_of_SomeD)

lemma eco_call_runs:
  assumes "eco_at st s" and "map fst (registry_handlers reg) = host_tool_names"
    and "js_prop out ''kind'' = JStr ''PENDING_TOOL'' \<Longrightarrow> js_string (js_prop out ''toolName'') \<in> set host_tool_names"
  obtains s1 where "eco_call (registry_handlers reg) out s = (s1, Inr ())" "eco_at st s1"
proof (cases "js_prop out ''kind'' = JStr ''PENDING_TOOL''")
  case False
  then show thesis using that [of s] assms(1) by (simp add: eco_call_def)
next
  case True
  let ?name = "js_string (js_prop out ''toolName'')" and ?args = "js_prop out ''args''"
  obtain s1 where 1: "on_host (host_emit (TOOL_CALL_REQUESTED EXPLORER ?name)) s = (s1, Inr ())" "eco_at st s1"
    by (rule on_host_runs [where f = "host_emit (TOOL_CALL_REQUESTED EXPLORER ?name)" and s = s])
      (rule emit_runs, use assms(1) in simp_all)
  have "?name \<in> fst ` set (registry_handlers reg)"
    using assms(2,3) True by (metis image_set)
  then obtain f where f: "map_of (registry_handlers reg) ?name = Some f"
    using map_of_eq_None_iff [of "registry_handlers reg" ?name] by auto
  let ?w = "k_world (h_kernel (ec_host s1))"
  obtain e2 r where r: "f ?args (ec_env s1, tick_clock ?w) = ((e2, tick_clock ?w), Inr r)"
    using registry_handler_own [OF f] by blast
  show thesis
    using True 1 gate_own [OF f r]
    by (intro that [of "fst (eco_call (registry_handlers reg) out s)"]) (simp_all add: eco_call_def eco_gate_def eco_at_def Let_def)
qed

lemma eco_call_missing:
  assumes "eco_at st s" and "js_prop out ''kind'' = JStr ''PENDING_TOOL''"
    and "handler_lookup hs (js_string (js_prop out ''toolName'')) = Missing"
  obtains s1 where "eco_call hs out s = (s1, Inl (Error ''TOOL_NOT_FOUND''))" "eco_at st s1"
proof -
  let ?name = "js_string (js_prop out ''toolName'')"
  obtain s1 where "on_host (host_emit (TOOL_CALL_REQUESTED EXPLORER ?name)) s = (s1, Inr ())" "eco_at st s1"
    by (rule on_host_runs [where f = "host_emit (TOOL_CALL_REQUESTED EXPLORER ?name)" and s = s])
      (rule emit_runs, use assms(1) in simp_all)
  then show thesis
    using assms(2,3)
    by (intro that [of "fst (eco_call hs out s)"])
      (simp_all add: eco_call_def eco_gate_def eco_at_def gate_execute_def gate_body_def call_handler_def Let_def)
qed

lemma eco_exit_runs:
  assumes "eco_at ACTIVE s"
  obtains s1 where "on_host eco_exit_steps s = (s1, Inr ())" "eco_at TERMINATED s1"
proof -
  have "runs_to eco_exit_steps ({EXPLORER}, (\<lambda>_. DEFINED)(EXPLORER := ACTIVE), [])
      ({EXPLORER}, (\<lambda>_. DEFINED)(EXPLORER := ACTIVE, EXPLORER := COMPLETING, EXPLORER := TERMINATED), [])"
    unfolding eco_exit_steps_def
    by (rule runs_to_step [OF transition_runs], simp, rule runs_to_step [OF transition_runs], simp, rule runs_to_end)
  then show thesis
    using that on_host_runs [OF _ assms] by (metis fun_upd_upd)
qed

text \<open>The application from its boot on, by what its first inference asks for.\<close>

definition asks_tool :: "jsval \<Rightarrow> bool" where
  "asks_tool out \<longleftrightarrow> js_prop out ''kind'' = JStr ''PENDING_TOOL''"

definition asked_name :: "jsval \<Rightarrow> string" where
  "asked_name out = js_string (js_prop out ''toolName'')"

lemma eco_first:
  assumes "clock_ok w"
    and "brain_spin complete p ''Discover Host System files'' (JObj []) e = (e1, Some (Inr out))"
  obtains reg h s1 where "register_host_tools ops cwd dir = (reg, Inr ())" "map fst (registry_handlers reg) = host_tool_names"
    "eco_boot w = (h, Inr ())"
    "eco_think complete p 1 ''Discover Host System files'' (JObj []) \<lparr>ec_host = h, ec_env = e\<rparr> = (s1, Inr out)"
    "eco_at ACTIVE s1"
proof -
  obtain reg where reg: "register_host_tools ops cwd dir = (reg, Inr ())" "map fst (registry_handlers reg) = host_tool_names"
    by (rule register_host_tools_ok)
  obtain h where h: "eco_boot w = (h, Inr ())" "eco_at ACTIVE \<lparr>ec_host = h, ec_env = e\<rparr>"
    by (rule eco_boot_at [OF assms(1)])
  have "brain_spin complete p ''Discover Host System files'' (JObj []) (ec_env \<lparr>ec_host = h, ec_env = e\<rparr>) = (e1, Some (Inr out))"
    using assms(2) by simp
  from eco_think_runs [OF h(2) this] obtain s1 where
    "eco_think complete p 1 ''Discover Host System files'' (JObj []) \<lparr>ec_host = h, ec_env = e\<rparr> = (s1, Inr out)"
    "eco_at ACTIVE s1" by blast
  then show thesis using that reg h(1) by blast
qed

lemma eco_mock_asks:
  "brain_spin complete Mock ''Discover Host System files'' (JObj []) e = (e1, Some (Inr out)) \<Longrightarrow>
   asks_tool out \<and> asked_name out = ''host.fs.list_dir''"
  by (auto simp: brain_spin_def brain_evaluate_def mockEvaluate_def step_count_def call_tool_value_def
      run_tick_value_def arg_prop_def round_steps_def js_truthy_def asks_tool_def asked_name_def)

lemma eco_ends:
  assumes "clock_ok w"
    and "brain_spin complete p ''Discover Host System files'' (JObj []) e = (e1, Some (Inr out))"
    and later: "\<And>e. \<exists>e2 out2. brain_spin complete p ''Analyze Data further'' (JObj [(''cache'', JBool True)]) e = (e2, Some (Inr out2))"
    and fits: "asks_tool out \<Longrightarrow> asked_name out \<in> set host_tool_names"
  shows "\<exists>s. bootstrapFullEcosystem complete p ops cwd dir w e = (s, Ended) \<and> eco_at TERMINATED s"
proof -
  obtain reg h s1 where 1: "register_host_tools ops cwd dir = (reg, Inr ())" "map fst (registry_handlers reg) = host_tool_names"
    "eco_boot w = (h, Inr ())"
    "eco_think complete p 1 ''Discover Host System files'' (JObj []) \<lparr>ec_host = h, ec_env = e\<rparr> = (s1, Inr out)"
    "eco_at ACTIVE s1"
    by (rule eco_first [OF assms(1,2)])
  obtain s2 where s2: "eco_call (registry_handlers reg) out s1 = (s2, Inr ())" "eco_at ACTIVE s2"
    by (rule eco_call_runs [OF 1(5,2) fits [unfolded asks_tool_def asked_name_def]])
  obtain e3 out2 where "brain_spin complete p ''Analyze Data further'' (JObj [(''cache'', JBool True)]) (ec_env s2) = (e3, Some (Inr out2))"
    using later by blast
  from eco_think_runs [OF s2(2) this]
  obtain s3 where s3: "eco_think complete p 2 ''Analyze Data further'' (JObj [(''cache'', JBool True)]) s2 = (s3, Inr out2)"
    "eco_at ACTIVE s3" by blast
  obtain s4 where "on_host eco_exit_steps s3 = (s4, Inr ())" "eco_at TERMINATED s4"
    by (rule eco_exit_runs [OF s3(2)])
  then show ?thesis
    using 1(1,3,4) s2(1) s3(1) by (simp add: bootstrapFullEcosystem_def explore_def)
qed

lemma eco_rejected:
  assumes "clock_ok w"
    and "brain_spin complete p ''Discover Host System files'' (JObj []) e = (e1, Some (Inr out))"
    and asks: "asks_tool out" "asked_name out \<notin> set host_tool_names" "plain_key (asked_name out)"
  shows "\<exists>s. bootstrapFullEcosystem complete p ops cwd dir w e = (s, Unhandled (Error ''TOOL_NOT_FOUND'')) \<and> eco_at ACTIVE s"
proof -
  obtain reg h s1 where 1: "register_host_tools ops cwd dir = (reg, Inr ())" "map fst (registry_handlers reg) = host_tool_names"
    "eco_boot w = (h, Inr ())"
    "eco_think complete p 1 ''Discover Host System files'' (JObj []) \<lparr>ec_host = h, ec_env = e\<rparr> = (s1, Inr out)"
    "eco_at ACTIVE s1"
    by (rule eco_first [OF assms(1,2)])
  have "map_of (registry_handlers reg) (asked_name out) = None"
    using 1(2) asks(2) by (metis map_of_eq_None_iff set_map)
  then have "handler_lookup (registry_handlers reg) (js_string (js_prop out ''toolName'')) = Missing"
    using asks(3) by (simp add: handler_lookup_def plain_key_def asked_name_def)
  from eco_call_missing [OF 1(5) asks(1) [unfolded asks_tool_def] this]
  obtain s2 where "eco_call (registry_handlers reg) out s1 = (s2, Inl (Error ''TOOL_NOT_FOUND''))" "eco_at ACTIVE s2" .
  then show ?thesis
    using 1(1,3,4) by (simp add: bootstrapFullEcosystem_def explore_def)
qed

section \<open>Properties\<close>

text \<open>C38: How the host application ends. When its two inferences give outputs and the first asks for no
  tool or for one of its two tools, it ends the agent in \<open>TERMINATED\<close>. When the first asks for a
  tool the gate does not know, the rejection nobody handles ends the process, with the agent still
  \<open>ACTIVE\<close> - as it always happens without keys, when the built-in script asks for the directory
  list, a tool the application does not register.\<close>

theorem ecosystem_outcome:
  assumes "clock_ok w"
    and "brain_spin complete p ''Discover Host System files'' (JObj []) e = (e1, Some (Inr out))"
    and "\<And>e. \<exists>e2 out2. brain_spin complete p ''Analyze Data further'' (JObj [(''cache'', JBool True)]) e = (e2, Some (Inr out2))"
  shows "\<exists>s x. bootstrapFullEcosystem complete p ops cwd dir w e = (s, x) \<and>
    (let state = getState (k_lifecycle (h_kernel (ec_host s))) EXPLORER;
         registered = asked_name out \<in> {''host.fs.read_file'', ''host.net.fetch''} in
     (\<not> asks_tool out \<or> registered \<longrightarrow> x = Ended \<and> state = TERMINATED) \<and>
     (asks_tool out \<and> \<not> registered \<and> plain_key (asked_name out) \<longrightarrow>
        x = Unhandled (Error ''TOOL_NOT_FOUND'') \<and> state = ACTIVE) \<and>
     (p = Mock \<longrightarrow> asks_tool out \<and> asked_name out = ''host.fs.list_dir''))"
proof -
  have mock: "p = Mock \<Longrightarrow> asks_tool out \<and> asked_name out = ''host.fs.list_dir''"
    by (rule eco_mock_asks [of complete e e1 out]) (use assms(2) in simp)
  have names: "set host_tool_names = {''host.fs.read_file'', ''host.net.fetch''}"
    by (simp add: host_tool_names_def)
  consider (ends) "\<not> asks_tool out \<or> asked_name out \<in> set host_tool_names"
    | (rejected) "asks_tool out" "asked_name out \<notin> set host_tool_names" "plain_key (asked_name out)"
    | (other) "asks_tool out" "asked_name out \<notin> set host_tool_names" "\<not> plain_key (asked_name out)"
    by blast
  then show ?thesis
  proof cases
    case ends
    then show ?thesis
      using eco_ends [OF assms, of ops cwd dir] mock by (auto simp: eco_at_def names Let_def)
  next
    case rejected
    then show ?thesis
      using eco_rejected [OF assms(1,2), of ops cwd dir] mock by (auto simp: eco_at_def names Let_def)
  next
    case other
    then show ?thesis
      using mock by (auto simp: names Let_def intro: prod.exhaust)
  qed
qed

theorem ecosystem_outcome_witness:
  "\<exists>s. bootstrapFullEcosystem (\<lambda>p s e. (e, Inl (Error ''offline''))) Mock no_files ''/'' ''/w'' (new_world (\<lambda>_. 7)) (0 :: int) =
       (s, Unhandled (Error ''TOOL_NOT_FOUND''))"
proof -
  let ?c = "\<lambda>p s e. (e :: int, Inl (Error ''offline''))"
  let ?out = "output_js (mock_output ''Discover Host System files'' 0)"
  have "clock_ok (new_world (\<lambda>_. 7))" by (simp add: clock_ok_def new_world_def valid_date_def)
  moreover have "brain_spin ?c Mock ''Discover Host System files'' (JObj []) 0 = (0, Some (Inr ?out))"
    by (simp add: brain_spin_def brain_evaluate_def mockEvaluate_def step_count_def call_tool_value_def
      run_tick_value_def arg_prop_def round_steps_def mock_output_def js_truthy_def)
  moreover have "\<exists>e2 out2. brain_spin ?c Mock ''Analyze Data further'' (JObj [(''cache'', JBool True)]) e = (e2, Some (Inr out2))" for e
    by (simp add: brain_spin_def brain_evaluate_def mockEvaluate_def step_count_def call_tool_value_def
      run_tick_value_def arg_prop_def round_steps_def js_truthy_def)
  ultimately obtain s x where "bootstrapFullEcosystem ?c Mock no_files ''/'' ''/w'' (new_world (\<lambda>_. 7)) 0 = (s, x)"
    "x = Unhandled (Error ''TOOL_NOT_FOUND'')"
    using ecosystem_outcome [of "new_world (\<lambda>_. 7)" ?c Mock 0 0 ?out no_files "''/''" "''/w''"]
    by (auto simp: Let_def mock_output_def plain_key_def proto_key_def object_methods_def asks_tool_def asked_name_def)
  then show ?thesis by blast
qed

end
