(* ===== verification/Researcher.thy ===== *)
theory Researcher
  imports Ecosystem
begin

text \<open>
  The researcher of host/agents/researcher.ts: two scripted tool calls, to the shell and to the
  browser tool of host/tools/browser.ts. The browser library is a parameter: its operations as
  functions on an environment, with browsers and pages as names. Delays and console output are
  left out.
\<close>

section \<open>The browser tool\<close>

record 'e browser_ops =
  br_launch :: "'e \<Rightarrow> ('e, string) outcome"
  br_newPage :: "string \<Rightarrow> 'e \<Rightarrow> ('e, string) outcome"
  br_goto :: "string \<Rightarrow> string \<Rightarrow> 'e \<Rightarrow> ('e, unit) outcome"
  br_innerText :: "string \<Rightarrow> 'e \<Rightarrow> ('e, string) outcome"
  br_closePage :: "string \<Rightarrow> 'e \<Rightarrow> ('e, unit) outcome"
  br_close :: "string \<Rightarrow> 'e \<Rightarrow> ('e, unit) outcome"

record 'e browsing =
  activeBrowser :: "string option"
  br_env :: 'e

definition open_browser :: "'e browser_ops \<Rightarrow> 'e browsing \<Rightarrow> ('e browsing, string) outcome" where
  "open_browser ops s =
     (case activeBrowser s of
        Some b \<Rightarrow> (s, Inr b)
      | None \<Rightarrow>
          (case br_launch ops (br_env s) of
             (e, Inl x) \<Rightarrow> (s\<lparr>br_env := e\<rparr>, Inl x)
           | (e, Inr b) \<Rightarrow> (\<lparr>activeBrowser = Some b, br_env = e\<rparr>, Inr b)))"

text \<open>A page that could not be loaded or read is not closed.\<close>

definition read_page :: "'e browser_ops \<Rightarrow> string \<Rightarrow> string \<Rightarrow> 'e \<Rightarrow> ('e, string) outcome" where
  "read_page ops b url e =
     (case br_newPage ops b e of
        (e1, Inl x) \<Rightarrow> (e1, Inl x)
      | (e1, Inr page) \<Rightarrow>
          (case br_goto ops page url e1 of
             (e2, Inl x) \<Rightarrow> (e2, Inl x)
           | (e2, Inr _) \<Rightarrow>
               (case br_innerText ops page e2 of
                  (e3, Inl x) \<Rightarrow> (e3, Inl x)
                | (e3, Inr body) \<Rightarrow>
                    (case br_closePage ops page e3 of
                       (e4, Inl x) \<Rightarrow> (e4, Inl x)
                     | (e4, Inr _) \<Rightarrow> (e4, Inr (take 2000 body))))))"

definition browser_tool :: "'e browser_ops \<Rightarrow> 'e browsing host_tool" where
  "browser_tool ops a args s =
     (case arg_prop args ''url'' of
        Inl x \<Rightarrow> (s, caught ''BROWSER_ERROR: '' x)
      | Inr (JStr url) \<Rightarrow>
          if url = [] then (s, failed ''Missing or invalid URL strictly required.'')
          else
            (case open_browser ops s of
               (s1, Inl x) \<Rightarrow> (s1, caught ''BROWSER_ERROR: '' x)
             | (s1, Inr b) \<Rightarrow>
                 (case read_page ops b url (br_env s1) of
                    (e, Inl x) \<Rightarrow> (s1\<lparr>br_env := e\<rparr>, caught ''BROWSER_ERROR: '' x)
                  | (e, Inr content) \<Rightarrow> (s1\<lparr>br_env := e\<rparr>, SUCCESS (JStr content))))
      | Inr _ \<Rightarrow> (s, failed ''Missing or invalid URL strictly required.''))"

definition closeBrowser :: "'e browser_ops \<Rightarrow> 'e browsing \<Rightarrow> ('e browsing, unit) outcome" where
  "closeBrowser ops s =
     (case activeBrowser s of
        None \<Rightarrow> (s, Inr ())
      | Some b \<Rightarrow>
          (case br_close ops b (br_env s) of
             (e, Inl x) \<Rightarrow> (s\<lparr>br_env := e\<rparr>, Inl x)
           | (e, Inr _) \<Rightarrow> (\<lparr>activeBrowser = None, br_env = e\<rparr>, Inr ())))"

section \<open>The script\<close>

definition RESEARCHER :: string where
  "RESEARCHER = ''researcher-alpha''"

record 'e research =
  rs_host :: host
  rs_browsing :: "'e browsing"

type_synonym 'e os_shell = "string \<Rightarrow> int \<Rightarrow> 'e \<Rightarrow> ('e, string \<times> string) outcome"

definition in_browsing :: "'e host_tool \<Rightarrow> 'e browsing host_tool" where
  "in_browsing tool a args s = (let (e, r) = tool a args (br_env s) in (s\<lparr>br_env := e\<rparr>, r))"

definition research_handler :: "'e browsing host_tool \<Rightarrow> 'e browsing handler" where
  "research_handler tool args sw =
     (let (s, w) = sw; (s1, r) = tool RESEARCHER args s in ((s1, w), Inr (tool_result_js r)))"

definition research_handlers :: "'e os_shell \<Rightarrow> 'e browser_ops \<Rightarrow> 'e browsing handlers" where
  "research_handlers shell ops =
     [(''host.system.bash'', research_handler (in_browsing (bash_tool shell None 5000))),
      (''host.web.browser'', research_handler (browser_tool ops))]"

definition research_gate ::
  "'e browsing handlers \<Rightarrow> int \<Rightarrow> string \<Rightarrow> jsval \<Rightarrow> 'e research \<Rightarrow> ('e research, jsval) outcome" where
  "research_gate hs n name args s =
     (let h = rs_host s; k = h_kernel h;
          ((b, w), r) = gate_execute hs LIVE RESEARCHER n name args (rs_browsing s, k_world k)
      in (s\<lparr>rs_host := h\<lparr>h_kernel := k\<lparr>k_world := w\<rparr>\<rparr>, rs_browsing := b\<rparr>, r))"

definition on_rs_host :: "(host \<Rightarrow> (host, unit) outcome) \<Rightarrow> 'e research \<Rightarrow> ('e research, unit) outcome" where
  "on_rs_host f s = (let (h, r) = f (rs_host s) in (s\<lparr>rs_host := h\<rparr>, r))"

text \<open>An error of the call is only printed.\<close>

definition executeStep ::
  "'e browsing handlers \<Rightarrow> int \<Rightarrow> instruction \<Rightarrow> 'e research \<Rightarrow> ('e research, unit) outcome" where
  "executeStep hs n instr s =
     (case run_tick \<lparr>ti_agentId = RESEARCHER, ti_sequenceNumber = n, ti_instruction = instr, ti_maxSteps = 10\<rparr> of
        PENDING_TOOL name args \<Rightarrow>
          (case on_rs_host (host_emit (TOOL_CALL_REQUESTED RESEARCHER name)) s of
             (s1, Inl x) \<Rightarrow> (s1, Inl x)
           | (s1, Inr _) \<Rightarrow> (fst (research_gate hs n name args s1), Inr ()))
      | _ \<Rightarrow> (s, Inr ()))"

definition diagnostic :: instruction where
  "diagnostic = CALL_TOOL ''host.system.bash''
     (JObj [(''command'', JStr (''echo '' @ [CHR 0x22] @ ''Deterministic Kernel Execution Alive'' @ [CHR 0x22] @ '' && node -v''))])"

definition visit :: instruction where
  "visit = CALL_TOOL ''host.web.browser'' (JObj [(''url'', JStr ''https://example.com'')])"

definition research_boot :: "host \<Rightarrow> (host, unit) outcome" where
  "research_boot = run_steps [host_register RESEARCHER ''os_explorer'', host_transition RESEARCHER T_spawn,
     host_transition RESEARCHER T_activate]"

definition research_end :: "host \<Rightarrow> (host, unit) outcome" where
  "research_end = run_steps [host_transition RESEARCHER T_complete, host_transition RESEARCHER T_teardown_ok]"

definition bootstrapResearcher ::
  "'e os_shell \<Rightarrow> 'e browser_ops \<Rightarrow> world \<Rightarrow> 'e browsing \<Rightarrow> ('e research, unit) outcome" where
  "bootstrapResearcher shell ops w b =
     run_steps
       [on_rs_host research_boot,
        executeStep (research_handlers shell ops) 1 diagnostic,
        executeStep (research_handlers shell ops) 2 visit,
        on_rs_host research_end,
        \<lambda>s. (let (b1, r) = closeBrowser ops (rs_browsing s) in (s\<lparr>rs_browsing := b1\<rparr>, r))]
       \<lparr>rs_host = new_host w, rs_browsing = b\<rparr>"

section \<open>Its steps and their entries\<close>

definition host_kinds :: "host \<Rightarrow> string list" where
  "host_kinds h = map le_kind (wlogs (k_world (h_kernel h)))"

definition research_at :: "agent_state \<Rightarrow> string list \<Rightarrow> 'e research \<Rightarrow> bool" where
  "research_at st ks s \<longleftrightarrow>
     getState (k_lifecycle (h_kernel (rs_host s))) RESEARCHER = st \<and> clock_ok (k_world (h_kernel (rs_host s))) \<and>
     host_kinds (rs_host s) = ks"

lemma research_emit:
  assumes "research_at st ks s" and "\<And>t. ev_time (ev t) = t"
  obtains s1 where "on_rs_host (host_emit ev) s = (s1, Inr ())" "research_at st ks s1" "rs_browsing s1 = rs_browsing s"
  using assms
  by (intro that [of "fst (on_rs_host (host_emit ev) s)"])
    (simp_all add: on_rs_host_def host_emit_def emit_visualise visualise_def research_at_def host_kinds_def Let_def)

lemma host_transition_kinds:
  assumes "next_state (getState (k_lifecycle (h_kernel h)) a) t = Some st" and "clock_ok (k_world (h_kernel h))"
  obtains h1 where "host_transition a t h = (h1, Inr ())" "getState (k_lifecycle (h_kernel h1)) a = st"
    "clock_ok (k_world (h_kernel h1))" "host_kinds h1 = host_kinds h @ [''LIFECYCLE_TRANSITION'']"
  using assms
  by (intro that [of "fst (host_transition a t h)"])
    (simp_all add: host_transition_def transition_ok host_kinds_def transition_taken_def transition_entry_def stamp_def
      Let_def)

lemma two_transitions:
  assumes "research_at st ks s" and "next_state st t = Some st1" and "next_state st1 t' = Some st2"
  obtains s1 where "on_rs_host (run_steps [host_transition RESEARCHER t, host_transition RESEARCHER t']) s = (s1, Inr ())"
    "research_at st2 (ks @ [''LIFECYCLE_TRANSITION'', ''LIFECYCLE_TRANSITION'']) s1" "rs_browsing s1 = rs_browsing s"
proof -
  let ?h = "rs_host s"
  have a: "next_state (getState (k_lifecycle (h_kernel ?h)) RESEARCHER) t = Some st1" "clock_ok (k_world (h_kernel ?h))"
    "host_kinds ?h = ks"
    using assms by (simp_all add: research_at_def)
  obtain h1 where 1: "host_transition RESEARCHER t ?h = (h1, Inr ())" "getState (k_lifecycle (h_kernel h1)) RESEARCHER = st1"
    "clock_ok (k_world (h_kernel h1))" "host_kinds h1 = host_kinds ?h @ [''LIFECYCLE_TRANSITION'']"
    by (rule host_transition_kinds [OF a(1,2)])
  have b: "next_state (getState (k_lifecycle (h_kernel h1)) RESEARCHER) t' = Some st2" using 1(2) assms(3) by simp
  obtain h2 where 2: "host_transition RESEARCHER t' h1 = (h2, Inr ())" "getState (k_lifecycle (h_kernel h2)) RESEARCHER = st2"
    "clock_ok (k_world (h_kernel h2))" "host_kinds h2 = host_kinds h1 @ [''LIFECYCLE_TRANSITION'']"
    by (rule host_transition_kinds [OF b 1(3)])
  show thesis
    by (rule that [of "s\<lparr>rs_host := h2\<rparr>"]) (use 1 2 a in \<open>simp_all add: on_rs_host_def research_at_def\<close>)
qed

lemma research_step:
  assumes "research_at st ks s" and "instr = CALL_TOOL name args"
    and "map_of hs name = Some (research_handler tool)"
  obtains s1 where "executeStep hs n instr s = (s1, Inr ())" "research_at st (ks @ [''TOOL_RESULT'']) s1"
    "rs_browsing s1 = fst (tool RESEARCHER args (rs_browsing s))"
proof -
  obtain s1 where 1: "on_rs_host (host_emit (TOOL_CALL_REQUESTED RESEARCHER name)) s = (s1, Inr ())"
    "research_at st ks s1" "rs_browsing s1 = rs_browsing s"
    by (rule research_emit [OF assms(1), where ev = "TOOL_CALL_REQUESTED RESEARCHER name"]) simp
  let ?w = "k_world (h_kernel (rs_host s1))"
  obtain b r where t: "tool RESEARCHER args (rs_browsing s1) = (b, r)" by fastforce
  then have h: "research_handler tool args (rs_browsing s1, tick_clock ?w) = ((b, tick_clock ?w), Inr (tool_result_js r))"
    by (simp add: research_handler_def)
  show thesis
    using 1 t gate_own [OF assms(3) h]
    by (intro that [of "fst (executeStep hs n instr s)"])
      (simp_all add: executeStep_def run_tick_def assms(2) research_gate_def research_at_def host_kinds_def stamp_def Let_def)
qed

lemma research_boot_at:
  assumes "clock_ok w"
  obtains s1 where "on_rs_host research_boot \<lparr>rs_host = new_host w, rs_browsing = b\<rparr> = (s1, Inr ())"
    "research_at ACTIVE (map le_kind (wlogs w) @ [''LIFECYCLE_TRANSITION'', ''LIFECYCLE_TRANSITION'']) s1" "rs_browsing s1 = b"
proof -
  let ?s = "\<lparr>rs_host = new_host w, rs_browsing = b\<rparr>" and ?boot = "host_register RESEARCHER ''os_explorer''"
  have reg: "snd (?boot (new_host w)) = Inr ()" "research_at DEFINED (map le_kind (wlogs w)) (?s\<lparr>rs_host := fst (?boot (new_host w))\<rparr>)"
    using assms
    by (simp_all add: host_register_def registerAgent_def new_host_def new_kernel_def new_agent_registry_def map_has_def
        new_lifecycle_def getState_def map_get_or_def research_at_def host_kinds_def Let_def)
  obtain s1 where s1: "on_rs_host (run_steps [host_transition RESEARCHER T_spawn, host_transition RESEARCHER T_activate])
      (?s\<lparr>rs_host := fst (?boot (new_host w))\<rparr>) = (s1, Inr ())"
    "research_at ACTIVE (map le_kind (wlogs w) @ [''LIFECYCLE_TRANSITION'', ''LIFECYCLE_TRANSITION'']) s1"
    "rs_browsing s1 = rs_browsing (?s\<lparr>rs_host := fst (?boot (new_host w))\<rparr>)"
    by (rule two_transitions [OF reg(2), where t = T_spawn and t' = T_activate and ?st1.0 = SPAWNED and ?st2.0 = ACTIVE]) simp_all
  have "on_rs_host research_boot ?s = on_rs_host (run_steps [host_transition RESEARCHER T_spawn, host_transition RESEARCHER T_activate])
      (?s\<lparr>rs_host := fst (?boot (new_host w))\<rparr>)"
    using reg(1)
    by (cases "?boot (new_host w)") (simp add: on_rs_host_def research_boot_def)
  then show thesis using that s1 by simp
qed

text \<open>A browser that was launched stays the active one.\<close>

lemma open_browser_active:
  "open_browser ops s = (s1, Inr b) \<Longrightarrow> activeBrowser s1 = Some b"
  by (auto simp: open_browser_def split: option.splits prod.splits sum.splits)

lemma closeBrowser_outcome:
  assumes "closeBrowser ops s = (s1, r)"
  shows "case r of Inr _ \<Rightarrow> activeBrowser s1 = None
     | Inl x \<Rightarrow> \<exists>br e. activeBrowser s1 = Some br \<and> snd (br_close ops br e) = Inl x"
proof (cases "activeBrowser s")
  case None
  then show ?thesis using assms by (auto simp: closeBrowser_def)
next
  case (Some br)
  obtain e q where "br_close ops br (br_env s) = (e, q)" by fastforce
  then show ?thesis
    using assms Some by (cases q) (auto simp: closeBrowser_def intro!: exI [of _ "br_env s"])
qed

lemma failed_navigation_leaks_page:
  assumes "open_browser ops s = (s1, Inr b)" and "br_newPage ops b (br_env s1) = (e1, Inr page)"
    and "br_goto ops page url e1 = (e2, Inl x)" and "url \<noteq> []"
  shows "browser_tool ops a (JObj [(''url'', JStr url)]) s =
    (s1\<lparr>br_env := e2\<rparr>, ERROR (''BROWSER_ERROR: '' @ err_message x) None)"
  using assms by (simp add: browser_tool_def read_page_def arg_prop_def caught_def failed_def)

section \<open>Properties\<close>

text \<open>The researcher goes through its script whatever its tools do. For any shell and any browser,
  also when every operation of theirs fails, both calls end in a logged result, the agent ends in
  \<open>TERMINATED\<close>, and the log gets exactly two transitions, two results and two transitions - no
  ticks, so that the run cannot be replayed. When closing the browser succeeds, or there is none,
  no browser stays active; otherwise the script is rejected with the error of the close.\<close>

theorem researcher_runs_script:
  assumes "clock_ok w"
  shows "\<exists>s r. bootstrapResearcher shell ops w b = (s, r) \<and>
    getState (k_lifecycle (h_kernel (rs_host s))) RESEARCHER = TERMINATED \<and>
    map le_kind (wlogs (k_world (h_kernel (rs_host s)))) = map le_kind (wlogs w) @
      [''LIFECYCLE_TRANSITION'', ''LIFECYCLE_TRANSITION'', ''TOOL_RESULT'', ''TOOL_RESULT'',
       ''LIFECYCLE_TRANSITION'', ''LIFECYCLE_TRANSITION''] \<and>
    (case r of
       Inr _ \<Rightarrow> activeBrowser (rs_browsing s) = None
     | Inl x \<Rightarrow> \<exists>br e. activeBrowser (rs_browsing s) = Some br \<and> snd (br_close ops br e) = Inl x)"
proof -
  let ?hs = "research_handlers shell ops"
  obtain s1 where 1: "on_rs_host research_boot \<lparr>rs_host = new_host w, rs_browsing = b\<rparr> = (s1, Inr ())"
    "research_at ACTIVE (map le_kind (wlogs w) @ [''LIFECYCLE_TRANSITION'', ''LIFECYCLE_TRANSITION'']) s1"
    by (rule research_boot_at [OF assms])
  have own: "map_of ?hs ''host.system.bash'' = Some (research_handler (in_browsing (bash_tool shell None 5000)))"
    "map_of ?hs ''host.web.browser'' = Some (research_handler (browser_tool ops))"
    by (simp_all add: research_handlers_def)
  obtain s2 where 2: "executeStep ?hs 1 diagnostic s1 = (s2, Inr ())"
    "research_at ACTIVE (map le_kind (wlogs w) @ [''LIFECYCLE_TRANSITION'', ''LIFECYCLE_TRANSITION''] @ [''TOOL_RESULT'']) s2"
    by (rule research_step [OF 1(2) diagnostic_def own(1)]) simp
  obtain s3 where 3: "executeStep ?hs 2 visit s2 = (s3, Inr ())"
    "research_at ACTIVE (map le_kind (wlogs w) @ [''LIFECYCLE_TRANSITION'', ''LIFECYCLE_TRANSITION'', ''TOOL_RESULT'', ''TOOL_RESULT'']) s3"
    by (rule research_step [OF 2(2) visit_def own(2)]) simp
  obtain s4 where 4: "on_rs_host research_end s3 = (s4, Inr ())"
    "research_at TERMINATED (map le_kind (wlogs w) @ [''LIFECYCLE_TRANSITION'', ''LIFECYCLE_TRANSITION'', ''TOOL_RESULT'',
      ''TOOL_RESULT'', ''LIFECYCLE_TRANSITION'', ''LIFECYCLE_TRANSITION'']) s4"
    unfolding research_end_def
    by (rule two_transitions [OF 3(2), where t = T_complete and t' = T_teardown_ok and ?st1.0 = COMPLETING and ?st2.0 = TERMINATED]) simp_all
  obtain b5 r where 5: "closeBrowser ops (rs_browsing s4) = (b5, r)" by fastforce
  have "bootstrapResearcher shell ops w b = (s4\<lparr>rs_browsing := b5\<rparr>, r)"
    by (cases r) (simp_all add: bootstrapResearcher_def 1(1) 2(1) 3(1) 4(1) 5)
  moreover have "case r of Inr _ \<Rightarrow> activeBrowser b5 = None
     | Inl x \<Rightarrow> \<exists>br e. activeBrowser b5 = Some br \<and> snd (br_close ops br e) = Inl x"
    by (rule closeBrowser_outcome [OF 5])
  ultimately show ?thesis
    using 4(2) by (cases r) (simp_all add: research_at_def host_kinds_def)
qed

definition no_browser :: "int browser_ops" where
  "no_browser = \<lparr>br_launch = \<lambda>e. (e, Inl (Error ''no display'')), br_newPage = \<lambda>b e. (e, Inl (Error ''closed'')),
     br_goto = \<lambda>p u e. (e, Inl (Error ''offline'')), br_innerText = \<lambda>p e. (e, Inr []),
     br_closePage = \<lambda>p e. (e, Inr ()), br_close = \<lambda>b e. (e, Inr ())\<rparr>"

theorem researcher_runs_script_witness:
  "\<exists>s r. bootstrapResearcher (\<lambda>c t e. (e, Inl (Error ''denied''))) no_browser (new_world (\<lambda>_. 7))
       \<lparr>activeBrowser = None, br_env = 0\<rparr> = (s, r) \<and>
     getState (k_lifecycle (h_kernel (rs_host s))) RESEARCHER = TERMINATED"
proof -
  have "clock_ok (new_world (\<lambda>_. 7))" by (simp add: clock_ok_def new_world_def valid_date_def)
  then show ?thesis
    using researcher_runs_script [of "new_world (\<lambda>_. 7)" "\<lambda>c t e. (e, Inl (Error ''denied''))" no_browser
        "\<lparr>activeBrowser = None, br_env = 0\<rparr>"] by blast
qed

end
