(* ===== verification/Interference.thy ===== *)
theory Interference
  imports Awaiting
begin

text \<open>
  Several runs on one scheduler (execution/scheduler.ts, \<open>Scheduler.runAgentLoop\<close>). A host that does
  not await its runs interleaves their pieces (theory \<open>Awaiting\<close>) in any order; a session is such an
  order, over one scheduler and the pending promises of every agent.

  What one agent can see is its lifecycle state, its quota and usage, its memory, its entries of the
  log up to times and sequence numbers, and its promises. \<open>separate a P\<close> says that the operation \<open>P\<close>
  of agent \<open>a\<close> changes the view of no other agent and depends on the view of \<open>a\<close> only; the collection
  \<open>separates\<close> builds the whole run of an agent from such operations. The locale \<open>noninterference\<close>
  draws the conclusion: the operations of the others can be left out.
\<close>

section \<open>Noninterference\<close>

locale noninterference =
  fixes step :: "'o \<Rightarrow> 's \<Rightarrow> 's"
    and dom :: "'o \<Rightarrow> 'd"
    and view :: "'d \<Rightarrow> 's \<Rightarrow> 'v"
  assumes local_respect: "dom x \<noteq> d \<Longrightarrow> view d (step x s) = view d s"
    and step_consistent: "view d s = view d t \<Longrightarrow> dom x = d \<Longrightarrow> view d (step x s) = view d (step x t)"
begin

lemma view_cong: "view d s = view d t \<Longrightarrow> view d (fold step xs s) = view d (fold step xs t)"
proof (induction xs arbitrary: s t)
  case (Cons x xs)
  have "view d (step x s) = view d (step x t)"
    using Cons.prems by (cases "dom x = d") (auto simp: local_respect intro: step_consistent)
  from Cons.IH [OF this] show ?case by simp
qed simp

lemma purge: "view d (fold step xs s) = view d (fold step (filter (\<lambda>x. dom x = d) xs) s)"
proof (induction xs arbitrary: s)
  case (Cons x xs)
  show ?case
  proof (cases "dom x = d")
    case False
    then have "view d (fold step xs (step x s)) = view d (fold step xs s)"
      by (intro view_cong) (simp add: local_respect)
    then show ?thesis using False Cons.IH by simp
  qed (simp add: Cons.IH)
qed simp

lemma interleavings_agree:
  assumes "view d s = view d t" and "filter (\<lambda>x. dom x = d) xs = filter (\<lambda>x. dom x = d) ys"
  shows "view d (fold step xs s) = view d (fold step ys t)"
  using view_cong [OF assms(1)] purge [of d xs s] purge [of d ys t] assms(2) by simp

end

section \<open>What an agent sees of the scheduler\<close>

text \<open>An entry of the log without its time and its sequence number.\<close>

definition seen_entry :: "log_entry \<Rightarrow> string \<times> jsval \<times> (string \<times> jsval) list" where
  "seen_entry e = (le_kind e, le_payload e, le_fields e)"

definition seen_log :: "string \<Rightarrow> world \<Rightarrow> (string \<times> jsval \<times> (string \<times> jsval) list) list" where
  "seen_log a w = map seen_entry (getLogsForAgent (wlog w) a)"

type_synonym agent_view =
  "agent_state \<times> quota option \<times> consumption \<times> (jserr + jsval) \<times> (string \<times> jsval \<times> (string \<times> jsval) list) list"

definition agent_view :: "string \<Rightarrow> 'x sw \<Rightarrow> agent_view" where
  "agent_view a sw =
     (let (s, w) = sw
      in (getState (sc_lifecycle s) a, getQuota (sc_quota s) a, getUsage (sc_quota s) a, memory_of a s, seen_log a w))"

lemma agent_view_eq:
  "agent_view a (s, w) = agent_view b (r, v) \<longleftrightarrow>
     getState (sc_lifecycle s) a = getState (sc_lifecycle r) b \<and>
     getQuota (sc_quota s) a = getQuota (sc_quota r) b \<and> getUsage (sc_quota s) a = getUsage (sc_quota r) b \<and>
     memory_of a s = memory_of b r \<and> seen_log a w = seen_log b v"
  by (simp add: agent_view_def)

lemma seen_log_simps [simp]:
  "seen_log b (tick_clock w) = seen_log b w"
  "seen_log b (log_event k a p w) = seen_log b w @ (if b = a then [(k, p, [])] else [])"
  "seen_log b (log_transition a r w) =
     seen_log b w @ (if b = a then [seen_entry (stamp (transition_entry a r) 0)] else [])"
  by (simp_all add: seen_log_def getLogsForAgent_def seen_entry_def transition_entry_def)

text \<open>What a run looks up in the log is visible to its agent.\<close>

lemma find_map: "(\<And>x. P x \<longleftrightarrow> Q (f x)) \<Longrightarrow> map_option f (List.find P xs) = List.find Q (map f xs)"
  by (induction xs) auto

lemma find_entry_seen:
  "seen_log a w = seen_log a v \<Longrightarrow>
   map_option le_payload (find_entry k a n w) = map_option le_payload (find_entry k a n v)"
proof -
  have "map_option le_payload (find_entry k a n u) = map_option (\<lambda>(_, p, _). p)
      (List.find (\<lambda>(kd, p, _). kd = k \<and> js_truthy p \<and> js_strict_eq (js_prop p ''sequenceNumber'') (jint n))
        (seen_log a u))" for u
    unfolding seen_log_def
    by (subst find_map [symmetric, where P = "entry_for k n"])
      (simp_all add: seen_entry_def entry_for_def find_entry_def option.map_comp o_def)
  then show "seen_log a w = seen_log a v \<Longrightarrow> ?thesis" by simp
qed

section \<open>Separate operations\<close>

named_theorems separates

definition separate :: "string \<Rightarrow> ('x sw \<Rightarrow> 'x sw \<times> 'r) \<Rightarrow> bool" where
  "separate a P \<longleftrightarrow>
     (\<forall>x y. agent_view a x = agent_view a y \<longrightarrow>
        agent_view a (fst (P x)) = agent_view a (fst (P y)) \<and> snd (P x) = snd (P y)) \<and>
     (\<forall>b x. b \<noteq> a \<longrightarrow> agent_view b (fst (P x)) = agent_view b x)"

lemma separateI:
  assumes "\<And>x y. agent_view a x = agent_view a y \<Longrightarrow>
      agent_view a (fst (P x)) = agent_view a (fst (P y)) \<and> snd (P x) = snd (P y)"
    and "\<And>b x. b \<noteq> a \<Longrightarrow> agent_view b (fst (P x)) = agent_view b x"
  shows "separate a P"
  unfolding separate_def using assms by blast

lemma separate_same:
  "separate a P \<Longrightarrow> agent_view a x = agent_view a y \<Longrightarrow>
   agent_view a (fst (P x)) = agent_view a (fst (P y)) \<and> snd (P x) = snd (P y)"
  unfolding separate_def by blast

lemma separate_other: "separate a P \<Longrightarrow> b \<noteq> a \<Longrightarrow> agent_view b (fst (P x)) = agent_view b x"
  unfolding separate_def by blast

lemma separate_return [separates]: "separate a (\<lambda>x. (x, r))"
  by (rule separateI) auto

lemma separate_then [separates]:
  assumes "separate a P" and "\<And>r. separate a (\<lambda>x. Q x r)"
  shows "separate a (\<lambda>x. case P x of (y, r) \<Rightarrow> Q y r)"
proof (rule separateI)
  fix x y :: "'a sw" assume "agent_view a x = agent_view a y"
  then show "agent_view a (fst (case P x of (y, r) \<Rightarrow> Q y r)) = agent_view a (fst (case P y of (y, r) \<Rightarrow> Q y r)) \<and>
      snd (case P x of (y, r) \<Rightarrow> Q y r) = snd (case P y of (y, r) \<Rightarrow> Q y r)"
    using separate_same [OF assms(1), of x y] separate_same [OF assms(2), of "fst (P x)" "fst (P y)" "snd (P x)"]
    by (simp add: case_prod_beta)
next
  fix b and x :: "'a sw" assume "b \<noteq> a"
  then show "agent_view b (fst (case P x of (y, r) \<Rightarrow> Q y r)) = agent_view b x"
    using separate_other [OF assms(1), of b x] separate_other [OF assms(2), of b "fst (P x)" "snd (P x)"]
    by (simp add: case_prod_beta)
qed

lemma separate_sum [separates]:
  "(\<And>e. separate a (\<lambda>x. F x e)) \<Longrightarrow> (\<And>u. separate a (\<lambda>x. G x u)) \<Longrightarrow>
   separate a (\<lambda>x. case r of Inl e \<Rightarrow> F x e | Inr u \<Rightarrow> G x u)"
  by (cases r) simp_all

lemma separate_output [separates]:
  assumes "\<And>v. separate a (\<lambda>x. A x v)" and "\<And>n args. separate a (\<lambda>x. B x n args)"
    and "\<And>t p. separate a (\<lambda>x. C x t p)" and "\<And>e. separate a (\<lambda>x. D x e)"
  shows "separate a (\<lambda>x. case out of COMPLETED v \<Rightarrow> A x v | PENDING_TOOL n args \<Rightarrow> B x n args
    | PENDING_DELEGATION t p \<Rightarrow> C x t p | FAILED e \<Rightarrow> D x e)"
  using assms by (cases out) simp_all

lemma separate_if [separates]:
  "separate a P \<Longrightarrow> separate a Q \<Longrightarrow> separate a (\<lambda>x. if c then P x else Q x)"
  by (cases c) simp_all

text \<open>A decision that depends on the view.\<close>

lemma separate_seen:
  assumes "\<And>x y. agent_view a x = agent_view a y \<Longrightarrow> f x = f y" and "\<And>v. separate a (\<lambda>x. Q x v)"
  shows "separate a (\<lambda>x. Q x (f x))"
proof (rule separateI)
  fix x y :: "'a sw" assume v: "agent_view a x = agent_view a y"
  show "agent_view a (fst (Q x (f x))) = agent_view a (fst (Q y (f y))) \<and> snd (Q x (f x)) = snd (Q y (f y))"
    using separate_same [OF assms(2) v, of "f x"] assms(1) [OF v] by simp
next
  fix b and x :: "'a sw" assume "b \<noteq> a"
  then show "agent_view b (fst (Q x (f x))) = agent_view b x"
    using separate_other [OF assms(2)] by simp
qed

lemma state_seen: "agent_view a x = agent_view a y \<Longrightarrow> getState (sc_lifecycle (fst x)) a = getState (sc_lifecycle (fst y)) a"
  by (cases x; cases y) (simp add: agent_view_eq)

lemma hash_seen: "agent_view a x = agent_view a y \<Longrightarrow> state_hash sha a out (fst x) = state_hash sha a out (fst y)"
  by (cases x; cases y) (simp add: agent_view_eq state_hash_def split: sum.split)

lemma found_seen:
  "agent_view a x = agent_view a y \<Longrightarrow>
   map_option le_payload (find_entry k a n (snd x)) = map_option le_payload (find_entry k a n (snd y))"
  by (cases x; cases y) (rule find_entry_seen, simp add: agent_view_eq)

section \<open>The operations of the scheduler\<close>

text \<open>An operation on the log and the clock.\<close>

definition on_world :: "(world \<Rightarrow> world \<times> 'r) \<Rightarrow> 'x sw \<Rightarrow> 'x sw \<times> 'r" where
  "on_world f x = (let (w, r) = f (snd x) in ((fst x, w), r))"

lemma separate_log [separates]: "separate a (on_world (\<lambda>w. (log_event k a p w, r)))"
  by (rule separateI) (simp_all add: agent_view_eq split_paired_all on_world_def)

lemma separate_clock [separates]: "separate a (on_world (\<lambda>w. (tick_clock w, r)))"
  by (rule separateI) (simp_all add: agent_view_eq split_paired_all on_world_def)

lemma separate_force [separates]: "separate a (\<lambda>x. (sc_force a st x, r))"
  by (rule separateI) (simp_all add: agent_view_eq split_paired_all sc_force_def)

lemma separate_consume [separates]:
  "separate a (sc_consume consumeTick a)" "separate a (sc_consume consumeToolCall a)"
  by (rule separateI; simp add: agent_view_eq split_paired_all sc_consume_simps consumeTick_def
      consumeToolCall_def getQuota_def getUsage_def Let_def split: option.split)+

lemma sc_transition_cases:
  "sc_transition a t (s, w) =
     (case next_state (getState (sc_lifecycle s) a) t of
        None \<Rightarrow> ((s, w), Inl (invalid_transition a (getState (sc_lifecycle s) a) t))
      | Some st \<Rightarrow>
          let r = transition_taken a t JUndef (sc_lifecycle s) w st
          in ((s\<lparr>sc_lifecycle := apply_transition a r ((sc_lifecycle s)\<lparr>busSeqCounter := busSeqCounter (sc_lifecycle s) + 1\<rparr>)\<rparr>,
               log_transition a r w), Inr ()))"
  by (simp add: sc_transition_def transition_error transition_ok Let_def split: option.split)

lemma separate_transition [separates]: "separate a (sc_transition a t)"
  by (rule separateI)
    (simp_all add: agent_view_eq split_paired_all sc_transition_cases transition_taken_def seen_entry_def
      transition_entry_def Let_def split: option.split)

lemma separate_record [separates]:
  "separate a (on_world (record_tick mode a n instr out h) :: 'x sw \<Rightarrow> 'x sw \<times> (jserr + unit))"
proof (cases "mode = LIVE")
  case True
  then show ?thesis
    using separate_log by (simp add: record_tick_def [abs_def])
next
  case False
  let ?found = "\<lambda>w. map_option le_payload (find_entry ''TICK_OUTPUT'' a n w)"
  let ?answer = "\<lambda>found. case found of
      None \<Rightarrow> Inl (Error ''REPLAY_MISSING_LOG'')
    | Some p \<Rightarrow> if js_strict_eq (js_prop p ''stateHash'') (JStr h) then Inr ()
        else Inl (divergence n (js_prop p ''stateHash'') h)"
  have "on_world (record_tick mode a n instr out h) = (\<lambda>x :: 'x sw. (x, ?answer (?found (snd x))))"
    using False by (auto simp: fun_eq_iff on_world_def record_tick_def Let_def split: option.split)
  moreover have "separate a (\<lambda>x :: 'x sw. (x, ?answer (?found (snd x))))"
    by (rule separate_seen [where f = "\<lambda>x. ?found (snd x)" and Q = "\<lambda>x v. (x, ?answer v)", OF found_seen separate_return])
  ultimately show ?thesis by simp
qed

lemma loop_tick_steps:
  "loop_tick mode sha a n instr =
     (\<lambda>x. case sc_consume consumeTick a x of (y, r) \<Rightarrow>
        (case r of
           Inl e \<Rightarrow> (y, Inl e)
         | Inr u \<Rightarrow>
             let out = run_tick \<lparr>ti_agentId = a, ti_sequenceNumber = n, ti_instruction = instr, ti_maxSteps = 100\<rparr>
             in (case state_hash sha a out (fst y) of
                   Inl e \<Rightarrow> (y, Inl e)
                 | Inr h \<Rightarrow>
                     (case on_world (record_tick mode a n instr out h) y of (z, r) \<Rightarrow>
                        (case r of Inl e \<Rightarrow> (z, Inl e) | Inr v \<Rightarrow> (z, Inr out))))))"
  by (auto simp: fun_eq_iff loop_tick_def on_world_def Let_def split: prod.split sum.split)

lemma separate_tick [separates]: "separate a (loop_tick mode sha a n instr)"
proof -
  have "separate a (\<lambda>y. case state_hash sha a out (fst y) of
      Inl e \<Rightarrow> (y, Inl e)
    | Inr h \<Rightarrow> (case on_world (record_tick mode a n instr out h) y of (z, r) \<Rightarrow>
        (case r of Inl e \<Rightarrow> (z, Inl e) | Inr v \<Rightarrow> (z, Inr out))))" for out
    by (rule separate_seen [where f = "\<lambda>y. state_hash sha a out (fst y)"], erule hash_seen, intro separates)
  then show ?thesis
    unfolding loop_tick_steps Let_def by (intro separates)
qed

lemma separate_complete [separates]: "separate a (complete_agent mode a)"
  unfolding complete_agent_def [abs_def] by (intro separates)

lemma separate_fail [separates]: "separate a (fail_agent mode a)"
  unfolding fail_agent_def [abs_def] by (intro separates)

lemma separate_yield [separates]: "separate a (yield_agent mode a)"
  unfolding yield_agent_def [abs_def] by (intro separates)

text \<open>A registry is steady if what its tools return does not depend on the state of the host; what
  they do to it is their own business.\<close>

definition steady :: "'x registry \<Rightarrow> bool" where
  "steady reg \<longleftrightarrow> (\<forall>name h a args s t. map_of (tools reg) name = Some h \<longrightarrow> snd (h a args s) = snd (h a args t))"

lemma executeSync_result:
  "snd (executeSync reg name a args s) =
     (case map_of (tools reg) name of
        None \<Rightarrow> ERROR (''Tool '' @ name @ '' not found.'') None
      | Some h \<Rightarrow>
          (case snd (h a args s) of
             Inl e \<Rightarrow> threw name (err_message e)
           | Inr Promised \<Rightarrow> threw name ''Async ToolHandlers are forbidden in the synchronous TickEngine.''
           | Inr (Returned res) \<Rightarrow> res))"
  by (simp add: executeSync_def split: option.split prod.split sum.split handler_return.split)

lemma steady_result:
  assumes "steady reg"
  shows "snd (executeSync reg name a args s) = snd (executeSync reg name a args t)"
proof (cases "map_of (tools reg) name")
  case (Some h)
  then have "snd (h a args s) = snd (h a args t)"
    using assms unfolding steady_def by blast
  then show ?thesis by (simp add: executeSync_result Some)
qed (simp add: executeSync_result)

lemma env_unseen [simp]: "agent_view b (s\<lparr>sc_env := e\<rparr>, w) = agent_view b (s, w)"
  by (simp add: agent_view_eq memory_of_def)

lemma separate_call [separates]:
  fixes reg :: "'x registry"
  assumes "steady reg"
  shows "separate a (call_handler (adapted_handlers reg) name args)"
proof (cases "map_of (adapted_handlers reg) name")
  case (Some h)
  then obtain m where "h = adapted_handler reg m"
    by (auto simp: adapted_handlers_def dest!: map_of_SomeD)
  then have "call_handler (adapted_handlers reg) name args = adapted_handler reg m args"
    using Some by (simp add: fun_eq_iff call_handler_def handler_lookup_def)
  moreover have "separate a (adapted_handler reg m args)"
  proof (rule separateI)
    fix x y :: "'x sw"
    assume "agent_view a x = agent_view a y"
    then show "agent_view a (fst (adapted_handler reg m args x)) = agent_view a (fst (adapted_handler reg m args y)) \<and>
        snd (adapted_handler reg m args x) = snd (adapted_handler reg m args y)"
      using steady_result [OF assms, of m "''system''" args "sc_env (fst x)" "sc_env (fst y)"]
      by (cases x; cases y) (simp add: adapted_handler_def case_prod_beta Let_def)
  qed (simp add: split_paired_all adapted_handler_def case_prod_beta Let_def)
  ultimately show ?thesis by simp
next
  case None
  then have "\<exists>r. call_handler (adapted_handlers reg) name args = (\<lambda>x. (x, r))"
    by (auto simp: fun_eq_iff call_handler_def handler_lookup_def)
  then show ?thesis by (elim exE) (simp add: separate_return)
qed

section \<open>The pieces of a run\<close>

lemma separate_catch [separates]: "separate a (\<lambda>x. run_catch mode a (x, r))"
proof (cases r)
  case (Inl e)
  have "separate a (\<lambda>x :: 'x sw. case sc_transition a T_error x of (y, q) \<Rightarrow> (y, Inl e))" for e
    by (intro separates)
  then have "separate a (\<lambda>x :: 'x sw. (fst (sc_transition a T_error x), Inl e))" for e
    by (simp add: case_prod_beta)
  then show ?thesis
    unfolding run_catch_def Inl prod.case sum.case by (intro separates)
qed (simp add: run_catch_def separate_return)

lemma separate_settle [separates]: "separate a (\<lambda>x. settle mode a (x, r))"
  unfolding settle_def Let_def by (intro separates)

lemma separate_settled [separates]: "separate a P \<Longrightarrow> separate a (\<lambda>x. settle mode a (P x))"
  using separate_then [of a P "\<lambda>y r. settle mode a (y, r)", OF _ separate_settle] by simp

lemma gate_start_steps:
  "gate_start hs mode a n name args =
     (\<lambda>x. case on_world (\<lambda>w. (tick_clock w, ())) x of (x1, u) \<Rightarrow>
        (if mode = LIVE then
           (case call_handler hs name args x1 of (y, r) \<Rightarrow>
              (case r of
                 Inl e \<Rightarrow> on_world (\<lambda>w. (tick_clock w, Resuming n (Inl e))) y
               | Inr result \<Rightarrow> (y, Calling n name args result)))
         else (case gate_body hs mode a n name args x1 of (y, r) \<Rightarrow>
                 on_world (\<lambda>w. (tick_clock w, Resuming n r)) y)))"
  by (auto simp: fun_eq_iff gate_start_def on_world_def Let_def split: prod.split sum.split)

lemma separate_lookup:
  assumes "mode \<noteq> LIVE"
  shows "separate a (gate_body hs mode a n name args :: 'x sw \<Rightarrow> 'x sw \<times> (jserr + jsval))"
proof (cases mode)
  case REPLAY
  let ?found = "\<lambda>w. map_option le_payload (find_entry ''TOOL_RESULT'' a n w)"
  let ?answer = "\<lambda>found. case found of
      None \<Rightarrow> Inl (Error ''REPLAY_MISSING_TOOL_RESULT'')
    | Some p \<Rightarrow> Inr (js_prop p ''result'')"
  have "gate_body hs mode a n name args = (\<lambda>x :: 'x sw. (x, ?answer (?found (snd x))))"
    by (auto simp: fun_eq_iff gate_body_def REPLAY split: option.split)
  moreover have "separate a (\<lambda>x :: 'x sw. (x, ?answer (?found (snd x))))"
    by (rule separate_seen [where f = "\<lambda>x. ?found (snd x)" and Q = "\<lambda>x v. (x, ?answer v)", OF found_seen separate_return])
  ultimately show ?thesis by simp
qed (use assms in \<open>simp_all add: gate_body_def [abs_def] separate_return\<close>)

lemma separate_gate [separates]:
  assumes "steady reg"
  shows "separate a (gate_start (adapted_handlers reg) mode a n name args)"
proof (cases "mode = LIVE")
  case True
  then show ?thesis
    unfolding gate_start_steps by (simp only: simp_thms if_True) (intro separates assms)
next
  case False
  then show ?thesis
    unfolding gate_start_steps by (simp only: if_False) (intro separates separate_lookup)
qed

lemma separate_enter [separates]:
  "steady reg \<Longrightarrow> separate a (enter_loop (adapted_handlers reg) mode sha a n instr)"
  unfolding enter_loop_def [abs_def] by (intro separates)

lemma separate_start [separates]:
  fixes reg :: "'x registry"
  assumes "steady reg"
  shows "separate a (start_run (adapted_handlers reg) mode sha a instr)"
proof -
  have "separate a (\<lambda>x :: 'x sw. if st \<noteq> ACTIVE then (x, Settled (Inl (Error (''Agent '' @ a @ '' is not ACTIVE''))))
      else enter_loop (adapted_handlers reg) mode sha a 1 instr x)" for st
    by (intro separates assms)
  then show ?thesis
    unfolding start_run_def [abs_def]
    by (rule separate_seen [where f = "\<lambda>x. getState (sc_lifecycle (fst x)) a"
        and Q = "\<lambda>x st. if st \<noteq> ACTIVE then (x, Settled (Inl (Error (''Agent '' @ a @ '' is not ACTIVE''))))
          else enter_loop (adapted_handlers reg) mode sha a 1 instr x", rotated]) (erule state_seen)
qed

lemma separate_resume [separates]:
  assumes "steady reg"
  shows "separate a (\<lambda>x. resume (adapted_handlers reg) mode sha a (x, r))"
proof (cases r)
  case (Calling n name args v)
  have "(\<lambda>x. resume (adapted_handlers reg) mode sha a (x, r)) =
      (\<lambda>x. case on_world (\<lambda>w. (log_event ''TOOL_RESULT'' a (tool_payload n name args v) w, ())) x of (y, u) \<Rightarrow>
        on_world (\<lambda>w. (tick_clock w, Resuming n (Inr v))) y)"
    by (simp add: fun_eq_iff Calling on_world_def split_paired_all)
  then show ?thesis by (simp only:) (intro separates)
next
  case (Resuming n q)
  then show ?thesis
    by (cases q) (simp_all, (intro separates assms)+)
qed (simp add: separate_return)

section \<open>Sessions\<close>

text \<open>One scheduler and, for every agent, the promises of its runs in the order they were made. An
  agent may have several: nothing in the scheduler keeps a second run from starting.\<close>

type_synonym 'x session = "'x sw \<times> (string \<Rightarrow> run list)"

datatype run_op = Start string instruction | Resume string nat

fun op_agent :: "run_op \<Rightarrow> string" where
  "op_agent (Start a instr) = a"
| "op_agent (Resume a i) = a"

fun session_step ::
  "'x sched handlers \<Rightarrow> kernel_mode \<Rightarrow> (string \<Rightarrow> string) \<Rightarrow> run_op \<Rightarrow> 'x session \<Rightarrow> 'x session" where
  "session_step hs mode sha (Start a instr) (sw, runs) =
     (let (sw1, r) = start_run hs mode sha a instr sw in (sw1, runs(a := runs a @ [r])))"
| "session_step hs mode sha (Resume a i) (sw, runs) =
     (if i < length (runs a) then
        let (sw1, r) = resume hs mode sha a (sw, runs a ! i) in (sw1, runs(a := (runs a)[i := r]))
      else (sw, runs))"

definition session_view :: "string \<Rightarrow> 'x session \<Rightarrow> agent_view \<times> run list" where
  "session_view a \<sigma> = (agent_view a (fst \<sigma>), snd \<sigma> a)"

lemma session_noninterference:
  fixes reg :: "'x registry"
  assumes "steady reg"
  shows "noninterference (session_step (adapted_handlers reg) mode sha) op_agent session_view"
proof
  fix x d and \<sigma> :: "'x session"
  assume "op_agent x \<noteq> d"
  then show "session_view d (session_step (adapted_handlers reg) mode sha x \<sigma>) = session_view d \<sigma>"
    using separate_other [OF separate_start [OF assms]] separate_other [OF separate_resume [OF assms]]
    by (cases x; cases \<sigma>) (auto simp: session_view_def case_prod_beta Let_def)
next
  fix d x and \<sigma> \<tau> :: "'x session"
  assume v: "session_view d \<sigma> = session_view d \<tau>" and d: "op_agent x = d"
  obtain s p t q where st: "\<sigma> = (s, p)" "\<tau> = (t, q)" by fastforce
  have same: "agent_view d s = agent_view d t" "p d = q d"
    using v st by (simp_all add: session_view_def)
  show "session_view d (session_step (adapted_handlers reg) mode sha x \<sigma>) =
      session_view d (session_step (adapted_handlers reg) mode sha x \<tau>)"
  proof (cases x)
    case (Start a instr)
    then show ?thesis
      using d same separate_same [OF separate_start [OF assms] same(1)]
      by (auto simp: st session_view_def case_prod_beta Let_def)
  next
    case (Resume a i)
    then show ?thesis
      using d same separate_same [OF separate_resume [OF assms] same(1)]
      by (auto simp: st session_view_def case_prod_beta Let_def)
  qed
qed

lemma core_steady: "steady demo_host"
  by (auto simp: steady_def demo_host_def bootstrapCoreTools_def core_tools_def new_registry_def
      register_tool_def map_has_def read_file_tool_def fetch_tool_def ask_user_tool_def)

interpretation core_session: noninterference "session_step (adapted_handlers demo_host) mode sha" op_agent session_view for mode sha
  by (rule session_noninterference [OF core_steady])

text \<open>The promise of an agent's only run, resumed on its own.\<close>

lemma resume_only_run:
  "fold (session_step hs mode sha) (replicate k (Resume a 0)) (sw, runs(a := [r])) =
     (let (sw1, r1) = (resume hs mode sha a ^^ k) (sw, r) in (sw1, runs(a := [r1])))"
proof (induction k arbitrary: sw r)
  case (Suc k)
  obtain sw1 r1 where 1: "resume hs mode sha a (sw, r) = (sw1, r1)" by fastforce
  then have "session_step hs mode sha (Resume a 0) (sw, runs(a := [r])) = (sw1, runs(a := [r1]))"
    by simp
  then show ?case
    by (simp only: replicate_Suc fold_Cons o_apply Suc.IH 1 funpow_Suc_right)
qed simp

lemma alone:
  assumes "snd \<sigma> a = []" and "runAgentLoop hs mode sha a instr (fst \<sigma>) = (sw1, r)"
  shows "session_view a (fold (session_step hs mode sha) (Start a instr # replicate (k + 2) (Resume a 0)) \<sigma>) =
    (agent_view a sw1, [Settled r])"
proof -
  obtain sw runs where \<sigma>: "\<sigma> = (sw, runs)" by fastforce
  obtain sw0 r0 where 0: "start_run hs mode sha a instr sw = (sw0, r0)" by fastforce
  have "(resume hs mode sha a ^^ (k + 2)) (sw0, r0) = (sw1, Settled r)"
    using resumed_run [of k hs mode sha a instr sw] assms(2) 0 by (simp add: \<sigma>)
  then have "fold (session_step hs mode sha) (replicate (k + 2) (Resume a 0)) (sw0, runs(a := [r0])) =
      (sw1, runs(a := [Settled r]))"
    by (simp only: resume_only_run Let_def prod.case)
  then show ?thesis
    using assms(1) 0 by (simp add: \<sigma> session_view_def)
qed

section \<open>Two runs of one agent\<close>

text \<open>What a run of the agent reads, and the ticks it has logged.\<close>

definition ready :: "string \<Rightarrow> agent_state \<Rightarrow> jsval \<Rightarrow> nat \<Rightarrow> 'x sw \<Rightarrow> bool" where
  "ready a st mem k sw \<longleftrightarrow>
     getState (sc_lifecycle (fst sw)) a = st \<and> unmetered a (fst sw) \<and> memory_of a (fst sw) = Inr mem \<and>
     ticks_logged a (snd sw) = k"

lemma ready_tick:
  assumes "ready a st mem k sw" and "is_json mem \<and> wf_js mem"
    and out: "out = run_tick \<lparr>ti_agentId = a, ti_sequenceNumber = n, ti_instruction = instr, ti_maxSteps = 100\<rparr>"
    and "is_json (output_js out) \<and> wf_js (output_js out)"
  obtains sw1 where "loop_tick LIVE sha a n instr sw = (sw1, Inr out)" "ready a st mem (Suc k) sw1"
    "sc_env (fst sw1) = sc_env (fst sw)"
proof -
  obtain s w where sw: "sw = (s, w)" by fastforce
  let ?s = "s\<lparr>sc_quota := fst (consumeTick a (sc_quota s))\<rparr>"
  have r: "unmetered a s" "memory_of a s = Inr mem" "getState (sc_lifecycle s) a = st" "ticks_logged a w = k"
    using assms(1) by (simp_all add: ready_def sw)
  have "is_json (kernel_state out st mem) \<and> wf_js (kernel_state out st mem)"
    using assms(2,4) by (simp add: kernel_state_def)
  then obtain h where h: "state_hash sha a out s = Inr h"
    using hash_state_json [of "kernel_state out st mem" sha] r by (auto simp: state_hash_def)
  have "loop_tick LIVE sha a n instr sw = ((?s, log_event ''TICK_OUTPUT'' a (tick_payload n instr out h) w), Inr out)"
    using h r by (simp add: sw loop_tick_def unmetered_consume record_tick_def Let_def flip: out)
  then show ?thesis
    by (rule that) (use r unmetered_consume(3) [OF r(1)] in \<open>simp_all add: ready_def sw ticks_logged_event\<close>)
qed

lemma ready_call:
  assumes "ready a ACTIVE mem k sw" and "is_json mem \<and> wf_js mem" and "is_json args \<and> wf_js args"
    and name: "name \<in> mf_name ` set (listTools reg)"
    and v: "v = tool_result_js (snd (executeSync reg name ''system'' args (sc_env (fst sw))))"
  obtains sw1 where "start_run (adapted_handlers reg) LIVE sha a (CALL_TOOL name args) sw = (sw1, Calling 1 name args v)"
    "ready a ACTIVE mem (Suc k) sw1"
proof -
  obtain sw1 where 1: "loop_tick LIVE sha a 1 (CALL_TOOL name args) sw = (sw1, Inr (PENDING_TOOL name args))"
    "ready a ACTIVE mem (Suc k) sw1" "sc_env (fst sw1) = sc_env (fst sw)"
    by (rule ready_tick [OF assms(1,2), where n = 1 and instr = "CALL_TOOL name args" and sha = sha])
      (simp only: run_tick_100 instruction.case, use assms(3) in simp, rule that)
  obtain s w where sw1: "sw1 = (s, w)" by fastforce
  have un: "unmetered a s" using 1(2) by (simp add: ready_def sw1)
  let ?s = "s\<lparr>sc_quota := fst (consumeToolCall a (sc_quota s))\<rparr>"
  obtain env res where x: "executeSync reg name ''system'' args (sc_env s) = (env, res)" by fastforce
  have "map_of (adapted_handlers reg) name = Some (adapted_handler reg name)"
    using name adapted_handlers_lookup
    by (cases "map_of (adapted_handlers reg) name") (force simp: adapted_handlers_def map_of_eq_None_iff)+
  then have "start_run (adapted_handlers reg) LIVE sha a (CALL_TOOL name args) sw =
      ((?s\<lparr>sc_env := env\<rparr>, tick_clock w), Calling 1 name args v)"
    using assms(1) 1 x v unmetered_consume(2) [OF un]
    by (simp add: start_run_def ready_def enter_call gate_start_def call_handler_def handler_lookup_def
        adapted_handler_def sw1 Let_def)
  then show ?thesis
    by (rule that) (use 1(2) unmetered_consume(4) [OF un] in \<open>simp_all add: ready_def sw1 memory_of_def unmetered_def\<close>)
qed

lemma ready_called:
  assumes "ready a st mem k sw"
  obtains sw1 where "resume hs LIVE sha a (sw, Calling n name args v) = (sw1, Resuming n (Inr v))"
    "ready a st mem k sw1"
proof (cases sw)
  case (Pair s w)
  then show ?thesis
    using assms
    by (intro that [of "(s, tick_clock (log_event ''TOOL_RESULT'' a (tool_payload n name args v) w))"])
      (simp_all add: ready_def ticks_logged_event)
qed

lemma sc_transition_frame:
  "sc_transition a t (s, w) = ((s', w'), r) \<Longrightarrow>
   sc_quota s' = sc_quota s \<and> sc_store s' = sc_store s"
  by (auto simp: sc_transition_cases Let_def split: option.splits)

lemma complete_frame:
  "complete_agent LIVE a (s, w) = ((s', w'), r) \<Longrightarrow>
   unmetered a s' = unmetered a s \<and> memory_of a s' = memory_of a s"
  by (auto simp: complete_agent_def unmetered_def memory_of_def split: prod.splits sum.splits
      dest!: sc_transition_frame)

lemma ready_resumed:
  assumes "ready a st mem k sw" and "is_json mem \<and> wf_js mem" and "is_json v \<and> wf_js v" and "st \<in> {ACTIVE, TERMINATED}"
  obtains sw1 where "resume hs LIVE sha a (sw, Resuming n (Inr v)) =
      (sw1, Settled (if st = ACTIVE then Inr () else Inl (invalid_transition a TERMINATED T_complete)))"
    "ready a TERMINATED mem (Suc k) sw1"
proof -
  obtain sw1 where 1: "loop_tick LIVE sha a (n + 1) (RETURN v) sw = (sw1, Inr (COMPLETED v))"
    "ready a st mem (Suc k) sw1"
    by (rule ready_tick [OF assms(1,2), where n = "n + 1" and instr = "RETURN v" and sha = sha])
      (simp only: run_tick_100 instruction.case, use assms(3) in simp, rule that)
  then have r: "resume hs LIVE sha a (sw, Resuming n (Inr v)) = settle LIVE a (complete_agent LIVE a sw1)"
    by (simp add: enter_loop_def)
  obtain s w where sw1: "sw1 = (s, w)" by fastforce
  show ?thesis
  proof (cases "st = ACTIVE")
    case True
    then have "getState (sc_lifecycle s) a = ACTIVE"
      using 1(2) by (simp add: ready_def sw1)
    then obtain s2 w2 es where 2: "leave LIVE a (RETURN v) (s, w) = ((s2, w2), Inr ())" "wlogs w2 = wlogs w @ es"
      "\<forall>e \<in> set es. le_kind e = ''LIFECYCLE_TRANSITION''"
      by (rule leave_ok)
    have done_: "complete_agent LIVE a sw1 = ((s2, w2), Inr ())"
      using 2(1) by (simp add: leave_def sw1)
    moreover have "ready a TERMINATED mem (Suc k) (s2, w2)"
      using 1(2) leave_state [OF 2(1)] complete_frame [OF done_ [unfolded sw1]] ticks_logged_other [OF 2(2), of a] 2(3)
      by (simp add: ready_def sw1)
    ultimately show ?thesis
      using True r by (intro that [of "(s2, w2)"]) (simp_all add: settle_def run_catch_def)
  next
    case False
    then have "complete_agent LIVE a sw1 = (sw1, Inl (invalid_transition a TERMINATED T_complete))"
      using assms(4) 1(2) by (simp add: complete_agent_def sc_transition_cases sw1 ready_def)
    then show ?thesis
      using False assms(4) 1(2) r by (intro that [of sw1]) (simp_all add: settle_def run_catch_def invalid_transition_def)
  qed
qed

section \<open>Properties\<close>

text \<open>C6: Agents do not interfere. Let several agents run on one scheduler, in any kernel mode, with
  tools whose results do not depend on the state of the host, and let the host interleave the
  pieces of their runs as it likes. Two interleavings that start and resume the runs of an agent in
  the same order end with the same view of that agent: its state, quota and usage, memory, entries of
  the log up to times and sequence numbers, and the outcomes of its runs are the same, whatever
  the other agents did.\<close>

theorem agents_do_not_interfere:
  assumes "steady reg" and "filter (\<lambda>x. op_agent x = a) xs = filter (\<lambda>x. op_agent x = a) ys"
  shows "session_view a (fold (session_step (adapted_handlers reg) mode sha) xs \<sigma>) =
    session_view a (fold (session_step (adapted_handlers reg) mode sha) ys \<sigma>)"
  by (rule noninterference.interleavings_agree [OF session_noninterference [OF assms(1)] refl assms(2)])

theorem agents_do_not_interfere_witness:
  "session_view ''a'' (fold (session_step (adapted_handlers demo_host) LIVE id)
     [Start ''b'' NOOP, Start ''a'' demo_instr, Start ''b'' NOOP, Resume ''a'' 0] ((demo_sched, new_world int), \<lambda>a. [])) =
   session_view ''a'' (fold (session_step (adapted_handlers demo_host) LIVE id)
     [Start ''a'' demo_instr, Resume ''a'' 0] ((demo_sched, new_world int), \<lambda>a. []))"
  by (rule agents_do_not_interfere) (simp_all add: core_steady)

text \<open>C7: Interleaving changes no outcome. If the only run of an agent is started and resumed to its end
  while other agents run in any interleaving, it settles with the outcome that \<open>runAgentLoop\<close> has at
  one go from the same start, and leaves the agent with the same state, usage, memory and log. The
  case without other agents says that awaiting a run is running it; a run settles after at most two
  resumptions, further ones change nothing.\<close>

theorem interleaved_run:
  assumes "steady reg" and "snd \<sigma> a = []"
    and "filter (\<lambda>x. op_agent x = a) xs = Start a instr # replicate (k + 2) (Resume a 0)"
    and "runAgentLoop (adapted_handlers reg) mode sha a instr (fst \<sigma>) = (sw1, r)"
  shows "session_view a (fold (session_step (adapted_handlers reg) mode sha) xs \<sigma>) = (agent_view a sw1, [Settled r])"
proof -
  let ?step = "session_step (adapted_handlers reg) mode sha"
  have "session_view a (fold ?step xs \<sigma>) =
      session_view a (fold ?step (Start a instr # replicate (k + 2) (Resume a 0)) \<sigma>)"
    by (rule noninterference.interleavings_agree [OF session_noninterference [OF assms(1)] refl])
      (simp add: assms(3) filter_replicate)
  then show ?thesis
    using alone [OF assms(2,4), of k] by simp
qed

theorem interleaved_run_witness:
  "\<exists>v. session_view ''a'' (fold (session_step (adapted_handlers demo_host) LIVE id)
     [Start ''b'' NOOP, Start ''a'' demo_instr, Resume ''b'' 0, Resume ''a'' 0, Start ''b'' NOOP, Resume ''a'' 0]
     ((demo_sched, new_world int), \<lambda>a. [])) = (v, [Settled (Inr ())])"
proof -
  obtain s1 w1 where run: "runAgentLoop (adapted_handlers demo_host) LIVE id ''a'' demo_instr
      (demo_sched, new_world int) = ((s1, w1), Inr ())"
    using demo_run by blast
  show ?thesis
    by (rule exI, rule interleaved_run [OF core_steady, where k = 0 and instr = demo_instr])
      (simp_all add: run numeral_2_eq_2)
qed

text \<open>C8: Nothing keeps an agent from running twice at once. If an \<open>ACTIVE\<close> agent without a quota is
  started twice on the same tool call before the first run is resumed, both runs pass the check and
  call the tool. The first to end terminates the agent; the second is then still resumed, executes and
  logs a tick of the terminated agent, the fourth of the two runs (against INV-03 and INV-09), and is
  rejected, by an invalid transition.\<close>

theorem agent_runs_twice:
  assumes "ready a ACTIVE mem k (fst \<sigma>)" and "snd \<sigma> a = []"
    and "is_json mem \<and> wf_js mem" and "is_json args \<and> wf_js args" and "name \<in> mf_name ` set (listTools reg)"
    and "steady reg" and "v = tool_result_js (snd (executeSync reg name ''system'' args (sc_env (fst (fst \<sigma>)))))"
    and "is_json v \<and> wf_js v"
  shows "\<exists>\<sigma>1. fold (session_step (adapted_handlers reg) LIVE sha)
      [Start a (CALL_TOOL name args), Start a (CALL_TOOL name args), Resume a 0, Resume a 1, Resume a 0] \<sigma> = \<sigma>1 \<and>
    snd \<sigma>1 a = [Settled (Inr ()), Resuming 1 (Inr v)] \<and> ready a TERMINATED mem (k + 3) (fst \<sigma>1) \<and>
    (case session_step (adapted_handlers reg) LIVE sha (Resume a 1) \<sigma>1 of (sw, runs) \<Rightarrow>
       runs a = [Settled (Inr ()), Settled (Inl (invalid_transition a TERMINATED T_complete))] \<and>
       ready a TERMINATED mem (k + 4) sw)"
proof -
  let ?hs = "adapted_handlers reg" and ?i = "CALL_TOOL name args"
  obtain sw runs where \<sigma>: "\<sigma> = (sw, runs)" by fastforce
  obtain s1 where 1: "start_run ?hs LIVE sha a ?i sw = (s1, Calling 1 name args v)" "ready a ACTIVE mem (Suc k) s1"
    by (rule ready_call [OF assms(1) [unfolded \<sigma> fst_conv] assms(3,4,5), where sha = sha and v = v])
      (simp add: assms(7) \<sigma>, rule that)
  have v1: "v = tool_result_js (snd (executeSync reg name ''system'' args (sc_env (fst s1))))"
    using assms(7) steady_result [OF assms(6)] by metis
  obtain s2 where 2: "start_run ?hs LIVE sha a ?i s1 = (s2, Calling 1 name args v)" "ready a ACTIVE mem (Suc (Suc k)) s2"
    by (rule ready_call [OF 1(2) assms(3,4,5) v1, where sha = sha]) (rule that)
  obtain s3 where 3: "resume ?hs LIVE sha a (s2, Calling 1 name args v) = (s3, Resuming 1 (Inr v))"
    "ready a ACTIVE mem (Suc (Suc k)) s3"
    by (rule ready_called [OF 2(2), where sha = sha and hs = ?hs and v = v]) (rule that)
  obtain s4 where 4: "resume ?hs LIVE sha a (s3, Calling 1 name args v) = (s4, Resuming 1 (Inr v))"
    "ready a ACTIVE mem (Suc (Suc k)) s4"
    by (rule ready_called [OF 3(2), where sha = sha and hs = ?hs and v = v]) (rule that)
  obtain s5 where 5: "resume ?hs LIVE sha a (s4, Resuming 1 (Inr v)) = (s5, Settled (Inr ()))"
    "ready a TERMINATED mem (k + 3) s5"
    using ready_resumed [OF 4(2) assms(3,8), of ?hs sha 1] by (auto simp: eval_nat_numeral)
  obtain s6 where 6: "resume ?hs LIVE sha a (s5, Resuming 1 (Inr v)) =
      (s6, Settled (Inl (invalid_transition a TERMINATED T_complete)))" "ready a TERMINATED mem (k + 4) s6"
    using ready_resumed [OF 5(2) assms(3,8), of ?hs sha 1] by (auto simp: eval_nat_numeral)
  show ?thesis
    using assms(2) 1(1) 2(1) 3(1) 4(1) 5 6 by (simp add: \<sigma>)
qed

lemma demo_result:
  "snd (executeSync demo_host ''system.read_file'' ''system'' (JObj [(''path'', JStr ''/etc/config'')]) s) =
     SUCCESS (JStr (''max_retries=3'' @ [CHR 0x0A] @ ''logging=true''))"
  by (simp add: executeSync_def demo_host_def bootstrapCoreTools_def core_tools_def new_registry_def
      register_tool_def map_has_def read_file_tool_def arg_prop_def)

theorem agent_runs_twice_witness:
  "snd (fold (session_step (adapted_handlers demo_host) LIVE id)
      [Start ''a'' demo_instr, Start ''a'' demo_instr, Resume ''a'' 0, Resume ''a'' 1, Resume ''a'' 0, Resume ''a'' 1]
      ((demo_sched, new_world int), \<lambda>a. [])) ''a'' =
   [Settled (Inr ()), Settled (Inl (invalid_transition ''a'' TERMINATED T_complete))]"
proof -
  let ?args = "JObj [(''path'', JStr ''/etc/config'')]"
  let ?v = "tool_result_js (snd (executeSync demo_host ''system.read_file'' ''system'' ?args (sc_env demo_sched)))"
  have "ready ''a'' ACTIVE (JObj []) 0 (demo_sched, new_world int)"
    by (simp add: ready_def ticks_logged_def new_world_def new_logger_def)
  moreover have "''system.read_file'' \<in> mf_name ` set (listTools demo_host)"
    by (simp add: demo_host_def bootstrapCoreTools_def core_tools_def new_registry_def register_tool_def
        map_has_def listTools_def)
  moreover have "is_json ?v \<and> wf_js ?v"
    by (simp add: demo_result)
  ultimately have "\<exists>\<sigma>1. fold (session_step (adapted_handlers demo_host) LIVE id)
      [Start ''a'' demo_instr, Start ''a'' demo_instr, Resume ''a'' 0, Resume ''a'' 1, Resume ''a'' 0]
      ((demo_sched, new_world int), \<lambda>a. []) = \<sigma>1 \<and>
    snd \<sigma>1 ''a'' = [Settled (Inr ()), Resuming 1 (Inr ?v)] \<and> ready ''a'' TERMINATED (JObj []) (0 + 3) (fst \<sigma>1) \<and>
    (case session_step (adapted_handlers demo_host) LIVE id (Resume ''a'' 1) \<sigma>1 of (sw, runs) \<Rightarrow>
       runs ''a'' = [Settled (Inr ()), Settled (Inl (invalid_transition ''a'' TERMINATED T_complete))] \<and>
       ready ''a'' TERMINATED (JObj []) (0 + 4) sw)"
    unfolding demo_instr_def by (intro agent_runs_twice core_steady) simp_all
  then show ?thesis
    by (simp only: fold_Cons fold_Nil o_apply id_apply split_def) blast
qed

end
