(* ===== verification/Navigation.thy ===== *)
theory Navigation
  imports Prelude
begin

text \<open>
  The navigation tree of the documentation site: docs/layer/app/utils/navigation.ts. An item of the
  content library is its title, its path and, for a directory, its children, a list that is truthy
  even when it is empty. The search for the breadcrumbs of a page is compared with the list of all
  trails of the tree in document order.
\<close>

section \<open>The tree\<close>

datatype nav_item = NavItem (nv_title: string) (nv_path: string) (nv_children: "nav_item list option")

type_synonym breadcrumb = "string \<times> string"

text \<open>\<open>items?.flatMap(\<dots>) || []\<close>\<close>

fun flatten_items :: "nav_item list \<Rightarrow> nav_item list" where
  "flatten_items [] = []"
| "flatten_items (NavItem t p (Some cs) # xs) = flatten_items cs @ flatten_items xs"
| "flatten_items (NavItem t p None # xs) = NavItem t p None # flatten_items xs"

definition flattenNavigation :: "nav_item list option \<Rightarrow> nav_item list" where
  "flattenNavigation data = (case data of None \<Rightarrow> [] | Some items \<Rightarrow> flatten_items items)"

text \<open>\<open>data.find(item => item.path === p)?.children || data\<close>\<close>

definition children_at :: "string \<Rightarrow> nav_item list \<Rightarrow> nav_item list" where
  "children_at p data =
     (case List.find (\<lambda>i. nv_path i = p) data of
        None \<Rightarrow> data
      | Some i \<Rightarrow> (case nv_children i of None \<Rightarrow> data | Some cs \<Rightarrow> cs))"

definition transformNavigation :: "nav_item list \<Rightarrow> bool \<Rightarrow> string option \<Rightarrow> nav_item list" where
  "transformNavigation data isI18nEnabled locale =
     (case locale of
        Some (c # cs) \<Rightarrow>
          if isI18nEnabled
          then children_at (''/'' @ (c # cs) @ ''/docs'') (children_at (''/'' @ (c # cs)) data)
          else children_at ''/docs'' data
      | _ \<Rightarrow> children_at ''/docs'' data)"

fun find_crumbs :: "nav_item list \<Rightarrow> string \<Rightarrow> breadcrumb list \<Rightarrow> breadcrumb list option" where
  "find_crumbs [] p current = None"
| "find_crumbs (NavItem t q cs # xs) p current =
     (let itemPath = current @ [(t, q)]
      in if q = p then Some itemPath
         else
           (case cs of
              None \<Rightarrow> find_crumbs xs p current
            | Some ys \<Rightarrow>
                (case find_crumbs ys p itemPath of
                   Some found \<Rightarrow> Some found
                 | None \<Rightarrow> find_crumbs xs p current)))"

definition findPageBreadcrumbs :: "nav_item list option \<Rightarrow> string \<Rightarrow> breadcrumb list option" where
  "findPageBreadcrumbs navigation p =
     (case navigation of None \<Rightarrow> None | Some items \<Rightarrow> find_crumbs items p [])"

section \<open>Trails\<close>

text \<open>All items of a tree in document order, each with the trail from the top down to it.\<close>

fun trails :: "breadcrumb list \<Rightarrow> nav_item list \<Rightarrow> (breadcrumb list \<times> nav_item) list" where
  "trails up [] = []"
| "trails up (NavItem t q cs # xs) =
     (let trail = up @ [(t, q)]
      in (trail, NavItem t q cs) # (case cs of None \<Rightarrow> [] | Some ys \<Rightarrow> trails trail ys) @ trails up xs)"

lemma find_append:
  "List.find P (xs @ ys) = (case List.find P xs of Some x \<Rightarrow> Some x | None \<Rightarrow> List.find P ys)"
  by (induction xs) auto

lemma find_crumbs_trails:
  "find_crumbs xs p up = map_option fst (List.find (\<lambda>(_, i). nv_path i = p) (trails up xs))"
proof (induction xs p up rule: find_crumbs.induct)
  case (2 t q cs xs p current)
  then show ?case
    by (cases "q = p"; cases cs) (simp_all add: Let_def find_append split: option.split)
qed simp

lemma flatten_trails: "flatten_items xs = filter (\<lambda>i. nv_children i = None) (map snd (trails up xs))"
proof (induction xs arbitrary: up rule: flatten_items.induct)
  case (2 t p cs xs)
  show ?case by (simp add: Let_def 2 [symmetric])
next
  case (3 t p xs)
  show ?case by (simp add: Let_def 3 [symmetric])
qed simp

text \<open>A trail follows the children from an item of the list to its last item.\<close>

inductive leads :: "nav_item list \<Rightarrow> breadcrumb list \<Rightarrow> nav_item \<Rightarrow> bool" where
  here: "i \<in> set xs \<Longrightarrow> leads xs [(nv_title i, nv_path i)] i"
| down: "i \<in> set xs \<Longrightarrow> nv_children i = Some ys \<Longrightarrow> leads ys tr j \<Longrightarrow> leads xs ((nv_title i, nv_path i) # tr) j"

lemma leads_tl: "leads xs tr i \<Longrightarrow> set xs \<subseteq> set ys \<Longrightarrow> leads ys tr i"
  by (induction rule: leads.induct) (auto intro: leads.intros)

lemma trails_lead: "(tr, i) \<in> set (trails up xs) \<Longrightarrow> \<exists>down. tr = up @ down \<and> leads xs down i"
proof (induction up xs arbitrary: tr rule: trails.induct)
  case (2 up t q cs xs)
  let ?i = "NavItem t q cs"
  from 2(3) consider (item) "tr = up @ [(t, q)]" "i = ?i"
    | (child) ys where "cs = Some ys" "(tr, i) \<in> set (trails (up @ [(t, q)]) ys)"
    | (later) "(tr, i) \<in> set (trails up xs)"
    by (cases cs) (auto simp: Let_def)
  then show ?case
  proof cases
    case item
    then show ?thesis using leads.here [of ?i "?i # xs"] by auto
  next
    case (child ys)
    then obtain d where "tr = (up @ [(t, q)]) @ d" "leads ys d i"
      using 2(1) [OF refl child(1)] by blast
    then show ?thesis
      using leads.down [of ?i "?i # xs" ys d i] child(1) by auto
  next
    case later
    then obtain d where "tr = up @ d" "leads xs d i"
      using 2(2) [OF refl] by blast
    then show ?thesis using leads_tl [of xs d i "?i # xs"] by auto
  qed
qed simp

lemma trails_of:
  assumes "i \<in> set xs"
  shows "(up @ [(nv_title i, nv_path i)], i) \<in> set (trails up xs) \<and>
    (\<forall>ys. nv_children i = Some ys \<longrightarrow> set (trails (up @ [(nv_title i, nv_path i)]) ys) \<subseteq> set (trails up xs))"
  using assms
proof (induction xs)
  case (Cons x xs)
  then show ?case
    by (cases x; cases "i = x") (auto simp: Let_def)
qed simp

lemma lead_trails: "leads xs d i \<Longrightarrow> (up @ d, i) \<in> set (trails up xs)"
proof (induction arbitrary: up rule: leads.induct)
  case (here i xs)
  then show ?case using trails_of by blast
next
  case (down i xs ys tr j)
  have "(up @ [(nv_title i, nv_path i)]) @ tr = up @ (nv_title i, nv_path i) # tr" by simp
  then show ?case
    using trails_of [OF down(1), of up] down(2) down(4) [of "up @ [(nv_title i, nv_path i)]"] by auto
qed

section \<open>Properties\<close>

text \<open>The breadcrumbs of a page are the trail to it. The trails of a navigation tree, listed in
  document order, are exactly the ways down from its items along the children;
  \<open>findPageBreadcrumbs\<close> returns the first of them that ends at an item with the path, and
  \<open>undefined\<close> if no item of the tree has it; \<open>flattenNavigation\<close> returns the items without children,
  in the same order. A missing tree has no breadcrumbs and no items.\<close>

theorem breadcrumbs_spec:
  "findPageBreadcrumbs (Some nav) p = map_option fst (List.find (\<lambda>(_, i). nv_path i = p) (trails [] nav)) \<and>
   flattenNavigation (Some nav) = filter (\<lambda>i. nv_children i = None) (map snd (trails [] nav)) \<and>
   set (trails [] nav) = {(tr, i). leads nav tr i} \<and>
   findPageBreadcrumbs None p = None \<and> flattenNavigation None = []"
proof -
  have "set (trails [] nav) = {(tr, i). leads nav tr i}"
    using trails_lead [of _ _ "[]" nav] lead_trails [of nav _ _ "[]"] by force
  then show ?thesis
    by (simp add: findPageBreadcrumbs_def flattenNavigation_def find_crumbs_trails flatten_trails [of nav "[]"])
qed

end
