(* ===== verification/DocsContent.thy ===== *)
theory DocsContent
  imports JsonText
begin

text \<open>
  The content of the documentation site (docs/layer/): the collections it declares
  (content.config.ts, utils/pages.ts), the collections its server asks for (server/utils/content.ts),
  the address and metadata of the site (utils/meta.ts), the site map (server/routes/sitemap.xml.ts)
  and the two tools for language models (server/mcp/tools/). The content library, the URL
  functions of the ufo package and the file system are parameters; a collection that is not declared
  throws when it is queried.
\<close>

section \<open>Texts that may be undefined\<close>

definition truthy_text :: "string option \<Rightarrow> bool" where
  "truthy_text s \<longleftrightarrow> (case s of None \<Rightarrow> False | Some t \<Rightarrow> t \<noteq> [])"

text \<open>\<open>a || b\<close>, and \<open>a || b || \<dots> || z\<close>.\<close>

definition or_text :: "string option \<Rightarrow> string option \<Rightarrow> string option" where
  "or_text a b = (if truthy_text a then a else b)"

fun first_text :: "string option list \<Rightarrow> string option" where
  "first_text [] = None"
| "first_text [a] = a"
| "first_text (a # as) = or_text a (first_text as)"

text \<open>What a template literal prints.\<close>

definition shown_text :: "string option \<Rightarrow> string" where
  "shown_text s = (case s of None \<Rightarrow> ''undefined'' | Some t \<Rightarrow> t)"

text \<open>\<open>s.replace('-', '_')\<close>, which replaces the first one only, and \<open>s.replace(/c/g, t)\<close>.\<close>

fun replace_first :: "char \<Rightarrow> char \<Rightarrow> string \<Rightarrow> string" where
  "replace_first c d [] = []"
| "replace_first c d (x # xs) = (if x = c then d # xs else x # replace_first c d xs)"

definition replace_all :: "char \<Rightarrow> string \<Rightarrow> string \<Rightarrow> string" where
  "replace_all c t s = concat (map (\<lambda>x. if x = c then t else [x]) s)"

section \<open>Parameters\<close>

record site_host =
  joinURL :: "string list \<Rightarrow> string"
  withHttps :: "string \<Rightarrow> string"
  existsSync :: "string \<Rightarrow> bool"
  getenv :: "string \<Rightarrow> string option"

section \<open>Pages and metadata\<close>

definition landingPageExists :: "site_host \<Rightarrow> string \<Rightarrow> bool" where
  "landingPageExists h rootDir = existsSync h (joinURL h [rootDir, ''app'', ''pages'', ''index.vue''])"

definition docsFolderExists :: "site_host \<Rightarrow> string \<Rightarrow> string option \<Rightarrow> bool" where
  "docsFolderExists h rootDir locale =
     existsSync h
       (if truthy_text locale then joinURL h [rootDir, ''content'', shown_text locale, ''docs'']
        else joinURL h [rootDir, ''content'', ''docs''])"

definition inferSiteURL :: "site_host \<Rightarrow> string option" where
  "inferSiteURL h =
     (let url = first_text (map (getenv h)
        [''NUXT_PUBLIC_SITE_URL'', ''NUXT_SITE_URL'', ''VERCEL_PROJECT_PRODUCTION_URL'', ''VERCEL_BRANCH_URL'',
         ''VERCEL_URL'', ''URL'', ''CI_PAGES_URL'', ''CF_PAGES_URL''])
      in if truthy_text url then Some (withHttps h (shown_text url)) else None)"

section \<open>Locales\<close>

text \<open>A locale of the configuration is a code or an object with a code and perhaps a name.\<close>

datatype locale_entry = LocaleCode string | LocaleObject string "string option"

definition locale_code :: "locale_entry \<Rightarrow> string" where
  "locale_code l = (case l of LocaleCode c \<Rightarrow> c | LocaleObject c n \<Rightarrow> c)"

text \<open>\<open>locale.code\<close>, which a string does not have.\<close>

definition code_property :: "locale_entry \<Rightarrow> string option" where
  "code_property l = (case l of LocaleCode c \<Rightarrow> None | LocaleObject c n \<Rightarrow> Some c)"

record public_config =
  i18n_locales :: "locale_entry list option"
  filteredLocales :: "locale_entry list option"

definition getAvailableLocales :: "public_config \<Rightarrow> string option list" where
  "getAvailableLocales config =
     (case filteredLocales config of
        Some ls \<Rightarrow> map code_property ls
      | None \<Rightarrow>
          (case i18n_locales config of
             Some ls \<Rightarrow> map (\<lambda>l. Some (locale_code l)) ls
           | None \<Rightarrow> []))"

definition getCollectionsToQuery :: "string option \<Rightarrow> string option list \<Rightarrow> string list" where
  "getCollectionsToQuery locale availableLocales =
     (if truthy_text locale \<and> locale \<in> set availableLocales then [''docs_'' @ shown_text locale]
      else if availableLocales \<noteq> [] then map (\<lambda>l. ''docs_'' @ shown_text l) availableLocales
      else [''docs''])"

definition getCollectionFromPath :: "string \<Rightarrow> string option list \<Rightarrow> string" where
  "getCollectionFromPath path availableLocales =
     (case filter (\<lambda>s. s \<noteq> []) (split_on CHR ''/'' path) of
        firstSegment # _ \<Rightarrow>
          if Some firstSegment \<in> set availableLocales then ''docs_'' @ firstSegment else ''docs''
      | [] \<Rightarrow> ''docs'')"

section \<open>The declared collections\<close>

record collection =
  co_cwd :: string
  co_include :: string
  co_prefix :: "string option"
  co_exclude :: "string list"
  co_schema :: bool

text \<open>\<open>createDocsSchema()\<close> is what \<open>co_schema\<close> tells.\<close>

definition locale_key :: "locale_entry \<Rightarrow> string" where
  "locale_key l = replace_first CHR ''-'' CHR ''_'' (locale_code l)"

definition declare_locale ::
  "site_host \<Rightarrow> string \<Rightarrow> string \<Rightarrow> bool \<Rightarrow> locale_entry \<Rightarrow> (string, collection) jsmap \<Rightarrow> (string, collection) jsmap" where
  "declare_locale h rootDir cwd hasLandingPage l cs =
     (let code = locale_key l;
          hasLocaleDocs = docsFolderExists h rootDir (Some code);
          cs1 = (if \<not> hasLandingPage
                 then AList.update (''landing_'' @ code)
                   \<lparr>co_cwd = cwd, co_include = code @ ''/index.md'', co_prefix = None, co_exclude = [], co_schema = False\<rparr> cs
                 else cs)
      in AList.update (''docs_'' @ code)
           \<lparr>co_cwd = cwd,
            co_include = (if hasLocaleDocs then code @ ''/docs/**'' else code @ ''/**/*''),
            co_prefix = Some (if hasLocaleDocs then ''/'' @ code @ ''/docs'' else ''/'' @ code),
            co_exclude = [code @ ''/index.md''], co_schema = True\<rparr> cs1)"

definition content_collections :: "site_host \<Rightarrow> string \<Rightarrow> locale_entry list option \<Rightarrow> (string, collection) jsmap" where
  "content_collections h rootDir locales =
     (let cwd = joinURL h [rootDir, ''content''];
          hasLandingPage = landingPageExists h rootDir;
          hasDocsFolder = docsFolderExists h rootDir None
      in (case locales of
            Some ls \<Rightarrow> fold (declare_locale h rootDir cwd hasLandingPage) ls []
          | None \<Rightarrow>
              [(''docs'',
                \<lparr>co_cwd = cwd, co_include = (if hasDocsFolder then ''docs/**'' else ''**''),
                 co_prefix = Some (if hasDocsFolder then ''/docs'' else ''/''),
                 co_exclude = [''index.md''], co_schema = True\<rparr>)] @
              (if \<not> hasLandingPage
               then [(''landing'',
                 \<lparr>co_cwd = cwd, co_include = ''index.md'', co_prefix = None, co_exclude = [], co_schema = False\<rparr>)]
               else [])))"

section \<open>The site map\<close>

record doc_page =
  pg_title :: string
  pg_path :: "string option"
  pg_description :: "string option"
  pg_sitemap :: jsval
  pg_modifiedAt :: jsval

record sitemap_url =
  loc :: string
  lastmod :: "string option"

definition page_path :: "doc_page \<Rightarrow> string" where
  "page_path p = shown_text (or_text (pg_path p) (Some ''/''))"

definition listed :: "doc_page \<Rightarrow> bool" where
  "listed p \<longleftrightarrow> \<not> js_strict_eq (pg_sitemap p) (JBool False) \<and>
     \<not> (suffix ''.navigation'' (page_path p) \<or> str_includes (page_path p) ''/.navigation'')"

definition url_entry :: "doc_page \<Rightarrow> sitemap_url" where
  "url_entry p =
     \<lparr>loc = page_path p,
      lastmod = (case pg_modifiedAt p of
          JStr s \<Rightarrow> if s \<noteq> [] then Some (hd (split_on CHR ''T'' s)) else None
        | _ \<Rightarrow> None)\<rparr>"

definition sitemap_collections :: "public_config \<Rightarrow> string list" where
  "sitemap_collections config =
     (let availableLocales = getAvailableLocales config
      in getCollectionsToQuery None availableLocales @
         (if availableLocales \<noteq> [] then map (\<lambda>l. ''landing_'' @ shown_text l) availableLocales
          else [''landing'']))"

definition sitemap_urls :: "(string \<Rightarrow> jserr + doc_page list) \<Rightarrow> string list \<Rightarrow> sitemap_url list" where
  "sitemap_urls query collections =
     concat (map (\<lambda>c. case query c of
         Inl e \<Rightarrow> []
       | Inr pages \<Rightarrow> map url_entry (filter listed pages)) collections)"

definition escapeXml :: "string \<Rightarrow> string" where
  "escapeXml str =
     replace_all (CHR 0x27) ''&apos;'' (replace_all (CHR 0x22) ''&quot;''
       (replace_all (CHR ''>'') ''&gt;'' (replace_all (CHR ''<'') ''&lt;''
         (replace_all (CHR ''&'') ''&amp;'' str))))"

definition newline :: string where
  "newline = [CHR 0x0A]"

definition entry_text :: "string \<Rightarrow> sitemap_url \<Rightarrow> string" where
  "entry_text siteUrl url =
     (let l = (if siteUrl \<noteq> [] then siteUrl @ loc url else loc url)
      in ''  <url>'' @ newline @ ''    <loc>'' @ escapeXml l @ ''</loc>'' @
         (if truthy_text (lastmod url)
          then newline @ ''    <lastmod>'' @ escapeXml (shown_text (lastmod url)) @ ''</lastmod>'' else []) @
         newline @ ''  </url>'')"

definition generateSitemap :: "sitemap_url list \<Rightarrow> string \<Rightarrow> string" where
  "generateSitemap urls siteUrl =
     ''<?xml version='' @ [CHR 0x22] @ ''1.0'' @ [CHR 0x22] @ '' encoding='' @ [CHR 0x22] @ ''UTF-8'' @ [CHR 0x22] @ ''?>'' @ newline @
     ''<urlset xmlns='' @ [CHR 0x22] @ ''http://www.sitemaps.org/schemas/sitemap/0.9'' @ [CHR 0x22] @ ''>'' @ newline @
     join_with newline (map (entry_text siteUrl) urls) @ newline @ ''</urlset>''"

definition sitemap_route :: "site_host \<Rightarrow> public_config \<Rightarrow> (string \<Rightarrow> jserr + doc_page list) \<Rightarrow> string" where
  "sitemap_route h config query =
     generateSitemap (sitemap_urls query (sitemap_collections config)) (shown_text (or_text (inferSiteURL h) (Some [])))"

section \<open>Metadata of the package\<close>

text \<open>Reading a property of \<open>null\<close> throws, like a failing read or parse; the \<open>catch\<close> has one answer.\<close>

definition getPackageJsonMetadata :: "(string \<Rightarrow> jserr + string) \<Rightarrow> string \<Rightarrow> jsval \<times> jsval" where
  "getPackageJsonMetadata readPackageJson dir =
     (case readPackageJson dir of
        Inl e \<Rightarrow> (JStr ''docs'', JUndef)
      | Inr packageJson \<Rightarrow>
          (case json_parse packageJson of
             Inl e \<Rightarrow> (JStr ''docs'', JUndef)
           | Inr parsed \<Rightarrow>
               if parsed = JNull then (JStr ''docs'', JUndef)
               else (js_prop parsed ''name'', js_prop parsed ''description'')))"

section \<open>The tools for language models\<close>

datatype 'a mcp_result = JsonResult 'a | ErrorResult string

record listed_page =
  lp_title :: string
  lp_path :: "string option"
  lp_description :: "string option"
  lp_locale :: string
  lp_url :: string

record page_content =
  pc_title :: string
  pc_path :: "string option"
  pc_description :: "string option"
  pc_content :: string
  pc_url :: string

text \<open>\<open>collectionName.replace('docs_', '')\<close> on a name that starts with it or does not contain it.\<close>

definition collection_locale :: "string \<Rightarrow> string" where
  "collection_locale c = (if prefix ''docs_'' c then drop 5 c else c)"

definition listed_page_of :: "string option \<Rightarrow> string \<Rightarrow> doc_page \<Rightarrow> listed_page" where
  "listed_page_of siteUrl c p =
     \<lparr>lp_title = pg_title p, lp_path = pg_path p, lp_description = pg_description p,
      lp_locale = collection_locale c, lp_url = shown_text siteUrl @ shown_text (pg_path p)\<rparr>"

definition list_pages ::
  "bool \<Rightarrow> string \<Rightarrow> public_config \<Rightarrow> (string \<Rightarrow> jserr + doc_page list) \<Rightarrow> string option \<Rightarrow> listed_page list mcp_result" where
  "list_pages dev origin config query locale =
     (let siteUrl = Some (if dev then ''http://localhost:3000'' else origin);
          collections = getCollectionsToQuery locale (getAvailableLocales config)
      in if \<exists>c \<in> set collections. \<not> is_ok (query c) then ErrorResult ''Failed to list pages''
         else JsonResult (concat (map (\<lambda>c. case query c of
             Inl e \<Rightarrow> [] | Inr pages \<Rightarrow> map (listed_page_of siteUrl c) pages) collections)))"

definition get_page ::
  "site_host \<Rightarrow> bool \<Rightarrow> public_config \<Rightarrow> (string \<Rightarrow> jserr + doc_page list) \<Rightarrow>
   (string option \<Rightarrow> string \<Rightarrow> jserr + string) \<Rightarrow> string \<Rightarrow> page_content mcp_result" where
  "get_page h dev config query fetch path =
     (let siteUrl = (if dev then Some ''http://localhost:3000'' else inferSiteURL h);
          collectionName = (if i18n_locales config \<noteq> None
            then getCollectionFromPath path (getAvailableLocales config) else ''docs'')
      in (case query collectionName of
            Inl e \<Rightarrow> ErrorResult ''Failed to get page''
          | Inr pages \<Rightarrow>
              (case List.find (\<lambda>p. pg_path p = Some path) pages of
                 None \<Rightarrow> ErrorResult ''Page not found''
               | Some p \<Rightarrow>
                   (case fetch siteUrl (''/raw'' @ path @ ''.md'') of
                      Inl e \<Rightarrow> ErrorResult ''Failed to get page''
                    | Inr content \<Rightarrow> JsonResult
                        \<lparr>pc_title = pg_title p, pc_path = pg_path p, pc_description = pg_description p,
                         pc_content = content, pc_url = shown_text siteUrl @ shown_text (pg_path p)\<rparr>))))"

section \<open>Which collections are declared\<close>

lemma declared_names:
  "fst ` set (fold (declare_locale h r cwd False) ls cs) =
     fst ` set cs \<union> (\<lambda>l. ''docs_'' @ locale_key l) ` set ls \<union> (\<lambda>l. ''landing_'' @ locale_key l) ` set ls"
  by (induction ls arbitrary: cs) (auto simp: declare_locale_def Let_def dom_update)

lemma replace_first_dashes:
  "count_list (replace_first CHR ''-'' CHR ''_'' c) CHR ''-'' = count_list c CHR ''-'' - 1"
  by (induction c) auto

lemma replace_first_same: "replace_first CHR ''-'' CHR ''_'' c = c \<longleftrightarrow> CHR ''-'' \<notin> set c"
  by (induction c) auto

text \<open>The declared keys cover the codes only if they have no hyphen: the code with the most of them
  is never a key.\<close>

lemma keys_cover_codes:
  "locale_code ` set ls \<subseteq> locale_key ` set ls \<longleftrightarrow> (\<forall>l \<in> set ls. CHR ''-'' \<notin> set (locale_code l))"
proof
  assume cover: "locale_code ` set ls \<subseteq> locale_key ` set ls"
  let ?n = "\<lambda>l. count_list (locale_code l) CHR ''-''"
  show "\<forall>l \<in> set ls. CHR ''-'' \<notin> set (locale_code l)"
  proof (cases "ls = []")
    case False
    define m where "m = Max (?n ` set ls)"
    have "m \<in> ?n ` set ls"
      unfolding m_def by (rule Max_in) (use False in auto)
    then obtain l where l: "l \<in> set ls" "?n l = m" by auto
    obtain l' where l': "l' \<in> set ls" "locale_code l = locale_key l'"
      using cover l(1) by blast
    have below: "?n l \<le> m" if "l \<in> set ls" for l
      unfolding m_def by (rule Max_ge) (use that in auto)
    have "m = ?n l' - 1"
      using replace_first_dashes [of "locale_code l'"] l'(2) l(2) by (simp add: locale_key_def)
    then have "m = 0" using below [OF l'(1)] by simp
    then have "?n l = 0" if "l \<in> set ls" for l
      using below [OF that] by simp
    then show ?thesis by (simp add: count_list_0_iff)
  qed simp
next
  assume "\<forall>l \<in> set ls. CHR ''-'' \<notin> set (locale_code l)"
  then have "locale_key l = locale_code l" if "l \<in> set ls" for l
    using that by (simp add: locale_key_def replace_first_same)
  then show "locale_code ` set ls \<subseteq> locale_key ` set ls" by auto
qed

lemma docs_landing_distinct: "''docs_'' @ c \<noteq> ''landing_'' @ d"
  by simp

lemma available_objects:
  "\<forall>l \<in> set ls. code_property l \<noteq> None \<Longrightarrow> map code_property ls = map (\<lambda>l. Some (locale_code l)) ls"
  by (auto simp: code_property_def locale_code_def split: locale_entry.splits)

section \<open>Reading a site map\<close>

text \<open>The character a character reference stands for, and the texts of the \<open>loc\<close> elements.\<close>

fun unescape_xml :: "string \<Rightarrow> string" where
  "unescape_xml [] = []"
| "unescape_xml (c # s) =
     (if c = CHR ''&'' then
        if take 4 s = ''amp;'' then CHR ''&'' # unescape_xml (drop 4 s)
        else if take 3 s = ''lt;'' then CHR ''<'' # unescape_xml (drop 3 s)
        else if take 3 s = ''gt;'' then CHR ''>'' # unescape_xml (drop 3 s)
        else if take 5 s = ''quot;'' then CHR 0x22 # unescape_xml (drop 5 s)
        else if take 5 s = ''apos;'' then CHR 0x27 # unescape_xml (drop 5 s)
        else c # unescape_xml s
      else c # unescape_xml s)"

fun loc_texts :: "string \<Rightarrow> string list" where
  "loc_texts [] = []"
| "loc_texts (c # s) =
     (if c = CHR ''<'' \<and> take 4 s = ''loc>'' then unescape_xml (takeWhile (\<lambda>x. x \<noteq> CHR ''<'') (drop 4 s)) # loc_texts s
      else loc_texts s)"

definition escape_char :: "char \<Rightarrow> string" where
  "escape_char c =
     (if c = CHR ''&'' then ''&amp;'' else if c = CHR ''<'' then ''&lt;'' else if c = CHR ''>'' then ''&gt;''
      else if c = CHR 0x22 then ''&quot;'' else if c = CHR 0x27 then ''&apos;'' else [c])"

lemma replace_all_append: "replace_all c t (a @ b) = replace_all c t a @ replace_all c t b"
  by (simp add: replace_all_def)

lemma escapeXml_chars: "escapeXml s = concat (map escape_char s)"
proof (induction s)
  case Nil
  show ?case by (simp add: escapeXml_def replace_all_def)
next
  case (Cons c s)
  have "escapeXml [c] = escape_char c"
    by (simp add: escapeXml_def escape_char_def replace_all_def)
  moreover have "escapeXml ([c] @ s) = escapeXml [c] @ escapeXml s"
    by (simp only: escapeXml_def replace_all_append)
  ultimately show ?case using Cons.IH by simp
qed

lemma unescape_escape [simp]: "unescape_xml (escapeXml s) = s"
  by (induction s) (auto simp: escapeXml_chars escape_char_def)

lemma escaped_plain: "set (escapeXml s) \<inter> {CHR ''<'', CHR ''>'', CHR 0x22, CHR 0x27} = {}"
proof -
  have "set (escape_char c) \<inter> {CHR ''<'', CHR ''>'', CHR 0x22, CHR 0x27} = {}" for c
    by (simp add: escape_char_def)
  then show ?thesis
    by (simp only: escapeXml_chars set_concat set_map image_image Int_UN_distrib2 UN_empty2) blast
qed

lemma loc_texts_plain: "CHR ''<'' \<notin> set s \<Longrightarrow> loc_texts (s @ r) = loc_texts r"
  by (induction s) auto

lemma loc_texts_escaped [simp]: "loc_texts (escapeXml s @ r) = loc_texts r"
  using escaped_plain [of s] by (intro loc_texts_plain) auto

lemma loc_element:
  "loc_texts (''<loc>'' @ escapeXml s @ ''</loc>'' @ r) = s # loc_texts r"
proof -
  have "takeWhile (\<lambda>x. x \<noteq> CHR ''<'') (escapeXml s @ CHR ''<'' # r') = escapeXml s" for r'
    using escaped_plain [of s] by (subst takeWhile_append2) auto
  then show ?thesis by simp
qed

lemma entry_locs:
  "loc_texts (entry_text siteUrl url @ r) = (siteUrl @ loc url) # loc_texts r"
proof -
  have l: "loc_texts (''  <url>'' @ newline @ ''    <loc>'' @ x) = loc_texts (''<loc>'' @ x)" for x
    by (simp add: newline_def)
  have m: "loc_texts (newline @ ''    <lastmod>'' @ escapeXml x @ ''</lastmod>'' @ y) = loc_texts y" for x y
    by (simp add: newline_def)
  have e: "loc_texts (newline @ ''  </url>'' @ r) = loc_texts r"
    by (simp add: newline_def)
  show ?thesis
    unfolding entry_text_def Let_def append_assoc l loc_element
    by (simp only: append_Nil append_assoc m e split: if_split) simp
qed

lemma entries_locs:
  "loc_texts (join_with newline (map (entry_text siteUrl) urls) @ r) =
     map (\<lambda>u. siteUrl @ loc u) urls @ loc_texts r"
proof (induction urls rule: induct_list012)
  case (3 u v urls)
  have "loc_texts (newline @ x) = loc_texts x" for x
    by (simp add: newline_def)
  then show ?case
    using 3 by (simp add: entry_locs)
qed (simp_all add: entry_locs)

lemma sitemap_locs: "loc_texts (generateSitemap urls siteUrl) = map (\<lambda>u. siteUrl @ loc u) urls"
proof -
  have "loc_texts (''<?xml version='' @ [CHR 0x22] @ ''1.0'' @ [CHR 0x22] @ '' encoding='' @ [CHR 0x22] @ ''UTF-8'' @
      [CHR 0x22] @ ''?>'' @ newline @ x) = loc_texts x" for x
    by (simp add: newline_def)
  moreover have "loc_texts (''<urlset xmlns='' @ [CHR 0x22] @ ''http://www.sitemaps.org/schemas/sitemap/0.9'' @
      [CHR 0x22] @ ''>'' @ newline @ x) = loc_texts x" for x
    by (simp add: newline_def)
  moreover have "loc_texts (newline @ ''</urlset>'') = []"
    by (simp add: newline_def)
  ultimately show ?thesis
    by (simp only: generateSitemap_def entries_locs append_Nil2)
qed

section \<open>Properties\<close>

text \<open>C40: The site map lists the pages. Read back as XML, the \<open>loc\<close> elements of the site map are the
  address of the site followed by the path, for every page of the collections it queries, in their
  order, but those that opted out or configure the navigation; a collection that cannot be queried
  adds nothing. No text of a page can add or hide an element, because what is written of it
  holds no markup character.\<close>

theorem sitemap_lists_pages:
  "loc_texts (sitemap_route h config query) =
     map (\<lambda>p. shown_text (or_text (inferSiteURL h) (Some [])) @ page_path p)
       (concat (map (\<lambda>c. case query c of Inl e \<Rightarrow> [] | Inr pages \<Rightarrow> filter listed pages) (sitemap_collections config))) \<and>
   set (escapeXml s) \<inter> {CHR ''<'', CHR ''>'', CHR 0x22, CHR 0x27} = {} \<and> unescape_xml (escapeXml s) = s"
proof -
  have "map (\<lambda>u. x @ loc u) (sitemap_urls query cs) = map (\<lambda>p. x @ page_path p)
      (concat (map (\<lambda>c. case query c of Inl e \<Rightarrow> [] | Inr pages \<Rightarrow> filter listed pages) cs))" for x cs
    by (induction cs) (simp_all add: sitemap_urls_def url_entry_def split: sum.split)
  then show ?thesis
    using escaped_plain [of s] by (simp add: sitemap_route_def sitemap_locs)
qed

text \<open>The server finds its collections only without hyphens. On a site with locales given as
  objects and no landing page of its own, all the collections the site map queries are
  declared exactly if no locale code has a hyphen: the declaration replaces the first hyphen by an
  underscore, the queries do not. A locale such as \<open>pt-BR\<close> is left out of the site map.\<close>

theorem collections_declared_iff:
  assumes "filteredLocales config = Some ls" and "ls \<noteq> []" and "\<forall>l \<in> set ls. code_property l \<noteq> None"
    and "\<not> landingPageExists h rootDir"
  shows "set (sitemap_collections config) \<subseteq> fst ` set (content_collections h rootDir (Some ls)) \<longleftrightarrow>
    (\<forall>l \<in> set ls. CHR ''-'' \<notin> set (locale_code l))"
proof -
  have "set (sitemap_collections config) = (@) ''docs_'' ` (locale_code ` set ls) \<union> (@) ''landing_'' ` (locale_code ` set ls)"
    using assms(1-3)
    by (auto simp: sitemap_collections_def getAvailableLocales_def getCollectionsToQuery_def available_objects
        truthy_text_def shown_text_def Let_def)
  moreover have "fst ` set (content_collections h rootDir (Some ls)) =
      (@) ''docs_'' ` (locale_key ` set ls) \<union> (@) ''landing_'' ` (locale_key ` set ls)"
    using assms(4) by (auto simp: content_collections_def declared_names Let_def)
  moreover have "(@) ''docs_'' ` A \<union> (@) ''landing_'' ` A \<subseteq> (@) ''docs_'' ` B \<union> (@) ''landing_'' ` B \<longleftrightarrow> A \<subseteq> B" for A B :: "string set"
    by auto
  ultimately show ?thesis
    by (simp only: keys_cover_codes)
qed

theorem collections_declared_iff_witness:
  "\<not> set (sitemap_collections \<lparr>i18n_locales = None, filteredLocales = Some [LocaleObject ''pt-BR'' None]\<rparr>) \<subseteq>
     fst ` set (content_collections \<lparr>joinURL = join_with ''/'', withHttps = id, existsSync = (\<lambda>p. False), getenv = (\<lambda>v. None)\<rparr>
       ''.'' (Some [LocaleObject ''pt-BR'' None]))"
  by (subst collections_declared_iff [of _ "[LocaleObject ''pt-BR'' None]"])
    (simp_all add: code_property_def landingPageExists_def locale_code_def)

end
