(* ===== verification/SiteConfig.thy ===== *)
theory SiteConfig
  imports DocsContent HostTools
begin

text \<open>
  The build of the documentation site (docs/layer/): where it takes the repository and branch from
  (utils/git.ts), the defaults it sets and the locales it keeps (modules/config.ts), the routes of its
  landing page (modules/routing.ts), its style sheet (modules/css.ts) and the list of paths to
  prerender (app/utils/prerender.ts). Git, the parser of repository addresses and the merge of
  defaults (\<open>defu\<close>) are parameters.
\<close>

section \<open>The repository\<close>

record git_info =
  gi_name :: string
  gi_owner :: string
  gi_url :: string

text \<open>What \<open>gitUrlParse\<close> returns, as far as it is used.\<close>

record git_url =
  gu_name :: string
  gu_owner :: string
  gu_source :: string

definition getGitBranch :: "site_host \<Rightarrow> (jserr + string) \<Rightarrow> string" where
  "getGitBranch h revParse =
     (let envName = first_text (map (getenv h)
        [''CF_PAGES_BRANCH'', ''CI_COMMIT_BRANCH'', ''VERCEL_GIT_COMMIT_REF'', ''BRANCH'', ''GITHUB_REF_NAME''])
      in if truthy_text envName \<and> envName \<noteq> Some ''HEAD'' then shown_text envName
         else
           (case revParse of
              Inl e \<Rightarrow> ''main''
            | Inr out \<Rightarrow>
                let branch = js_trim out
                in if branch \<noteq> [] \<and> branch \<noteq> ''HEAD'' then branch else ''main''))"

text \<open>\<open>remote\<close> is the address of the remote \<open>origin\<close> in the git configuration, or the error of reading it.\<close>

definition getLocalGitRemote :: "(jserr + string option) \<Rightarrow> string option" where
  "getLocalGitRemote origin = (case origin of Inl e \<Rightarrow> None | Inr url \<Rightarrow> url)"

definition getLocalGitInfo ::
  "(string \<Rightarrow> jserr + git_url) \<Rightarrow> (jserr + string option) \<Rightarrow> jserr + git_info option" where
  "getLocalGitInfo gitUrlParse origin =
     (let remote = getLocalGitRemote origin
      in if \<not> truthy_text remote then Inr None
         else
           (case gitUrlParse (shown_text remote) of
              Inl e \<Rightarrow> Inl e
            | Inr u \<Rightarrow> Inr (Some
                \<lparr>gi_name = gu_name u, gi_owner = gu_owner u,
                 gi_url = ''https://'' @ gu_source u @ ''/'' @ gu_owner u @ ''/'' @ gu_name u\<rparr>)))"

definition getGitEnv :: "site_host \<Rightarrow> (string \<Rightarrow> jserr + git_url) \<Rightarrow> git_info" where
  "getGitEnv h gitUrlParse =
     (let segments = (\<lambda>v. map_option (split_on CHR ''/'') (getenv h v));
          provider = shown_text (first_text
            [getenv h ''VERCEL_GIT_PROVIDER'',
             if truthy_text (getenv h ''GITHUB_SERVER_URL'') then Some ''github'' else None, Some []]);
          owner = shown_text (first_text
            [getenv h ''VERCEL_GIT_REPO_OWNER'', getenv h ''GITHUB_REPOSITORY_OWNER'',
             map_option hd (segments ''CI_PROJECT_PATH''), Some []]);
          name = shown_text (first_text
            [getenv h ''VERCEL_GIT_REPO_SLUG'', map_option last (segments ''GITHUB_REPOSITORY''),
             map_option (\<lambda>ss. join_with ''/'' (tl ss)) (segments ''CI_PROJECT_PATH''), Some []]);
          url0 = shown_text (or_text (getenv h ''REPOSITORY_URL'') (Some []));
          url = (if url0 = [] \<and> provider \<noteq> [] \<and> owner \<noteq> [] \<and> name \<noteq> []
                 then ''https://'' @ provider @ ''.com/'' @ owner @ ''/'' @ name else url0)
      in if name = [] \<and> owner = [] \<and> url \<noteq> [] then
           (case gitUrlParse url of
              Inl e \<Rightarrow> \<lparr>gi_name = name, gi_owner = owner, gi_url = url\<rparr>
            | Inr u \<Rightarrow> \<lparr>gi_name = gu_name u, gi_owner = gu_owner u, gi_url = url\<rparr>)
         else \<lparr>gi_name = name, gi_owner = owner, gi_url = url\<rparr>)"

section \<open>The defaults of the site\<close>

text \<open>\<open>a || b\<close> on values.\<close>

definition or_js :: "jsval \<Rightarrow> jsval \<Rightarrow> jsval" where
  "or_js a b = (if js_truthy a then a else b)"

definition text_js :: "string option \<Rightarrow> jsval" where
  "text_js s = (case s of None \<Rightarrow> JUndef | Some t \<Rightarrow> JStr t)"

text \<open>The options of Nuxt the module reads and sets; \<open>no_locales\<close> is
  \<open>i18n && i18n.locales\<close>, \<open>no_filtered\<close> the locales it exposes in the runtime configuration.\<close>

record nuxt_options =
  no_llms :: jsval
  no_site :: jsval
  no_header :: jsval
  no_seo :: jsval
  no_github :: jsval
  no_locales :: "locale_entry list option"
  no_strategy :: "string option"
  no_filtered :: "locale_entry list option"

definition site_name :: "jsval \<Rightarrow> jsval \<Rightarrow> git_info \<Rightarrow> jsval" where
  "site_name site meta_name info =
     or_js (or_js (or_js (if js_is_object site then js_prop site ''name'' else JBool False) meta_name)
       (JStr (gi_name info))) (JStr [])"

text \<open>The locales that have a message file and a content folder, and the warnings about the others. The
  paths of the two, resolved by the kit of Nuxt and joined to the root, are parameters.\<close>

definition keep_locale :: "site_host \<Rightarrow> (string \<Rightarrow> string) \<Rightarrow> (string \<Rightarrow> string) \<Rightarrow> locale_entry \<Rightarrow> bool" where
  "keep_locale h messagesPath contentPath l \<longleftrightarrow>
     existsSync h (messagesPath (locale_code l)) \<and> existsSync h (contentPath (locale_code l))"

definition locale_warnings :: "site_host \<Rightarrow> (string \<Rightarrow> string) \<Rightarrow> (string \<Rightarrow> string) \<Rightarrow> locale_entry \<Rightarrow> string list" where
  "locale_warnings h messagesPath contentPath l =
     (let c = locale_code l
      in (if existsSync h (messagesPath c) then []
          else [''Locale file not found: '' @ c @ ''.json - skipping locale '' @ [CHR 0x22] @ c @ [CHR 0x22]]) @
         (if existsSync h (contentPath c) then []
          else [''Content folder not found: content/'' @ c @ ''/ - skipping locale '' @ [CHR 0x22] @ c @ [CHR 0x22]]))"

text \<open>What is registered for a locale: code, name and file.\<close>

definition registered_locale :: "locale_entry \<Rightarrow> string \<times> string \<times> string" where
  "registered_locale l =
     (case l of
        LocaleCode c \<Rightarrow> (c, c, c @ ''.json'')
      | LocaleObject c n \<Rightarrow> (c, shown_text (or_text n (Some c)), c @ ''.json''))"

definition set_defaults ::
  "(jsval \<Rightarrow> jsval \<Rightarrow> jsval) \<Rightarrow> string option \<Rightarrow> jsval \<times> jsval \<Rightarrow> git_info \<Rightarrow> string \<Rightarrow> nuxt_options \<Rightarrow> nuxt_options" where
  "set_defaults defu url meta info branch opts =
     (let siteName = site_name (no_site opts) (fst meta) info;
          description = or_js (snd meta) (JStr []);
          titled = [(''title'', siteName), (''description'', description)]
      in opts\<lparr>
        no_llms := defu (no_llms opts) (JObj ((''domain'', text_js url) # titled @ [(''full'', JObj titled)])),
        no_site := defu (no_site opts) (JObj [(''url'', text_js url), (''name'', siteName), (''debug'', JBool False)]),
        no_header := defu (no_header opts) (JObj [(''title'', siteName)]),
        no_seo := defu (no_seo opts)
          (JObj ((''titleTemplate'', JStr (''%s - '' @ js_string siteName)) # titled)),
        no_github := defu (no_github opts)
          (JObj [(''owner'', JStr (gi_owner info)), (''name'', JStr (gi_name info)), (''url'', JStr (gi_url info)),
                 (''branch'', JStr branch)])\<rparr>)"

definition filter_locales ::
  "site_host \<Rightarrow> (string \<Rightarrow> string) \<Rightarrow> (string \<Rightarrow> string) \<Rightarrow> nuxt_options \<Rightarrow>
   nuxt_options \<times> string list \<times> (string \<times> string \<times> string) list option" where
  "filter_locales h messagesPath contentPath opts =
     (case no_locales opts of
        None \<Rightarrow> (opts, [], None)
      | Some ls \<Rightarrow>
          let kept = filter (keep_locale h messagesPath contentPath) ls
          in (opts\<lparr>no_strategy := Some ''prefix'', no_filtered := Some kept\<rparr>,
              concat (map (locale_warnings h messagesPath contentPath) ls), Some (map registered_locale kept)))"

text \<open>The whole module; it returns the options, the warnings and what it registers with the i18n module.\<close>

definition config_setup ::
  "site_host \<Rightarrow> (jsval \<Rightarrow> jsval \<Rightarrow> jsval) \<Rightarrow> (string \<Rightarrow> jserr + git_url) \<Rightarrow> (string \<Rightarrow> jserr + string) \<Rightarrow>
   (jserr + string option) \<Rightarrow> (jserr + string) \<Rightarrow> (string \<Rightarrow> string) \<Rightarrow> (string \<Rightarrow> string) \<Rightarrow> string \<Rightarrow> nuxt_options \<Rightarrow>
   jserr + nuxt_options \<times> string list \<times> (string \<times> string \<times> string) list option" where
  "config_setup h defu gitUrlParse readPackageJson origin revParse messagesPath contentPath dir opts =
     (let url = inferSiteURL h;
          meta = getPackageJsonMetadata readPackageJson dir
      in (case getLocalGitInfo gitUrlParse origin of
            Inl e \<Rightarrow> Inl e
          | Inr local \<Rightarrow>
              let info = (case local of Some i \<Rightarrow> i | None \<Rightarrow> getGitEnv h gitUrlParse)
              in Inr (filter_locales h messagesPath contentPath
                   (set_defaults defu url meta info (getGitBranch h revParse) opts))))"

section \<open>Routes, style sheet and prerendering\<close>

record page_route =
  pr_name :: string
  pr_path :: string
  pr_file :: string

definition add_landing :: "site_host \<Rightarrow> string \<Rightarrow> bool \<Rightarrow> string \<Rightarrow> page_route list \<Rightarrow> page_route list" where
  "add_landing h rootDir isI18nEnabled landingTemplate pages =
     (if landingPageExists h rootDir then pages
      else if isI18nEnabled then pages @ [\<lparr>pr_name = ''lang-index'', pr_path = ''/:lang?'', pr_file = landingTemplate\<rparr>]
      else pages @ [\<lparr>pr_name = ''index'', pr_path = ''/'', pr_file = landingTemplate\<rparr>])"

text \<open>An auto-import is a name and a file.\<close>

definition add_i18n_import :: "string \<Rightarrow> (string \<times> string) list \<Rightarrow> (string \<times> string) list" where
  "add_i18n_import file imps =
     (if \<exists>i \<in> set imps. fst i = ''useDocusI18n'' then imps else imps @ [(''useDocusI18n'', file)])"

definition css_contents :: "string \<Rightarrow> string \<Rightarrow> string \<Rightarrow> string \<Rightarrow> string \<Rightarrow> string" where
  "css_contents tailwindPath uiPath contentDir layerDir assistantDir =
     (let posix = replace_all (CHR 0x5C) ''/''; q = [CHR 0x22];
          source = (\<lambda>d. ''@source '' @ q @ d @ q @ '';'')
      in join_with newline
           [''@import '' @ quote tailwindPath @ '';'', ''@import '' @ quote uiPath @ '';'', [],
            source (posix contentDir @ ''/**/*''), source (posix layerDir @ ''/**/*''),
            source ''../../app.config.ts'', source (posix assistantDir @ ''/**/*'')])"

definition addPrerenderPath :: "string option \<Rightarrow> string \<Rightarrow> string" where
  "addPrerenderPath header path =
     join_with '','' (map shown_text (filter truthy_text [header, Some path]))"

section \<open>Properties\<close>

lemma warnings_none: "locale_warnings h m c l = [] \<longleftrightarrow> keep_locale h m c l"
  by (simp add: locale_warnings_def keep_locale_def Let_def)

text \<open>Which locales a site has. The module keeps and registers exactly the locales with a message
  file and a content folder, in their order, and warns about some locale unless it keeps them all.
  The server then finds the collections of the locales given as objects; a locale given as a string is
  registered but has no code for the server, which asks for a collection of an undefined locale.\<close>

theorem locales_kept:
  assumes "config_setup h defu gitUrlParse readPackageJson origin revParse messagesPath contentPath dir opts =
      Inr (opts1, warnings, registered)"
    and "no_locales opts = Some ls"
  shows "let kept = filter (\<lambda>l. existsSync h (messagesPath (locale_code l)) \<and> existsSync h (contentPath (locale_code l))) ls
    in no_filtered opts1 = Some kept \<and> registered = Some (map registered_locale kept) \<and>
       (warnings = [] \<longleftrightarrow> kept = ls) \<and>
       getCollectionsToQuery None (getAvailableLocales \<lparr>i18n_locales = i, filteredLocales = no_filtered opts1\<rparr>) =
         (if kept = [] then [''docs'']
          else map (\<lambda>l. case l of LocaleObject c n \<Rightarrow> ''docs_'' @ c | LocaleCode c \<Rightarrow> ''docs_undefined'') kept)"
proof -
  have k: "keep_locale h messagesPath contentPath =
      (\<lambda>l. existsSync h (messagesPath (locale_code l)) \<and> existsSync h (contentPath (locale_code l)))"
    by (simp add: fun_eq_iff keep_locale_def)
  obtain info url meta branch where o: "filter_locales h messagesPath contentPath
      (set_defaults defu url meta info branch opts) = (opts1, warnings, registered)"
    using assms(1) by (auto simp: config_setup_def Let_def split: sum.splits)
  have n: "no_locales (set_defaults defu url meta info branch opts) = Some ls"
    using assms(2) by (simp add: set_defaults_def Let_def)
  show ?thesis
    using o n unfolding k [symmetric]
    by (auto simp: filter_locales_def Let_def warnings_none filter_id_conv getCollectionsToQuery_def
        getAvailableLocales_def truthy_text_def code_property_def shown_text_def split: locale_entry.split)
qed

definition demo_site_host :: site_host where
  "demo_site_host =
     \<lparr>joinURL = join_with ''/'', withHttps = id, existsSync = (\<lambda>p. True), getenv = (\<lambda>v. None)\<rparr>"

definition demo_options :: nuxt_options where
  "demo_options =
     \<lparr>no_llms = JUndef, no_site = JUndef, no_header = JUndef, no_seo = JUndef, no_github = JUndef,
      no_locales = Some [LocaleCode ''en'', LocaleObject ''fr'' None], no_strategy = None, no_filtered = None\<rparr>"

theorem locales_kept_witness:
  "\<exists>opts1 warnings. config_setup demo_site_host (\<lambda>a b. b) (\<lambda>u. Inl no_this) (\<lambda>d. Inl no_this) (Inl no_this) (Inl no_this)
     id id ''.'' demo_options =
       Inr (opts1, warnings, Some [(''en'', ''en'', ''en.json''), (''fr'', ''fr'', ''fr.json'')]) \<and>
     getCollectionsToQuery None (getAvailableLocales \<lparr>i18n_locales = None, filteredLocales = no_filtered opts1\<rparr>) =
       [''docs_undefined'', ''docs_fr'']"
proof -
  obtain opts1 warnings registered where 1: "config_setup demo_site_host (\<lambda>a b. b) (\<lambda>u. Inl no_this)
      (\<lambda>d. Inl no_this) (Inl no_this) (Inl no_this) id id ''.'' demo_options = Inr (opts1, warnings, registered)"
    by (simp add: config_setup_def getLocalGitInfo_def getLocalGitRemote_def truthy_text_def Let_def) (metis prod.exhaust)
  have "registered = Some [(''en'', ''en'', ''en.json''), (''fr'', ''fr'', ''fr.json'')] \<and>
      getCollectionsToQuery None (getAvailableLocales \<lparr>i18n_locales = None, filteredLocales = no_filtered opts1\<rparr>) =
        [''docs_undefined'', ''docs_fr'']"
    using locales_kept [OF 1, of "[LocaleCode ''en'', LocaleObject ''fr'' None]" None]
    by (auto simp: demo_options_def demo_site_host_def Let_def registered_locale_def or_text_def shown_text_def truthy_text_def)
  then show ?thesis using 1 by blast
qed

end
