(* ===== verification/MarkdownRoutes.thy ===== *)
theory MarkdownRoutes
  imports DocsContent
begin

text \<open>
  The redirect routes the build of the documentation site adds for language models
  (docs/layer/modules/markdown-rewrite.ts): it scans the list of pages in \<open>llms.txt\<close> for links and
  sends requests that accept markdown, or come from curl, to the raw text of a page. The files it
  reads are inputs and the file it writes is the result; the path of an address is the parameter
  \<open>pathname\<close>, the URL parser of the platform.
\<close>

section \<open>Links\<close>

text \<open>\<open>/\[([^\]]+)\]\((https?:\/\/[^)]+)\)/\<close> after its opening bracket: the second group and the rest. The
  classes exclude what follows them, so that there is one way to match.\<close>

definition scheme_length :: "string \<Rightarrow> nat option" where
  "scheme_length s =
     (if prefix ''http://'' s then Some 7 else if prefix ''https://'' s then Some 8 else None)"

definition link_target :: "string \<Rightarrow> (string \<times> string) option" where
  "link_target s =
     (let title = takeWhile (\<lambda>c. c \<noteq> CHR '']'') s; r = drop (length title) s; target = drop 2 r
      in if title = [] \<or> \<not> prefix ''](''  r then None
         else
           (case scheme_length target of
              None \<Rightarrow> None
            | Some n \<Rightarrow>
                let address = takeWhile (\<lambda>c. c \<noteq> CHR '')'') (drop n target);
                    r1 = drop (n + length address) target
                in if address = [] \<or> r1 = [] then None
                   else Some (take (n + length address) target, tl r1)))"

text \<open>\<open>llmsTxt.matchAll(urlRegex)\<close>, the second group of each.\<close>

lemma link_target_shorter: "link_target s = Some (u, r) \<Longrightarrow> length r < Suc (length s)"
  by (auto simp: link_target_def Let_def split: if_splits option.splits)

function markdown_links :: "string \<Rightarrow> string list" where
  "markdown_links [] = []"
| "markdown_links (c # s) =
     (if c = CHR ''['' then
        (case link_target s of
           None \<Rightarrow> markdown_links s
         | Some (u, r) \<Rightarrow> u # markdown_links r)
      else markdown_links s)"
  by pat_completeness auto
termination
  by (relation "measure length") (auto dest: link_target_shorter)

section \<open>Routes\<close>

record redirect =
  rd_src :: string
  rd_dest :: string
  rd_key :: string
  rd_value :: string

definition redirects :: "string \<Rightarrow> string \<Rightarrow> redirect list" where
  "redirects src dest =
     [\<lparr>rd_src = src, rd_dest = dest, rd_key = ''accept'', rd_value = ''(.*)text/markdown(.*)''\<rparr>,
      \<lparr>rd_src = src, rd_dest = dest, rd_key = ''user-agent'', rd_value = ''curl/.*''\<rparr>]"

definition strip_md :: "string \<Rightarrow> string" where
  "strip_md s = (if suffix ''.md'' s then take (length s - 3) s else s)"

definition link_routes :: "(string \<Rightarrow> jserr + string) \<Rightarrow> string list option \<Rightarrow> string \<Rightarrow> redirect list" where
  "link_routes pathname locales url =
     (case pathname url of
        Inl e \<Rightarrow> []
      | Inr rawPath \<Rightarrow>
          if rawPath = ''/'' \<or> \<not> prefix ''/raw/'' rawPath then []
          else
            let pagePath = strip_md (drop 4 rawPath)
            in if (case locales of None \<Rightarrow> False | Some codes \<Rightarrow> \<exists>code \<in> set codes. pagePath = ''/'' @ code) then []
               else redirects (''^'' @ pagePath @ ''$'') rawPath)"

definition home_routes :: "string list option \<Rightarrow> redirect list" where
  "home_routes locales =
     redirects ''^/$'' ''/llms.txt'' @
     (case locales of
        None \<Rightarrow> []
      | Some codes \<Rightarrow> redirects (''^/('' @ join_with ''|'' codes @ '')$'') ''/llms.txt'')"

definition markdown_routes :: "(string \<Rightarrow> jserr + string) \<Rightarrow> string list option \<Rightarrow> string \<Rightarrow> redirect list" where
  "markdown_routes pathname locales llmsTxt =
     home_routes locales @ concat (map (link_routes pathname locales) (markdown_links llmsTxt))"

text \<open>The hook: without \<open>llms.txt\<close> it writes nothing, else it puts its routes before those of the
  configuration. A development build and other presets do not install it.\<close>

definition markdown_rewrite ::
  "(string \<Rightarrow> jserr + string) \<Rightarrow> bool \<Rightarrow> string \<Rightarrow> locale_entry list option \<Rightarrow> (jserr + string) \<Rightarrow> redirect list \<Rightarrow> redirect list" where
  "markdown_rewrite pathname dev preset locales llmsTxt routes =
     (if dev \<or> \<not> str_includes preset ''vercel'' then routes
      else
        (case llmsTxt of
           Inl e \<Rightarrow> routes
         | Inr t \<Rightarrow> markdown_routes pathname (map_option (map locale_code) locales) t @ routes))"

section \<open>Reading a generated list\<close>

text \<open>A list of pages: each entry has some text, then its link.\<close>

record llms_item =
  it_before :: string
  it_title :: string
  it_url :: string

definition item_text :: "llms_item \<Rightarrow> string" where
  "item_text i = it_before i @ ''['' @ it_title i @ '']('' @ it_url i @ '')''"

definition llms_text :: "llms_item list \<Rightarrow> string \<Rightarrow> string" where
  "llms_text items end_text = concat (map item_text items) @ end_text"

definition item_ok :: "llms_item \<Rightarrow> bool" where
  "item_ok i \<longleftrightarrow> CHR ''['' \<notin> set (it_before i) \<and> it_title i \<noteq> [] \<and> CHR '']'' \<notin> set (it_title i) \<and>
     CHR '')'' \<notin> set (it_url i) \<and>
     (case scheme_length (it_url i) of None \<Rightarrow> False | Some n \<Rightarrow> n < length (it_url i))"

lemma links_plain: "CHR ''['' \<notin> set s \<Longrightarrow> markdown_links (s @ r) = markdown_links r"
  by (induction s) auto

lemma scheme_append: "scheme_length u = Some n \<Longrightarrow> scheme_length (u @ r) = Some n"
  by (auto simp: scheme_length_def prefix_def split: if_splits)

lemma scheme_bound: "scheme_length u = Some n \<Longrightarrow> n \<le> length u"
  by (auto simp: scheme_length_def prefix_def split: if_splits)

lemma link_target_item:
  assumes "it_title i \<noteq> []" and "CHR '']'' \<notin> set (it_title i)" and "CHR '')'' \<notin> set (it_url i)"
    and "scheme_length (it_url i) = Some n" and "n < length (it_url i)"
  shows "link_target (it_title i @ '']('' @ it_url i @ '')'' @ r) = Some (it_url i, r)"
proof -
  have t: "takeWhile (\<lambda>c. c \<noteq> CHR '']'') (it_title i @ CHR '']'' # x) = it_title i" for x
    using assms(2) by (subst takeWhile_append2) auto
  have "CHR '')'' \<notin> set (drop n (it_url i))"
    using assms(3) set_drop_subset by fast
  then have u: "takeWhile (\<lambda>c. c \<noteq> CHR '')'') (drop n (it_url i) @ CHR '')'' # r) = drop n (it_url i)"
    by (subst takeWhile_append2) auto
  show ?thesis
    using assms(1,5) scheme_append [OF assms(4), of "CHR '')'' # r"]
    by (simp add: link_target_def t u Let_def)
qed

lemma item_links: "item_ok i \<Longrightarrow> markdown_links (item_text i @ r) = it_url i # markdown_links r"
  using link_target_item [of i] 
  by (auto simp: item_ok_def item_text_def links_plain split: option.splits)

lemma llms_links:
  assumes "\<forall>i \<in> set items. item_ok i" and "CHR ''['' \<notin> set end_text"
  shows "markdown_links (llms_text items end_text) = map it_url items"
proof -
  have "markdown_links (llms_text items end_text) = map it_url items @ markdown_links end_text"
    using assms(1) by (induction items) (simp_all add: llms_text_def item_links)
  then show ?thesis
    using links_plain [OF assms(2), of "[]"] by simp
qed

section \<open>Properties\<close>

lemma strip_md_page: "strip_md (p @ ''.md'') = p"
  by (simp add: strip_md_def suffix_def)

text \<open>The redirects are those of the listed pages. If the entries of \<open>llms.txt\<close> are links to the raw
  texts of pages, with no bracket before a link, the routes are those of the home pages followed by two
  for each page in the order of the file, from its path to its raw text, except that the home pages of the
  locales get none of their own. The scan finds every link, whatever stands between them.\<close>

theorem markdown_routes_spec:
  assumes "\<forall>i \<in> set items. item_ok i" and "CHR ''['' \<notin> set end_text"
    and "\<forall>i \<in> set items. pathname (it_url i) = Inr (''/raw'' @ page_of i @ ''.md'') \<and> prefix ''/'' (page_of i)"
  shows "markdown_routes pathname locales (llms_text items end_text) =
    home_routes locales @
    concat (map (\<lambda>i. if \<exists>codes. locales = Some codes \<and> page_of i \<in> (@) ''/'' ` set codes then []
      else redirects (''^'' @ page_of i @ ''$'') (''/raw'' @ page_of i @ ''.md'')) items)"
proof -
  have "link_routes pathname locales (it_url i) =
      (if \<exists>codes. locales = Some codes \<and> page_of i \<in> (@) ''/'' ` set codes then []
       else redirects (''^'' @ page_of i @ ''$'') (''/raw'' @ page_of i @ ''.md''))" if "i \<in> set items" for i
  proof -
    have "prefix ''/'' (page_of i)" using assms(3) that by blast
    then obtain q where q: "page_of i = CHR ''/'' # q"
      by (auto simp: prefix_def)
    have "strip_md (CHR ''/'' # q @ ''.md'') = CHR ''/'' # q"
      using strip_md_page [of "CHR ''/'' # q"] by simp
    then show ?thesis
      using assms(3) that q by (auto simp: link_routes_def Let_def split: option.split)
  qed
  then have "concat (map (link_routes pathname locales) (map it_url items)) =
      concat (map (\<lambda>i. if \<exists>codes. locales = Some codes \<and> page_of i \<in> (@) ''/'' ` set codes then []
        else redirects (''^'' @ page_of i @ ''$'') (''/raw'' @ page_of i @ ''.md'')) items)"
    by (induction items) simp_all
  then show ?thesis
    by (simp only: markdown_routes_def llms_links [OF assms(1,2)])
qed

theorem markdown_routes_spec_witness:
  "markdown_routes (\<lambda>u. Inr (''/raw'' @ ''/en/start'' @ ''.md'')) (Some [''en''])
     (llms_text [\<lparr>it_before = ''- '', it_title = ''Start'', it_url = ''https://x.y/raw/en/start.md''\<rparr>] ''.'') =
   home_routes (Some [''en'']) @ redirects ''^/en/start$'' ''/raw/en/start.md''"
  using markdown_routes_spec [of "[\<lparr>it_before = ''- '', it_title = ''Start'', it_url = ''https://x.y/raw/en/start.md''\<rparr>]"
      "''.''" "\<lambda>u. Inr (''/raw'' @ ''/en/start'' @ ''.md'')" "\<lambda>i. ''/en/start''" "Some [''en'']"]
  by (simp add: item_ok_def scheme_length_def)

end
