(* ===== verification/Assistant.thy ===== *)
theory Assistant
  imports SiteConfig
begin

text \<open>
  The assistant of the documentation site (docs/layer/modules/assistant/): its module (index.ts), the
  route that answers a question with a language model and tools (runtime/server/api/search.ts), the
  state of its panel (runtime/composables/useAssistant.ts) and what the components show of a message
  and of the progress (AssistantPanel.vue, AssistantLoading.vue, AssistantMatrix.vue). The AI SDK
  and the client of the tools are parameters; the SDK asks \<open>stopWhen\<close> after every step.
\<close>

section \<open>The route\<close>

text \<open>A tool call carries its arguments as \<open>args\<close> or as \<open>input\<close>, or neither.\<close>

record tool_call =
  tc_name :: string
  tc_id :: string
  tc_args :: "jsval option"
  tc_input :: "jsval option"

record llm_step =
  st_text :: "string option"
  st_toolCalls :: "tool_call list option"

definition MAX_STEPS :: nat where
  "MAX_STEPS = 10"

definition text_answer :: "llm_step \<Rightarrow> bool" where
  "text_answer s \<longleftrightarrow>
     truthy_text (st_text s) \<and> js_trim (shown_text (st_text s)) \<noteq> [] \<and>
     (case st_toolCalls s of None \<Rightarrow> True | Some cs \<Rightarrow> cs = [])"

definition stopWhenResponseComplete :: "llm_step list \<Rightarrow> bool" where
  "stopWhenResponseComplete steps =
     (if steps = [] then False
      else if text_answer (last steps) then True
      else length steps \<ge> MAX_STEPS)"

definition site_name_of :: "string option \<Rightarrow> string" where
  "site_name_of name = shown_text (or_text name (Some ''Documentation''))"

definition mcp_url :: "bool \<Rightarrow> string \<Rightarrow> string \<Rightarrow> string" where
  "mcp_url dev origin mcpServer =
     (if prefix ''http://'' mcpServer \<or> prefix ''https://'' mcpServer then mcpServer
      else if dev then ''http://localhost:3000'' @ mcpServer
      else origin @ mcpServer)"

text \<open>What \<open>onStepFinish\<close> writes to the stream: the id of the first call and, for each call, its name, id
  and arguments.\<close>

definition call_args :: "tool_call \<Rightarrow> jsval" where
  "call_args tc =
     (case tc_args tc of
        Some a \<Rightarrow> a
      | None \<Rightarrow> (case tc_input tc of Some i \<Rightarrow> i | None \<Rightarrow> JObj []))"

definition step_message :: "tool_call list \<Rightarrow> jsval option" where
  "step_message toolCalls =
     (case toolCalls of
        [] \<Rightarrow> None
      | c # cs \<Rightarrow> Some (JObj
          [(''id'', JStr (tc_id c)), (''type'', JStr ''data-tool-calls''),
           (''data'', JObj [(''tools'', JArr (map (\<lambda>tc. JObj
              [(''toolName'', JStr (tc_name tc)), (''toolCallId'', JStr (tc_id tc)), (''args'', call_args tc)]) (c # cs)))])]))"

text \<open>The prompt, with the name of the site; \<open>qu\<close> and \<open>ap\<close> are the two quotation marks.\<close>

definition getSystemPrompt :: "string \<Rightarrow> string" where
  "getSystemPrompt siteName =
     (let qu = [CHR 0x22]; ap = [CHR 0x27] in join_with newline
       [''You are the documentation assistant for '' @ siteName @ ''. Help users navigate and understand the project documentation.'',
        [],
        ''**Your identity:**'',
        ''- You are an assistant helping users with '' @ siteName @ '' documentation'',
        ''- NEVER use first person ('' @ qu @ ''I'' @ qu @ '', '' @ qu @ ''me'' @ qu @ '', '' @ qu @ ''my'' @ qu @
          '') - always refer to the project by name: '' @ qu @ siteName @ '' provides...'' @ qu @ '', '' @ qu @ siteName @
          '' supports...'' @ qu @ '', '' @ qu @ ''The project offers...'' @ qu,
        ''- Be confident and knowledgeable about the project'',
        ''- Speak as a helpful guide, not as the documentation itself'',
        [],
        ''**Tool usage (CRITICAL):**'',
        ''- You have tools: list-pages (discover pages) and get-page (read a page)'',
        ''- If a page title clearly matches the question, read it directly without listing first'',
        ''- ALWAYS respond with text after using tools - never end with just tool calls'',
        [],
        ''**Guidelines:**'',
        ''- If you can'' @ ap @ ''t find something, say '' @ qu @ ''There is no documentation on that yet'' @ qu @ '' or '' @ qu @
          siteName @ '' doesn'' @ ap @ ''t cover that topic yet'' @ qu,
        ''- Be concise, helpful, and direct'',
        ''- Guide users like a friendly expert would'',
        [],
        ''**FORMATTING RULES (CRITICAL):**'',
        ''- NEVER use markdown headings (#, ##, ###, etc.)'',
        ''- Use **bold text** for emphasis and section labels'',
        ''- Start responses with content directly, never with a heading'',
        ''- Use bullet points for lists'',
        ''- Keep code examples focused and minimal'',
        [],
        ''**Response style:**'',
        ''- Conversational but professional'',
        ''- '' @ qu @ ''Here'' @ ap @ ''s how you can do that:'' @ qu @ '' instead of '' @ qu @ ''The documentation shows:'' @ qu,
        ''- '' @ qu @ siteName @ '' supports TypeScript out of the box'' @ qu @ '' instead of '' @ qu @ ''I support TypeScript'' @ qu,
        ''- Provide actionable guidance, not just information dumps''])"

section \<open>The module\<close>

record assistant_setup =
  as_enabled :: bool
  as_apiPath :: string
  as_components :: "(string \<times> string) list"
  as_server :: "(string \<times> string) option"
  as_route :: "string option"

definition strip_slash :: "string \<Rightarrow> string" where
  "strip_slash s = (case s of [] \<Rightarrow> [] | c # r \<Rightarrow> if c = CHR ''/'' then r else s)"

definition assistant_components :: "string list" where
  "assistant_components =
     [''AssistantChat'', ''AssistantPanel'', ''AssistantFloatingInput'', ''AssistantLoading'', ''AssistantMatrix'']"

text \<open>The options and what the module adds: the components with their files, the server and model of the
  runtime configuration, and the route of the server.\<close>

definition assistant_module :: "site_host \<Rightarrow> string \<Rightarrow> string \<Rightarrow> string \<Rightarrow> assistant_setup" where
  "assistant_module h apiPath mcpServer model =
     (let hasApiKey = truthy_text (getenv h ''AI_GATEWAY_API_KEY'')
      in \<lparr>as_enabled = hasApiKey, as_apiPath = apiPath,
          as_components = map (\<lambda>name. (name,
            if hasApiKey then ''./runtime/components/'' @ name @ ''.vue''
            else ''./runtime/components/AssistantChatDisabled.vue'')) assistant_components,
          as_server = (if hasApiKey then Some (mcpServer, model) else None),
          as_route = (if hasApiKey then Some (''/'' @ strip_slash apiPath) else None)\<rparr>)"

section \<open>The panel\<close>

record 'm panel =
  isOpen :: bool
  isExpanded :: bool
  messages :: "'m list"
  pendingMessage :: "string option"

definition new_panel :: "'m panel" where
  "new_panel = \<lparr>isOpen = False, isExpanded = False, messages = [], pendingMessage = None\<rparr>"

definition panelWidth :: "'m panel \<Rightarrow> int" where
  "panelWidth p = (if isExpanded p then 520 else 360)"

definition shouldPushContent :: "bool \<Rightarrow> 'm panel \<Rightarrow> bool" where
  "shouldPushContent isMobile p \<longleftrightarrow> \<not> isMobile \<and> isOpen p"

datatype panel_op = Open "string option" bool | ClearPending | Close | Toggle | ClearMessages | ToggleExpanded

fun panel_step :: "panel_op \<Rightarrow> 'm panel \<Rightarrow> 'm panel" where
  "panel_step (Open initialMessage clearPrevious) p =
     (let p1 = (if clearPrevious then p\<lparr>messages := []\<rparr> else p);
          p2 = (if truthy_text initialMessage then p1\<lparr>pendingMessage := initialMessage\<rparr> else p1)
      in p2\<lparr>isOpen := True\<rparr>)"
| "panel_step ClearPending p = p\<lparr>pendingMessage := None\<rparr>"
| "panel_step Close p = p\<lparr>isOpen := False\<rparr>"
| "panel_step Toggle p = p\<lparr>isOpen := \<not> isOpen p\<rparr>"
| "panel_step ClearMessages p = p\<lparr>messages := []\<rparr>"
| "panel_step ToggleExpanded p = p\<lparr>isExpanded := \<not> isExpanded p\<rparr>"

section \<open>Suggested questions\<close>

record faq_category =
  fc_category :: string
  fc_items :: "string list"

datatype faq_questions = FaqTexts "string list" | FaqCategories "faq_category list"

text \<open>The configuration gives questions, or questions for each locale, or nothing.\<close>

datatype faq_config = NoFaq | Faq faq_questions | LocalizedFaq "(string \<times> faq_questions) list"

definition normalizeFaqQuestions :: "faq_questions \<Rightarrow> faq_category list" where
  "normalizeFaqQuestions questions =
     (case questions of
        FaqTexts ts \<Rightarrow> if ts = [] then [] else [\<lparr>fc_category = ''Questions'', fc_items = ts\<rparr>]
      | FaqCategories cs \<Rightarrow> cs)"

definition faqQuestions :: "string option \<Rightarrow> string option \<Rightarrow> faq_config \<Rightarrow> faq_category list" where
  "faqQuestions appLocale defaultLocale config =
     (case config of
        NoFaq \<Rightarrow> []
      | Faq qs \<Rightarrow> normalizeFaqQuestions qs
      | LocalizedFaq m \<Rightarrow>
          (case map_of m (shown_text (or_text appLocale (Some ''en''))) of
             Some qs \<Rightarrow> normalizeFaqQuestions qs
           | None \<Rightarrow>
               (case map_of m (shown_text (or_text defaultLocale (Some ''en''))) of
                  Some qs \<Rightarrow> normalizeFaqQuestions qs
                | None \<Rightarrow> (case m of [] \<Rightarrow> [] | (l, qs) # _ \<Rightarrow> normalizeFaqQuestions qs))))"

section \<open>What the components show\<close>

text \<open>\<open>message.parts.filter(\<dots>).flatMap(p => p.data?.tools || [])\<close>\<close>

definition part_tools :: "jsval \<Rightarrow> jsval list" where
  "part_tools p =
     (case js_prop (js_prop p ''data'') ''tools'' of
        JArr ts \<Rightarrow> ts
      | v \<Rightarrow> if js_truthy v then [v] else [])"

definition getMessageToolCalls :: "jsval \<Rightarrow> jsval list" where
  "getMessageToolCalls message =
     (case js_prop message ''parts'' of
        JArr ps \<Rightarrow> concat (map part_tools
          (filter (\<lambda>p. js_strict_eq (js_prop p ''type'') (JStr ''data-tool-calls'')) ps))
      | _ \<Rightarrow> [])"

text \<open>\<open>label\<close> translates a key.\<close>

definition getToolLabel :: "(string \<Rightarrow> string) \<Rightarrow> string \<Rightarrow> jsval \<Rightarrow> string" where
  "getToolLabel label toolName args =
     (if toolName = ''list-pages'' then label ''assistant.toolListPages''
      else if toolName = ''get-page''
      then label ''assistant.toolReadPage'' @ '' '' @ js_string (or_js (or_js (js_prop args ''path'') (JStr [])) (JStr ''...''))
      else toolName)"

text \<open>The animation of the matrix: the patterns, and where it is.\<close>

definition patterns :: "nat list list list" where
  "patterns =
     [[[0], [1], [2], [3], [7], [11], [15], [14], [13], [12], [8], [4], [5], [6], [10], [9]],
      [[0, 4, 8, 12], [1, 5, 9, 13], [2, 6, 10, 14], [3, 7, 11, 15]],
      [[5, 6, 9, 10], [1, 4, 7, 8, 11, 14], [0, 3, 12, 15], [1, 4, 7, 8, 11, 14], [5, 6, 9, 10]],
      [[0, 1, 2, 3], [4, 5, 6, 7], [8, 9, 10, 11], [12, 13, 14, 15]],
      [[0], [3], [15], [12]],
      [[5, 6, 9, 10], [1, 2, 4, 7, 8, 11, 13, 14], [0, 3, 12, 15]],
      [[0], [1], [2], [3], [7], [6], [5], [4], [8], [9], [10], [11], [15], [14], [13], [12]],
      [[0], [1, 4], [2, 5, 8], [3, 6, 9, 12], [7, 10, 13], [11, 14], [15]]]"

record matrix =
  patternIndex :: nat
  stepIndex :: nat
  activeDots :: "nat list"

definition nextStep :: "matrix \<Rightarrow> matrix" where
  "nextStep m =
     (if length patterns \<le> patternIndex m then m
      else
        let pattern = patterns ! patternIndex m;
            dots = (if stepIndex m < length pattern then pattern ! stepIndex m else []);
            step = stepIndex m + 1
        in if step \<ge> length pattern
           then \<lparr>patternIndex = (patternIndex m + 1) mod length patterns, stepIndex = 0, activeDots = dots\<rparr>
           else \<lparr>patternIndex = patternIndex m, stepIndex = step, activeDots = dots\<rparr>)"

text \<open>The animation never leaves its patterns and lights only dots of the grid.\<close>

definition matrix_ok :: "matrix \<Rightarrow> bool" where
  "matrix_ok m \<longleftrightarrow> patternIndex m < length patterns \<and> stepIndex m < length (patterns ! patternIndex m) \<and>
     (\<forall>d \<in> set (activeDots m). d < 16)"

lemma patterns_ok: "\<forall>p \<in> set patterns. p \<noteq> [] \<and> (\<forall>ds \<in> set p. \<forall>d \<in> set ds. d < 16)"
  by (simp add: patterns_def)

lemma nextStep_ok: "matrix_ok m \<Longrightarrow> matrix_ok (nextStep m)"
proof -
  assume ok: "matrix_ok m"
  let ?p = "patterns ! patternIndex m" and ?q = "(patternIndex m + 1) mod length patterns"
  have len: "length patterns > 0" by (simp add: patterns_def)
  have p: "?p \<in> set patterns" and s: "?p ! stepIndex m \<in> set ?p" and q: "patterns ! ?q \<in> set patterns"
    using ok len by (auto simp: matrix_ok_def intro!: nth_mem)
  have dots: "\<forall>d \<in> set (?p ! stepIndex m). d < 16"
    using patterns_ok p s by blast
  have q0: "0 < length (patterns ! ?q)" using patterns_ok q by blast
  have i: "\<not> length patterns \<le> patternIndex m" "stepIndex m < length ?p" "?q < length patterns"
    using ok len by (simp_all add: matrix_ok_def)
  show ?thesis
  proof (cases "stepIndex m + 1 \<ge> length ?p")
    case True
    then have "nextStep m = \<lparr>patternIndex = ?q, stepIndex = 0, activeDots = ?p ! stepIndex m\<rparr>"
      by (simp only: nextStep_def Let_def i if_True if_False)
    then show ?thesis using dots q0 i by (simp only: matrix_ok_def matrix.simps)
  next
    case False
    then have "nextStep m = \<lparr>patternIndex = patternIndex m, stepIndex = stepIndex m + 1, activeDots = ?p ! stepIndex m\<rparr>"
      by (simp only: nextStep_def Let_def i if_True if_False)
    then show ?thesis using dots False i by (simp only: matrix_ok_def matrix.simps) simp
  qed
qed

section \<open>Properties\<close>

text \<open>What the route writes about a step is what the panel reads from the message.\<close>

lemma step_message_read:
  "step_message cs = Some part \<Longrightarrow>
   getMessageToolCalls (JObj [(''parts'', JArr [JObj [(''type'', JStr ''text'')], part])]) =
     map (\<lambda>tc. JObj [(''toolName'', JStr (tc_name tc)), (''toolCallId'', JStr (tc_id tc)), (''args'', call_args tc)]) cs"
  by (auto simp: step_message_def getMessageToolCalls_def part_tools_def js_is_object_def split: list.splits)

lemma find_upt_first:
  "List.find P [i..<j] = Some n \<Longrightarrow> P n \<and> i \<le> n \<and> n < j \<and> (\<forall>k. i \<le> k \<and> k < n \<longrightarrow> \<not> P k)"
proof -
  assume "List.find P [i..<j] = Some n"
  then obtain m where m: "m < j - i" "P (i + m)" "n = i + m" "\<forall>l < m. \<not> P (i + l)"
    by (auto simp: find_Some_iff)
  have "\<not> P k" if "i \<le> k" "k < n" for k
  proof -
    have "k - i < m" "i + (k - i) = k" using that m(3) by auto
    then show ?thesis using m(4) by metis
  qed
  then show ?thesis using m by auto
qed

text \<open>The assistant answers in at most ten steps. Whatever the language model does, the stop condition,
  which the SDK asks after each step, first holds after the first step that is a text without tool
  calls, or after the tenth step if none of the first ten is.\<close>

theorem assistant_stops:
  fixes model :: "nat \<Rightarrow> llm_step"
  defines "n \<equiv> (case List.find (\<lambda>k. text_answer (model (k - 1))) [1..<11] of None \<Rightarrow> 10 | Some k \<Rightarrow> k)"
  shows "stopWhenResponseComplete (map model [0..<n]) \<and> 1 \<le> n \<and> n \<le> 10 \<and>
    (\<forall>k < n. \<not> stopWhenResponseComplete (map model [0..<k]))"
proof -
  have stop: "stopWhenResponseComplete (map model [0..<k]) \<longleftrightarrow> 0 < k \<and> (text_answer (model (k - 1)) \<or> 10 \<le> k)" for k
    by (cases k) (simp_all add: stopWhenResponseComplete_def MAX_STEPS_def)
  show ?thesis
  proof (cases "List.find (\<lambda>k. text_answer (model (k - 1))) [1..<11]")
    case None
    then have "\<not> text_answer (model (k - 1))" if "1 \<le> k" "k < 11" for k
      using that by (auto simp: find_None_iff)
    then show ?thesis using None by (auto simp: n_def stop)
  next
    case (Some k)
    then show ?thesis
      using find_upt_first [OF Some] by (auto simp: n_def stop)
  qed
qed

theorem assistant_stops_witness:
  "\<not> stopWhenResponseComplete (map (\<lambda>k. \<lparr>st_text = None, st_toolCalls = None\<rparr>) [0..<9])"
proof -
  let ?f = "\<lambda>k :: nat. \<lparr>st_text = None, st_toolCalls = None\<rparr>"
  have "List.find (\<lambda>k. text_answer (?f (k - 1))) [1..<11] = None"
    by (simp add: find_None_iff text_answer_def truthy_text_def)
  then show ?thesis using assistant_stops [of ?f] by simp
qed

end
