(* ===== verification/Seo.thy ===== *)
theory Seo
  imports SiteConfig Navigation
begin

text \<open>
  What a page of the documentation site tells search engines and readers about itself
  (docs/layer/app/): its links and structured data (composables/useSeo.ts), the collection and the
  edit link of a page (pages/[[lang]]/[...slug].vue), the language and the texts of a site without
  the i18n module (composables/useDocusI18n.ts, plugins/i18n.ts). The functions of the ufo package, the
  router and the i18n module are parameters; reactive values are read at one moment.
\<close>

section \<open>Links\<close>

record seo_options =
  so_title :: "string option"
  so_description :: "string option"
  so_type :: "string option"
  so_publishedAt :: "string option"
  so_modifiedAt :: "string option"
  so_breadcrumbs :: "breadcrumb list option"

text \<open>The site and the route: \<open>sx_locales\<close> are the codes of the locales, or \<open>None\<close> without i18n.\<close>

record seo_site =
  sx_url :: "string option"
  sx_name :: "string option"
  sx_path :: string
  sx_locales :: "string list option"
  sx_join :: "string \<Rightarrow> string \<Rightarrow> string"
  sx_withoutTrailingSlash :: "string \<Rightarrow> string"
  sx_switchLocalePath :: "string \<Rightarrow> string option"

record head_link =
  hl_rel :: string
  hl_href :: string
  hl_hreflang :: "string option"

definition canonicalUrl :: "seo_site \<Rightarrow> string option" where
  "canonicalUrl x = (if truthy_text (sx_url x) then Some (sx_join x (shown_text (sx_url x)) (sx_path x)) else None)"

definition baseUrl :: "seo_site \<Rightarrow> string" where
  "baseUrl x = (if truthy_text (sx_url x) then sx_withoutTrailingSlash x (shown_text (sx_url x)) else [])"

definition alternate :: "seo_site \<Rightarrow> string \<Rightarrow> string \<Rightarrow> head_link list" where
  "alternate x hreflang code =
     (let localePath = sx_switchLocalePath x code
      in if truthy_text localePath
         then [\<lparr>hl_rel = ''alternate'', hl_href = sx_join x (baseUrl x) (shown_text localePath), hl_hreflang = Some hreflang\<rparr>]
         else [])"

definition seo_links :: "seo_site \<Rightarrow> head_link list" where
  "seo_links x =
     (if truthy_text (canonicalUrl x)
      then [\<lparr>hl_rel = ''canonical'', hl_href = shown_text (canonicalUrl x), hl_hreflang = None\<rparr>] else []) @
     (case sx_locales x of
        None \<Rightarrow> []
      | Some codes \<Rightarrow>
          if baseUrl x = [] then []
          else concat (map (\<lambda>c. alternate x c c) codes) @
            alternate x ''x-default'' (shown_text (or_text (case codes of [] \<Rightarrow> None | c # _ \<Rightarrow> Some c) (Some ''en''))))"

section \<open>Structured data\<close>

definition seo_type :: "seo_options \<Rightarrow> string" where
  "seo_type o' = shown_text (or_text (so_type o') (Some ''article''))"

text \<open>A property that is only set when it is there.\<close>

definition optional :: "string \<Rightarrow> string option \<Rightarrow> (string \<times> jsval) list" where
  "optional k v = (if truthy_text v then [(k, JStr (shown_text v))] else [])"

definition article_schema :: "seo_site \<Rightarrow> seo_options \<Rightarrow> jsval" where
  "article_schema x o' =
     (let pageUrl = JStr (sx_join x (baseUrl x) (sx_path x))
      in JObj ([(''@context'', JStr ''https://schema.org''), (''@type'', JStr ''Article''),
           (''headline'', text_js (so_title o')), (''description'', text_js (so_description o')), (''url'', pageUrl),
           (''mainEntityOfPage'', JObj [(''@type'', JStr ''WebPage''), (''@id'', pageUrl)])] @
          optional ''datePublished'' (so_publishedAt o') @ optional ''dateModified'' (so_modifiedAt o') @
          (if truthy_text (sx_name x)
           then [(''publisher'', JObj [(''@type'', JStr ''Organization''), (''name'', JStr (shown_text (sx_name x)))])]
           else [])))"

definition website_schema :: "seo_site \<Rightarrow> seo_options \<Rightarrow> jsval" where
  "website_schema x o' =
     JObj [(''@context'', JStr ''https://schema.org''), (''@type'', JStr ''WebSite''),
           (''name'', text_js (or_text (sx_name x) (so_title o'))), (''description'', text_js (so_description o')),
           (''url'', JStr (baseUrl x))]"

definition breadcrumb_schema :: "seo_site \<Rightarrow> breadcrumb list \<Rightarrow> jsval" where
  "breadcrumb_schema x items =
     JObj [(''@context'', JStr ''https://schema.org''), (''@type'', JStr ''BreadcrumbList''),
           (''itemListElement'', JArr (map (\<lambda>(i, (t, p)). JObj
              [(''@type'', JStr ''ListItem''), (''position'', jint (int i + 1)), (''name'', JStr t),
               (''item'', JStr (sx_join x (baseUrl x) p))]) (enumerate 0 items)))]"

text \<open>The contents of the scripts, as \<open>JSON.stringify\<close> writes them.\<close>

definition seo_schemas :: "seo_site \<Rightarrow> seo_options \<Rightarrow> jsval list" where
  "seo_schemas x o' =
     (if baseUrl x = [] \<or> \<not> truthy_text (so_title o') then []
      else
        (if seo_type o' = ''article'' then [article_schema x o'] else []) @
        (if seo_type o' = ''website'' then [website_schema x o'] else []) @
        (case so_breadcrumbs o' of
           Some (c # cs) \<Rightarrow> [breadcrumb_schema x (c # cs)]
         | _ \<Rightarrow> []))"

definition seo_scripts :: "seo_site \<Rightarrow> seo_options \<Rightarrow> string list" where
  "seo_scripts x o' = map (\<lambda>v. shown_text (json_text v)) (seo_schemas x o')"

section \<open>The page\<close>

definition docs_collection :: "string option \<Rightarrow> string" where
  "docs_collection locale = (case locale of Some l \<Rightarrow> ''docs_'' @ l | None \<Rightarrow> ''docs'')"

text \<open>Repository, branch and directory of \<open>appConfig.github\<close>.\<close>

record github_config =
  gh_url :: "string option"
  gh_branch :: "string option"
  gh_rootDir :: "string option"

definition editLink :: "github_config option \<Rightarrow> string option \<Rightarrow> string option \<Rightarrow> string option" where
  "editLink github stem extension =
     (case github of
        None \<Rightarrow> None
      | Some g \<Rightarrow> Some (join_with ''/'' (map shown_text (filter truthy_text
          [gh_url g, Some ''edit'', gh_branch g, gh_rootDir g, Some ''content'',
           Some (shown_text stem @ ''.'' @ shown_text extension)]))))"

text \<open>The title and the breadcrumbs a documentation page passes on.\<close>

definition page_seo :: "nav_item list option \<Rightarrow> string option \<Rightarrow> string option \<Rightarrow> doc_page \<Rightarrow> seo_options" where
  "page_seo navigation seoTitle seoDescription p =
     \<lparr>so_title = or_text seoTitle (Some (pg_title p)),
      so_description = or_text seoDescription (pg_description p), so_type = Some ''article'',
      so_publishedAt = None,
      so_modifiedAt = (case pg_modifiedAt p of JStr s \<Rightarrow> Some s | _ \<Rightarrow> None),
      so_breadcrumbs = findPageBreadcrumbs navigation (shown_text (or_text (pg_path p) (Some [])))\<rparr>"

section \<open>Languages\<close>

text \<open>The messages of a site without the i18n module: those of the configured locale, or English ones.\<close>

definition load_locale :: "(string \<times> jsval) list \<Rightarrow> string option \<Rightarrow> string \<times> jsval" where
  "load_locale files configured =
     (let configuredLocale = shown_text (or_text configured (Some ''en''))
      in (case map_of files configuredLocale of
            Some ms \<Rightarrow> (configuredLocale, ms)
          | None \<Rightarrow> (''en'', case map_of files ''en'' of Some ms \<Rightarrow> ms | None \<Rightarrow> JObj [])))"

text \<open>\<open>key.split('.').reduce((acc, curr) => acc?.[curr], messages)\<close>\<close>

definition translate :: "jsval \<Rightarrow> string \<Rightarrow> jsval" where
  "translate ms key = foldl js_prop ms (split_on CHR ''.'' key)"

text \<open>The middleware of a site with it: the root is sent to the locale of the cookie, or the default one.\<close>

definition root_redirect :: "string option \<Rightarrow> string option \<Rightarrow> string \<Rightarrow> string option" where
  "root_redirect cookie defaultLocale path =
     (if path = ''/'' then Some (''/'' @ shown_text (first_text [cookie, defaultLocale, Some ''en''])) else None)"

section \<open>Properties\<close>

lemma breadcrumb_schema_json: "is_json (breadcrumb_schema x items) \<and> wf_js (breadcrumb_schema x items)"
  by (auto simp: breadcrumb_schema_def)

lemma find_crumbs_nonempty: "find_crumbs xs p up = Some crumbs \<Longrightarrow> crumbs \<noteq> []"
  by (induction xs p up rule: find_crumbs.induct) (auto simp: Let_def split: if_splits option.splits)

lemma map_enumerate: "map f (enumerate 0 xs) = map (\<lambda>i. f (i, xs ! i)) [0..<length xs]"
  by (rule nth_equalityI) (simp_all add: nth_enumerate_eq)

lemma breadcrumb_schema_nth:
  "breadcrumb_schema x crumbs = JObj
    [(''@context'', JStr ''https://schema.org''), (''@type'', JStr ''BreadcrumbList''),
     (''itemListElement'', JArr (map (\<lambda>i. JObj
        [(''@type'', JStr ''ListItem''), (''position'', jint (int i + 1)), (''name'', JStr (fst (crumbs ! i))),
         (''item'', JStr (sx_join x (baseUrl x) (snd (crumbs ! i))))]) [0..<length crumbs]))]"
  by (simp only: breadcrumb_schema_def map_enumerate case_prod_beta fst_conv snd_conv)

lemma script_parsed: "json_parse (shown_text (json_text (breadcrumb_schema x crumbs))) = Inr (breadcrumb_schema x crumbs)"
proof -
  have j: "is_json (breadcrumb_schema x crumbs)" "wf_js (breadcrumb_schema x crumbs)"
    using breadcrumb_schema_json by blast+
  obtain t where "json_text (breadcrumb_schema x crumbs) = Some t"
    using json_text_is_json [OF j(1)] by blast
  then show ?thesis
    using parse_json_text [OF j] by (simp add: shown_text_def)
qed

text \<open>The structured data gives the way to the page. On a site with an address, the last script of a
  documentation page with a title whose breadcrumbs are found is JSON text; parsed, it is the list of
  breadcrumbs from the top of the navigation to the page, numbered from one, each with its title and
  address.\<close>

theorem structured_breadcrumbs:
  assumes "baseUrl x \<noteq> []" and "pg_title p \<noteq> []"
    and "findPageBreadcrumbs navigation (shown_text (or_text (pg_path p) (Some []))) = Some crumbs"
  shows "json_parse (last (seo_scripts x (page_seo navigation seoTitle seoDescription p))) = Inr (JObj
    [(''@context'', JStr ''https://schema.org''), (''@type'', JStr ''BreadcrumbList''),
     (''itemListElement'', JArr (map (\<lambda>i. JObj
        [(''@type'', JStr ''ListItem''), (''position'', jint (int i + 1)), (''name'', JStr (fst (crumbs ! i))),
         (''item'', JStr (sx_join x (baseUrl x) (snd (crumbs ! i))))]) [0..<length crumbs]))])"
proof -
  obtain nav where "navigation = Some nav" "find_crumbs nav (shown_text (or_text (pg_path p) (Some []))) [] = Some crumbs"
    using assms(3) by (auto simp: findPageBreadcrumbs_def split: option.splits)
  then obtain c cs where c: "crumbs = c # cs"
    using find_crumbs_nonempty by (metis list.exhaust)
  have "seo_schemas x (page_seo navigation seoTitle seoDescription p) =
      [article_schema x (page_seo navigation seoTitle seoDescription p), breadcrumb_schema x crumbs]"
    using assms c by (simp add: seo_schemas_def page_seo_def seo_type_def or_text_def truthy_text_def shown_text_def split: option.splits)
  then have "last (seo_scripts x (page_seo navigation seoTitle seoDescription p)) =
      shown_text (json_text (breadcrumb_schema x crumbs))"
    by (simp add: seo_scripts_def)
  then have "json_parse (last (seo_scripts x (page_seo navigation seoTitle seoDescription p))) = Inr (breadcrumb_schema x crumbs)"
    by (simp only: script_parsed)
  then show ?thesis
    by (simp only: breadcrumb_schema_nth)
qed

theorem structured_breadcrumbs_witness:
  "json_parse (last (seo_scripts
      \<lparr>sx_url = Some ''https://x.y'', sx_name = None, sx_path = ''/a/b'', sx_locales = None, sx_join = (@),
       sx_withoutTrailingSlash = id, sx_switchLocalePath = (\<lambda>c. None)\<rparr>
      (page_seo (Some [NavItem ''A'' ''/a'' (Some [NavItem ''B'' ''/a/b'' None])]) None None
        \<lparr>pg_title = ''B'', pg_path = Some ''/a/b'', pg_description = None, pg_sitemap = JUndef, pg_modifiedAt = JUndef\<rparr>))) =
   Inr (JObj
    [(''@context'', JStr ''https://schema.org''), (''@type'', JStr ''BreadcrumbList''),
     (''itemListElement'', JArr
        [JObj [(''@type'', JStr ''ListItem''), (''position'', jint 1), (''name'', JStr ''A''), (''item'', JStr ''https://x.y/a'')],
         JObj [(''@type'', JStr ''ListItem''), (''position'', jint 2), (''name'', JStr ''B''), (''item'', JStr ''https://x.y/a/b'')]])])"
proof -
  let ?x = "\<lparr>sx_url = Some ''https://x.y'', sx_name = None, sx_path = ''/a/b'', sx_locales = None, sx_join = (@),
       sx_withoutTrailingSlash = id, sx_switchLocalePath = (\<lambda>c. None)\<rparr>"
  have b: "baseUrl ?x = ''https://x.y''"
    by (simp add: baseUrl_def truthy_text_def shown_text_def)
  show ?thesis
    by (subst structured_breadcrumbs [where crumbs = "[(''A'', ''/a''), (''B'', ''/a/b'')]"])
      (simp_all add: b findPageBreadcrumbs_def or_text_def truthy_text_def shown_text_def)
qed

end
