(* ===== verification/Metered.thy ===== *)
theory Metered
  imports Replay
begin

text \<open>
  The scheduler over any engine, and the quota that ends it. \<open>Scheduler\<close> (execution/scheduler.ts)
  is given its \<open>TickEngine\<close>, and its \<open>switch\<close> has no \<open>default\<close>: the engine of execution/tick.ts
  follows every tool call by a completion, but an engine that keeps asking for tools, or that
  answers with a kind the \<open>switch\<close> does not name, keeps the loop going. What ends such a run is the
  quota (execution/quota.ts).

  \<open>engine_loop\<close> is the loop of \<open>Scheduler.run_loop\<close> with the engine as a parameter; since it need not
  end, it is a partial function, whose value is \<open>None\<close> when it does not. With the engine of the
  repository it is \<open>run_loop\<close> (\<open>real_engine_run\<close>). The scenarios of tests/quota.test.ts, which
  replace \<open>runTick\<close> by a mock that always asks for a tool, are instances.
\<close>

section \<open>The loop over an engine\<close>

text \<open>An engine's answer: one of the four outputs, or an object of another kind.\<close>

datatype answer = Output tick_output | OtherKind string "(string \<times> jsval) list"

type_synonym engine = "tick_input \<Rightarrow> answer"

fun answer_js :: "answer \<Rightarrow> jsval" where
  "answer_js (Output out) = output_js out"
| "answer_js (OtherKind k fs) = JObj ((''kind'', JStr k) # fs)"

definition answer_state :: "answer \<Rightarrow> agent_state \<Rightarrow> jsval \<Rightarrow> jsval" where
  "answer_state out st mem =
     JObj [(''output'', answer_js out), (''lifecycle'', JStr (state_name st)), (''memory'', mem)]"

definition answer_hash :: "(string \<Rightarrow> string) \<Rightarrow> string \<Rightarrow> answer \<Rightarrow> 'x sched \<Rightarrow> jserr + string" where
  "answer_hash sha a out s =
     (case memory_of a s of
        Inl e \<Rightarrow> Inl e
      | Inr mem \<Rightarrow> hash_state sha (answer_state out (getState (sc_lifecycle s) a) mem))"

definition answer_payload :: "int \<Rightarrow> instruction \<Rightarrow> answer \<Rightarrow> string \<Rightarrow> jsval" where
  "answer_payload n instr out h =
     JObj [(''sequenceNumber'', jint n), (''instruction'', instruction_js instr),
           (''output'', answer_js out), (''stateHash'', JStr h)]"

definition record_answer ::
  "kernel_mode \<Rightarrow> string \<Rightarrow> int \<Rightarrow> instruction \<Rightarrow> answer \<Rightarrow> string \<Rightarrow> world \<Rightarrow> world \<times> (jserr + unit)" where
  "record_answer mode a n instr out h w =
     (if mode = LIVE then (log_event ''TICK_OUTPUT'' a (answer_payload n instr out h) w, Inr ())
      else
        (case find_entry ''TICK_OUTPUT'' a n w of
           None \<Rightarrow> (w, Inl (Error ''REPLAY_MISSING_LOG''))
         | Some e \<Rightarrow>
             let logged = js_prop (le_payload e) ''stateHash'' in
             if \<not> js_strict_eq logged (JStr h) then (w, Inl (divergence n logged h))
             else (w, Inr ())))"

definition engine_tick ::
  "kernel_mode \<Rightarrow> (string \<Rightarrow> string) \<Rightarrow> engine \<Rightarrow> string \<Rightarrow> int \<Rightarrow> instruction \<Rightarrow> 'x sw \<Rightarrow> ('x sw, answer) outcome" where
  "engine_tick mode sha engine a n instr sw =
     (case sc_consume consumeTick a sw of
        (sw1, Inl e) \<Rightarrow> (sw1, Inl e)
      | ((s1, w1), Inr _) \<Rightarrow>
          let out = engine \<lparr>ti_agentId = a, ti_sequenceNumber = n, ti_instruction = instr, ti_maxSteps = 100\<rparr>
          in (case answer_hash sha a out s1 of
                Inl e \<Rightarrow> ((s1, w1), Inl e)
              | Inr h \<Rightarrow>
                  (case record_answer mode a n instr out h w1 of
                     (w2, Inl e) \<Rightarrow> ((s1, w2), Inl e)
                   | (w2, Inr _) \<Rightarrow> ((s1, w2), Inr out))))"

text \<open>The iteration after an answer: how the loop is left, or the instruction and number of the next
  iteration. A kind outside of the \<open>switch\<close> repeats the iteration.\<close>

datatype turn = Leave "jserr + unit" | Again int instruction

definition left_with :: "('x sw, unit) outcome \<Rightarrow> 'x sw \<times> turn" where
  "left_with r = (let (sw, x) = r in (sw, Leave x))"

definition engine_turn ::
  "'x sched handlers \<Rightarrow> kernel_mode \<Rightarrow> (string \<Rightarrow> string) \<Rightarrow> engine \<Rightarrow> string \<Rightarrow> int \<Rightarrow> instruction \<Rightarrow> 'x sw \<Rightarrow> 'x sw \<times> turn" where
  "engine_turn hs mode sha engine a n instr sw =
     (case engine_tick mode sha engine a n instr sw of
        (sw1, Inl e) \<Rightarrow> left_with (sw1, Inl e)
      | (sw1, Inr (OtherKind k fs)) \<Rightarrow> (sw1, Again n instr)
      | (sw1, Inr (Output out)) \<Rightarrow>
          (case out of
             COMPLETED v \<Rightarrow> left_with (complete_agent mode a sw1)
           | FAILED e \<Rightarrow> left_with (fail_agent mode a sw1)
           | PENDING_DELEGATION t p \<Rightarrow> left_with (yield_agent mode a sw1)
           | PENDING_TOOL name args \<Rightarrow>
               (case sc_consume consumeToolCall a sw1 of
                  (sw2, Inl e) \<Rightarrow> left_with (sw2, Inl e)
                | (sw2, Inr _) \<Rightarrow>
                    (case gate_execute hs mode a n name args sw2 of
                       (sw3, Inl e) \<Rightarrow> left_with (sw3, Inl e)
                     | (sw3, Inr v) \<Rightarrow> (sw3, Again (n + 1) (RETURN v))))))"

partial_function (option) engine_loop ::
  "'x sched handlers \<Rightarrow> kernel_mode \<Rightarrow> (string \<Rightarrow> string) \<Rightarrow> engine \<Rightarrow> string \<Rightarrow> int \<Rightarrow> instruction \<Rightarrow> 'x sw \<Rightarrow>
     ('x sw, unit) outcome option"
where
  "engine_loop hs mode sha engine a n instr sw =
     (case engine_turn hs mode sha engine a n instr sw of
        (sw1, Leave r) \<Rightarrow> Some (sw1, r)
      | (sw1, Again n1 instr1) \<Rightarrow> engine_loop hs mode sha engine a n1 instr1 sw1)"

definition engine_run ::
  "'x sched handlers \<Rightarrow> kernel_mode \<Rightarrow> (string \<Rightarrow> string) \<Rightarrow> engine \<Rightarrow> string \<Rightarrow> instruction \<Rightarrow> 'x sw \<Rightarrow>
     ('x sw, unit) outcome option" where
  "engine_run hs mode sha engine a instr sw =
     (if getState (sc_lifecycle (fst sw)) a \<noteq> ACTIVE
      then Some (sw, Inl (Error (''Agent '' @ a @ '' is not ACTIVE'')))
      else map_option (run_catch mode a) (engine_loop hs mode sha engine a 1 instr sw))"

section \<open>The engine of the repository\<close>

lemma real_tick:
  "engine_tick mode sha (Output \<circ> run_tick) a n instr sw =
     (let (sw1, r) = loop_tick mode sha a n instr sw in (sw1, map_sum id Output r))"
  by (simp add: engine_tick_def loop_tick_def answer_hash_def answer_state_def record_answer_def answer_payload_def
      state_hash_def kernel_state_def record_tick_def tick_payload_def Let_def split: prod.split sum.split option.split)

lemma real_engine_leaf:
  assumes "calls_left instr = 0"
  shows "engine_loop hs mode sha (Output \<circ> run_tick) a n instr sw = Some (run_loop hs mode sha a n instr sw)"
  using assms
  by (subst engine_loop.simps, subst run_loop.simps) (cases instr;
    auto simp: engine_turn_def left_with_def real_tick run_tick_100 dest!: loop_tick_out split: prod.split sum.split)

lemma real_engine_loop:
  "engine_loop hs mode sha (Output \<circ> run_tick) a n instr sw = Some (run_loop hs mode sha a n instr sw)"
proof (cases "calls_left instr = 0")
  case False
  then obtain name args where "instr = CALL_TOOL name args"
    by (cases instr) auto
  then show ?thesis
    by (subst engine_loop.simps, subst run_loop.simps)
      (auto simp: engine_turn_def left_with_def real_tick run_tick_100 real_engine_leaf
        dest!: loop_tick_out split: prod.split sum.split)
qed (rule real_engine_leaf)

lemma real_engine_run:
  "engine_run hs mode sha (Output \<circ> run_tick) a instr sw = Some (runAgentLoop hs mode sha a instr sw)"
  by (simp add: engine_run_def runAgentLoop_def real_engine_loop)

section \<open>A quota ends every run\<close>

text \<open>The limit of an agent and the ticks it has used.\<close>

definition tick_count :: "string \<Rightarrow> 'x sw \<Rightarrow> quota option \<times> int" where
  "tick_count a sw =
     (map_of (limits (sc_quota (fst sw))) a, used_ticks (getUsage (sc_quota (fst sw)) a))"

text \<open>Tools that leave both alone: no code of the repository resets a limit or a count.\<close>

definition keeps_count :: "string \<Rightarrow> 'x sched handlers \<Rightarrow> bool" where
  "keeps_count a hs \<longleftrightarrow> (\<forall>name h args sw. map_of hs name = Some h \<longrightarrow> tick_count a (fst (h args sw)) = tick_count a sw)"

named_theorems counts \<open>what a piece of an iteration does to the count\<close>

lemma count_cong [counts]: "sc_quota (fst sw1) = sc_quota (fst sw) \<Longrightarrow> tick_count a sw1 = tick_count a sw"
  by (simp add: tick_count_def)

lemma count_exit [counts]:
  "sc_quota (fst (fst (sc_transition a t sw))) = sc_quota (fst sw)"
  "sc_quota (fst (sc_force a st sw)) = sc_quota (fst sw)"
  "sc_quota (fst (fst (complete_agent mode a sw))) = sc_quota (fst sw)"
  "sc_quota (fst (fst (fail_agent mode a sw))) = sc_quota (fst sw)"
  "sc_quota (fst (fst (yield_agent mode a sw))) = sc_quota (fst sw)"
  "sc_quota (fst (fst (run_catch mode a (sw, r)))) = sc_quota (fst sw)"
proof -
  show 1: "sc_quota (fst (fst (sc_transition a t sw))) = sc_quota (fst sw)"
    "sc_quota (fst (sc_force a st sw)) = sc_quota (fst sw)" for t st and sw :: "'x sw"
    by (simp_all add: sc_transition_def sc_force_def split: prod.split)
  show "sc_quota (fst (fst (complete_agent mode a sw))) = sc_quota (fst sw)"
  proof (cases "sc_transition a T_complete sw")
    case (Pair sw1 r)
    then show ?thesis
      using 1(1) [of T_complete sw] by (simp add: complete_agent_def 1 split: sum.split)
  qed
  show "sc_quota (fst (fst (fail_agent mode a sw))) = sc_quota (fst sw)"
    "sc_quota (fst (fst (yield_agent mode a sw))) = sc_quota (fst sw)"
    "sc_quota (fst (fst (run_catch mode a (sw, r)))) = sc_quota (fst sw)"
    by (simp_all add: fail_agent_def yield_agent_def run_catch_def 1 split: sum.split)
qed

lemma count_gate [counts]:
  assumes "keeps_count a hs"
  shows "tick_count a (fst (gate_execute hs mode a n name args sw)) = tick_count a sw"
proof -
  have calls: "tick_count a (fst (call_handler hs name args sw)) = tick_count a sw" for sw
    using assms by (cases "map_of hs name") (simp_all del: split_paired_All add: call_handler_def handler_lookup_def keeps_count_def)
  have body: "tick_count a (fst (gate_body hs mode a n name args sw)) = tick_count a sw" for sw
  proof (cases "call_handler hs name args sw")
    case (Pair sw1 r)
    then have "tick_count a sw1 = tick_count a sw" using calls [of sw] by simp
    then show ?thesis
      by (cases sw1) (simp add: gate_body_def Pair tick_count_def split: kernel_mode.split option.split sum.split)
  qed
  show ?thesis
  proof (cases "gate_body hs mode a n name args (fst sw, tick_clock (snd sw))")
    case (Pair sw1 r)
    then show ?thesis
      using body [of "(fst sw, tick_clock (snd sw))"]
      by (cases sw1; cases sw) (simp add: gate_execute_def tick_count_def)
  qed
qed

lemma count_consume [counts]:
  "tick_count a (fst (sc_consume consumeToolCall a sw)) = tick_count a sw"
  "tick_count a (fst (sc_consume consumeTick a sw)) = (fst (tick_count a sw), snd (tick_count a sw) + 1)"
  by (simp_all add: tick_count_def sc_consume_def consumeToolCall_def consumeTick_def Let_def getUsage_def [symmetric]
      split: prod.split option.split)

text \<open>One iteration is one tick, and another follows only within the limit.\<close>

lemma tick_counts:
  assumes "engine_tick mode sha engine a n instr sw = (sw1, r)"
  shows "tick_count a sw1 = (fst (tick_count a sw), snd (tick_count a sw) + 1)"
    and "r = Inr out \<Longrightarrow> fst (tick_count a sw) = Some q \<Longrightarrow> snd (tick_count a sw) < maxTicks q"
proof -
  obtain s w where sw: "sw = (s, w)" by fastforce
  obtain q1 r1 where c: "consumeTick a (sc_quota s) = (q1, r1)" by fastforce
  have "sw1 = (s\<lparr>sc_quota := q1\<rparr>, snd sw1)" "is_ok r \<Longrightarrow> is_ok r1"
    using assms by (auto simp: sw c engine_tick_def sc_consume_simps Let_def split: sum.splits prod.splits)
  moreover have "tick_count a (s\<lparr>sc_quota := q1\<rparr>, w1) = (fst (tick_count a sw), snd (tick_count a sw) + 1)" for w1
    using count_consume(2) [of a sw] by (simp add: sw sc_consume_simps c tick_count_def)
  ultimately show "tick_count a sw1 = (fst (tick_count a sw), snd (tick_count a sw) + 1)"
    "r = Inr out \<Longrightarrow> fst (tick_count a sw) = Some q \<Longrightarrow> snd (tick_count a sw) < maxTicks q"
    using tick_meter.consume_ok [of a "sc_quota s"] by (metis, auto simp: c sw tick_count_def)
qed

lemma turn_counts:
  assumes "keeps_count a hs" and "engine_turn hs mode sha engine a n instr sw = (sw1, t)"
  shows "tick_count a sw1 = (fst (tick_count a sw), snd (tick_count a sw) + 1)"
    and "t = Again n1 i1 \<Longrightarrow> fst (tick_count a sw) = Some q \<Longrightarrow> snd (tick_count a sw) < maxTicks q"
proof -
  obtain sw2 r where t: "engine_tick mode sha engine a n instr sw = (sw2, r)" by fastforce
  note tc = tick_counts [OF t]
  show "t = Again n1 i1 \<Longrightarrow> fst (tick_count a sw) = Some q \<Longrightarrow> snd (tick_count a sw) < maxTicks q"
    using assms(2) tc(2) by (cases r) (auto simp: engine_turn_def t left_with_def split: prod.splits)
  have exits: "tick_count a sw3 = tick_count a sw2"
    if "complete_agent mode a sw2 = (sw3, x) \<or> fail_agent mode a sw2 = (sw3, x) \<or> yield_agent mode a sw2 = (sw3, x)" for sw3 x
    using that count_exit(3,4,5) [of mode a sw2] by (auto intro!: count_cong)
  have "tick_count a sw1 = tick_count a sw2"
  proof (cases r)
    case (Inl e)
    then show ?thesis using assms(2) by (simp add: engine_turn_def t left_with_def)
  next
    case (Inr out)
    show ?thesis
    proof (cases "\<exists>name args. out = Output (PENDING_TOOL name args)")
      case False
      then show ?thesis
        using assms(2) Inr
        by (auto simp: engine_turn_def t left_with_def split: answer.splits tick_output.splits prod.splits intro: exits)
    next
      case True
      then obtain name args where o: "out = Output (PENDING_TOOL name args)" by blast
      obtain sw3 r3 where c: "sc_consume consumeToolCall a sw2 = (sw3, r3)" by fastforce
      obtain sw4 r4 where g: "gate_execute hs mode a n name args sw3 = (sw4, r4)" by fastforce
      have "tick_count a sw3 = tick_count a sw2" "tick_count a sw4 = tick_count a sw3"
        using count_consume(1) [of a sw2] count_gate [OF assms(1), of mode n name args sw3] by (simp_all add: c g)
      then show ?thesis
        using assms(2) Inr by (auto simp: engine_turn_def t o c g left_with_def split: sum.splits)
    qed
  qed
  then show "tick_count a sw1 = (fst (tick_count a sw), snd (tick_count a sw) + 1)" using tc(1) by simp
qed

text \<open>An engine that never leaves the loop of its own accord.\<close>

fun goes_on :: "answer \<Rightarrow> bool" where
  "goes_on (Output (PENDING_TOOL name args)) = True"
| "goes_on (OtherKind k fs) = True"
| "goes_on (Output out) = False"

lemma turn_rejected:
  assumes "\<And>i. goes_on (engine i)" and "engine_turn hs mode sha engine a n instr sw = (sw1, Leave r)"
  shows "\<not> is_ok r"
proof -
  obtain sw2 x where t: "engine_tick mode sha engine a n instr sw = (sw2, x)" by fastforce
  have "x = Inr out \<Longrightarrow> goes_on out" for out
    using t assms(1) by (auto simp: engine_tick_def Let_def split: sum.splits prod.splits)
  then show ?thesis
    using assms(2)
    by (auto simp: engine_turn_def t left_with_def split: sum.splits answer.splits tick_output.splits prod.splits)
qed

text \<open>The loop by the ticks left: within them it leaves.\<close>

lemma engine_loop_leaves:
  assumes "keeps_count a hs" and "fst (tick_count a sw) = Some q"
    and "maxTicks q - snd (tick_count a sw) < int m"
  shows "\<exists>sw1 r. engine_loop hs mode sha engine a n instr sw = Some (sw1, r) \<and>
    snd (tick_count a sw1) \<le> max (snd (tick_count a sw)) (maxTicks q) + 1 \<and>
    ((\<forall>i. goes_on (engine i)) \<longrightarrow> \<not> is_ok r)"
  using assms(2,3)
proof (induction m arbitrary: n instr sw)
  case (0 n instr sw)
  obtain sw1 t where t: "engine_turn hs mode sha engine a n instr sw = (sw1, t)" by fastforce
  have "\<exists>r. t = Leave r"
    using turn_counts(2) [OF assms(1) t] 0 by (cases t) fastforce+
  then show ?case
    using turn_counts(1) [OF assms(1) t] turn_rejected [of engine hs mode sha a n instr sw sw1]
    by (cases sw1) (subst engine_loop.simps, auto simp: t)
next
  case (Suc m n instr sw)
  obtain sw1 t where t: "engine_turn hs mode sha engine a n instr sw = (sw1, t)" by fastforce
  note count = turn_counts [OF assms(1) t]
  show ?case
  proof (cases t)
    case (Leave r)
    then show ?thesis using count(1) turn_rejected [of engine hs mode sha a n instr sw sw1]
      by (cases sw1) (subst engine_loop.simps, auto simp: t)
  next
    case (Again n1 i1)
    have "fst (tick_count a sw1) = Some q" "maxTicks q - snd (tick_count a sw1) < int m"
      using count(1) Suc.prems by auto
    from Suc.IH [OF this] obtain sw2 r where
      "engine_loop hs mode sha engine a n1 i1 sw1 = Some (sw2, r)"
      "snd (tick_count a sw2) \<le> max (snd (tick_count a sw1)) (maxTicks q) + 1"
      "(\<forall>i. goes_on (engine i)) \<longrightarrow> \<not> is_ok r" by blast
    then show ?thesis
      using count(1) count(2) [OF Again Suc.prems(1)] by (cases sw2) (subst engine_loop.simps, auto simp: t Again)
  qed
qed

lemma catch_outcome: "snd (run_catch mode a (sw, r)) = r"
  by (simp add: run_catch_def split: sum.split)

section \<open>Only the quota ends it\<close>

lemma answer_hash_frame: "answer_hash sha a out (s\<lparr>sc_quota := q\<rparr>) = answer_hash sha a out s"
  by (cases "memory_of a s") (simp_all add: answer_hash_def)

text \<open>Without a limit, an answer of a kind the \<open>switch\<close> does not name is asked for again and again.\<close>

lemma endless_turn:
  assumes "map_of (limits (sc_quota s)) a = None" and "answer_hash sha a (OtherKind k fs) s = Inr h"
  obtains s1 w1 where "engine_turn hs LIVE sha (\<lambda>_. OtherKind k fs) a n instr (s, w) = ((s1, w1), Again n instr)"
    "map_of (limits (sc_quota s1)) a = None" "answer_hash sha a (OtherKind k fs) s1 = Inr h"
proof -
  have "unmetered a s" using assms(1) by (simp add: unmetered_def)
  note m = unmetered_consume [OF this]
  have "answer_hash sha a (OtherKind k fs) (s\<lparr>sc_quota := q\<rparr>) = Inr h" for q
    using assms(2) by (simp add: answer_hash_frame)
  then show thesis
    using m(1,3) by (intro that [of "s\<lparr>sc_quota := fst (consumeTick a (sc_quota s))\<rparr>"
        "log_event ''TICK_OUTPUT'' a (answer_payload n instr (OtherKind k fs) h) w"])
      (simp_all add: engine_turn_def engine_tick_def record_answer_def Let_def unmetered_def)
qed

lemma endless:
  fixes s :: "'x sched" and hs :: "'x sched handlers"
  assumes "map_of (limits (sc_quota s)) a = None" and "answer_hash sha a (OtherKind k fs) s = Inr h"
  shows "engine_loop hs LIVE sha (\<lambda>_. OtherKind k fs) a n instr (s, w) = None"
proof (rule ccontr)
  assume "\<not> ?thesis"
  then obtain r where r: "engine_loop hs LIVE sha (\<lambda>_. OtherKind k fs) a n instr (s, w) = Some r" by blast
  have "mode = LIVE \<Longrightarrow> sha' = sha \<Longrightarrow> engine = (\<lambda>_. OtherKind k fs) \<Longrightarrow> a' = a \<Longrightarrow>
      map_of (limits (sc_quota (fst sw))) a = None \<Longrightarrow> answer_hash sha a (OtherKind k fs) (fst sw) \<noteq> Inr h"
    if "engine_loop hs' mode sha' engine a' n instr sw = Some r"
    for hs' :: "'x sched handlers" and mode sha' engine a' n instr sw r
    using that
  proof (induction rule: engine_loop.raw_induct [rotated, consumes 1, case_names step])
    case (step f hs' mode sha' engine a' n instr sw r)
    obtain s w where sw: "sw = (s, w)" by fastforce
    show ?case
    proof
      assume h: "answer_hash sha a (OtherKind k fs) (fst sw) = Inr h"
      obtain s1 w1 where t: "engine_turn hs' LIVE sha (\<lambda>_. OtherKind k fs) a n instr (s, w) = ((s1, w1), Again n instr)"
        "map_of (limits (sc_quota s1)) a = None" "answer_hash sha a (OtherKind k fs) s1 = Inr h"
        using step(7) h by (rule_tac endless_turn [of s a sha k fs h hs' n instr w]) (simp_all add: sw)
      from step(2) have "f hs' LIVE sha (\<lambda>_. OtherKind k fs) a n instr (s1, w1) = Some r"
        by (simp add: sw t(1) step(3-6))
      from step(1) [OF this] show False using t(2,3) by simp
    qed
  qed
  then show False using assms r by fastforce
qed

section \<open>An engine that always asks for one tool\<close>

text \<open>The engine of the tests, with a tool that only returns: the loop up to the first quota that is
  used up.\<close>

abbreviation asking :: "string \<Rightarrow> jsval \<Rightarrow> engine" where
  "asking name args \<equiv> (\<lambda>_. Output (PENDING_TOOL name args))"

definition first_exceeded :: "string \<Rightarrow> quota \<Rightarrow> jserr" where
  "first_exceeded a q =
     (if maxTicks q \<le> maxToolCalls q then quota_error ''ticks'' (maxTicks q) a
      else quota_error ''toolCalls'' (maxToolCalls q) a)"

definition used_up :: "quota \<Rightarrow> consumption" where
  "used_up q =
     (if maxTicks q \<le> maxToolCalls q then \<lparr>used_ticks = maxTicks q + 1, used_toolCalls = maxTicks q\<rparr>
      else \<lparr>used_ticks = maxToolCalls q + 1, used_toolCalls = maxToolCalls q + 1\<rparr>)"

definition asked_kinds :: "quota \<Rightarrow> nat \<Rightarrow> string list" where
  "asked_kinds q m =
     concat (replicate m [''TICK_OUTPUT'', ''TOOL_RESULT'']) @
     (if maxTicks q \<le> maxToolCalls q then [] else [''TICK_OUTPUT''])"

lemma asking_turn:
  assumes "map_of hs name = Some (\<lambda>args sw. (sw, Inr v))" and "map_of (limits (sc_quota s)) a = Some q"
    and "getUsage (sc_quota s) a = \<lparr>used_ticks = k, used_toolCalls = k\<rparr>"
    and "answer_hash sha a (Output (PENDING_TOOL name args)) s = Inr h"
  shows "k < maxTicks q \<Longrightarrow> k < maxToolCalls q \<Longrightarrow>
      \<exists>q1 w1 es. engine_turn hs LIVE sha (asking name args) a n instr (s, w) =
          ((s\<lparr>sc_quota := q1\<rparr>, w1), Again (n + 1) (RETURN v)) \<and>
        limits q1 = limits (sc_quota s) \<and> getUsage q1 a = \<lparr>used_ticks = k + 1, used_toolCalls = k + 1\<rparr> \<and>
        wlogs w1 = wlogs w @ es \<and> map le_kind es = [''TICK_OUTPUT'', ''TOOL_RESULT'']"
    and "k = min (maxTicks q) (maxToolCalls q) \<Longrightarrow>
      \<exists>q1 w1 es. engine_turn hs LIVE sha (asking name args) a n instr (s, w) =
          ((s\<lparr>sc_quota := q1\<rparr>, w1), Leave (Inl (first_exceeded a q))) \<and>
        getUsage q1 a = used_up q \<and> wlogs w1 = wlogs w @ es \<and> map le_kind es = asked_kinds q 0"
proof -
  note calc = engine_turn_def engine_tick_def sc_consume_simps consumeTick_def consumeToolCall_def Let_def assms
    answer_hash_frame record_answer_def gate_execute_def gate_body_def call_handler_def handler_lookup_def left_with_def
  show "k < maxTicks q \<Longrightarrow> k < maxToolCalls q \<Longrightarrow>
      \<exists>q1 w1 es. engine_turn hs LIVE sha (asking name args) a n instr (s, w) =
          ((s\<lparr>sc_quota := q1\<rparr>, w1), Again (n + 1) (RETURN v)) \<and>
        limits q1 = limits (sc_quota s) \<and> getUsage q1 a = \<lparr>used_ticks = k + 1, used_toolCalls = k + 1\<rparr> \<and>
        wlogs w1 = wlogs w @ es \<and> map le_kind es = [''TICK_OUTPUT'', ''TOOL_RESULT'']"
    by (simp add: calc) (intro exI conjI, rule refl, simp_all)
  show "k = min (maxTicks q) (maxToolCalls q) \<Longrightarrow>
      \<exists>q1 w1 es. engine_turn hs LIVE sha (asking name args) a n instr (s, w) =
          ((s\<lparr>sc_quota := q1\<rparr>, w1), Leave (Inl (first_exceeded a q))) \<and>
        getUsage q1 a = used_up q \<and> wlogs w1 = wlogs w @ es \<and> map le_kind es = asked_kinds q 0"
    by (simp add: calc first_exceeded_def used_up_def asked_kinds_def)
      (intro conjI impI exI, rule refl, simp, rule refl, simp)
qed

lemma asking_loop:
  assumes "map_of hs name = Some (\<lambda>args sw. (sw, Inr v))" and "map_of (limits (sc_quota s)) a = Some q"
    and "getUsage (sc_quota s) a = \<lparr>used_ticks = k, used_toolCalls = k\<rparr>"
    and "answer_hash sha a (Output (PENDING_TOOL name args)) s = Inr h"
    and "k + int m = min (maxTicks q) (maxToolCalls q)"
  shows "\<exists>q1 w1 es. engine_loop hs LIVE sha (asking name args) a n instr (s, w) =
      Some ((s\<lparr>sc_quota := q1\<rparr>, w1), Inl (first_exceeded a q)) \<and>
    getUsage q1 a = used_up q \<and> wlogs w1 = wlogs w @ es \<and> map le_kind es = asked_kinds q m"
  using assms(2-)
proof (induction m arbitrary: s w k n instr)
  case 0
  from asking_turn(2) [OF assms(1) 0(1,2,3), of n instr w] 0(4)
  obtain q1 w1 es where t: "engine_turn hs LIVE sha (asking name args) a n instr (s, w) =
      ((s\<lparr>sc_quota := q1\<rparr>, w1), Leave (Inl (first_exceeded a q)))"
    "getUsage q1 a = used_up q" "wlogs w1 = wlogs w @ es" "map le_kind es = asked_kinds q 0" by auto
  then show ?case by (subst engine_loop.simps) auto
next
  case (Suc m)
  have "k < maxTicks q" "k < maxToolCalls q" using Suc.prems(4) by auto
  from asking_turn(1) [OF assms(1) Suc.prems(1,2,3) this, of n instr w]
  obtain q1 w1 es where t: "engine_turn hs LIVE sha (asking name args) a n instr (s, w) =
      ((s\<lparr>sc_quota := q1\<rparr>, w1), Again (n + 1) (RETURN v))"
    "limits q1 = limits (sc_quota s)" "getUsage q1 a = \<lparr>used_ticks = k + 1, used_toolCalls = k + 1\<rparr>"
    "wlogs w1 = wlogs w @ es" "map le_kind es = [''TICK_OUTPUT'', ''TOOL_RESULT'']" by auto
  have "\<exists>q2 w2 es2. engine_loop hs LIVE sha (asking name args) a (n + 1) (RETURN v) (s\<lparr>sc_quota := q1\<rparr>, w1) =
      Some (((s\<lparr>sc_quota := q1\<rparr>)\<lparr>sc_quota := q2\<rparr>, w2), Inl (first_exceeded a q)) \<and>
    getUsage q2 a = used_up q \<and> wlogs w2 = wlogs w1 @ es2 \<and> map le_kind es2 = asked_kinds q m"
    by (rule Suc.IH) (use t Suc.prems in \<open>auto simp: answer_hash_frame min_def split: if_splits\<close>)
  then obtain q2 w2 es2 where "engine_loop hs LIVE sha (asking name args) a (n + 1) (RETURN v) (s\<lparr>sc_quota := q1\<rparr>, w1) =
      Some ((s\<lparr>sc_quota := q2\<rparr>, w2), Inl (first_exceeded a q))"
    "getUsage q2 a = used_up q" "wlogs w2 = wlogs w1 @ es2" "map le_kind es2 = asked_kinds q m" by auto
  then show ?case
    using t by (subst engine_loop.simps) (auto simp: asked_kinds_def)
qed

section \<open>The test suite of quotas\<close>

text \<open>tests/quota.test.ts: \<open>beforeEach\<close> wires a scheduler without a store, whose gate knows one tool;
  each test makes its agent \<open>ACTIVE\<close>, sets a quota and awaits a run. In the first two \<open>runTick\<close> is
  the mock; the assertions of a test are its value.\<close>

definition suite_handlers :: "unit sched handlers" where
  "suite_handlers = [(''test.tool'', \<lambda>args sw. (sw, Inr (JStr ''data'')))]"

definition suite_sched :: "string \<Rightarrow> quota \<Rightarrow> unit sched" where
  "suite_sched a q =
     \<lparr>sc_lifecycle = force_state a ACTIVE new_lifecycle, sc_store = None, sc_quota = setQuota a q new_enforcer, sc_env = ()\<rparr>"

definition rejected_with_quota :: "string \<Rightarrow> (consumption \<Rightarrow> bool) \<Rightarrow> (unit sw, unit) outcome option \<Rightarrow> bool" where
  "rejected_with_quota a expected r =
     (case r of
        Some ((s, w), Inl e) \<Rightarrow>
          err_name e = ''QuotaExceededError'' \<and> getState (sc_lifecycle s) a = FAULTED \<and> expected (getUsage (sc_quota s) a)
      | _ \<Rightarrow> False)"

definition tick_quota_test :: "(string \<Rightarrow> string) \<Rightarrow> (nat \<Rightarrow> int) \<Rightarrow> bool" where
  "tick_quota_test sha clock =
     rejected_with_quota ''quota-agent-1'' (\<lambda>u. used_ticks u = 3)
       (engine_run suite_handlers LIVE sha (asking ''test.tool'' (JObj [])) ''quota-agent-1'' NOOP
          (suite_sched ''quota-agent-1'' \<lparr>maxTicks = 2, maxToolCalls = 10\<rparr>, new_world clock))"

definition call_quota_test :: "(string \<Rightarrow> string) \<Rightarrow> (nat \<Rightarrow> int) \<Rightarrow> bool" where
  "call_quota_test sha clock =
     rejected_with_quota ''quota-agent-2'' (\<lambda>u. used_toolCalls u = 2)
       (engine_run suite_handlers LIVE sha (asking ''test.tool'' (JObj [])) ''quota-agent-2'' NOOP
          (suite_sched ''quota-agent-2'' \<lparr>maxTicks = 20, maxToolCalls = 1\<rparr>, new_world clock))"

definition unreached_quota_test :: "(string \<Rightarrow> string) \<Rightarrow> (nat \<Rightarrow> int) \<Rightarrow> bool" where
  "unreached_quota_test sha clock =
     (case runAgentLoop suite_handlers LIVE sha ''quota-agent-3'' NOOP
         (suite_sched ''quota-agent-3'' \<lparr>maxTicks = 5, maxToolCalls = 5\<rparr>, new_world clock) of
        ((s, w), r) \<Rightarrow>
          r = Inr () \<and> getState (sc_lifecycle s) ''quota-agent-3'' = TERMINATED \<and>
          used_ticks (getUsage (sc_quota s) ''quota-agent-3'') = 1 \<and>
          used_toolCalls (getUsage (sc_quota s) ''quota-agent-3'') = 0)"

lemma suite_sched_simps:
  "getState (sc_lifecycle (suite_sched a q)) a = ACTIVE"
  "getQuota (sc_quota (suite_sched a q)) a = Some q" "getUsage (sc_quota (suite_sched a q)) a = no_usage"
  "memory_of a (suite_sched a q) = Inr (JObj [])"
  by (simp_all add: suite_sched_def getQuota_def getUsage_def setQuota_def new_enforcer_def map_has_def
      map_get_or_def memory_of_def)

lemma suite_hash:
  "\<exists>h. answer_hash sha a (Output (PENDING_TOOL ''test.tool'' (JObj []))) (suite_sched a q) = Inr h"
  using hash_state_json [of "answer_state (Output (PENDING_TOOL ''test.tool'' (JObj [])))
      (getState (sc_lifecycle (suite_sched a q)) a) (JObj [])" sha]
  by (auto simp: answer_hash_def suite_sched_simps answer_state_def)

lemma suite_noop:
  assumes "1 \<le> maxTicks q"
  shows "\<exists>s1 w1. runAgentLoop suite_handlers LIVE sha a NOOP (suite_sched a q, w) = ((s1, w1), Inr ()) \<and>
    getState (sc_lifecycle s1) a = TERMINATED \<and> getUsage (sc_quota s1) a = \<lparr>used_ticks = 1, used_toolCalls = 0\<rparr>"
proof -
  let ?s = "suite_sched a q"
  obtain h where h: "state_hash sha a (COMPLETED JNull) ?s = Inr h"
    using hash_state_json [of "kernel_state (COMPLETED JNull) ACTIVE (JObj [])" sha]
    by (auto simp: state_hash_def suite_sched_simps kernel_state_def)
  obtain u where c: "consumeTick a (sc_quota ?s) = (u, Inr ())" "getUsage u a = \<lparr>used_ticks = 1, used_toolCalls = 0\<rparr>"
    using assms suite_sched_simps(2,3) [of a q] by (simp add: consumeTick_def getQuota_def Let_def no_usage_def)
  obtain w1 where t: "loop_tick LIVE sha a 1 NOOP (?s, w) = ((?s\<lparr>sc_quota := u\<rparr>, w1), Inr (COMPLETED JNull))"
    using h by (simp add: loop_tick_def sc_consume_simps c(1) run_tick_100 record_tick_def Let_def)
  obtain s2 w2 where l: "leave LIVE a NOOP (?s\<lparr>sc_quota := u\<rparr>, w1) = ((s2, w2), Inr ())"
    by (rule leave_ok [of "?s\<lparr>sc_quota := u\<rparr>" a LIVE NOOP w1]) (simp add: suite_sched_simps)
  have "sc_quota s2 = u"
    using l count_exit(3) [of LIVE a "(?s\<lparr>sc_quota := u\<rparr>, w1)"] by (simp add: leave_def)
  then show ?thesis
    using l leave_state [OF l] c(2)
    by (simp add: runAgentLoop_def suite_sched_simps run_loop_leaf t run_catch_def)
qed

lemma unreached_quota: "unreached_quota_test sha clock"
  using suite_noop [of "\<lparr>maxTicks = 5, maxToolCalls = 5\<rparr>" sha "''quota-agent-3''" "new_world clock"]
  by (auto simp: unreached_quota_test_def)

section \<open>Properties\<close>

text \<open>C4: A tick quota ends every run. Whatever the engine answers - asking for tools for ever, or
  with kinds the scheduler's \<open>switch\<close> does not know - and whatever the tools do, as long as they
  leave the quota of the agent alone, \<open>runAgentLoop\<close> settles, and has then counted at most one
  tick above the limit (or above the ticks already used). If the engine never completes, fails or
  delegates, the run is rejected. With the repository's engine this is the run of the scheduler.\<close>

theorem quota_ends_every_run:
  assumes "keeps_count a hs" and "getQuota (sc_quota (fst sw)) a = Some q"
  shows "\<exists>sw1 r. engine_run hs mode sha engine a instr sw = Some (sw1, r) \<and>
      used_ticks (getUsage (sc_quota (fst sw1)) a) \<le>
        max (used_ticks (getUsage (sc_quota (fst sw)) a)) (maxTicks q) + 1 \<and>
      ((\<forall>i. goes_on (engine i)) \<longrightarrow> \<not> is_ok r) \<and>
      (engine = Output \<circ> run_tick \<longrightarrow> runAgentLoop hs mode sha a instr sw = (sw1, r))"
proof (cases "getState (sc_lifecycle (fst sw)) a = ACTIVE")
  case False
  then show ?thesis
    by (cases sw) (auto simp: engine_run_def runAgentLoop_def)
next
  case True
  have "fst (tick_count a sw) = Some q" using assms(2) by (simp add: tick_count_def getQuota_def)
  moreover have "maxTicks q - snd (tick_count a sw) < int (nat (maxTicks q - snd (tick_count a sw) + 1))" by simp
  ultimately obtain sw1 r where l: "engine_loop hs mode sha engine a 1 instr sw = Some (sw1, r)"
    "snd (tick_count a sw1) \<le> max (snd (tick_count a sw)) (maxTicks q) + 1"
    "(\<forall>i. goes_on (engine i)) \<longrightarrow> \<not> is_ok r"
    using engine_loop_leaves [OF assms(1)] by blast
  obtain sw2 where c: "run_catch mode a (sw1, r) = (sw2, r)"
    using catch_outcome [of mode a sw1 r] by (metis prod.collapse)
  have "sc_quota (fst sw2) = sc_quota (fst sw1)"
    using count_exit(6) [of mode a sw1 r] by (simp add: c)
  moreover have "engine_run hs mode sha engine a instr sw = Some (sw2, r)"
    using True l(1) c by (simp add: engine_run_def)
  ultimately show ?thesis
    using l(2,3) real_engine_run [of hs mode sha a instr sw]
    by (cases sw2) (auto simp: tick_count_def)
qed

theorem quota_ends_every_run_witness:
  "keeps_count ''quota-agent-1'' suite_handlers \<and>
   (\<exists>sw1 r. engine_run suite_handlers LIVE id (\<lambda>_. OtherKind ''PAUSED'' []) ''quota-agent-1'' NOOP
        (suite_sched ''quota-agent-1'' \<lparr>maxTicks = 2, maxToolCalls = 10\<rparr>, new_world int) = Some (sw1, r) \<and>
      used_ticks (getUsage (sc_quota (fst sw1)) ''quota-agent-1'') \<le> 3 \<and> \<not> is_ok r)"
proof -
  have k: "keeps_count ''quota-agent-1'' suite_handlers"
    by (auto simp: keeps_count_def suite_handlers_def split: if_splits)
  from quota_ends_every_run [OF k, where sw = "(suite_sched ''quota-agent-1'' \<lparr>maxTicks = 2, maxToolCalls = 10\<rparr>, new_world int)"
      and q = "\<lparr>maxTicks = 2, maxToolCalls = 10\<rparr>" and mode = LIVE and sha = id
      and engine = "\<lambda>_. OtherKind ''PAUSED'' []" and instr = NOOP]
  show ?thesis using k by (auto simp: suite_sched_simps no_usage_def)
qed

text \<open>C5: What tests/quota.test.ts checks, for every quota: an agent whose engine always asks for one
  tool, which answers, is rejected by the quota it exceeds first and left \<open>FAULTED\<close>; the count is one
  above the limit, and the log holds the ticks and results up to it. The tool has run as often as the
  smaller limit allows.\<close>

theorem asking_run_exceeds:
  assumes "map_of hs name = Some (\<lambda>args sw. (sw, Inr v))" and "getState (sc_lifecycle s) a = ACTIVE"
    and "getQuota (sc_quota s) a = Some q" and "getUsage (sc_quota s) a = no_usage"
    and "0 \<le> maxTicks q" and "0 \<le> maxToolCalls q"
    and "answer_hash sha a (Output (PENDING_TOOL name args)) s = Inr h"
  shows "\<exists>s1 w1 es. engine_run hs LIVE sha (asking name args) a instr (s, w) = Some ((s1, w1), Inl (first_exceeded a q)) \<and>
    getState (sc_lifecycle s1) a = FAULTED \<and> getUsage (sc_quota s1) a = used_up q \<and>
    wlogs w1 = wlogs w @ es \<and>
    map le_kind es = asked_kinds q (nat (min (maxTicks q) (maxToolCalls q))) @ [''LIFECYCLE_TRANSITION'']"
proof -
  have "\<exists>q1 w1 es. engine_loop hs LIVE sha (asking name args) a 1 instr (s, w) =
      Some ((s\<lparr>sc_quota := q1\<rparr>, w1), Inl (first_exceeded a q)) \<and> getUsage q1 a = used_up q \<and>
    wlogs w1 = wlogs w @ es \<and> map le_kind es = asked_kinds q (nat (min (maxTicks q) (maxToolCalls q)))"
    by (rule asking_loop [where k = 0, OF assms(1)])
      (use assms in \<open>simp_all add: getQuota_def no_usage_def\<close>)
  then obtain q1 w1 es where l: "engine_loop hs LIVE sha (asking name args) a 1 instr (s, w) =
      Some ((s\<lparr>sc_quota := q1\<rparr>, w1), Inl (first_exceeded a q))" "getUsage q1 a = used_up q"
    "wlogs w1 = wlogs w @ es" "map le_kind es = asked_kinds q (nat (min (maxTicks q) (maxToolCalls q)))" by blast
  obtain lc w2 e where f: "sc_transition a T_error (s\<lparr>sc_quota := q1\<rparr>, w1) = ((s\<lparr>sc_quota := q1, sc_lifecycle := lc\<rparr>, w2), Inr ())"
    "getState lc a = FAULTED" "wlogs w2 = wlogs w1 @ [e]" "le_kind e = ''LIFECYCLE_TRANSITION''"
    using assms(2) by (rule_tac sc_transition_ok [of "s\<lparr>sc_quota := q1\<rparr>" a T_error FAULTED w1]) simp_all
  have "err_name (first_exceeded a q) = ''QuotaExceededError''"
    by (simp add: first_exceeded_def quota_error_def)
  then show ?thesis
    using l f assms(2) by (simp add: engine_run_def run_catch_def)
qed

theorem asking_run_exceeds_witness: "tick_quota_test id int \<and> call_quota_test id int"
proof -
  have tool: "map_of suite_handlers ''test.tool'' = Some (\<lambda>args sw. (sw, Inr (JStr ''data'')))"
    by (simp add: suite_handlers_def)
  obtain h1 where h1: "answer_hash id ''quota-agent-1'' (Output (PENDING_TOOL ''test.tool'' (JObj [])))
      (suite_sched ''quota-agent-1'' \<lparr>maxTicks = 2, maxToolCalls = 10\<rparr>) = Inr h1"
    using suite_hash by blast
  obtain h2 where h2: "answer_hash id ''quota-agent-2'' (Output (PENDING_TOOL ''test.tool'' (JObj [])))
      (suite_sched ''quota-agent-2'' \<lparr>maxTicks = 20, maxToolCalls = 1\<rparr>) = Inr h2"
    using suite_hash by blast
  have "tick_quota_test id int"
    using asking_run_exceeds [OF tool suite_sched_simps(1,2,3) _ _ h1, of NOOP "new_world int"]
    by (auto simp: tick_quota_test_def rejected_with_quota_def first_exceeded_def quota_error_def used_up_def)
  moreover have "call_quota_test id int"
    using asking_run_exceeds [OF tool suite_sched_simps(1,2,3) _ _ h2, of NOOP "new_world int"]
    by (auto simp: call_quota_test_def rejected_with_quota_def first_exceeded_def quota_error_def used_up_def)
  ultimately show ?thesis ..
qed

end
