(* ===== verification/Telemetry.thy ===== *)
theory Telemetry
  imports Scheduler
begin

text \<open>
  Telemetry: host/telemetry/provider.ts (\<open>TelemetryProvider\<close>) and what the tick engine, the tool gate
  and the scheduler report to it. The OpenTelemetry packages are not in the repository: the model
  keeps the calls the code makes to them, in order. The observed operations are the code with these
  calls in their places; they are shown to be the operations of \<open>Scheduler\<close>, which leave them out,
  and to end every span they start.
\<close>

section \<open>The provider\<close>

text \<open>A span is known by its number: how many were started before it.\<close>

datatype otel_call =
    GetTracer string
  | GetMeter string
  | CreateCounter string string
  | CreateHistogram string string string
  | CounterAdd string "(string \<times> jsval) list"
  | HistogramRecord string int "(string \<times> jsval) list"
  | SpanStart string
  | SpanSet nat string jsval
  | SpanException nat jserr
  | SpanEnd nat

datatype exporter = ConsoleExporter | OtlpExporter string

record sdk_options =
  sdk_service :: "string \<times> string"
  sdk_traces :: exporter
  sdk_metrics :: exporter
  sdk_interval :: int

datatype sdk_state = SdkRunning sdk_options | SdkShutDown sdk_options

text \<open>The static \<open>instance\<close>, its \<open>sdk\<close>, and the calls made so far.\<close>

record telemetry =
  tm_instance :: bool
  tm_sdk :: "sdk_state option"
  tm_calls :: "otel_call list"

definition no_telemetry :: telemetry where
  "no_telemetry = \<lparr>tm_instance = False, tm_sdk = None, tm_calls = []\<rparr>"

definition reports :: "otel_call list \<Rightarrow> telemetry \<Rightarrow> telemetry" where
  "reports cs tm = tm\<lparr>tm_calls := tm_calls tm @ cs\<rparr>"

definition kernel_scope :: string where
  "kernel_scope = ''omnipaw-kernel''"

definition instruments :: "otel_call list" where
  "instruments =
     [GetTracer kernel_scope, GetMeter kernel_scope,
      CreateCounter ''omnipaw.ticks.total'' ''Total number of execution ticks processed'',
      CreateCounter ''omnipaw.tools.total'' ''Total number of tool calls requested'',
      CreateCounter ''omnipaw.agents.spawns'' ''Total number of agents spawned'',
      CreateHistogram ''omnipaw.tools.latency_ms'' ''Latency of tool executions in milliseconds'' ''ms'']"

definition getInstance :: "telemetry \<Rightarrow> telemetry" where
  "getInstance tm = (if tm_instance tm then tm else reports instruments (tm\<lparr>tm_instance := True\<rparr>))"

definition exporter_of :: "string option \<Rightarrow> string \<Rightarrow> exporter" where
  "exporter_of endpoint path =
     (case endpoint of
        Some e \<Rightarrow> if e = [] then ConsoleExporter else OtlpExporter (e @ path)
      | None \<Rightarrow> ConsoleExporter)"

definition telemetry_start :: "string option \<Rightarrow> telemetry \<Rightarrow> telemetry" where
  "telemetry_start endpoint tm =
     tm\<lparr>tm_sdk := Some (SdkRunning
       \<lparr>sdk_service = (''omnipaw-agent-os'', ''1.0.0''), sdk_traces = exporter_of endpoint ''/v1/traces'',
        sdk_metrics = exporter_of endpoint ''/v1/metrics'', sdk_interval = 10000\<rparr>)\<rparr>"

text \<open>\<open>shutdown\<close> keeps the reference to the SDK; a second call shuts it down again.\<close>

definition telemetry_shutdown :: "telemetry \<Rightarrow> telemetry" where
  "telemetry_shutdown tm =
     (case tm_sdk tm of
        None \<Rightarrow> tm
      | Some (SdkRunning opts) \<Rightarrow> tm\<lparr>tm_sdk := Some (SdkShutDown opts)\<rparr>
      | Some (SdkShutDown opts) \<Rightarrow> tm)"

fun is_start :: "otel_call \<Rightarrow> bool" where
  "is_start (SpanStart name) = True"
| "is_start _ = False"

definition span_count :: "telemetry \<Rightarrow> nat" where
  "span_count tm = length (filter is_start (tm_calls tm))"

section \<open>The tick engine\<close>

definition instruction_kind :: "instruction \<Rightarrow> string" where
  "instruction_kind i =
     (case i of NOOP \<Rightarrow> ''NOOP'' | RETURN v \<Rightarrow> ''RETURN'' | CALL_TOOL n args \<Rightarrow> ''CALL_TOOL''
      | DELEGATE t p \<Rightarrow> ''DELEGATE'' | OtherInstruction k \<Rightarrow> k)"

definition output_kind :: "tick_output \<Rightarrow> string" where
  "output_kind out =
     (case out of COMPLETED v \<Rightarrow> ''COMPLETED'' | PENDING_TOOL n args \<Rightarrow> ''PENDING_TOOL''
      | PENDING_DELEGATION t p \<Rightarrow> ''PENDING_DELEGATION'' | FAILED e \<Rightarrow> ''FAILED'')"

definition observed_tick :: "tick_input \<Rightarrow> telemetry \<Rightarrow> telemetry \<times> tick_output" where
  "observed_tick i tm =
     (let a = ti_agentId i;
          tm1 = reports [CounterAdd ''omnipaw.ticks.total'' [(''agentId'', JStr a)]] (getInstance tm);
          span = span_count tm1;
          tm2 = reports [SpanStart (''TickEngine.runTick ['' @ show_int (ti_sequenceNumber i) @ '']''),
                   SpanSet span ''agent.id'' (JStr a), SpanSet span ''tick.sequence'' (jint (ti_sequenceNumber i)),
                   SpanSet span ''instruction.kind'' (JStr (instruction_kind (ti_instruction i)))] tm1;
          result = (\<lambda>cs out. (reports (cs @ [SpanSet span ''tick.result'' (JStr (output_kind out)), SpanEnd span]) tm2, out))
      in if ti_maxSteps i < 1 then result [] (FAILED ''TICK_OVERFLOW'')
         else
           (case ti_instruction i of
              NOOP \<Rightarrow> result [] (COMPLETED JNull)
            | RETURN v \<Rightarrow> result [] (COMPLETED v)
            | CALL_TOOL name args \<Rightarrow> result [SpanSet span ''tool.name'' (JStr name)] (PENDING_TOOL name args)
            | DELEGATE target payload \<Rightarrow>
                result [SpanSet span ''delegate.target'' (JStr target)] (PENDING_DELEGATION target payload)
            | OtherInstruction k \<Rightarrow> result [] (FAILED ''UNKNOWN_INSTRUCTION'')))"

section \<open>The tool gate\<close>

text \<open>The telemetry is part of what a tool handler may use and change.\<close>

type_synonym 'x observed = "(telemetry \<times> 'x) sw"

definition tm_of :: "'x observed \<Rightarrow> telemetry" where
  "tm_of sw = fst (sc_env (fst sw))"

definition observe :: "(telemetry \<Rightarrow> telemetry) \<Rightarrow> 'x observed \<Rightarrow> 'x observed" where
  "observe f sw = (let (s, w) = sw in (s\<lparr>sc_env := (f (fst (sc_env s)), snd (sc_env s))\<rparr>, w))"

definition mode_name :: "kernel_mode \<Rightarrow> string" where
  "mode_name mode = (case mode of LIVE \<Rightarrow> ''LIVE'' | REPLAY \<Rightarrow> ''REPLAY'' | OtherMode m \<Rightarrow> m)"

definition span_failed :: "nat \<Rightarrow> jserr \<Rightarrow> otel_call list" where
  "span_failed span e = [SpanException span e, SpanSet span ''error'' (JBool True)]"

definition clock_read :: "'s \<times> world \<Rightarrow> 's \<times> world" where
  "clock_read sw = (fst sw, tick_clock (snd sw))"

text \<open>\<open>tracer.startActiveSpan(name, span => \<dots>)\<close> with a body whose \<open>finally\<close> ends the span.\<close>

definition in_span ::
  "string \<Rightarrow> (nat \<Rightarrow> 'x observed \<Rightarrow> ('x observed, 'a) outcome) \<Rightarrow> 'x observed \<Rightarrow> ('x observed, 'a) outcome" where
  "in_span name body sw =
     (let span = span_count (tm_of sw);
          (sw1, r) = body span (observe (reports [SpanStart name]) sw)
      in (observe (reports [SpanEnd span]) sw1, r))"

definition observed_gate ::
  "(telemetry \<times> 'x) sched handlers \<Rightarrow> kernel_mode \<Rightarrow> string \<Rightarrow> int \<Rightarrow> string \<Rightarrow> jsval \<Rightarrow> 'x observed \<Rightarrow>
   ('x observed, jsval) outcome"
where
  "observed_gate hs mode a n name args sw =
     (let attributes = [(''agentId'', JStr a), (''toolName'', JStr name)];
          sw1 = observe (reports [CounterAdd ''omnipaw.tools.total'' attributes]) (observe getInstance sw);
          startTime = date_now (snd sw1)
      in in_span (''ToolGate.execute ['' @ name @ '']'') (\<lambda>span sw2.
           let sw3 = observe (reports [SpanSet span ''agent.id'' (JStr a), SpanSet span ''tool.name'' (JStr name),
                   SpanSet span ''tick.sequence'' (jint n), SpanSet span ''kernel.mode'' (JStr (mode_name mode))]) sw2;
               (sw4, r) = gate_body hs mode a n name args sw3;
               sw5 = observe (reports (case r of
                   Inr v \<Rightarrow> [SpanSet span ''tool.result'' (JStr (if mode = LIVE then ''SUCCESS'' else ''REPLAYED''))]
                 | Inl e \<Rightarrow> span_failed span e)) sw4;
               latency = date_now (snd sw5) - startTime
           in (observe (reports [SpanSet span ''tool.latency_ms'' (jint latency),
                   HistogramRecord ''omnipaw.tools.latency_ms'' latency attributes]) (clock_read sw5), r)) (clock_read sw1))"

section \<open>The scheduler\<close>

definition observed_loop_tick ::
  "kernel_mode \<Rightarrow> (string \<Rightarrow> string) \<Rightarrow> string \<Rightarrow> int \<Rightarrow> instruction \<Rightarrow> 'x observed \<Rightarrow> ('x observed, tick_output) outcome" where
  "observed_loop_tick mode sha a n instr sw =
     (case sc_consume consumeTick a sw of
        (sw1, Inl e) \<Rightarrow> (sw1, Inl e)
      | (sw1, Inr _) \<Rightarrow>
          let (tm, out) = observed_tick \<lparr>ti_agentId = a, ti_sequenceNumber = n, ti_instruction = instr,
                              ti_maxSteps = 100\<rparr> (tm_of sw1);
              (s2, w2) = observe (\<lambda>_. tm) sw1
          in (case state_hash sha a out s2 of
                Inl e \<Rightarrow> ((s2, w2), Inl e)
              | Inr h \<Rightarrow>
                  (case record_tick mode a n instr out h w2 of
                     (w3, Inl e) \<Rightarrow> ((s2, w3), Inl e)
                   | (w3, Inr _) \<Rightarrow> ((s2, w3), Inr out))))"

text \<open>An exit of the loop: the transition, which may throw, then what is set on the span.\<close>

definition leave_loop :: "otel_call list \<Rightarrow> ('x observed, unit) outcome \<Rightarrow> ('x observed, unit) outcome" where
  "leave_loop cs r =
     (case r of (sw, Inl e) \<Rightarrow> (sw, Inl e) | (sw, Inr _) \<Rightarrow> (observe (reports cs) sw, Inr ()))"

lemma observed_tick_out: "snd (observed_tick i tm) = run_tick i"
  by (simp add: observed_tick_def run_tick_def Let_def split: instruction.split)

lemma observed_loop_tick_out:
  "observed_loop_tick mode sha a n instr sw = (sw1, Inr out) \<Longrightarrow>
   out = run_tick \<lparr>ti_agentId = a, ti_sequenceNumber = n, ti_instruction = instr, ti_maxSteps = 100\<rparr>"
  unfolding observed_tick_out [symmetric, of _ "tm_of (fst (sc_consume consumeTick a sw))"]
  by (auto simp: observed_loop_tick_def Let_def split: prod.splits sum.splits)

function observed_loop ::
  "(telemetry \<times> 'x) sched handlers \<Rightarrow> kernel_mode \<Rightarrow> (string \<Rightarrow> string) \<Rightarrow> string \<Rightarrow> nat \<Rightarrow> int \<Rightarrow> instruction \<Rightarrow>
   'x observed \<Rightarrow> ('x observed, unit) outcome"
where
  "observed_loop hs mode sha a span n instr sw =
     (case observed_loop_tick mode sha a n instr sw of
        (sw1, Inl e) \<Rightarrow> (sw1, Inl e)
      | (sw1, Inr out) \<Rightarrow>
          (case out of
             COMPLETED v \<Rightarrow> leave_loop [SpanSet span ''loop.exit'' (JStr ''COMPLETED'')] (complete_agent mode a sw1)
           | FAILED e \<Rightarrow>
               leave_loop [SpanSet span ''loop.exit'' (JStr ''FAILED''), SpanSet span ''error'' (JBool True)]
                 (fail_agent mode a sw1)
           | PENDING_DELEGATION t p \<Rightarrow>
               leave_loop [SpanSet span ''loop.exit'' (JStr ''DELEGATED'')] (yield_agent mode a sw1)
           | PENDING_TOOL name args \<Rightarrow>
               (case sc_consume consumeToolCall a sw1 of
                  (sw2, Inl e) \<Rightarrow> (sw2, Inl e)
                | (sw2, Inr _) \<Rightarrow>
                    (case observed_gate hs mode a n name args sw2 of
                       (sw3, Inl e) \<Rightarrow> (sw3, Inl e)
                     | (sw3, Inr v) \<Rightarrow> observed_loop hs mode sha a span (n + 1) (RETURN v) sw3))))"
  by pat_completeness auto
termination
  by (relation "measure (\<lambda>(hs, mode, sha, a, span, n, instr, sw). calls_left instr)")
    (auto dest!: observed_loop_tick_out [OF sym] simp: run_tick_def split: instruction.splits)

declare observed_loop.simps [simp del]

definition observed_run ::
  "(telemetry \<times> 'x) sched handlers \<Rightarrow> kernel_mode \<Rightarrow> (string \<Rightarrow> string) \<Rightarrow> string \<Rightarrow> instruction \<Rightarrow> 'x observed \<Rightarrow>
   ('x observed, unit) outcome"
where
  "observed_run hs mode sha a instr sw =
     (if getState (sc_lifecycle (fst sw)) a \<noteq> ACTIVE
      then (sw, Inl (Error (''Agent '' @ a @ '' is not ACTIVE'')))
      else
        in_span (''Scheduler.runAgentLoop ['' @ a @ '']'') (\<lambda>span sw1.
          let sw2 = observe (reports [SpanSet span ''agent.id'' (JStr a), SpanSet span ''kernel.mode'' (JStr (mode_name mode))]) sw1;
              (sw3, r) = run_catch mode a (observed_loop hs mode sha a span 1 instr sw2)
          in (case r of
                Inr _ \<Rightarrow> sw3
              | Inl e \<Rightarrow>
                  observe (reports ((if err_name e = ''QuotaExceededError''
                    then [SpanSet span ''loop.exit'' (JStr ''QUOTA_EXCEEDED'')] else []) @ span_failed span e)) sw3, r))
          (observe (reports [CounterAdd ''omnipaw.agents.spawns'' [(''agentId'', JStr a)]]) (observe getInstance sw)))"

section \<open>Without the telemetry\<close>

definition plain :: "'x observed \<Rightarrow> 'x sw" where
  "plain sw =
     (let (s, w) = sw
      in (\<lparr>sc_lifecycle = sc_lifecycle s, sc_store = sc_store s, sc_quota = sc_quota s, sc_env = snd (sc_env s)\<rparr>, w))"

fun erased :: "('x observed, 'a) outcome \<Rightarrow> ('x sw, 'a) outcome" where
  "erased (sw, r) = (plain sw, r)"

definition hides :: "(telemetry \<times> 'x) sched handlers \<Rightarrow> 'x sched handlers \<Rightarrow> bool" where
  "hides hs hs0 \<longleftrightarrow>
     list_all2 (\<lambda>(n, f) (n0, f0). n = n0 \<and> (\<forall>args sw. erased (f args sw) = f0 args (plain sw))) hs hs0"

lemma plain_parts [simp]:
  "sc_lifecycle (fst (plain sw)) = sc_lifecycle (fst sw)"
  "sc_store (fst (plain sw)) = sc_store (fst sw)"
  "sc_quota (fst (plain sw)) = sc_quota (fst sw)"
  "snd (plain sw) = snd sw"
  by (simp_all add: plain_def split: prod.split)

lemma plain_observe [simp]: "plain (observe f sw) = plain sw"
  by (simp add: plain_def observe_def split: prod.split)

lemma observe_parts [simp]:
  "sc_lifecycle (fst (observe f sw)) = sc_lifecycle (fst sw)"
  "sc_store (fst (observe f sw)) = sc_store (fst sw)"
  "snd (observe f sw) = snd sw"
  "tm_of (observe f sw) = f (tm_of sw)"
  by (simp_all add: observe_def tm_of_def split: prod.split)

lemma plain_world: "plain (s, w) = (s0, w0) \<Longrightarrow> w0 = w \<and> plain (s, w1) = (s0, w1)"
  by (auto simp: plain_def)

lemma plain_pair: "plain (s, w) = (fst (plain (s, w)), w)"
  by (simp add: plain_def)

lemma erased_consume: "erased (sc_consume c a sw) = sc_consume c a (plain sw)"
  by (simp add: sc_consume_def plain_def split: prod.split)

lemma erased_transition: "erased (sc_transition a t sw) = sc_transition a t (plain sw)"
  by (simp add: sc_transition_def plain_def split: prod.split)

lemma plain_force: "plain (sc_force a st sw) = sc_force a st (plain sw)"
  by (simp add: sc_force_def plain_def split: prod.split)

lemma erased_then:
  "erased r = r0 \<Longrightarrow> (\<And>sw v. r = (sw, Inr v) \<Longrightarrow> erased (f sw v) = f0 (plain sw) v) \<Longrightarrow>
   erased (case r of (sw, Inl e) \<Rightarrow> (sw, Inl e) | (sw, Inr v) \<Rightarrow> f sw v) =
     (case r0 of (sw, Inl e) \<Rightarrow> (sw, Inl e) | (sw, Inr v) \<Rightarrow> f0 sw v)"
  by (cases r) (auto split: sum.split)

lemma erased_leave:
  "erased (complete_agent mode a sw) = complete_agent mode a (plain sw)"
  "erased (fail_agent mode a sw) = fail_agent mode a (plain sw)"
  "erased (yield_agent mode a sw) = yield_agent mode a (plain sw)"
  by (auto simp: complete_agent_def fail_agent_def yield_agent_def plain_force erased_transition
      intro: erased_then)

lemma erased_leave_loop: "erased (leave_loop cs r) = erased r"
  by (cases r) (auto simp: leave_loop_def split: sum.split)

lemma erased_catch: "erased (run_catch mode a r) = run_catch mode a (erased r)"
proof -
  have "plain (fst (sc_transition a T_error sw)) = fst (sc_transition a T_error (plain sw))" for sw :: "'x observed"
    unfolding erased_transition [symmetric] by (cases "sc_transition a T_error sw") simp
  then show ?thesis by (cases r) (auto simp: run_catch_def plain_force split: sum.split)
qed

lemma state_hash_plain: "state_hash sha a out (fst (plain sw)) = state_hash sha a out (fst sw)"
proof -
  have "memory_of a (fst (plain sw)) = memory_of a (fst sw)" unfolding memory_of_def by simp
  then show ?thesis unfolding state_hash_def by (simp split: sum.split)
qed

lemma erased_lookup:
  assumes "hides hs hs0"
  shows "erased (call_handler hs name args sw) = call_handler hs0 name args (plain sw)"
proof -
  have "rel_option (\<lambda>f f0. \<forall>args sw. erased (f args sw) = f0 args (plain sw)) (map_of hs name) (map_of hs0 name)"
    using assms unfolding hides_def
    by (induction rule: list_all2_induct) (auto simp del: split_paired_All)
  then show ?thesis
    by (cases rule: option.rel_cases) (auto simp: call_handler_def handler_lookup_def simp del: split_paired_All)
qed

lemma erased_body:
  assumes "hides hs hs0"
  shows "erased (gate_body hs mode a n name args sw) = gate_body hs0 mode a n name args (plain sw)"
proof (cases mode)
  case LIVE
  obtain s w r where call: "call_handler hs name args sw = ((s, w), r)" by (metis surj_pair)
  then have "call_handler hs0 name args (plain sw) = (plain (s, w), r)"
    using erased_lookup [OF assms, of name args sw] by simp
  with call LIVE show ?thesis by (cases r) (simp_all add: gate_body_def plain_def)
qed (auto simp: gate_body_def split: option.split)

lemma gate_execute_body:
  "gate_execute hs mode a n name args sw =
     (case gate_body hs mode a n name args (clock_read sw) of (sw1, r) \<Rightarrow> (clock_read sw1, r))"
  by (simp add: gate_execute_def clock_read_def split: prod.split)

lemma erased_pair:
  "(\<And>sw v. plain (g sw v) = h (plain sw)) \<Longrightarrow>
   erased (case r of (sw, v) \<Rightarrow> (g sw v, v)) = (case erased r of (sw, v) \<Rightarrow> (h sw, v))"
  by (cases r) simp

lemma plain_clock_read [simp]: "plain (clock_read sw) = clock_read (plain sw)"
  by (simp add: plain_def clock_read_def split: prod.split)

lemma erased_span:
  "(\<And>k sw. erased (body k sw) = f (plain sw)) \<Longrightarrow> erased (in_span name body sw) = f (plain sw)"
  unfolding in_span_def Let_def by (subst erased_pair [where h = "\<lambda>sw. sw"]) simp_all

lemma erased_gate:
  assumes "hides hs hs0"
  shows "erased (observed_gate hs mode a n name args sw) = gate_execute hs0 mode a n name args (plain sw)"
proof -
  have "erased (observed_gate hs mode a n name args sw) =
      (\<lambda>sw. case gate_body hs0 mode a n name args sw of (sw1, r) \<Rightarrow> (clock_read sw1, r)) (clock_read (plain sw))"
    unfolding observed_gate_def Let_def
    by (subst erased_span, subst erased_pair [where h = clock_read]) (simp_all add: erased_body [OF assms])
  then show ?thesis by (simp add: gate_execute_body)
qed

lemma erased_loop_tick: "erased (observed_loop_tick mode sha a n instr sw) = loop_tick mode sha a n instr (plain sw)"
proof -
  obtain sw1 r where c: "sc_consume consumeTick a sw = (sw1, r)" by (metis surj_pair)
  then have c0: "sc_consume consumeTick a (plain sw) = (plain sw1, r)"
    using erased_consume [of consumeTick a sw] by simp
  let ?i = "\<lparr>ti_agentId = a, ti_sequenceNumber = n, ti_instruction = instr, ti_maxSteps = 100\<rparr>"
  obtain tm where o: "observed_tick ?i (tm_of sw1) = (tm, run_tick ?i)"
    using observed_tick_out [of ?i] by (metis prod.collapse)
  obtain s w where s: "observe (\<lambda>_. tm) sw1 = (s, w)" by fastforce
  obtain s0 where s0: "plain (s, w) = (s0, w)" by (simp add: plain_def)
  have eq: "plain sw1 = (s0, w)" using plain_observe [of "\<lambda>_. tm" sw1] s s0 by simp
  have h: "state_hash sha a out s0 = state_hash sha a out s" for out
    using state_hash_plain [of sha a out "(s, w)"] s0 by simp
  have "plain (s, w1) = (s0, w1)" for w1 using s0 by (simp add: plain_def)
  then show ?thesis
    unfolding observed_loop_tick_def loop_tick_def c c0
    by (cases r) (simp_all add: eq o s h split: prod.split sum.split)
qed

lemma erased_loop:
  assumes "hides hs hs0"
  shows "erased (observed_loop hs mode sha a span n instr sw) = run_loop hs0 mode sha a n instr (plain sw)"
proof (induction "calls_left instr" arbitrary: n instr sw rule: less_induct)
  case less
  show ?case
    apply (subst observed_loop.simps)
    apply (subst run_loop.simps)
    apply (rule erased_then [OF erased_loop_tick])
    subgoal for sw1 out
    proof (cases out)
      case (PENDING_TOOL name args)
      assume "observed_loop_tick mode sha a n instr sw = (sw1, Inr out)"
      then have "calls_left (RETURN v) < calls_left instr" for v
        using PENDING_TOOL by (auto dest!: observed_loop_tick_out simp: run_tick_def split: instruction.splits)
      then show ?thesis
        unfolding PENDING_TOOL
        by (auto intro!: erased_then erased_consume erased_gate [OF assms] less)
    qed (simp_all add: erased_leave_loop erased_leave)
    done
qed

lemma erased_run:
  assumes "hides hs hs0"
  shows "erased (observed_run hs mode sha a instr sw) = runAgentLoop hs0 mode sha a instr (plain sw)"
proof (cases "getState (sc_lifecycle (fst sw)) a = ACTIVE")
  case True
  have "erased (observed_run hs mode sha a instr sw) =
      (\<lambda>sw. run_catch mode a (run_loop hs0 mode sha a 1 instr sw)) (plain sw)"
    using True unfolding observed_run_def Let_def
    by (simp, subst erased_span, subst erased_pair [where h = "\<lambda>sw. sw"])
      (simp_all add: erased_catch erased_loop [OF assms] split: sum.split)
  then show ?thesis using True by (simp add: runAgentLoop_def)
qed (simp add: observed_run_def runAgentLoop_def)

section \<open>Every span is ended\<close>

definition starts :: "otel_call list \<Rightarrow> nat" where
  "starts cs = length (filter is_start cs)"

text \<open>Of the calls made when \<open>k\<close> spans had been started: each span started among them is ended among
  them, once, and no other is.\<close>

definition ends_once :: "nat \<Rightarrow> otel_call list \<Rightarrow> bool" where
  "ends_once k cs \<longleftrightarrow> (\<forall>h. count_list cs (SpanEnd h) = (if k \<le> h \<and> h < k + starts cs then 1 else 0))"

definition tidy :: "telemetry \<Rightarrow> telemetry \<Rightarrow> bool" where
  "tidy tm tm1 \<longleftrightarrow> (\<exists>cs. tm_calls tm1 = tm_calls tm @ cs \<and> ends_once (span_count tm) cs)"

fun quiet :: "otel_call \<Rightarrow> bool" where
  "quiet (SpanStart name) = False"
| "quiet (SpanEnd h) = False"
| "quiet _ = True"

definition tidy_handlers :: "(telemetry \<times> 'x) sched handlers \<Rightarrow> bool" where
  "tidy_handlers hs \<longleftrightarrow> list_all (\<lambda>(n, f). \<forall>args sw. tidy (tm_of sw) (tm_of (fst (f args sw)))) hs"

named_theorems tidy_intros

lemma starts_simps [simp]:
  "starts [] = 0" "starts (c # cs) = (if is_start c then Suc (starts cs) else starts cs)"
  "starts (cs @ ds) = starts cs + starts ds"
  by (simp_all add: starts_def)

lemma span_count_calls: "span_count tm = starts (tm_calls tm)"
  by (simp add: span_count_def starts_def)

lemma span_count_reports [simp]: "span_count (reports cs tm) = span_count tm + starts cs"
  by (simp add: span_count_calls reports_def)

lemma quiet_count [simp]: "quiet c \<Longrightarrow> \<not> is_start c" "quiet c \<Longrightarrow> c \<noteq> SpanEnd h" "quiet c \<Longrightarrow> SpanEnd h \<noteq> c"
  by (cases c; simp)+

lemma ends_once_append: "ends_once k cs \<Longrightarrow> ends_once (k + starts cs) ds \<Longrightarrow> ends_once k (cs @ ds)"
  by (auto simp: ends_once_def)

lemma ends_once_quiet: "list_all quiet cs \<Longrightarrow> starts cs = 0 \<and> ends_once k cs"
  by (induction cs) (auto simp: ends_once_def)

lemma ends_once_bracket:
  assumes "ends_once (Suc k) cs"
  shows "ends_once k (SpanStart name # cs @ [SpanEnd k])"
proof -
  have "count_list cs (SpanEnd k) = 0" using assms by (simp add: ends_once_def)
  with assms show ?thesis by (auto simp: ends_once_def)
qed

lemma tidy_refl [simp, tidy_intros]: "tidy tm tm"
  by (auto simp: tidy_def ends_once_def intro!: exI [of _ "[]"])

lemma tidy_trans [trans]: "tidy tm tm1 \<Longrightarrow> tidy tm1 tm2 \<Longrightarrow> tidy tm tm2"
  unfolding tidy_def span_count_calls by (fastforce intro: ends_once_append)

lemma tidy_reports [tidy_intros]: "list_all quiet cs \<Longrightarrow> tidy tm (reports cs tm)"
  using ends_once_quiet [of cs] by (auto simp: tidy_def reports_def)

lemma tidy_getInstance [tidy_intros]: "tidy tm (getInstance tm)"
proof -
  have "list_all quiet instruments" by (simp add: instruments_def)
  then have "ends_once (span_count tm) instruments" using ends_once_quiet by blast
  then show ?thesis by (auto simp: getInstance_def tidy_def reports_def ends_once_def intro!: exI [of _ "[]"])
qed

text \<open>\<open>startActiveSpan\<close> with a callback that ends the span last.\<close>

lemma tidy_span:
  assumes "tidy (reports [SpanStart name] tm) tm1"
  shows "tidy tm (reports [SpanEnd (span_count tm)] tm1)"
proof -
  obtain cs where "tm_calls tm1 = tm_calls tm @ SpanStart name # cs" "ends_once (Suc (span_count tm)) cs"
    using assms by (auto simp: tidy_def reports_def span_count_calls)
  then show ?thesis using ends_once_bracket [of "span_count tm" cs name] by (auto simp: tidy_def reports_def)
qed

lemma reports_reports: "reports ds (reports cs tm) = reports (cs @ ds) tm"
  by (simp add: reports_def)

lemma tidy_flat: "ends_once (span_count tm) cs \<Longrightarrow> tidy tm (reports cs tm)"
  by (auto simp: tidy_def reports_def)

lemma tidy_tick: "tidy tm (fst (observed_tick i tm))"
proof -
  have flat: "tidy tm (reports cs (getInstance tm))" if "ends_once (span_count (getInstance tm)) cs" for cs
    by (rule tidy_trans [OF tidy_getInstance tidy_flat [OF that]])
  show ?thesis
    by (cases "ti_instruction i"; cases "ti_maxSteps i < 1";
        simp add: observed_tick_def Let_def reports_reports; intro flat; simp add: ends_once_def)
qed

lemma tm_of_parts [simp]:
  "tm_of (fst (sc_consume c a sw)) = tm_of sw"
  "tm_of (fst (sc_transition a t sw)) = tm_of sw"
  "tm_of (sc_force a st sw) = tm_of sw"
  "tm_of (clock_read sw) = tm_of sw"
  by (simp_all add: tm_of_def sc_consume_def sc_transition_def sc_force_def clock_read_def split: prod.split)

lemma tm_of_leave [simp]:
  "tm_of (fst (complete_agent mode a sw)) = tm_of sw"
  "tm_of (fst (fail_agent mode a sw)) = tm_of sw"
  "tm_of (fst (yield_agent mode a sw)) = tm_of sw"
proof -
  obtain sw1 r where e: "sc_transition a T_complete sw = (sw1, r)" by fastforce
  then have "tm_of sw1 = tm_of sw" using tm_of_parts(2) [of a T_complete sw] by simp
  then show "tm_of (fst (complete_agent mode a sw)) = tm_of sw"
    by (cases r) (simp_all add: complete_agent_def e)
qed (simp_all add: fail_agent_def yield_agent_def)

lemma tm_of_catch [simp]: "tm_of (fst (run_catch mode a r)) = tm_of (fst r)"
  by (cases r) (auto simp: run_catch_def split: sum.split)

lemma tidy_leave_loop: "list_all quiet cs \<Longrightarrow> tidy (tm_of (fst r)) (tm_of (fst (leave_loop cs r)))"
  by (cases r) (auto simp: leave_loop_def tidy_reports split: sum.split)

lemma tidy_handler: "tidy_handlers hs \<Longrightarrow> map_of hs name = Some f \<Longrightarrow> tidy (tm_of sw) (tm_of (fst (f args sw)))"
  unfolding tidy_handlers_def list_all_iff by (drule bspec [OF _ map_of_SomeD]) (assumption, blast)

lemma tidy_body:
  assumes "tidy_handlers hs"
  shows "tidy (tm_of sw) (tm_of (fst (gate_body hs mode a n name args sw)))"
proof -
  have "tidy (tm_of sw) (tm_of (fst (call_handler hs name args sw)))"
    using tidy_handler [OF assms]
    by (auto simp: call_handler_def handler_lookup_def simp del: split_paired_All split: option.split)
  moreover obtain s w r where "call_handler hs name args sw = ((s, w), r)" by (metis surj_pair)
  ultimately show ?thesis
    by (cases r) (auto simp: gate_body_def tm_of_def split: kernel_mode.split option.split)
qed

lemma tidy_before:
  "list_all quiet cs \<Longrightarrow> tidy (tm_of (observe (reports cs) sw)) tm \<Longrightarrow> tidy (tm_of sw) tm"
  "tidy (tm_of (observe getInstance sw)) tm \<Longrightarrow> tidy (tm_of sw) tm"
  using tidy_trans [OF tidy_reports [of cs "tm_of sw"]] tidy_trans [OF tidy_getInstance [of "tm_of sw"]] by simp_all

lemma tidy_after: "list_all quiet cs \<Longrightarrow> tidy tm (tm_of sw) \<Longrightarrow> tidy tm (tm_of (observe (reports cs) sw))"
  using tidy_trans [OF _ tidy_reports [of cs "tm_of sw"]] by simp

lemma tidy_pair:
  "tidy tm (tm_of (fst x)) \<Longrightarrow> (\<And>sw r. tidy (tm_of sw) (tm_of (g sw r))) \<Longrightarrow>
   tidy tm (tm_of (fst (case x of (sw, r) \<Rightarrow> (g sw r, r))))"
  by (cases x) (auto intro: tidy_trans)

lemma tidy_in_span:
  assumes "\<And>k sw. tidy (tm_of sw) (tm_of (fst (body k sw)))" "tm_of sw0 = tm"
  shows "tidy tm (tm_of (fst (in_span name body sw0)))"
  using tidy_span [of name "tm_of sw0"] assms(1) [of "observe (reports [SpanStart name]) sw0" "span_count (tm_of sw0)"]
  unfolding assms(2) [symmetric] by (simp add: in_span_def Let_def split_beta)

lemma tidy_counted:
  "tidy (tm_of (observe (reports [CounterAdd name attributes]) (observe getInstance sw))) tm \<Longrightarrow> tidy (tm_of sw) tm"
  by (rule tidy_before(2), rule tidy_before(1) [where cs = "[CounterAdd name attributes]"]) simp_all

lemma tidy_gate:
  assumes "tidy_handlers hs"
  shows "tidy (tm_of sw) (tm_of (fst (observed_gate hs mode a n name args sw)))"
proof -
  have body: "tidy (tm_of sw) (tm_of (fst (gate_body hs mode a n name args (observe (reports cs) sw))))"
    if "list_all quiet cs" for sw cs
    by (rule tidy_before(1) [OF that tidy_body [OF assms]])
  show ?thesis
    unfolding observed_gate_def Let_def
    by (rule tidy_counted, rule tidy_in_span [OF _ tm_of_parts(4)], rule tidy_pair, rule body, simp, intro tidy_after)
      (simp_all add: tidy_reports span_failed_def split: sum.split)
qed

lemma tidy_loop_tick: "tidy (tm_of sw) (tm_of (fst (observed_loop_tick mode sha a n instr sw)))"
proof -
  obtain sw1 r where c: "sc_consume consumeTick a sw = (sw1, r)" by (metis surj_pair)
  then have "tm_of sw1 = tm_of sw" using tm_of_parts(1) [of consumeTick a sw] by simp
  moreover obtain tm out where o: "observed_tick \<lparr>ti_agentId = a, ti_sequenceNumber = n, ti_instruction = instr,
      ti_maxSteps = 100\<rparr> (tm_of sw1) = (tm, out)"
    by fastforce
  moreover obtain s w where s: "observe (\<lambda>_. tm) sw1 = (s, w)" by fastforce
  moreover have "tm_of (s, w1) = tm" for w1
    using observe_parts(4) [of "\<lambda>_. tm" sw1] s by (simp add: tm_of_def)
  moreover have "tidy (tm_of sw1) tm" using tidy_tick o by (metis fst_conv)
  ultimately show ?thesis
    by (cases r) (auto simp: observed_loop_tick_def c split: prod.split sum.split)
qed

lemma tidy_then:
  "tidy tm (tm_of (fst r)) \<Longrightarrow> (\<And>sw v. r = (sw, Inr v) \<Longrightarrow> tidy (tm_of sw) (tm_of (fst (f sw v)))) \<Longrightarrow>
   tidy tm (tm_of (fst (case r of (sw, Inl e) \<Rightarrow> (sw, Inl e) | (sw, Inr v) \<Rightarrow> f sw v)))"
  by (cases r) (auto intro: tidy_trans split: sum.split)

lemma tidy_loop:
  assumes "tidy_handlers hs"
  shows "tidy (tm_of sw) (tm_of (fst (observed_loop hs mode sha a span n instr sw)))"
proof (induction "calls_left instr" arbitrary: n instr sw rule: less_induct)
  case less
  show ?case
    apply (subst observed_loop.simps)
    apply (rule tidy_then [OF tidy_loop_tick])
    subgoal for sw1 out
    proof (cases out)
      case (PENDING_TOOL name args)
      assume "observed_loop_tick mode sha a n instr sw = (sw1, Inr out)"
      then have "calls_left (RETURN v) < calls_left instr" for v
        using PENDING_TOOL by (auto dest!: observed_loop_tick_out simp: run_tick_def split: instruction.splits)
      then show ?thesis
        unfolding PENDING_TOOL
        by (auto intro!: tidy_then tidy_gate [OF assms] less)
    next
      case (COMPLETED v)
      then show ?thesis
        using tidy_leave_loop [of "[SpanSet span ''loop.exit'' (JStr ''COMPLETED'')]" "complete_agent mode a sw1"] by simp
    next
      case (PENDING_DELEGATION t p)
      then show ?thesis
        using tidy_leave_loop [of "[SpanSet span ''loop.exit'' (JStr ''DELEGATED'')]" "yield_agent mode a sw1"] by simp
    next
      case (FAILED e)
      then show ?thesis
        using tidy_leave_loop [of "[SpanSet span ''loop.exit'' (JStr ''FAILED''), SpanSet span ''error'' (JBool True)]"
            "fail_agent mode a sw1"] by simp
    qed
    done
qed

lemma tidy_run:
  assumes "tidy_handlers hs"
  shows "tidy (tm_of sw) (tm_of (fst (observed_run hs mode sha a instr sw)))"
proof (cases "getState (sc_lifecycle (fst sw)) a = ACTIVE")
  case True
  then have running: "\<not> getState (sc_lifecycle (fst sw)) a \<noteq> ACTIVE" by simp
  have body: "tidy (tm_of sw) (tm_of (fst (run_catch mode a (observed_loop hs mode sha a k 1 instr (observe (reports cs) sw)))))"
    if "list_all quiet cs" for sw cs k
    using tidy_before(1) [OF that tidy_loop [OF assms]] by simp
  show ?thesis
    unfolding observed_run_def Let_def if_not_P [OF running]
    by (rule tidy_counted, rule tidy_in_span [OF _ refl], rule tidy_pair, rule body, simp)
      (simp add: tidy_reports span_failed_def split: sum.split)
qed (simp add: observed_run_def)

section \<open>tests/telemetry.test.ts\<close>

text \<open>What the exporters of the test keep: the spans that have ended, in the order they ended, the last
  value set for an attribute, and the sum of a counter.\<close>

fun ended_spans :: "otel_call list \<Rightarrow> nat list" where
  "ended_spans [] = []"
| "ended_spans (SpanEnd k # cs) = k # ended_spans cs"
| "ended_spans (_ # cs) = ended_spans cs"

definition span_title :: "otel_call list \<Rightarrow> nat \<Rightarrow> string" where
  "span_title cs k = (case filter is_start cs ! k of SpanStart name \<Rightarrow> name | _ \<Rightarrow> [])"

fun span_attributes :: "otel_call list \<Rightarrow> nat \<Rightarrow> (string, jsval) jsmap" where
  "span_attributes [] k = []"
| "span_attributes (SpanSet h x v # cs) k =
     (let later = span_attributes cs k in if h = k \<and> \<not> map_has later x then (x, v) # later else later)"
| "span_attributes (_ # cs) k = span_attributes cs k"

definition span_events :: "otel_call list \<Rightarrow> nat \<Rightarrow> jserr list" where
  "span_events cs k = concat (map (\<lambda>c. case c of SpanException h e \<Rightarrow> if h = k then [e] else [] | _ \<Rightarrow> []) cs)"

definition counter_value :: "string \<Rightarrow> (string \<times> jsval) list \<Rightarrow> otel_call list \<Rightarrow> nat" where
  "counter_value name attributes cs = count_list cs (CounterAdd name attributes)"

text \<open>The exporters are reset before each test: it sees the calls made since then.\<close>

definition reset_telemetry :: "telemetry \<Rightarrow> telemetry" where
  "reset_telemetry tm = tm\<lparr>tm_calls := []\<rparr>"

definition test_telemetry :: telemetry where
  "test_telemetry = reset_telemetry (getInstance no_telemetry)"

definition tick_span_test :: bool where
  "tick_span_test =
     (let (tm, out) = observed_tick \<lparr>ti_agentId = ''agent-123'', ti_sequenceNumber = 1,
              ti_instruction = RETURN (JStr ''done''), ti_maxSteps = 10\<rparr> test_telemetry;
          cs = tm_calls tm; attributes = map_of (span_attributes cs 0)
      in output_kind out = ''COMPLETED'' \<and> ended_spans cs = [0] \<and> span_title cs 0 = ''TickEngine.runTick [1]'' \<and>
         attributes ''agent.id'' = Some (JStr ''agent-123'') \<and> attributes ''tick.result'' = Some (JStr ''COMPLETED''))"

definition test_handlers :: "(telemetry \<times> unit) sched handlers" where
  "test_handlers =
     [(''test.delay'', \<lambda>args sw. (sw, Inr (JStr ''ok''))), (''test.fail'', \<lambda>args sw. (sw, Inl (Error ''Boom'')))]"

definition test_state :: "world \<Rightarrow> unit observed" where
  "test_state w =
     (\<lparr>sc_lifecycle = new_lifecycle, sc_store = None, sc_quota = new_enforcer, sc_env = (test_telemetry, ())\<rparr>, w)"

definition gate_span_test :: "world \<Rightarrow> bool" where
  "gate_span_test w =
     (let (sw, r) = observed_gate test_handlers LIVE ''agent-456'' 2 ''test.delay'' (JObj []) (test_state w);
          cs = tm_calls (tm_of sw); attributes = map_of (span_attributes cs 0)
      in r = Inr (JStr ''ok'') \<and> ended_spans cs = [0] \<and> span_title cs 0 = ''ToolGate.execute [test.delay]'' \<and>
         attributes ''tool.result'' = Some (JStr ''SUCCESS'') \<and>
         (case attributes ''tool.latency_ms'' of Some (JNum (NInt t)) \<Rightarrow> t \<ge> 49 | _ \<Rightarrow> False))"

definition gate_error_test :: "world \<Rightarrow> bool" where
  "gate_error_test w =
     (let (sw, r) = observed_gate test_handlers LIVE ''agent-789'' 3 ''test.fail'' (JObj []) (test_state w);
          cs = tm_calls (tm_of sw)
      in r = Inl (Error ''Boom'') \<and> ended_spans cs = [0] \<and>
         map_of (span_attributes cs 0) ''error'' = Some (JBool True) \<and> length (span_events cs 0) = 1)"

definition metrics_test :: bool where
  "metrics_test =
     (let (tm, out) = observed_tick \<lparr>ti_agentId = ''agent-metric-1'', ti_sequenceNumber = 1, ti_instruction = NOOP,
              ti_maxSteps = 10\<rparr> test_telemetry
      in counter_value ''omnipaw.ticks.total'' [(''agentId'', JStr ''agent-metric-1'')] (tm_calls tm) \<ge> 1)"

text \<open>The delay test passes when the clock shows the delay of the timer, between the reading at the
  start and the one after the result is logged.\<close>

lemma telemetry_suite_passes:
  "tick_span_test \<and> gate_error_test (new_world c) \<and> metrics_test \<and>
   (gate_span_test (new_world c) \<longleftrightarrow> c 2 - c 0 \<ge> 49)"
proof -
  have "tick_span_test" by code_simp
  moreover have "gate_error_test (new_world c)" by code_simp
  moreover have "metrics_test" by code_simp
  moreover have "gate_span_test (new_world c) = (c 2 - c 0 \<ge> 49)"
    by code_simp
  ultimately show ?thesis by simp
qed

section \<open>The property\<close>

text \<open>C10: Telemetry only observes. With tool handlers that do the same whatever the telemetry holds, a run
  of the scheduler with the calls to OpenTelemetry in it, in the scheduler, the tick engine and the
  tool gate, has the result, the state, the log and the clock of the run without them, whether it
  returns or throws; and if the handlers end each span they start exactly once, so does the run, on
  every path. The instruction is an object with a kind, known or not; \<open>null\<close> is not one.\<close>

theorem telemetry_only_observes:
  assumes "hides hs hs0" "tidy_handlers hs"
  shows "erased (observed_run hs mode sha a instr sw) = runAgentLoop hs0 mode sha a instr (plain sw) \<and>
    tidy (tm_of sw) (tm_of (fst (observed_run hs mode sha a instr sw)))"
  using erased_run [OF assms(1)] tidy_run [OF assms(2)] by blast

definition plain_handlers :: "unit sched handlers" where
  "plain_handlers =
     [(''test.delay'', \<lambda>args sw. (sw, Inr (JStr ''ok''))), (''test.fail'', \<lambda>args sw. (sw, Inl (Error ''Boom'')))]"

lemma test_handlers_ok: "hides test_handlers plain_handlers \<and> tidy_handlers test_handlers"
  by (simp add: hides_def tidy_handlers_def test_handlers_def plain_handlers_def)

theorem telemetry_only_observes_witness:
  "erased (observed_run test_handlers LIVE id ''a'' (CALL_TOOL ''test.fail'' JNull) (sc_force ''a'' ACTIVE (test_state (new_world int)))) =
     runAgentLoop plain_handlers LIVE id ''a'' (CALL_TOOL ''test.fail'' JNull)
       (plain (sc_force ''a'' ACTIVE (test_state (new_world int)))) \<and>
   tidy test_telemetry (tm_of (fst (observed_run test_handlers LIVE id ''a'' (CALL_TOOL ''test.fail'' JNull)
      (sc_force ''a'' ACTIVE (test_state (new_world int))))))"
proof -
  have "tm_of (sc_force ''a'' ACTIVE (test_state (new_world int))) = test_telemetry"
    by (simp add: test_state_def tm_of_def sc_force_def)
  then show ?thesis
    using telemetry_only_observes [OF conjunct1 [OF test_handlers_ok] conjunct2 [OF test_handlers_ok],
        of LIVE id "''a''" "CALL_TOOL ''test.fail'' JNull" "sc_force ''a'' ACTIVE (test_state (new_world int))"]
    by simp
qed

end
