(* ===== verification/KernelSuite.thy ===== *)
theory KernelSuite
  imports Kernel
begin

text \<open>
  The kernel's test suite (tests/invariants.test.ts) as programs over the model. Every test gets a
  new kernel, whose world is the parameter; its value is the conjunction of its assertions. The
  tests of \<open>Object.freeze\<close> and of absent methods (INV-07, INV-17) and of the mode alone (INV-18) have
  no counterpart.
\<close>

section \<open>Assertions\<close>

text \<open>\<open>expect(f).toThrow(/text/)\<close>, and with the flag \<open>i\<close>.\<close>

definition to_throw :: "string \<Rightarrow> jserr + 'a \<Rightarrow> bool" where
  "to_throw text r = (case r of Inl e \<Rightarrow> str_includes (err_message e) text | Inr _ \<Rightarrow> False)"

definition lower_char :: "char \<Rightarrow> char" where
  "lower_char c = (let n = (of_char c :: nat) in if 65 \<le> n \<and> n \<le> 90 then char_of (n + 32) else c)"

definition matches_any_case :: "string list \<Rightarrow> string \<Rightarrow> bool" where
  "matches_any_case texts s = list_ex (\<lambda>t. str_includes (map lower_char s) (map lower_char t)) texts"

definition to_throw_any_case :: "string \<Rightarrow> jserr + 'a \<Rightarrow> bool" where
  "to_throw_any_case text r = (case r of Inl e \<Rightarrow> matches_any_case [text] (err_message e) | Inr _ \<Rightarrow> False)"

text \<open>The statements of a test on its kernel; one that throws fails the test.\<close>

definition register_agent :: "string \<Rightarrow> kernel \<Rightarrow> (kernel, unit) outcome" where
  "register_agent a k =
     (let (reg, r) = registerAgent \<lparr>id_id = a, id_type = ''test'', id_createdAt = date_now (k_world k),
                                    id_name = None, id_version = None\<rparr> (k_registry k)
      in (k\<lparr>k_registry := reg, k_world := tick_clock (k_world k)\<rparr>, r))"

definition move :: "string \<Rightarrow> trigger \<Rightarrow> kernel \<Rightarrow> (kernel, unit) outcome" where
  "move a t k =
     (let ((lc, w), r) = transition a t JUndef (k_lifecycle k, k_world k)
      in (k\<lparr>k_lifecycle := lc, k_world := w\<rparr>, case r of Inl e \<Rightarrow> Inl e | Inr _ \<Rightarrow> Inr ()))"

definition after :: "(kernel \<Rightarrow> (kernel, unit) outcome) list \<Rightarrow> kernel \<Rightarrow> (kernel \<Rightarrow> bool) \<Rightarrow> bool" where
  "after steps k check = (case run_steps steps k of (k1, Inl e) \<Rightarrow> False | (k1, Inr _) \<Rightarrow> check k1)"

section \<open>The tests\<close>

definition inv_03 :: "world \<Rightarrow> bool" where
  "inv_03 w =
     (let a = ''test-agent-1'' in
      after [register_agent a, move a T_spawn, move a T_activate] (new_kernel w) (\<lambda>k.
        let (sw, r) = sh_write a ''system'' ''config_key'' (JStr ''malicious_value'') ''tx-1'' [] [] (k_shared k, k_world k)
        in to_throw ''PERMISSION_DENIED'' r \<and>
           to_throw ''PERMISSION_DENIED'' (snd (sh_read a ''system'' ''config_key'' [] [] sw))))"

definition inv_11 :: "world \<Rightarrow> bool" where
  "inv_11 w =
     (let a = ''test-agent-2''; (s, h) = eph_init a 1 (k_ephemeral (new_kernel w))
      in to_throw_any_case ''Value is not JSON serializable'' (snd (eph_write (a @ '':1'') ''bad_key'' JCyc s)))"

definition inv_09 :: "world \<Rightarrow> bool" where
  "inv_09 w =
     (let a = ''test-agent-3'' in
      after [register_agent a, move a T_spawn, move a T_activate, move a T_complete, move a T_teardown_ok] (new_kernel w) (\<lambda>k.
        getState (k_lifecycle k) a = TERMINATED \<and> to_throw ''Invalid transition'' (snd (move a T_activate k))))"

definition inv_01 :: "world \<Rightarrow> bool" where
  "inv_01 w =
     (let a = ''test-inv-01'' in
      after [register_agent a] (new_kernel w) (\<lambda>k.
        after [move a T_spawn] k (\<lambda>k1.
          list_ex (\<lambda>e. le_kind e = ''LIFECYCLE_TRANSITION'') (drop (length (wlogs (k_world k))) (wlogs (k_world k1))))))"

definition inv_04 :: "world \<Rightarrow> bool" where
  "inv_04 w = (let (w1, result) = evaluate ''agent-x'' ''read'' ''system'' [] [] w in result = DENY \<or> result = ESCALATE)"

definition inv_05 :: "world \<Rightarrow> bool" where
  "inv_05 w =
     (let a = ''test-inv-05''; h = a @ '':1''; (s, h1) = eph_init a 1 (k_ephemeral (new_kernel w));
          (s1, r) = eph_write h ''key1'' (JStr ''temp_value'') s
      in r = Inr () \<and> eph_read h ''key1'' s1 = Inr (JStr ''temp_value'') \<and>
         to_throw_any_case ''inactive'' (eph_read h ''key1'' (eph_destroy a 1 s1)))"

definition test_request :: "string \<Rightarrow> string \<Rightarrow> string \<Rightarrow> grant list \<Rightarrow> int \<Rightarrow> int \<Rightarrow> drequest" where
  "test_request rid text p gs depth limit =
     \<lparr>rq_requestId = rid, rq_parentAgentId = p, rq_instruction = text, rq_grantSubset = gs, rq_maxDepth = depth, rq_ttl = limit\<rparr>"

definition open_grant :: "string \<Rightarrow> string \<Rightarrow> grant" where
  "open_grant act res = \<lparr>g_action = act, g_resource = res, g_notAfter = None\<rparr>"

definition rejected_as :: "string list \<Rightarrow> dresponse \<Rightarrow> bool" where
  "rejected_as texts r = (case r of REJECTED reason \<Rightarrow> matches_any_case texts reason | ACCEPTED t c \<Rightarrow> False)"

definition inv_06 :: "world \<Rightarrow> bool" where
  "inv_06 w =
     (let d = initRoot ''root-inv-06'' [open_grant ''read'' ''sys''] new_delegation;
          q = test_request ''req-06'' ''test inv-06'' ''root-inv-06'' [open_grant ''write'' ''sys''] 10 (date_now w + 100000)
      in rejected_as [''escape'', ''bounds''] (snd (delegate q (d, tick_clock w))))"

definition inv_08 :: "world \<Rightarrow> bool" where
  "inv_08 w =
     (let d = initRoot ''root-inv-08'' [] new_delegation;
          q = test_request ''req-08-1'' ''test'' ''root-inv-08'' [] 5 (date_now w + 1000)
      in case delegate q (d, tick_clock w) of
           (_, REJECTED reason) \<Rightarrow> False
         | ((d1, w1), ACCEPTED t child) \<Rightarrow>
             (case delegate (test_request ''req-08-2'' ''cycle attempt'' child [] 5 (date_now w1 + 1000)) (d1, tick_clock w1) of
                (_, REJECTED reason) \<Rightarrow> True
              | (_, ACCEPTED t2 child2) \<Rightarrow> child2 \<noteq> ''root-inv-08''))"

definition inv_12 :: "world \<Rightarrow> bool" where
  "inv_12 w =
     (let result = run_tick \<lparr>ti_agentId = ''id'', ti_sequenceNumber = 1, ti_instruction = NOOP, ti_maxSteps = -1\<rparr>;
          shown = (case result of FAILED e \<Rightarrow> e | _ \<Rightarrow> js_string (js_prop (output_js result) ''kind''))
      in list_ex (str_includes shown) [''TICK_OVERFLOW'', ''FAILED'', ''INVARIANT''])"

definition inv_13 :: "world \<Rightarrow> bool" where
  "inv_13 w =
     rejected_as [''not found'', ''uninitialized'']
       (snd (delegate (test_request ''req-13'' ''test spawn demands parent'' ''fake-parent'' [] 10 (date_now w + 10000))
          (new_delegation, tick_clock w)))"

text \<open>The listener of INV-16 notes the sequence numbers of the first two events, which carry none.\<close>

definition note_sequence :: "(kernel_event, int \<times> int) listener" where
  "note_sequence ev s = ((if fst s = -1 then (1, snd s) else if snd s = -1 then (fst s, 2) else s), Inr ())"

definition inv_16 :: "world \<Rightarrow> bool" where
  "inv_16 w =
     (let b = bus_subscribe ''*'' note_sequence new_bus;
          (s, r) = bus_emit (AGENT_SPAWNED ''x'' (date_now w)) b (-1, -1);
          (s1, r1) = bus_emit (AGENT_SPAWNED ''x'' (date_now (tick_clock w))) b s
      in r = Inr () \<and> r1 = Inr () \<and> fst s1 \<ge> 0 \<and> snd s1 \<ge> fst s1)"

definition inv_19 :: "world \<Rightarrow> bool" where
  "inv_19 w = to_throw ''PERMISSION_DENIED'' (snd (sh_write ''inv-19'' ''ns1'' ''k1'' (JStr ''val1'') ''tx-obj'' [] [] ([], w)))"

definition kernel_suite :: "world \<Rightarrow> (string \<times> bool) list" where
  "kernel_suite w =
     [(''INV-01'', inv_01 w), (''INV-03'', inv_03 w), (''INV-04'', inv_04 w), (''INV-05'', inv_05 w),
      (''INV-06'', inv_06 w), (''INV-08'', inv_08 w), (''INV-09'', inv_09 w), (''INV-11'', inv_11 w),
      (''INV-12'', inv_12 w), (''INV-13'', inv_13 w), (''INV-16'', inv_16 w), (''INV-19'', inv_19 w)]"

section \<open>The suite passes\<close>

lemma transitions_of [simp]:
  "next_state DEFINED T_spawn = Some SPAWNED" "next_state SPAWNED T_activate = Some ACTIVE"
  "next_state ACTIVE T_complete = Some COMPLETING" "next_state COMPLETING T_teardown_ok = Some TERMINATED"
  by simp_all

lemma str_includes_append: "str_includes (s @ t @ u) t"
  unfolding str_includes_def list_ex_iff
  by (rule bexI [of _ "t @ u"]) (simp_all add: set_suffixes_eq suffix_def)

lemma to_throw_prefix: "to_throw t (Inl (JsErr n (t @ u)))"
  using str_includes_append [of "[]" t u] by (simp add: to_throw_def)

lemma move_runs:
  "next_state (getState (k_lifecycle k) a) t = Some nxt \<Longrightarrow>
   \<exists>lc w. move a t k = (k\<lparr>k_lifecycle := lc, k_world := w\<rparr>, Inr ()) \<and> getState lc a = nxt"
  by (auto simp: move_def transition_ok Let_def transition_taken_def)

lemma denied_write:
  "to_throw ''PERMISSION_DENIED'' (snd (sh_write a ns k v tx [] [] sw))"
  "to_throw ''PERMISSION_DENIED'' (snd (sh_read a ns k [] [] sw))"
proof -
  have "to_throw ''PERMISSION_DENIED'' (Inl (Error (''PERMISSION_DENIED'' @ x)) :: jserr + 'b)" for x
    by (rule to_throw_prefix)
  then show "to_throw ''PERMISSION_DENIED'' (snd (sh_write a ns k v tx [] [] sw))"
    "to_throw ''PERMISSION_DENIED'' (snd (sh_read a ns k [] [] sw))"
    by (simp_all add: sh_write_def sh_read_def checkPermission_def evaluate_def Let_def to_throw_def split: prod.split)
qed

lemma after_nil: "after [] k P = P k"
  by (simp add: after_def)

lemma after_step: "(f :: kernel \<Rightarrow> (kernel, unit) outcome) k = (k1, Inr ()) \<Longrightarrow> after (f # fs) k P = after fs k1 P"
  by (simp add: after_def)

lemma register_new:
  "register_agent a (new_kernel w) =
     (new_kernel w\<lparr>k_registry := fst (registerAgent \<lparr>id_id = a, id_type = ''test'', id_createdAt = date_now w,
         id_name = None, id_version = None\<rparr> new_agent_registry), k_world := tick_clock w\<rparr>, Inr ())"
  by (simp add: register_agent_def new_kernel_def registerAgent_def new_agent_registry_def map_has_def)

lemma after_moves:
  assumes "getState (k_lifecycle k) a = s" and "next_state s t = Some nxt"
    and "\<And>k1. getState (k_lifecycle k1) a = nxt \<Longrightarrow> after fs k1 P"
  shows "after (move a t # fs) k P"
  using move_runs [of k a t nxt] assms by (auto simp: after_step)

lemma after_registers:
  assumes "\<And>k1. getState (k_lifecycle k1) a = DEFINED \<Longrightarrow> after fs k1 P"
  shows "after (register_agent a # fs) (new_kernel w) P"
  by (subst after_step [of "register_agent a", OF register_new], rule assms)
    (simp add: new_kernel_def new_lifecycle_def getState_def map_get_or_def)

lemma inv_03_passes: "inv_03 w"
  unfolding inv_03_def Let_def
  by (rule after_registers after_moves | assumption | simp add: after_nil denied_write case_prod_beta)+

lemma inv_09_passes: "inv_09 w"
proof -
  have "to_throw ''Invalid transition'' (snd (move a T_activate k))" if "getState (k_lifecycle k) a = TERMINATED" for a k
    using that to_throw_prefix [of "''Invalid transition''"]
    by (simp add: move_def transition_error invalid_transition_def Let_def to_throw_def)
  then show ?thesis
    unfolding inv_09_def Let_def
    by (rule_tac after_registers after_moves | assumption | simp add: after_nil)+
qed

lemma inv_01_passes: "inv_01 w"
proof -
  have "after [move a T_spawn] k (\<lambda>k1. list_ex (\<lambda>e. le_kind e = ''LIFECYCLE_TRANSITION'')
      (drop (length (wlogs (k_world k))) (wlogs (k_world k1))))"
    if "getState (k_lifecycle k) a = DEFINED" for a k
    using that by (simp add: after_def move_def transition_ok Let_def transition_taken_def log_transition_def
        transition_entry_def)
  then show ?thesis
    unfolding inv_01_def Let_def by (rule_tac after_registers) (simp add: after_nil)
qed

lemma tick_memory_handle: "parseHandle (a @ '':1'') = Inr (a, Some 1)" if "CHR '':'' \<notin> set a"
  using parse_generateHandle [of a 1] that by (simp add: generateHandle_def show_int_def show_nat.simps digit_char_def)

lemma memory_init:
  assumes "CHR '':'' \<notin> set a"
  shows "active_cell (fst (eph_init a 1 s)) a (Some 1) = Some empty_rec"
  using assms by (simp add: active_cell_def eph_init_def)

lemma lower_A: "lower_char (CHR ''A'') = CHR ''a''"
  by code_simp

lemma colon_free: "CHR '':'' \<notin> set ''test-agent-2''" "CHR '':'' \<notin> set ''test-inv-05''"
  by simp_all

lemma inv_11_passes: "inv_11 w"
proof -
  have "to_throw_any_case t (Inl (Error (t @ u)) :: jserr + unit)" for t u
    using str_includes_append [of "[]" "map lower_char t"] by (simp add: to_throw_any_case_def matches_any_case_def)
  moreover have "\<exists>u. snd (eph_write (a @ '':1'') k JCyc (fst (eph_init a 1 s))) = Inl (Error (''Value is not JSON serializable'' @ u))"
    if "CHR '':'' \<notin> set a" for a k s
    using that memory_init [OF that, of s] by (simp add: eph_write_def tick_memory_handle json_clone_def)
  ultimately show ?thesis
    unfolding inv_11_def Let_def case_prod_beta
    by (metis (no_types, lifting) colon_free(1))
qed

lemma inv_05_passes: "inv_05 w"
proof -
  have 1: "snd (eph_write (a @ '':1'') k (JStr v) s) = Inr ()"
      "eph_read (a @ '':1'') k (fst (eph_write (a @ '':1'') k (JStr v) s)) = Inr (JStr v)"
    if "s = fst (eph_init a 1 s0)" "CHR '':'' \<notin> set a" "k \<noteq> proto_key" for a k v s s0
    using that memory_init [OF that(2), of s0]
    by (simp_all add: eph_write_def eph_read_def tick_memory_handle active_cell_def rec_get_put_same)
  have 2: "\<exists>u. eph_read (a @ '':1'') k (eph_destroy a 1 s) = Inl (Error (''Attempted to read inactive'' @ u))"
    if "CHR '':'' \<notin> set a" for a k s
    using that by (simp add: eph_read_def tick_memory_handle eph_destroy_def active_cell_def)
  have 3: "to_throw_any_case ''inactive'' (Inl (Error (''Attempted to read inactive'' @ u)) :: jserr + jsval)" for u
    using str_includes_append [of "''attempted to read ''" "''inactive''" "map lower_char u"]
    by (simp add: to_throw_any_case_def matches_any_case_def lower_A) (simp add: lower_char_def)
  have 4: "to_throw_any_case ''inactive'' (eph_read (''test-inv-05'' @ '':1'') k (eph_destroy ''test-inv-05'' 1 s))" for k s
    using 2 [OF colon_free(2), of k s] 3 by (elim exE) (simp only:)
  have k: "''key1'' \<noteq> proto_key" by (simp add: proto_key_def)
  show ?thesis
    unfolding inv_05_def Let_def case_prod_beta
    by (intro conjI 1 [OF refl colon_free(2) k] 4)
qed

text \<open>The two tests with accepted parents need a clock that gives dates.\<close>

lemma inv_06_passes: "date_now (tick_clock w) \<le> MAX_SAFE_INTEGER \<Longrightarrow> inv_06 w"
  using str_includes_append [of "map lower_char ''Requested grants ''" "map lower_char ''escape''" "map lower_char '' parent bounds''"]
  by (simp add: inv_06_def delegate_def test_request_def initRoot_def new_delegation_def rejected_as_def matches_any_case_def
      open_grant_def grant_expired_def grant_covers_def no_expiry_def Let_def)

lemma inv_08_passes:
  assumes "date_now w + 1000 \<le> MAX_SAFE_INTEGER" and "date_now (tick_clock w) \<le> MAX_SAFE_INTEGER"
  shows "inv_08 w"
  using assms
  by (simp add: inv_08_def delegate_def test_request_def initRoot_def new_delegation_def attach_child_def issue_token_def Let_def
      split: option.split)

lemma inv_04_passes: "inv_04 w"
  by (simp add: inv_04_def evaluate_def Let_def)

lemma inv_12_passes: "inv_12 w"
  using str_includes_append [of "[]" "''TICK_OVERFLOW''" "[]"] by (simp add: inv_12_def run_tick_def)

lemma inv_13_passes: "inv_13 w"
  using str_includes_append [of "map lower_char ''Parent agent ''" "map lower_char ''not found''" "map lower_char '' or uninitialized''"]
  by (simp add: inv_13_def delegate_def test_request_def new_delegation_def rejected_as_def matches_any_case_def)

lemma inv_16_passes: "inv_16 w"
  by (simp add: inv_16_def bus_subscribe_def new_bus_def bus_emit_def add_listener_def note_sequence_def Let_def
      map_has_def map_get_or_def)

lemma inv_19_passes: "inv_19 w"
  by (simp add: inv_19_def denied_write)

text \<open>With a clock that gives dates, every test passes.\<close>

lemma kernel_suite_passes:
  assumes "\<And>n. wclock w n + 1000 \<le> MAX_SAFE_INTEGER"
  shows "list_all snd (kernel_suite w)"
proof -
  have "date_now w + 1000 \<le> MAX_SAFE_INTEGER" "date_now (tick_clock w) \<le> MAX_SAFE_INTEGER"
    using assms [of 0] assms [of 1] by (simp_all add: date_now_def tick_clock_def)
  then show ?thesis
    by (simp add: kernel_suite_def inv_01_passes inv_03_passes inv_04_passes inv_05_passes inv_06_passes inv_08_passes
        inv_09_passes inv_11_passes inv_12_passes inv_13_passes inv_16_passes inv_19_passes)
qed

text \<open>The comment of INV-08 expects the second request to succeed "as a deeply nested child": it is
  rejected, because its depth is not below its parent's.\<close>

lemma cycle_attempt_rejected:
  assumes "getToken d child = Some t" and "\<not> revoked t" and "date_now w \<le> ttl t" and "maxDepth t = 5"
  shows "snd (delegate (test_request rid text child [] 5 limit) (d, w)) = REJECTED ''Requested maxDepth exceeds parent allowance''"
  using assms by (auto simp: delegate_def test_request_def getToken_def Let_def split: option.splits)

end
