(* ===== verification/ModuleSuites.thy ===== *)
theory ModuleSuites
  imports KernelSuite Swarm PluginLoader
begin

text \<open>
  The test suites of the swarm (tests/swarm.test.ts) and of the plugins (tests/plugins.test.ts) as
  programs over the model; the value of a test is the conjunction of its assertions. What a test
  collects in an array is the environment of its handlers.
\<close>

section \<open>The swarm's suite\<close>

type_synonym inbox = "swarm_message list"

text \<open>\<open>(msg) => received.push(msg)\<close>; where there are two arrays, the handler's name says which.\<close>

definition received :: "(unit, inbox) message_handlers" where
  "received h m = SwOwn (\<lambda>e. e @ [m]) (\<lambda>_. SwReturn ())"

definition received_by :: "(bool, inbox \<times> inbox) message_handlers" where
  "received_by h m = SwOwn (\<lambda>(e1, e2). if h then (e1 @ [m], e2) else (e1, e2 @ [m])) (\<lambda>_. SwReturn ())"

definition bus_world :: "(nat \<Rightarrow> int) \<Rightarrow> 'e \<Rightarrow> ('h, 'e) protocol" where
  "bus_world clock e = new_protocol (new_world clock) e"

text \<open>The swarms of the suite have no handlers.\<close>

definition no_handlers :: "(unit, unit) message_handlers" where
  "no_handlers h m = SwReturn ()"

definition delivers_to_subscribers :: "(nat \<Rightarrow> int) \<Rightarrow> bool" where
  "delivers_to_subscribers clock =
     (case run_script received
        (SwSubscribe ''agent-1'' ''tasks'' ()
          (sw_post ''leader'' ''agent-1'' ''tasks'' (JObj [(''work'', JStr ''analyze file'')]))) (bus_world clock []) of
        Some (p, Inr _) \<Rightarrow>
          length (pr_env p) = 1 \<and> js_prop (sm_payload (pr_env p ! 0)) ''work'' = JStr ''analyze file''
      | _ \<Rightarrow> False)"

definition broadcasts_to_all :: "(nat \<Rightarrow> int) \<Rightarrow> bool" where
  "broadcasts_to_all clock =
     (case run_script received_by
        (SwSubscribe ''agent-1'' ''announce'' True (SwSubscribe ''agent-2'' ''announce'' False
          (sw_broadcast ''leader'' ''announce'' (JObj [(''event'', JStr ''START'')])))) (bus_world clock ([], [])) of
        Some (p, Inr _) \<Rightarrow> length (fst (pr_env p)) = 1 \<and> length (snd (pr_env p)) = 1
      | _ \<Rightarrow> False)"

definition keeps_message_log :: "(nat \<Rightarrow> int) \<Rightarrow> bool" where
  "keeps_message_log clock =
     (case run_script no_handlers
        (sw_bind (sw_broadcast ''a'' ''ch'' (JObj [(''x'', jint 1)])) (\<lambda>_.
         sw_bind (sw_broadcast ''b'' ''ch'' (JObj [(''x'', jint 2)])) (\<lambda>_. SwLog SwReturn))) (bus_world clock ()) of
        Some (p, Inr log) \<Rightarrow> length log = 2
      | _ \<Rightarrow> False)"

definition merge_vote :: vote_request where
  "merge_vote = \<lparr>vr_proposer = ''a'', vr_proposal = ''merge'', vr_voters = [''a'', ''b'', ''c'']\<rparr>"

definition deploy_vote :: vote_request where
  "deploy_vote = \<lparr>vr_proposer = ''a'', vr_proposal = ''deploy'', vr_voters = [''a'', ''b'']\<rparr>"

definition majority_accepts :: bool where
  "majority_accepts =
     (let r = requestVote merge_vote [(''a'', True), (''b'', True), (''c'', False)] in vo_accepted r \<and> vo_quorum r = 2)"

definition minority_rejects :: bool where
  "minority_rejects = (\<not> vo_accepted (requestVote merge_vote [(''a'', True), (''b'', False), (''c'', False)]))"

definition consensus_is_unanimous :: bool where
  "consensus_is_unanimous =
     (vo_accepted (reachConsensus deploy_vote [(''a'', True), (''b'', True)]) \<and>
      \<not> vo_accepted (reachConsensus deploy_vote [(''a'', True), (''b'', False)]))"

definition swarm_of :: "string list \<Rightarrow> string \<Rightarrow> strategy \<Rightarrow> swarm_config" where
  "swarm_of as g st = \<lparr>agentIds = as, goal = g, sw_strategy = st\<rparr>"

text \<open>The outcome of a script on a fresh protocol without handlers; none, should it not end.\<close>

definition on_new_bus :: "(nat \<Rightarrow> int) \<Rightarrow> (unit, unit, 'a) sw_script \<Rightarrow> (jserr + 'a) option" where
  "on_new_bus clock s = (case run_script no_handlers s (bus_world clock ()) of None \<Rightarrow> None | Some (p, r) \<Rightarrow> Some r)"

definition elects_first :: "(nat \<Rightarrow> int) \<Rightarrow> bool" where
  "elects_first clock =
     (on_new_bus clock (electLeader (swarm_of [''agent-a'', ''agent-b'', ''agent-c''] ''Analyze codebase'' MAP_REDUCE))
        = Some (Inr ''agent-a''))"

definition splits_into :: "jsval list \<Rightarrow> (unit, unit) splitter" where
  "splits_into ts g n = SwReturn ts"

definition works_by :: "(string \<Rightarrow> string \<Rightarrow> string) \<Rightarrow> (unit, unit) worker" where
  "works_by f a t = SwReturn (JStr (f a (js_string t)))"

definition merges_values :: "(unit, unit) merger" where
  "merges_values rs = SwReturn (JStr (join_with '' | '' (map (js_string \<circ> snd) rs)))"

definition merges_nothing :: "(unit, unit) merger" where
  "merges_nothing rs = SwReturn (JStr [])"

definition map_reduce_works :: "(nat \<Rightarrow> int) \<Rightarrow> bool" where
  "map_reduce_works clock =
     (case on_new_bus clock
        (sw_execute (splits_into [JStr ''read code'', JStr ''plan fixes'', JStr ''apply patches''])
         (works_by (\<lambda>a t. a @ '' completed: '' @ t)) merges_values
         (swarm_of [''reader'', ''planner'', ''patcher''] ''Fix all TODOs'' MAP_REDUCE)) of
        Some (Inr r) \<Rightarrow>
          sr_strategy r = MAP_REDUCE \<and> sr_leader r = ''reader'' \<and> length (sr_agentResults r) = 3 \<and>
          str_includes (js_string (sr_finalResult r)) ''reader completed'' \<and>
          str_includes (js_string (sr_finalResult r)) ''patcher completed'' \<and> sr_messageCount r > 0
      | _ \<Rightarrow> False)"

definition pipeline_chains :: "(nat \<Rightarrow> int) \<Rightarrow> bool" where
  "pipeline_chains clock =
     (case on_new_bus clock
        (sw_execute (\<lambda>g n. SwReturn [JStr g]) (works_by (\<lambda>a t. a @ ''('' @ t @ '')'')) merges_nothing
         (swarm_of [''tokenizer'', ''analyzer'', ''reporter''] ''raw data'' PIPELINE)) of
        Some (Inr r) \<Rightarrow> sr_strategy r = PIPELINE \<and> sr_finalResult r = JStr ''reporter(analyzer(tokenizer(raw data)))''
      | _ \<Rightarrow> False)"

definition consensus_takes_leader :: "(nat \<Rightarrow> int) \<Rightarrow> bool" where
  "consensus_takes_leader clock =
     (case on_new_bus clock
        (sw_execute (splits_into [JStr ''task-1'', JStr ''task-2'']) (works_by (\<lambda>a t. a @ ''-result'')) merges_nothing
         (swarm_of [''agent-a'', ''agent-b''] ''Agree on fix'' CONSENSUS)) of
        Some (Inr r) \<Rightarrow> sr_strategy r = CONSENSUS \<and> sr_finalResult r = JStr ''agent-a-result''
      | _ \<Rightarrow> False)"

definition empty_swarm_throws :: "(nat \<Rightarrow> int) \<Rightarrow> bool" where
  "empty_swarm_throws clock =
     (case on_new_bus clock (electLeader (swarm_of [] ''Test'' MAP_REDUCE)) of
        Some r \<Rightarrow> to_throw ''SWARM_EMPTY'' r
      | None \<Rightarrow> False)"

definition swarm_suite :: "(nat \<Rightarrow> int) \<Rightarrow> (string \<times> bool) list" where
  "swarm_suite clock =
     [(''should deliver messages to channel subscribers'', delivers_to_subscribers clock),
      (''should broadcast to all subscribers on a channel'', broadcasts_to_all clock),
      (''should maintain an immutable message log'', keeps_message_log clock),
      (''majority vote should accept when > 50% approve'', majority_accepts),
      (''majority vote should reject when < 50% approve'', minority_rejects),
      (''consensus should require unanimous agreement'', consensus_is_unanimous),
      (''should elect the first agent as leader deterministically'', elects_first clock),
      (''MAP_REDUCE: should split, work, and merge correctly'', map_reduce_works clock),
      (''PIPELINE: should chain agent outputs sequentially'', pipeline_chains clock),
      (''CONSENSUS: should use leader result as final'', consensus_takes_leader clock),
      (''should throw on empty swarm'', empty_swarm_throws clock)]"

lemmas swarm_steps = sw_execute_def electLeader_def bus_world_def new_protocol_def swarm_of_def on_new_bus_def
  sw_broadcast_def sw_post_def sw_send_def sw_handlers_def log_message_def run_delivery_nil run_delivery_cons
  Let_def map_get_or_def finish_def getMessageLog_def

lemma channel_tests: "delivers_to_subscribers clock" "broadcasts_to_all clock" "keeps_message_log clock"
  by (simp_all add: delivers_to_subscribers_def broadcasts_to_all_def keeps_message_log_def swarm_steps
      sw_subscribe_def received_def received_by_def add_listener_def map_has_def)

lemma vote_tests: "majority_accepts" "minority_rejects" "consensus_is_unanimous"
  by code_simp+

lemma leader_tests: "elects_first clock" "empty_swarm_throws clock"
  using to_throw_prefix [of "''SWARM_EMPTY''" "''Error''" "'': No agents to elect leader from.''"]
  by (simp_all add: elects_first_def empty_swarm_throws_def swarm_steps to_throw_def)

lemma pipeline_test: "pipeline_chains clock"
  by (simp add: pipeline_chains_def swarm_steps works_by_def merges_nothing_def)

lemma consensus_test: "consensus_takes_leader clock"
  by (simp add: consensus_takes_leader_def swarm_steps works_by_def splits_into_def subtask_at_def)

lemma map_reduce_test: "map_reduce_works clock"
proof -
  let ?f = "''reader completed: read code | planner completed: plan fixes | patcher completed: apply patches''"
  have "str_includes ?f ''reader completed''" "str_includes ?f ''patcher completed''"
    using str_includes_append [of "[]" "''reader completed''" "'': read code | planner completed: plan fixes | patcher completed: apply patches''"]
      str_includes_append [of "''reader completed: read code | planner completed: plan fixes | ''" "''patcher completed''" "'': apply patches''"]
    by simp_all
  then show ?thesis
    by (simp add: map_reduce_works_def swarm_steps works_by_def splits_into_def merges_values_def subtask_at_def)
qed

lemma swarm_suite_passes: "list_all snd (swarm_suite clock)"
  by (simp add: swarm_suite_def channel_tests vote_tests leader_tests map_reduce_test pipeline_test consensus_test)

section \<open>The suite of the validator\<close>

definition plugin_object :: "string \<Rightarrow> string \<Rightarrow> string \<Rightarrow> jsval list \<Rightarrow> string list \<Rightarrow> jsval" where
  "plugin_object name version description ts ps =
     JObj [(''name'', JStr name), (''version'', JStr version), (''description'', JStr description),
           (''tools'', JArr ts), (''permissions'', JArr (map JStr ps))]"

definition accepted :: "jsval \<Rightarrow> bool" where
  "accepted m = (case validate_manifest m of Inl e \<Rightarrow> False | Inr v \<Rightarrow> vl_valid v \<and> vl_errors v = [])"

definition refused_for :: "string \<Rightarrow> jsval \<Rightarrow> bool" where
  "refused_for text m =
     (case validate_manifest m of Inl e \<Rightarrow> False | Inr v \<Rightarrow> \<not> vl_valid v \<and> list_ex (\<lambda>e. str_includes e text) (vl_errors v))"

definition validator_suite :: "(string \<times> bool) list" where
  "validator_suite =
     [(''should accept a valid manifest'',
       accepted (plugin_object ''plugin-weather'' ''1.0.0'' ''Weather forecasts''
         [JObj [(''name'', JStr ''plugin-weather.forecast''), (''description'', JStr ''Get forecast''),
                (''parameters'', JObj [(''city'', JStr ''string'')]), (''handlerModule'', JStr ''./tools/forecast''),
                (''handlerExport'', JStr ''getForecast'')]]
         [''network''])),
      (''should reject manifest with missing required fields'', refused_for ''version'' (JObj [(''name'', JStr ''test'')])),
      (''should reject invalid plugin name format'',
       refused_for ''Invalid plugin name'' (plugin_object ''BAD NAME!'' ''1.0.0'' ''Test'' [] [])),
      (''should reject invalid semver'',
       refused_for ''Invalid version'' (plugin_object ''plugin-test'' ''not-semver'' ''Test'' [] [])),
      (''should reject unknown permissions'',
       refused_for ''Unknown permission'' (plugin_object ''plugin-test'' ''1.0.0'' ''Test'' [] [''teleport''])),
      (''should reject tools not namespaced under plugin name'',
       refused_for ''namespaced'' (plugin_object ''plugin-test'' ''1.0.0'' ''Test''
         [JObj [(''name'', JStr ''wrong-namespace.tool''), (''description'', JStr ''Bad tool''),
                (''handlerModule'', JStr ''./bad''), (''handlerExport'', JStr ''fn'')]] [])),
      (''should reject tools missing handlerModule'',
       refused_for ''handlerModule'' (plugin_object ''plugin-test'' ''1.0.0'' ''Test''
         [JObj [(''name'', JStr ''plugin-test.tool''), (''description'', JStr ''x'')]] []))]"

lemma validator_suite_passes: "list_all snd validator_suite"
  by code_simp

section \<open>The suite of the loader\<close>

text \<open>The directories the tests make and read: the files with their texts, and the entries of a
  directory with whether each is a directory.\<close>

record disk =
  dk_files :: "(string \<times> string) list"
  dk_dirs :: "(string \<times> (string \<times> bool) list) list"

definition disk_ops :: "disk fs_ops" where
  "disk_ops =
     \<lparr>fs_exists = (\<lambda>p e. map_has (dk_files e) p \<or> map_has (dk_dirs e) p),
      fs_read = (\<lambda>p e. case map_of (dk_files e) p of None \<Rightarrow> Inl (Error ''ENOENT'') | Some s \<Rightarrow> Inr s),
      fs_write = (\<lambda>p s e. (e\<lparr>dk_files := AList.update p s (dk_files e)\<rparr>, Inr ())),
      fs_mkdir = (\<lambda>p e. (e\<lparr>dk_dirs := AList.update p [] (dk_dirs e)\<rparr>, Inr ())),
      fs_readdir = (\<lambda>p e. case map_of (dk_dirs e) p of None \<Rightarrow> Inl (Error ''ENOENT'') | Some es \<Rightarrow> Inr es)\<rparr>"

definition no_modules :: "unit reg_handler module_table" where
  "no_modules p x = Inr None"

definition loaded_from :: "disk \<Rightarrow> unit reg_handler module_table \<Rightarrow> string \<Rightarrow> (unit reg_handler loaded, unit reg_handler loaded_plugin list) outcome" where
  "loaded_from e req dir = discoverAndLoad disk_ops req ''/'' e dir []"

definition missing_directory_is_empty :: bool where
  "missing_directory_is_empty =
     (case snd (loaded_from \<lparr>dk_files = [], dk_dirs = []\<rparr> no_modules ''/non/existent/path'') of
        Inl e \<Rightarrow> False | Inr ps \<Rightarrow> ps = [])"

definition one_invalid :: "string \<Rightarrow> (unit reg_handler loaded, unit reg_handler loaded_plugin list) outcome \<Rightarrow> bool" where
  "one_invalid text r =
     (case snd r of
        Inr [p] \<Rightarrow> \<not> lp_valid p \<and> (case lp_errors p of [] \<Rightarrow> False | e # es \<Rightarrow> str_includes e text)
      | _ \<Rightarrow> False)"

definition no_manifest_is_invalid :: bool where
  "no_manifest_is_invalid =
     one_invalid ''No plugin.manifest.json''
       (loaded_from \<lparr>dk_files = [], dk_dirs = [(''/tmp/omnipaw-test-1'', [(''plugin-empty'', True)]),
          (''/tmp/omnipaw-test-1/plugin-empty'', [])]\<rparr> no_modules ''/tmp/omnipaw-test-1'')"

definition bad_json_is_invalid :: bool where
  "bad_json_is_invalid =
     one_invalid ''Failed to parse''
       (loaded_from \<lparr>dk_files = [(''/tmp/omnipaw-test-2/plugin-bad/plugin.manifest.json'', ''{ broken json!!!'')],
          dk_dirs = [(''/tmp/omnipaw-test-2'', [(''plugin-bad'', True)]),
          (''/tmp/omnipaw-test-2/plugin-bad'', [(''plugin.manifest.json'', False)])]\<rparr> no_modules ''/tmp/omnipaw-test-2'')"

text \<open>The plugins of the repository. The quote of JSON is written \<open>~\<close>.\<close>

definition quoted_lines :: "string list \<Rightarrow> string" where
  "quoted_lines ls = map (\<lambda>c. if c = CHR ''~'' then CHR 0x22 else c) (join_with [CHR 0x0A] ls)"

definition weather_text :: string where
  "weather_text = quoted_lines
     [''{'',
      ''    ~name~: ~plugin-weather~,'',
      ''    ~version~: ~1.0.0~,'',
      ''    ~description~: ~Provides weather forecast data for any city worldwide.~,'',
      ''    ~author~: ~OmniPaw Team, Chinonso Chikelue~,'',
      ''    ~tools~: ['',
      ''        {'',
      ''            ~name~: ~plugin-weather.get_forecast~,'',
      ''            ~description~: ~Returns a simulated weather forecast for a given city.~,'',
      ''            ~parameters~: {'',
      ''                ~city~: ~string~'',
      ''            },'',
      ''            ~handlerModule~: ~./tools/forecast~,'',
      ''            ~handlerExport~: ~getForecast~'',
      ''        }'',
      ''    ],'',
      ''    ~permissions~: ['',
      ''        ~network~'',
      ''    ]'',
      ''}'']"

definition repository_disk :: disk where
  "repository_disk =
     \<lparr>dk_files = [(''/omnipaw/plugins/plugin-weather/plugin.manifest.json'', weather_text),
                  (''/omnipaw/plugins/plugin-weather/tools/forecast.ts'', [])],
      dk_dirs = [(''/omnipaw/plugins'', [(''loader.ts'', False), (''plugin-weather'', True), (''types.ts'', False), (''validator.ts'', False)])]\<rparr>"

definition repository_modules :: "unit reg_handler module_table" where
  "repository_modules p x =
     (if p = ''/omnipaw/plugins/plugin-weather/tools/forecast'' \<and> x = ''getForecast'' then Inr (Some getForecast) else Inr None)"

definition weather_plugin_loads :: bool where
  "weather_plugin_loads =
     (case snd (loaded_from repository_disk repository_modules ''/omnipaw/plugins'') of
        Inl e \<Rightarrow> False
      | Inr ps \<Rightarrow>
          (case List.find (\<lambda>p. js_prop (lp_manifest p) ''name'' = JStr ''plugin-weather'') ps of
             None \<Rightarrow> False
           | Some p \<Rightarrow>
               lp_valid p \<and>
               (case map_of (lp_tools p) ''plugin-weather.get_forecast'' of
                  None \<Rightarrow> False
                | Some (m, h) \<Rightarrow>
                    (case snd (h ''test-agent'' (JObj [(''city'', JStr ''Tokyo'')]) ()) of
                       Inr (Returned (SUCCESS (JStr text))) \<Rightarrow>
                         (case json_parse text of
                            Inl e \<Rightarrow> False
                          | Inr v \<Rightarrow> js_prop (js_prop v ''forecast'') ''condition'' = JStr ''Sunny'')
                     | _ \<Rightarrow> False))))"

definition tools_are_injected :: bool where
  "tools_are_injected =
     (let (l, r) = loaded_from repository_disk repository_modules ''/omnipaw/plugins'';
          (reg, i) = injectIntoRegistry l new_registry
      in is_ok r \<and> ''plugin-weather.get_forecast'' \<in> set (in_injected i) \<and> in_rejected i = [] \<and>
         (case getManifest reg ''plugin-weather.get_forecast'' of
            None \<Rightarrow> False | Some m \<Rightarrow> mf_name m = ''plugin-weather.get_forecast''))"

definition loader_suite :: "(string \<times> bool) list" where
  "loader_suite =
     [(''should return empty array for non-existent directory'', missing_directory_is_empty),
      (''should detect directory without manifest as invalid'', no_manifest_is_invalid),
      (''should reject malformed JSON manifest'', bad_json_is_invalid),
      (''should load the real plugin-weather example successfully'', weather_plugin_loads),
      (''should inject loaded tools into ToolRegistry'', tools_are_injected)]"

lemma unreadable_plugins: "missing_directory_is_empty" "no_manifest_is_invalid" "bad_json_is_invalid"
  by code_simp+

lemma weather_loads: "weather_plugin_loads"
  by code_simp

lemma weather_injected: "tools_are_injected"
  by code_simp

lemma loader_suite_passes: "list_all snd loader_suite"
  by (simp add: loader_suite_def unreadable_plugins weather_loads weather_injected)

end
