(* ===== verification/Scripts.thy ===== *)
theory Scripts
  imports KernelSuite Failure Invariants FileLog
begin

text \<open>
  The scripts that exercise one component each (the \<open>test_*.ts\<close> beside the sources), as programs
  over the model. The value of a script is its console: one list of arguments per call of
  \<open>console.log\<close>. For every script a lemma gives that console. Where a script prints the JSON text of
  a log entry, the model prints the kind of the entry.

  Several scripts compare readings of the clock, so their lemmas are about a quick clock: one that
  gives dates and moves less than a second while the script runs.
\<close>

section \<open>Consoles\<close>

type_synonym console = "jsval list list"

definition heading :: "string \<Rightarrow> jsval list" where
  "heading t = [JStr (CHR 0x0A # t)]"

definition quick :: "(nat \<Rightarrow> int) \<Rightarrow> bool" where
  "quick clock \<longleftrightarrow>
     (\<forall>n. clock 0 \<le> clock n \<and> clock n < clock 0 + 1000 \<and> 1000 < clock n \<and> clock n + 200000 \<le> MAX_SAFE_INTEGER)"

text \<open>A script prints and goes on, or ends in an error it does not catch: with \<open>get\<close> at a value, with
  \<open>go\<close> at an operation on state.\<close>

type_synonym script = "console \<times> jserr option"

definition finished :: script where
  "finished = ([], None)"

definition say :: "jsval list \<Rightarrow> script \<Rightarrow> script" where
  "say l r = (l # fst r, snd r)"

definition say_all :: "console \<Rightarrow> script \<Rightarrow> script" where
  "say_all ls r = (ls @ fst r, snd r)"

definition get :: "jserr + 'a \<Rightarrow> ('a \<Rightarrow> script) \<Rightarrow> script" where
  "get r k = (case r of Inl e \<Rightarrow> ([], Some e) | Inr v \<Rightarrow> k v)"

definition go :: "('s, 'a) outcome \<Rightarrow> ('s \<Rightarrow> 'a \<Rightarrow> script) \<Rightarrow> script" where
  "go r k = (case r of (s, Inl e) \<Rightarrow> ([], Some e) | (s, Inr v) \<Rightarrow> k s v)"

definition error_line :: "string \<Rightarrow> jserr \<Rightarrow> jsval list" where
  "error_line t e = [JStr t, JStr (err_message e)]"

section \<open>logging/test_logger.ts\<close>

definition logger_script :: "world \<Rightarrow> console" where
  "logger_script w =
     (let (e1, l1) = append_entry \<lparr>le_kind = ''TEST_EVENT'', le_agentId = ''agent-1'', le_timestamp = date_now w,
                        le_payload = JObj [(''foo'', JStr ''bar'')], le_fields = []\<rparr> (wlog w);
          (e2, l2) = append_entry \<lparr>le_kind = ''TEST_EVENT'', le_agentId = ''agent-2'', le_timestamp = date_now (tick_clock w),
                        le_payload = JUndef, le_fields = []\<rparr> l1;
          agent1Logs = getLogsForAgent l2 ''agent-1''
      in [[JStr ''Entry 1:'', entry_js e1], [JStr ''Entry 2:'', entry_js e2],
          [JStr (if le_busSeq e1 = 1 \<and> le_busSeq e2 = 2 then ''BusSeq increment: OK'' else ''BusSeq increment: FAILED'')],
          [JStr ''Immutability: OK (mutation prevented)''],
          [JStr (if length agent1Logs = 1 \<and> le_agentId (agent1Logs ! 0) = ''agent-1'' then ''Filtering: OK''
                 else ''Filtering: FAILED'')],
          [JStr ''All Logs:'', JArr (map entry_js (getLogs l2))]])"

text \<open>The assignment to a property of the frozen entry throws in a module of TypeScript, which is strict.
  The absent payload of the second entry stands as \<open>undefined\<close>.\<close>

lemma logger_script_prints:
  "logger_script (new_world clock) =
     (let e = \<lambda>a t n vs. JObj ([(''kind'', JStr ''TEST_EVENT''), (''agentId'', JStr a), (''timestamp'', jint t)] @ vs @
            [(''busSeq'', jint n)]);
          e1 = e ''agent-1'' (clock 0) 1 [(''payload'', JObj [(''foo'', JStr ''bar'')])];
          e2 = e ''agent-2'' (clock 1) 2 [(''payload'', JUndef)]
      in [[JStr ''Entry 1:'', e1], [JStr ''Entry 2:'', e2], [JStr ''BusSeq increment: OK''],
          [JStr ''Immutability: OK (mutation prevented)''], [JStr ''Filtering: OK''], [JStr ''All Logs:'', JArr [e1, e2]]])"
  by code_simp

section \<open>lifecycle/test_controller.ts\<close>

definition state_line :: "string \<Rightarrow> lifecycle \<Rightarrow> string \<Rightarrow> jsval list" where
  "state_line t lc a = [JStr t, JStr (state_name (getState lc a))]"

text \<open>The \<open>try\<close> of the script, transition by transition: a title, the trigger and the line printed
  after it.\<close>

fun try_transitions :: "string \<Rightarrow> (string \<times> trigger \<times> string) list \<Rightarrow> lifecycle \<times> world \<Rightarrow> console \<times> lifecycle \<times> world" where
  "try_transitions a [] s = ([], s)"
| "try_transitions a ((title, t, after_it) # ts) s =
     (case transition a t JUndef s of
        (s1, Inl e) \<Rightarrow> ([heading title, error_line ''Caught Expected Error:'' e], s1)
      | (s1, Inr _) \<Rightarrow>
          (let (out, s2) = try_transitions a ts s1
           in ([heading title, state_line after_it (fst s1) a] @ out, s2)))"

definition controller_script :: "world \<Rightarrow> console" where
  "controller_script w =
     (let a = ''test-agent'';
          (tried, (lc, w1)) = try_transitions a
            [(''--- Valid Transition: spawn ---'', T_spawn, ''New State:''),
             (''--- Valid Transition: activate ---'', T_activate, ''New State:''),
             (''--- Invalid Transition: spawn from ACTIVE ---'', T_spawn, [])] (new_lifecycle, w)
      in [[JStr ''--- Initial State ---''], state_line ''State:'' new_lifecycle a] @ tried @
         [heading ''--- Logs ---''] @ map (\<lambda>e. [JStr (le_kind e)]) (wlogs w1) @
         [heading (if length (wlogs w1) = 2 \<and> getState lc a = ACTIVE then ''Lifecycle Test Passed!'' else ''Lifecycle Test Failed!'')])"

lemma controller_script_prints:
  "controller_script (new_world clock) =
     [[JStr ''--- Initial State ---''], [JStr ''State:'', JStr ''DEFINED''],
      heading ''--- Valid Transition: spawn ---'', [JStr ''New State:'', JStr ''SPAWNED''],
      heading ''--- Valid Transition: activate ---'', [JStr ''New State:'', JStr ''ACTIVE''],
      heading ''--- Invalid Transition: spawn from ACTIVE ---'',
      [JStr ''Caught Expected Error:'', JStr ''Invalid transition for agent test-agent from state ACTIVE with trigger spawn''],
      heading ''--- Logs ---'', [JStr ''LIFECYCLE_TRANSITION''], [JStr ''LIFECYCLE_TRANSITION''],
      heading ''Lifecycle Test Passed!'']"
  by code_simp

section \<open>execution/test_tick.ts\<close>

definition tick_script :: console where
  "tick_script =
     (let run = (\<lambda>i n. [output_js (run_tick \<lparr>ti_agentId = ''agent-1'', ti_sequenceNumber = 1, ti_instruction = i, ti_maxSteps = n\<rparr>)])
      in [[JStr ''--- Testing NOOP ---''], run NOOP 10,
          heading ''--- Testing RETURN ---'', run (RETURN (JObj [(''success'', JBool True)])) 10,
          heading ''--- Testing CALL_TOOL ---'', run (CALL_TOOL ''fs.read'' (JObj [(''path'', JStr ''/etc/passwd'')])) 10,
          heading ''--- Testing DELEGATE ---'', run (DELEGATE ''child-1'' (JStr ''hello'')) 10,
          heading ''--- Testing TICK_OVERFLOW ---'', run NOOP 0,
          heading ''--- Testing UNKNOWN_INSTRUCTION ---'', run (OtherInstruction ''INVALID'') 10])"

lemma tick_script_prints:
  "map hd (filter (\<lambda>l. \<not> (case l of [JStr s] \<Rightarrow> True | _ \<Rightarrow> False)) tick_script) =
     map output_js [COMPLETED JNull, COMPLETED (JObj [(''success'', JBool True)]),
       PENDING_TOOL ''fs.read'' (JObj [(''path'', JStr ''/etc/passwd'')]), PENDING_DELEGATION ''child-1'' (JStr ''hello''),
       FAILED ''TICK_OVERFLOW'', FAILED ''UNKNOWN_INSTRUCTION'']"
  by code_simp

section \<open>memory/test_memory.ts\<close>

text \<open>The mutations of values that were read change the script's own copies only: values of the model
  cannot be assigned to, and the reads after them are there.\<close>

definition ephemeral_phase :: "string \<Rightarrow> script \<Rightarrow> script" where
  "ephemeral_phase a next =
     say [JStr ''=== PHASE 1: EPHEMERAL STORE ===''] (
     let (s0, h) = eph_init a 1 new_ephemeral in
     say [JStr ''Init Handle 1:'', JStr h] (
     go (eph_write h ''foo'' (JStr ''bar'') s0) (\<lambda>s1 _.
     go (eph_write h ''obj'' (JObj [(''a'', jint 1)]) s1) (\<lambda>s2 _.
     get (eph_read h ''foo'' s2) (\<lambda>foo. say [JStr ''Read foo:'', foo] (
     get (eph_read h ''obj'' s2) (\<lambda>readObj.
     get (eph_read h ''obj'' s2) (\<lambda>obj. say [JStr ''Read obj after local mutation:'', obj] (
     go (eph_checkpoint a 1 s2) (\<lambda>s3 _. say [JStr ''Checkpointed tick 1''] (
     go (eph_restore a 1 s3) (\<lambda>s4 h1. say [JStr ''Restored Handle 1:'', JStr h1] (
     get (eph_read h1 ''foo'' s4) (\<lambda>foo1. say [JStr ''Read restored foo:'', foo1] (
     say (case eph_read h ''foo'' (eph_destroy a 1 s4) of
            Inr v \<Rightarrow> [JStr ''FAIL: Was able to read after destroy'']
          | Inl e \<Rightarrow> error_line ''OK: Cannot read active memory after destroy ->'' e)
     next)))))))))))))))"

definition wal_line :: "log_entry \<Rightarrow> jsval list" where
  "wal_line l = [JStr (''[WAL] '' @ le_kind l @ '': key=''), js_prop (le_payload l) ''key'']"

definition persistent_phase :: "string \<Rightarrow> world \<Rightarrow> script" where
  "persistent_phase a w =
     say (heading ''=== PHASE 2: PERSISTENT STORE ==='') (
     go (ps_write a ''theme'' (JStr ''dark'') ''tx-001'' ([], w)) (\<lambda>s1 _.
     get (ps_read a ''theme'' (fst s1)) (\<lambda>v. say [JStr ''Read theme:'', v] (
     go (ps_write a ''settings'' (JObj [(''volume'', jint 80)]) ''tx-002'' s1) (\<lambda>s2 _.
     get (ps_read a ''settings'' (fst s2)) (\<lambda>readSettings.
     get (ps_read a ''settings'' (fst s2)) (\<lambda>v1. say [JStr ''Read settings after local mutation:'', v1] (
     let logs = getLogsForAgent (wlog (snd s2)) a in
     say [JStr ''Persistent WAL Logs Count:'', jint (int (length logs))] (
     say_all (map wal_line logs) (
     get (ps_snapshot a (fst s2)) (\<lambda>r. say [JStr (CHR 0x0A # ''Snapshot dump:''), JObj (props r)] (
     let (s3, _) = ps_delete a ''theme'' ''tx-003'' s2 in
     get (ps_snapshot a (fst s3)) (\<lambda>r1. say [JStr ''Snapshot after delete:'', JObj (props r1)] finished)))))))))))))"

definition memory_script :: "world \<Rightarrow> script" where
  "memory_script w = ephemeral_phase ''agent-memory-test'' (persistent_phase ''agent-memory-test'' w)"

lemma memory_script_prints:
  "memory_script (new_world clock) =
     ([[JStr ''=== PHASE 1: EPHEMERAL STORE ===''], [JStr ''Init Handle 1:'', JStr ''agent-memory-test:1''],
       [JStr ''Read foo:'', JStr ''bar''], [JStr ''Read obj after local mutation:'', JObj [(''a'', jint 1)]],
       [JStr ''Checkpointed tick 1''], [JStr ''Restored Handle 1:'', JStr ''agent-memory-test:1''],
       [JStr ''Read restored foo:'', JStr ''bar''],
       [JStr ''OK: Cannot read active memory after destroy ->'',
        JStr ''Attempted to read inactive ephemeral memory: agent-memory-test:1''],
       heading ''=== PHASE 2: PERSISTENT STORE ==='', [JStr ''Read theme:'', JStr ''dark''],
       [JStr ''Read settings after local mutation:'', JObj [(''volume'', jint 80)]],
       [JStr ''Persistent WAL Logs Count:'', jint 2],
       [JStr ''[WAL] MEMORY_PERSISTENT_WRITE: key='', JStr ''theme''],
       [JStr ''[WAL] MEMORY_PERSISTENT_WRITE: key='', JStr ''settings''],
       [JStr (CHR 0x0A # ''Snapshot dump:''), JObj [(''theme'', JStr ''dark''), (''settings'', JObj [(''volume'', jint 80)])]],
       [JStr ''Snapshot after delete:'', JObj [(''settings'', JObj [(''volume'', jint 80)])]]], None)"
  by code_simp

section \<open>memory/test_shared.ts\<close>

definition shared_script :: "world \<Rightarrow> script" where
  "shared_script w =
     (let a = ''agent-admin''; b = ''agent-guest''; ns = ''global-config''; key = ''settings'';
          adminGrants = [open_grant ''*'' ''*''];
          guestGrants = [open_grant ''read'' ''shared/global-config/settings''];
          (s1, r1) = sh_write a ns key (JObj [(''maxWorkers'', jint 5)]) ''tx-001'' adminGrants [] ([], w);
          (s2, r2) = sh_read b ns key guestGrants [] s1;
          (s3, r3) = sh_write b ns ''settings'' (JObj [(''maxWorkers'', jint 99)]) ''tx-002'' guestGrants [] s2
      in say [JStr ''=== Test 1: Admin Write (ALLOW) ===''] (
         say (case r1 of Inl e \<Rightarrow> error_line ''Admin Write: FAIL'' e | Inr _ \<Rightarrow> [JStr ''Admin Write: SUCCESS'']) (
         say (heading ''=== Test 2: Guest Read (ALLOW) ==='') (
         say (case r2 of Inl e \<Rightarrow> error_line ''Guest Read: FAIL'' e | Inr v \<Rightarrow> [JStr ''Guest Read: SUCCESS ->'', v]) (
         say (heading ''=== Test 3: Guest Write (DENY) ==='') (
         say (case r3 of Inl e \<Rightarrow> error_line ''Guest Write: SUCCESSFULLY BLOCKED ->'' e
                       | Inr _ \<Rightarrow> [JStr ''Guest Write: FAILED TO BLOCK'']) (
         say (heading ''=== Test 4: Admin Read (ALLOW + WAL Check) ==='') (
         go (sh_read a ns key adminGrants [] s3) (\<lambda>s4 _.
         say (heading ''--- Execution Logger Audit ---'') (
         say_all (map (\<lambda>l. [JStr (''[B] '' @ le_kind l)]) (getLogsForAgent (wlog (snd s4)) b)) (
         say_all (map (\<lambda>l. [JStr (''[A] '' @ le_kind l)]) (getLogsForAgent (wlog (snd s4)) a)) finished)))))))))))"

lemma shared_script_prints:
  "shared_script (new_world clock) =
     ([[JStr ''=== Test 1: Admin Write (ALLOW) ===''], [JStr ''Admin Write: SUCCESS''],
       heading ''=== Test 2: Guest Read (ALLOW) ==='', [JStr ''Guest Read: SUCCESS ->'', JObj [(''maxWorkers'', jint 5)]],
       heading ''=== Test 3: Guest Write (DENY) ==='',
       [JStr ''Guest Write: SUCCESSFULLY BLOCKED ->'',
        JStr ''PERMISSION_DENIED: Agent agent-guest cannot write resource shared/global-config/settings''],
       heading ''=== Test 4: Admin Read (ALLOW + WAL Check) ==='', heading ''--- Execution Logger Audit ---'',
       [JStr ''[B] PERMISSION_EVALUATION''], [JStr ''[B] MEMORY_SHARED_READ''], [JStr ''[B] PERMISSION_EVALUATION''],
       [JStr ''[A] PERMISSION_EVALUATION''], [JStr ''[A] MEMORY_SHARED_WRITE''], [JStr ''[A] PERMISSION_EVALUATION''],
       [JStr ''[A] MEMORY_SHARED_READ'']], None)"
  by code_simp

section \<open>permissions/test_model.ts\<close>

definition restricted_policy :: policy where
  "restricted_policy a act res gs = (if prefix ''restricted/'' res then ESCALATE else ALLOW)"

definition reason_text :: "jsval \<Rightarrow> string" where
  "reason_text v = (if js_truthy v then ''('' @ js_string v @ '')'' else [])"

definition evaluation_line :: "log_entry \<Rightarrow> jsval list" where
  "evaluation_line l =
     (let p = le_payload l
      in [JStr (''[EVAL] Action: '' @ js_string (js_prop p ''action'') @ '', Resource: '' @ js_string (js_prop p ''resource'') @
            '' -> '' @ js_string (js_prop p ''result'') @ '' '' @ reason_text (js_prop p ''reason''))])"

definition result_line :: "string \<Rightarrow> policy_result \<Rightarrow> jsval list" where
  "result_line t r = [JStr t, JStr (result_name r)]"

definition model_script :: "world \<Rightarrow> console" where
  "model_script w =
     (let a = ''agent-perm-test'';
          grants1 = [open_grant ''read'' ''shared/documents'']; grants2 = [open_grant ''*'' ''shared/*''];
          grants4 = [open_grant ''*'' ''*''];
          (w1, result1) = evaluate a ''read'' ''shared/documents'' grants1 [] w;
          (w2, result2) = evaluate a ''write'' ''shared/documents'' grants1 [] w1;
          (w3, result3) = evaluate a ''delete'' ''shared/*'' grants2 [] w2;
          grants3 = [\<lparr>g_action = ''read'', g_resource = ''cache'', g_notAfter = Some (date_now w3 - 1000)\<rparr>];
          (w4, result4) = evaluate a ''read'' ''cache'' grants3 [] (tick_clock w3);
          (w5, result5) = evaluate a ''read'' ''restricted/data'' grants4 [restricted_policy] w4;
          policies2 = [\<lambda>a act res gs. ESCALATE, \<lambda>a act res gs. DENY];
          (w6, result6) = evaluate a ''read'' ''restricted/data'' grants4 policies2 w5
      in [[JStr ''=== Test 1: Explicit ALLOW (Basic Grant) ===''], result_line ''Result (expected ALLOW):'' result1,
          heading ''=== Test 2: Default DENY (No Match) ==='', result_line ''Result (expected DENY):'' result2,
          heading ''=== Test 3: Wildcard Match ==='', result_line ''Result (expected ALLOW):'' result3,
          heading ''=== Test 4: Expiration Check ==='', result_line ''Result (expected DENY due to expiry):'' result4,
          heading ''=== Test 5: Policy Escalation ==='', result_line ''Result (expected ESCALATE):'' result5,
          heading ''=== Test 6: Explicit DENY Override ==='', result_line ''Result (expected DENY overrides ESCALATE):'' result6,
          heading ''=== Permissions Audit Log ===''] @
         map evaluation_line (filter (\<lambda>l. le_kind l = ''PERMISSION_EVALUATION'') (getLogsForAgent (wlog w6) a)))"

definition evaluated :: "string \<Rightarrow> string \<Rightarrow> string \<Rightarrow> jsval list" where
  "evaluated act res r = [JStr (''[EVAL] Action: '' @ act @ '', Resource: '' @ res @ '' -> '' @ r)]"

text \<open>An evaluation by its result, its reading of the clock and its line in the audit.\<close>

definition audit :: "string \<Rightarrow> world \<Rightarrow> console" where
  "audit a w = map evaluation_line (filter (\<lambda>l. le_kind l = ''PERMISSION_EVALUATION'') (getLogsForAgent (wlog w) a))"

lemma audit_evaluate:
  "audit a (fst (evaluate a act res gs ps w)) = audit a w @
     [evaluated act res (if has_valid_grant act res (date_now w) gs then result_name (apply_policies a act res gs ps ALLOW) @ '' ''
        else ''DENY (NO_VALID_GRANT)'')]"
  by (simp add: audit_def evaluate_def getLogsForAgent_def evaluation_line_def evaluated_def reason_text_def js_truthy_def Let_def)

lemma clock_evaluate: "wclock (fst (evaluate a act res gs ps w)) n = wclock w (n + 2)"
  by (simp add: evaluate_def Let_def log_event_def tick_clock_def)

lemma result_evaluate:
  "snd (evaluate a act res gs ps w) =
     (if has_valid_grant act res (date_now w) gs then apply_policies a act res gs ps ALLOW else DENY)"
  by (simp add: evaluate_def Let_def)

lemma model_script_prints:
  assumes "quick clock"
  shows "model_script (new_world clock) =
     [[JStr ''=== Test 1: Explicit ALLOW (Basic Grant) ===''], [JStr ''Result (expected ALLOW):'', JStr ''ALLOW''],
      heading ''=== Test 2: Default DENY (No Match) ==='', [JStr ''Result (expected DENY):'', JStr ''DENY''],
      heading ''=== Test 3: Wildcard Match ==='', [JStr ''Result (expected ALLOW):'', JStr ''ALLOW''],
      heading ''=== Test 4: Expiration Check ==='', [JStr ''Result (expected DENY due to expiry):'', JStr ''DENY''],
      heading ''=== Test 5: Policy Escalation ==='', [JStr ''Result (expected ESCALATE):'', JStr ''ESCALATE''],
      heading ''=== Test 6: Explicit DENY Override ==='', [JStr ''Result (expected DENY overrides ESCALATE):'', JStr ''DENY''],
      heading ''=== Permissions Audit Log ==='',
      evaluated ''read'' ''shared/documents'' ''ALLOW '', evaluated ''write'' ''shared/documents'' ''DENY (NO_VALID_GRANT)'',
      evaluated ''delete'' ''shared/*'' ''ALLOW '', evaluated ''read'' ''cache'' ''DENY (NO_VALID_GRANT)'',
      evaluated ''read'' ''restricted/data'' ''ESCALATE '', evaluated ''read'' ''restricted/data'' ''DENY '']"
proof -
  have expired: "\<not> clock n < clock m - 1000" "clock m \<noteq> 1000" for m n
    using assms unfolding quick_def by (smt (verit))+
  have start: "audit a (tick_clock w) = audit a w" "audit a (new_world clock) = []" for a w
    by (simp_all add: audit_def new_world_def new_logger_def getLogsForAgent_def)
  show ?thesis
    unfolding model_script_def Let_def case_prod_beta result_evaluate fst_conv snd_conv audit_def [symmetric] audit_evaluate start
    by (simp add: grant_matches_def open_grant_def no_expiry_def restricted_policy_def date_now_def clock_evaluate tick_clock_def
        new_world_def expired result_line_def evaluated_def)
qed

section \<open>delegation/test_delegation.ts\<close>

definition response_line :: "string \<Rightarrow> dresponse \<Rightarrow> jsval list" where
  "response_line t r = [JStr t, JStr (case r of ACCEPTED tk c \<Rightarrow> ''ACCEPTED'' | REJECTED reason \<Rightarrow> ''REJECTED'')]"

definition revoked_js :: "delegation \<Rightarrow> string \<Rightarrow> jsval" where
  "revoked_js d a = (case getToken d a of None \<Rightarrow> JUndef | Some t \<Rightarrow> JBool (revoked t))"

definition revocation_test :: "string \<Rightarrow> string \<Rightarrow> delegation \<times> world \<Rightarrow> console" where
  "revocation_test child1 child2 s =
     (let (d, w) = revoke ''root-agent'' s
      in [heading ''=== Test 4: Revocation Cascade ==='', [JStr ''Root Revoked:'', revoked_js d ''root-agent''],
          [JStr ''Child 1 Revoked:'', revoked_js d child1], [JStr ''Child 2 Revoked:'', revoked_js d child2]])"

definition child_tests :: "string \<Rightarrow> delegation \<times> world \<Rightarrow> console" where
  "child_tests child1 s =
     (let (d, w) = s;
          ((d2, w2), res2) = delegate (test_request ''req-02'' ''Write logs'' child1 [open_grant ''write'' ''logs''] 1
             (date_now w + 5000)) (d, tick_clock w);
          ((d3, w3), res3) = delegate (test_request ''req-03'' ''Read specific log'' child1 [open_grant ''read'' ''logs/specific''] 1
             (date_now w2 + 5000)) (d2, tick_clock w2)
      in [[JStr ''Child Agent ID:'', JStr child1], heading ''=== Test 2: Invalid Subset Delegation ==='',
          response_line ''Delegation 2 Result (expected REJECTED):'' res2] @
         (case res2 of REJECTED reason \<Rightarrow> [[JStr ''Reason:'', JStr reason]] | ACCEPTED tk c \<Rightarrow> []) @
         [heading ''=== Test 3: Valid Child Delegation ==='', response_line ''Delegation 3 Result:'' res3] @
         (case res3 of ACCEPTED tk child2 \<Rightarrow> revocation_test child1 child2 (d3, w3) | REJECTED reason \<Rightarrow> []))"

definition delegation_script :: "world \<Rightarrow> console" where
  "delegation_script w =
     (let d = initRoot ''root-agent'' [open_grant ''*'' ''*''] new_delegation;
          (s1, res1) = delegate (test_request ''req-01'' ''Read logs'' ''root-agent'' [open_grant ''read'' ''logs''] 5
             (date_now w + 10000)) (d, tick_clock w)
      in [[JStr ''=== Setup Root Agent ===''],
          [JStr ''Root Token Grants:'', case getToken d ''root-agent'' of None \<Rightarrow> JUndef | Some tk \<Rightarrow> JArr (map grant_js (grants tk))],
          heading ''=== Test 1: Valid Delegation ==='', response_line ''Delegation Result:'' res1] @
         (case res1 of ACCEPTED tk child1 \<Rightarrow> child_tests child1 s1 | REJECTED reason \<Rightarrow> []))"

lemma subset_rejected:
  assumes "getToken d p = Some t" and "\<not> revoked t" and "date_now w \<le> ttl t"
    and "\<not> isSubset (date_now (tick_clock w)) gs (grants t)"
  shows "delegate (test_request rid text p gs depth limit) (d, w) =
    ((d, tick_clock (tick_clock w)), REJECTED ''Requested grants escape parent bounds'')"
  using assms by (auto simp: delegate_def test_request_def getToken_def Let_def split: option.splits)

lemma first_delegation:
  assumes "date_now (tick_clock w) \<le> MAX_SAFE_INTEGER" and "limit \<le> MAX_SAFE_INTEGER" and "depth < 100"
  obtains d1 w1 tk where
    "delegate (test_request rid text ''root-agent'' [open_grant act res] depth limit)
       (initRoot ''root-agent'' [open_grant ''*'' ''*''] new_delegation, tick_clock w) =
       ((d1, w1), ACCEPTED tk ''child-root-agent-2'')"
    "getToken d1 ''child-root-agent-2'' = Some tk" "\<not> revoked tk" "ttl tk = limit" "grants tk = [open_grant act res]"
    "\<And>n. wclock w1 n = wclock w (Suc (Suc (Suc (Suc n))))"
proof -
  let ?q = "test_request rid text ''root-agent'' [open_grant act res] depth limit"
  let ?r = "delegate ?q (initRoot ''root-agent'' [open_grant ''*'' ''*''] new_delegation, tick_clock w)"
  have 2: "show_nat (Suc (Suc 0)) = ''2''" "show_nat 2 = ''2''" by code_simp+
  have sub: "isSubset now [open_grant act res] [open_grant ''*'' ''*'']" for now
    by (simp add: open_grant_def grant_expired_def grant_covers_def no_expiry_def)
  note calc = delegate_def test_request_def initRoot_def new_delegation_def attach_child_def issue_token_def getToken_def sub Let_def 2
  show thesis
    by (rule that [of "fst (fst ?r)" "snd (fst ?r)" "issue_token ?q 2"])
      (use assms in \<open>simp_all add: calc log_event_def tick_clock_def del: isSubset.simps\<close>)
qed

text \<open>The third test is meant to delegate a subset of the parent's grant, but \<open>logs/specific\<close> is another
  resource than \<open>logs\<close>: it is rejected, and the fourth, on revocation, is not reached.\<close>

lemma delegation_script_prints:
  assumes "quick clock"
  shows "delegation_script (new_world clock) =
     [[JStr ''=== Setup Root Agent ===''],
      [JStr ''Root Token Grants:'', JArr [JObj [(''action'', JStr ''*''), (''resource'', JStr ''*'')]]],
      heading ''=== Test 1: Valid Delegation ==='', [JStr ''Delegation Result:'', JStr ''ACCEPTED''],
      [JStr ''Child Agent ID:'', JStr ''child-root-agent-2''],
      heading ''=== Test 2: Invalid Subset Delegation ==='',
      [JStr ''Delegation 2 Result (expected REJECTED):'', JStr ''REJECTED''],
      [JStr ''Reason:'', JStr ''Requested grants escape parent bounds''],
      heading ''=== Test 3: Valid Child Delegation ==='', [JStr ''Delegation 3 Result:'', JStr ''REJECTED'']]"
proof -
  have small: "clock n + 10000 \<le> MAX_SAFE_INTEGER" "clock n \<le> clock 0 + 10000" "clock n \<le> MAX_SAFE_INTEGER" for n
    using assms unfolding quick_def by (smt (verit))+
  have no: "\<not> isSubset now [open_grant act ''logs/specific''] [open_grant ''read'' ''logs'']"
    "\<not> isSubset now [open_grant ''write'' res] [open_grant ''read'' ''logs'']"
    "isSubset now [open_grant act res] [open_grant ''*'' ''*'']" for now act res
    by (simp_all add: open_grant_def grant_expired_def grant_covers_def no_expiry_def)
  obtain d1 w1 tk where 1: "delegate (test_request ''req-01'' ''Read logs'' ''root-agent'' [open_grant ''read'' ''logs''] 5
      (date_now (new_world clock) + 10000)) (initRoot ''root-agent'' [open_grant ''*'' ''*''] new_delegation, tick_clock (new_world clock)) =
      ((d1, w1), ACCEPTED tk ''child-root-agent-2'')"
    "getToken d1 ''child-root-agent-2'' = Some tk" "\<not> revoked tk" "ttl tk = date_now (new_world clock) + 10000"
    "grants tk = [open_grant ''read'' ''logs'']" "\<And>n. wclock w1 n = wclock (new_world clock) (Suc (Suc (Suc (Suc n))))"
    using small(1)[of 0] small(3)[of 1]
    by (rule_tac first_delegation [of "new_world clock" "date_now (new_world clock) + 10000" 5 "''req-01''" "''Read logs''" "''read''" "''logs''"])
      (simp_all add: date_now_def tick_clock_def new_world_def)
  have w1: "date_now (tick_clock w1) \<le> ttl tk" "date_now (tick_clock (tick_clock (tick_clock w1))) \<le> ttl tk"
    "date_now (tick_clock (tick_clock (tick_clock (tick_clock w1)))) \<le> ttl tk"
    using small(2) 1(4,6) by (simp_all add: date_now_def tick_clock_def new_world_def)
  have r2: "delegate (test_request rid ins ''child-root-agent-2'' [open_grant ''write'' ''logs''] 1 l) (d1, tick_clock w1) =
      ((d1, tick_clock (tick_clock (tick_clock w1))), REJECTED ''Requested grants escape parent bounds'')" for rid ins l
    by (rule subset_rejected [OF 1(2,3)]) (simp_all add: w1 1(5) no del: isSubset.simps)
  have r3: "delegate (test_request rid ins ''child-root-agent-2'' [open_grant ''read'' ''logs/specific''] 1 l)
      (d1, tick_clock (tick_clock (tick_clock (tick_clock w1)))) =
      ((d1, tick_clock (tick_clock (tick_clock (tick_clock (tick_clock (tick_clock w1)))))),
       REJECTED ''Requested grants escape parent bounds'')" for rid ins l
    by (rule subset_rejected [OF 1(2,3)]) (simp_all add: w1 1(5) no del: isSubset.simps)
  have all: "grant_js (open_grant act res) = JObj [(''action'', JStr act), (''resource'', JStr res)]" for act res
    by (simp add: grant_js_def open_grant_def)
  show ?thesis
    unfolding delegation_script_def Let_def 1(1) prod.case dresponse.case child_tests_def r2 r3
    by (simp add: response_line_def getToken_def initRoot_def new_delegation_def Let_def all)
qed

section \<open>failure/test_handler.ts\<close>

text \<open>\<open>MockLifecycle\<close> keeps the states it is told and prints them; the script prints to the same
  console. The helpers \<open>setup\<close>, \<open>failing\<close> and \<open>print_line\<close> are the script's statements on the handler's
  state.\<close>

type_synonym mock = "(string, string) jsmap \<times> console"

definition mock_transition :: "mock halter" where
  "mock_transition a h s =
     (let ((states, out), w) = s
      in (((AList.update a (halt_name h) states,
            out @ [[JStr (''[Lifecycle] Agent '' @ a @ '' transitioned to '' @ halt_name h)]]), w), Inr ()))"

definition print_line :: "jsval list \<Rightarrow> mock fstate \<Rightarrow> mock fstate" where
  "print_line l s = s\<lparr>fs_lifecycle := (fst (fs_lifecycle s), snd (fs_lifecycle s) @ [l])\<rparr>"

definition mock_state :: "mock fstate \<Rightarrow> string \<Rightarrow> jsval" where
  "mock_state s a = (case map_of (fst (fs_lifecycle s)) a of None \<Rightarrow> JUndef | Some st \<Rightarrow> JStr st)"

definition handler_setup :: "world \<Rightarrow> mock fstate" where
  "handler_setup w =
     (let d = initRoot ''root-agent'' [open_grant ''*'' ''*''] new_delegation;
          ((d1, w1), r) = delegate (test_request ''req-01'' ''noop'' ''root-agent'' [open_grant ''*'' ''*''] 1 (date_now w + 100000))
             (d, tick_clock w)
      in new_fstate ([], []) d1 w1)"

definition child_of :: "mock fstate \<Rightarrow> string" where
  "child_of s =
     (case getToken (fs_delegation s) ''child-root-agent-1'' of
        Some t \<Rightarrow> childAgentId t
      | None \<Rightarrow>
          (case getToken (fs_delegation s) ''child-root-agent-2'' of
             Some t \<Rightarrow> childAgentId t | None \<Rightarrow> ''child-root-agent-1''))"

definition transient_event :: "int \<Rightarrow> failure_event" where
  "transient_event now =
     \<lparr>fe_agentId = ''agent-1'', fe_tickSeq = 5, fe_class = TRANSIENT, fe_code = ''TIMEOUT'', fe_message = ''Network lag'',
      fe_context = [], fe_timestamp = now\<rparr>"

definition breach_event :: "int \<Rightarrow> failure_event" where
  "breach_event now =
     \<lparr>fe_agentId = ''root-agent'', fe_tickSeq = 99, fe_class = INVARIANT_BREACH, fe_code = ''INV-02-FAILED'',
      fe_message = ''Attempted to read closed memory node maliciously'', fe_context = [], fe_timestamp = now\<rparr>"

definition handled :: "failure_event \<Rightarrow> mock fstate \<Rightarrow> mock fstate" where
  "handled f s = fst (handle mock_transition 2 f s)"

definition read_clock :: "mock fstate \<Rightarrow> mock fstate" where
  "read_clock s = s\<lparr>fs_world := tick_clock (fs_world s)\<rparr>"

definition transient_phase :: "failure_event \<Rightarrow> mock fstate \<Rightarrow> mock fstate" where
  "transient_phase f s =
     handled f (print_line [JStr ''Attempt 3 (Exhaust -> PERMANENT):'']
       (handled f (print_line [JStr ''Attempt 2:'']
         (handled f (print_line [JStr ''Attempt 1:''] s)))))"

definition violation_phase :: "failure_event \<Rightarrow> mock fstate \<Rightarrow> mock fstate" where
  "violation_phase f s =
     (let s1 = handled (f\<lparr>fe_class := POLICY_VIOLATION, fe_code := ''DENIED'', fe_message := ''Write blocked''\<rparr>)
                 (print_line (heading ''=== Test 2: Policy Violation ==='') s)
      in print_line [JStr (''Lifecycle for agent-1 (expected undefined/ACTIVE): '' @ js_string (mock_state s1 ''agent-1''))] s1)"

definition token_line :: "string \<Rightarrow> string \<Rightarrow> mock fstate \<Rightarrow> mock fstate" where
  "token_line t c s = print_line [JStr (t @ js_string (revoked_js (fs_delegation s) c))] s"

definition breach_phase :: "string \<Rightarrow> mock fstate \<Rightarrow> mock fstate" where
  "breach_phase c s =
     (let s1 = token_line ''Child Token Revoked (Before): '' c (print_line (heading ''=== Test 3: INVARIANT BREACH Kernel Panic ==='') s);
          s2 = handled (breach_event (date_now (fs_world s1))) (read_clock s1);
          s3 = print_line [JStr (''Lifecycle for root-agent: '' @ js_string (mock_state s2 ''root-agent''))] s2
      in token_line ''Child Token Revoked (After Cascade): '' c s3)"

definition handler_tests :: "mock fstate \<Rightarrow> console" where
  "handler_tests s =
     (let s1 = print_line [JStr ''=== Test 1: Transient Retry Limits ===''] s;
          f = transient_event (date_now (fs_world s1))
      in snd (fs_lifecycle (breach_phase (child_of s) (violation_phase f (transient_phase f (read_clock s1))))))"

definition handler_script :: "world \<Rightarrow> console" where
  "handler_script w = handler_tests (handler_setup w)"

text \<open>The tree after the setup, by the limit on the child's lifetime.\<close>

definition setup_request :: "int \<Rightarrow> drequest" where
  "setup_request limit = test_request ''req-01'' ''noop'' ''root-agent'' [open_grant ''*'' ''*''] 1 limit"

definition setup_tree :: "int \<Rightarrow> delegation" where
  "setup_tree limit =
     (let d = initRoot ''root-agent'' [open_grant ''*'' ''*''] new_delegation
      in attach_child (setup_request limit) (the (map_of (nodes d) ''root-agent'')) (issue_token (setup_request limit) 2) d)"

lemma handler_setup_tree:
  assumes "date_now w + 100000 \<le> MAX_SAFE_INTEGER" and "date_now (tick_clock w) \<le> MAX_SAFE_INTEGER"
  shows "\<exists>w1. handler_setup w = new_fstate ([], []) (setup_tree (date_now w + 100000)) w1"
proof -
  have "isSubset now [open_grant ''*'' ''*''] [open_grant ''*'' ''*'']" for now
    by (simp add: open_grant_def grant_expired_def grant_covers_def no_expiry_def)
  then show ?thesis
    using assms
    by (simp add: handler_setup_def setup_tree_def setup_request_def delegate_def test_request_def initRoot_def new_delegation_def
        Let_def numeral_2_eq_2 del: isSubset.simps) (rule exI, rule refl)
qed

lemma handler_tests_print:
  "handler_tests (new_fstate ([], []) (setup_tree limit) \<lparr>wlog = \<lparr>logs = xs, nextBusSeq = n\<rparr>, wclock = c\<rparr>) =
     [[JStr ''=== Test 1: Transient Retry Limits ===''], [JStr ''Attempt 1:''], [JStr ''Attempt 2:''],
      [JStr ''Attempt 3 (Exhaust -> PERMANENT):''], [JStr ''[Lifecycle] Agent agent-1 transitioned to FAULTED''],
      heading ''=== Test 2: Policy Violation ==='', [JStr ''Lifecycle for agent-1 (expected undefined/ACTIVE): FAULTED''],
      heading ''=== Test 3: INVARIANT BREACH Kernel Panic ==='', [JStr ''Child Token Revoked (Before): false''],
      [JStr ''[Lifecycle] Agent root-agent transitioned to TERMINATED''], [JStr ''Lifecycle for root-agent: TERMINATED''],
      [JStr ''Child Token Revoked (After Cascade): true'']]"
  by code_simp

text \<open>The second test prints \<open>FAULTED\<close> where its label expects that nothing is recorded: the first test
  has already faulted the agent.\<close>

lemma handler_script_prints:
  assumes "quick clock"
  shows "handler_script (new_world clock) =
     [[JStr ''=== Test 1: Transient Retry Limits ===''], [JStr ''Attempt 1:''], [JStr ''Attempt 2:''],
      [JStr ''Attempt 3 (Exhaust -> PERMANENT):''], [JStr ''[Lifecycle] Agent agent-1 transitioned to FAULTED''],
      heading ''=== Test 2: Policy Violation ==='', [JStr ''Lifecycle for agent-1 (expected undefined/ACTIVE): FAULTED''],
      heading ''=== Test 3: INVARIANT BREACH Kernel Panic ==='', [JStr ''Child Token Revoked (Before): false''],
      [JStr ''[Lifecycle] Agent root-agent transitioned to TERMINATED''], [JStr ''Lifecycle for root-agent: TERMINATED''],
      [JStr ''Child Token Revoked (After Cascade): true'']]"
proof -
  have "clock n + 100000 \<le> MAX_SAFE_INTEGER" "clock n \<le> MAX_SAFE_INTEGER" for n
    using assms unfolding quick_def by (smt (verit))+
  then obtain w1 where "handler_setup (new_world clock) = new_fstate ([], []) (setup_tree (clock 0 + 100000)) w1"
    using handler_setup_tree [of "new_world clock"] by (auto simp: date_now_def tick_clock_def new_world_def)
  moreover obtain xs n c where "w1 = \<lparr>wlog = \<lparr>logs = xs, nextBusSeq = n\<rparr>, wclock = c\<rparr>"
    by (metis logger.cases world.cases)
  ultimately show ?thesis
    by (simp only: handler_script_def handler_tests_print)
qed

section \<open>invariants/test_checker.ts\<close>

definition checked :: "string \<Rightarrow> string \<Rightarrow> invariant_error + unit \<Rightarrow> console" where
  "checked code msg r =
     (case r of Inr _ \<Rightarrow> [] | Inl e \<Rightarrow> if fe_code (ie_event e) = code then [[JStr msg]] else [])"

text \<open>The circular object of the fourth test is \<open>JCyc\<close>.\<close>

definition checker_script :: "world \<Rightarrow> console" where
  "checker_script w =
     (let a = ''agent-inv-test'';
          (w1, r1) = assertSingleTickProcessing a 1 True w;
          (w2, r2) = assertStepBound a 2 101 100 w1;
          (w3, r3) = assertAgentNotTerminated a 3 ''TERMINATED'' w2;
          (w4, r4) = assertSerializable a 4 JCyc ''circular-object'' w3;
          out1 = checked ''INV-03'' ''PASS: Blocked parallel ticks gracefully.'' r1;
          out2 = checked ''INV-12'' ''PASS: Bounded MaxSteps limit at 100 safely.'' r2;
          out3 = checked ''INV-09'' ''PASS: Stopped execution run on TERMINATED agent natively.'' r3;
          out4 = checked ''INV-11'' ''PASS: Correctly threw INVARIANT_BREACH on non-serializable object mapping context recursively.'' r4
      in [[JStr ''=== Test 1: INV-03 Single Tick ==='']] @ out1 @ [heading ''=== Test 2: INV-12 Step Bounding ==='' ] @ out2 @
         [heading ''=== Test 3: INV-09 Terminated Zombie Check ==='' ] @ out3 @
         [heading ''=== Test 4: INV-11 Strict Serializable Scopes ==='' ] @ out4 @
         [heading (''Tests Passed: '' @ show_int (int (length (out1 @ out2 @ out3 @ out4))) @ '' / 4'')])"

lemma checker_script_prints:
  "checker_script (new_world clock) =
     [[JStr ''=== Test 1: INV-03 Single Tick ===''], [JStr ''PASS: Blocked parallel ticks gracefully.''],
      heading ''=== Test 2: INV-12 Step Bounding ==='', [JStr ''PASS: Bounded MaxSteps limit at 100 safely.''],
      heading ''=== Test 3: INV-09 Terminated Zombie Check ==='', [JStr ''PASS: Stopped execution run on TERMINATED agent natively.''],
      heading ''=== Test 4: INV-11 Strict Serializable Scopes ==='',
      [JStr ''PASS: Correctly threw INVARIANT_BREACH on non-serializable object mapping context recursively.''],
      heading ''Tests Passed: 4 / 4'']"
  by code_simp

section \<open>identity/test_registry.ts\<close>

definition registry_script :: "world \<Rightarrow> agent_identity option" where
  "registry_script w =
     getAgent ''a1'' (fst (registerAgent \<lparr>id_id = ''a1'', id_type = ''ROOT'', id_createdAt = date_now w, id_name = None,
                                        id_version = None\<rparr> new_agent_registry))"

lemma registry_script_prints: "map_option id_id (registry_script w) = Some ''a1''"
  by (simp add: registry_script_def registerAgent_def new_agent_registry_def getAgent_def map_has_def)

end
