(* ===== verification/AsyncScripts.thy ===== *)
theory AsyncScripts
  imports Scripts Awaiting
begin

text \<open>
  The scripts on the tool gate, the scheduler and the replay controller (tools/test_gate.ts,
  execution/test_scheduler.ts, test_live_to_replay.ts). The first two date from before the gate and
  the scheduler became asynchronous and await nothing: a call gives a promise, what the
  script prints is what has happened by then, and an error rejects a promise nobody handles. A
  promise is printed as an object without properties; the calls that are still under way at the end
  are part of the value of a script.
\<close>

section \<open>tools/test_gate.ts\<close>

definition counting_handlers :: "nat sched handlers" where
  "counting_handlers =
     [(''testTool'', \<lambda>args (s, w). ((s\<lparr>sc_env := Suc (sc_env s)\<rparr>, w),
        Inr (JObj [(''success'', JBool True), (''echoed_args'', args)])))]"

definition fresh_sched :: "'x \<Rightarrow> 'x sched" where
  "fresh_sched x = \<lparr>sc_lifecycle = new_lifecycle, sc_store = None, sc_quota = new_enforcer, sc_env = x\<rparr>"

definition a_promise :: jsval where
  "a_promise = JObj []"

definition count_line :: "nat sw \<Rightarrow> jsval list" where
  "count_line sw = [JStr ''Handler run count:'', jint (int (sc_env (fst sw)))]"

definition gate_script :: "world \<Rightarrow> console \<times> run list \<times> nat sw" where
  "gate_script w =
     (let args = JObj [(''myArg'', jint 123)];
          (sw1, p1) = gate_start counting_handlers LIVE ''agent-x'' 1 ''testTool'' args (fresh_sched 0, w);
          (sw2, p2) = gate_start counting_handlers LIVE ''agent-x'' 2 ''badTool'' (JObj []) sw1;
          (sw3, p3) = gate_start counting_handlers REPLAY ''agent-x'' 1 ''testTool'' args sw2;
          (sw4, p4) = gate_start counting_handlers REPLAY ''agent-x'' 11 ''testTool'' (JObj []) sw3
      in ([[JStr ''=== PHASE 1: LIVE ===''], [JStr ''LIVE execution result:'', a_promise], count_line sw1,
           heading ''=== PHASE 2: MISSING TOOL (LIVE) ==='', [JStr ''MISSING TOOL: FAILED (did not throw)''],
           heading ''=== PHASE 3: REPLAY (SUCCESS) ==='', [JStr ''REPLAY execution result:'', a_promise], count_line sw3,
           heading ''=== PHASE 4: REPLAY (MISSING LOG) ==='', [JStr ''REPLAY MISSING LOG: FAILED (did not throw)'']],
          [p1, p2, p3, p4], sw4))"

text \<open>The errors of the calls that are rejected already.\<close>

definition rejections :: "run list \<Rightarrow> string list" where
  "rejections ps = concat (map (\<lambda>p. case p of Resuming n (Inl e) \<Rightarrow> [err_message e] | _ \<Rightarrow> []) ps)"

text \<open>Nothing is caught: both checks for a throw report a failure, the run counter is as expected, and
  the replay of the logged call is rejected as well, because its result is not logged yet.\<close>

lemma gate_script_prints:
  "gate_script (new_world clock) = (out, ps, sw) \<Longrightarrow>
     out = [[JStr ''=== PHASE 1: LIVE ===''], [JStr ''LIVE execution result:'', a_promise], [JStr ''Handler run count:'', jint 1],
       heading ''=== PHASE 2: MISSING TOOL (LIVE) ==='', [JStr ''MISSING TOOL: FAILED (did not throw)''],
       heading ''=== PHASE 3: REPLAY (SUCCESS) ==='', [JStr ''REPLAY execution result:'', a_promise],
       [JStr ''Handler run count:'', jint 1],
       heading ''=== PHASE 4: REPLAY (MISSING LOG) ==='', [JStr ''REPLAY MISSING LOG: FAILED (did not throw)'']] \<and>
     rejections ps = [''TOOL_NOT_FOUND'', ''REPLAY_MISSING_TOOL_RESULT'', ''REPLAY_MISSING_TOOL_RESULT'']"
proof -
  have "fst (gate_script (new_world clock)) =
     [[JStr ''=== PHASE 1: LIVE ===''], [JStr ''LIVE execution result:'', a_promise], [JStr ''Handler run count:'', jint 1],
       heading ''=== PHASE 2: MISSING TOOL (LIVE) ==='', [JStr ''MISSING TOOL: FAILED (did not throw)''],
       heading ''=== PHASE 3: REPLAY (SUCCESS) ==='', [JStr ''REPLAY execution result:'', a_promise],
       [JStr ''Handler run count:'', jint 1],
       heading ''=== PHASE 4: REPLAY (MISSING LOG) ==='', [JStr ''REPLAY MISSING LOG: FAILED (did not throw)'']]"
    by code_simp
  moreover have "rejections (fst (snd (gate_script (new_world clock)))) =
      [''TOOL_NOT_FOUND'', ''REPLAY_MISSING_TOOL_RESULT'', ''REPLAY_MISSING_TOOL_RESULT'']"
    by code_simp
  ultimately show "gate_script (new_world clock) = (out, ps, sw) \<Longrightarrow> ?thesis" by simp
qed

section \<open>execution/test_scheduler.ts\<close>

definition sched_state_line :: "string \<Rightarrow> unit sw \<Rightarrow> jsval list" where
  "sched_state_line t sw = [JStr t, JStr (state_name (getState (sc_lifecycle (fst sw)) ''agent-1''))]"

definition scheduler_script :: "(string \<Rightarrow> string) \<Rightarrow> world \<Rightarrow> console \<times> run \<times> unit sw" where
  "scheduler_script sha w =
     (let a = ''agent-1'';
          (sw1, r1) = sc_transition a T_spawn (fresh_sched (), w);
          (sw2, r2) = sc_transition a T_activate sw1;
          (sw3, run1) = start_run [] LIVE sha a NOOP sw2;
          sw4 = sc_force a ACTIVE sw3;
          (sw5, run2) = start_run [] LIVE sha a (CALL_TOOL ''testTool'' (JObj [])) sw4
      in ([[JStr ''--- Initial State ---''], [JStr (state_name (getState (sc_lifecycle (fst sw2)) a))],
           heading ''--- Running NOOP Instruction ---'', sched_state_line ''State after NOOP:'' sw3,
           heading ''--- Resetting Agent for PENDING_TOOL ---'', sched_state_line ''State after CALL_TOOL:'' sw5,
           heading ''--- Logs ---''] @ map (\<lambda>e. [JStr (le_kind e)]) (wlogs (snd sw5)),
          run2, sw5))"

text \<open>After the tool call the script expects \<open>WAITING\<close>; the agent is \<open>ACTIVE\<close>, and when the run goes on it
  is rejected: the tool is not registered.\<close>

lemma scheduler_script_prints:
  "fst (scheduler_script sha (new_world clock)) =
     [[JStr ''--- Initial State ---''], [JStr ''ACTIVE''],
      heading ''--- Running NOOP Instruction ---'', [JStr ''State after NOOP:'', JStr ''TERMINATED''],
      heading ''--- Resetting Agent for PENDING_TOOL ---'', [JStr ''State after CALL_TOOL:'', JStr ''ACTIVE''],
      heading ''--- Logs ---'', [JStr ''LIFECYCLE_TRANSITION''], [JStr ''LIFECYCLE_TRANSITION''], [JStr ''TICK_OUTPUT''],
      [JStr ''LIFECYCLE_TRANSITION''], [JStr ''LIFECYCLE_TRANSITION''], [JStr ''TICK_OUTPUT'']]"
  by code_simp

lemma scheduler_script_rejected:
  "(case scheduler_script sha (new_world clock) of (out, run2, sw) \<Rightarrow>
      snd (resume [] LIVE sha ''agent-1'' (sw, run2)) = Settled (Inl (Error ''TOOL_NOT_FOUND'')))"
  by code_simp

section \<open>test_live_to_replay.ts\<close>

definition computed_tick :: "int \<Rightarrow> tick_output" where
  "computed_tick n =
     run_tick \<lparr>ti_agentId = ''agent-replay-test'', ti_sequenceNumber = 1,
              ti_instruction = RETURN (JObj [(''computed'', jint n)]), ti_maxSteps = 10\<rparr>"

text \<open>The script also makes a scheduler, with three of its arguments, which it does not use.\<close>

definition replay_script :: "world \<Rightarrow> script" where
  "replay_script w =
     (let a = ''agent-replay-test'';
          ((lc1, w1), r1) = transition a T_spawn JUndef (new_lifecycle, w);
          ((lc2, w2), r2) = transition a T_activate JUndef (lc1, w1);
          instr = RETURN (JObj [(''computed'', jint 42)]);
          tickOutput = output_js (computed_tick 42);
          w3 = log_event ''TICK_OUTPUT'' a (JObj [(''sequenceNumber'', jint 1), (''instruction'', instruction_js instr),
                 (''output'', tickOutput)]) w2
      in say [JStr ''=== PHASE 1: LIVE MODE ===''] (
         say [JStr ''LIVE Tick Output:'', tickOutput] (
         get (verifyTick LIVE a 1 tickOutput w3) (\<lambda>_.
         say [JStr ''LIVE Verify: Over (did not throw)''] (
         say (heading ''=== PHASE 2: REPLAY MODE ==='') (
         say [JStr ''Re-running same instruction...''] (
         say (case verifyTick REPLAY a 1 (output_js (computed_tick 42)) w3 of
                Inr _ \<Rightarrow> [JStr ''REPLAY Verification: PASS (Outputs match!)'']
              | Inl e \<Rightarrow> error_line ''REPLAY Verification: FAIL'' e) (
         say (heading ''=== PHASE 3: DIVERGENCE TEST ==='') (
         say [JStr ''Verifying divergent output...''] (
         say (case verifyTick REPLAY a 1 (output_js (computed_tick 99)) w3 of
                Inr _ \<Rightarrow> [JStr ''REPLAY DIVERGENCE: FAIL (Did not catch mismatch)'']
              | Inl e \<Rightarrow>
                  if err_message e = ''REPLAY_DIVERGENCE'' then [JStr ''REPLAY DIVERGENCE: PASS (Caught mismatch!)'']
                  else error_line ''REPLAY DIVERGENCE: FAIL (Wrong error)'' e) finished))))))))))"

lemma replay_script_prints:
  "replay_script (new_world clock) =
     ([[JStr ''=== PHASE 1: LIVE MODE ===''],
       [JStr ''LIVE Tick Output:'', JObj [(''kind'', JStr ''COMPLETED''), (''result'', JObj [(''computed'', jint 42)])]],
       [JStr ''LIVE Verify: Over (did not throw)''], heading ''=== PHASE 2: REPLAY MODE ==='',
       [JStr ''Re-running same instruction...''], [JStr ''REPLAY Verification: PASS (Outputs match!)''],
       heading ''=== PHASE 3: DIVERGENCE TEST ==='', [JStr ''Verifying divergent output...''],
       [JStr ''REPLAY DIVERGENCE: PASS (Caught mismatch!)'']], None)"
  by code_simp

end
