(* ===== verification/HostSuites.thy ===== *)
theory HostSuites
  imports AsyncScripts Sqlite Brain Dashboard
begin

text \<open>
  The test suites of the host as programs over the model: tests/devin.test.ts with the agent it
  spawns (host/agents/devin.ts), tests/sqlite-db.test.ts, tests/ollama.test.ts and
  tests/dashboard.test.ts, without its test of the markup of the page. A suite is the list of its
  tests' results.
\<close>

section \<open>host/agents/devin.ts\<close>

definition spawnDevinAgent :: "agent_registry \<times> world \<Rightarrow> (agent_registry \<times> world, string) outcome" where
  "spawnDevinAgent rw =
     (let (reg, w) = rw; a = ''omnidevin'';
          (reg1, r) = registerAgent \<lparr>id_id = a, id_type = ''devin'', id_createdAt = date_now w,
                        id_name = Some ''OmniPaw Advanced SWE'', id_version = Some ''1.0.0''\<rparr> reg
      in ((reg1, tick_clock w), case r of Inl e \<Rightarrow> Inl e | Inr _ \<Rightarrow> Inr a))"

text \<open>The tools of the agent; the registry is any object, with a method \<open>registerTool\<close> or without. Neither registry
  of the repository has it.\<close>

datatype devin_tool = GitTool string | ReadTool string | WriteTool string | ListDirTool string | BashTool

definition devin_tools :: "string \<Rightarrow> (string \<times> devin_tool) list" where
  "devin_tools sandboxDir =
     map (\<lambda>name. (name, GitTool name)) [''host.git.clone'', ''host.git.commit'', ''host.git.log''] @
     [(''host.fs.read_file'', ReadTool sandboxDir), (''host.fs.write_file'', WriteTool sandboxDir),
      (''host.fs.list_dir'', ListDirTool sandboxDir), (''host.system.bash'', BashTool)]"

definition registerDevinTools ::
  "(string \<Rightarrow> devin_tool \<Rightarrow> 'r \<Rightarrow> ('r, unit) outcome) option \<Rightarrow> string \<Rightarrow> 'r \<Rightarrow> ('r, unit) outcome" where
  "registerDevinTools registerTool sandboxDir r =
     (case registerTool of
        None \<Rightarrow> (r, Inl (JsErr ''TypeError'' ''registry.registerTool is not a function''))
      | Some f \<Rightarrow> run_steps (map (\<lambda>(name, tool). f name tool) (devin_tools sandboxDir)) r)"

lemma devin_tools_unregistered: "registerDevinTools None sandboxDir r = (r, Inl e) \<Longrightarrow> err_message e = ''registry.registerTool is not a function''"
  by (auto simp: registerDevinTools_def)

lemma devin_tools_distinct: "distinct (map fst (devin_tools sandboxDir))"
  by (simp add: devin_tools_def)

section \<open>tests/devin.test.ts\<close>

definition devin_handlers :: "unit sched handlers" where
  "devin_handlers =
     [(''host.git.clone'', \<lambda>args sw. (sw,
         case arg_prop args ''directory'' of
           Inl e \<Rightarrow> Inl e
         | Inr d \<Rightarrow> Inr (JObj [(''success'', JBool True), (''stdout'', JStr ''Cloned successfully''),
             (''clonedPath'', JStr (''.workspace/'' @ js_string (if js_truthy d then d else JStr ''repo'')))]))),
      (''host.git.commit'', \<lambda>args sw. (sw,
         case arg_prop args ''message'' of
           Inl e \<Rightarrow> Inl e
         | Inr m \<Rightarrow> Inr (JObj [(''success'', JBool True), (''stdout'', JStr (''[main abc123] '' @ js_string m))]))),
      (''host.fs.write_file'', \<lambda>args sw. (sw,
         case arg_prop args ''relativePath'' of
           Inl e \<Rightarrow> Inl e
         | Inr p \<Rightarrow> Inr (JObj [(''success'', JBool True), (''data'', JStr (''Written to '' @ js_string p))])))]"

definition devin_start :: "world \<Rightarrow> unit sw option" where
  "devin_start w =
     (case spawnDevinAgent (new_agent_registry, w) of
        (rw, Inl e) \<Rightarrow> None
      | ((reg, w1), Inr a) \<Rightarrow>
          Some (sc_force a ACTIVE
            (\<lparr>sc_lifecycle = new_lifecycle, sc_store = Some [], sc_quota = new_enforcer, sc_env = ()\<rparr>, w1)))"

definition devin_clone :: instruction where
  "devin_clone = CALL_TOOL ''host.git.clone'' (JObj [(''url'', JStr ''https://github.com/omnipaw/test-repo'')])"

definition devin_write :: "string \<Rightarrow> instruction" where
  "devin_write content =
     CALL_TOOL ''host.fs.write_file'' (JObj [(''relativePath'', JStr ''fix.ts''), (''content'', JStr content)])"

definition devin_commit :: "string \<Rightarrow> string \<Rightarrow> instruction" where
  "devin_commit message cwd = CALL_TOOL ''host.git.commit'' (JObj [(''message'', JStr message), (''cwd'', JStr cwd)])"

text \<open>The call of \<open>runAgentLoop\<close> that nobody awaits: its first piece runs, the rest is left over.\<close>

definition call_loop :: "(string \<Rightarrow> string) \<Rightarrow> instruction \<Rightarrow> unit sw \<Rightarrow> unit sw" where
  "call_loop sha instr sw = fst (start_run devin_handlers LIVE sha ''omnidevin'' instr sw)"

definition devin_state :: "unit sw \<Rightarrow> agent_state" where
  "devin_state sw = getState (sc_lifecycle (fst sw)) ''omnidevin''"

fun terminated_after_each :: "(unit sw \<Rightarrow> unit sw) list \<Rightarrow> unit sw \<Rightarrow> bool" where
  "terminated_after_each [] sw = True"
| "terminated_after_each (step # steps) sw =
     (let sw1 = step sw
      in devin_state sw1 = TERMINATED \<and> terminated_after_each steps (sc_force ''omnidevin'' ACTIVE sw1))"

definition workflow_test :: "(string \<Rightarrow> string) \<Rightarrow> world \<Rightarrow> bool" where
  "workflow_test sha w =
     (case devin_start w of
        None \<Rightarrow> False
      | Some sw \<Rightarrow>
          terminated_after_each
            [call_loop sha devin_clone, call_loop sha (devin_write (''console.log('' @ quote ''fixed'' @ '');'')),
             call_loop sha (devin_commit ''Fix critical bug'' ''test-repo'')] sw)"

definition tick_hashes :: "world \<Rightarrow> jsval list" where
  "tick_hashes w = map (\<lambda>e. js_prop (le_payload e) ''stateHash'') (filter (\<lambda>e. le_kind e = ''TICK_OUTPUT'') (wlogs w))"

definition audit_log_after :: "(string \<Rightarrow> string) \<Rightarrow> unit sw \<Rightarrow> unit sw" where
  "audit_log_after sha sw =
     foldl (\<lambda>s i. sc_force ''omnidevin'' ACTIVE (call_loop sha i s)) sw
       [devin_clone, devin_write ''fixed'', devin_commit ''Fix'' ''repo'']"

definition audit_test :: "(string \<Rightarrow> string) \<Rightarrow> world \<Rightarrow> bool" where
  "audit_test sha w =
     (case devin_start w of
        None \<Rightarrow> False
      | Some sw \<Rightarrow>
          (let hashes = tick_hashes (snd (audit_log_after sha sw))
           in length hashes = 6 \<and>
              list_all (\<lambda>h. case h of JStr t \<Rightarrow> length t = 64 | _ \<Rightarrow> False) hashes))"

definition first_hashes :: "(string \<Rightarrow> string) \<Rightarrow> world \<Rightarrow> jsval list option" where
  "first_hashes sha w = map_option (\<lambda>sw. tick_hashes (snd (call_loop sha devin_clone sw))) (devin_start w)"

definition determinism_test :: "(string \<Rightarrow> string) \<Rightarrow> world \<Rightarrow> world \<Rightarrow> bool" where
  "determinism_test sha w1 w2 =
     (first_hashes sha w1 \<noteq> None \<and> first_hashes sha w2 \<noteq> None \<and> first_hashes sha w1 = first_hashes sha w2)"

text \<open>The first test finds the agent \<open>ACTIVE\<close>, the second counts three outputs, one for each first
  piece; the third compares the one hash there is by then, whatever the clocks say.\<close>

lemma devin_suite_results:
  "workflow_test sha (new_world c) = False \<and> audit_test sha (new_world c) = False \<and>
   determinism_test sha (new_world c) (new_world d)"
  by code_simp

lemma devin_suite_counts:
  "(case devin_start (new_world c) of None \<Rightarrow> False | Some sw \<Rightarrow>
      devin_state (call_loop sha devin_clone sw) = ACTIVE \<and> length (tick_hashes (snd (audit_log_after sha sw))) = 3)"
  by code_simp

text \<open>An awaited call ends the agent, with two outputs.\<close>

lemma devin_awaited:
  "(case devin_start (new_world c) of None \<Rightarrow> False | Some sw \<Rightarrow>
      (case runAgentLoop devin_handlers LIVE sha ''omnidevin'' devin_clone sw of
         (sw1, r) \<Rightarrow> r = Inr () \<and> devin_state sw1 = TERMINATED \<and> length (tick_hashes (snd sw1)) = 2))"
  by code_simp

section \<open>tests/sqlite-db.test.ts\<close>

text \<open>\<open>expect(v).toEqual(\<dots>)\<close> on plain data; on a record, the properties may come in any order.\<close>

definition reads :: "jserr + jsval \<Rightarrow> jsval \<Rightarrow> bool" where
  "reads r v \<longleftrightarrow> r = Inr v"

definition audit_input :: "string \<Rightarrow> string \<Rightarrow> int \<Rightarrow> jsval \<Rightarrow> log_input" where
  "audit_input kind a t payload =
     \<lparr>le_kind = kind, le_agentId = a, le_timestamp = t, le_payload = payload, le_fields = []\<rparr>"

definition sqlite_log_test :: bool where
  "sqlite_log_test =
     (let l = sl_append_all
            [audit_input ''SPAWN'' ''agent-1'' 1000 (JObj [(''foo'', JStr ''bar'')]),
             audit_input ''TICK'' ''agent-2'' 1001 (JObj [(''baz'', JStr ''qux'')])] new_audit_log
      in (case (sl_getLogs l, sl_getLogsForAgent ''agent-1'' l) of
            (Inr es, Inr mine) \<Rightarrow>
              length es = 2 \<and> le_busSeq (es ! 0) = 1 \<and> le_kind (es ! 0) = ''SPAWN'' \<and>
              le_payload (es ! 0) = JObj [(''foo'', JStr ''bar'')] \<and> length mine = 1 \<and> le_busSeq (mine ! 0) = 1
          | _ \<Rightarrow> False))"

definition sqlite_write_test :: "world \<Rightarrow> bool" where
  "sqlite_write_test w =
     (case ss_write ''agent-a'' ''key-1'' (JObj [(''score'', jint 42)]) ''tx-001'' ([], w) of
        ((t, w1), Inr _) \<Rightarrow> reads (ss_read ''agent-a'' ''key-1'' t) (JObj [(''score'', jint 42)])
      | _ \<Rightarrow> False)"

definition sqlite_reject_test :: "world \<Rightarrow> bool" where
  "sqlite_reject_test w = to_throw ''INV-11'' (snd (ss_write ''agent-a'' ''key-broken'' JCyc ''tx-002'' ([], w)))"

definition sqlite_snapshot_test :: "((string \<times> string) list \<Rightarrow> (string \<times> string) list) \<Rightarrow> world \<Rightarrow> bool" where
  "sqlite_snapshot_test arrange w =
     (case run_store ss_step
        [Write ''agent-a'' ''k1'' (JStr ''v1'') ''tx-1'', Write ''agent-a'' ''k2'' (JStr ''v2'') ''tx-2'',
         Write ''agent-b'' ''k3'' (JStr ''v3'') ''tx-3''] ([], w) of
        ((t, w1), rs) \<Rightarrow>
          (case ss_snapshot arrange ''agent-a'' t of
             Inr snap \<Rightarrow>
               length (props snap) = 2 \<and> map_of (props snap) ''k1'' = Some (JStr ''v1'') \<and>
               map_of (props snap) ''k2'' = Some (JStr ''v2'')
           | Inl e \<Rightarrow> False))"

definition sqlite_delete_test :: "world \<Rightarrow> bool" where
  "sqlite_delete_test w =
     (case run_store ss_step [Write ''agent-a'' ''k1'' (JStr ''v1'') ''tx-1'', Delete ''agent-a'' ''k1'' ''tx-2''] ([], w) of
        ((t, w1), rs) \<Rightarrow> reads (ss_read ''agent-a'' ''k1'' t) JNull)"

text \<open>The entries a call of the store has appended; a spy on \<open>append\<close> sees them.\<close>

definition appended :: "world \<Rightarrow> world \<Rightarrow> log_entry list" where
  "appended w w1 = drop (length (wlogs w)) (wlogs w1)"

definition sqlite_wal_test :: "world \<Rightarrow> bool" where
  "sqlite_wal_test w =
     (case fst (ss_write ''agent-c'' ''k1'' (JStr ''v1'') ''tx-99'' ([], w)) of
        (t, w1) \<Rightarrow>
          (case appended w w1 of
             e # es \<Rightarrow> le_kind e = ''MEMORY_PERSISTENT_WRITE'' \<and> le_agentId e = ''agent-c'' \<and>
               js_prop (le_payload e) ''txId'' = JStr ''tx-99''
           | [] \<Rightarrow> False))"

text \<open>A reboot keeps what is in the file: the rows of both tables.\<close>

definition sqlite_reboot_test :: "world \<Rightarrow> bool" where
  "sqlite_reboot_test w =
     (case ss_write ''ag'' ''score'' (jint 100) ''tx-1'' ([], w) of
        ((t, w1), Inr _) \<Rightarrow>
          (let l = sl_append_all
                 (audit_input ''A'' ''ag'' 1 JUndef #
                  map (\<lambda>e. audit_input (le_kind e) (le_agentId e) (le_timestamp e) (le_payload e)) (appended w w1)) new_audit_log
           in (case sl_getLogs l of Inr es \<Rightarrow> length es = 2 | Inl e \<Rightarrow> False) \<and>
              reads (ss_read ''ag'' ''score'' t) (jint 100))
      | _ \<Rightarrow> False)"

definition sqlite_suite :: "world \<Rightarrow> bool list" where
  "sqlite_suite w =
     [sqlite_log_test, sqlite_write_test w, sqlite_reject_test w, sqlite_snapshot_test id w, sqlite_snapshot_test rev w,
      sqlite_delete_test w, sqlite_wal_test w, sqlite_reboot_test w]"

lemma sqlite_suite_passes: "list_all id (sqlite_suite (new_world c))"
  by code_simp

section \<open>tests/ollama.test.ts\<close>

definition answers_once :: "jserr + string \<Rightarrow> unit fetch" where
  "answers_once r url body e =
     (e, case r of
           Inl x \<Rightarrow> Inl x
         | Inr text \<Rightarrow> Inr \<lparr>hr_ok = True, hr_statusText = [], hr_json = Inr (JObj [(''response'', JStr text)])\<rparr>)"

definition ollama_does :: "jserr + string \<Rightarrow> jserr + jsval" where
  "ollama_does r =
     snd (ollama_evaluate (answers_once r) ''http://localhost:11434'' ''llama3'' ''do it'' (JObj []) ())"

definition json_member :: "string \<Rightarrow> string \<Rightarrow> string" where
  "json_member k v = quote k @ '': '' @ quote v"

definition ollama_suite :: "bool list" where
  "ollama_suite =
     [ollama_does (Inr (''{'' @ json_member ''kind'' ''CALL_TOOL'' @ '', '' @ json_member ''toolName'' ''host.fs.list_dir'' @
        '', '' @ quote ''args'' @ '': {'' @ json_member ''foo'' ''bar'' @ ''}}'')) =
        Inr (call_tool_value ''host.fs.list_dir'' [(''foo'', JStr ''bar'')]),
      ollama_does (Inr (''{'' @ json_member ''kind'' ''CALL_TOOL'' @ '', '' @ json_member ''toolName'' ''host.system.bash'')) =
        Inr (call_tool_value ''host.system.bash'' []),
      (case ollama_does (Inl (Error ''Connection refused'')) of
         Inr v \<Rightarrow> js_prop v ''kind'' = JStr ''RETURN'' \<and> str_includes (js_string (js_prop v ''value'')) ''KERNEL_PANIC''
       | Inl e \<Rightarrow> False)]"

lemma ollama_suite_passes: "ollama_suite = [True, True, True]"
  by code_simp

section \<open>tests/dashboard.test.ts\<close>

text \<open>The messages a client has got so far.\<close>

definition messages_to :: "string \<Rightarrow> dashboard \<Rightarrow> string list" where
  "messages_to c d = map snd (filter (\<lambda>m. fst m = c) (outbox d))"

definition parsed :: "string \<Rightarrow> string \<Rightarrow> jsval" where
  "parsed k text = (case json_parse text of Inr v \<Rightarrow> js_prop v k | Inl e \<Rightarrow> JUndef)"

definition all_open :: "string \<Rightarrow> bool" where
  "all_open c = True"

definition connection_test :: "world \<Rightarrow> bool" where
  "connection_test w =
     (let d = on_connection None ''ws'' None (new_dashboard w)
      in getClientCount d = 1 \<and> getClientCount (on_close ''ws'' d) = 0)"

definition init_test :: "world \<Rightarrow> bool" where
  "init_test w =
     (let d1 = on_event all_open (AGENT_SPAWNED ''agent-1'' (date_now w)) ((new_dashboard w)\<lparr>db_world := tick_clock w\<rparr>);
          d2 = on_event all_open (TICK_COMPLETED ''agent-1'' 1 (date_now (db_world d1))) (d1\<lparr>db_world := tick_clock (db_world d1)\<rparr>);
          d3 = on_connection None ''ws'' None d2
      in (case messages_to ''ws'' d3 of
            msg # _ \<Rightarrow>
              parsed ''type'' msg = JStr ''INIT'' \<and>
              (case js_prop (parsed ''payload'' msg) ''bufferedEvents'' of JArr vs \<Rightarrow> length vs = 2 | _ \<Rightarrow> False)
          | [] \<Rightarrow> False))"

definition broadcast_test :: "world \<Rightarrow> bool" where
  "broadcast_test w =
     (let d = on_event all_open (TOOL_CALL_REQUESTED ''agent-2'' ''host.git.clone'' (date_now w))
            (on_connection None ''ws'' None ((new_dashboard w)\<lparr>db_world := tick_clock w\<rparr>))
      in (case messages_to ''ws'' d of
            [_, msg] \<Rightarrow>
              parsed ''type'' msg = JStr ''BUS_EVENT'' \<and>
              js_prop (parsed ''payload'' msg) ''kind'' = JStr ''TOOL_CALL_REQUESTED''
          | _ \<Rightarrow> False))"

definition token_test :: "world \<Rightarrow> bool" where
  "token_test w =
     (let d1 = on_connection (Some ''secret-123'') ''ws'' None (new_dashboard w);
          d2 = on_connection (Some ''secret-123'') ''ws2'' (Some ''secret-123'') d1
      in map_of (closed d1) ''ws'' = Some (Some (4001, ''Unauthorized'')) \<and> getClientCount d2 = 1)"

definition dashboard_suite :: "world \<Rightarrow> bool list" where
  "dashboard_suite w = [connection_test w, init_test w, broadcast_test w, token_test w]"

lemma dashboard_suite_passes: "dashboard_suite (new_world int) = [True, True, True, True]"
  by code_simp

end
