(* ===== verification/SiteViews.thy ===== *)
theory SiteViews
  imports Seo PluginLoader
begin

text \<open>
  What views of the documentation site compute (docs/layer/app/): the logo of the header, its menu
  and what the entries of the menu do (composables/useLogoAssets.ts), the flag of a language
  (components/LanguageSelect.vue), the links of a page (components/docs/DocsPageHeaderLinks.vue) and the
  start of the application (app.vue). The browser is a parameter, \<open>t\<close> gives the texts, and reactive
  values are read at one moment. Letters change their case as Latin-1 letters do.
\<close>

section \<open>The logo\<close>

record logo_image =
  li_light :: "string option"
  li_dark :: "string option"

record logo_config = logo_image +
  lc_display :: "string option"
  lc_wordmark :: "logo_image option"
  lc_favicon :: "string option"
  lc_alt :: "string option"
  lc_brandAssetsUrl :: "string option"

record header_config =
  hc_title :: "string option"
  hc_logo :: "logo_config option"

text \<open>\<open>a || b || \<dots> || last\<close> with a text at the end.\<close>

definition text_or_else :: "string option list \<Rightarrow> string \<Rightarrow> string" where
  "text_or_else as z = (case filter truthy_text as of Some a # _ \<Rightarrow> a | _ \<Rightarrow> z)"

definition light_first :: "'a logo_image_scheme \<Rightarrow> string option list" where
  "light_first i = [li_light i, li_dark i]"

definition dark_first :: "'a logo_image_scheme \<Rightarrow> string option list" where
  "dark_first i = [li_dark i, li_light i]"

definition hasLogo :: "header_config \<Rightarrow> bool" where
  "hasLogo h = (case hc_logo h of None \<Rightarrow> False | Some l \<Rightarrow> truthy_text (li_light l) \<or> truthy_text (li_dark l))"

definition displayMode :: "header_config \<Rightarrow> string" where
  "displayMode h = text_or_else [Option.bind (hc_logo h) lc_display] ''logo''"

definition currentLogoUrl :: "string \<Rightarrow> header_config \<Rightarrow> string" where
  "currentLogoUrl colorMode h =
     (case hc_logo h of
        None \<Rightarrow> []
      | Some l \<Rightarrow> text_or_else (if colorMode = ''dark'' then dark_first l else light_first l) [])"

definition wordmark :: "header_config \<Rightarrow> logo_image option" where
  "wordmark h = Option.bind (hc_logo h) lc_wordmark"

definition hasWordmark :: "header_config \<Rightarrow> bool" where
  "hasWordmark h = (case wordmark h of None \<Rightarrow> False | Some m \<Rightarrow> truthy_text (li_light m) \<or> truthy_text (li_dark m))"

definition currentWordmarkUrl :: "string \<Rightarrow> header_config \<Rightarrow> string" where
  "currentWordmarkUrl colorMode h =
     (case wordmark h of
        None \<Rightarrow> []
      | Some m \<Rightarrow> text_or_else (if colorMode = ''dark'' then dark_first m else light_first m) [])"

definition headerLightUrl :: "header_config \<Rightarrow> string" where
  "headerLightUrl h =
     (case hc_logo h of
        None \<Rightarrow> []
      | Some l \<Rightarrow>
          if displayMode h = ''wordmark'' \<and> hasWordmark h
          then text_or_else (light_first (the (wordmark h)) @ light_first l) []
          else text_or_else (light_first l) [])"

definition headerDarkUrl :: "header_config \<Rightarrow> string" where
  "headerDarkUrl h =
     (case hc_logo h of
        None \<Rightarrow> []
      | Some l \<Rightarrow>
          if displayMode h = ''wordmark'' \<and> hasWordmark h
          then text_or_else (dark_first (the (wordmark h)) @ dark_first l) []
          else text_or_else (dark_first l) [])"

definition faviconUrl :: "header_config \<Rightarrow> string" where
  "faviconUrl h = text_or_else [Option.bind (hc_logo h) lc_favicon] ''/favicon.ico''"

definition logoAlt :: "header_config \<Rightarrow> string" where
  "logoAlt h = text_or_else [Option.bind (hc_logo h) lc_alt, hc_title h] []"

definition brandName :: "header_config \<Rightarrow> string" where
  "brandName h = text_or_else [hc_title h] (logoAlt h)"

text \<open>\<open>s.replace(/\\s+/g, '-')\<close>\<close>

fun dash_blanks :: "bool \<Rightarrow> string \<Rightarrow> string" where
  "dash_blanks inside [] = []"
| "dash_blanks inside (c # cs) =
     (if js_blank c then (if inside then [] else ''-'') @ dash_blanks True cs else c # dash_blanks False cs)"

definition download_prefix :: "header_config \<Rightarrow> string" where
  "download_prefix h = (if brandName h = [] then ''logo'' else dash_blanks False (map to_lower (brandName h)))"

definition named :: "string \<Rightarrow> header_config \<Rightarrow> string" where
  "named what h = (if brandName h = [] then what else brandName h @ '' '' @ what)"

definition isSvgUrl :: "string \<Rightarrow> bool" where
  "isSvgUrl url = suffix ''.svg'' (map to_lower url)"

definition word_char :: "char \<Rightarrow> bool" where
  "word_char c \<longleftrightarrow> is_lower (to_lower c) \<or> is_digit c"

fun extension_at :: "string \<Rightarrow> string option" where
  "extension_at [] = None"
| "extension_at (c # cs) =
     (let name = takeWhile word_char cs; after_it = dropWhile word_char cs
      in if c = CHR ''.'' \<and> name \<noteq> [] \<and> (after_it = [] \<or> hd after_it = CHR ''?'') then Some name
         else extension_at cs)"

definition getExtension :: "string \<Rightarrow> string" where
  "getExtension url = (case extension_at url of Some name \<Rightarrow> CHR ''.'' # map to_lower name | None \<Rightarrow> ''.png'')"

section \<open>The texts of a logo\<close>

text \<open>The first pattern of \<open>normalizeSvg\<close>, after \<open>fill="\<close>: how long a colour with its closing quote is.\<close>

definition fill_start :: string where
  "fill_start = ''fill='' @ [CHR 0x22]"

definition hex_char :: "char \<Rightarrow> bool" where
  "hex_char c \<longleftrightarrow> c \<in> set ''0123456789abcdefABCDEF''"

definition closes :: "string \<Rightarrow> nat \<Rightarrow> nat option" where
  "closes s n = (if prefix [CHR 0x22] (drop n s) then Some (n + 1) else None)"

definition function_colour :: "string \<Rightarrow> string \<Rightarrow> nat option" where
  "function_colour name s =
     (let n = length name; inner = length (takeWhile (\<lambda>c. c \<noteq> CHR '')'') (drop n s))
      in if prefix name s \<and> inner \<noteq> 0 \<and> prefix '')'' (drop (n + inner) s) then closes s (n + inner + 1) else None)"

definition colour_length :: "string \<Rightarrow> nat option" where
  "colour_length s =
     (if prefix ''black'' s \<or> prefix ''white'' s then closes s 5
      else if prefix ''#'' s
      then (let n = length (takeWhile hex_char (tl s)) in if 3 \<le> n \<and> n \<le> 8 then closes s (n + 1) else None)
      else case function_colour ''rgb('' s of Some n \<Rightarrow> Some n | None \<Rightarrow> function_colour ''rgba('' s)"

definition fill_length :: "string \<Rightarrow> nat option" where
  "fill_length s =
     (if prefix fill_start s then map_option (\<lambda>n. length fill_start + n) (colour_length (drop (length fill_start) s)) else None)"

text \<open>A global replacement goes on after the match; \<open>skip\<close> counts what is left of it.\<close>

fun recolour :: "nat \<Rightarrow> string \<Rightarrow> string" where
  "recolour skip [] = []"
| "recolour (Suc skip) (c # cs) = recolour skip cs"
| "recolour 0 (c # cs) =
     (case fill_length (c # cs) of
        Some n \<Rightarrow> fill_start @ ''currentColor'' @ [CHR 0x22] @ recolour (n - 1) cs
      | None \<Rightarrow> c # recolour 0 cs)"

text \<open>A replacement text: \<open>$$\<close>, \<open>$&\<close>, \<open>$`\<close>, \<open>$'\<close> and, if the pattern has a group, \<open>$1\<close> and \<open>$01\<close> are
  expanded.\<close>

fun expand :: "string \<Rightarrow> string \<Rightarrow> string \<Rightarrow> bool \<Rightarrow> string \<Rightarrow> string" where
  "expand before m rest grouped (CHR ''$'' # c # cs) =
     (if c = CHR ''$'' then CHR ''$'' # expand before m rest grouped cs
      else if c = CHR ''&'' then m @ expand before m rest grouped cs
      else if c = CHR 0x60 then before @ expand before m rest grouped cs
      else if c = CHR 0x27 then rest @ expand before m rest grouped cs
      else if grouped \<and> c = CHR ''0'' \<and> prefix ''1'' cs then m @ expand before m rest grouped (tl cs)
      else if grouped \<and> c = CHR ''1'' then m @ expand before m rest grouped cs
      else CHR ''$'' # expand before m rest grouped (c # cs))"
| "expand before m rest grouped (c # cs) = c # expand before m rest grouped cs"
| "expand before m rest grouped [] = []"

text \<open>\<open>s.replace(re, text)\<close>, where \<open>at s\<close> is the length of the match at the start of a text.\<close>

fun replace_match :: "(string \<Rightarrow> nat option) \<Rightarrow> bool \<Rightarrow> string \<Rightarrow> string \<Rightarrow> string \<Rightarrow> string" where
  "replace_match len grouped by before s =
     (case len s of
        Some n \<Rightarrow> before @ expand before (take n s) (drop n s) grouped by @ drop n s
      | None \<Rightarrow> (case s of [] \<Rightarrow> before | c # cs \<Rightarrow> replace_match len grouped by (before @ [c]) cs))"

declare replace_match.simps [simp del]

definition svg_word :: "string \<Rightarrow> nat option" where
  "svg_word s =
     (if prefix ''<svg'' s \<and> (case drop 4 s of [] \<Rightarrow> True | c # _ \<Rightarrow> \<not> (word_char c \<or> c = CHR ''_'')) then Some 4 else None)"

definition svg_tag :: "string \<Rightarrow> nat option" where
  "svg_tag s =
     (let n = length (takeWhile (\<lambda>c. c \<noteq> CHR ''>'') s)
      in if prefix ''<svg'' s \<and> n < length s then Some (n + 1) else None)"

definition normalizeSvg :: "string \<Rightarrow> string \<Rightarrow> string" where
  "normalizeSvg svg name =
     (let result = recolour 0 svg
      in if name = [] then result
         else
           (let named_svg = replace_match svg_word False (''<svg id='' @ [CHR 0x22] @ name @ [CHR 0x22]) [] result
            in replace_match svg_tag True (''$1<title>'' @ name @ ''</title>'') [] named_svg))"

section \<open>The menu of the logo\<close>

datatype site_effect =
    Toast string string string
  | ClipboardText string
  | DownloadText string string string
  | DownloadLink string string
  | OpenWindow string

text \<open>The browser: what an address is resolved to, what a request for it gives (the status and the
  text), and whether the clipboard takes a text. Any of the first two may throw.\<close>

record browser =
  br_href :: "string \<Rightarrow> jserr + string"
  br_fetch :: "string \<Rightarrow> jserr + bool \<times> (jserr + string)"
  br_clipboard :: "string \<Rightarrow> bool"

definition fetchSvgContent :: "browser \<Rightarrow> string \<Rightarrow> string \<Rightarrow> string option" where
  "fetchSvgContent b url name =
     (case br_href b url of
        Inl e \<Rightarrow> None
      | Inr absoluteUrl \<Rightarrow>
          (case br_fetch b absoluteUrl of
             Inl e \<Rightarrow> None
           | Inr (ok, text) \<Rightarrow>
               if \<not> ok then None
               else (case text of Inl e \<Rightarrow> None | Inr svg \<Rightarrow> Some (normalizeSvg svg name))))"

definition failure_toast :: "string \<Rightarrow> site_effect" where
  "failure_toast title = Toast title ''i-lucide-circle-x'' ''error''"

definition success_toast :: "string \<Rightarrow> string \<Rightarrow> site_effect" where
  "success_toast title icon = Toast title icon ''success''"

definition copy_image :: "browser \<Rightarrow> string \<Rightarrow> string \<Rightarrow> string \<Rightarrow> string \<Rightarrow> site_effect list" where
  "copy_image b url name copied broken =
     (if \<not> isSvgUrl url then []
      else
        (case fetchSvgContent b url name of
           Some (c # cs) \<Rightarrow>
             if br_clipboard b (c # cs) then [ClipboardText (c # cs), success_toast copied ''i-lucide-circle-check'']
             else [failure_toast broken]
         | _ \<Rightarrow> [failure_toast broken]))"

definition copyLogo :: "browser \<Rightarrow> (string \<Rightarrow> string) \<Rightarrow> string \<Rightarrow> header_config \<Rightarrow> site_effect list" where
  "copyLogo b t colorMode h =
     copy_image b (currentLogoUrl colorMode h) (named ''Logo'' h) (t ''logo.logoCopied'') (t ''logo.copyLogoFailed'')"

definition copyWordmark :: "browser \<Rightarrow> (string \<Rightarrow> string) \<Rightarrow> string \<Rightarrow> header_config \<Rightarrow> site_effect list" where
  "copyWordmark b t colorMode h =
     copy_image b (currentWordmarkUrl colorMode h) (named ''Wordmark'' h) (t ''logo.wordmarkCopied'') (t ''logo.copyWordmarkFailed'')"

definition download_image :: "browser \<Rightarrow> string \<Rightarrow> string \<Rightarrow> string \<Rightarrow> string \<Rightarrow> site_effect list" where
  "download_image b url name file downloaded =
     (if isSvgUrl url
      then (case fetchSvgContent b url name of
              Some (c # cs) \<Rightarrow>
                [DownloadText (c # cs) ''image/svg+xml'' (file @ ''.svg''), success_toast downloaded ''i-lucide-download'']
            | _ \<Rightarrow> [])
      else [DownloadLink url (file @ getExtension url), success_toast downloaded ''i-lucide-download''])"

definition downloadLogo :: "browser \<Rightarrow> (string \<Rightarrow> string) \<Rightarrow> string \<Rightarrow> header_config \<Rightarrow> site_effect list" where
  "downloadLogo b t colorMode h =
     download_image b (currentLogoUrl colorMode h) (named ''Logo'' h) (download_prefix h @ ''-logo'') (t ''logo.logoDownloaded'')"

definition downloadWordmark :: "browser \<Rightarrow> (string \<Rightarrow> string) \<Rightarrow> string \<Rightarrow> header_config \<Rightarrow> site_effect list" where
  "downloadWordmark b t colorMode h =
     download_image b (currentWordmarkUrl colorMode h) (named ''Wordmark'' h) (download_prefix h @ ''-wordmark'')
       (t ''logo.wordmarkDownloaded'')"

text \<open>An entry of the menu: its label, its icon and what selecting it does.\<close>

definition contextMenuItems ::
  "browser \<Rightarrow> (string \<Rightarrow> string) \<Rightarrow> string \<Rightarrow> header_config \<Rightarrow> (string \<times> string \<times> site_effect list) list list" where
  "contextMenuItems b t colorMode h =
     (let brandAssetsUrl = text_or_else [Option.bind (hc_logo h) lc_brandAssetsUrl] [];
          copyGroup =
            (if isSvgUrl (currentLogoUrl colorMode h)
             then [(t ''logo.copyLogo'', ''i-lucide-copy'', copyLogo b t colorMode h)] else []) @
            (if hasWordmark h \<and> isSvgUrl (currentWordmarkUrl colorMode h)
             then [(t ''logo.copyWordmark'', ''i-lucide-copy'', copyWordmark b t colorMode h)] else []);
          downloadGroup =
            [(t ''logo.downloadLogo'', ''i-lucide-download'', downloadLogo b t colorMode h)] @
            (if hasWordmark h
             then [(t ''logo.downloadWordmark'', ''i-lucide-download'', downloadWordmark b t colorMode h)] else [])
      in if \<not> hasLogo h then []
         else (if copyGroup = [] then [] else [copyGroup]) @ [downloadGroup] @
              (if brandAssetsUrl = [] then []
               else [[(t ''logo.brandAssets'', ''i-lucide-palette'', [OpenWindow brandAssetsUrl])]]))"

lemma truthy_iff [simp]: "truthy_text (Some a) \<longleftrightarrow> a \<noteq> []" "\<not> truthy_text None"
  by (simp_all add: truthy_text_def)

lemma text_or_else_simps [simp]:
  "text_or_else [] z = z"
  "text_or_else (a # as) z = (if truthy_text a then the a else text_or_else as z)"
  by (auto simp: text_or_else_def truthy_text_def split: option.split)

text \<open>There is an address exactly if there is an image, for any colour mode; the two headers agree with the
  current image unless the wordmark takes its place.\<close>

lemma logo_addresses:
  "currentLogoUrl m h \<noteq> [] \<longleftrightarrow> hasLogo h"
  "currentWordmarkUrl m h \<noteq> [] \<longleftrightarrow> hasWordmark h"
  by (auto simp: currentLogoUrl_def hasLogo_def currentWordmarkUrl_def hasWordmark_def light_first_def dark_first_def
      truthy_text_def split: option.splits)

lemma header_addresses:
  "displayMode h \<noteq> ''wordmark'' \<or> \<not> hasWordmark h \<Longrightarrow>
     headerLightUrl h = currentLogoUrl ''light'' h \<and> headerDarkUrl h = currentLogoUrl ''dark'' h"
  "displayMode h = ''wordmark'' \<Longrightarrow> hasWordmark h \<Longrightarrow>
     headerLightUrl h = currentWordmarkUrl ''light'' h \<and> headerDarkUrl h = currentWordmarkUrl ''dark'' h"
  by (auto simp: headerLightUrl_def headerDarkUrl_def currentLogoUrl_def currentWordmarkUrl_def hasWordmark_def wordmark_def
      light_first_def dark_first_def split: option.splits)

text \<open>Copying always tells how it ended, and a success is told exactly when the clipboard has the text. A
  download tells a success only; that the text cannot be fetched is told by nothing.\<close>

definition toasts :: "site_effect list \<Rightarrow> site_effect list" where
  "toasts es = filter (\<lambda>e. case e of Toast a b c \<Rightarrow> True | _ \<Rightarrow> False) es"

lemma copy_tells:
  assumes "isSvgUrl url"
  shows "length (toasts (copy_image b url name copied broken)) = 1 \<and>
    (success_toast copied ''i-lucide-circle-check'' \<in> set (copy_image b url name copied broken) \<longleftrightarrow>
     (\<exists>svg. ClipboardText svg \<in> set (copy_image b url name copied broken)))"
  using assms
  by (auto simp: copy_image_def toasts_def success_toast_def failure_toast_def split: option.split list.split)

lemma download_silent:
  "download_image b url name file downloaded = [] \<longleftrightarrow>
     isSvgUrl url \<and> (fetchSvgContent b url name = None \<or> fetchSvgContent b url name = Some [])"
  by (auto simp: download_image_def split: option.split list.split)

text \<open>The colours of an image become the current one, and the image gets the name as its id and title;
  but the name goes through the replacement patterns: a brand with a dollar sign may be shown as
  something else.\<close>

lemma normalised_image:
  "normalizeSvg (''<svg a><g '' @ fill_start @ ''#fff'' @ [CHR 0x22] @ ''></g></svg>'') ''Omni Logo'' =
     ''<svg id='' @ [CHR 0x22] @ ''Omni Logo'' @ [CHR 0x22] @ '' a><title>Omni Logo</title><g '' @ fill_start @ ''currentColor'' @
       [CHR 0x22] @ ''></g></svg>''"
  by code_simp

lemma name_is_a_pattern:
  "normalizeSvg ''<svg></svg>'' ''A$&'' =
     ''<svg id='' @ [CHR 0x22] @ ''A<svg'' @ [CHR 0x22] @ ''><title>A<svg id='' @ [CHR 0x22] @ ''A<svg'' @ [CHR 0x22] @
       ''></title></svg>''"
  by code_simp

section \<open>The flag of a language\<close>

definition language_country :: "(string \<times> string) list" where
  "language_country =
     [(''ar'', ''sa''), (''bn'', ''bd''), (''ca'', ''es''), (''ckb'', ''iq''), (''cs'', ''cz''), (''da'', ''dk''),
      (''el'', ''gr''), (''en'', ''gb''), (''et'', ''ee''), (''ig'', ''ng''), (''he'', ''il''), (''hi'', ''in''),
      (''hy'', ''am''), (''ja'', ''jp''), (''kk'', ''kz''), (''km'', ''kh''), (''ko'', ''kr''), (''ky'', ''kg''),
      (''lb'', ''lu''), (''ms'', ''my''), (''nb'', ''no''), (''sl'', ''si''), (''sv'', ''se''), (''uk'', ''ua''),
      (''ur'', ''pk''), (''vi'', ''vn''), (''es'', ''es''), (''id'', ''id'')]"

definition to_upper :: "char \<Rightarrow> char" where
  "to_upper c = (let n = (of_char c :: nat) in if 97 \<le> n \<and> n \<le> 122 then char_of (n - 32) else c)"

text \<open>\<open>locale.replace(/^.*-/, '')\<close> takes away all up to the last hyphen. The flag is given by its code
  points.\<close>

definition after_last_hyphen :: "string \<Rightarrow> string" where
  "after_last_hyphen s = rev (takeWhile (\<lambda>c. c \<noteq> CHR ''-'') (rev s))"

definition country_of :: "string \<Rightarrow> string" where
  "country_of locale =
     (let base = map to_lower (takeWhile (\<lambda>c. c \<noteq> CHR ''-'') locale);
          baseLanguage = (if base = [] then locale else base)
      in case map_of language_country baseLanguage of
           Some c \<Rightarrow> c | None \<Rightarrow> take 2 (after_last_hyphen locale))"

definition getEmojiFlag :: "string \<Rightarrow> nat list" where
  "getEmojiFlag locale = map (\<lambda>c. 0x1F1A5 + of_char c) (map to_upper (country_of locale))"

text \<open>The regional indicator symbols are the 26 code points from U+1F1E6 on.\<close>

definition indicator :: "nat \<Rightarrow> bool" where
  "indicator n \<longleftrightarrow> 0x1F1E6 \<le> n \<and> n \<le> 0x1F1FF"

lemma language_flags:
  "list_all (\<lambda>(l, c). length (getEmojiFlag l) = 2 \<and> list_all indicator (getEmojiFlag l)) language_country"
  by (simp add: language_country_def getEmojiFlag_def country_of_def to_lower_def to_upper_def indicator_def)

text \<open>The region of a locale counts only if its language is not in the table: American English is shown with
  the flag of Great Britain.\<close>

lemma region_is_ignored:
  "getEmojiFlag ''en-US'' = getEmojiFlag ''en-GB'' \<and> getEmojiFlag ''pt-BR'' \<noteq> getEmojiFlag ''pt-PT''"
  by (simp add: language_country_def getEmojiFlag_def country_of_def to_lower_def to_upper_def after_last_hyphen_def)

section \<open>The links of a page\<close>

text \<open>An entry has a label and an icon, and either does something or leads somewhere.\<close>

datatype link_action = CopyText string | CopyAndToast string string string | LeadsTo string "string option"

definition markdownLink :: "string \<Rightarrow> string \<Rightarrow> string \<Rightarrow> string" where
  "markdownLink origin appBaseURL path = origin @ appBaseURL @ ''raw'' @ path @ ''.md''"

definition page_links ::
  "(string \<Rightarrow> string) \<Rightarrow> (string \<Rightarrow> string) \<Rightarrow> string \<Rightarrow> string option \<Rightarrow> string \<Rightarrow> (string \<times> string \<times> link_action) list list" where
  "page_links t encodeURIComponent origin baseURL path =
     (let appBaseURL = text_or_else [baseURL] ''/'';
          link = markdownLink origin appBaseURL path;
          question = encodeURIComponent (''Read '' @ link @ '' so I can ask questions about it.'')
      in [[(t ''docs.copy.link'', ''i-lucide-link'', CopyText link),
           (t ''docs.copy.view'', ''i-simple-icons:markdown'', LeadsTo link (Some ''_blank'')),
           (t ''docs.copy.gpt'', ''i-simple-icons:openai'',
              LeadsTo (''https://chatgpt.com/?hints=search&q='' @ question) (Some ''_blank'')),
           (t ''docs.copy.claude'', ''i-simple-icons:anthropic'',
              LeadsTo (''https://claude.ai/new?q='' @ question) (Some ''_blank''))],
          [(''Copy MCP Server URL'', ''i-lucide-link'',
              CopyAndToast (origin @ appBaseURL @ ''mcp'') ''Copied to clipboard'' ''i-lucide-check-circle''),
           (''Add MCP Server'', ''i-simple-icons:cursor'', LeadsTo ''/mcp/deeplink'' (Some ''_blank''))]])"

definition copyPage :: "(string \<Rightarrow> jserr + string) \<Rightarrow> string \<Rightarrow> jserr + site_effect" where
  "copyPage fetch path = map_sum id ClipboardText (fetch (''/raw'' @ path @ ''.md''))"

text \<open>The button fetches the address of the link only when the application is at the root of its host.\<close>

lemma copied_page_is_linked:
  "markdownLink [] (text_or_else [baseURL] ''/'') path = ''/raw'' @ path @ ''.md'' \<longleftrightarrow>
     text_or_else [baseURL] ''/'' = ''/''"
  by (auto simp: markdownLink_def)

section \<open>The start of the application\<close>

definition ui_locale :: "(string \<times> 'l) list \<Rightarrow> 'l \<Rightarrow> string \<Rightarrow> 'l" where
  "ui_locale nuxtUiLocales en locale = (case map_of nuxtUiLocales locale of Some l \<Rightarrow> l | None \<Rightarrow> en)"

definition app_collection :: "bool \<Rightarrow> string \<Rightarrow> string" where
  "app_collection isEnabled locale = (if isEnabled then ''docs_'' @ locale else ''docs'')"

text \<open>The redirection when the application is mounted: \<open>None\<close> stays.\<close>

definition second_part :: "string \<Rightarrow> string option" where
  "second_part path = (case split_on CHR ''/'' path of _ # s # _ \<Rightarrow> Some s | _ \<Rightarrow> None)"

definition app_redirect :: "bool \<Rightarrow> string list \<Rightarrow> string \<Rightarrow> (string \<Rightarrow> string) \<Rightarrow> string \<Rightarrow> string option" where
  "app_redirect isEnabled codes defaultLocale switchLocalePath path =
     (if isEnabled \<and> second_part path \<notin> Some ` set codes then Some (switchLocalePath defaultLocale) else None)"

text \<open>If the path of the default locale begins with its code, the redirected page is not redirected again.\<close>

lemma redirected_once:
  assumes "defaultLocale \<in> set codes" and "second_part (switchLocalePath defaultLocale) = Some defaultLocale"
    and "app_redirect isEnabled codes defaultLocale switchLocalePath path = Some path1"
  shows "app_redirect isEnabled codes defaultLocale switchLocalePath path1 = None"
  using assms by (auto simp: app_redirect_def split: if_splits)

text \<open>The collection asked for is declared only under a locale without hyphens.\<close>

lemma hyphen_collection_missing: "app_collection True ''pt-BR'' \<noteq> ''docs_'' @ locale_key (LocaleCode ''pt-BR'')"
  by code_simp

end
