(* ===== verification/Reentrant.thy ===== *)
theory Reentrant
  imports Bus
begin

text \<open>
  The kernel bus with handlers that use it (kernel/bus.ts): a handler may subscribe handlers and emit
  events while an event is delivered. The array \<open>emit\<close> goes through is the one \<open>subscribe\<close> pushes to,
  so a delivery sees what is subscribed while it runs.

  A handler is known by a name, and \<open>code\<close> gives the program it runs on an event: steps on its own
  environment, subscriptions, emissions, and at its end a return or a throw. A delivery is a machine
  with a stack of frames, the loops of \<open>emit\<close> and the programs of handlers. It need not end;
  \<open>run_frames\<close> is a partial function, and \<open>runs\<close> its graph as a relation.
\<close>

section \<open>Handlers and deliveries\<close>

datatype ('h, 'e) prog =
    Return
  | Raise jserr
  | Local "'e \<Rightarrow> 'e" "'e \<Rightarrow> ('h, 'e) prog"
  | SubscribeTo string 'h "('h, 'e) prog"
  | EmitEvent kernel_event "('h, 'e) prog"

type_synonym ('h, 'e) handler_code = "'h \<Rightarrow> kernel_event \<Rightarrow> ('h, 'e) prog"

text \<open>The calls made so far are kept with the number of the delivery that made them.\<close>

record ('h, 'e) bus_state =
  bs_table :: "(string, 'h list) jsmap"
  bs_env :: 'e
  bs_calls :: "(nat \<times> 'h) list"
  bs_next :: nat

definition push_handler :: "string \<Rightarrow> 'h \<Rightarrow> (string, 'h list) jsmap \<Rightarrow> (string, 'h list) jsmap" where
  "push_handler k h t =
     (let t1 = (if \<not> map_has t k then AList.update k [] t else t)
      in AList.update k (map_get_or [] t1 k @ [h]) t1)"

abbreviation listening :: "('h, 'e) bus_state \<Rightarrow> string \<Rightarrow> 'h list" where
  "listening s k \<equiv> map_get_or [] (bs_table s) k"

text \<open>A loop over the handlers of the kind, or over the wildcard handlers, with the next index; and what is
  left of the program of a handler.\<close>

datatype ('h, 'e) frame = Deliver nat kernel_event bool nat | Code "('h, 'e) prog"

definition topic :: "kernel_event \<Rightarrow> bool \<Rightarrow> string" where
  "topic ev wild = (if wild then ''*'' else event_kind ev)"

definition begin_delivery :: "kernel_event \<Rightarrow> ('h, 'e) bus_state \<Rightarrow> ('h, 'e) frame \<times> ('h, 'e) bus_state" where
  "begin_delivery ev s = (Deliver (bs_next s) ev False 0, s\<lparr>bs_next := Suc (bs_next s)\<rparr>)"

fun frame_step ::
  "('h, 'e) handler_code \<Rightarrow> ('h, 'e) frame \<Rightarrow> ('h, 'e) bus_state \<Rightarrow> jserr + ('h, 'e) frame list \<times> ('h, 'e) bus_state" where
  "frame_step code (Deliver d ev wild i) s =
     (let hs = listening s (topic ev wild)
      in if i < length hs
         then Inr ([Code (code (hs ! i) ev), Deliver d ev wild (Suc i)], s\<lparr>bs_calls := bs_calls s @ [(d, hs ! i)]\<rparr>)
         else if wild then Inr ([], s) else Inr ([Deliver d ev True 0], s))"
| "frame_step code (Code Return) s = Inr ([], s)"
| "frame_step code (Code (Raise x)) s = Inl x"
| "frame_step code (Code (Local f p)) s = Inr ([Code (p (bs_env s))], s\<lparr>bs_env := f (bs_env s)\<rparr>)"
| "frame_step code (Code (SubscribeTo k h p)) s = Inr ([Code p], s\<lparr>bs_table := push_handler k h (bs_table s)\<rparr>)"
| "frame_step code (Code (EmitEvent ev p)) s =
     (let (f, s1) = begin_delivery ev s in Inr ([f, Code p], s1))"

text \<open>A throw goes through all the frames: nothing in \<open>emit\<close> catches it.\<close>

partial_function (option) run_frames ::
  "('h, 'e) handler_code \<Rightarrow> ('h, 'e) frame list \<Rightarrow> ('h, 'e) bus_state \<Rightarrow> (('h, 'e) bus_state, unit) outcome option" where
  "run_frames code fs s =
     (case fs of
        [] \<Rightarrow> Some (s, Inr ())
      | f # rest \<Rightarrow>
          (case frame_step code f s of
             Inl x \<Rightarrow> Some (s, Inl x)
           | Inr (gs, s1) \<Rightarrow> run_frames code (gs @ rest) s1))"

declare run_frames.simps [code]

definition live_emit ::
  "('h, 'e) handler_code \<Rightarrow> kernel_event \<Rightarrow> ('h, 'e) bus_state \<Rightarrow> (('h, 'e) bus_state, unit) outcome option" where
  "live_emit code ev s = (let (f, s1) = begin_delivery ev s in run_frames code [f] s1)"

inductive runs ::
  "('h, 'e) handler_code \<Rightarrow> ('h, 'e) frame list \<Rightarrow> ('h, 'e) bus_state \<Rightarrow> (('h, 'e) bus_state, unit) outcome \<Rightarrow> bool"
  for code where
  runs_done: "runs code [] s (s, Inr ())"
| runs_throw: "frame_step code f s = Inl x \<Longrightarrow> runs code (f # fs) s (s, Inl x)"
| runs_step: "frame_step code f s = Inr (gs, s1) \<Longrightarrow> runs code (gs @ fs) s1 r \<Longrightarrow> runs code (f # fs) s r"

inductive_cases runs_nilE [elim!]: "runs code [] s r"
inductive_cases runs_consE: "runs code (f # fs) s r"

lemma runs_cons:
  "runs code (f # fs) s r \<longleftrightarrow>
     (case frame_step code f s of Inl x \<Rightarrow> r = (s, Inl x) | Inr (gs, s1) \<Rightarrow> runs code (gs @ fs) s1 r)"
  by (auto elim: runs_consE intro: runs.intros split: sum.split)

lemma runs_nil [simp]: "runs code [] s r \<longleftrightarrow> r = (s, Inr ())"
  by (auto intro: runs.intros)

lemma run_frames_runs: "run_frames code fs s = Some r \<longleftrightarrow> runs code fs s r"
proof
  show "run_frames code fs s = Some r \<Longrightarrow> runs code fs s r"
    by (induction rule: run_frames.raw_induct [rotated, consumes 1, case_names step])
      (auto split: list.splits sum.splits intro: runs.intros)
  show "runs code fs s r \<Longrightarrow> run_frames code fs s = Some r"
    by (induction rule: runs.induct) (subst run_frames.simps; simp)+
qed

lemma runs_deterministic: "runs code fs s r \<Longrightarrow> runs code fs s r' \<Longrightarrow> r = r'"
  by (simp add: run_frames_runs [symmetric])

text \<open>The frames on top run to their end first: an event emitted by a handler is delivered to all its
  handlers before the handler goes on, and before the handlers still to come get the first event.\<close>

lemma runs_appendI:
  "runs code fs s (s1, Inr u) \<Longrightarrow> runs code gs s1 r \<Longrightarrow> runs code (fs @ gs) s r"
  by (induction fs s "(s1, Inr u :: jserr + unit)" rule: runs.induct) (auto intro: runs.intros)

lemma runs_append_throw: "runs code fs s (s1, Inl x) \<Longrightarrow> runs code (fs @ gs) s (s1, Inl x)"
  by (induction fs s "(s1, Inl x :: jserr + unit)" rule: runs.induct) (auto intro: runs.intros)

lemma runs_appendE:
  assumes "runs code (fs @ gs) s r"
  obtains s1 where "runs code fs s (s1, Inr ())" "runs code gs s1 r"
  | s1 x where "runs code fs s (s1, Inl x)" "r = (s1, Inl x)"
proof -
  have "(\<exists>s1. runs code fs s (s1, Inr ()) \<and> runs code gs s1 r) \<or> (\<exists>s1 x. runs code fs s (s1, Inl x) \<and> r = (s1, Inl x))"
    using assms
  proof (induction "fs @ gs" s r arbitrary: fs rule: runs.induct)
    case (runs_step f s hs s1 rest r)
    show ?case
    proof (cases fs)
      case Nil
      then show ?thesis using runs_step by (auto intro: runs.intros)
    next
      case (Cons f' fs')
      then show ?thesis using runs_step.hyps runs_step.hyps(3) [of "hs @ fs'"] by (auto intro: runs.intros)
    qed
  next
    case (runs_throw f s x rest)
    then show ?case by (cases fs) (auto intro: runs.intros)
  qed auto
  then show thesis using that by blast
qed

section \<open>A delivery sees what is subscribed while it runs\<close>

definition called :: "nat \<Rightarrow> ('h, 'e) bus_state \<Rightarrow> 'h list" where
  "called d s = map snd (filter (\<lambda>c. fst c = d) (bs_calls s))"

lemma called_table [simp]: "called d (s\<lparr>bs_table := t\<rparr>) = called d s"
  and called_env [simp]: "called d (s\<lparr>bs_env := e\<rparr>) = called d s"
  and called_next [simp]: "called d (s\<lparr>bs_next := n\<rparr>) = called d s"
  and called_calls [simp]:
    "called d (s\<lparr>bs_calls := bs_calls s @ [(d', h)]\<rparr>) = called d s @ (if d = d' then [h] else [])"
  by (simp_all add: called_def)

lemma push_handler_get [simp]:
  "map_get_or [] (push_handler k h t) k' = map_get_or [] t k' @ (if k = k' then [h] else [])"
  by (auto simp: push_handler_def Let_def map_get_or_def map_has_def split: option.split)

lemma topic_simps [simp]: "topic ev True = ''*''" "topic ev False = event_kind ev"
  by (simp_all add: topic_def)

primrec delivers :: "nat \<Rightarrow> ('h, 'e) frame \<Rightarrow> bool" where
  "delivers d (Deliver d' ev w i) = (d = d')"
| "delivers d (Code p) = False"

lemma frame_step_grows:
  assumes "frame_step code f s = Inr (gs, s1)"
  shows "prefix (listening s k) (listening s1 k)" and "bs_next s \<le> bs_next s1"
  using assms by (induction code f s rule: frame_step.induct)
    (auto simp: Let_def begin_delivery_def split: if_splits)

text \<open>Frames that are not of the delivery \<open>d\<close> make no calls of it, and start deliveries with new numbers.\<close>

lemma frame_step_foreign:
  assumes "frame_step code f s = Inr (gs, s1)" "\<not> delivers d f" "d < bs_next s"
  shows "called d s1 = called d s" and "\<not> (\<exists>g \<in> set gs. delivers d g)"
  using assms by (induction code f s rule: frame_step.induct)
    (auto simp: Let_def begin_delivery_def split: if_splits)

lemma runs_grows: "runs code fs s r \<Longrightarrow> prefix (listening s k) (listening (fst r) k)"
  by (induction rule: runs.induct) (auto dest!: frame_step_grows(1) [of _ _ _ _ _ k] intro: prefix_order.trans)

lemma delivery_from:
  assumes "runs code (fs @ [Deliver d ev w i]) s (s1, Inr ())"
    and "\<not> (\<exists>g \<in> set fs. delivers d g)" "d < bs_next s"
    and "i \<le> length (listening s (topic ev w))" "called d s = xs @ take i (listening s (topic ev w))"
  shows "\<exists>mid. prefix (listening s (topic ev w)) mid \<and> prefix mid (listening s1 (topic ev w)) \<and>
     called d s1 = xs @ mid @ (if w then [] else listening s1 ''*'') \<and> (w \<longrightarrow> mid = listening s1 ''*'')"
  using assms
proof (induction "fs @ [Deliver d ev w i]" s "(s1, Inr () :: jserr + unit)" arbitrary: fs w i xs rule: runs.induct)
  case (runs_step f s gs s2 rest)
  show ?case
  proof (cases fs)
    case (Cons g fs')
    then have f: "f = g" "rest = fs' @ [Deliver d ev w i]" using runs_step.hyps(4) by auto
    have grown: "prefix (listening s (topic ev w)) (listening s2 (topic ev w))"
      using frame_step_grows(1) [OF runs_step.hyps(1)] .
    then have kept: "take i (listening s2 (topic ev w)) = take i (listening s (topic ev w))"
      "i \<le> length (listening s2 (topic ev w))"
      using runs_step.prems(3) by (auto simp: prefix_def)
    have foreign: "called d s2 = called d s" "\<not> (\<exists>h \<in> set gs. delivers d h)" "d < bs_next s2"
      using frame_step_foreign [OF runs_step.hyps(1)] frame_step_grows(2) [OF runs_step.hyps(1)]
        runs_step.prems Cons f by fastforce+
    have quiet: "\<not> (\<exists>h \<in> set (gs @ fs'). delivers d h)" using foreign(2) runs_step.prems(1) Cons by auto
    have "called d s2 = xs @ take i (listening s2 (topic ev w))" using foreign(1) kept(1) runs_step.prems(4) by simp
    from runs_step.hyps(3) [OF _ quiet foreign(3) kept(2) this] show ?thesis
      using f(2) grown by (auto intro: prefix_order.trans)
  next
    case Nil
    then have f: "f = Deliver d ev w i" "rest = []" using runs_step.hyps(4) by auto
    let ?hs = "listening s (topic ev w)"
    show ?thesis
    proof (cases "i < length ?hs")
      case True
      then have s: "gs = [Code (code (?hs ! i) ev)] @ [Deliver d ev w (Suc i)]"
        "s2 = s\<lparr>bs_calls := bs_calls s @ [(d, ?hs ! i)]\<rparr>"
        using runs_step.hyps(1) f by (auto simp: Let_def)
      show ?thesis
        using runs_step.hyps(3) [of "[Code (code (?hs ! i) ev)]" w "Suc i" xs] s f runs_step.prems True
        by (simp add: take_Suc_conv_app_nth)
    next
      case False
      then have all: "called d s = xs @ ?hs" using runs_step.prems by simp
      show ?thesis
      proof (cases w)
        case True
        then show ?thesis using runs_step.hyps(1,2) f False all by (auto simp: Let_def)
      next
        case kind: False
        then have "gs = [Deliver d ev True 0]" "s2 = s" using runs_step.hyps(1) f False by (auto simp: Let_def)
        moreover have "prefix ?hs (listening s1 (topic ev w))"
          using runs_grows [OF runs_step.hyps(2)] \<open>s2 = s\<close> by simp
        ultimately show ?thesis
          using runs_step.hyps(3) [of "[]" True 0 "xs @ ?hs"] f all kind runs_step.prems
          by (auto intro!: exI [of _ ?hs])
      qed
    qed
  qed
qed auto

definition calls_numbered :: "('h, 'e) bus_state \<Rightarrow> bool" where
  "calls_numbered s = (\<forall>c \<in> set (bs_calls s). fst c < bs_next s)"

lemma live_emit_runs:
  "live_emit code ev s = Some r \<longleftrightarrow>
     runs code [Deliver (bs_next s) ev False 0] (s\<lparr>bs_next := Suc (bs_next s)\<rparr>) r"
  by (simp add: live_emit_def begin_delivery_def run_frames_runs)

text \<open>C11: When an emission returns, the handlers it called are the handlers of the kind and then the
  wildcard handlers, where the wildcard handlers are all those subscribed at its return, and the
  handlers of the kind are at least those subscribed when it began and a prefix of those subscribed at
  its return: what is subscribed for the kind while its handlers are called is called too.
\<close>

theorem delivery_is_live:
  assumes "live_emit code ev s = Some (s1, Inr ())" "calls_numbered s"
  shows "\<exists>mid. called (bs_next s) s1 = mid @ listening s1 ''*'' \<and>
     prefix (listening s (event_kind ev)) mid \<and> prefix mid (listening s1 (event_kind ev))"
proof -
  have "called (bs_next s) s = []" using assms(2) by (auto simp: called_def calls_numbered_def filter_empty_conv)
  moreover have "runs code ([] @ [Deliver (bs_next s) ev False 0]) (s\<lparr>bs_next := Suc (bs_next s)\<rparr>) (s1, Inr ())"
    using assms(1) by (simp add: live_emit_runs)
  ultimately show ?thesis using delivery_from [of code "[]" "bs_next s" ev False 0 _ s1 "[]"] by force
qed

section \<open>Deliveries are nested\<close>

lemma calls_numbered_simps [simp]:
  "calls_numbered (s\<lparr>bs_table := t\<rparr>) = calls_numbered s" "calls_numbered (s\<lparr>bs_env := e\<rparr>) = calls_numbered s"
  "calls_numbered s \<Longrightarrow> calls_numbered (s\<lparr>bs_next := Suc (bs_next s)\<rparr>)"
  "calls_numbered s \<Longrightarrow> d < bs_next s \<Longrightarrow> calls_numbered (s\<lparr>bs_calls := bs_calls s @ [(d, h)]\<rparr>)"
  by (auto simp: calls_numbered_def less_Suc_eq)

text \<open>Between two calls of one delivery there are only calls of it and of deliveries begun later.\<close>

definition nested :: "nat list \<Rightarrow> bool" where
  "nested ds = (\<forall>xs d ys zs. ds = xs @ d # ys @ d # zs \<longrightarrow> (\<forall>d' \<in> set ys. d \<le> d'))"

definition since :: "nat list \<Rightarrow> nat \<Rightarrow> bool" where
  "since ds d = (\<forall>xs ys. ds = xs @ d # ys \<longrightarrow> (\<forall>d' \<in> set ys. d \<le> d'))"

lemma nested_snoc: "nested (ds @ [d]) \<longleftrightarrow> nested ds \<and> since ds d"
proof
  assume n: "nested (ds @ [d])"
  have "\<forall>d' \<in> set ys. e \<le> d'" if "ds = xs @ e # ys @ e # zs" for xs e ys zs
    using n [unfolded nested_def, rule_format, of xs e ys "zs @ [d]"] that by simp
  moreover have "\<forall>d' \<in> set ys. d \<le> d'" if "ds = xs @ d # ys" for xs ys
    using n [unfolded nested_def, rule_format, of xs d ys "[]"] that by simp
  ultimately show "nested ds \<and> since ds d" by (simp add: nested_def since_def)
next
  assume n: "nested ds \<and> since ds d"
  have "\<forall>d' \<in> set ys. e \<le> d'" if "ds @ [d] = xs @ e # ys @ e # zs" for xs e ys zs
    using n that by (cases zs rule: rev_cases) (auto simp: nested_def since_def)
  then show "nested (ds @ [d])" by (simp add: nested_def)
qed

lemma since_snoc: "since ds d \<Longrightarrow> d \<le> e \<Longrightarrow> since (ds @ [e]) d"
proof -
  assume d: "since ds d" "d \<le> e"
  have "ds @ [e] = xs @ d # ys \<Longrightarrow> \<forall>d' \<in> set ys. d \<le> d'" for xs ys
    using d by (cases ys rule: rev_cases) (auto simp: since_def)
  then show ?thesis by (simp add: since_def)
qed

lemma since_new: "calls_numbered s \<Longrightarrow> since (map fst (bs_calls s)) (bs_next s)"
proof -
  assume "calls_numbered s"
  then have "bs_next s \<notin> set (map fst (bs_calls s))" by (auto simp: calls_numbered_def)
  moreover have "d \<notin> set ds \<Longrightarrow> since ds d" for ds d by (auto simp: since_def)
  ultimately show ?thesis by blast
qed

fun frame_delivery :: "('h, 'e) frame \<Rightarrow> nat list" where
  "frame_delivery (Deliver d ev w i) = [d]"
| "frame_delivery (Code p) = []"

abbreviation active :: "('h, 'e) frame list \<Rightarrow> nat list" where
  "active fs \<equiv> concat (map frame_delivery fs)"

definition in_order :: "('h, 'e) frame list \<Rightarrow> ('h, 'e) bus_state \<Rightarrow> bool" where
  "in_order fs s \<longleftrightarrow> calls_numbered s \<and> nested (map fst (bs_calls s)) \<and> sorted_wrt (>) (active fs) \<and>
     (\<forall>d \<in> set (active fs). d < bs_next s \<and> since (map fst (bs_calls s)) d)"

lemma frame_step_in_order:
  assumes "frame_step code f s = Inr (gs, s1)" "in_order (f # fs) s"
  shows "in_order (gs @ fs) s1"
  using assms
proof (induction code f s rule: frame_step.induct)
  case (1 code d ev wild i s)
  then show ?case
    by (auto simp: in_order_def Let_def nested_snoc since_snoc less_imp_le split: if_splits)
next
  case (6 code ev p s)
  then show ?case by (auto simp: in_order_def begin_delivery_def less_Suc_eq since_new)
qed (auto simp: in_order_def)

lemma runs_in_order: "runs code fs s r \<Longrightarrow> in_order fs s \<Longrightarrow> calls_numbered (fst r) \<and> nested (map fst (bs_calls (fst r)))"
  by (induction rule: runs.induct) (auto simp: in_order_def dest: frame_step_in_order)

text \<open>C12: However handlers emit, deliveries are nested: between two calls made by one delivery only
  deliveries begun after it make calls. This holds whether the emission returns or throws.
\<close>

theorem deliveries_nest:
  assumes "live_emit code ev s = Some (s1, r)" "calls_numbered s" "nested (map fst (bs_calls s))"
  shows "calls_numbered s1 \<and> nested (map fst (bs_calls s1))"
proof -
  have "in_order [Deliver (bs_next s) ev False 0] (s\<lparr>bs_next := Suc (bs_next s)\<rparr>)"
    using assms(2,3) by (simp add: in_order_def since_new)
  then show ?thesis using assms(1) runs_in_order by (fastforce simp: live_emit_runs)
qed

section \<open>Emissions that end\<close>

text \<open>
  With a rank of the topics, a handler of an event is tame if it emits and subscribes only below the
  rank of the event, and subscribes no wildcard handlers.
\<close>

primrec tame :: "(string \<Rightarrow> nat) \<Rightarrow> nat \<Rightarrow> ('h, 'e) prog \<Rightarrow> bool" where
  "tame rank n Return = True"
| "tame rank n (Raise x) = True"
| "tame rank n (Local f p) = (\<forall>e. tame rank n (p e))"
| "tame rank n (SubscribeTo k h p) = (k \<noteq> ''*'' \<and> rank k < n \<and> tame rank n p)"
| "tame rank n (EmitEvent ev p) = (rank (event_kind ev) < n \<and> tame rank n p)"

definition fixed_above :: "(string \<Rightarrow> nat) \<Rightarrow> nat \<Rightarrow> ('h, 'e) bus_state \<Rightarrow> ('h, 'e) bus_state \<Rightarrow> bool" where
  "fixed_above rank n s s1 = (\<forall>k. k = ''*'' \<or> n \<le> rank k \<longrightarrow> listening s1 k = listening s k)"

lemma fixed_above_simps [simp]:
  "fixed_above rank n s s"
  "fixed_above rank n s (s1\<lparr>bs_env := e\<rparr>) = fixed_above rank n s s1"
  "fixed_above rank n s (s1\<lparr>bs_calls := c\<rparr>) = fixed_above rank n s s1"
  "fixed_above rank n s (s1\<lparr>bs_next := d\<rparr>) = fixed_above rank n s s1"
  "fixed_above rank n (s\<lparr>bs_env := e\<rparr>) s1 = fixed_above rank n s s1"
  "fixed_above rank n (s\<lparr>bs_calls := c\<rparr>) s1 = fixed_above rank n s s1"
  "fixed_above rank n (s\<lparr>bs_next := d\<rparr>) s1 = fixed_above rank n s s1"
  by (simp_all add: fixed_above_def)

lemma fixed_above_trans: "fixed_above rank n s s1 \<Longrightarrow> fixed_above rank n s1 s2 \<Longrightarrow> fixed_above rank n s s2"
  by (simp add: fixed_above_def)

definition ends :: "('h, 'e) handler_code \<Rightarrow> (string \<Rightarrow> nat) \<Rightarrow> nat \<Rightarrow> ('h, 'e) frame list \<Rightarrow> ('h, 'e) bus_state \<Rightarrow> bool" where
  "ends code rank n fs s = (\<exists>s1 u. runs code fs s (s1, u) \<and> fixed_above rank n s s1)"

lemma ends_append:
  assumes "ends code rank n fs s" "\<And>s1. fixed_above rank n s s1 \<Longrightarrow> ends code rank n gs s1"
  shows "ends code rank n (fs @ gs) s"
proof -
  obtain s1 u where s1: "runs code fs s (s1, u)" "fixed_above rank n s s1"
    using assms(1) by (auto simp: ends_def)
  show ?thesis
  proof (cases u)
    case (Inl x)
    then show ?thesis using s1 runs_append_throw [of code fs s s1 x gs] by (auto simp: ends_def)
  next
    case (Inr v)
    then show ?thesis using s1 assms(2) [OF s1(2)] runs_appendI
      by (fastforce simp: ends_def intro: fixed_above_trans)
  qed
qed

lemma ends_step:
  "frame_step code f s = Inr (gs, s1) \<Longrightarrow> fixed_above rank n s s1 \<Longrightarrow> ends code rank n (gs @ fs) s1 \<Longrightarrow>
   ends code rank n (f # fs) s"
  by (auto simp: ends_def runs_cons split_paired_Ex intro: fixed_above_trans)

lemma ends_mono: "ends code rank m fs s \<Longrightarrow> m \<le> n \<Longrightarrow> ends code rank n fs s"
  unfolding ends_def fixed_above_def by (meson order_trans)

lemma ends_nil: "ends code rank n [] s"
  by (simp add: ends_def)

lemma tame_prog_ends:
  assumes deliver: "\<And>d ev s. rank (event_kind ev) < n \<Longrightarrow>
      ends code rank (rank (event_kind ev)) [Deliver d ev False 0] s"
  shows "tame rank n p \<Longrightarrow> ends code rank n [Code p] s"
proof (induction p arbitrary: s)
  case (Raise x)
  then show ?case by (auto simp: ends_def runs_cons)
next
  case (SubscribeTo k h p)
  then show ?case by (intro ends_step [of _ _ _ "[Code p]"]) (auto simp: fixed_above_def)
next
  case (EmitEvent ev p s)
  let ?s = "s\<lparr>bs_next := Suc (bs_next s)\<rparr>"
  have "ends code rank n [Deliver (bs_next s) ev False 0] ?s"
    using ends_mono [OF deliver] EmitEvent.prems by simp
  then have rest: "ends code rank n ([Deliver (bs_next s) ev False 0] @ [Code p]) ?s"
    using EmitEvent by (intro ends_append) auto
  show ?case
    by (rule ends_step [where gs = "[Deliver (bs_next s) ev False 0, Code p]" and ?s1.0 = ?s])
      (use rest in \<open>simp_all add: begin_delivery_def\<close>)
qed (auto intro!: ends_step ends_nil)

lemma tame_deliver_ends:
  assumes handlers: "\<And>h s. ends code rank n [Code (code h ev)] s"
    and len: "length (listening s (topic ev w)) - i = m" and high: "w \<or> n \<le> rank (event_kind ev)"
    and wildcards: "\<And>s1. \<not> w \<Longrightarrow> ends code rank n [Deliver d ev True 0] s1"
  shows "ends code rank n [Deliver d ev w i] s"
  using len
proof (induction m arbitrary: i s)
  case 0
  then show ?case using wildcards by (auto intro!: ends_step [of _ _ _ "if w then [] else [Deliver d ev True 0]"] ends_nil simp: Let_def)
next
  case (Suc m)
  let ?h = "listening s (topic ev w) ! i" let ?s = "s\<lparr>bs_calls := bs_calls s @ [(d, listening s (topic ev w) ! i)]\<rparr>"
  have "ends code rank n ([Code (code ?h ev)] @ [Deliver d ev w (Suc i)]) ?s"
  proof (rule ends_append)
    show "ends code rank n [Code (code ?h ev)] ?s" by (rule handlers)
    fix s1 assume "fixed_above rank n ?s s1"
    then have "listening s1 (topic ev w) = listening s (topic ev w)" using high by (auto simp: fixed_above_def topic_def)
    then show "ends code rank n [Deliver d ev w (Suc i)] s1" using Suc by simp
  qed
  then show ?case using Suc.prems by (intro ends_step [of _ _ _ "[Code (code ?h ev), Deliver d ev w (Suc i)]" ?s]) (auto simp: Let_def)
qed

lemma delivery_ends:
  assumes tame: "\<And>h ev. tame rank (rank (event_kind ev)) (code h ev)"
  shows "ends code rank (rank (event_kind ev)) [Deliver d ev False 0] s"
proof (induction "rank (event_kind ev)" arbitrary: d ev s rule: less_induct)
  case less
  have handlers: "ends code rank (rank (event_kind ev)) [Code (code h ev)] s1" for h s1
    by (rule tame_prog_ends [OF less tame])
  have "ends code rank (rank (event_kind ev)) [Deliver d ev True 0] s1" for s1
    by (rule tame_deliver_ends [OF handlers refl]) simp_all
  then show ?case by (rule tame_deliver_ends [OF handlers refl disjI2 [OF order_refl]])
qed

text \<open>C13: If every handler is tame for some rank of the topics, every emission ends, whatever the table of
  subscriptions, and leaves the subscriptions of the wildcard and of all topics not below the event.
\<close>

theorem tame_emission_ends:
  assumes "\<And>h ev. tame rank (rank (event_kind ev)) (code h ev)"
  shows "\<exists>s1 u. live_emit code ev s = Some (s1, u) \<and>
     (\<forall>k. k = ''*'' \<or> rank (event_kind ev) \<le> rank k \<longrightarrow> listening s1 k = listening s k)"
proof -
  have "ends code rank (rank (event_kind ev)) [Deliver (bs_next s) ev False 0] (s\<lparr>bs_next := Suc (bs_next s)\<rparr>)"
    by (rule delivery_ends) (rule assms)
  then show ?thesis by (auto simp: ends_def live_emit_runs fixed_above_def)
qed

section \<open>Emissions that do not return\<close>

lemma resubscription_diverges:
  assumes "runs code (fs @ [Deliver d ev False i]) s (s1, Inr ())"
    and again: "\<And>h. \<exists>h' p. code h ev = SubscribeTo (event_kind ev) h' p"
    and "i < length (listening s (event_kind ev)) \<or>
      i \<le> length (listening s (event_kind ev)) \<and> (\<exists>h p fs'. fs = Code (SubscribeTo (event_kind ev) h p) # fs')"
  shows False
  using assms(1,3)
proof (induction "fs @ [Deliver d ev False i]" s "(s1, Inr () :: jserr + unit)" arbitrary: fs i rule: runs.induct)
  case (runs_step f s gs s2 rest)
  have grown: "prefix (listening s (event_kind ev)) (listening s2 (event_kind ev))"
    by (rule frame_step_grows(1) [OF runs_step.hyps(1)])
  show ?case
  proof (cases fs)
    case Nil
    then have f: "f = Deliver d ev False i" "rest = []" "i < length (listening s (event_kind ev))"
      using runs_step.hyps(4) runs_step.prems by auto
    obtain h' p where h: "code (listening s (event_kind ev) ! i) ev = SubscribeTo (event_kind ev) h' p"
      using again by blast
    have "gs = [Code (SubscribeTo (event_kind ev) h' p)] @ [Deliver d ev False (Suc i)]"
      using runs_step.hyps(1) f h by (auto simp: Let_def)
    then show False
      using runs_step.hyps(3) [of "[Code (SubscribeTo (event_kind ev) h' p)]" "Suc i"] f prefix_length_le [OF grown]
      by auto
  next
    case (Cons g fs')
    then have f: "f = g" "rest = fs' @ [Deliver d ev False i]" using runs_step.hyps(4) by auto
    have "i < length (listening s2 (event_kind ev))"
      using runs_step.prems prefix_length_le [OF grown] runs_step.hyps(1) f Cons by auto
    then show False using runs_step.hyps(3) [of "gs @ fs'" i] f by simp
  qed
qed auto

text \<open>If every handler of a kind subscribes another handler for that kind, an event of the kind that
  has a handler is never delivered to its end: the emission does not return.
\<close>

theorem resubscription_never_returns:
  assumes "\<And>h. \<exists>h' p. code h ev = SubscribeTo (event_kind ev) h' p" "listening s (event_kind ev) \<noteq> []"
  shows "live_emit code ev s \<noteq> Some (s1, Inr ())"
  using resubscription_diverges [of code "[]" "bs_next s" ev 0 _ s1, OF _ assms(1)] assms(2)
  by (force simp: live_emit_runs)

section \<open>Handlers that leave the bus alone\<close>

primrec effect :: "('h, 'e) prog \<Rightarrow> 'e \<Rightarrow> ('e, unit) outcome" where
  "effect Return e = (e, Inr ())"
| "effect (Raise x) e = (e, Inl x)"
| "effect (Local f p) e = effect (p e) (f e)"
| "effect (SubscribeTo k h p) e = effect p e"
| "effect (EmitEvent ev p) e = effect p e"

primrec leaves_bus :: "('h, 'e) prog \<Rightarrow> bool" where
  "leaves_bus Return = True"
| "leaves_bus (Raise x) = True"
| "leaves_bus (Local f p) = (\<forall>e. leaves_bus (p e))"
| "leaves_bus (SubscribeTo k h p) = False"
| "leaves_bus (EmitEvent ev p) = False"

definition plain_bus :: "('h, 'e) handler_code \<Rightarrow> ('h, 'e) bus_state \<Rightarrow> 'e bus" where
  "plain_bus code s = \<lparr>bus_listeners = map (\<lambda>(k, hs). (k, map (\<lambda>h ev. effect (code h ev)) hs)) (bs_table s)\<rparr>"

lemma plain_bus_handlers: "bus_handlers (plain_bus code s) k = map (\<lambda>h ev. effect (code h ev)) (listening s k)"
  by (simp add: bus_handlers_def plain_bus_def map_get_or_def map_of_map split: option.split)

lemma runs_plain_prog:
  "leaves_bus p \<Longrightarrow> runs code (Code p # fs) s r \<longleftrightarrow>
     (case effect p (bs_env s) of
        (e, Inl x) \<Rightarrow> r = (s\<lparr>bs_env := e\<rparr>, Inl x)
      | (e, Inr _) \<Rightarrow> runs code fs (s\<lparr>bs_env := e\<rparr>) r)"
  by (induction p arbitrary: s) (simp_all add: runs_cons)

lemma runs_plain_loop:
  assumes leaves: "\<And>h. leaves_bus (code h ev)"
    and hs: "drop i (listening s (topic ev w)) = hs"
    and r: "notify (map (\<lambda>h ev. effect (code h ev)) hs) ev (bs_env s) = (e1, u)"
  shows "\<exists>s1. bs_table s1 = bs_table s \<and> bs_env s1 = e1 \<and>
     (\<forall>r. runs code [Deliver d ev w i] s r \<longleftrightarrow>
       (case u of
          Inl x \<Rightarrow> r = (s1, Inl x)
        | Inr _ \<Rightarrow> runs code (if w then [] else [Deliver d ev True 0]) s1 r))"
  using hs r
proof (induction hs arbitrary: i s)
  case Nil
  then show ?case by (intro exI [of _ s]) (auto simp: runs_cons Let_def)
next
  case (Cons h hs)
  have i: "i < length (listening s (topic ev w))" using Cons.prems(1) by (auto intro: ccontr)
  then have h: "listening s (topic ev w) ! i = h" "drop (Suc i) (listening s (topic ev w)) = hs"
    using Cons.prems(1) by (simp_all add: Cons_nth_drop_Suc [symmetric])
  obtain e v where e: "effect (code h ev) (bs_env s) = (e, v)" by fastforce
  let ?s = "s\<lparr>bs_calls := bs_calls s @ [(d, h)]\<rparr>"
  have step: "runs code [Deliver d ev w i] s r \<longleftrightarrow>
      (case v of
         Inl x \<Rightarrow> r = (?s\<lparr>bs_env := e\<rparr>, Inl x)
       | Inr _ \<Rightarrow> runs code [Deliver d ev w (Suc i)] (?s\<lparr>bs_env := e\<rparr>) r)" for r
    using i h(1) leaves [of h] e by (simp add: runs_cons [of _ "Deliver d ev w i"] runs_plain_prog Let_def split: sum.split)
  show ?case
  proof (cases v)
    case (Inl x)
    then have "u = Inl x" "e1 = e" using Cons.prems(2) e by simp_all
    then show ?thesis using step Inl by (intro exI [of _ "?s\<lparr>bs_env := e\<rparr>"]) simp
  next
    case (Inr a)
    then have "notify (map (\<lambda>h ev. effect (code h ev)) hs) ev e = (e1, u)" using Cons.prems(2) e by simp
    then show ?thesis using Cons.IH [of "Suc i" "?s\<lparr>bs_env := e\<rparr>"] h(2) step Inr by simp
  qed
qed

text \<open>With handlers that neither subscribe nor emit, an emission always ends, keeps the subscriptions,
  and its outcome is that of delivering the event to the effects of the handlers one after the other.
\<close>

theorem plain_emission:
  assumes "\<And>h. leaves_bus (code h ev)"
  shows "\<exists>s1. live_emit code ev s = Some (s1, snd (bus_emit ev (plain_bus code s) (bs_env s))) \<and>
     bs_env s1 = fst (bus_emit ev (plain_bus code s) (bs_env s)) \<and> bs_table s1 = bs_table s"
proof -
  let ?eff = "\<lambda>h ev. effect (code h ev)" and ?s = "s\<lparr>bs_next := Suc (bs_next s)\<rparr>" and ?d = "bs_next s"
  obtain e1 u where u: "notify (map ?eff (listening s (event_kind ev))) ev (bs_env s) = (e1, u)" by fastforce
  obtain s1 where s1: "bs_table s1 = bs_table s" "bs_env s1 = e1"
    "\<forall>r. runs code [Deliver ?d ev False 0] ?s r \<longleftrightarrow>
      (case u of Inl x \<Rightarrow> r = (s1, Inl x) | Inr _ \<Rightarrow> runs code [Deliver ?d ev True 0] s1 r)"
    using runs_plain_loop [of code ev 0 ?s False _ e1 u ?d, OF assms refl] u by auto
  obtain e2 v where v: "notify (map ?eff (listening s ''*'')) ev e1 = (e2, v)" by fastforce
  obtain s2 where s2: "bs_table s2 = bs_table s1" "bs_env s2 = e2"
    "\<forall>r. runs code [Deliver ?d ev True 0] s1 r \<longleftrightarrow> (case v of Inl x \<Rightarrow> r = (s2, Inl x) | Inr _ \<Rightarrow> r = (s2, Inr ()))"
    using runs_plain_loop [of code ev 0 s1 True _ e2 v ?d, OF assms refl] v s1
    by (cases v) auto
  have emit: "bus_emit ev (plain_bus code s) (bs_env s) = (case u of Inl x \<Rightarrow> (e1, Inl x) | Inr _ \<Rightarrow> (e2, v))"
    using u v by (simp add: bus_emit_handlers plain_bus_handlers notify_append split: sum.split)
  show ?thesis
    using s1 s2 by (cases u; cases v) (auto simp: live_emit_runs emit)
qed

section \<open>Instances\<close>

lemma run_frames_nil: "run_frames code [] s = Some (s, Inr ())"
  and run_frames_cons: "run_frames code (f # rest) s =
    (case frame_step code f s of Inl x \<Rightarrow> Some (s, Inl x) | Inr (gs, s1) \<Rightarrow> run_frames code (gs @ rest) s1)"
  by (subst run_frames.simps; simp)+

text \<open>
  Three handlers: handler 0 gets the spawn events, subscribes handler 1 for spawn events too and
  reports a completed tick; handler 2 gets every event.
\<close>

definition relay :: "(nat, nat) handler_code" where
  "relay h ev =
     (if h = 0 \<and> event_kind ev = ''AGENT_SPAWNED''
      then SubscribeTo ''AGENT_SPAWNED'' 1 (EmitEvent (TICK_COMPLETED (ev_agent ev) 1 (ev_time ev)) Return)
      else Local Suc (\<lambda>e. Return))"

definition spawn_event :: kernel_event where
  "spawn_event = AGENT_SPAWNED ''a'' 0"

definition relay_bus :: "(nat, nat) bus_state" where
  "relay_bus = \<lparr>bs_table = [(''AGENT_SPAWNED'', [0]), (''*'', [2])], bs_env = 0, bs_calls = [], bs_next = 0\<rparr>"

definition relay_result :: "(nat, nat) bus_state" where
  "relay_result = \<lparr>bs_table = [(''AGENT_SPAWNED'', [0, 1]), (''*'', [2])], bs_env = 3,
     bs_calls = [(0, 0), (1, 2), (0, 1), (0, 2)], bs_next = 2\<rparr>"

text \<open>The wildcard handler gets the tick that was emitted second before the spawn that was emitted first.\<close>

lemma relay_reorders: "live_emit relay spawn_event relay_bus = Some (relay_result, Inr ())"
  by (simp add: live_emit_def begin_delivery_def run_frames_nil run_frames_cons relay_def spawn_event_def relay_bus_def
      relay_result_def Let_def map_get_or_def push_handler_def map_has_def)

lemma delivery_is_live_witness:
  "\<exists>mid. called (bs_next relay_bus) relay_result = mid @ listening relay_result ''*'' \<and>
     prefix (listening relay_bus (event_kind spawn_event)) mid \<and> prefix mid (listening relay_result (event_kind spawn_event))"
  by (rule delivery_is_live [OF relay_reorders]) (simp add: calls_numbered_def relay_bus_def)

lemma deliveries_nest_witness: "calls_numbered relay_result \<and> nested (map fst (bs_calls relay_result))"
  by (rule deliveries_nest [OF relay_reorders]) (simp_all add: calls_numbered_def nested_def relay_bus_def)

text \<open>Handler 0 of these reports spawns as ticks, and subscribes for them; the ticks only count.\<close>

definition reporter :: "(nat, nat) handler_code" where
  "reporter h ev =
     (if event_kind ev = ''AGENT_SPAWNED''
      then SubscribeTo ''TICK_COMPLETED'' h (EmitEvent (TICK_COMPLETED (ev_agent ev) 1 (ev_time ev)) Return)
      else Local Suc (\<lambda>e. Return))"

lemma tame_emission_ends_witness:
  "\<exists>s1 u. live_emit reporter spawn_event relay_bus = Some (s1, u) \<and> listening s1 ''*'' = [2] \<and>
     listening s1 ''AGENT_SPAWNED'' = [0]"
proof -
  let ?rank = "\<lambda>k. if k = ''AGENT_SPAWNED'' then 1 else 0 :: nat"
  have "\<exists>s1 u. live_emit reporter spawn_event relay_bus = Some (s1, u) \<and>
      (\<forall>k. k = ''*'' \<or> ?rank (event_kind spawn_event) \<le> ?rank k \<longrightarrow> listening s1 k = listening relay_bus k)"
    by (rule tame_emission_ends) (auto simp: reporter_def)
  then show ?thesis by (auto simp: relay_bus_def map_get_or_def)
qed

lemma resubscription_never_returns_witness:
  "live_emit (\<lambda>h ev. SubscribeTo (event_kind ev) h Return) spawn_event relay_bus \<noteq> Some (relay_result, Inr ())"
  by (rule resubscription_never_returns) (auto simp: relay_bus_def spawn_event_def map_get_or_def)

lemma plain_emission_witness:
  "\<exists>s1. live_emit (\<lambda>h ev. Local (\<lambda>e. e + h) (\<lambda>e. if e = 7 then Raise (Error ''full'') else Return)) spawn_event relay_bus =
       Some (s1, snd (bus_emit spawn_event (plain_bus (\<lambda>h ev. Local (\<lambda>e. e + h) (\<lambda>e. if e = 7 then Raise (Error ''full'') else Return))
         relay_bus) (bs_env relay_bus))) \<and>
     bs_env s1 = fst (bus_emit spawn_event (plain_bus (\<lambda>h ev. Local (\<lambda>e. e + h) (\<lambda>e. if e = 7 then Raise (Error ''full'') else Return))
         relay_bus) (bs_env relay_bus)) \<and> bs_table s1 = bs_table relay_bus"
  by (rule plain_emission) simp

end
