(* ===== verification/DashboardPage.thy ===== *)
theory DashboardPage
  imports Dashboard
begin

text \<open>
  The page of the dashboard in a browser (the \<open>connect\<close> function of the script in
  host/dashboard/server.ts) together with the server that serves it and answers its sockets: how the
  token of the address of the page gets to the server, and the visit of a page as it connects, is sent
  messages, is disconnected and connects again. A handshake, a message, a disconnection and the timer
  happen in any order the browser allows.

  Texts of addresses are their UTF-8 bytes; a sequence of bytes that is not UTF-8 is not replaced.
\<close>

section \<open>Addresses\<close>

text \<open>\<open>new URLSearchParams(s).get(k)\<close>: pairs between ampersands, split at the first equals sign, with plus
  signs for blanks and percent escapes.\<close>

definition hex_byte :: "char \<Rightarrow> char \<Rightarrow> char option" where
  "hex_byte h l =
     (case (hex_val h, hex_val l) of (Some a, Some b) \<Rightarrow> Some (char_of (16 * a + b)) | _ \<Rightarrow> None)"

fun percent_decode :: "string \<Rightarrow> string" where
  "percent_decode (p # h # l # r) =
     (if p = CHR ''%''
      then (case hex_byte h l of Some b \<Rightarrow> b # percent_decode r | None \<Rightarrow> p # percent_decode (h # l # r))
      else p # percent_decode (h # l # r))"
| "percent_decode s = s"

definition decode_component :: "string \<Rightarrow> string" where
  "decode_component s = percent_decode (map (\<lambda>c. if c = CHR ''+'' then CHR '' '' else c) s)"

definition query_pair :: "string \<Rightarrow> string \<times> string" where
  "query_pair p =
     (decode_component (takeWhile (\<lambda>c. c \<noteq> CHR ''='') p), decode_component (drop 1 (dropWhile (\<lambda>c. c \<noteq> CHR ''='') p)))"

definition params_get :: "string \<Rightarrow> string \<Rightarrow> string option" where
  "params_get s k = map_of (map query_pair (filter (\<lambda>p. p \<noteq> []) (split_on CHR ''&'' s))) k"

text \<open>An address is a path, a query and a fragment, which is never sent to a server.\<close>

definition request_target :: "string \<Rightarrow> string" where
  "request_target url = takeWhile (\<lambda>c. c \<noteq> CHR ''#'') url"

definition query_of :: "string \<Rightarrow> string" where
  "query_of url = drop 1 (dropWhile (\<lambda>c. c \<noteq> CHR ''?'') (request_target url))"

text \<open>The browser's reading of the address of a socket: blanks at its end and tabs and line ends are removed,
  and what a query cannot have is escaped.\<close>

definition hex_upper :: "nat \<Rightarrow> char" where
  "hex_upper n = ''0123456789ABCDEF'' ! n"

definition query_encode :: "char \<Rightarrow> string" where
  "query_encode c =
     (let n = of_char c :: nat in
      if n \<le> 32 \<or> 127 \<le> n \<or> c \<in> {CHR 0x22, CHR 0x27, CHR ''<'', CHR ''>''}
      then [CHR ''%'', hex_upper (n div 16), hex_upper (n mod 16)]
      else [c])"

definition url_clean :: "string \<Rightarrow> string" where
  "url_clean s =
     filter (\<lambda>c. c \<notin> {CHR 0x09, CHR 0x0A, CHR 0x0D}) (rev (dropWhile (\<lambda>c. (of_char c :: nat) \<le> 32) (rev s)))"

section \<open>connect\<close>

definition page_token :: "string \<Rightarrow> string" where
  "page_token url = (case params_get (query_of url) ''token'' of None \<Rightarrow> [] | Some t \<Rightarrow> t)"

text \<open>The request of \<open>new WebSocket('ws://' + location.host + '?token=' + token)\<close>.\<close>

definition socket_target :: "string \<Rightarrow> string" where
  "socket_target token = ''/?token='' @ concat (map query_encode (request_target (url_clean token)))"

definition request_token :: "string \<Rightarrow> string option" where
  "request_token target = params_get (query_of target) ''token''"

datatype socket_phase = Connecting | Open | Over

record page_visit =
  v_server :: dashboard
  v_page :: page
  v_status :: string
  v_socket :: nat
  v_phase :: socket_phase
  v_timer :: bool
  v_read :: nat

definition load_page :: "dashboard \<Rightarrow> page_visit" where
  "load_page d =
     \<lparr>v_server = d, v_page = new_page, v_status = ''Disconnected'', v_socket = 0, v_phase = Connecting,
      v_timer = False, v_read = 0\<rparr>"

definition socket_name :: "page_visit \<Rightarrow> string" where
  "socket_name v = show_nat (v_socket v)"

datatype visit_action = Handshake | Shut | Deliver | Timer | BusEvent kernel_event

text \<open>A message that is not JSON makes the handler throw, and changes nothing.\<close>

fun visit_step :: "string option \<Rightarrow> string \<Rightarrow> (jsval \<Rightarrow> string) \<Rightarrow> visit_action \<Rightarrow> page_visit \<Rightarrow> page_visit" where
  "visit_step auth token local_time Handshake v =
     (if v_phase v = Connecting
      then v\<lparr>v_server := on_connection auth (socket_name v) (request_token (socket_target token)) (v_server v),
             v_phase := Open, v_status := ''Connected''\<rparr>
      else v)"
| "visit_step auth token local_time Shut v =
     (if v_phase v = Over then v
      else v\<lparr>v_server := on_close (socket_name v) (v_server v), v_phase := Over, v_status := ''Disconnected'',
             v_timer := True\<rparr>)"
| "visit_step auth token local_time Deliver v =
     (let sent = map snd (filter (\<lambda>x. fst x = socket_name v) (outbox (v_server v)))
      in if v_phase v = Open \<and> v_read v < length sent
         then (case json_parse (sent ! v_read v) of
                 Inr msg \<Rightarrow> v\<lparr>v_page := on_message local_time msg (v_page v), v_read := Suc (v_read v)\<rparr>
               | Inl e \<Rightarrow> v\<lparr>v_read := Suc (v_read v)\<rparr>)
         else v)"
| "visit_step auth token local_time Timer v =
     (if v_timer v
      then v\<lparr>v_timer := False, v_socket := Suc (v_socket v), v_phase := Connecting, v_read := 0\<rparr>
      else v)"
| "visit_step auth token local_time (BusEvent ev) v =
     v\<lparr>v_server := on_event (\<lambda>c. c = socket_name v \<and> v_phase v = Open) ev (v_server v)\<rparr>"

definition visit_run :: "string option \<Rightarrow> string \<Rightarrow> (jsval \<Rightarrow> string) \<Rightarrow> visit_action list \<Rightarrow> page_visit \<Rightarrow> page_visit" where
  "visit_run auth token local_time as v = fold (visit_step auth token local_time) as v"

section \<open>What a token survives\<close>

lemma hex_val_upper [simp]: "n < 16 \<Longrightarrow> hex_val (hex_upper n) = Some n"
  by (erule less_16_cases, erule less_10_cases) (simp_all add: hex_val_def hex_upper_def Let_def)

lemma hex_byte_upper: "hex_byte (hex_upper (of_char c div 16)) (hex_upper (of_char c mod 16)) = Some c"
proof -
  have "(of_char c :: nat) div 16 < 16" "(of_char c :: nat) mod 16 < 16"
    using nat_of_char_less_256 [of c] by (simp_all add: div_less_iff_less_mult)
  then show ?thesis by (simp add: hex_byte_def)
qed

lemma hex_upper_plain: "n < 16 \<Longrightarrow> hex_upper n \<noteq> CHR ''+'' \<and> hex_upper n \<noteq> CHR ''&'' \<and> hex_upper n \<noteq> CHR ''#''"
  by (erule less_16_cases, erule less_10_cases) (simp_all add: hex_upper_def)

lemma decode_other: "c \<noteq> CHR ''%'' \<Longrightarrow> percent_decode (c # s) = c # percent_decode s"
  by (cases s; cases "tl s") auto

definition survives :: "string \<Rightarrow> bool" where
  "survives t \<longleftrightarrow> set t \<inter> {CHR ''%'', CHR ''+'', CHR ''&'', CHR ''#'', CHR 0x09, CHR 0x0A, CHR 0x0D} = {} \<and>
     (t \<noteq> [] \<longrightarrow> (32 :: nat) < of_char (last t))"

lemma decode_encoded:
  assumes "c \<noteq> CHR ''%''" "c \<noteq> CHR ''+''"
  shows "decode_component (query_encode c @ s) = c # decode_component s"
proof -
  have n: "(of_char c :: nat) div 16 < 16" "(of_char c :: nat) mod 16 < 16"
    using nat_of_char_less_256 [of c] by (simp_all add: div_less_iff_less_mult)
  show ?thesis
    using assms hex_upper_plain [OF n(1)] hex_upper_plain [OF n(2)] hex_byte_upper [of c]
    by (simp add: decode_component_def query_encode_def Let_def decode_other)
qed

lemma decode_encoded_all:
  "set t \<inter> {CHR ''%'', CHR ''+''} = {} \<Longrightarrow> decode_component (concat (map query_encode t)) = t"
proof (induction t)
  case (Cons c t)
  then show ?case using decode_encoded [of c "concat (map query_encode t)"] by auto
qed (simp add: decode_component_def)

lemma encoded_plain:
  assumes "x \<in> set (query_encode c)" "c \<noteq> x" "x \<in> {CHR ''&'', CHR ''#''}"
  shows False
proof -
  have n: "(of_char c :: nat) div 16 < 16" "(of_char c :: nat) mod 16 < 16"
    using nat_of_char_less_256 [of c] by (simp_all add: div_less_iff_less_mult)
  show False
    using assms hex_upper_plain [OF n(1)] hex_upper_plain [OF n(2)]
    by (auto simp: query_encode_def Let_def split: if_splits)
qed

lemma url_clean_id:
  assumes "set t \<inter> {CHR 0x09, CHR 0x0A, CHR 0x0D} = {}" "t \<noteq> [] \<Longrightarrow> (32 :: nat) < of_char (last t)"
  shows "url_clean t = t"
proof -
  have "dropWhile (\<lambda>c. (of_char c :: nat) \<le> 32) (rev t) = rev t"
    using assms(2) by (cases t rule: rev_cases) auto
  then show ?thesis using assms(1) by (auto simp: url_clean_def filter_id_conv)
qed

lemma takeWhile_absent: "x \<notin> set t \<Longrightarrow> takeWhile (\<lambda>c. c \<noteq> x) t = t"
  by (auto simp: takeWhile_eq_all_conv)

text \<open>The page puts the token into the address of the socket as it is. A token without percent and plus
  signs, ampersands, hashes and line ends that does not end in a blank gets to the server.\<close>

theorem token_survives:
  assumes "survives t"
  shows "request_token (socket_target t) = Some t"
proof -
  let ?q = "concat (map query_encode t)"
  have t: "request_target (url_clean t) = t"
    using assms url_clean_id [of t] by (auto simp: survives_def request_target_def takeWhile_absent)
  have plain: "CHR ''&'' \<notin> set ?q" "CHR ''#'' \<notin> set ?q"
    using assms encoded_plain by (auto simp: survives_def)
  have "socket_target t = ''/?token='' @ ?q" by (simp add: socket_target_def t)
  then have "query_of (socket_target t) = ''token='' @ ?q"
    using plain(2) by (simp add: query_of_def request_target_def takeWhile_absent del: set_concat)
  moreover have "split_on CHR ''&'' (''token='' @ ?q) = [''token='' @ ?q]"
    using plain by (intro split_on_no_sep) auto
  moreover have "decode_component ?q = t"
    using assms by (intro decode_encoded_all) (auto simp: survives_def)
  moreover have "decode_component ''token'' = ''token''" by code_simp
  ultimately show ?thesis by (simp add: request_token_def params_get_def query_pair_def)
qed

lemma token_survives_witness: "request_token (socket_target ''s <3=x'') = Some ''s <3=x''"
  by (rule token_survives) (simp add: survives_def)

lemma tokens_lost:
  "map (\<lambda>t. request_token (socket_target t)) [''a+b'', ''a&b'', ''a#b'', ''a%41'', ''a ''] =
     [Some ''a b'', Some ''a'', Some ''a'', Some ''aA'', Some ''a'']"
  by code_simp

section \<open>A visit with a token\<close>

lemma target_without_query: "request_target url \<in> {''/'', ''/index.html''} \<Longrightarrow> page_token url = []"
  by (auto simp: page_token_def query_of_def params_get_def)

lemma no_token: "request_token (socket_target []) = Some []"
  by code_simp

definition locked_out :: "page_visit \<Rightarrow> bool" where
  "locked_out v \<longleftrightarrow> v_page v = new_page \<and> outbox (v_server v) = [] \<and> clients (v_server v) = [] \<and>
     (v_phase v = Over \<longleftrightarrow> v_timer v)"

text \<open>C28: A server with a token never lets in the page it serves. It serves the page only at two addresses
  that carry no token; so in any visit of a page it has served nothing is ever sent to the page, it
  shows no event, and whenever it is disconnected a timer is set that connects it again.
\<close>

theorem served_page_locked_out:
  assumes "db_serve None embedded (request_target url) = (200, body)" and "t \<noteq> []"
  shows "let v = visit_run (Some t) (page_token url) local_time as (load_page (new_dashboard w)) in
     v_page v = new_page \<and> outbox (v_server v) = [] \<and> clients (v_server v) = [] \<and>
     (v_phase v = Over \<longleftrightarrow> v_timer v)"
proof -
  have token: "page_token url = []"
    using assms(1) by (intro target_without_query) (auto simp: db_serve_def split: if_splits)
  have "locked_out (visit_step (Some t) [] local_time a v)" if "locked_out v" for a v
    using that assms(2)
    by (cases a) (auto simp: locked_out_def on_connection_def on_close_def on_event_def authorised_def no_token Let_def)
  then have "locked_out (visit_run (Some t) [] local_time as v)" if "locked_out v" for v
    using that by (induction as arbitrary: v) (simp_all add: visit_run_def)
  then show ?thesis by (simp add: token locked_out_def load_page_def new_dashboard_def Let_def)
qed

lemma served_page_locked_out_witness:
  "let v = visit_run (Some ''secret'') (page_token ''/index.html#?token=secret'') (\<lambda>t. [])
       [Handshake, BusEvent (AGENT_SPAWNED ''a'' 1), Shut, Timer] (load_page (new_dashboard (new_world int))) in
     v_page v = new_page \<and> outbox (v_server v) = [] \<and> clients (v_server v) = [] \<and> (v_phase v = Over \<longleftrightarrow> v_timer v)"
  by (rule served_page_locked_out [where embedded = "''page''" and body = "''page''"])
    (simp_all add: db_serve_def request_target_def)

end
