(* ===== verification/Terminal.thy ===== *)
theory Terminal
  imports Tui
begin

text \<open>
  The terminal dashboard (host/tui.ts) as the calls it makes to the terminal library: the layout its
  constructor makes, the calls of its event handler in order, the panic screen, and the suite
  tests/tui.test.ts with its mocked library. \<open>Tui\<close> models the contents of the boxes; the calls are shown
  to fill them so.
\<close>

section \<open>Calls to the terminal library\<close>

datatype widget = Header | AgentBox | LogBox | MemoryBox

datatype term_call =
    NewScreen string
  | NewWidget string widget "(string \<times> string) list"
  | Append widget
  | BindKeys "string list"
  | SetItems "string list"
  | LogLine string
  | SetContent string
  | Render
  | Destroy
  | Print string

record terminal =
  te_tui :: tui
  te_calls :: "term_call list"

definition call_terminal :: "term_call \<Rightarrow> terminal \<Rightarrow> terminal" where
  "call_terminal c u = u\<lparr>te_calls := te_calls u @ [c]\<rparr>"

section \<open>The constructor\<close>

text \<open>The place of a widget and its label; the microscopes of the title are their UTF-8 bytes.\<close>

definition box_at :: "string \<Rightarrow> string \<Rightarrow> string \<Rightarrow> (string \<times> string) list" where
  "box_at left width label =
     [(''top'', ''3''), (''left'', left), (''width'', width), (''height'', ''100%-3''),
      (''label'', '' {bold}'' @ label @ ''{/bold} '')]"

definition microscope :: string where
  "microscope = [CHR 0xF0, CHR 0x9F, CHR 0x94, CHR 0xAC]"

definition header_options :: "(string \<times> string) list" where
  "header_options =
     [(''top'', ''0''), (''left'', ''0''), (''width'', ''100%''), (''height'', ''3''),
      (''content'', ''{center}{cyan-fg}'' @ microscope @ '' OMNIPAW KERNEL VISUAL DASHBOARD '' @ microscope @
         ''{/cyan-fg}{/center}'')]"

definition quit_keys :: "string list" where
  "quit_keys = [''escape'', ''q'', ''C-c'']"

definition construct_calls :: "term_call list" where
  "construct_calls =
     [NewScreen ''OmniPaw Kernel Dashboard'',
      NewWidget ''box'' Header header_options,
      NewWidget ''list'' AgentBox (box_at ''0'' ''25%'' ''Agent Registry''),
      NewWidget ''log'' LogBox (box_at ''25%'' ''50%'' ''Kernel Bus Events''),
      NewWidget ''text'' MemoryBox (box_at ''75%'' ''25%'' ''Memory State''),
      Append Header, Append AgentBox, Append LogBox, Append MemoryBox, BindKeys quit_keys]"

definition new_terminal :: terminal where
  "new_terminal = \<lparr>te_tui = new_tui, te_calls = construct_calls\<rparr>"

text \<open>The exit code of a key, if it ends the program.\<close>

definition on_key :: "string \<Rightarrow> int option" where
  "on_key key = (if key \<in> set quit_keys then Some 0 else None)"

section \<open>The handler and the panic screen\<close>

definition agent_list_calls :: "kernel_event \<Rightarrow> tui \<Rightarrow> term_call list" where
  "agent_list_calls ev u =
     (case ev of AGENT_SPAWNED a t \<Rightarrow> [SetItems (tui_agents (box_agents ev u)), Render] | _ \<Rightarrow> [])"

definition event_calls :: "kernel_event \<Rightarrow> tui \<Rightarrow> term_call list" where
  "event_calls ev u =
     agent_list_calls ev u @ [LogLine (line_prefix (ev_time ev) @ '' '' @ event_line ev)] @
     (case memory_text ev of Some s \<Rightarrow> [SetContent s] | None \<Rightarrow> []) @ [Render]"

definition on_terminal :: "(kernel_event, terminal) listener" where
  "on_terminal ev u =
     (let (v, r) = visualise ev (te_tui u)
      in (\<lparr>te_tui = v, te_calls = te_calls u @ (case r of Inl e \<Rightarrow> [] | Inr x \<Rightarrow> event_calls ev (te_tui u))\<rparr>, r))"

definition start_terminal :: "terminal bus \<times> terminal \<Rightarrow> terminal bus \<times> terminal" where
  "start_terminal bu = (bus_subscribe ''*'' on_terminal (fst bu), call_terminal Render (snd bu))"

definition escape :: "string \<Rightarrow> string" where
  "escape code = [CHR 0x1B] @ ''['' @ code @ ''m''"

definition renderDivergencePanic :: "string \<Rightarrow> string \<Rightarrow> terminal \<Rightarrow> terminal" where
  "renderDivergencePanic expectedHash actualHash u =
     fold call_terminal
       [Destroy,
        Print ([CHR 0x0A] @ escape ''41'' @ escape ''37'' @ '' !!! KERNEL PANIC: CRYPTOGRAPHIC DIVERGENCE !!! '' @ escape ''0''),
        Print (escape ''31'' @ ''Expected:'' @ escape ''0'' @ '' '' @ expectedHash),
        Print (escape ''31'' @ ''Actual:  '' @ escape ''0'' @ '' '' @ actualHash),
        Print (escape ''90'' @ ''Execution path irrevocably compromised. Halting TickEngine immediately.'' @ escape ''0'' @ [CHR 0x0A])]
       u"

section \<open>The calls fill the boxes\<close>

fun replay_call :: "term_call \<Rightarrow> tui \<Rightarrow> tui" where
  "replay_call (SetItems xs) u = u\<lparr>agentBox := xs, tui_agents := xs\<rparr>"
| "replay_call (LogLine l) u = u\<lparr>logBox := logBox u @ [l]\<rparr>"
| "replay_call (SetContent s) u = u\<lparr>memoryBox := s\<rparr>"
| "replay_call c u = u"

lemma replay_event_calls: "fold replay_call (event_calls ev u) u = show_event ev u"
  by (cases ev)
    (simp_all add: event_calls_def agent_list_calls_def show_event_def box_memory_def box_log_def box_agents_def updateAgentList_def)

lemma event_calls_end [simp]: "event_calls ev u \<noteq> []" "last (event_calls ev u) = Render"
  by (simp_all add: event_calls_def)

text \<open>However many events there are, the calls made to the library put the contents of the model into the
  boxes, and what is shown last was rendered.\<close>

theorem calls_fill_boxes:
  assumes "list_all (\<lambda>ev. valid_date (ev_time ev)) evs"
  shows "let u = fst (emit_all (fst (start_terminal (new_bus, new_terminal))) evs (snd (start_terminal (new_bus, new_terminal)))) in
     te_tui u = fold show_event evs new_tui \<and> fold replay_call (te_calls u) new_tui = te_tui u \<and>
     last (te_calls u) = Render"
proof -
  let ?b = "bus_subscribe ''*'' on_terminal new_bus"
  have kind: "event_kind ev \<noteq> ''*''" for ev by (cases ev) simp_all
  have emit: "bus_emit ev ?b u = on_terminal ev u" for ev u
    using kind [of ev]
    by (simp add: bus_emit_handlers bus_topics.listeners_sub bus_topics.listeners_nobody split: prod.split sum.split)
  have handled: "valid_date (ev_time ev) \<Longrightarrow> on_terminal ev u =
      (\<lparr>te_tui = show_event ev (te_tui u), te_calls = te_calls u @ event_calls ev (te_tui u)\<rparr>, Inr ())" for ev u
    by (simp add: on_terminal_def visualise_def show_event_def)
  have all: "list_all (\<lambda>ev. valid_date (ev_time ev)) evs \<Longrightarrow> fold replay_call (te_calls u) new_tui = te_tui u \<Longrightarrow>
      last (te_calls u) = Render \<Longrightarrow>
      te_tui (fst (emit_all ?b evs u)) = fold show_event evs (te_tui u) \<and>
      fold replay_call (te_calls (fst (emit_all ?b evs u))) new_tui = te_tui (fst (emit_all ?b evs u)) \<and>
      last (te_calls (fst (emit_all ?b evs u))) = Render" for u
  proof (induction evs arbitrary: u)
    case (Cons ev evs)
    then show ?case
      using Cons.IH [of "\<lparr>te_tui = show_event ev (te_tui u), te_calls = te_calls u @ event_calls ev (te_tui u)\<rparr>"]
      by (simp add: emit handled replay_event_calls)
  qed simp
  show ?thesis
    using all [of "call_terminal Render new_terminal"] assms
    by (simp add: start_terminal_def call_terminal_def new_terminal_def construct_calls_def Let_def)
qed

section \<open>tests/tui.test.ts\<close>

definition made :: "string \<Rightarrow> term_call list \<Rightarrow> bool" where
  "made kind cs \<longleftrightarrow> list_ex (\<lambda>c. case c of NewScreen t \<Rightarrow> kind = ''screen'' | NewWidget k w os \<Rightarrow> kind = k | _ \<Rightarrow> False) cs"

definition construction_test :: bool where
  "construction_test \<longleftrightarrow>
     list_all (\<lambda>k. made k (te_calls new_terminal)) [''screen'', ''box'', ''list'', ''log'', ''text'']"

definition subscription_test :: bool where
  "subscription_test \<longleftrightarrow> length (bus_handlers (fst (start_terminal (new_bus, new_terminal))) ''*'') = 1"

definition render_test :: "int \<Rightarrow> bool" where
  "render_test now =
     (let (b, u) = start_terminal (new_bus, new_terminal);
          (u1, r) = bus_emit (AGENT_SPAWNED ''a1'' now) b u
      in is_ok r \<and> Render \<in> set (te_calls u1))"

definition panic_test :: bool where
  "panic_test =
     (let cs = te_calls (renderDivergencePanic ''mock-hash-1'' ''mock-hash-2'' new_terminal)
      in Destroy \<in> set cs \<and> list_ex (\<lambda>c. case c of Print s \<Rightarrow> True | _ \<Rightarrow> False) cs)"

definition tui_suite :: "int \<Rightarrow> bool list" where
  "tui_suite now = [construction_test, subscription_test, render_test now, panic_test]"

lemma tui_suite_passes: "valid_date now \<Longrightarrow> tui_suite now = [True, True, True, True]"
  by (simp add: tui_suite_def construction_test_def made_def new_terminal_def construct_calls_def subscription_test_def
      start_terminal_def call_terminal_def bus_topics.listeners_sub bus_topics.listeners_nobody render_test_def
      bus_emit_handlers on_terminal_def visualise_def panic_test_def renderDivergencePanic_def)

text \<open>The test of the event would pass without it: starting the dashboard renders already.\<close>

lemma rendered_before_event: "Render \<in> set (te_calls (snd (start_terminal (new_bus, new_terminal))))"
  by (simp add: start_terminal_def call_terminal_def)

end
