(* ===== verification/AssistantRoute.thy ===== *)
theory AssistantRoute
  imports Assistant
begin

text \<open>
  The route of the assistant as a whole (the event handler of
  docs/layer/modules/assistant/runtime/server/api/search.ts): the client of the tools it opens, the
  stream it answers with, and the parts it writes to it. The AI SDK and the client are parameters: whether
  the client opens and lists its tools, whether the messages can be converted, and the steps the SDK makes the
  language model take. The SDK calls \<open>onStepFinish\<close> after every step and \<open>onFinish\<close> when the stream ends; that
  it goes on only after a step with tool calls after which \<open>stopWhen\<close> does not hold is the hypothesis
  \<open>goes_on_as_documented\<close>.
\<close>

section \<open>The handler\<close>

datatype route_call =
    OpenClient string
  | ListTools
  | StreamText string string int int
  | WritePart jsval
  | CloseClient

record route_config =
  rc_dev :: bool
  rc_origin :: string
  rc_mcpServer :: string
  rc_model :: string
  rc_siteName :: "string option"

text \<open>What the services do: the client, its tools, the conversion of the messages, and the steps.\<close>

record route_services =
  rs_client :: "jserr + unit"
  rs_tools :: "jserr + unit"
  rs_convert :: "jserr + unit"
  rs_steps :: "llm_step list"

definition calls_of :: "llm_step \<Rightarrow> tool_call list" where
  "calls_of s = (case st_toolCalls s of None \<Rightarrow> [] | Some cs \<Rightarrow> cs)"

definition onStepFinish :: "llm_step \<Rightarrow> route_call list" where
  "onStepFinish s = (case step_message (calls_of s) of None \<Rightarrow> [] | Some part \<Rightarrow> [WritePart part])"

definition execute_stream :: "route_config \<Rightarrow> route_services \<Rightarrow> route_call list" where
  "execute_stream c sv =
     (case rs_convert sv of
        Inl e \<Rightarrow> []
      | Inr _ \<Rightarrow>
          StreamText (rc_model c) (getSystemPrompt (site_name_of (rc_siteName c))) 4000 2 #
          concat (map onStepFinish (rs_steps sv)))"

text \<open>The calls of a request, to the end of its stream, and the error the request itself ends with.\<close>

definition search_route :: "route_config \<Rightarrow> route_services \<Rightarrow> route_call list \<times> (jserr + unit)" where
  "search_route c sv =
     (let open_call = OpenClient (mcp_url (rc_dev c) (rc_origin c) (rc_mcpServer c))
      in case rs_client sv of
           Inl e \<Rightarrow> ([open_call], Inl e)
         | Inr _ \<Rightarrow>
             (case rs_tools sv of
                Inl e \<Rightarrow> ([open_call, ListTools], Inl e)
              | Inr _ \<Rightarrow> ([open_call, ListTools] @ execute_stream c sv @ [CloseClient], Inr ())))"

section \<open>Properties\<close>

definition goes_on_as_documented :: "llm_step list \<Rightarrow> bool" where
  "goes_on_as_documented steps \<longleftrightarrow>
     (\<forall>k < length steps. 0 < k \<longrightarrow> calls_of (steps ! (k - 1)) \<noteq> [] \<and> \<not> stopWhenResponseComplete (take k steps))"

text \<open>A request whose tools can be listed closes the client it opened, once and as its last call, and writes
  one part for each step with tool calls: every step but perhaps the last of at most ten.\<close>

theorem route_closes_client:
  assumes "rs_client sv = Inr u" "rs_tools sv = Inr v" "rs_convert sv = Inr x" "goes_on_as_documented (rs_steps sv)"
  shows "\<exists>url prompt. search_route c sv = (OpenClient url # ListTools # StreamText (rc_model c) prompt 4000 2 #
      concat (map onStepFinish (rs_steps sv)) @ [CloseClient], Inr ()) \<and>
    length (rs_steps sv) \<le> 10 \<and> (\<forall>s \<in> set (butlast (rs_steps sv)). calls_of s \<noteq> [])"
proof -
  have "length (rs_steps sv) \<le> 10"
  proof (rule ccontr)
    assume "\<not> length (rs_steps sv) \<le> 10"
    then have "\<not> stopWhenResponseComplete (take 10 (rs_steps sv))" "length (take 10 (rs_steps sv)) = 10"
      using assms(4) by (auto simp: goes_on_as_documented_def)
    then show False by (auto simp: stopWhenResponseComplete_def MAX_STEPS_def split: if_splits)
  qed
  moreover have "\<forall>s \<in> set (butlast (rs_steps sv)). calls_of s \<noteq> []"
  proof
    fix s assume "s \<in> set (butlast (rs_steps sv))"
    then obtain i where "i < length (rs_steps sv) - 1" "s = rs_steps sv ! i"
      by (auto simp: in_set_conv_nth nth_butlast)
    then show "calls_of s \<noteq> []"
      using assms(4) [unfolded goes_on_as_documented_def, rule_format, of "Suc i"] by simp
  qed
  ultimately show ?thesis
    using assms by (auto simp: search_route_def execute_stream_def Let_def)
qed

text \<open>When the tools cannot be listed, the client that is open is never closed.\<close>

lemma unlisted_tools_leak_client:
  "rs_client sv = Inr u \<Longrightarrow> rs_tools sv = Inl e \<Longrightarrow>
   CloseClient \<notin> set (fst (search_route c sv)) \<and> snd (search_route c sv) = Inl e"
  by (simp add: search_route_def Let_def)

end
