(* ===== verification/ChatViews.thy ===== *)
theory ChatViews
  imports Assistant
begin

text \<open>
  The scripts of the components that talk to the assistant of the documentation site:
  AssistantPanel.vue, AssistantFloatingInput.vue, AssistantChat.vue and AssistantPreStream.vue
  (docs/layer/modules/assistant/runtime/components/), useHighlighter.ts beside them, AssistantDemo.vue
  (docs/app/components/content/) and DocsAsideRightBottom.vue (docs/layer/app/components/docs/).

  The chat is an object of the AI SDK: what a call does to it is the parameter \<open>sdk\<close>, and the calls
  are kept in order. Emptying its array of messages is done by the components. Vue calls a watcher when
  its source has changed, in the order the watchers were made.
\<close>

section \<open>The chat\<close>

datatype chat_call = SendMessage string | StopChat | Regenerate

record chat =
  ch_messages :: "jsval list"
  ch_status :: string
  ch_calls :: "chat_call list"

type_synonym chat_sdk = "chat_call \<Rightarrow> jsval list \<times> string \<Rightarrow> jsval list \<times> string"

definition call_chat :: "chat_sdk \<Rightarrow> chat_call \<Rightarrow> chat \<Rightarrow> chat" where
  "call_chat sdk c ch =
     (let (ms, st) = sdk c (ch_messages ch, ch_status ch)
      in \<lparr>ch_messages = ms, ch_status = st, ch_calls = ch_calls ch @ [c]\<rparr>)"

definition empty_chat :: "chat \<Rightarrow> chat" where
  "empty_chat ch = ch\<lparr>ch_messages := []\<rparr>"

definition new_chat :: "jsval list \<Rightarrow> chat" where
  "new_chat ms = \<lparr>ch_messages = ms, ch_status = ''ready'', ch_calls = []\<rparr>"

definition last_role :: "chat \<Rightarrow> jsval" where
  "last_role ch = (if ch_messages ch = [] then JUndef else js_prop (last (ch_messages ch)) ''role'')"

definition has_text_part :: "jsval \<Rightarrow> bool" where
  "has_text_part m =
     (case js_prop m ''parts'' of
        JArr ps \<Rightarrow> list_ex (\<lambda>p. js_strict_eq (js_prop p ''type'') (JStr ''text'')) ps
      | _ \<Rightarrow> False)"

definition showThinking :: "chat \<Rightarrow> bool" where
  "showThinking ch \<longleftrightarrow>
     ch_status ch = ''streaming'' \<and> js_strict_eq (last_role ch) (JStr ''assistant'') \<and>
     \<not> has_text_part (last (ch_messages ch))"

section \<open>AssistantPanel.vue\<close>

record panel_view =
  pv_panel :: "jsval panel"
  pv_input :: string
  pv_chat :: chat
  pv_toasts :: "jsval list"

text \<open>The description of the toast: the \<open>message\<close> of the error's text read as JSON, if it has one.\<close>

definition error_description :: "string \<Rightarrow> jsval" where
  "error_description message =
     (case json_parse message of
        Inl e \<Rightarrow> JStr message
      | Inr parsed \<Rightarrow> or_js (js_prop parsed ''message'') (JStr message))"

definition panel_error :: "string \<Rightarrow> panel_view \<Rightarrow> panel_view" where
  "panel_error message v =
     v\<lparr>pv_toasts := pv_toasts v @ [JObj [(''description'', error_description message),
        (''icon'', JStr ''i-lucide-alert-circle''), (''color'', JStr ''error''), (''duration'', jint 0)]]\<rparr>"

definition panel_finish :: "panel_view \<Rightarrow> panel_view" where
  "panel_finish v = v\<lparr>pv_panel := (pv_panel v)\<lparr>messages := ch_messages (pv_chat v)\<rparr>\<rparr>"

definition send_chat :: "chat_sdk \<Rightarrow> string \<Rightarrow> panel_view \<Rightarrow> panel_view" where
  "send_chat sdk t v = v\<lparr>pv_chat := call_chat sdk (SendMessage t) (pv_chat v)\<rparr>"

definition clear_pending :: "panel_view \<Rightarrow> panel_view" where
  "clear_pending v = v\<lparr>pv_panel := panel_step ClearPending (pv_panel v)\<rparr>"

definition empty_if :: "bool \<Rightarrow> panel_view \<Rightarrow> panel_view" where
  "empty_if b v = (if b \<and> ch_messages (pv_chat v) \<noteq> [] then v\<lparr>pv_chat := empty_chat (pv_chat v)\<rparr> else v)"

definition watch_pending :: "chat_sdk \<Rightarrow> panel_view \<Rightarrow> panel_view" where
  "watch_pending sdk v =
     (if truthy_text (pendingMessage (pv_panel v))
      then clear_pending (send_chat sdk (shown_text (pendingMessage (pv_panel v)))
             (empty_if (messages (pv_panel v) = []) v))
      else v)"

definition watch_messages :: "panel_view \<Rightarrow> panel_view" where
  "watch_messages v = empty_if (messages (pv_panel v) = []) v"

definition panel_submit :: "chat_sdk \<Rightarrow> panel_view \<Rightarrow> panel_view" where
  "panel_submit sdk v =
     (if js_trim (pv_input v) = [] then v else (send_chat sdk (pv_input v) v)\<lparr>pv_input := []\<rparr>)"

definition askQuestion :: "chat_sdk \<Rightarrow> string \<Rightarrow> panel_view \<Rightarrow> panel_view" where
  "askQuestion sdk question v = send_chat sdk question v"

text \<open>\<open>messages.value = []\<close> makes Vue call the watcher of the messages afterwards.\<close>

definition resetChat :: "chat_sdk \<Rightarrow> panel_view \<Rightarrow> panel_view" where
  "resetChat sdk v =
     v\<lparr>pv_panel := (pv_panel v)\<lparr>messages := []\<rparr>, pv_chat := empty_chat (call_chat sdk StopChat (pv_chat v))\<rparr>"

definition panel_mounted :: "chat_sdk \<Rightarrow> panel_view \<Rightarrow> panel_view" where
  "panel_mounted sdk v =
     (if truthy_text (pendingMessage (pv_panel v))
      then clear_pending (send_chat sdk (shown_text (pendingMessage (pv_panel v))) v)
      else if js_strict_eq (last_role (pv_chat v)) (JStr ''user'')
      then v\<lparr>pv_chat := call_chat sdk Regenerate (pv_chat v)\<rparr>
      else v)"

text \<open>The set-up of the component: its chat, the watcher that is called at once, and the hook.\<close>

definition fresh_view :: "jsval panel \<Rightarrow> panel_view" where
  "fresh_view p = \<lparr>pv_panel = p, pv_input = [], pv_chat = new_chat (messages p), pv_toasts = []\<rparr>"

definition panel_setup :: "chat_sdk \<Rightarrow> jsval panel \<Rightarrow> panel_view" where
  "panel_setup sdk p = panel_mounted sdk (watch_pending sdk (fresh_view p))"

text \<open>\<open>open(message, true)\<close> from another component while the panel is there, with the watchers after it.\<close>

definition opened_with :: "chat_sdk \<Rightarrow> string \<Rightarrow> panel_view \<Rightarrow> panel_view" where
  "opened_with sdk message v =
     (let v1 = v\<lparr>pv_panel := panel_step (panel_op.Open (Some message) True) (pv_panel v)\<rparr>
      in watch_messages (watch_pending sdk v1))"

section \<open>AssistantFloatingInput.vue\<close>

definition isFloatingInputEnabled :: "bool option \<Rightarrow> bool" where
  "isFloatingInputEnabled floatingInput \<longleftrightarrow> floatingInput \<noteq> Some False"

definition focusInputShortcut :: "string option \<Rightarrow> string" where
  "focusInputShortcut focusInput = shown_text (or_text focusInput (Some ''meta_i''))"

definition shortcutDisplayKeys :: "(string \<Rightarrow> string) \<Rightarrow> string \<Rightarrow> string list" where
  "shortcutDisplayKeys toUpperCase shortcut =
     map (\<lambda>part. if part = ''meta'' then ''meta'' else toUpperCase part) (split_on CHR ''_'' shortcut)"

text \<open>The input, whether it is shown, the texts whose timers of 200 ms are pending, and the panel.\<close>

record floating =
  fl_input :: string
  fl_visible :: bool
  fl_timers :: "string list"
  fl_panel :: "jsval panel"

definition floating_shown :: "bool \<Rightarrow> bool \<Rightarrow> floating \<Rightarrow> bool" where
  "floating_shown enabled isDocsRoute f \<longleftrightarrow> enabled \<and> isDocsRoute \<and> fl_visible f \<and> \<not> isOpen (fl_panel f)"

definition floating_submit :: "floating \<Rightarrow> floating" where
  "floating_submit f =
     (if js_trim (fl_input f) = [] then f
      else f\<lparr>fl_visible := False, fl_timers := fl_timers f @ [fl_input f]\<rparr>)"

definition floating_timer :: "floating \<Rightarrow> floating" where
  "floating_timer f =
     (case fl_timers f of
        [] \<Rightarrow> f
      | message # rest \<Rightarrow>
          f\<lparr>fl_timers := rest, fl_panel := panel_step (panel_op.Open (Some message) True) (fl_panel f),
             fl_input := [], fl_visible := True\<rparr>)"

datatype focus_call = FocusInput | BlurInput

text \<open>The handlers of the two shortcuts, with the input if there is one.\<close>

definition focus_shortcut :: "bool \<Rightarrow> bool \<Rightarrow> bool \<Rightarrow> focus_call list" where
  "focus_shortcut isDocsRoute enabled has_input =
     (if \<not> isDocsRoute \<or> \<not> enabled then [] else if has_input then [FocusInput] else [])"

definition escape_shortcut :: "bool \<Rightarrow> focus_call list" where
  "escape_shortcut has_input = (if has_input then [BlurInput] else [])"

section \<open>Smaller components\<close>

definition triggerIcon :: "string option \<Rightarrow> string" where
  "triggerIcon trigger = shown_text (or_text trigger (Some ''i-lucide-sparkles''))"

definition showExplainWithAi :: "bool \<Rightarrow> bool option \<Rightarrow> bool" where
  "showExplainWithAi enabled explainWithAi \<longleftrightarrow> enabled \<and> explainWithAi \<noteq> Some False"

definition explainIcon :: "string option \<Rightarrow> string" where
  "explainIcon explain = shown_text (or_text explain (Some ''i-lucide-brain''))"

text \<open>The column at the right is shown if it has links or the button; the line between them if it has both.\<close>

definition aside_parts :: "nat \<Rightarrow> bool \<Rightarrow> string list" where
  "aside_parts links explain =
     (if links = 0 \<and> \<not> explain then []
      else [''line''] @ (if links \<noteq> 0 then [''links''] else []) @ (if links \<noteq> 0 \<and> explain then [''line''] else []) @
        (if explain then [''explain''] else []))"

definition explain_page :: "string \<Rightarrow> jsval panel \<Rightarrow> jsval panel" where
  "explain_page pageUrl p = panel_step (panel_op.Open (Some (''Explain the page '' @ pageUrl)) True) p"

text \<open>\<open>props.code.trim().replace(/`+$/, '')\<close>\<close>

definition trimmedCode :: "string \<Rightarrow> string" where
  "trimmedCode code = rev (dropWhile (\<lambda>c. c = CHR 0x60) (rev (js_trim code)))"

definition code_lang :: "string \<Rightarrow> string" where
  "code_lang language =
     (if language = ''vue'' then ''vue''
      else if language = ''javascript'' then ''js''
      else if language = ''typescript'' then ''ts''
      else if language = ''css'' then ''css''
      else language)"

definition code_key :: "string \<Rightarrow> string \<Rightarrow> string" where
  "code_key language colorMode = code_lang language @ ''-'' @ colorMode"

definition code_theme :: "string \<Rightarrow> string" where
  "code_theme colorMode = (if colorMode = ''dark'' then ''material-theme-palenight'' else ''material-theme-lighter'')"

text \<open>The promise that is kept, with the number of highlighters that were asked for; \<open>loaded\<close> is what the
  first promise settles with. A promise that is rejected stays kept.\<close>

record 'h highlighters =
  hl_kept :: "'h option"
  hl_promise :: "(jserr + 'h) option"
  hl_created :: nat

definition useHighlighter :: "(nat \<Rightarrow> jserr + 'h) \<Rightarrow> 'h highlighters \<Rightarrow> ('h highlighters, 'h) outcome" where
  "useHighlighter create hs =
     (let hs1 = (case hl_promise hs of
                   None \<Rightarrow> hs\<lparr>hl_promise := Some (create (hl_created hs)), hl_created := Suc (hl_created hs)\<rparr>
                 | Some p \<Rightarrow> hs)
      in case hl_kept hs1 of
           Some h \<Rightarrow> (hs1, Inr h)
         | None \<Rightarrow>
             (case the (hl_promise hs1) of
                Inl e \<Rightarrow> (hs1, Inl e)
              | Inr h \<Rightarrow> (hs1\<lparr>hl_kept := Some h\<rparr>, Inr h)))"

section \<open>AssistantDemo.vue\<close>

definition suggestedQuestions :: "(string \<times> string list) list \<Rightarrow> string \<Rightarrow> string list option" where
  "suggestedQuestions suggestedQuestionsMap locale =
     (case map_of suggestedQuestionsMap locale of Some qs \<Rightarrow> Some qs | None \<Rightarrow> map_of suggestedQuestionsMap ''en'')"

record demo =
  dm_input :: string
  dm_chat :: "chat option"

definition new_demo :: "bool \<Rightarrow> demo" where
  "new_demo enabled = \<lparr>dm_input = [], dm_chat = (if enabled then Some (new_chat []) else None)\<rparr>"

definition demo_thinking :: "demo \<Rightarrow> bool" where
  "demo_thinking d \<longleftrightarrow> (case dm_chat d of None \<Rightarrow> False | Some ch \<Rightarrow> showThinking ch)"

definition demo_submit :: "chat_sdk \<Rightarrow> demo \<Rightarrow> demo" where
  "demo_submit sdk d =
     (case dm_chat d of
        None \<Rightarrow> d
      | Some ch \<Rightarrow>
          if js_trim (dm_input d) = [] then d
          else d\<lparr>dm_chat := Some (call_chat sdk (SendMessage (dm_input d)) ch), dm_input := []\<rparr>)"

definition demo_ask :: "chat_sdk \<Rightarrow> string \<Rightarrow> demo \<Rightarrow> demo" where
  "demo_ask sdk question d =
     (case dm_chat d of None \<Rightarrow> d | Some ch \<Rightarrow> d\<lparr>dm_chat := Some (call_chat sdk (SendMessage question) ch)\<rparr>)"

definition demo_reset :: "chat_sdk \<Rightarrow> demo \<Rightarrow> demo" where
  "demo_reset sdk d =
     (case dm_chat d of None \<Rightarrow> d | Some ch \<Rightarrow> d\<lparr>dm_chat := Some (empty_chat (call_chat sdk StopChat ch))\<rparr>)"

text \<open>What can be pressed: the button that clears the chat is there if the chat has messages.\<close>

definition demo_can_clear :: "demo \<Rightarrow> bool" where
  "demo_can_clear d \<longleftrightarrow> (case dm_chat d of None \<Rightarrow> False | Some ch \<Rightarrow> ch_messages ch \<noteq> [])"

definition demo_can_send :: "bool \<Rightarrow> demo \<Rightarrow> bool" where
  "demo_can_send enabled d \<longleftrightarrow> enabled \<and> js_trim (dm_input d) \<noteq> [] \<and>
     (case dm_chat d of None \<Rightarrow> True | Some ch \<Rightarrow> ch_status ch \<noteq> ''streaming'')"

section \<open>Properties\<close>

lemma call_chat_calls [simp]: "ch_calls (call_chat sdk c ch) = ch_calls ch @ [c]"
  by (simp add: call_chat_def split_beta)

lemma send_chat_simps [simp]:
  "pv_panel (send_chat sdk t v) = pv_panel v" "pv_chat (send_chat sdk t v) = call_chat sdk (SendMessage t) (pv_chat v)"
  by (simp_all add: send_chat_def)

lemma empty_if_simps [simp]:
  "pv_panel (empty_if b v) = pv_panel v" "ch_calls (pv_chat (empty_if b v)) = ch_calls (pv_chat v)"
  "ch_messages (pv_chat (empty_if True v)) = []" "empty_if False v = v"
  by (simp_all add: empty_if_def empty_chat_def)

lemma clear_pending_simps [simp]:
  "pv_chat (clear_pending v) = pv_chat v" "pendingMessage (pv_panel (clear_pending v)) = None"
  "messages (pv_panel (clear_pending v)) = messages (pv_panel v)" "isOpen (pv_panel (clear_pending v)) = isOpen (pv_panel v)"
  by (simp_all add: clear_pending_def)

text \<open>A question asked elsewhere while the panel is there is sent once, on an emptied chat. The watcher of
  the messages runs after the one that sends: what the chat already has of the question is removed again.\<close>

theorem asked_question:
  assumes "m \<noteq> []"
  shows "let v' = opened_with sdk m v in
     ch_calls (pv_chat v') = ch_calls (pv_chat v) @ [SendMessage m] \<and> ch_messages (pv_chat v') = [] \<and>
     isOpen (pv_panel v') \<and> messages (pv_panel v') = [] \<and> pendingMessage (pv_panel v') = None"
  using assms
  by (simp add: opened_with_def watch_pending_def watch_messages_def truthy_text_def shown_text_def Let_def)

text \<open>A panel that is set up with a pending question sends it once and asks nothing again unless the chat
  then ends with a message of the user; without one it repeats an unanswered question.\<close>

theorem panel_setup_calls:
  "let v = panel_setup sdk p; m = pendingMessage p in
   pendingMessage (pv_panel v) = (if m = Some [] then m else None) \<and>
   (if truthy_text m
    then ch_calls (pv_chat v) = [SendMessage (the m)] @
      (if js_strict_eq (last_role (call_chat sdk (SendMessage (the m)) (new_chat (messages p)))) (JStr ''user'') then [Regenerate] else [])
    else ch_calls (pv_chat v) =
      (if js_strict_eq (last_role (new_chat (messages p))) (JStr ''user'') then [Regenerate] else []))"
proof -
  have start: "empty_if (messages p = []) (fresh_view p) = fresh_view p" "pv_panel (fresh_view p) = p"
    "pv_chat (fresh_view p) = new_chat (messages p)"
    by (simp_all add: empty_if_def fresh_view_def new_chat_def)
  have calls: "ch_calls (new_chat (messages p)) = []" by (simp add: new_chat_def)
  show ?thesis
  proof (cases "pendingMessage p")
    case None
    then show ?thesis
      by (simp add: panel_setup_def watch_pending_def panel_mounted_def start calls truthy_text_def Let_def del: js_strict_eq.simps)
  next
    case (Some m)
    then show ?thesis
      by (cases "m = []")
        (simp_all add: panel_setup_def watch_pending_def panel_mounted_def start calls truthy_text_def shown_text_def Let_def
          del: js_strict_eq.simps)
  qed
qed

text \<open>A second Enter within the 200 ms submits the same text again, and what is typed meanwhile is lost.\<close>

lemma second_enter:
  assumes "js_trim (fl_input f) \<noteq> []"
  shows "fl_timers (floating_submit (floating_submit f)) = fl_timers f @ [fl_input f, fl_input f]"
  using assms by (simp add: floating_submit_def)

lemma typing_lost: "fl_timers f \<noteq> [] \<Longrightarrow> fl_input (floating_timer (f\<lparr>fl_input := t\<rparr>)) = []"
  by (auto simp: floating_timer_def split: list.split)

text \<open>However often it is used, the highlighter is created once.\<close>

lemma highlighter_once:
  "hl_promise hs = Some p \<Longrightarrow> hl_created (fst (useHighlighter create hs)) = hl_created hs \<and>
   hl_promise (fst (useHighlighter create hs)) = Some p"
  by (auto simp: useHighlighter_def Let_def split: option.split sum.split)

text \<open>The components and the demonstration differ in this: without a key there is no chat, and nothing is sent.\<close>

lemma demo_disabled:
  "dm_chat d = None \<Longrightarrow> demo_submit sdk d = d \<and> demo_ask sdk question d = d \<and> demo_reset sdk d = d"
  by (simp add: demo_submit_def demo_ask_def demo_reset_def)

end
