(* ===== verification/Progress.thy ===== *)
theory Progress
  imports Assistant
begin

text \<open>
  The indicator of progress of the assistant: AssistantLoading.vue, which rotates messages and scrambles
  one text into the next, and the grid of AssistantMatrix.vue
  (docs/layer/modules/assistant/runtime/components/). Animation frames run the callbacks that were
  requested, in order; the random letters are a parameter. The comparisons with the progress of a frame,
  which the code makes in floating point, are those of exact numbers.
\<close>

section \<open>scrambleText\<close>

definition totalFrames :: nat where
  "totalFrames = 15"

definition letters :: string where
  "letters = ''abcdefghijklmnopqrstuvwxyz''"

definition char_at :: "string \<Rightarrow> nat \<Rightarrow> string" where
  "char_at s i = (if i < length s then [s ! i] else [])"

text \<open>\<open>i < progress * maxLength - 2\<close> and \<open>i < progress * maxLength\<close> with \<open>progress = frame / totalFrames\<close>;
  \<open>pick i\<close> is the index of the letter drawn for a place.\<close>

definition scramble_char :: "(nat \<Rightarrow> nat) \<Rightarrow> string \<Rightarrow> string \<Rightarrow> nat \<Rightarrow> nat \<Rightarrow> string" where
  "scramble_char pick old new frame i =
     (let maxLength = max (length old) (length new)
      in if totalFrames * (i + 2) < frame * maxLength then char_at new i
         else if totalFrames * i < frame * maxLength then [letters ! pick i]
         else char_at old i)"

definition scramble_frame :: "(nat \<Rightarrow> nat) \<Rightarrow> string \<Rightarrow> string \<Rightarrow> nat \<Rightarrow> string" where
  "scramble_frame pick old new frame =
     concat (map (scramble_char pick old new frame) [0..<max (length old) (length new)])"

text \<open>A running animation: its two texts and the frames it has had.\<close>

record animation =
  an_old :: string
  an_new :: string
  an_frame :: nat

record loading =
  currentIndex :: nat
  displayedText :: string
  textInterval :: bool
  animations :: "animation list"

definition animate :: "(nat \<Rightarrow> nat) \<Rightarrow> animation \<Rightarrow> string" where
  "animate pick a =
     (if an_frame a < totalFrames then scramble_frame pick (an_old a) (an_new a) (an_frame a) else an_new a)"

text \<open>One frame: every animation counts it and shows its text, the later ones over the earlier ones.\<close>

definition animation_frame :: "(nat \<Rightarrow> nat) \<Rightarrow> loading \<Rightarrow> loading" where
  "animation_frame pick s =
     (let as = map (\<lambda>a. a\<lparr>an_frame := Suc (an_frame a)\<rparr>) (animations s)
      in s\<lparr>displayedText := fold (\<lambda>a t. animate pick a) as (displayedText s),
           animations := filter (\<lambda>a. an_frame a < totalFrames) as\<rparr>)"

section \<open>The component\<close>

definition loading_messages :: "(string \<Rightarrow> string) \<Rightarrow> string list" where
  "loading_messages t =
     map t [''assistant.loading.searching'', ''assistant.loading.reading'', ''assistant.loading.analyzing'',
            ''assistant.loading.finding'']"

definition targetText :: "(string \<Rightarrow> string) \<Rightarrow> bool \<Rightarrow> string option \<Rightarrow> nat \<Rightarrow> string" where
  "targetText t isLoading text_prop i =
     (if \<not> isLoading then t ''assistant.loading.finished''
      else if truthy_text text_prop then the text_prop
      else loading_messages t ! i)"

definition new_loading :: "(string \<Rightarrow> string) \<Rightarrow> bool \<Rightarrow> string option \<Rightarrow> loading" where
  "new_loading t isLoading text_prop =
     \<lparr>currentIndex = 0, displayedText = targetText t isLoading text_prop 0, textInterval = False, animations = []\<rparr>"

definition loading_mounted :: "bool \<Rightarrow> string option \<Rightarrow> loading \<Rightarrow> loading" where
  "loading_mounted isLoading text_prop s =
     (if \<not> truthy_text text_prop \<and> isLoading then s\<lparr>textInterval := True\<rparr> else s)"

definition scrambleText :: "string \<Rightarrow> string \<Rightarrow> loading \<Rightarrow> loading" where
  "scrambleText old new s = s\<lparr>animations := animations s @ [\<lparr>an_old = old, an_new = new, an_frame = 0\<rparr>]\<rparr>"

definition watch_target :: "string \<Rightarrow> string \<Rightarrow> loading \<Rightarrow> loading" where
  "watch_target new old s = (if new \<noteq> old \<and> new \<noteq> [] \<and> old \<noteq> [] then scrambleText old new s else s)"

definition watch_loading :: "bool \<Rightarrow> loading \<Rightarrow> loading" where
  "watch_loading isLoading s = (if \<not> isLoading \<and> textInterval s then s\<lparr>textInterval := False\<rparr> else s)"

definition rotate_text :: "(string \<Rightarrow> string) \<Rightarrow> loading \<Rightarrow> loading" where
  "rotate_text t s =
     (if textInterval s then s\<lparr>currentIndex := (currentIndex s + 1) mod length (loading_messages t)\<rparr> else s)"

definition loading_unmounted :: "loading \<Rightarrow> loading" where
  "loading_unmounted s = s\<lparr>textInterval := False\<rparr>"

section \<open>AssistantMatrix.vue\<close>

definition matrix_style :: "nat \<Rightarrow> nat \<Rightarrow> nat \<Rightarrow> (string \<times> string) list" where
  "matrix_style side_dots dotSize gap =
     (let side = show_nat (side_dots * dotSize + (side_dots - 1) * gap) @ ''px''
      in [(''display'', ''grid''), (''gridTemplateColumns'', ''repeat('' @ show_nat side_dots @ '', 1fr)''),
          (''gap'', show_nat gap @ ''px''), (''width'', side), (''height'', side)])"

text \<open>The grid when it is shown, with its first step done at once.\<close>

definition matrix_mounted :: matrix where
  "matrix_mounted = nextStep \<lparr>patternIndex = 0, stepIndex = 0, activeDots = []\<rparr>"

definition dot_class :: "matrix \<Rightarrow> nat \<Rightarrow> string" where
  "dot_class m i = (if i - 1 \<in> set (activeDots m) then ''opacity-100'' else ''opacity-20'')"

section \<open>Properties\<close>

lemma matrix_always_ok: "matrix_ok ((nextStep ^^ n) matrix_mounted)"
proof -
  have "matrix_ok \<lparr>patternIndex = 0, stepIndex = 0, activeDots = []\<rparr>"
    by (simp add: matrix_ok_def patterns_def)
  then have "matrix_ok matrix_mounted" unfolding matrix_mounted_def by (rule nextStep_ok)
  then show ?thesis by (induction n) (simp_all add: nextStep_ok)
qed

lemma fold_last: "fold (\<lambda>a t. f a) as x = (if as = [] then x else f (last as))"
  by (induction as arbitrary: x) auto

definition running :: "loading \<Rightarrow> bool" where
  "running s \<longleftrightarrow> sorted_wrt (\<lambda>a b. an_frame b \<le> an_frame a) (animations s) \<and> (\<forall>a \<in> set (animations s). an_frame a < totalFrames)"

lemma running_scramble: "running s \<Longrightarrow> running (scrambleText old new s)"
  by (auto simp: running_def scrambleText_def sorted_wrt_append totalFrames_def)

lemma running_frame: "running s \<Longrightarrow> running (animation_frame pick s)"
  by (auto simp: running_def animation_frame_def Let_def sorted_wrt_map intro!: sorted_wrt_filter)

lemma latest_wins_step:
  assumes "running s" "animations s = as @ [a]" "an_frame a + Suc n = totalFrames"
  shows "n = 0 \<Longrightarrow> displayedText (animation_frame pick s) = an_new a \<and> animations (animation_frame pick s) = []"
    and "n > 0 \<Longrightarrow> \<exists>bs. animations (animation_frame pick s) = bs @ [a\<lparr>an_frame := Suc (an_frame a)\<rparr>]"
  using assms by (fastforce simp: animation_frame_def Let_def fold_last animate_def running_def sorted_wrt_append filter_empty_conv)+

text \<open>However many texts are scrambled at once, the one that was started last is the one that is shown in
  the end, and its frames end all of them.\<close>

theorem latest_text_wins:
  assumes "running s" "animations s = as @ [a]"
  shows "displayedText (((\<lambda>s. animation_frame pick s) ^^ (totalFrames - an_frame a)) s) = an_new a \<and>
     animations (((\<lambda>s. animation_frame pick s) ^^ (totalFrames - an_frame a)) s) = []"
proof -
  have "an_frame a < totalFrames" using assms by (auto simp: running_def)
  then obtain n where n: "an_frame a + Suc n = totalFrames" by (metis add_Suc_right less_iff_Suc_add)
  have "displayedText ((animation_frame pick ^^ Suc n) s) = an_new a \<and> animations ((animation_frame pick ^^ Suc n) s) = []"
    using assms n
  proof (induction n arbitrary: s as a)
    case 0
    then show ?case using latest_wins_step(1) [of s as a 0 pick] by simp
  next
    case (Suc n)
    obtain bs where bs: "animations (animation_frame pick s) = bs @ [a\<lparr>an_frame := Suc (an_frame a)\<rparr>]"
      using latest_wins_step(2) [of s as a "Suc n" pick] Suc.prems by auto
    have "displayedText ((animation_frame pick ^^ Suc n) (animation_frame pick s)) = an_new a \<and>
        animations ((animation_frame pick ^^ Suc n) (animation_frame pick s)) = []"
      using Suc.IH [OF running_frame [OF Suc.prems(1)] bs] Suc.prems(3) by simp
    then show ?case by (simp add: funpow_Suc_right del: funpow.simps)
  qed
  moreover have "totalFrames - an_frame a = Suc n" using n by simp
  ultimately show ?thesis by simp
qed

end
