(* ===== verification/SiteShell.thy ===== *)
theory SiteShell
  imports SiteViews
begin

text \<open>
  The frame of the documentation site: the links of its header and footer (AppHeader.vue,
  AppFooterRight.vue), the page of an error (error.vue), the landing page and the images of its cards
  (templates/landing.vue, OgImageLanding.vue, OgImageDocs.vue), the menu icon, the texts and paths of a site
  with and without languages (useDocusI18n.ts), all in docs/layer/app/, the switch of the colour mode and
  the calls of the Vercel plugin (docs/app/), and what the configuration of the layer computes
  (docs/layer/nuxt.config.ts).
\<close>

section \<open>Header and footer\<close>

record icon_link =
  il_icon :: string
  il_to :: string
  il_target :: string
  il_label :: string

definition header_links :: "github_config option \<Rightarrow> icon_link list" where
  "header_links github =
     (case github of
        None \<Rightarrow> []
      | Some g \<Rightarrow>
          if truthy_text (gh_url g)
          then [\<lparr>il_icon = ''i-simple-icons-github'', il_to = the (gh_url g), il_target = ''_blank'', il_label = ''GitHub''\<rparr>]
          else [])"

definition header_title :: "string option \<Rightarrow> string option \<Rightarrow> string option" where
  "header_title title name = or_text title name"

definition shows_languages :: "bool \<Rightarrow> locale_entry list \<Rightarrow> bool" where
  "shows_languages isEnabled locales \<longleftrightarrow> isEnabled \<and> length locales > 1"

definition footer_links :: "(string \<times> string) list \<Rightarrow> github_config option \<Rightarrow> icon_link list" where
  "footer_links socials github =
     map (\<lambda>(key, url). \<lparr>il_icon = ''i-simple-icons-'' @ key, il_to = url, il_target = ''_blank'',
            il_label = key @ '' social link''\<rparr>) socials @
     (case github of
        None \<Rightarrow> []
      | Some g \<Rightarrow>
          if truthy_text (gh_url g)
          then [\<lparr>il_icon = ''i-simple-icons-github'', il_to = the (gh_url g), il_target = ''_blank'',
                 il_label = ''GitHub repository''\<rparr>]
          else [])"

text \<open>The rotation, the shift and the opacity of the three lines of the menu icon.\<close>

definition menu_line :: "bool \<Rightarrow> nat \<Rightarrow> int \<times> int \<times> int" where
  "menu_line is_open c =
     (if is_open
      then (if c = 1 then 45 else if c = 3 then - 45 else 0, if c = 1 then 6 else if c = 3 then - 6 else 0,
            if c = 2 then 0 else 1)
      else (0, 0, 1))"

section \<open>Languages\<close>

record docus_i18n =
  di_enabled :: bool
  di_locale :: string
  di_locales :: "locale_entry list"
  di_t :: "string \<Rightarrow> jsval"
  di_localePath :: "string \<Rightarrow> string"
  di_switch :: "string \<Rightarrow> string option"

text \<open>\<open>useI18n()\<close>, \<open>useLocalePath()\<close> and \<open>useSwitchLocalePath()\<close> of the i18n module, if it is there.\<close>

record i18n_module =
  im_locale :: string
  im_t :: "string \<Rightarrow> jsval"
  im_localePath :: "string \<Rightarrow> string"
  im_switch :: "string \<Rightarrow> string"

definition useDocusI18n :: "i18n_module option \<Rightarrow> locale_entry list option \<Rightarrow> string \<Rightarrow> jsval \<Rightarrow> docus_i18n" where
  "useDocusI18n i18n filtered locale localeMessages =
     (case i18n of
        None \<Rightarrow>
          \<lparr>di_enabled = False, di_locale = locale, di_locales = [], di_t = translate localeMessages,
           di_localePath = (\<lambda>path. path), di_switch = (\<lambda>l. None)\<rparr>
      | Some m \<Rightarrow>
          \<lparr>di_enabled = True, di_locale = im_locale m, di_locales = (case filtered of None \<Rightarrow> [] | Some ls \<Rightarrow> ls),
           di_t = im_t m, di_localePath = im_localePath m, di_switch = (\<lambda>l. Some (im_switch m l))\<rparr>)"

section \<open>Error and landing page\<close>

text \<open>\<open>{ \<dots>props.error, statusMessage, message }\<close>: keys that are there keep their place.\<close>

definition localizedError :: "(string \<Rightarrow> jsval) \<Rightarrow> (string \<times> jsval) list \<Rightarrow> (string \<times> jsval) list" where
  "localizedError t err =
     AList.update ''message'' (t ''common.error.description'') (AList.update ''statusMessage'' (t ''common.error.title'') err)"

definition error_redirect :: "docus_i18n \<Rightarrow> string \<Rightarrow> string \<Rightarrow> string option" where
  "error_redirect i defaultLocale path =
     (if di_enabled i \<and> \<not> list_ex (\<lambda>l. code_property l = second_part path \<and> second_part path \<noteq> None) (di_locales i)
      then di_switch i defaultLocale else None)"

record landing_page =
  lp_title :: "string option"
  lp_description :: "string option"
  lp_seoTitle :: "string option"
  lp_seoDescription :: "string option"
  lp_ogImage :: "string option"

record landing_seo =
  ls_title :: "string option"
  ls_description :: "string option"
  ls_ogImage :: "string option"
  ls_card :: "(string option \<times> string option) option"

definition landing_collection :: "bool \<Rightarrow> string \<Rightarrow> string" where
  "landing_collection isEnabled locale = (if isEnabled then ''landing_'' @ locale else ''landing'')"

text \<open>Without a page it is an error 404; without an image of its own the page gets a card.\<close>

definition landing :: "landing_page option \<Rightarrow> jserr + landing_seo" where
  "landing page =
     (case page of
        None \<Rightarrow> Inl (Error ''Page not found'')
      | Some p \<Rightarrow>
          (let title = or_text (lp_seoTitle p) (lp_title p);
               description = or_text (lp_seoDescription p) (lp_description p)
           in Inr \<lparr>ls_title = title, ls_description = description, ls_ogImage = lp_ogImage p,
                ls_card = (if truthy_text (lp_ogImage p) then None else Some (title, description))\<rparr>))"

definition card_texts :: "string option \<Rightarrow> string option \<Rightarrow> string \<times> string" where
  "card_texts title description =
     (take 60 (case title of None \<Rightarrow> ''title'' | Some t \<Rightarrow> t), take 200 (case description of None \<Rightarrow> ''description'' | Some d \<Rightarrow> d))"

definition card_logo :: "string option \<Rightarrow> string option \<Rightarrow> string option" where
  "card_logo dark light = or_text dark light"

text \<open>\<open>svg.replace('<svg', '<svg width="100%" height="100%"')\<close>: the first occurrence.\<close>

fun size_svg :: "string \<Rightarrow> string" where
  "size_svg [] = []"
| "size_svg (c # cs) =
     (if prefix ''<svg'' (c # cs)
      then ''<svg width='' @ [CHR 0x22] @ ''100%'' @ [CHR 0x22] @ '' height='' @ [CHR 0x22] @ ''100%'' @ [CHR 0x22] @ drop 4 (c # cs)
      else c # size_svg cs)"

definition fetchLogoSvg :: "(string \<Rightarrow> jserr + string) \<Rightarrow> string \<Rightarrow> string option \<Rightarrow> string" where
  "fetchLogoSvg fetch siteUrl path =
     (if \<not> truthy_text path then []
      else
        let url = (if prefix ''http'' (the path) then the path else siteUrl @ the path)
        in case fetch url of Inl e \<Rightarrow> [] | Inr svg \<Rightarrow> size_svg svg)"

section \<open>Colour mode\<close>

text \<open>The switch sets the preference; its click assigns to a name that is declared nowhere, which is left out.\<close>

record color_mode =
  cm_value :: string
  cm_preference :: string

definition isLight :: "color_mode \<Rightarrow> bool" where
  "isLight m \<longleftrightarrow> cm_value m = ''light''"

definition set_isLight :: "bool \<Rightarrow> color_mode \<Rightarrow> color_mode" where
  "set_isLight b m = m\<lparr>cm_preference := (if b then ''light'' else ''dark'')\<rparr>"

section \<open>Page views\<close>

datatype vercel_call = InjectSpeedInsights string | InjectAnalytics | PageView string string | SetRoute string

definition matched_route :: "string option \<Rightarrow> string \<Rightarrow> string" where
  "matched_route matched path = shown_text (or_text matched (Some path))"

definition vercel_start :: "bool \<Rightarrow> string option \<Rightarrow> string \<Rightarrow> vercel_call list" where
  "vercel_start dev matched path = (if dev then [] else [InjectSpeedInsights (matched_route matched path)])"

definition vercel_ready :: "bool \<Rightarrow> string option \<Rightarrow> string \<Rightarrow> vercel_call list" where
  "vercel_ready dev matched path = (if dev then [] else [InjectAnalytics, PageView (matched_route matched path) path])"

definition vercel_page :: "bool \<Rightarrow> bool \<Rightarrow> string option \<Rightarrow> string \<Rightarrow> vercel_call list" where
  "vercel_page dev insights matched path =
     (if dev then []
      else PageView (matched_route matched path) path # (if insights then [SetRoute (matched_route matched path)] else []))"

section \<open>The configuration of the layer\<close>

definition content_prefix :: string where
  "content_prefix = ''@nuxt/content > ''"

definition docus_content :: "string \<Rightarrow> string" where
  "docus_content s =
     (if prefix content_prefix s then ''docus > @nuxt/content > '' @ drop (length content_prefix) s else s)"

text \<open>The dependencies Vite optimises. The last \<open>map\<close> of the code makes an array nobody uses.\<close>

definition optimize_deps :: "bool \<Rightarrow> string list option \<Rightarrow> string list" where
  "optimize_deps hasGatewayKey deps =
     (let deps1 = map docus_content ((case deps of None \<Rightarrow> [] | Some ds \<Rightarrow> ds) @ [''@nuxt/content > slugify''])
      in if hasGatewayKey then deps1 @ [''@vercel/oidc''] else deps1)"

definition prerender_routes :: "locale_entry list option option \<Rightarrow> string list option \<Rightarrow> string list" where
  "prerender_routes i18n routes0 =
     (let routes = (case i18n of
                      None \<Rightarrow> [''/'']
                    | Some locales \<Rightarrow> map (\<lambda>l. ''/'' @ locale_code l) (case locales of None \<Rightarrow> [] | Some ls \<Rightarrow> ls))
      in (case routes0 of None \<Rightarrow> [] | Some rs \<Rightarrow> rs) @ routes @ [''/sitemap.xml''])"

section \<open>A documentation page\<close>

text \<open>\<open>findPageHeadline\<close> is a function of the content library.\<close>

record docs_view =
  dv_seo :: seo_options
  dv_headline :: "string option"
  dv_prerender :: string
  dv_github :: "github_config option"

definition docs_page ::
  "(nav_item list option \<Rightarrow> string option \<Rightarrow> string option) \<Rightarrow> nav_item list option \<Rightarrow> github_config option \<Rightarrow> string \<Rightarrow>
   (string option \<times> string option \<times> doc_page) option \<Rightarrow> jserr + docs_view" where
  "docs_page findPageHeadline navigation github path page =
     (case page of
        None \<Rightarrow> Inl (Error ''Page not found'')
      | Some (seoTitle, seoDescription, p) \<Rightarrow>
          Inr \<lparr>dv_seo = page_seo navigation seoTitle seoDescription p, dv_headline = findPageHeadline navigation (pg_path p),
               dv_prerender = ''/raw'' @ path @ ''.md'', dv_github = github\<rparr>)"

text \<open>When the navigation changes, an empty headline leaves the one that is shown.\<close>

definition watch_navigation ::
  "(nav_item list option \<Rightarrow> string option \<Rightarrow> string option) \<Rightarrow> nav_item list option \<Rightarrow> string option \<Rightarrow> docs_view \<Rightarrow> docs_view" where
  "watch_navigation findPageHeadline navigation path v =
     v\<lparr>dv_headline := or_text (findPageHeadline navigation path) (dv_headline v)\<rparr>"

definition toc_shown :: "nat \<Rightarrow> bool \<Rightarrow> bool" where
  "toc_shown links hideToc \<longleftrightarrow> links \<noteq> 0 \<and> \<not> hideToc"

definition issue_link :: "github_config option \<Rightarrow> string option" where
  "issue_link github = map_option (\<lambda>g. shown_text (gh_url g) @ ''/issues/new/choose'') github"

text \<open>The meta tags of a page, and the image of its own.\<close>

definition seo_meta :: "seo_site \<Rightarrow> string option \<Rightarrow> seo_options \<Rightarrow> (string \<times> string option) list" where
  "seo_meta x locale opts =
     [(''title'', so_title opts), (''description'', so_description opts), (''ogTitle'', so_title opts),
      (''ogDescription'', so_description opts), (''ogType'', Some (seo_type opts)), (''ogUrl'', canonicalUrl x),
      (''ogLocale'', if sx_locales x \<noteq> None then locale else None)]"

definition image_meta :: "string option \<Rightarrow> (string \<times> string option) list" where
  "image_meta ogImage = (if truthy_text ogImage then [(''ogImage'', ogImage), (''twitterImage'', ogImage)] else [])"

section \<open>The application\<close>

definition app_margin :: "bool \<Rightarrow> int \<Rightarrow> string" where
  "app_margin shouldPushContent panelWidth = (if shouldPushContent then show_int panelWidth @ ''px'' else ''0'')"

text \<open>The parts that are shown, with the header and footer a route may switch off.\<close>

definition app_parts :: "bool option \<Rightarrow> bool option \<Rightarrow> bool \<Rightarrow> string list" where
  "app_parts header footer assistant =
     (if header \<noteq> Some False then [''AppHeader''] else []) @ [''NuxtPage''] @
     (if footer \<noteq> Some False then [''AppFooter''] else []) @ [''LazyUContentSearch''] @
     (if assistant then [''LazyAssistantPanel'', ''LazyAssistantFloatingInput''] else [])"

section \<open>Properties\<close>

text \<open>A site without languages is translated by its messages, keeps its paths and is never redirected.\<close>

lemma one_language:
  "let i = useDocusI18n None filtered locale ms in
   di_localePath i p = p \<and> di_switch i l = None \<and> error_redirect i defaultLocale path = None \<and>
   \<not> shows_languages (di_enabled i) (di_locales i)"
  by (simp add: useDocusI18n_def error_redirect_def shows_languages_def Let_def)

text \<open>The error page redirects where the application does.\<close>

lemma error_redirects_as_app:
  assumes "\<And>l. l \<in> set ls \<Longrightarrow> \<exists>c n. l = LocaleObject c n"
  shows "error_redirect (useDocusI18n (Some m) (Some ls) locale ms) defaultLocale path =
     app_redirect True (map locale_code ls) defaultLocale (im_switch m) path"
proof -
  have "code_property l = Some (locale_code l)" if "l \<in> set ls" for l
    using assms [OF that] by (auto simp: code_property_def locale_code_def)
  then have "list_ex (\<lambda>l. code_property l = second_part path \<and> second_part path \<noteq> None) ls \<longleftrightarrow>
      second_part path \<in> Some ` set (map locale_code ls)"
    by (auto simp: list_ex_iff)
  then show ?thesis by (simp add: error_redirect_def useDocusI18n_def app_redirect_def)
qed

lemma vercel_not_rewritten: "''docus > @vercel/oidc'' \<notin> set (optimize_deps True None)"
  by (simp add: optimize_deps_def docus_content_def content_prefix_def)

lemma slugify_rewritten: "''docus > @nuxt/content > slugify'' \<in> set (optimize_deps b deps)"
  by (auto simp: optimize_deps_def docus_content_def content_prefix_def image_iff Let_def)

lemma sitemap_prerendered: "last (prerender_routes i18n routes) = ''/sitemap.xml''"
  by (simp add: prerender_routes_def Let_def)

text \<open>A repository that is also one of the social links is linked twice in the footer.\<close>

lemma footer_repeats:
  assumes "truthy_text (gh_url g)"
  shows "length (filter (\<lambda>l. il_icon l = ''i-simple-icons-github'')
     (footer_links [(''x'', x), (''github'', u), (''discord'', d)] (Some g))) = 2"
  using assms by (simp add: footer_links_def)

text \<open>A page that is there passes its title, or the one of its meta data, on to its meta tags.\<close>

lemma page_title_is_meta_title:
  assumes "docs_page headline navigation github path (Some (seoTitle, seoDescription, p)) = Inr v"
  shows "map_of (seo_meta x locale (dv_seo v)) ''ogTitle'' = Some (if truthy_text seoTitle then seoTitle else Some (pg_title p))"
  using assms by (auto simp: docs_page_def seo_meta_def page_seo_def or_text_def)

end
