(* ===== verification/LogoAnimation.thy ===== *)
theory LogoAnimation
  imports Prelude Complex_Main
begin

text \<open>
  The animated logo of the site (docs/app/components/AppHeaderLogo.vue): blinking, wiggling and the
  particles of a click, as a machine of timers. A pending timer is its number, its delay and its
  callback; it may fire at any time after it is set, whatever its delay. \<open>Math.random()\<close> is a reading
  that comes with the action; angles and positions are exact numbers. The template only shows the state.
\<close>

section \<open>State and timers\<close>

datatype callback = BlinkOn | BlinkOff | WiggleOn | WiggleOff | DropParticle nat

type_synonym logo_timer = "nat \<times> rat \<times> callback"

record particle =
  p_id :: nat
  p_x :: rat
  p_y :: rat
  p_angle :: rat
  p_color :: string

record logo =
  isBlinking :: bool
  isHovering :: bool
  isPressed :: bool
  isTouchDevice :: bool
  isWiggling :: bool
  particles :: "particle list"
  particleIdCounter :: nat
  blinkCleanup :: "nat option"
  timers :: "logo_timer list"
  next_timer :: nat

definition new_logo :: logo where
  "new_logo =
     \<lparr>isBlinking = False, isHovering = False, isPressed = False, isTouchDevice = False, isWiggling = False,
      particles = [], particleIdCounter = 0, blinkCleanup = None, timers = [], next_timer = 0\<rparr>"

definition PARTICLE_COLORS :: "string list" where
  "PARTICLE_COLORS = [''#00E5FF'', ''#3B82F6'', ''#00E5FF'', ''#3B82F6'', ''#FFFFFF'']"

definition logoSrc :: "string \<Rightarrow> string" where
  "logoSrc colorMode = (if colorMode = ''light'' then ''/omnipaw_logo_dark.png'' else ''/omnipaw_logo_light.png'')"

definition textColor :: "bool \<Rightarrow> string" where
  "textColor white = (if white then ''text-white'' else ''text-black dark:text-white'')"

definition setTimeout :: "callback \<Rightarrow> rat \<Rightarrow> logo \<Rightarrow> nat \<times> logo" where
  "setTimeout cb delay s =
     (next_timer s, s\<lparr>timers := timers s @ [(next_timer s, delay, cb)], next_timer := Suc (next_timer s)\<rparr>)"

definition clearTimeout :: "nat \<Rightarrow> logo \<Rightarrow> logo" where
  "clearTimeout n s = s\<lparr>timers := filter (\<lambda>t. fst t \<noteq> n) (timers s)\<rparr>"

section \<open>The loops\<close>

definition setupBlinking :: "rat \<Rightarrow> logo \<Rightarrow> nat \<times> logo" where
  "setupBlinking r s = setTimeout BlinkOn (r * 4000 + 2500) s"

definition setupWiggle :: "rat \<Rightarrow> logo \<Rightarrow> logo" where
  "setupWiggle r s = snd (setTimeout WiggleOn (r * 8000 + 5000) s)"

text \<open>A callback, with the reading of \<open>Math.random()\<close> it may make.\<close>

fun run_callback :: "callback \<Rightarrow> rat \<Rightarrow> logo \<Rightarrow> logo" where
  "run_callback BlinkOn r s =
     (let (inner, s1) = setTimeout BlinkOff 160 (s\<lparr>isBlinking := True\<rparr>) in s1\<lparr>blinkCleanup := Some inner\<rparr>)"
| "run_callback BlinkOff r s =
     (let (outer, s1) = setupBlinking r (s\<lparr>isBlinking := False\<rparr>) in s1\<lparr>blinkCleanup := Some outer\<rparr>)"
| "run_callback WiggleOn r s =
     (if \<not> isHovering s then snd (setTimeout WiggleOff 600 (s\<lparr>isWiggling := True\<rparr>)) else setupWiggle r s)"
| "run_callback WiggleOff r s = setupWiggle r (s\<lparr>isWiggling := False\<rparr>)"
| "run_callback (DropParticle n) r s = s\<lparr>particles := filter (\<lambda>p. p_id p \<noteq> n) (particles s)\<rparr>"

definition fire :: "logo_timer \<Rightarrow> rat \<Rightarrow> logo \<Rightarrow> logo" where
  "fire t r s = run_callback (snd (snd t)) r (clearTimeout (fst t) s)"

section \<open>Events\<close>

definition burst_particle :: "rat \<Rightarrow> rat \<Rightarrow> nat \<Rightarrow> rat \<Rightarrow> rat \<Rightarrow> logo \<Rightarrow> logo" where
  "burst_particle cx cy i r1 r2 s =
     (let n = particleIdCounter s;
          angle = 360 / 10 * of_nat i + r1 * 20 - 10;
          color = PARTICLE_COLORS ! nat \<lfloor>r2 * of_nat (length PARTICLE_COLORS)\<rfloor>;
          p = \<lparr>p_id = n, p_x = cx, p_y = cy, p_angle = angle, p_color = color\<rparr>
      in snd (setTimeout (DropParticle n) 700 (s\<lparr>particleIdCounter := Suc n, particles := particles s @ [p]\<rparr>)))"

text \<open>The position of the pointer and of the button, and the two readings of each round.\<close>

definition handleClick :: "rat \<times> rat \<Rightarrow> rat \<times> rat \<Rightarrow> (nat \<Rightarrow> rat \<times> rat) \<Rightarrow> logo \<Rightarrow> logo" where
  "handleClick client corner rs s =
     fold (\<lambda>i. burst_particle (fst client - fst corner) (snd client - snd corner) i (fst (rs i)) (snd (rs i))) [0..<10] s"

definition on_mounted :: "rat \<Rightarrow> rat \<Rightarrow> bool \<Rightarrow> logo \<Rightarrow> logo" where
  "on_mounted r1 r2 touch s =
     (let (outer, s1) = setupBlinking r1 s
      in (setupWiggle r2 (s1\<lparr>blinkCleanup := Some outer\<rparr>))\<lparr>isTouchDevice := touch\<rparr>)"

definition on_before_unmount :: "logo \<Rightarrow> logo" where
  "on_before_unmount s = (case blinkCleanup s of None \<Rightarrow> s | Some n \<Rightarrow> clearTimeout n s)"

datatype logo_event = MouseEnter | MouseLeave | MouseDown | MouseUp | Click "rat \<times> rat" "rat \<times> rat" "nat \<Rightarrow> rat \<times> rat"

fun logo_event_step :: "logo_event \<Rightarrow> logo \<Rightarrow> logo" where
  "logo_event_step MouseEnter s = s\<lparr>isHovering := True\<rparr>"
| "logo_event_step MouseLeave s = s\<lparr>isHovering := False, isPressed := False\<rparr>"
| "logo_event_step MouseDown s = s\<lparr>isPressed := True\<rparr>"
| "logo_event_step MouseUp s = s\<lparr>isPressed := False\<rparr>"
| "logo_event_step (Click client corner rs) s = handleClick client corner rs s"

datatype logo_stage = Created | Shown | Gone

inductive logo_reach :: "logo_stage \<Rightarrow> logo \<Rightarrow> bool" where
  created: "logo_reach Created new_logo"
| mounted: "logo_reach Created s \<Longrightarrow> logo_reach Shown (on_mounted r1 r2 touch s)"
| event: "logo_reach Shown s \<Longrightarrow> logo_reach Shown (logo_event_step e s)"
| fires: "logo_reach g s \<Longrightarrow> t \<in> set (timers s) \<Longrightarrow> logo_reach g (fire t r s)"
| unmounted: "logo_reach Shown s \<Longrightarrow> logo_reach Gone (on_before_unmount s)"

section \<open>The timers that are pending\<close>

fun is_blink :: "callback \<Rightarrow> bool" where
  "is_blink BlinkOn = True" | "is_blink BlinkOff = True" | "is_blink cb = False"

fun is_wiggle :: "callback \<Rightarrow> bool" where
  "is_wiggle WiggleOn = True" | "is_wiggle WiggleOff = True" | "is_wiggle cb = False"

fun dropped :: "callback \<Rightarrow> nat list" where
  "dropped (DropParticle n) = [n]" | "dropped cb = []"

definition blinks :: "logo \<Rightarrow> logo_timer list" where
  "blinks s = filter (\<lambda>t. is_blink (snd (snd t))) (timers s)"

definition wiggles :: "logo \<Rightarrow> logo_timer list" where
  "wiggles s = filter (\<lambda>t. is_wiggle (snd (snd t))) (timers s)"

definition drops :: "logo_timer list \<Rightarrow> nat list" where
  "drops ts = concat (map (\<lambda>t. dropped (snd (snd t))) ts)"

definition timers_ok :: "logo \<Rightarrow> bool" where
  "timers_ok s \<longleftrightarrow> distinct (map fst (timers s)) \<and> (\<forall>t \<in> set (timers s). fst t < next_timer s) \<and>
     drops (timers s) = map p_id (particles s) \<and> distinct (map p_id (particles s)) \<and>
     (\<forall>p \<in> set (particles s). p_id p < particleIdCounter s)"

definition one_wiggle :: "logo \<Rightarrow> bool" where
  "one_wiggle s \<longleftrightarrow> map (\<lambda>t. snd (snd t)) (wiggles s) = [if isWiggling s then WiggleOff else WiggleOn]"

definition one_blink :: "logo \<Rightarrow> bool" where
  "one_blink s \<longleftrightarrow> map (\<lambda>t. (Some (fst t), snd (snd t))) (blinks s) = [(blinkCleanup s, if isBlinking s then BlinkOff else BlinkOn)]"

fun stage_ok :: "logo_stage \<Rightarrow> logo \<Rightarrow> bool" where
  "stage_ok Created s \<longleftrightarrow> timers s = [] \<and> \<not> isBlinking s \<and> \<not> isWiggling s"
| "stage_ok Shown s \<longleftrightarrow> one_blink s \<and> one_wiggle s"
| "stage_ok Gone s \<longleftrightarrow> blinks s = [] \<and> one_wiggle s"

lemma setTimeout_simps [simp]:
  "fst (setTimeout cb d s) = next_timer s"
  "timers (snd (setTimeout cb d s)) = timers s @ [(next_timer s, d, cb)]"
  "next_timer (snd (setTimeout cb d s)) = Suc (next_timer s)"
  "isBlinking (snd (setTimeout cb d s)) = isBlinking s" "isWiggling (snd (setTimeout cb d s)) = isWiggling s"
  "blinkCleanup (snd (setTimeout cb d s)) = blinkCleanup s" "particles (snd (setTimeout cb d s)) = particles s"
  "particleIdCounter (snd (setTimeout cb d s)) = particleIdCounter s"
  by (simp_all add: setTimeout_def)

lemma clearTimeout_simps [simp]:
  "timers (clearTimeout n s) = filter (\<lambda>t. fst t \<noteq> n) (timers s)" "next_timer (clearTimeout n s) = next_timer s"
  "isBlinking (clearTimeout n s) = isBlinking s" "isWiggling (clearTimeout n s) = isWiggling s"
  "isHovering (clearTimeout n s) = isHovering s"
  "blinkCleanup (clearTimeout n s) = blinkCleanup s" "particles (clearTimeout n s) = particles s"
  "particleIdCounter (clearTimeout n s) = particleIdCounter s"
  by (simp_all add: clearTimeout_def)

lemma drops_simps [simp]:
  "drops [] = []" "drops (t # ts) = dropped (snd (snd t)) @ drops ts" "drops (ts @ us) = drops ts @ drops us"
  by (simp_all add: drops_def)

lemma removed_drops:
  assumes "distinct (map fst ts)" "t \<in> set ts" "distinct (drops ts)"
  shows "drops (filter (\<lambda>u. fst u \<noteq> fst t) ts) = filter (\<lambda>n. n \<notin> set (dropped (snd (snd t)))) (drops ts)"
  using assms
proof (induction ts)
  case (Cons u ts)
  show ?case
  proof (cases "fst u = fst t")
    case True
    then have "u = t" using Cons.prems(1,2) by (metis distinct.simps(2) image_eqI list.set_map list.simps(9) set_ConsD)
    moreover from this have "filter (\<lambda>u. fst u \<noteq> fst t) ts = ts"
      using Cons.prems(1) by (auto simp: filter_id_conv image_iff)
    moreover have "filter (\<lambda>n. n \<notin> set (dropped (snd (snd u)))) (drops ts) = drops ts"
      using Cons.prems(3) by (auto simp: filter_id_conv)
    ultimately show ?thesis by simp
  next
    case False
    then have t: "t \<in> set ts" using Cons.prems(2) by auto
    then have "set (dropped (snd (snd t))) \<subseteq> set (drops ts)" by (auto simp: drops_def)
    then have "filter (\<lambda>n. n \<notin> set (dropped (snd (snd t)))) (dropped (snd (snd u))) = dropped (snd (snd u))"
      using Cons.prems(3) by (auto simp: filter_id_conv)
    then show ?thesis using Cons False t by simp
  qed
qed simp

text \<open>A timer that is set leaves the others; a timer that fires or is cleared is gone.\<close>

lemma timers_ok_set:
  "timers_ok s \<Longrightarrow> dropped cb = [] \<Longrightarrow> timers_ok (snd (setTimeout cb d s))"
  by (auto simp: timers_ok_def less_Suc_eq)

lemma timers_ok_cleared:
  assumes "timers_ok s" "t \<in> set (timers s)"
  shows "timers_ok (run_callback (snd (snd t)) r (clearTimeout (fst t) s))"
proof -
  have d: "drops (filter (\<lambda>u. fst u \<noteq> fst t) (timers s)) =
      filter (\<lambda>n. n \<notin> set (dropped (snd (snd t)))) (map p_id (particles s))"
    using removed_drops [of "timers s" t] assms by (simp add: timers_ok_def)
  show ?thesis
    using assms d
    by (cases "snd (snd t)")
      (auto simp: timers_ok_def setupBlinking_def setupWiggle_def Let_def split_beta less_Suc_eq
        distinct_map_filter filter_map o_def)
qed

lemma timers_ok_burst: "timers_ok s \<Longrightarrow> timers_ok (burst_particle cx cy i r1 r2 s)"
  by (auto simp: timers_ok_def burst_particle_def Let_def less_Suc_eq)

lemma burst_loops [simp]:
  "blinks (burst_particle cx cy i r1 r2 s) = blinks s" "wiggles (burst_particle cx cy i r1 r2 s) = wiggles s"
  "blinkCleanup (burst_particle cx cy i r1 r2 s) = blinkCleanup s"
  "isBlinking (burst_particle cx cy i r1 r2 s) = isBlinking s" "isWiggling (burst_particle cx cy i r1 r2 s) = isWiggling s"
  by (simp_all add: burst_particle_def blinks_def wiggles_def Let_def)

lemma fold_kept:
  "(\<And>i s. P s \<Longrightarrow> P (f i s)) \<Longrightarrow> P s \<Longrightarrow> P (fold f is s)"
  by (induction "is" arbitrary: s) auto

lemma one_burst: "one_blink (burst_particle cx cy i r1 r2 s) = one_blink s" "one_wiggle (burst_particle cx cy i r1 r2 s) = one_wiggle s"
  by (simp_all add: one_blink_def one_wiggle_def)

lemma click_ok:
  "timers_ok s \<Longrightarrow> timers_ok (handleClick client corner rs s)"
  "one_blink s \<Longrightarrow> one_blink (handleClick client corner rs s)"
  "one_wiggle s \<Longrightarrow> one_wiggle (handleClick client corner rs s)"
  unfolding handleClick_def by (rule fold_kept; simp add: timers_ok_burst one_burst)+

text \<open>The blink timer that fires is the one pending, and so for the wiggle timer.\<close>

lemma cleared_loops:
  assumes "timers_ok s" "t \<in> set (timers s)"
  shows "blinks (clearTimeout (fst t) s) = (if is_blink (snd (snd t)) then removeAll t (blinks s) else blinks s)"
    and "wiggles (clearTimeout (fst t) s) = (if is_wiggle (snd (snd t)) then removeAll t (wiggles s) else wiggles s)"
proof -
  have eq: "filter (\<lambda>u. fst u \<noteq> fst t) (timers s) = filter (\<lambda>u. u \<noteq> t) (timers s)"
    using assms by (intro filter_cong refl) (auto simp: timers_ok_def distinct_map inj_on_def)
  show "blinks (clearTimeout (fst t) s) = (if is_blink (snd (snd t)) then removeAll t (blinks s) else blinks s)"
    by (auto simp: blinks_def eq removeAll_filter_not_eq intro!: filter_cong)
  show "wiggles (clearTimeout (fst t) s) = (if is_wiggle (snd (snd t)) then removeAll t (wiggles s) else wiggles s)"
    by (auto simp: wiggles_def eq removeAll_filter_not_eq intro!: filter_cong)
qed

lemma loops_set [simp]:
  "blinks (snd (setTimeout cb d s)) = blinks s @ (if is_blink cb then [(next_timer s, d, cb)] else [])"
  "wiggles (snd (setTimeout cb d s)) = wiggles s @ (if is_wiggle cb then [(next_timer s, d, cb)] else [])"
  by (simp_all add: blinks_def wiggles_def)

lemma loops_of_timers [simp]:
  "blinks (s\<lparr>isBlinking := b\<rparr>) = blinks s" "wiggles (s\<lparr>isBlinking := b\<rparr>) = wiggles s"
  "blinks (s\<lparr>isWiggling := b\<rparr>) = blinks s" "wiggles (s\<lparr>isWiggling := b\<rparr>) = wiggles s"
  "blinks (s\<lparr>isHovering := b\<rparr>) = blinks s" "wiggles (s\<lparr>isHovering := b\<rparr>) = wiggles s"
  "blinks (s\<lparr>isPressed := b\<rparr>) = blinks s" "wiggles (s\<lparr>isPressed := b\<rparr>) = wiggles s"
  "blinks (s\<lparr>isTouchDevice := b\<rparr>) = blinks s" "wiggles (s\<lparr>isTouchDevice := b\<rparr>) = wiggles s"
  "blinks (s\<lparr>blinkCleanup := c\<rparr>) = blinks s" "wiggles (s\<lparr>blinkCleanup := c\<rparr>) = wiggles s"
  "blinks (s\<lparr>particles := ps\<rparr>) = blinks s" "wiggles (s\<lparr>particles := ps\<rparr>) = wiggles s"
  by (simp_all add: blinks_def wiggles_def)

lemma stage_fire:
  assumes ok: "timers_ok s" "stage_ok g s" and t: "t \<in> set (timers s)"
  shows "stage_ok g (fire t r s)"
proof -
  obtain n d cb where nd: "t = (n, d, cb)" by (cases t) auto
  have mem: "is_blink cb \<Longrightarrow> t \<in> set (blinks s)" "is_wiggle cb \<Longrightarrow> t \<in> set (wiggles s)"
    using t nd by (simp_all add: blinks_def wiggles_def)
  show ?thesis
    using mem ok(2) t cleared_loops [OF ok(1) t] nd
    by (cases g; cases cb)
      (auto simp: fire_def one_blink_def one_wiggle_def setupBlinking_def setupWiggle_def Let_def split_beta
        map_eq_Cons_conv split: if_splits)
qed

lemma stage_event: "timers_ok s \<Longrightarrow> stage_ok Shown s \<Longrightarrow> timers_ok (logo_event_step e s) \<and> stage_ok Shown (logo_event_step e s)"
  by (cases e) (simp_all add: click_ok, simp_all add: timers_ok_def one_blink_def one_wiggle_def)

lemma stage_mounted:
  "timers_ok s \<Longrightarrow> stage_ok Created s \<Longrightarrow> timers_ok (on_mounted r1 r2 touch s) \<and> stage_ok Shown (on_mounted r1 r2 touch s)"
  by (auto simp: on_mounted_def setupBlinking_def setupWiggle_def Let_def split_beta timers_ok_def one_blink_def one_wiggle_def
      blinks_def wiggles_def)

lemma stage_unmounted:
  assumes "timers_ok s" "stage_ok Shown s"
  shows "timers_ok (on_before_unmount s) \<and> stage_ok Gone (on_before_unmount s)"
proof -
  obtain n d cb where b: "blinks s = [(n, d, cb)]" "blinkCleanup s = Some n" "is_blink cb"
    using assms(2) by (auto simp: one_blink_def map_eq_Cons_conv)
  then have t: "(n, d, cb) \<in> set (timers s)" by (auto simp: blinks_def filter_eq_Cons_iff)
  have "drops (filter (\<lambda>u. fst u \<noteq> n) (timers s)) = drops (timers s)"
    using removed_drops [of "timers s" "(n, d, cb)"] assms(1) t b(3) by (cases cb) (auto simp: timers_ok_def)
  then show ?thesis
    using assms cleared_loops [OF assms(1) t] b
    by (cases cb) (auto simp: on_before_unmount_def timers_ok_def one_wiggle_def distinct_map_filter)
qed

theorem logo_invariant: "logo_reach g s \<Longrightarrow> timers_ok s \<and> stage_ok g s"
proof (induction rule: logo_reach.induct)
  case created
  then show ?case by (simp add: new_logo_def timers_ok_def)
next
  case (fires g s t r)
  then show ?case using stage_fire timers_ok_cleared by (auto simp: fire_def)
qed (use stage_mounted stage_event stage_unmounted in blast)+

section \<open>Properties\<close>

text \<open>
  C1: While the logo is shown exactly one blink timer is pending, the one the clean-up clears, and it
  ends the blink if the logo is blinking; the particles shown are those whose removal is pending. Once
  the logo is gone no blink timer is pending, but the timers of the wiggle go on: one is pending in every
  state ever after.
\<close>

theorem logo_timers:
  assumes "logo_reach g s" "g \<noteq> Created"
  shows "(if g = Gone then blinks s = []
      else \<exists>n d. blinks s = [(n, d, if isBlinking s then BlinkOff else BlinkOn)] \<and> blinkCleanup s = Some n) \<and>
    (\<exists>n d. wiggles s = [(n, d, if isWiggling s then WiggleOff else WiggleOn)]) \<and>
    map p_id (particles s) = drops (timers s) \<and> distinct (map p_id (particles s))"
proof -
  have ok: "timers_ok s" "stage_ok g s" using logo_invariant [OF assms(1)] by auto
  then have "one_wiggle s" using assms(2) by (cases g) auto
  then have "\<exists>n d. wiggles s = [(n, d, if isWiggling s then WiggleOff else WiggleOn)]"
    by (auto simp: one_wiggle_def map_eq_Cons_conv)
  moreover have "if g = Gone then blinks s = []
      else \<exists>n d. blinks s = [(n, d, if isBlinking s then BlinkOff else BlinkOn)] \<and> blinkCleanup s = Some n"
    using ok(2) assms(2) by (cases g) (auto simp: one_blink_def map_eq_Cons_conv)
  ultimately show ?thesis using ok(1) by (simp add: timers_ok_def)
qed

definition left_logo :: logo where
  "left_logo = fire (1, 5000, WiggleOn) 0 (on_before_unmount (on_mounted 0 0 False new_logo))"

lemma logo_timers_witness: "isWiggling left_logo \<and> (\<exists>n d. wiggles left_logo = [(n, d, WiggleOff)])"
proof -
  have "logo_reach Gone (on_before_unmount (on_mounted 0 0 False new_logo))"
    by (intro logo_reach.intros)
  then have "logo_reach Gone left_logo"
    unfolding left_logo_def
    by (rule logo_reach.fires) (simp add: on_before_unmount_def on_mounted_def setupBlinking_def setupWiggle_def Let_def
        setTimeout_def clearTimeout_def new_logo_def)
  moreover have "isWiggling left_logo"
    by (simp add: left_logo_def fire_def on_before_unmount_def on_mounted_def setupBlinking_def setupWiggle_def Let_def
        setTimeout_def clearTimeout_def new_logo_def)
  ultimately show ?thesis using logo_timers [of Gone left_logo] by simp
qed

end
