(* ===== verification/Spec2Isabelle.thy ===== *)
theory Spec2Isabelle
  imports Replay Ephemeral Invariants Swarm PluginLoader Sqlite FileLog Dashboard Docker Simulation Researcher Interference
    Navigation SiteConfig MarkdownRoutes Assistant Seo Metered Telemetry ModuleSuites HostSuites SiteViews Reentrant
    DashboardPage Terminal AssistantRoute ChatViews Progress SiteShell LogoAnimation
begin

text \<open>
  A model of OmniPaw, a kernel that runs language-model agents as if they were processes, and of
  the host code around it. All files are named from src/.

  \<^bold>\<open>The program.\<close> Every component of the kernel writes to one append-only execution log and reads one
  clock. Agents have a lifecycle, authority in the form of grants, and three kinds of memory. A run
  of an agent is a loop of ticks: each tick evaluates one instruction; a tool call leaves the tick,
  goes through the tool gate, and comes back as the value of the next. In LIVE mode ticks and tool
  results are logged; in REPLAY mode they are checked against the log and tools are not called.

  \<^bold>\<open>Common ground.\<close> \<open>Prelude\<close>: results of code that may throw (\<open>jserr + 'a\<close>), state passing
  (\<open>outcome\<close>), the insertion-ordered \<open>Map\<close>, decimal printing. \<open>JsValue\<close>: the values of the program,
  with numbers as integers or as other literals. \<open>JsRecord\<close>: a plain object as a dictionary, with
  the names its prototype knows. \<open>JsonText\<close>: \<open>JSON.stringify\<close> and \<open>JSON.parse\<close> on texts.
  \<open>Paths\<close>: the POSIX paths of Node. Integers of the program are counters and times and are
  modelled as \<open>int\<close>; only the 32-bit length in a container log is read from its bytes.

  \<^bold>\<open>The kernel.\<close>
  \<open>Logging\<close> (logging/logger.ts): the log and the world every component passes on.
  \<open>Lifecycle\<close> (lifecycle/): the transition table, the controller and its history.
  \<open>Permissions\<close> (permissions/) and \<open>Delegation\<close> (delegation/): evaluation of grants and policies;
  the tree of tokens, attenuation, cascading revocation.
  \<open>Ephemeral\<close>, \<open>Persistent\<close>, \<open>Shared\<close> (memory/): tick memory with checkpoints, durable memory
  with its write-ahead entries, shared memory behind permissions.
  \<open>Failure\<close> (failure/) and \<open>Invariants\<close> (invariants/checker.ts): retries, halts, and assertions.
  \<open>Tools\<close> (tools/, kernel/config.ts): registry and gate. \<open>Execution\<close> (execution/tick.ts, quota.ts,
  replay-controller.ts), \<open>Scheduler\<close> (execution/scheduler.ts), \<open>Canonical\<close> (its state hash and the
  deep equality), \<open>Replay\<close> (both modes compared, and the handlers of host/boot.ts), \<open>Awaiting\<close>.
  \<open>Metered\<close>: the scheduler over any engine, and what quotas promise whatever the engine answers.
  \<open>Telemetry\<close> (host/telemetry/): tick, gate and scheduler with their calls to OpenTelemetry, shown to
  be the operations without them and to end every span they start.
  \<open>Bus\<close> (kernel/bus.ts, identity/): events and identities. \<open>Reentrant\<close>: the bus with handlers that
  subscribe and emit while it delivers; what a delivery then calls, in which order, and when it ends.
  \<open>Kernel\<close> (kernel/index.ts): the wiring, and the reachable states of a kernel under any operations of
  its components.
  \<open>Swarm\<close> (swarm/): channels, votes, and the three strategies, with handlers and workers that use the
  protocol while a message is delivered.

  \<^bold>\<open>The host.\<close> \<open>Plugins\<close> and \<open>PluginLoader\<close> (plugins/), \<open>HostTools\<close> (host/tools/), \<open>Sqlite\<close>
  (host/db/), \<open>FileLog\<close> (host/logger.ts), \<open>Dashboard\<close> and \<open>DashboardPage\<close> (host/dashboard/: the
  server and the counters of its page; the page in a browser that connects to it), \<open>Docker\<close>
  (host/sandbox/), \<open>Brain\<close> (host/brain.ts, host/adapters/ollama.ts), \<open>Tui\<close> and \<open>Terminal\<close> (host/tui.ts:
  the contents of the boxes, and the calls to the terminal library, shown to fill them so),
  \<open>SwarmScript\<close>, \<open>SweAgent\<close> and \<open>Researcher\<close> (host/agents/, host/tools/browser.ts), \<open>Ecosystem\<close>
  (host/index.ts), \<open>Simulation\<close> (simulation.ts, host/boot.ts).

  \<^bold>\<open>The documentation site.\<close> (docs/layer/) \<open>Navigation\<close>: the tree of pages and the breadcrumbs.
  \<open>DocsContent\<close>: declared and queried collections, the site map, the tools for language models.
  \<open>SiteConfig\<close>: repository, defaults, locales. \<open>MarkdownRoutes\<close>: redirects to raw texts.
  \<open>Assistant\<close>: the assistant of the site. \<open>Seo\<close>: links and structured data of a page.
  \<open>AssistantRoute\<close>: a whole request to it. \<open>ChatViews\<close> and \<open>Progress\<close>: the scripts of its components, and
  its indicator of progress.
  \<open>SiteViews\<close>: the logo and its menu, flags, page links and the start of the application.
  \<open>SiteShell\<close>: header, footer, error and landing page, cards, page views, computed settings.
  \<open>LogoAnimation\<close>: the timers of the animated logo as a transition system, and its invariant.

  \<^bold>\<open>Tests.\<close> \<open>KernelSuite\<close>, \<open>ModuleSuites\<close>, \<open>HostSuites\<close> and \<open>Terminal\<close> (tests/, host/agents/devin.ts), \<open>Scripts\<close> and
  \<open>AsyncScripts\<close> (the \<open>test_*.ts\<close> beside the sources): the repository's tests as programs over the
  model. A lemma gives the result of each suite and the console of each script; they tie the
  definitions to what the authors expect of the code, and show where a test expects what the code
  does not do. What tests/quota.test.ts checks for two quotas is a theorem of \<open>Metered\<close> for all.

  \<^bold>\<open>Awaits.\<close> A function that awaits is modelled as if nothing else ran, except in \<open>Awaiting\<close>, where a
  run of the scheduler is cut at its awaits into pieces; the pieces in a row are shown to be the run.
  \<open>Simulation\<close> interleaves the pieces of two runs that nobody awaits. \<open>Interference\<close> takes any number
  of agents in any interleaving: they are shown not to interfere, by the purge argument of the locale
  \<open>noninterference\<close> over the view each agent has of the scheduler; runs of one agent do interfere.

  \<^bold>\<open>Interfaces.\<close> Components that share a contract meet it through a locale interpreted on the code's
  model: the clients of the one log, the metered resources, the stores that replay a log, the
  subscribers of a bus and of a channel, the loggers that number their entries.

  \<^bold>\<open>Parameters.\<close> What is not in the repository is an argument: the hash function, the file system,
  the shell, the container service, the language-model services, the exports of plugins, and the
  readings of the clock. Policies and tool handlers are code of the caller, functions on an
  environment; the handlers of the bus in \<open>Reentrant\<close>, and those of the swarm with the functions it is
  given, are programs that may call the component they are called from. Laws they are assumed to
  have stand in the statements that need them, with a witness.

  \<^bold>\<open>Termination.\<close> The loops of the program are recursive functions proved total: a run logs at most
  two ticks, a revocation shrinks the set of live nodes, the decoder of a container log shrinks its
  buffer, the engineer agent has at most fourteen rounds. No fuel is used. With an engine that is a
  parameter the loop of the scheduler may not end; it is a partial function of \<open>Metered\<close>, proved to
  end for every agent with a tick quota and not to end for some engine without one. So is a delivery
  of the bus in \<open>Reentrant\<close>: it ends if handlers emit and subscribe below a rank of their event, and does
  not return if all of them subscribe for the kind they handle. So is a delivery of the swarm; a swarm
  run is proved to return if the functions and the deliveries it makes do.

  \<^bold>\<open>Not modelled.\<close> Freezing of objects (values cannot be assigned to), the exporters of the telemetry,
  the console output of the programs other than the test scripts, delays, the markup and
  styles of the dashboard page, of the terminal and of the documentation site, its literal tables and
  settings, the AI SDK, the tests of a running container service, and
  test_scheduler_tool.ts, which does not type-check. Code points beyond one code unit are written as
  their UTF-8 bytes where a text needs them.
\<close>

end
